(* ===== verification/Prelude.thy ===== *)
theory Prelude
  imports Main "HOL-Library.Word"
begin

text \<open>
  Shared vocabulary of the development: machine integers, the crate's error type
  (src/src/error.rs), the outcome of a Rust computation (value, error value or panic), checked
  slice and index operations, saturating arithmetic, big-endian byte strings, byte-string literals
  and UTF-8 validation. Later theories add their own facts to the collections declared here:
  \<open>wire_simps\<close> (what a reader does on bytes a writer produced), \<open>chan_simps\<close> (what the channel
  operations leave in the table) and \<open>codec_simps\<close> (the packet codec).
\<close>

named_theorems wire_simps "reading back what was written"
named_theorems chan_simps "effect of the channel operations on the table"
named_theorems codec_simps "effect of the packet codec"

section \<open>Types\<close>

type_synonym u8 = "8 word"
type_synonym u32 = "32 word"
type_synonym u64 = "64 word"

text \<open>
  \<open>Vec<u8>\<close>, \<open>[u8]\<close> and fixed arrays are byte lists. A Rust \<open>str\<close> or \<open>String\<close> is its UTF-8 byte
  sequence, so \<open>as_bytes\<close> is the identity; \<open>usize\<close> is a \<open>nat\<close>, with the 64-bit limit written out
  where the source checks it.
\<close>

type_synonym bytes = "u8 list"
type_synonym rust_str = "u8 list"

definition lit :: "string \<Rightarrow> bytes" where
  "lit s = map of_char s"

definition USIZE_LIMIT :: nat where
  "USIZE_LIMIT = 2 ^ 64"

section \<open>Errors and outcomes\<close>

text \<open>
  The crate's \<open>Error\<close>. Static messages are kept. The payloads of the I/O, security-key and
  PKCS#11 variants are errors of other layers that nothing modelled here produces or inspects.
\<close>

datatype error =
    Format string
  | NoCommonAlgorithm string
  | Protocol string
  | BadMac
  | BadTag
  | BadPadding
  | BadSignature
  | HostKeyRejected
  | AuthFailed
  | BadChannelState
  | Unsupported string
  | Io
  | Crypto string
  | Config string
  | CertExpired
  | CertNotYetValid
  | CertPrincipalMismatch
  | CertTypeMismatch
  | CertUnknownCriticalOption
  | CertBadCaSignature
  | NoMatch string rust_str rust_str
  | SecurityKey
  | Pkcs11
  | Disconnected u32 rust_str

text \<open>
  The outcome of a Rust computation: \<open>Ok\<close> and \<open>Err\<close> as in the source, \<open>Panic\<close> for an index out of
  range, a slice with bad bounds or an arithmetic underflow in checked builds.
\<close>

datatype 'a res = Ok 'a | Err error | Panic

definition bind_res :: "'a res \<Rightarrow> ('a \<Rightarrow> 'b res) \<Rightarrow> 'b res" where
  "bind_res m f = (case m of Ok x \<Rightarrow> f x | Err e \<Rightarrow> Err e | Panic \<Rightarrow> Panic)"

lemma bind_res_simps [simp]:
  "bind_res (Ok x) f = f x"
  "bind_res (Err e) f = Err e"
  "bind_res Panic f = Panic"
  by (simp_all add: bind_res_def)

lemma bind_res_assoc:
  "bind_res (bind_res m f) g = bind_res m (\<lambda>x. bind_res (f x) g)"
  by (cases m) simp_all

lemma bind_res_eq_Ok:
  "bind_res m f = Ok y \<longleftrightarrow> (\<exists>x. m = Ok x \<and> f x = Ok y)"
  by (cases m) simp_all

lemma bind_res_eq_Err:
  "bind_res m f = Err e \<longleftrightarrow> m = Err e \<or> (\<exists>x. m = Ok x \<and> f x = Err e)"
  by (cases m) simp_all

lemma bind_res_eq_Panic:
  "bind_res m f = Panic \<longleftrightarrow> m = Panic \<or> (\<exists>x. m = Ok x \<and> f x = Panic)"
  by (cases m) simp_all

lemma map_res_eq_Panic [simp]: "map_res g m = Panic \<longleftrightarrow> m = Panic"
  by (cases m) simp_all

lemma map_res_eq_Ok: "map_res g m = Ok y \<longleftrightarrow> (\<exists>x. m = Ok x \<and> y = g x)"
  by (cases m) auto

lemma bind_res_no_panic [intro]:
  assumes "m \<noteq> Panic" and "\<And>x. m = Ok x \<Longrightarrow> f x \<noteq> Panic"
  shows "bind_res m f \<noteq> Panic"
  using assms by (cases m) simp_all

definition is_ok :: "'a res \<Rightarrow> bool" where
  "is_ok m \<longleftrightarrow> (case m of Ok _ \<Rightarrow> True | _ \<Rightarrow> False)"

section \<open>Indexing, slicing and saturation\<close>

text \<open>\<open>xs[i]\<close>, \<open>&xs[a..b]\<close> and checked subtraction: out of range is a panic.\<close>

definition index_res :: "'a list \<Rightarrow> nat \<Rightarrow> 'a res" where
  "index_res xs i = (if i < length xs then Ok (xs ! i) else Panic)"

definition slice_res :: "'a list \<Rightarrow> nat \<Rightarrow> nat \<Rightarrow> 'a list res" where
  "slice_res xs a b =
     (if a \<le> b \<and> b \<le> length xs then Ok (take (b - a) (drop a xs)) else Panic)"

definition sub_res :: "nat \<Rightarrow> nat \<Rightarrow> nat res" where
  "sub_res a b = (if b \<le> a then Ok (a - b) else Panic)"

lemma index_res_Ok: "i < length xs \<Longrightarrow> index_res xs i = Ok (xs ! i)"
  by (simp add: index_res_def)

lemma slice_res_Ok:
  "a \<le> b \<Longrightarrow> b \<le> length xs \<Longrightarrow> slice_res xs a b = Ok (take (b - a) (drop a xs))"
  by (simp add: slice_res_def)

lemma sub_res_Ok: "b \<le> a \<Longrightarrow> sub_res a b = Ok (a - b)"
  by (simp add: sub_res_def)

definition sat_add :: "'a::len word \<Rightarrow> 'a word \<Rightarrow> 'a word" where
  "sat_add a b = (if unat a + unat b < 2 ^ LENGTH('a) then a + b else - 1)"

definition sat_sub :: "'a::len word \<Rightarrow> 'a word \<Rightarrow> 'a word" where
  "sat_sub a b = (if b \<le> a then a - b else 0)"

definition sat_mul :: "'a::len word \<Rightarrow> 'a word \<Rightarrow> 'a word" where
  "sat_mul a b = (if unat a * unat b < 2 ^ LENGTH('a) then a * b else - 1)"

lemma unat_less_p2: "unat w < 2 ^ LENGTH('a)" for w :: "'a::len word"
  by (rule unsigned_less)

lemma unat_max_word_nat: "unat (- 1 :: 'a::len word) = 2 ^ LENGTH('a) - 1"
  by (simp add: unsigned_minus_1_eq_mask mask_eq_exp_minus_1)

lemma unat_sat_add: "unat (sat_add a b) = min (unat a + unat b) (2 ^ LENGTH('a) - 1)"
  for a b :: "'a::len word"
proof (cases "unat a + unat b < 2 ^ LENGTH('a)")
  case True
  then have "unat (a + b) = unat a + unat b" by (simp add: unat_word_ariths)
  with True show ?thesis by (simp add: sat_add_def)
next
  case False
  then show ?thesis by (simp add: sat_add_def unat_max_word_nat)
qed

lemma unat_sat_sub: "unat (sat_sub a b) = unat a - unat b"
  by (auto simp: sat_sub_def unat_sub word_le_nat_alt)

section \<open>Big-endian byte strings\<close>

text \<open>
  \<open>be_bytes n v\<close> are the \<open>n\<close> low-order bytes of \<open>v\<close>, most significant first; \<open>be_value\<close> reads a
  byte string back. \<open>u32::to_be_bytes\<close> is \<open>be_bytes 4\<close> and \<open>u64::to_be_bytes\<close> is \<open>be_bytes 8\<close>.
\<close>

fun be_bytes :: "nat \<Rightarrow> nat \<Rightarrow> bytes" where
  "be_bytes 0 v = []"
| "be_bytes (Suc n) v = be_bytes n (v div 256) @ [of_nat v]"

fun be_value_acc :: "nat \<Rightarrow> bytes \<Rightarrow> nat" where
  "be_value_acc acc [] = acc"
| "be_value_acc acc (b # bs) = be_value_acc (acc * 256 + unat b) bs"

definition be_value :: "bytes \<Rightarrow> nat" where
  "be_value bs = be_value_acc 0 bs"

definition u32_to_be :: "u32 \<Rightarrow> bytes" where
  "u32_to_be v = be_bytes 4 (unat v)"

definition u32_from_be :: "bytes \<Rightarrow> u32" where
  "u32_from_be bs = of_nat (be_value bs)"

definition u64_to_be :: "u64 \<Rightarrow> bytes" where
  "u64_to_be v = be_bytes 8 (unat v)"

definition u64_from_be :: "bytes \<Rightarrow> u64" where
  "u64_from_be bs = of_nat (be_value bs)"

lemma be_value_acc_append:
  "be_value_acc acc (xs @ ys) = be_value_acc (be_value_acc acc xs) ys"
  by (induction xs arbitrary: acc) simp_all

lemma be_value_acc_shift:
  "be_value_acc acc bs = acc * 256 ^ length bs + be_value_acc 0 bs"
proof (induction bs arbitrary: acc)
  case Nil
  show ?case by simp
next
  case (Cons b bs)
  have "be_value_acc (acc * 256 + unat b) bs
      = (acc * 256 + unat b) * 256 ^ length bs + be_value_acc 0 bs"
    by (rule Cons.IH)
  moreover have "be_value_acc (unat b) bs = unat b * 256 ^ length bs + be_value_acc 0 bs"
    by (rule Cons.IH)
  ultimately show ?case by (simp add: algebra_simps)
qed

lemma be_value_Nil [simp]: "be_value [] = 0"
  by (simp add: be_value_def)

lemma be_value_Cons: "be_value (b # bs) = unat b * 256 ^ length bs + be_value bs"
  by (simp add: be_value_def be_value_acc_shift [of "unat b"])

lemma be_value_snoc: "be_value (bs @ [b]) = be_value bs * 256 + unat b"
  by (simp add: be_value_def be_value_acc_append)

lemma unat_byte_less: "unat (b :: u8) < 256"
  using unat_less_p2 [of b] by simp

lemma be_value_bound: "be_value bs < 256 ^ length bs"
proof (induction bs rule: rev_induct)
  case Nil
  show ?case by simp
next
  case (snoc b bs)
  with unat_byte_less [of b] show ?case by (simp add: be_value_snoc)
qed

lemma length_be_bytes [simp]: "length (be_bytes n v) = n"
  by (induction n arbitrary: v) simp_all

lemma be_value_be_bytes: "be_value (be_bytes n v) = v mod 256 ^ n"
proof (induction n arbitrary: v)
  case 0
  show ?case by simp
next
  case (Suc n)
  have "unat (of_nat v :: u8) = v mod 256" by (simp add: unat_of_nat)
  moreover have "v mod 256 ^ Suc n = (v div 256 mod 256 ^ n) * 256 + v mod 256"
    by (simp add: mod_mult2_eq)
  ultimately show ?case by (simp add: be_value_snoc Suc.IH)
qed

lemma be_bytes_be_value: "be_bytes (length bs) (be_value bs) = bs"
proof (induction bs rule: rev_induct)
  case Nil
  show ?case by simp
next
  case (snoc b bs)
  have "(be_value bs * 256 + unat b) div 256 = be_value bs"
    using unat_byte_less [of b] by simp
  moreover have "(of_nat (be_value bs * 256 + unat b) :: u8) = b"
  proof -
    have "(256 :: u8) = 0" by simp
    then have "(of_nat (be_value bs) :: u8) * 256 = 0" by (metis mult_zero_right)
    then show ?thesis by simp
  qed
  ultimately show ?case using snoc by (simp add: be_value_snoc)
qed

lemma length_u32_to_be [simp]: "length (u32_to_be v) = 4"
  by (simp add: u32_to_be_def)

lemma length_u64_to_be [simp]: "length (u64_to_be v) = 8"
  by (simp add: u64_to_be_def)

lemma u32_from_to_be [simp]: "u32_from_be (u32_to_be v) = v"
proof -
  have "unat v < 256 ^ 4" using unat_less_p2 [of v] by simp
  then show ?thesis by (simp add: u32_from_be_def u32_to_be_def be_value_be_bytes)
qed

lemma u64_from_to_be [simp]: "u64_from_be (u64_to_be v) = v"
proof -
  have "unat v < 256 ^ 8" using unat_less_p2 [of v] by simp
  then show ?thesis by (simp add: u64_from_be_def u64_to_be_def be_value_be_bytes)
qed

lemma u32_to_from_be: "length bs = 4 \<Longrightarrow> u32_to_be (u32_from_be bs) = bs"
proof -
  assume len: "length bs = 4"
  then have "be_value bs < 2 ^ 32" using be_value_bound [of bs] by simp
  then have "unat (u32_from_be bs) = be_value bs"
    by (simp add: u32_from_be_def unat_of_nat)
  with len be_bytes_be_value [of bs] show ?thesis by (simp add: u32_to_be_def)
qed

lemma u32_from_be_four: "u32_from_be [a, b, c, d] =
   of_nat (unat a * 16777216 + unat b * 65536 + unat c * 256 + unat d)"
  by (simp add: u32_from_be_def be_value_def algebra_simps)

lemma unat_of_nat_u32: "n < 2 ^ 32 \<Longrightarrow> unat (of_nat n :: u32) = n"
  by (simp add: unat_of_nat)

section \<open>Byte-string literals\<close>

lemma unat_of_char: "unat (of_char c :: u8) = of_char c"
proof -
  have "(of_char c :: u8) = of_nat (of_char c)" by (simp only: of_nat_of_char)
  then have "unat (of_char c :: u8) = of_char c mod 256"
    by (simp add: unat_of_nat del: of_char_mod_256)
  then show ?thesis by simp
qed

lemma of_char_u8_inject [simp]: "(of_char c :: u8) = of_char d \<longleftrightarrow> c = d"
proof
  assume "(of_char c :: u8) = of_char d"
  then have "(of_char c :: nat) = of_char d" by (metis unat_of_char)
  then show "c = d" by simp
qed simp

lemma lit_inject [simp]: "lit s = lit t \<longleftrightarrow> s = t"
proof -
  have "inj (of_char :: char \<Rightarrow> u8)" by (simp add: inj_def)
  then show ?thesis by (simp add: lit_def inj_map_eq_map)
qed

lemma length_lit [simp]: "length (lit s) = length s"
  by (simp add: lit_def)

end
