(* ===== verification/Utf8.thy ===== *)
theory Utf8
  imports Prelude
begin

text \<open>
  \<open>core::str::from_utf8\<close>: the well-formed byte sequences of the Unicode standard (table 3-7), which
  is what the Rust standard library accepts. A Rust \<open>str\<close> is its own byte sequence, so a successful
  conversion returns the bytes unchanged. The lemmas give what the codecs need: ASCII text is
  accepted, and a valid prefix can be split off.
\<close>

definition in_range :: "u8 \<Rightarrow> u8 \<Rightarrow> u8 \<Rightarrow> bool" where
  "in_range lo hi b \<longleftrightarrow> lo \<le> b \<and> b \<le> hi"

text \<open>The admissible range of the second byte of a three- or four-byte sequence.\<close>

definition second_of_three :: "u8 \<Rightarrow> u8 \<Rightarrow> bool" where
  "second_of_three b0 b1 =
     (if b0 = 0xE0 then in_range 0xA0 0xBF b1
      else if b0 = 0xED then in_range 0x80 0x9F b1
      else in_range 0x80 0xBF b1)"

definition second_of_four :: "u8 \<Rightarrow> u8 \<Rightarrow> bool" where
  "second_of_four b0 b1 =
     (if b0 = 0xF0 then in_range 0x90 0xBF b1
      else if b0 = 0xF4 then in_range 0x80 0x8F b1
      else in_range 0x80 0xBF b1)"

text \<open>The length of the well-formed sequence at the front, if there is one.\<close>

definition utf8_step :: "bytes \<Rightarrow> nat option" where
  "utf8_step bs =
     (case bs of
        [] \<Rightarrow> None
      | b0 # r \<Rightarrow>
          if b0 < 0x80 then Some 1
          else if in_range 0xC2 0xDF b0 then
            (case r of b1 # _ \<Rightarrow> if in_range 0x80 0xBF b1 then Some 2 else None | _ \<Rightarrow> None)
          else if in_range 0xE0 0xEF b0 then
            (case r of b1 # b2 # _ \<Rightarrow>
               if second_of_three b0 b1 \<and> in_range 0x80 0xBF b2 then Some 3 else None
             | _ \<Rightarrow> None)
          else if in_range 0xF0 0xF4 b0 then
            (case r of b1 # b2 # b3 # _ \<Rightarrow>
               if second_of_four b0 b1 \<and> in_range 0x80 0xBF b2 \<and> in_range 0x80 0xBF b3
               then Some 4 else None
             | _ \<Rightarrow> None)
          else None)"

lemma utf8_step_pos: "utf8_step bs = Some n \<Longrightarrow> 0 < n \<and> n \<le> length bs"
  by (auto simp: utf8_step_def split: list.splits if_splits)

lemma utf8_step_append: "utf8_step bs = Some n \<Longrightarrow> utf8_step (bs @ cs) = Some n"
  by (auto simp: utf8_step_def split: list.splits if_splits)

function valid_utf8 :: "bytes \<Rightarrow> bool" where
  "valid_utf8 bs =
     (if bs = [] then True
      else case utf8_step bs of None \<Rightarrow> False | Some n \<Rightarrow> valid_utf8 (drop n bs))"
  by pat_completeness auto
termination
proof (relation "measure length")
  show "wf (measure length)" by simp
next
  fix bs :: bytes and n
  assume "bs \<noteq> []" and "utf8_step bs = Some n"
  then show "(drop n bs, bs) \<in> measure length" by (auto dest: utf8_step_pos)
qed

declare valid_utf8.simps [simp del]

definition from_utf8 :: "bytes \<Rightarrow> rust_str option" where
  "from_utf8 bs = (if valid_utf8 bs then Some bs else None)"

lemma valid_utf8_Nil [simp]: "valid_utf8 []"
  by (subst valid_utf8.simps) simp

lemma valid_utf8_step:
  "utf8_step bs = Some n \<Longrightarrow> valid_utf8 bs = valid_utf8 (drop n bs)"
  by (subst valid_utf8.simps) (auto simp: utf8_step_def)

lemma valid_utf8_ascii_Cons [simp]: "b < 0x80 \<Longrightarrow> valid_utf8 (b # bs) = valid_utf8 bs"
  by (subst valid_utf8.simps) (simp add: utf8_step_def)

lemma valid_utf8_ascii: "(\<forall>b \<in> set bs. b < 0x80) \<Longrightarrow> valid_utf8 bs"
  by (induction bs) simp_all

lemma valid_utf8_append:
  assumes "valid_utf8 bs"
  shows "valid_utf8 (bs @ cs) = valid_utf8 cs"
  using assms
proof (induction bs rule: valid_utf8.induct)
  case (1 bs)
  show ?case
  proof (cases "bs = []")
    case True
    then show ?thesis by simp
  next
    case False
    with 1(2) obtain n where n: "utf8_step bs = Some n" "valid_utf8 (drop n bs)"
      by (subst (asm) valid_utf8.simps) (auto split: option.splits)
    have "valid_utf8 (bs @ cs) = valid_utf8 (drop n (bs @ cs))"
      by (rule valid_utf8_step [OF utf8_step_append [OF n(1)]])
    also have "\<dots> = valid_utf8 (drop n bs @ cs)"
      using utf8_step_pos [OF n(1)] by simp
    also have "\<dots> = valid_utf8 cs"
      by (rule 1(1) [OF False n(1) n(2)])
    finally show ?thesis .
  qed
qed

lemma from_utf8_valid [simp]: "valid_utf8 bs \<Longrightarrow> from_utf8 bs = Some bs"
  by (simp add: from_utf8_def)

lemma from_utf8_eq_Some [simp]: "from_utf8 bs = Some s \<longleftrightarrow> valid_utf8 bs \<and> s = bs"
  by (auto simp: from_utf8_def)

lemma of_char_ascii: "of_char c < (128 :: nat) \<Longrightarrow> (of_char c :: u8) < 0x80"
  by (simp add: word_less_nat_alt unat_of_char)

lemma valid_utf8_lit: "(\<forall>c \<in> set s. of_char c < (128 :: nat)) \<Longrightarrow> valid_utf8 (lit s)"
  by (rule valid_utf8_ascii) (auto simp: lit_def of_char_ascii)

end
