(* ===== verification/Wire.thy ===== *)
theory Wire
  imports Utf8
begin

text \<open>
  The SSH wire format (RFC 4251 section 5), src/src/hazmat/format: the cursor \<open>Reader\<close>, the
  growable \<open>Writer\<close>, \<open>mpint\<close> and \<open>NameList\<close>. The interface every field type offers the message
  codecs is the locale \<open>wire_codec\<close>: what the writer appends, the reader at that place takes
  back, leaving the cursor right behind it. It is interpreted here for \<open>byte\<close>, \<open>boolean\<close>,
  \<open>uint32\<close>, \<open>uint64\<close>, \<open>string\<close> and UTF-8 \<open>string\<close>, and its sequencing lemmas are what the
  messages' round trips rest on.
\<close>

section \<open>Reader (reader.rs)\<close>

record reader =
  r_buf :: bytes
  r_pos :: nat

type_synonym 'a rd = "reader \<Rightarrow> ('a \<times> reader) res"

definition reader_new :: "bytes \<Rightarrow> reader" where
  "reader_new b = \<lparr>r_buf = b, r_pos = 0\<rparr>"

definition remaining :: "reader \<Rightarrow> nat" where
  "remaining r = length (r_buf r) - r_pos r"

definition reader_is_empty :: "reader \<Rightarrow> bool" where
  "reader_is_empty r \<longleftrightarrow> remaining r = 0"

definition take_bytes :: "nat \<Rightarrow> bytes rd" where
  "take_bytes n r =
     (if r_pos r + n \<ge> USIZE_LIMIT then Err (Format ''overflow'')
      else let end = r_pos r + n in
        if end > length (r_buf r) then Err (Format ''short read'')
        else bind_res (slice_res (r_buf r) (r_pos r) end) (\<lambda>out. Ok (out, r\<lparr>r_pos := end\<rparr>)))"

text \<open>Sequencing of reads on one cursor: the \<open>?\<close> operator over \<open>&mut Reader\<close>.\<close>

definition rd_bind :: "'a rd \<Rightarrow> ('a \<Rightarrow> 'b rd) \<Rightarrow> 'b rd" where
  "rd_bind m f r = bind_res (m r) (\<lambda>(x, r'). f x r')"

definition rd_ok :: "'a \<Rightarrow> 'a rd" where
  "rd_ok x r = Ok (x, r)"

definition rd_err :: "error \<Rightarrow> 'a rd" where
  "rd_err e r = Err e"

definition read_u8 :: "u8 rd" where
  "read_u8 = rd_bind (take_bytes 1) (\<lambda>b r. bind_res (index_res b 0) (\<lambda>x. Ok (x, r)))"

definition read_bool :: "bool rd" where
  "read_bool = rd_bind read_u8 (\<lambda>b. rd_ok (b \<noteq> 0))"

definition read_u32 :: "u32 rd" where
  "read_u32 = rd_bind (take_bytes 4) (\<lambda>b r.
     bind_res (index_res b 0) (\<lambda>b0. bind_res (index_res b 1) (\<lambda>b1.
     bind_res (index_res b 2) (\<lambda>b2. bind_res (index_res b 3) (\<lambda>b3.
       Ok (u32_from_be [b0, b1, b2, b3], r))))))"

definition read_u64 :: "u64 rd" where
  "read_u64 = rd_bind (take_bytes 8) (\<lambda>b r.
     bind_res (index_res b 0) (\<lambda>b0. bind_res (index_res b 1) (\<lambda>b1.
     bind_res (index_res b 2) (\<lambda>b2. bind_res (index_res b 3) (\<lambda>b3.
     bind_res (index_res b 4) (\<lambda>b4. bind_res (index_res b 5) (\<lambda>b5.
     bind_res (index_res b 6) (\<lambda>b6. bind_res (index_res b 7) (\<lambda>b7.
       Ok (u64_from_be [b0, b1, b2, b3, b4, b5, b6, b7], r))))))))))"

definition read_string :: "bytes rd" where
  "read_string = rd_bind read_u32 (\<lambda>len. take_bytes (unat len))"

section \<open>Writer (writer.rs)\<close>

record writer =
  w_buf :: bytes

definition writer_new :: writer where
  "writer_new = \<lparr>w_buf = []\<rparr>"

definition write_raw :: "bytes \<Rightarrow> writer \<Rightarrow> writer" where
  "write_raw b w = w\<lparr>w_buf := w_buf w @ b\<rparr>"

definition write_u8 :: "u8 \<Rightarrow> writer \<Rightarrow> writer" where
  "write_u8 v w = w\<lparr>w_buf := w_buf w @ [v]\<rparr>"

definition write_bool :: "bool \<Rightarrow> writer \<Rightarrow> writer" where
  "write_bool v w = w\<lparr>w_buf := w_buf w @ [if v then 1 else 0]\<rparr>"

definition write_u32 :: "u32 \<Rightarrow> writer \<Rightarrow> writer" where
  "write_u32 v w = w\<lparr>w_buf := w_buf w @ u32_to_be v\<rparr>"

definition write_u64 :: "u64 \<Rightarrow> writer \<Rightarrow> writer" where
  "write_u64 v w = w\<lparr>w_buf := w_buf w @ u64_to_be v\<rparr>"

text \<open>
  The length prefix is \<open>s.len() as u32\<close>: it wraps for a string of 4 GiB or more. (Debug builds
  assert the bound; the model is of release builds, where the assertion is compiled out.)
\<close>

definition write_string :: "bytes \<Rightarrow> writer \<Rightarrow> writer" where
  "write_string s w =
     (let w' = write_u32 (of_nat (length s)) w in w'\<lparr>w_buf := w_buf w' @ s\<rparr>)"

definition into_vec :: "writer \<Rightarrow> bytes" where
  "into_vec w = w_buf w"

section \<open>mpint (mpint.rs)\<close>

definition read_mpint :: "bytes rd" where
  "read_mpint = read_string"

text \<open>The \<open>while\<close> loop that skips leading zero bytes.\<close>

function skip_zeros :: "bytes \<Rightarrow> nat \<Rightarrow> nat" where
  "skip_zeros m start =
     (if start < length m \<and> m ! start = 0 then skip_zeros m (start + 1) else start)"
  by pat_completeness auto
termination
  by (relation "measure (\<lambda>(m, start). length m - start)") auto

declare skip_zeros.simps [simp del]

definition high_bit :: "u8 \<Rightarrow> bool" where
  "high_bit b \<longleftrightarrow> and b 0x80 \<noteq> 0"

definition write_mpint :: "bytes \<Rightarrow> writer \<Rightarrow> writer" where
  "write_mpint magnitude w =
     (let m = drop (skip_zeros magnitude 0) magnitude in
      case m of
        [] \<Rightarrow> write_u32 0 w
      | b # _ \<Rightarrow>
          if high_bit b
          then write_raw m (write_u8 0 (write_u32 (of_nat (length m + 1)) w))
          else write_raw m (write_u32 (of_nat (length m)) w))"

section \<open>NameList (name\_list.rs)\<close>

text \<open>\<open>slice::split(|b| b == sep)\<close>: always at least one piece, empty pieces kept.\<close>

fun split_on :: "'a \<Rightarrow> 'a list \<Rightarrow> 'a list list" where
  "split_on c [] = [[]]"
| "split_on c (x # xs) =
     (if x = c then [] # split_on c xs
      else case split_on c xs of [] \<Rightarrow> [[x]] | p # ps \<Rightarrow> (x # p) # ps)"

abbreviation comma :: u8 where
  "comma \<equiv> 0x2C"

definition name_list_read :: "bytes rd" where
  "name_list_read = read_string"

definition name_list_iter :: "bytes \<Rightarrow> bytes list" where
  "name_list_iter nl = filter (\<lambda>s. s \<noteq> []) (split_on comma nl)"

fun name_list_negotiate :: "rust_str list \<Rightarrow> bytes \<Rightarrow> rust_str option" where
  "name_list_negotiate [] theirs = None"
| "name_list_negotiate (name # ours) theirs =
     (if \<exists>t \<in> set (name_list_iter theirs). t = name then Some name
      else name_list_negotiate ours theirs)"

section \<open>A cursor split at its position\<close>

text \<open>
  \<open>rd_at pre post\<close> is the cursor over \<open>pre @ post\<close> that has consumed \<open>pre\<close>. Rust buffers never
  reach the address-space limit; \<open>small\<close> states that of the buffer the cursor runs over.
\<close>

definition rd_at :: "bytes \<Rightarrow> bytes \<Rightarrow> reader" where
  "rd_at pre post = \<lparr>r_buf = pre @ post, r_pos = length pre\<rparr>"

definition small :: "bytes \<Rightarrow> bool" where
  "small b \<longleftrightarrow> length b < USIZE_LIMIT"

abbreviation fits :: "bytes \<Rightarrow> bytes \<Rightarrow> bool" where
  "fits pre post \<equiv> small (pre @ post)"

lemma reader_new_rd_at: "reader_new b = rd_at [] b"
  by (simp add: reader_new_def rd_at_def)

lemma remaining_rd_at [simp]: "remaining (rd_at pre post) = length post"
  by (simp add: remaining_def rd_at_def)

lemma reader_is_empty_rd_at [simp]: "reader_is_empty (rd_at pre post) \<longleftrightarrow> post = []"
  by (simp add: reader_is_empty_def)

lemma rd_ok_apply [simp]: "rd_ok x r = Ok (x, r)"
  by (simp add: rd_ok_def)

lemma rd_err_apply [simp]: "rd_err e r = Err e"
  by (simp add: rd_err_def)

lemma rd_bind_Ok: "m r = Ok (x, r') \<Longrightarrow> rd_bind m f r = f x r'"
  by (simp add: rd_bind_def)

lemma rd_bind_Err: "m r = Err e \<Longrightarrow> rd_bind m f r = Err e"
  by (simp add: rd_bind_def)

lemma rd_bind_eq_Ok:
  "rd_bind m f r = Ok y \<longleftrightarrow> (\<exists>x r'. m r = Ok (x, r') \<and> f x r' = Ok y)"
  by (auto simp: rd_bind_def bind_res_eq_Ok)

lemma take_bytes_at:
  "fits pre (a @ post) \<Longrightarrow> length a = n \<Longrightarrow>
     take_bytes n (rd_at pre (a @ post)) = Ok (a, rd_at (pre @ a) post)"
  by (auto simp: take_bytes_def rd_at_def small_def slice_res_def Let_def)

lemma take_bytes_all [wire_simps]:
  "fits pre post \<Longrightarrow> take_bytes (length post) (rd_at pre post) = Ok (post, rd_at (pre @ post) [])"
  using take_bytes_at [of pre post "[]"] by simp

lemma take_bytes_short:
  "fits pre post \<Longrightarrow> length post < n \<Longrightarrow> n < 2 ^ 63 \<Longrightarrow> length pre < 2 ^ 63 \<Longrightarrow>
     take_bytes n (rd_at pre post) = Err (Format ''short read'')"
  by (simp add: take_bytes_def rd_at_def small_def USIZE_LIMIT_def)

section \<open>Panic freedom\<close>

definition safe_rd :: "'a rd \<Rightarrow> bool" where
  "safe_rd m \<longleftrightarrow> (\<forall>r. m r \<noteq> Panic)"

lemma safe_rdI [intro]: "(\<And>r. m r \<noteq> Panic) \<Longrightarrow> safe_rd m"
  by (simp add: safe_rd_def)

lemma safe_rdD [dest]: "safe_rd m \<Longrightarrow> m r \<noteq> Panic"
  by (simp add: safe_rd_def)

lemma safe_rd_bind: "safe_rd m \<Longrightarrow> (\<And>x. safe_rd (f x)) \<Longrightarrow> safe_rd (rd_bind m f)"
  by (auto simp: safe_rd_def rd_bind_def bind_res_eq_Panic split: prod.splits)

lemma safe_rd_ok: "safe_rd (rd_ok x)"
  by (simp add: safe_rd_def)

lemma safe_rd_err: "safe_rd (rd_err e)"
  by (simp add: safe_rd_def)

lemma safe_take_bytes: "safe_rd (take_bytes n)"
  by (auto simp: safe_rd_def take_bytes_def slice_res_def Let_def)

lemma take_bytes_length: "take_bytes n r = Ok (b, r') \<Longrightarrow> length b = n"
  by (auto simp: take_bytes_def slice_res_def Let_def split: if_splits)

lemma safe_read_u8: "safe_rd read_u8"
  using safe_take_bytes [of 1]
  by (auto simp: safe_rd_def read_u8_def rd_bind_def bind_res_eq_Panic index_res_def
      dest!: take_bytes_length)

lemma safe_read_bool: "safe_rd read_bool"
  unfolding read_bool_def by (intro safe_rd_bind safe_read_u8 safe_rd_ok)

lemma safe_read_u32: "safe_rd read_u32"
  using safe_take_bytes [of 4]
  by (auto simp: safe_rd_def read_u32_def rd_bind_def bind_res_eq_Panic index_res_def
      dest!: take_bytes_length)

lemma safe_read_u64: "safe_rd read_u64"
  using safe_take_bytes [of 8]
  by (auto simp: safe_rd_def read_u64_def rd_bind_def bind_res_eq_Panic index_res_def
      dest!: take_bytes_length)

lemma safe_read_string: "safe_rd read_string"
  unfolding read_string_def by (intro safe_rd_bind safe_read_u32 safe_take_bytes)

lemmas safe_reads = safe_rd_bind safe_rd_ok safe_rd_err safe_take_bytes safe_read_u8
  safe_read_bool safe_read_u32 safe_read_u64 safe_read_string

section \<open>The field codecs\<close>

text \<open>
  The contract of a field type: the writer appends \<open>enc x\<close>; a reader standing before \<open>enc x\<close>
  returns \<open>x\<close> and stands right behind it; no input makes the reader panic.
\<close>

locale wire_codec =
  fixes wr :: "'a \<Rightarrow> writer \<Rightarrow> writer"
    and rd :: "'a rd"
    and enc :: "'a \<Rightarrow> bytes"
    and ok :: "'a \<Rightarrow> bool"
  assumes wr_appends: "w_buf (wr x w) = w_buf w @ enc x"
    and rd_back: "ok x \<Longrightarrow> fits pre (enc x @ post) \<Longrightarrow>
      rd (rd_at pre (enc x @ post)) = Ok (x, rd_at (pre @ enc x) post)"
    and rd_safe: "safe_rd rd"
begin

lemma bind_back:
  "ok x \<Longrightarrow> fits pre (enc x @ post) \<Longrightarrow>
     rd_bind rd f (rd_at pre (enc x @ post)) = f x (rd_at (pre @ enc x) post)"
  by (simp add: rd_bind_Ok rd_back)

lemma last_back:
  "ok x \<Longrightarrow> fits pre (enc x) \<Longrightarrow>
     rd_bind rd f (rd_at pre (enc x)) = f x (rd_at (pre @ enc x) [])"
  using bind_back [of x pre "[]"] by simp

lemma round_trip:
  "ok x \<Longrightarrow> fits [] (enc x) \<Longrightarrow>
     rd (reader_new (into_vec (wr x writer_new))) = Ok (x, rd_at (enc x) [])"
  using rd_back [of x "[]" "[]"]
  by (simp add: reader_new_rd_at into_vec_def wr_appends writer_new_def)

text \<open>Unique decoding: no encoding is a proper prefix of another.\<close>

lemma prefix_free:
  assumes "ok x" "ok y" "fits [] (enc x @ p)" "enc x @ p = enc y @ q"
  shows "x = y \<and> p = q"
proof -
  have "rd (rd_at [] (enc x @ p)) = Ok (x, rd_at (enc x) p)"
    using rd_back [of x "[]" p] assms(1,3) by simp
  moreover have "rd (rd_at [] (enc x @ p)) = Ok (y, rd_at (enc y) q)"
    using rd_back [of y "[]" q] assms(2-4) by simp
  ultimately have "x = y" by simp
  with assms(4) show ?thesis by simp
qed

end

text \<open>Two fields in sequence are a field.\<close>

locale wire_codec_pair = A: wire_codec wr1 rd1 enc1 ok1 + B: wire_codec wr2 rd2 enc2 ok2
  for wr1 :: "'a \<Rightarrow> writer \<Rightarrow> writer" and rd1 enc1 ok1
    and wr2 :: "'b \<Rightarrow> writer \<Rightarrow> writer" and rd2 enc2 ok2
begin

sublocale pair: wire_codec
  "\<lambda>(a, b) w. wr2 b (wr1 a w)"
  "rd_bind rd1 (\<lambda>a. rd_bind rd2 (\<lambda>b. rd_ok (a, b)))"
  "\<lambda>(a, b). enc1 a @ enc2 b"
  "\<lambda>(a, b). ok1 a \<and> ok2 b"
proof (unfold_locales, goal_cases)
  case (1 x w)
  show ?case by (cases x) (simp add: A.wr_appends B.wr_appends)
next
  case (2 x pre post)
  then show ?case by (cases x) (simp add: A.bind_back B.bind_back)
next
  case 3
  show ?case by (intro safe_rd_bind A.rd_safe B.rd_safe safe_rd_ok)
qed

end

definition enc_string :: "bytes \<Rightarrow> bytes" where
  "enc_string s = u32_to_be (of_nat (length s)) @ s"

definition fits_u32 :: "bytes \<Rightarrow> bool" where
  "fits_u32 s \<longleftrightarrow> length s < 2 ^ 32"

lemma length_enc_string [simp]: "length (enc_string s) = 4 + length s"
  by (simp add: enc_string_def)

lemma w_buf_simps [wire_simps]:
  "w_buf writer_new = []"
  "w_buf (write_raw b w) = w_buf w @ b"
  "w_buf (write_u8 v w) = w_buf w @ [v]"
  "w_buf (write_bool c w) = w_buf w @ [if c then 1 else 0]"
  "w_buf (write_u32 i w) = w_buf w @ u32_to_be i"
  "w_buf (write_u64 l w) = w_buf w @ u64_to_be l"
  "w_buf (write_string s w) = w_buf w @ enc_string s"
  by (simp_all add: writer_new_def write_raw_def write_u8_def write_bool_def write_u32_def
      write_u64_def write_string_def enc_string_def Let_def)

lemma four_bytes: "length b = 4 \<Longrightarrow> [b ! 0, b ! 1, b ! 2, b ! 3] = b"
  by (auto simp: eval_nat_numeral length_Suc_conv)

lemma eight_bytes:
  "length b = 8 \<Longrightarrow> [b ! 0, b ! 1, b ! 2, b ! 3, b ! 4, b ! 5, b ! 6, b ! 7] = b"
  by (auto simp: eval_nat_numeral length_Suc_conv)

lemma read_u32_bytes: "take_bytes 4 r = Ok (b, r') \<Longrightarrow> read_u32 r = Ok (u32_from_be b, r')"
  using four_bytes [of b] take_bytes_length [of 4 r b r']
  by (auto simp: read_u32_def rd_bind_def index_res_def)

lemma read_u64_bytes: "take_bytes 8 r = Ok (b, r') \<Longrightarrow> read_u64 r = Ok (u64_from_be b, r')"
  using eight_bytes [of b] take_bytes_length [of 8 r b r']
  by (auto simp: read_u64_def rd_bind_def index_res_def)

lemma read_u8_at: "fits pre (v # post) \<Longrightarrow>
    read_u8 (rd_at pre (v # post)) = Ok (v, rd_at (pre @ [v]) post)"
  using take_bytes_at [of pre "[v]" post 1]
  by (simp add: read_u8_def rd_bind_def index_res_def)

lemma read_u32_at: "fits pre (u32_to_be v @ post) \<Longrightarrow>
    read_u32 (rd_at pre (u32_to_be v @ post)) = Ok (v, rd_at (pre @ u32_to_be v) post)"
  using read_u32_bytes [OF take_bytes_at [of pre "u32_to_be v" post 4]] by simp

lemma read_u64_at: "fits pre (u64_to_be v @ post) \<Longrightarrow>
    read_u64 (rd_at pre (u64_to_be v @ post)) = Ok (v, rd_at (pre @ u64_to_be v) post)"
  using read_u64_bytes [OF take_bytes_at [of pre "u64_to_be v" post 8]] by simp

lemma read_string_at:
  assumes "fits_u32 s" and "fits pre (enc_string s @ post)"
  shows "read_string (rd_at pre (enc_string s @ post)) = Ok (s, rd_at (pre @ enc_string s) post)"
proof -
  let ?n = "of_nat (length s) :: u32"
  have "unat ?n = length s" using assms(1) by (simp add: fits_u32_def unat_of_nat_u32)
  with assms(2) show ?thesis
    by (simp add: read_string_def enc_string_def rd_bind_def read_u32_at take_bytes_at)
qed

interpretation u8c: wire_codec write_u8 read_u8 "\<lambda>v. [v]" "\<lambda>_. True"
  by unfold_locales (simp_all add: wire_simps read_u8_at safe_read_u8)

lemma read_bool_at: "fits pre ((if c then 1 else 0) # post) \<Longrightarrow>
    read_bool (rd_at pre ((if c then 1 else 0) # post))
      = Ok (c, rd_at (pre @ [if c then 1 else 0]) post)"
  by (simp add: read_bool_def rd_bind_def read_u8_at)

interpretation boolc: wire_codec write_bool read_bool "\<lambda>v. [if v then 1 else 0]" "\<lambda>_. True"
  by unfold_locales (simp_all add: wire_simps read_bool_at safe_read_bool)

interpretation u32c: wire_codec write_u32 read_u32 u32_to_be "\<lambda>_. True"
  by unfold_locales (simp_all add: wire_simps read_u32_at safe_read_u32)

interpretation u64c: wire_codec write_u64 read_u64 u64_to_be "\<lambda>_. True"
  by unfold_locales (simp_all add: wire_simps read_u64_at safe_read_u64)

interpretation strc: wire_codec write_string read_string enc_string fits_u32
  by unfold_locales (simp_all add: wire_simps read_string_at safe_read_string)

lemma u8c_back [wire_simps]: "fits pre (v # post) \<Longrightarrow>
    rd_bind read_u8 f (rd_at pre (v # post)) = f v (rd_at (pre @ [v]) post)"
  by (simp add: rd_bind_def read_u8_at)

lemma boolc_back [wire_simps]: "fits pre ((if c then 1 else 0) # post) \<Longrightarrow>
    rd_bind read_bool f (rd_at pre ((if c then 1 else 0) # post))
      = f c (rd_at (pre @ [if c then 1 else 0]) post)"
  by (simp add: rd_bind_def read_bool_at)

lemmas [wire_simps] =
  u32c.bind_back u32c.last_back u64c.bind_back u64c.last_back strc.bind_back strc.last_back

section \<open>Name lists\<close>

text \<open>The wire form of a name-list: the names joined by commas.\<close>

fun join_comma :: "bytes list \<Rightarrow> bytes" where
  "join_comma [] = []"
| "join_comma [n] = n"
| "join_comma (n # ns) = n @ comma # join_comma ns"

definition plain_name :: "bytes \<Rightarrow> bool" where
  "plain_name n \<longleftrightarrow> n \<noteq> [] \<and> comma \<notin> set n"

lemma split_on_nonempty [simp]: "split_on c xs \<noteq> []"
  by (induction xs) (auto split: list.splits)

lemma split_on_single: "c \<notin> set n \<Longrightarrow> split_on c n = [n]"
  by (induction n) auto

lemma split_on_sep: "c \<notin> set n \<Longrightarrow> split_on c (n @ c # xs) = n # split_on c xs"
  by (induction n) auto

lemma split_join: "ns \<noteq> [] \<Longrightarrow> \<forall>n \<in> set ns. comma \<notin> set n \<Longrightarrow>
    split_on comma (join_comma ns) = ns"
  by (induction ns rule: join_comma.induct) (auto simp: split_on_single split_on_sep)

lemma name_list_iter_join:
  "\<forall>n \<in> set ns. plain_name n \<Longrightarrow> name_list_iter (join_comma ns) = ns"
proof (cases "ns = []")
  case True
  then show ?thesis by (simp add: name_list_iter_def)
next
  case False
  moreover assume "\<forall>n \<in> set ns. plain_name n"
  ultimately show ?thesis
    by (simp add: name_list_iter_def split_join plain_name_def filter_id_conv)
qed

lemma split_on_no_sep: "p \<in> set (split_on c xs) \<Longrightarrow> c \<notin> set p"
proof (induction xs arbitrary: p)
  case Nil
  then show ?case by simp
next
  case (Cons x xs)
  then show ?case by (cases "split_on c xs") (auto split: if_splits)
qed

lemma name_list_iter_plain: "n \<in> set (name_list_iter nl) \<Longrightarrow> plain_name n"
  by (auto simp: name_list_iter_def plain_name_def dest: split_on_no_sep)

section \<open>mpint\<close>

lemma skip_zeros_le: "start \<le> length m \<Longrightarrow> skip_zeros m start \<le> length m"
  by (induction m start rule: skip_zeros.induct) (subst skip_zeros.simps, auto)

lemma skip_zeros_mono: "start \<le> skip_zeros m start"
  by (induction m start rule: skip_zeros.induct) (subst skip_zeros.simps, force)

lemma skip_zeros_zero: "start \<le> i \<Longrightarrow> i < skip_zeros m start \<Longrightarrow> m ! i = 0"
proof (induction m start rule: skip_zeros.induct)
  case (1 m start)
  then show ?case
    by (cases "start < length m \<and> m ! start = 0"; cases "i = start")
      (auto simp: skip_zeros.simps [of m start])
qed

lemma skip_zeros_stop: "skip_zeros m start < length m \<Longrightarrow> m ! skip_zeros m start \<noteq> 0"
proof (induction m start rule: skip_zeros.induct)
  case (1 m start)
  then show ?case
    by (cases "start < length m \<and> m ! start = 0") (auto simp: skip_zeros.simps [of m start])
qed

text \<open>The magnitude with its leading zero bytes removed.\<close>

definition strip_zeros :: "bytes \<Rightarrow> bytes" where
  "strip_zeros m = drop (skip_zeros m 0) m"

lemma strip_zeros_hd: "strip_zeros m = b # bs \<Longrightarrow> b \<noteq> 0"
proof -
  assume a: "strip_zeros m = b # bs"
  then have l: "skip_zeros m 0 < length m"
    by (metis drop_eq_Nil linorder_not_less list.distinct(1) strip_zeros_def)
  then have "b = m ! skip_zeros m 0"
    using a by (metis hd_drop_conv_nth list.sel(1) strip_zeros_def)
  with skip_zeros_stop [OF l] show ?thesis by simp
qed

lemma be_value_zeros: "\<forall>i < length z. z ! i = 0 \<Longrightarrow> be_value (z @ m) = be_value m"
proof (induction z)
  case Nil
  then show ?case by simp
next
  case (Cons x z)
  from Cons.prems have "x = 0" by auto
  moreover have "\<forall>i < length z. z ! i = 0" using Cons.prems by auto
  ultimately show ?case using Cons.IH by (simp add: be_value_Cons)
qed

lemma be_value_strip: "be_value (strip_zeros m) = be_value m"
proof -
  have "be_value (take (skip_zeros m 0) m @ drop (skip_zeros m 0) m)
      = be_value (drop (skip_zeros m 0) m)"
    by (rule be_value_zeros) (auto intro: skip_zeros_zero)
  then show ?thesis by (simp add: strip_zeros_def)
qed

text \<open>
  The two's-complement bytes \<open>write_mpint\<close> emits: the stripped magnitude, behind a zero byte when
  its top bit is set.
\<close>

definition mpint_body :: "bytes \<Rightarrow> bytes" where
  "mpint_body magnitude =
     (case strip_zeros magnitude of
        [] \<Rightarrow> []
      | b # bs \<Rightarrow> if high_bit b then 0 # b # bs else b # bs)"

text \<open>The signed value of a two's-complement byte string (RFC 4251 section 5).\<close>

definition twos_value :: "bytes \<Rightarrow> int" where
  "twos_value bs =
     (case bs of
        [] \<Rightarrow> 0
      | b # _ \<Rightarrow> int (be_value bs) - (if high_bit b then 256 ^ length bs else 0))"

text \<open>
  The canonical form RFC 4251 requires: zero is the empty string, and the first byte is not a
  redundant sign byte.
\<close>

fun canonical_mpint :: "bytes \<Rightarrow> bool" where
  "canonical_mpint [] = True"
| "canonical_mpint [b] = (b \<noteq> 0)"
| "canonical_mpint (b # c # bs) =
     (\<not> (b = 0 \<and> \<not> high_bit c) \<and> \<not> (b = 0xFF \<and> high_bit c))"

lemma high_bit_zero [simp]: "\<not> high_bit 0"
  by (simp add: high_bit_def)

lemma w_buf_write_mpint [wire_simps]:
  "w_buf (write_mpint m w) = w_buf w @ enc_string (mpint_body m)"
  by (auto simp: write_mpint_def mpint_body_def strip_zeros_def [symmetric] Let_def wire_simps
      enc_string_def split: list.splits)

lemma twos_value_mpint_body: "twos_value (mpint_body m) = int (be_value m)"
proof -
  have "be_value m = be_value (strip_zeros m)" by (simp add: be_value_strip)
  then show ?thesis
    by (auto simp: mpint_body_def twos_value_def be_value_Cons split: list.splits)
qed

lemma canonical_mpint_body: "canonical_mpint (mpint_body m)"
proof (cases "strip_zeros m")
  case Nil
  then show ?thesis by (simp add: mpint_body_def)
next
  case (Cons b bs)
  then have "b \<noteq> 0" by (rule strip_zeros_hd)
  moreover have "high_bit 0xFF" by (simp add: high_bit_def)
  ultimately show ?thesis using Cons by (cases bs) (auto simp: mpint_body_def)
qed

lemma length_mpint_body: "length (mpint_body m) \<le> length m + 1"
proof -
  have "length (strip_zeros m) \<le> length m" by (simp add: strip_zeros_def)
  then show ?thesis by (auto simp: mpint_body_def split: list.splits)
qed

end
