(* ===== verification/ChannelMsg.thy ===== *)
theory ChannelMsg
  imports Wire
begin

text \<open>
  The bodies of the connection-protocol messages, src/src/hazmat/channel: message numbers
  (msg.rs), \<open>ChannelOpen\<close> (state.rs), \<open>ChannelRequest\<close> (request.rs) and \<open>GlobalRequest\<close>
  (global.rs), each with its name, its encoder and its decoder. The contract they share, and which
  the multiplexer relies on, is the locale \<open>body_codec\<close>; it is interpreted for the three types.
\<close>

section \<open>Message numbers (msg.rs)\<close>

definition MSG_GLOBAL_REQUEST :: u8 where "MSG_GLOBAL_REQUEST = 80"
definition MSG_REQUEST_SUCCESS :: u8 where "MSG_REQUEST_SUCCESS = 81"
definition MSG_REQUEST_FAILURE :: u8 where "MSG_REQUEST_FAILURE = 82"
definition MSG_CHANNEL_OPEN :: u8 where "MSG_CHANNEL_OPEN = 90"
definition MSG_CHANNEL_OPEN_CONFIRMATION :: u8 where "MSG_CHANNEL_OPEN_CONFIRMATION = 91"
definition MSG_CHANNEL_OPEN_FAILURE :: u8 where "MSG_CHANNEL_OPEN_FAILURE = 92"
definition MSG_CHANNEL_WINDOW_ADJUST :: u8 where "MSG_CHANNEL_WINDOW_ADJUST = 93"
definition MSG_CHANNEL_DATA :: u8 where "MSG_CHANNEL_DATA = 94"
definition MSG_CHANNEL_EXTENDED_DATA :: u8 where "MSG_CHANNEL_EXTENDED_DATA = 95"
definition MSG_CHANNEL_EOF :: u8 where "MSG_CHANNEL_EOF = 96"
definition MSG_CHANNEL_CLOSE :: u8 where "MSG_CHANNEL_CLOSE = 97"
definition MSG_CHANNEL_REQUEST :: u8 where "MSG_CHANNEL_REQUEST = 98"
definition MSG_CHANNEL_SUCCESS :: u8 where "MSG_CHANNEL_SUCCESS = 99"
definition MSG_CHANNEL_FAILURE :: u8 where "MSG_CHANNEL_FAILURE = 100"
definition SSH_EXTENDED_DATA_STDERR :: u32 where "SSH_EXTENDED_DATA_STDERR = 1"
definition SSH_OPEN_ADMINISTRATIVELY_PROHIBITED :: u32 where
  "SSH_OPEN_ADMINISTRATIVELY_PROHIBITED = 1"
definition SSH_OPEN_CONNECT_FAILED :: u32 where "SSH_OPEN_CONNECT_FAILED = 2"
definition SSH_OPEN_UNKNOWN_CHANNEL_TYPE :: u32 where "SSH_OPEN_UNKNOWN_CHANNEL_TYPE = 3"
definition SSH_OPEN_RESOURCE_SHORTAGE :: u32 where "SSH_OPEN_RESOURCE_SHORTAGE = 4"

lemmas msg_defs = MSG_GLOBAL_REQUEST_def MSG_REQUEST_SUCCESS_def MSG_REQUEST_FAILURE_def
  MSG_CHANNEL_OPEN_def MSG_CHANNEL_OPEN_CONFIRMATION_def MSG_CHANNEL_OPEN_FAILURE_def
  MSG_CHANNEL_WINDOW_ADJUST_def MSG_CHANNEL_DATA_def MSG_CHANNEL_EXTENDED_DATA_def
  MSG_CHANNEL_EOF_def MSG_CHANNEL_CLOSE_def MSG_CHANNEL_REQUEST_def MSG_CHANNEL_SUCCESS_def
  MSG_CHANNEL_FAILURE_def

section \<open>UTF-8 strings on the wire\<close>

text \<open>Each module has its own \<open>read_utf8\<close>, which differ in the error message only.\<close>

definition utf8_or :: "string \<Rightarrow> bytes \<Rightarrow> rust_str rd" where
  "utf8_or msg b = (case from_utf8 b of Some s \<Rightarrow> rd_ok s | None \<Rightarrow> rd_err (Format msg))"

definition read_utf8 :: "rust_str rd" where
  "read_utf8 = rd_bind read_string (utf8_or ''invalid utf-8'')"

definition read_utf8_borrowed :: "rust_str rd" where
  "read_utf8_borrowed = rd_bind read_string (utf8_or ''invalid utf-8'')"

definition read_utf8_request :: "rust_str rd" where
  "read_utf8_request = rd_bind read_string (utf8_or ''invalid utf-8 in channel request'')"

definition read_utf8_global :: "rust_str rd" where
  "read_utf8_global = rd_bind read_string (utf8_or ''invalid utf-8 in global request'')"

definition text_ok :: "rust_str \<Rightarrow> bool" where
  "text_ok s \<longleftrightarrow> fits_u32 s \<and> valid_utf8 s"

text \<open>The value of a decoder that runs on a fresh cursor and drops it afterwards.\<close>

definition run_rd :: "'a rd \<Rightarrow> bytes \<Rightarrow> 'a res" where
  "run_rd m body = map_res fst (m (reader_new body))"

section \<open>ChannelOpen (state.rs)\<close>

datatype channel_open =
    Session
  | DirectTcpip rust_str u32 rust_str u32
  | ForwardedTcpip rust_str u32 rust_str u32
  | DirectStreamlocal rust_str
  | ForwardedStreamlocal rust_str
  | Tun u32 u32
  | AuthAgent
  | X11 rust_str u32
  | OpenOther rust_str bytes

fun channel_open_kind :: "channel_open \<Rightarrow> rust_str" where
  "channel_open_kind Session = lit ''session''"
| "channel_open_kind (DirectTcpip _ _ _ _) = lit ''direct-tcpip''"
| "channel_open_kind (ForwardedTcpip _ _ _ _) = lit ''forwarded-tcpip''"
| "channel_open_kind (DirectStreamlocal _) = lit ''direct-streamlocal@openssh.com''"
| "channel_open_kind (ForwardedStreamlocal _) = lit ''forwarded-streamlocal@openssh.com''"
| "channel_open_kind (Tun _ _) = lit ''tun@openssh.com''"
| "channel_open_kind AuthAgent = lit ''auth-agent@openssh.com''"
| "channel_open_kind (X11 _ _) = lit ''x11''"
| "channel_open_kind (OpenOther kind _) = kind"

fun encode_tail :: "channel_open \<Rightarrow> writer \<Rightarrow> writer" where
  "encode_tail Session w = w"
| "encode_tail (DirectTcpip dest_host dest_port orig_host orig_port) w =
     write_u32 orig_port (write_string orig_host (write_u32 dest_port (write_string dest_host w)))"
| "encode_tail (ForwardedTcpip dest_host dest_port orig_host orig_port) w =
     write_u32 orig_port (write_string orig_host (write_u32 dest_port (write_string dest_host w)))"
| "encode_tail (DirectStreamlocal socket_path) w =
     write_u32 0 (write_string [] (write_string socket_path w))"
| "encode_tail (ForwardedStreamlocal socket_path) w =
     write_string [] (write_string socket_path w)"
| "encode_tail (Tun mode unit) w = write_u32 unit (write_u32 mode w)"
| "encode_tail AuthAgent w = w"
| "encode_tail (X11 orig_host orig_port) w = write_u32 orig_port (write_string orig_host w)"
| "encode_tail (OpenOther _ raw) w = write_raw raw w"

definition channel_open_decode :: "rust_str \<Rightarrow> bytes \<Rightarrow> channel_open res" where
  "channel_open_decode kind body =
     (if kind = lit ''session'' then Ok Session
      else if kind = lit ''direct-tcpip'' then run_rd
        (rd_bind read_utf8 (\<lambda>dest_host. rd_bind read_u32 (\<lambda>dest_port.
         rd_bind read_utf8 (\<lambda>orig_host. rd_bind read_u32 (\<lambda>orig_port.
           rd_ok (DirectTcpip dest_host dest_port orig_host orig_port)))))) body
      else if kind = lit ''forwarded-tcpip'' then run_rd
        (rd_bind read_utf8 (\<lambda>dest_host. rd_bind read_u32 (\<lambda>dest_port.
         rd_bind read_utf8 (\<lambda>orig_host. rd_bind read_u32 (\<lambda>orig_port.
           rd_ok (ForwardedTcpip dest_host dest_port orig_host orig_port)))))) body
      else if kind = lit ''direct-streamlocal@openssh.com'' then run_rd
        (rd_bind read_utf8 (\<lambda>socket_path. rd_bind read_string (\<lambda>reserved.
         rd_bind read_u32 (\<lambda>reserved2. rd_ok (DirectStreamlocal socket_path))))) body
      else if kind = lit ''forwarded-streamlocal@openssh.com'' then run_rd
        (rd_bind read_utf8 (\<lambda>socket_path. rd_bind read_string (\<lambda>reserved.
           rd_ok (ForwardedStreamlocal socket_path)))) body
      else if kind = lit ''tun@openssh.com'' then run_rd
        (rd_bind read_u32 (\<lambda>mode. rd_bind read_u32 (\<lambda>unit. rd_ok (Tun mode unit)))) body
      else if kind = lit ''auth-agent@openssh.com'' then Ok AuthAgent
      else if kind = lit ''x11'' then run_rd
        (rd_bind read_utf8 (\<lambda>orig_host. rd_bind read_u32 (\<lambda>orig_port.
           rd_ok (X11 orig_host orig_port)))) body
      else Ok (OpenOther kind body))"

section \<open>ChannelRequest (request.rs)\<close>

datatype channel_request =
    PtyReq rust_str u32 u32 u32 u32 bytes
  | Shell
  | Exec rust_str
  | Subsystem rust_str
  | Env rust_str rust_str
  | WindowChange u32 u32 u32 u32
  | Signal rust_str
  | ExitStatus u32
  | ExitSignal rust_str bool rust_str rust_str
  | AuthAgentReq
  | X11Req bool rust_str rust_str u32
  | ReqOther rust_str bytes

fun channel_request_name :: "channel_request \<Rightarrow> rust_str" where
  "channel_request_name (PtyReq _ _ _ _ _ _) = lit ''pty-req''"
| "channel_request_name Shell = lit ''shell''"
| "channel_request_name (Exec _) = lit ''exec''"
| "channel_request_name (Subsystem _) = lit ''subsystem''"
| "channel_request_name (Env _ _) = lit ''env''"
| "channel_request_name (WindowChange _ _ _ _) = lit ''window-change''"
| "channel_request_name (Signal _) = lit ''signal''"
| "channel_request_name (ExitStatus _) = lit ''exit-status''"
| "channel_request_name (ExitSignal _ _ _ _) = lit ''exit-signal''"
| "channel_request_name AuthAgentReq = lit ''auth-agent-req@openssh.com''"
| "channel_request_name (X11Req _ _ _ _) = lit ''x11-req''"
| "channel_request_name (ReqOther name _) = name"

fun channel_request_encode :: "channel_request \<Rightarrow> writer \<Rightarrow> writer" where
  "channel_request_encode (PtyReq term cols rows px_w px_h modes) w =
     write_string modes (write_u32 px_h (write_u32 px_w (write_u32 rows (write_u32 cols
       (write_string term w)))))"
| "channel_request_encode Shell w = w"
| "channel_request_encode (Exec command) w = write_string command w"
| "channel_request_encode (Subsystem name) w = write_string name w"
| "channel_request_encode (Env name value) w = write_string value (write_string name w)"
| "channel_request_encode (WindowChange cols rows px_w px_h) w =
     write_u32 px_h (write_u32 px_w (write_u32 rows (write_u32 cols w)))"
| "channel_request_encode (Signal name) w = write_string name w"
| "channel_request_encode (ExitStatus code) w = write_u32 code w"
| "channel_request_encode (ExitSignal name core_dumped message language) w =
     write_string language (write_string message (write_bool core_dumped (write_string name w)))"
| "channel_request_encode AuthAgentReq w = w"
| "channel_request_encode (X11Req single_connection auth_protocol auth_cookie screen) w =
     write_u32 screen (write_string auth_cookie (write_string auth_protocol
       (write_bool single_connection w)))"
| "channel_request_encode (ReqOther _ raw) w = write_raw raw w"

definition channel_request_decode :: "rust_str \<Rightarrow> bytes \<Rightarrow> channel_request res" where
  "channel_request_decode name body =
     (if name = lit ''pty-req'' then run_rd
        (rd_bind read_utf8_request (\<lambda>term. rd_bind read_u32 (\<lambda>cols. rd_bind read_u32 (\<lambda>rows.
         rd_bind read_u32 (\<lambda>px_w. rd_bind read_u32 (\<lambda>px_h. rd_bind read_string (\<lambda>modes.
           rd_ok (PtyReq term cols rows px_w px_h modes)))))))) body
      else if name = lit ''shell'' then Ok Shell
      else if name = lit ''exec'' then run_rd
        (rd_bind read_utf8_request (\<lambda>command. rd_ok (Exec command))) body
      else if name = lit ''subsystem'' then run_rd
        (rd_bind read_utf8_request (\<lambda>n. rd_ok (Subsystem n))) body
      else if name = lit ''env'' then run_rd
        (rd_bind read_utf8_request (\<lambda>n. rd_bind read_utf8_request (\<lambda>value.
           rd_ok (Env n value)))) body
      else if name = lit ''window-change'' then run_rd
        (rd_bind read_u32 (\<lambda>cols. rd_bind read_u32 (\<lambda>rows. rd_bind read_u32 (\<lambda>px_w.
         rd_bind read_u32 (\<lambda>px_h. rd_ok (WindowChange cols rows px_w px_h)))))) body
      else if name = lit ''signal'' then run_rd
        (rd_bind read_utf8_request (\<lambda>n. rd_ok (Signal n))) body
      else if name = lit ''exit-status'' then run_rd
        (rd_bind read_u32 (\<lambda>code. rd_ok (ExitStatus code))) body
      else if name = lit ''exit-signal'' then run_rd
        (rd_bind read_utf8_request (\<lambda>n. rd_bind read_bool (\<lambda>core_dumped.
         rd_bind read_utf8_request (\<lambda>message. rd_bind read_utf8_request (\<lambda>language.
           rd_ok (ExitSignal n core_dumped message language)))))) body
      else if name = lit ''auth-agent-req@openssh.com'' then Ok AuthAgentReq
      else if name = lit ''x11-req'' then run_rd
        (rd_bind read_bool (\<lambda>single_connection. rd_bind read_utf8_request (\<lambda>auth_protocol.
         rd_bind read_utf8_request (\<lambda>auth_cookie. rd_bind read_u32 (\<lambda>screen.
           rd_ok (X11Req single_connection auth_protocol auth_cookie screen)))))) body
      else Ok (ReqOther name body))"

section \<open>GlobalRequest (global.rs)\<close>

datatype global_request =
    TcpipForward rust_str u32
  | CancelTcpipForward rust_str u32
  | StreamlocalForward rust_str
  | CancelStreamlocalForward rust_str
  | Keepalive
  | GlobalOther rust_str bytes
  | NoMoreSessions

fun global_request_name :: "global_request \<Rightarrow> rust_str" where
  "global_request_name (TcpipForward _ _) = lit ''tcpip-forward''"
| "global_request_name (CancelTcpipForward _ _) = lit ''cancel-tcpip-forward''"
| "global_request_name (StreamlocalForward _) = lit ''streamlocal-forward@openssh.com''"
| "global_request_name (CancelStreamlocalForward _) =
     lit ''cancel-streamlocal-forward@openssh.com''"
| "global_request_name Keepalive = lit ''keepalive@openssh.com''"
| "global_request_name NoMoreSessions = lit ''no-more-sessions@openssh.com''"
| "global_request_name (GlobalOther name _) = name"

fun global_request_encode :: "global_request \<Rightarrow> writer \<Rightarrow> writer" where
  "global_request_encode (TcpipForward bind_address bind_port) w =
     write_u32 bind_port (write_string bind_address w)"
| "global_request_encode (CancelTcpipForward bind_address bind_port) w =
     write_u32 bind_port (write_string bind_address w)"
| "global_request_encode (StreamlocalForward socket_path) w = write_string socket_path w"
| "global_request_encode (CancelStreamlocalForward socket_path) w = write_string socket_path w"
| "global_request_encode Keepalive w = w"
| "global_request_encode NoMoreSessions w = w"
| "global_request_encode (GlobalOther _ raw) w = write_raw raw w"

definition global_request_decode :: "rust_str \<Rightarrow> bytes \<Rightarrow> global_request res" where
  "global_request_decode name body =
     (if name = lit ''tcpip-forward'' then run_rd
        (rd_bind read_utf8_global (\<lambda>bind_address. rd_bind read_u32 (\<lambda>bind_port.
           rd_ok (TcpipForward bind_address bind_port)))) body
      else if name = lit ''cancel-tcpip-forward'' then run_rd
        (rd_bind read_utf8_global (\<lambda>bind_address. rd_bind read_u32 (\<lambda>bind_port.
           rd_ok (CancelTcpipForward bind_address bind_port)))) body
      else if name = lit ''streamlocal-forward@openssh.com'' then run_rd
        (rd_bind read_utf8_global (\<lambda>socket_path. rd_ok (StreamlocalForward socket_path))) body
      else if name = lit ''cancel-streamlocal-forward@openssh.com'' then run_rd
        (rd_bind read_utf8_global (\<lambda>socket_path.
           rd_ok (CancelStreamlocalForward socket_path))) body
      else if name = lit ''keepalive@openssh.com'' then Ok Keepalive
      else if name = lit ''no-more-sessions@openssh.com'' then Ok NoMoreSessions
      else Ok (GlobalOther name body))"

section \<open>Well-formed values\<close>

text \<open>
  What every value of the Rust types satisfies (strings are UTF-8) plus what a \<open>u32\<close> length prefix
  can express; an \<open>Other\<close> value carries a name that is not one of the known ones.
\<close>

definition open_kinds :: "rust_str list" where
  "open_kinds = map lit [''session'', ''direct-tcpip'', ''forwarded-tcpip'',
     ''direct-streamlocal@openssh.com'', ''forwarded-streamlocal@openssh.com'',
     ''tun@openssh.com'', ''auth-agent@openssh.com'', ''x11'']"

fun channel_open_wf :: "channel_open \<Rightarrow> bool" where
  "channel_open_wf (DirectTcpip dh _ oh _) = (text_ok dh \<and> text_ok oh)"
| "channel_open_wf (ForwardedTcpip dh _ oh _) = (text_ok dh \<and> text_ok oh)"
| "channel_open_wf (DirectStreamlocal p) = text_ok p"
| "channel_open_wf (ForwardedStreamlocal p) = text_ok p"
| "channel_open_wf (X11 oh _) = text_ok oh"
| "channel_open_wf (OpenOther k raw) = (text_ok k \<and> k \<notin> set open_kinds)"
| "channel_open_wf _ = True"

definition request_names :: "rust_str list" where
  "request_names = map lit [''pty-req'', ''shell'', ''exec'', ''subsystem'', ''env'',
     ''window-change'', ''signal'', ''exit-status'', ''exit-signal'',
     ''auth-agent-req@openssh.com'', ''x11-req'']"

fun channel_request_wf :: "channel_request \<Rightarrow> bool" where
  "channel_request_wf (PtyReq t _ _ _ _ m) = (text_ok t \<and> fits_u32 m)"
| "channel_request_wf (Exec c) = text_ok c"
| "channel_request_wf (Subsystem n) = text_ok n"
| "channel_request_wf (Env n v) = (text_ok n \<and> text_ok v)"
| "channel_request_wf (Signal n) = text_ok n"
| "channel_request_wf (ExitSignal n _ m l) = (text_ok n \<and> text_ok m \<and> text_ok l)"
| "channel_request_wf (X11Req _ p c _) = (text_ok p \<and> text_ok c)"
| "channel_request_wf (ReqOther n raw) = (text_ok n \<and> n \<notin> set request_names)"
| "channel_request_wf _ = True"

definition global_names :: "rust_str list" where
  "global_names = map lit [''tcpip-forward'', ''cancel-tcpip-forward'',
     ''streamlocal-forward@openssh.com'', ''cancel-streamlocal-forward@openssh.com'',
     ''keepalive@openssh.com'', ''no-more-sessions@openssh.com'']"

fun global_request_wf :: "global_request \<Rightarrow> bool" where
  "global_request_wf (TcpipForward a _) = text_ok a"
| "global_request_wf (CancelTcpipForward a _) = text_ok a"
| "global_request_wf (StreamlocalForward p) = text_ok p"
| "global_request_wf (CancelStreamlocalForward p) = text_ok p"
| "global_request_wf (GlobalOther n raw) = (text_ok n \<and> n \<notin> set global_names)"
| "global_request_wf _ = True"

section \<open>UTF-8 field codecs\<close>

lemma safe_utf8_or: "safe_rd (utf8_or msg b)"
  by (auto simp: utf8_or_def safe_rd_def split: option.splits)

lemma utf8_field_back:
  "text_ok s \<Longrightarrow> fits pre (enc_string s @ post) \<Longrightarrow>
     rd_bind read_string (utf8_or msg) (rd_at pre (enc_string s @ post))
       = Ok (s, rd_at (pre @ enc_string s) post)"
  by (simp add: text_ok_def strc.bind_back utf8_or_def)

lemma utf8_bind_back [wire_simps]:
  "text_ok s \<Longrightarrow> fits pre (enc_string s @ post) \<Longrightarrow>
     rd_bind (rd_bind read_string (utf8_or msg)) f (rd_at pre (enc_string s @ post))
       = f s (rd_at (pre @ enc_string s) post)"
  by (simp add: rd_bind_Ok utf8_field_back)

lemma safe_utf8_field: "safe_rd (rd_bind read_string (utf8_or msg))"
  by (intro safe_rd_bind safe_read_string safe_utf8_or)

interpretation utf8c: wire_codec write_string read_utf8 enc_string text_ok
  unfolding read_utf8_def
  by unfold_locales (simp_all add: wire_simps utf8_field_back safe_utf8_field)

interpretation utf8bc: wire_codec write_string read_utf8_borrowed enc_string text_ok
  unfolding read_utf8_borrowed_def
  by unfold_locales (simp_all add: wire_simps utf8_field_back safe_utf8_field)

interpretation utf8rc: wire_codec write_string read_utf8_request enc_string text_ok
  unfolding read_utf8_request_def
  by unfold_locales (simp_all add: wire_simps utf8_field_back safe_utf8_field)

interpretation utf8gc: wire_codec write_string read_utf8_global enc_string text_ok
  unfolding read_utf8_global_def
  by unfold_locales (simp_all add: wire_simps utf8_field_back safe_utf8_field)

lemmas [wire_simps] =
  utf8c.bind_back utf8c.last_back utf8bc.bind_back utf8bc.last_back
  utf8rc.bind_back utf8rc.last_back utf8gc.bind_back utf8gc.last_back

lemmas safe_channel_reads = safe_reads utf8c.rd_safe utf8bc.rd_safe utf8rc.rd_safe utf8gc.rd_safe

lemma run_rd_no_panic: "safe_rd m \<Longrightarrow> run_rd m body \<noteq> Panic"
  by (auto simp: run_rd_def)

section \<open>The contract of a message body\<close>

text \<open>
  A body type has a name that goes on the wire ahead of it, an encoder that appends to the
  message under construction, and a decoder that takes the name and the rest of the message.
\<close>

locale body_codec =
  fixes bname :: "'a \<Rightarrow> rust_str"
    and benc :: "'a \<Rightarrow> writer \<Rightarrow> writer"
    and bdec :: "rust_str \<Rightarrow> bytes \<Rightarrow> 'a res"
    and bwf :: "'a \<Rightarrow> bool"
  assumes benc_appends: "w_buf (benc x w) = w_buf w @ w_buf (benc x writer_new)"
    and bdec_benc: "bwf x \<Longrightarrow> fits [] (w_buf (benc x writer_new)) \<Longrightarrow>
      bdec (bname x) (w_buf (benc x writer_new)) = Ok x"
    and bname_ok: "bwf x \<Longrightarrow> text_ok (bname x)"
    and bdec_bname: "bdec n b = Ok x \<Longrightarrow> bname x = n"
    and bdec_safe: "bdec n b \<noteq> Panic"
begin

abbreviation body :: "'a \<Rightarrow> bytes" where
  "body x \<equiv> w_buf (benc x writer_new)"

text \<open>The tail of a cursor standing before a body is that body.\<close>

lemma tail_back:
  assumes "bwf x" and "fits pre (body x)"
  shows "rd_bind (take_bytes (length (body x))) (\<lambda>tail r. bind_res (bdec (bname x) tail) (g r))
           (rd_at pre (body x)) = g (rd_at (pre @ body x) []) x"
proof -
  have "fits [] (body x)" using assms(2) by (simp add: small_def)
  with assms show ?thesis
    by (simp add: rd_bind_def take_bytes_all bdec_benc)
qed

text \<open>Different well-formed values have different wire forms.\<close>

lemma wire_inject:
  assumes "bwf x" "bwf y" "bname x = bname y" "body x = body y" "fits [] (body x)"
  shows "x = y"
proof -
  have "bdec (bname x) (body x) = Ok x" using assms(1,5) by (intro bdec_benc) simp_all
  moreover have "bdec (bname y) (body y) = Ok y" using assms(2,4,5) by (intro bdec_benc) simp_all
  ultimately have "Ok x = Ok y" using assms(3,4) by (simp only:)
  then show ?thesis by simp
qed

end

lemma text_ok_lit: "\<forall>c \<in> set s. of_char c < (128 :: nat) \<Longrightarrow> length s < 2 ^ 32 \<Longrightarrow> text_ok (lit s)"
  by (simp add: text_ok_def valid_utf8_lit fits_u32_def)

lemma fits_u32_Nil [simp]: "fits_u32 []"
  by (simp add: fits_u32_def)

interpretation openb: body_codec channel_open_kind encode_tail channel_open_decode channel_open_wf
proof (unfold_locales, goal_cases)
  case (1 x w)
  show ?case by (cases x) (simp_all add: wire_simps)
next
  case (2 x)
  then show ?case
    by (cases x) (simp_all add: wire_simps channel_open_decode_def run_rd_def reader_new_rd_at
        open_kinds_def)
next
  case (3 x)
  then show ?case by (cases x) (simp_all add: text_ok_lit)
next
  case (4 n b x)
  then show ?case
    by (auto simp: channel_open_decode_def run_rd_def map_res_eq_Ok rd_bind_eq_Ok
        split: if_splits)
next
  case (5 n b)
  show ?case
    by (auto simp: channel_open_decode_def intro!: run_rd_no_panic safe_channel_reads)
qed

interpretation reqb: body_codec channel_request_name channel_request_encode
  channel_request_decode channel_request_wf
proof (unfold_locales, goal_cases)
  case (1 x w)
  show ?case by (cases x) (simp_all add: wire_simps)
next
  case (2 x)
  then show ?case
    by (cases x) (simp_all add: wire_simps channel_request_decode_def run_rd_def reader_new_rd_at
        request_names_def)
next
  case (3 x)
  then show ?case by (cases x) (simp_all add: text_ok_lit)
next
  case (4 n b x)
  then show ?case
    by (auto simp: channel_request_decode_def run_rd_def map_res_eq_Ok rd_bind_eq_Ok
        split: if_splits)
next
  case (5 n b)
  show ?case
    by (auto simp: channel_request_decode_def intro!: run_rd_no_panic safe_channel_reads)
qed

interpretation globb: body_codec global_request_name global_request_encode
  global_request_decode global_request_wf
proof (unfold_locales, goal_cases)
  case (1 x w)
  show ?case by (cases x) (simp_all add: wire_simps)
next
  case (2 x)
  then show ?case
    by (cases x) (simp_all add: wire_simps global_request_decode_def run_rd_def reader_new_rd_at
        global_names_def)
next
  case (3 x)
  then show ?case by (cases x) (simp_all add: text_ok_lit)
next
  case (4 n b x)
  then show ?case
    by (auto simp: global_request_decode_def run_rd_def map_res_eq_Ok rd_bind_eq_Ok
        split: if_splits)
next
  case (5 n b)
  show ?case
    by (auto simp: global_request_decode_def intro!: run_rd_no_panic safe_channel_reads)
qed

end
