(* ===== verification/Channel.thy ===== *)
theory Channel
  imports ChannelMsg "HOL-Library.Mapping"
begin

text \<open>
  The channel multiplexer \<open>ConnectionState\<close> (src/src/hazmat/channel/state.rs): the per-channel
  record, the table of channels of one connection, every operation that produces a payload and
  every handler behind \<open>on_packet\<close>. An operation takes the connection and returns the connection
  it leaves together with its result, also when it fails, so that what a failing call leaves
  behind is visible. \<open>allocate_local_id\<close> loops until it finds a free id; an operation that calls
  it has an \<open>option\<close> result, \<open>None\<close> meaning that the loop never returns.
\<close>

section \<open>State\<close>

definition DEFAULT_WINDOW :: u32 where "DEFAULT_WINDOW = 2 * 1024 * 1024"
definition DEFAULT_MAX_PACKET :: u32 where "DEFAULT_MAX_PACKET = 32 * 1024"
definition DEFAULT_MAX_CHANNELS_PER_CONNECTION :: u32 where
  "DEFAULT_MAX_CHANNELS_PER_CONNECTION = 256"

record channel_state =
  local_id :: u32
  remote_id :: u32
  local_window :: u32
  remote_window :: u32
  local_max_packet :: u32
  remote_max_packet :: u32
  ch_kind :: rust_str
  local_eof :: bool
  remote_eof :: bool
  local_closed :: bool
  remote_closed :: bool
  activity :: u64
  xtype :: "rust_str option"
  initial_local_window :: u32
  pending_replenish :: u32
  open_confirmed :: bool
  initiated_by_us :: bool

definition is_fully_closed :: "channel_state \<Rightarrow> bool" where
  "is_fully_closed ch \<longleftrightarrow> local_closed ch \<and> remote_closed ch"

definition is_open :: "channel_state \<Rightarrow> bool" where
  "is_open ch \<longleftrightarrow> open_confirmed ch \<and> \<not> local_closed ch \<and> \<not> remote_closed ch"

text \<open>A \<open>BTreeMap\<close> keyed by the local id.\<close>

type_synonym channel_table = "(u32, channel_state) mapping"

record connection_state =
  channels :: channel_table
  next_local_id :: u32
  default_window :: u32
  default_max_packet :: u32
  max_channels :: u32

datatype channel_event =
    OpenRequest u32 channel_open
  | OpenConfirmed u32
  | OpenFailed u32 u32 rust_str
  | OpenRejected bytes u32
  | Data u32 bytes
  | ExtendedData u32 u32 bytes
  | WindowAdjust u32 u32
  | Eof u32
  | Close u32
  | Request u32 channel_request bool
  | Success u32
  | Failure u32
  | GlobalRequest global_request bool
  | GlobalSuccess bytes
  | GlobalFailure

type_synonym 'a conn_res = "connection_state \<times> 'a res"

definition connection_new :: connection_state where
  "connection_new = \<lparr>channels = Mapping.empty, next_local_id = 0,
     default_window = DEFAULT_WINDOW, default_max_packet = DEFAULT_MAX_PACKET,
     max_channels = DEFAULT_MAX_CHANNELS_PER_CONNECTION\<rparr>"

definition channel :: "connection_state \<Rightarrow> u32 \<Rightarrow> channel_state option" where
  "channel c cid = Mapping.lookup (channels c) cid"

text \<open>\<open>BTreeMap::values\<close>: in increasing order of the id.\<close>

definition channels_values :: "connection_state \<Rightarrow> channel_state list" where
  "channels_values c = map (\<lambda>k. the (Mapping.lookup (channels c) k)) (Mapping.ordered_keys (channels c))"

text \<open>Writing through the reference that \<open>get_mut\<close> returned; removing an entry.\<close>

definition put_channel :: "u32 \<Rightarrow> channel_state \<Rightarrow> connection_state \<Rightarrow> connection_state" where
  "put_channel cid ch c = c\<lparr>channels := Mapping.update cid ch (channels c)\<rparr>"

definition drop_channel :: "u32 \<Rightarrow> connection_state \<Rightarrow> connection_state" where
  "drop_channel cid c = c\<lparr>channels := Mapping.delete cid (channels c)\<rparr>"

partial_function (option) allocate_local_id ::
    "connection_state \<Rightarrow> (u32 \<times> connection_state) option" where
  "allocate_local_id c =
     (if channel c (next_local_id c) = None
      then Some (next_local_id c, c\<lparr>next_local_id := next_local_id c + 1\<rparr>)
      else allocate_local_id (c\<lparr>next_local_id := next_local_id c + 1\<rparr>))"

definition with_channel :: "connection_state \<Rightarrow> u32 \<Rightarrow> (channel_state \<Rightarrow> 'a conn_res) \<Rightarrow> 'a conn_res"
  where
  "with_channel c cid f =
     (case channel c cid of None \<Rightarrow> (c, Err BadChannelState) | Some ch \<Rightarrow> f ch)"

definition ensure_sendable :: "channel_state \<Rightarrow> unit res" where
  "ensure_sendable ch =
     (if local_closed ch \<or> remote_closed ch then Err BadChannelState else Ok ())"

text \<open>\<open>?\<close> inside an operation: an error returns with the connection as it is at that point.\<close>

definition try_res :: "connection_state \<Rightarrow> 'a res \<Rightarrow> ('a \<Rightarrow> 'b conn_res) \<Rightarrow> 'b conn_res" where
  "try_res c m f = (case m of Ok x \<Rightarrow> f x | Err e \<Rightarrow> (c, Err e) | Panic \<Rightarrow> (c, Panic))"

section \<open>Opening channels\<close>

definition fresh_channel ::
    "connection_state \<Rightarrow> u32 \<Rightarrow> u32 \<Rightarrow> u32 \<Rightarrow> u32 \<Rightarrow> rust_str \<Rightarrow> bool \<Rightarrow> channel_state" where
  "fresh_channel c cid rid rwin rmax k by_us =
     \<lparr>local_id = cid, remote_id = rid, local_window = default_window c, remote_window = rwin,
      local_max_packet = default_max_packet c, remote_max_packet = rmax, ch_kind = k,
      local_eof = False, remote_eof = False, local_closed = False, remote_closed = False,
      activity = 0, xtype = None, initial_local_window = default_window c,
      pending_replenish = 0, open_confirmed = False, initiated_by_us = by_us\<rparr>"

definition open_channel ::
    "connection_state \<Rightarrow> channel_open \<Rightarrow> (u32 \<times> bytes) conn_res option" where
  "open_channel c k =
     (case allocate_local_id c of
        None \<Rightarrow> None
      | Some (cid, c1) \<Rightarrow>
          let st = fresh_channel c1 cid 0 0 0 (channel_open_kind k) True;
              w = encode_tail k
                    (write_u32 (default_max_packet c1)
                    (write_u32 (default_window c1)
                    (write_u32 cid
                    (write_string (channel_open_kind k)
                    (write_u8 MSG_CHANNEL_OPEN writer_new)))))
          in Some (put_channel cid st c1, Ok (cid, into_vec w)))"

definition accept_open :: "connection_state \<Rightarrow> u32 \<Rightarrow> bytes conn_res" where
  "accept_open c cid = with_channel c cid (\<lambda>ch.
     if open_confirmed ch then (c, Err BadChannelState)
     else
       let w = write_u32 (local_max_packet ch)
               (write_u32 (local_window ch)
               (write_u32 cid
               (write_u32 (remote_id ch)
               (write_u8 MSG_CHANNEL_OPEN_CONFIRMATION writer_new))))
       in (put_channel cid (ch\<lparr>open_confirmed := True\<rparr>) c, Ok (into_vec w)))"

text \<open>The entry is removed first and put back when the channel turns out to be confirmed.\<close>

definition reject_open ::
    "connection_state \<Rightarrow> u32 \<Rightarrow> u32 \<Rightarrow> rust_str \<Rightarrow> rust_str \<Rightarrow> bytes conn_res" where
  "reject_open c cid reason description language = with_channel c cid (\<lambda>ch.
     let c1 = drop_channel cid c in
     if open_confirmed ch then (put_channel cid ch c1, Err BadChannelState)
     else
       let w = write_string language
               (write_string description
               (write_u32 reason
               (write_u32 (remote_id ch)
               (write_u8 MSG_CHANNEL_OPEN_FAILURE writer_new))))
       in (c1, Ok (into_vec w)))"

section \<open>Requests\<close>

definition send_request ::
    "connection_state \<Rightarrow> u32 \<Rightarrow> channel_request \<Rightarrow> bool \<Rightarrow> bytes conn_res" where
  "send_request c cid req want_reply = with_channel c cid (\<lambda>ch.
     try_res c (ensure_sendable ch) (\<lambda>_.
       let w = channel_request_encode req
               (write_bool want_reply
               (write_string (channel_request_name req)
               (write_u32 (remote_id ch)
               (write_u8 MSG_CHANNEL_REQUEST writer_new))))
       in (c, Ok (into_vec w))))"

definition send_request_success :: "connection_state \<Rightarrow> u32 \<Rightarrow> bytes conn_res" where
  "send_request_success c cid = with_channel c cid (\<lambda>ch.
     (c, Ok (into_vec (write_u32 (remote_id ch) (write_u8 MSG_CHANNEL_SUCCESS writer_new)))))"

definition send_request_failure :: "connection_state \<Rightarrow> u32 \<Rightarrow> bytes conn_res" where
  "send_request_failure c cid = with_channel c cid (\<lambda>ch.
     (c, Ok (into_vec (write_u32 (remote_id ch) (write_u8 MSG_CHANNEL_FAILURE writer_new)))))"

definition set_xtype :: "connection_state \<Rightarrow> u32 \<Rightarrow> rust_str \<Rightarrow> connection_state" where
  "set_xtype c cid x =
     (case channel c cid of None \<Rightarrow> c | Some ch \<Rightarrow> put_channel cid (ch\<lparr>xtype := Some x\<rparr>) c)"

section \<open>Sending data\<close>

definition data_capacity :: "channel_state \<Rightarrow> nat" where
  "data_capacity ch =
     (if remote_max_packet ch < 9 then 0
      else min (unat (remote_max_packet ch - 9)) (unat (remote_window ch)))"

definition extended_data_capacity :: "channel_state \<Rightarrow> nat" where
  "extended_data_capacity ch =
     (if remote_max_packet ch < 13 then 0
      else min (unat (remote_max_packet ch - 13)) (unat (remote_window ch)))"

text \<open>The bookkeeping of \<open>n\<close> sent bytes.\<close>

definition note_sent :: "nat \<Rightarrow> channel_state \<Rightarrow> channel_state" where
  "note_sent n ch = ch\<lparr>remote_window := sat_sub (remote_window ch) (of_nat n),
                       activity := activity ch + of_nat n\<rparr>"

definition send_data :: "connection_state \<Rightarrow> u32 \<Rightarrow> bytes \<Rightarrow> (bytes \<times> nat) conn_res" where
  "send_data c cid data = with_channel c cid (\<lambda>ch.
     try_res c (ensure_sendable ch) (\<lambda>_.
       if local_eof ch then (c, Err BadChannelState)
       else
         let n = min (length data) (data_capacity ch) in
         try_res c (slice_res data 0 n) (\<lambda>chunk.
           let w = write_string chunk
                   (write_u32 (remote_id ch) (write_u8 MSG_CHANNEL_DATA writer_new))
           in (put_channel cid (note_sent n ch) c, Ok (into_vec w, n)))))"

definition send_datagram :: "connection_state \<Rightarrow> u32 \<Rightarrow> bytes \<Rightarrow> bytes option conn_res" where
  "send_datagram c cid data = with_channel c cid (\<lambda>ch.
     try_res c (ensure_sendable ch) (\<lambda>_.
       if local_eof ch then (c, Err BadChannelState)
       else if length data > data_capacity ch then (c, Ok None)
       else case send_data c cid data of
              (c', r) \<Rightarrow> (c', map_res (\<lambda>(payload, _). Some payload) r)))"

definition send_extended_data ::
    "connection_state \<Rightarrow> u32 \<Rightarrow> u32 \<Rightarrow> bytes \<Rightarrow> (bytes \<times> nat) conn_res" where
  "send_extended_data c cid code data = with_channel c cid (\<lambda>ch.
     try_res c (ensure_sendable ch) (\<lambda>_.
       if local_eof ch then (c, Err BadChannelState)
       else
         let n = min (length data) (extended_data_capacity ch) in
         try_res c (slice_res data 0 n) (\<lambda>chunk.
           let w = write_string chunk (write_u32 code
                   (write_u32 (remote_id ch) (write_u8 MSG_CHANNEL_EXTENDED_DATA writer_new)))
           in (put_channel cid (note_sent n ch) c, Ok (into_vec w, n)))))"

definition send_eof :: "connection_state \<Rightarrow> u32 \<Rightarrow> bytes conn_res" where
  "send_eof c cid = with_channel c cid (\<lambda>ch.
     if local_closed ch then (c, Err BadChannelState)
     else (put_channel cid (ch\<lparr>local_eof := True\<rparr>) c,
           Ok (into_vec (write_u32 (remote_id ch) (write_u8 MSG_CHANNEL_EOF writer_new)))))"

definition send_close :: "connection_state \<Rightarrow> u32 \<Rightarrow> bytes conn_res" where
  "send_close c cid = with_channel c cid (\<lambda>ch.
     if local_closed ch then (c, Err BadChannelState)
     else
       let ch' = ch\<lparr>local_closed := True\<rparr>;
           c1 = put_channel cid ch' c;
           w = write_u32 (remote_id ch) (write_u8 MSG_CHANNEL_CLOSE writer_new);
           c2 = (if is_fully_closed ch' then drop_channel cid c1 else c1)
       in (c2, Ok (into_vec w)))"

section \<open>Global requests\<close>

definition send_global_request :: "global_request \<Rightarrow> bool \<Rightarrow> bytes" where
  "send_global_request req want_reply =
     into_vec (global_request_encode req
       (write_bool want_reply
       (write_string (global_request_name req) (write_u8 MSG_GLOBAL_REQUEST writer_new))))"

definition send_global_success :: "bytes \<Rightarrow> bytes" where
  "send_global_success data = into_vec (write_raw data (write_u8 MSG_REQUEST_SUCCESS writer_new))"

definition send_global_failure :: bytes where
  "send_global_failure = into_vec (write_u8 MSG_REQUEST_FAILURE writer_new)"

section \<open>Window replenishment\<close>

definition replenish_threshold :: "channel_state \<Rightarrow> u32" where
  "replenish_threshold ch =
     max (min (initial_local_window ch div 2) (sat_mul (local_max_packet ch) 3)) 1"

definition replenish_window :: "connection_state \<Rightarrow> u32 \<Rightarrow> u32 \<Rightarrow> bytes option conn_res" where
  "replenish_window c cid credit = with_channel c cid (\<lambda>ch.
     if local_closed ch then (c, Ok None)
     else if credit = 0 then (c, Ok None)
     else
       let ch1 = ch\<lparr>pending_replenish := sat_add (pending_replenish ch) credit\<rparr> in
       if pending_replenish ch1 < replenish_threshold ch1
       then (put_channel cid ch1 c, Ok None)
       else
         let added = pending_replenish ch1;
             ch2 = ch1\<lparr>pending_replenish := 0, local_window := sat_add (local_window ch1) added\<rparr>;
             w = write_u32 added
                 (write_u32 (remote_id ch) (write_u8 MSG_CHANNEL_WINDOW_ADJUST writer_new))
         in (put_channel cid ch2 c, Ok (Some (into_vec w))))"

section \<open>Inbound messages\<close>

text \<open>A handler reads its fields first and touches the connection only when all are there.\<close>

definition parse_then :: "connection_state \<Rightarrow> 'a rd \<Rightarrow> reader \<Rightarrow> ('a \<Rightarrow> 'b conn_res) \<Rightarrow> 'b conn_res" where
  "parse_then c m r f = try_res c (m r) (\<lambda>(x, _). f x)"

text \<open>\<open>let n = r.remaining(); let tail = r.take(n)?\<close>\<close>

definition read_tail :: "bytes rd" where
  "read_tail r = take_bytes (remaining r) r"

definition on_global_request :: "connection_state \<Rightarrow> reader \<Rightarrow> channel_event conn_res" where
  "on_global_request c r = parse_then c
     (rd_bind read_utf8_borrowed (\<lambda>name. rd_bind read_bool (\<lambda>want_reply.
      rd_bind read_tail (\<lambda>tail. rd_ok (name, want_reply, tail))))) r
     (\<lambda>(name, want_reply, tail).
        try_res c (global_request_decode name tail) (\<lambda>request.
          (c, Ok (GlobalRequest request want_reply))))"

definition open_rejected_payload :: "u32 \<Rightarrow> bytes" where
  "open_rejected_payload rid =
     into_vec (write_string [] (write_string (lit ''channel limit reached'')
       (write_u32 SSH_OPEN_RESOURCE_SHORTAGE
       (write_u32 rid (write_u8 MSG_CHANNEL_OPEN_FAILURE writer_new)))))"

definition on_channel_open ::
    "connection_state \<Rightarrow> reader \<Rightarrow> channel_event conn_res option" where
  "on_channel_open c r =
     (case (rd_bind read_utf8_borrowed (\<lambda>kind_name. rd_bind read_u32 (\<lambda>rid.
            rd_bind read_u32 (\<lambda>initial_window. rd_bind read_u32 (\<lambda>max_packet.
            rd_bind read_tail (\<lambda>tail.
              rd_ok (kind_name, rid, initial_window, max_packet, tail))))))) r of
        Err e \<Rightarrow> Some (c, Err e)
      | Panic \<Rightarrow> Some (c, Panic)
      | Ok ((kind_name, rid, initial_window, max_packet, tail), _) \<Rightarrow>
          (case channel_open_decode kind_name tail of
             Err e \<Rightarrow> Some (c, Err e)
           | Panic \<Rightarrow> Some (c, Panic)
           | Ok k \<Rightarrow>
               if Mapping.size (channels c) \<ge> unat (max_channels c)
               then Some (c, Ok (OpenRejected (open_rejected_payload rid)
                                   SSH_OPEN_RESOURCE_SHORTAGE))
               else
                 (case allocate_local_id c of
                    None \<Rightarrow> None
                  | Some (cid, c1) \<Rightarrow>
                      Some (put_channel cid
                              (fresh_channel c1 cid rid initial_window max_packet kind_name False) c1,
                            Ok (OpenRequest cid k)))))"

definition on_open_confirmation :: "connection_state \<Rightarrow> reader \<Rightarrow> channel_event conn_res" where
  "on_open_confirmation c r = parse_then c
     (rd_bind read_u32 (\<lambda>cid. rd_bind read_u32 (\<lambda>rid. rd_bind read_u32 (\<lambda>initial_window.
      rd_bind read_u32 (\<lambda>max_packet. rd_ok (cid, rid, initial_window, max_packet)))))) r
     (\<lambda>(cid, rid, initial_window, max_packet).
        case channel c cid of
          None \<Rightarrow> (c, Err (Protocol ''open-confirm for unknown channel''))
        | Some ch \<Rightarrow>
            if open_confirmed ch then (c, Err (Protocol ''double open-confirm''))
            else if \<not> initiated_by_us ch
            then (c, Err (Protocol ''open-confirm for channel not initiated by us''))
            else (put_channel cid (ch\<lparr>remote_id := rid, remote_window := initial_window,
                    remote_max_packet := max_packet, open_confirmed := True\<rparr>) c,
                  Ok (OpenConfirmed cid)))"

definition on_open_failure :: "connection_state \<Rightarrow> reader \<Rightarrow> channel_event conn_res" where
  "on_open_failure c r = parse_then c
     (rd_bind read_u32 (\<lambda>cid. rd_bind read_u32 (\<lambda>reason.
      rd_bind (rd_bind read_string (utf8_or ''invalid utf-8 in open-failure description''))
        (\<lambda>description. rd_bind read_string (\<lambda>lang. rd_ok (cid, reason, description)))))) r
     (\<lambda>(cid, reason, description).
        case channel c cid of
          None \<Rightarrow> (c, Err (Protocol ''open-failure for unknown channel''))
        | Some ch \<Rightarrow>
            if \<not> initiated_by_us ch \<or> open_confirmed ch
            then (c, Err (Protocol ''open-failure for channel not pending our open''))
            else (drop_channel cid c, Ok (OpenFailed cid reason description)))"

definition on_window_adjust :: "connection_state \<Rightarrow> reader \<Rightarrow> channel_event conn_res" where
  "on_window_adjust c r = parse_then c
     (rd_bind read_u32 (\<lambda>cid. rd_bind read_u32 (\<lambda>added. rd_ok (cid, added)))) r
     (\<lambda>(cid, added). with_channel c cid (\<lambda>ch.
        (put_channel cid (ch\<lparr>remote_window := sat_add (remote_window ch) added\<rparr>) c,
         Ok (WindowAdjust cid added))))"

text \<open>The checks and the bookkeeping that both data messages share.\<close>

definition accept_data ::
    "connection_state \<Rightarrow> u32 \<Rightarrow> bytes \<Rightarrow> string \<Rightarrow> channel_event \<Rightarrow> channel_event conn_res" where
  "accept_data c cid data late ev = with_channel c cid (\<lambda>ch.
     if \<not> open_confirmed ch then (c, Err (Protocol ''channel not yet open''))
     else if remote_eof ch \<or> remote_closed ch then (c, Err (Protocol late))
     else
       let len = of_nat (length data) :: u32 in
       if len > local_window ch then (c, Err (Protocol ''peer exceeded advertised window''))
       else if len > local_max_packet ch then (c, Err (Protocol ''peer exceeded max packet''))
       else (put_channel cid (ch\<lparr>local_window := local_window ch - len,
                                activity := activity ch + ucast len\<rparr>) c,
             Ok ev))"

definition on_channel_data :: "connection_state \<Rightarrow> reader \<Rightarrow> channel_event conn_res" where
  "on_channel_data c r = parse_then c
     (rd_bind read_u32 (\<lambda>cid. rd_bind read_string (\<lambda>data. rd_ok (cid, data)))) r
     (\<lambda>(cid, data). accept_data c cid data ''data after EOF/close'' (Data cid data))"

definition on_extended_data :: "connection_state \<Rightarrow> reader \<Rightarrow> channel_event conn_res" where
  "on_extended_data c r = parse_then c
     (rd_bind read_u32 (\<lambda>cid. rd_bind read_u32 (\<lambda>code. rd_bind read_string (\<lambda>data.
        rd_ok (cid, code, data))))) r
     (\<lambda>(cid, code, data).
        accept_data c cid data ''extended data after EOF/close'' (ExtendedData cid code data))"

definition on_channel_eof :: "connection_state \<Rightarrow> reader \<Rightarrow> channel_event conn_res" where
  "on_channel_eof c r = parse_then c read_u32 r (\<lambda>cid. with_channel c cid (\<lambda>ch.
     if \<not> open_confirmed ch then (c, Err (Protocol ''channel not yet open''))
     else (put_channel cid (ch\<lparr>remote_eof := True\<rparr>) c, Ok (Eof cid))))"

definition on_channel_close :: "connection_state \<Rightarrow> reader \<Rightarrow> channel_event conn_res" where
  "on_channel_close c r = parse_then c read_u32 r (\<lambda>cid. with_channel c cid (\<lambda>ch.
     if \<not> open_confirmed ch then (c, Err (Protocol ''channel not yet open''))
     else
       let ch' = ch\<lparr>remote_closed := True\<rparr>;
           c1 = put_channel cid ch' c;
           c2 = (if is_fully_closed ch' then drop_channel cid c1 else c1)
       in (c2, Ok (Close cid))))"

definition on_channel_request :: "connection_state \<Rightarrow> reader \<Rightarrow> channel_event conn_res" where
  "on_channel_request c r = parse_then c
     (rd_bind read_u32 (\<lambda>cid. rd_bind read_utf8_borrowed (\<lambda>name. rd_bind read_bool (\<lambda>want_reply.
      rd_bind read_tail (\<lambda>tail. rd_ok (cid, name, want_reply, tail)))))) r
     (\<lambda>(cid, name, want_reply, tail).
        try_res c (channel_request_decode name tail) (\<lambda>request.
          with_channel c cid (\<lambda>ch.
            if \<not> open_confirmed ch then (c, Err (Protocol ''channel not yet open''))
            else (c, Ok (Request cid request want_reply)))))"

definition on_channel_success :: "connection_state \<Rightarrow> reader \<Rightarrow> channel_event conn_res" where
  "on_channel_success c r = parse_then c read_u32 r (\<lambda>cid.
     if channel c cid = None then (c, Err BadChannelState) else (c, Ok (Success cid)))"

definition on_channel_failure :: "connection_state \<Rightarrow> reader \<Rightarrow> channel_event conn_res" where
  "on_channel_failure c r = parse_then c read_u32 r (\<lambda>cid.
     if channel c cid = None then (c, Err BadChannelState) else (c, Ok (Failure cid)))"

definition on_packet :: "connection_state \<Rightarrow> bytes \<Rightarrow> channel_event conn_res option" where
  "on_packet c payload =
     (case read_u8 (reader_new payload) of
        Err e \<Rightarrow> Some (c, Err e)
      | Panic \<Rightarrow> Some (c, Panic)
      | Ok (msg, r) \<Rightarrow>
          if msg = MSG_GLOBAL_REQUEST then Some (on_global_request c r)
          else if msg = MSG_REQUEST_SUCCESS
          then Some (parse_then c read_tail r (\<lambda>data. (c, Ok (GlobalSuccess data))))
          else if msg = MSG_REQUEST_FAILURE then Some (c, Ok GlobalFailure)
          else if msg = MSG_CHANNEL_OPEN then on_channel_open c r
          else if msg = MSG_CHANNEL_OPEN_CONFIRMATION then Some (on_open_confirmation c r)
          else if msg = MSG_CHANNEL_OPEN_FAILURE then Some (on_open_failure c r)
          else if msg = MSG_CHANNEL_WINDOW_ADJUST then Some (on_window_adjust c r)
          else if msg = MSG_CHANNEL_DATA then Some (on_channel_data c r)
          else if msg = MSG_CHANNEL_EXTENDED_DATA then Some (on_extended_data c r)
          else if msg = MSG_CHANNEL_EOF then Some (on_channel_eof c r)
          else if msg = MSG_CHANNEL_CLOSE then Some (on_channel_close c r)
          else if msg = MSG_CHANNEL_REQUEST then Some (on_channel_request c r)
          else if msg = MSG_CHANNEL_SUCCESS then Some (on_channel_success c r)
          else if msg = MSG_CHANNEL_FAILURE then Some (on_channel_failure c r)
          else Some (c, Err (Protocol ''unexpected message for channel layer'')))"

end
