(* ===== verification/ChannelSpec.thy ===== *)
theory ChannelSpec
  imports ChannelProps
begin

text \<open>
  The abstract specification of the multiplexer and the refinement of the operations to it.
  \<open>peer_chan\<close> and \<open>local_chan\<close> say what a packet of the peer and a call of the frontend may do to
  one channel; \<open>peer_effect\<close> and \<open>local_effect\<close> lift them to the table. Every handler behind
  \<open>on_packet\<close> and every operation is shown to have one of these effects; the invariants are then
  proved over the few rules of the specification.
\<close>

section \<open>What may happen to one channel\<close>

inductive peer_chan :: "channel_state \<Rightarrow> channel_state \<Rightarrow> bool" where
  confirmed: "\<not> open_confirmed ch \<Longrightarrow> initiated_by_us ch \<Longrightarrow>
    peer_chan ch (ch\<lparr>remote_id := rid, remote_window := win, remote_max_packet := mx,
                     open_confirmed := True\<rparr>)"
| credited: "peer_chan ch (ch\<lparr>remote_window := sat_add (remote_window ch) n\<rparr>)"
| received: "open_confirmed ch \<Longrightarrow> \<not> remote_eof ch \<Longrightarrow> \<not> remote_closed ch \<Longrightarrow>
    len \<le> local_window ch \<Longrightarrow> len \<le> local_max_packet ch \<Longrightarrow>
    peer_chan ch (ch\<lparr>local_window := local_window ch - len, activity := activity ch + ucast len\<rparr>)"
| peer_eof: "open_confirmed ch \<Longrightarrow> peer_chan ch (ch\<lparr>remote_eof := True\<rparr>)"
| peer_closed: "open_confirmed ch \<Longrightarrow> peer_chan ch (ch\<lparr>remote_closed := True\<rparr>)"

inductive local_chan :: "channel_state \<Rightarrow> channel_state \<Rightarrow> bool" where
  accepted: "\<not> open_confirmed ch \<Longrightarrow> local_chan ch (ch\<lparr>open_confirmed := True\<rparr>)"
| sent: "\<not> local_closed ch \<Longrightarrow> \<not> remote_closed ch \<Longrightarrow> \<not> local_eof ch \<Longrightarrow>
    n \<le> unat (remote_window ch) \<Longrightarrow> n \<le> unat (remote_max_packet ch) - 9 \<Longrightarrow>
    local_chan ch (note_sent n ch)"
| local_eof_sent: "\<not> local_closed ch \<Longrightarrow> local_chan ch (ch\<lparr>local_eof := True\<rparr>)"
| close_sent: "\<not> local_closed ch \<Longrightarrow> local_chan ch (ch\<lparr>local_closed := True\<rparr>)"
| credit_kept: "\<not> local_closed ch \<Longrightarrow> p = sat_add (pending_replenish ch) n \<Longrightarrow>
    p < replenish_threshold ch \<Longrightarrow> local_chan ch (ch\<lparr>pending_replenish := p\<rparr>)"
| credit_flushed: "\<not> local_closed ch \<Longrightarrow> p = sat_add (pending_replenish ch) n \<Longrightarrow>
    replenish_threshold ch \<le> p \<Longrightarrow>
    local_chan ch (ch\<lparr>pending_replenish := 0, local_window := sat_add (local_window ch) p\<rparr>)"
| tagged: "local_chan ch (ch\<lparr>xtype := Some x\<rparr>)"

section \<open>What may happen to the table\<close>

inductive peer_effect :: "connection_state \<Rightarrow> connection_state \<Rightarrow> bool" where
  peer_same: "peer_effect c c"
| peer_requested: "channel c i = None \<Longrightarrow> channel_count c < unat (max_channels c) \<Longrightarrow>
    peer_effect c (put_channel i (fresh_channel c i rid win mx k False) (c\<lparr>next_local_id := i + 1\<rparr>))"
| peer_refused: "channel c i = Some ch \<Longrightarrow> initiated_by_us ch \<Longrightarrow> \<not> open_confirmed ch \<Longrightarrow>
    peer_effect c (drop_channel i c)"
| peer_changed: "channel c i = Some ch \<Longrightarrow> peer_chan ch ch' \<Longrightarrow> \<not> is_fully_closed ch' \<Longrightarrow>
    peer_effect c (put_channel i ch' c)"
| peer_finished: "channel c i = Some ch \<Longrightarrow> open_confirmed ch \<Longrightarrow> local_closed ch \<Longrightarrow>
    peer_effect c (drop_channel i c)"

inductive local_effect :: "connection_state \<Rightarrow> connection_state \<Rightarrow> bool" where
  local_same: "local_effect c c"
| local_opened: "channel c i = None \<Longrightarrow>
    local_effect c (put_channel i (fresh_channel c i 0 0 0 k True) (c\<lparr>next_local_id := i + 1\<rparr>))"
| local_rejected: "channel c i = Some ch \<Longrightarrow> \<not> open_confirmed ch \<Longrightarrow>
    local_effect c (drop_channel i c)"
| local_changed: "channel c i = Some ch \<Longrightarrow> local_chan ch ch' \<Longrightarrow> \<not> is_fully_closed ch' \<Longrightarrow>
    local_effect c (put_channel i ch' c)"
| local_finished: "channel c i = Some ch \<Longrightarrow> remote_closed ch \<Longrightarrow> \<not> local_closed ch \<Longrightarrow>
    local_effect c (drop_channel i c)"

section \<open>The invariant of the table\<close>

definition channel_ok :: "u32 \<Rightarrow> channel_state \<Rightarrow> bool" where
  "channel_ok i ch \<longleftrightarrow>
     local_id ch = i
   \<and> \<not> is_fully_closed ch
   \<and> (remote_eof ch \<or> remote_closed ch \<longrightarrow> open_confirmed ch)
   \<and> (initiated_by_us ch \<and> \<not> open_confirmed ch \<longrightarrow> remote_max_packet ch = 0)
   \<and> pending_replenish ch < replenish_threshold ch"

definition table_ok :: "connection_state \<Rightarrow> bool" where
  "table_ok c \<longleftrightarrow> (\<forall>i ch. channel c i = Some ch \<longrightarrow> channel_ok i ch)"

lemma threshold_pos: "0 < replenish_threshold ch"
  by (rule less_le_trans [of _ 1]) (simp_all add: replenish_threshold_def)

lemma threshold_frame:
  "initial_local_window ch' = initial_local_window ch \<Longrightarrow>
   local_max_packet ch' = local_max_packet ch \<Longrightarrow>
   replenish_threshold ch' = replenish_threshold ch"
  by (simp add: replenish_threshold_def)

lemma fresh_channel_ok: "rmax = 0 \<or> \<not> us \<Longrightarrow> channel_ok i (fresh_channel c i rid win rmax k us)"
  using threshold_pos [of "fresh_channel c i rid win rmax k us"]
  by (auto simp: channel_ok_def fresh_channel_def is_fully_closed_def)

lemma peer_chan_frame:
  assumes "peer_chan ch ch'"
  shows "local_id ch' = local_id ch" "initiated_by_us ch' = initiated_by_us ch"
    "local_closed ch' = local_closed ch" "local_eof ch' = local_eof ch"
    "pending_replenish ch' = pending_replenish ch"
    "initial_local_window ch' = initial_local_window ch"
    "local_max_packet ch' = local_max_packet ch" "ch_kind ch' = ch_kind ch"
    "open_confirmed ch \<Longrightarrow> open_confirmed ch'"
    "remote_eof ch \<Longrightarrow> remote_eof ch'" "remote_closed ch \<Longrightarrow> remote_closed ch'"
    "local_window ch' \<le> local_window ch"
  using assms by (induction rule: peer_chan.induct) (simp_all add: word_sub_le)

lemma local_chan_frame:
  assumes "local_chan ch ch'"
  shows "local_id ch' = local_id ch" "remote_id ch' = remote_id ch"
    "initiated_by_us ch' = initiated_by_us ch"
    "remote_closed ch' = remote_closed ch" "remote_eof ch' = remote_eof ch"
    "remote_max_packet ch' = remote_max_packet ch"
    "initial_local_window ch' = initial_local_window ch"
    "local_max_packet ch' = local_max_packet ch" "ch_kind ch' = ch_kind ch"
    "open_confirmed ch \<Longrightarrow> open_confirmed ch'"
    "local_eof ch \<Longrightarrow> local_eof ch'" "local_closed ch \<Longrightarrow> local_closed ch'"
  using assms by (induction rule: local_chan.induct) (simp_all add: note_sent_def)

lemma peer_chan_ok:
  assumes "peer_chan ch ch'" "channel_ok i ch" "\<not> is_fully_closed ch'"
  shows "channel_ok i ch'"
  using assms threshold_frame [of ch' ch] peer_chan_frame [OF assms(1)]
  by (induction rule: peer_chan.induct) (auto simp: channel_ok_def)

lemma local_chan_ok:
  assumes "local_chan ch ch'" "channel_ok i ch" "\<not> is_fully_closed ch'"
  shows "channel_ok i ch'"
  using assms threshold_frame [of ch' ch] local_chan_frame [OF assms(1)] threshold_pos [of ch]
  by (induction rule: local_chan.induct) (auto simp: channel_ok_def note_sent_def)

lemma peer_effect_table_ok: "peer_effect c c' \<Longrightarrow> table_ok c \<Longrightarrow> table_ok c'"
proof (induction rule: peer_effect.induct)
  case (peer_changed c i ch ch')
  then show ?case by (auto simp: table_ok_def chan_simps intro: peer_chan_ok)
qed (auto simp: table_ok_def chan_simps fresh_channel_ok)

lemma local_effect_table_ok: "local_effect c c' \<Longrightarrow> table_ok c \<Longrightarrow> table_ok c'"
proof (induction rule: local_effect.induct)
  case (local_changed c i ch ch')
  then show ?case by (auto simp: table_ok_def chan_simps intro: local_chan_ok)
qed (auto simp: table_ok_def chan_simps fresh_channel_ok)

section \<open>The operations refine the specification\<close>

lemma try_res_cases:
  assumes "try_res c m f = (c', r)"
  obtains (val) x where "m = Ok x" "f x = (c', r)"
    | (error) e where "m = Err e" "c' = c" "r = Err e"
    | (panic) "m = Panic" "c' = c" "r = Panic"
  using assms by (cases m) (auto simp: try_res_def)

lemma with_channel_cases:
  assumes "with_channel c i f = (c', r)"
  obtains (found) ch where "channel c i = Some ch" "f ch = (c', r)"
    | (missing) "channel c i = None" "c' = c" "r = Err BadChannelState"
  using assms by (cases "channel c i") (auto simp: with_channel_def)

lemma parse_then_cases:
  assumes "parse_then c m rd f = (c', r)"
  obtains (val) x rd' where "m rd = Ok (x, rd')" "f x = (c', r)"
    | (error) e where "m rd = Err e" "c' = c" "r = Err e"
    | (panic) "m rd = Panic" "c' = c" "r = Panic"
  using assms by (cases "m rd") (auto simp: parse_then_def try_res_def)

lemma drop_put: "drop_channel i (put_channel i ch c) = drop_channel i c"
proof -
  have "Mapping.delete i (Mapping.update i ch (channels c)) = Mapping.delete i (channels c)"
    by (rule mapping_eqI) (metis lookup_delete lookup_delete_neq lookup_update_neq)
  then show ?thesis by (simp add: put_channel_def drop_channel_def)
qed

lemma table_okD: "table_ok c \<Longrightarrow> channel c i = Some ch \<Longrightarrow> channel_ok i ch"
  by (simp add: table_ok_def)

lemmas op_cases = with_channel_cases try_res_cases parse_then_cases

lemma fresh_channel_next [simp]:
  "fresh_channel (c\<lparr>next_local_id := n\<rparr>) = fresh_channel c"
  by (simp add: fresh_channel_def fun_eq_iff)

lemma open_channel_effect: "open_channel c k = Some (c', r) \<Longrightarrow> local_effect c c'"
  by (auto simp: open_channel_def Let_def dest!: allocate_spec split: option.splits
      intro!: local_opened)

lemma channel_ok_not_closed: "channel_ok i ch \<Longrightarrow> \<not> (local_closed ch \<and> remote_closed ch)"
  by (simp add: channel_ok_def is_fully_closed_def)

lemma accept_open_effect:
  "table_ok c \<Longrightarrow> accept_open c i = (c', r) \<Longrightarrow> local_effect c c'"
  unfolding accept_open_def
  by (erule with_channel_cases)
    (auto simp: is_fully_closed_def dest!: table_okD channel_ok_not_closed split: if_splits
      intro!: local_same local_changed accepted)

lemma reject_open_effect: "reject_open c i reason desc lang = (c', r) \<Longrightarrow> local_effect c c'"
  unfolding reject_open_def
  by (erule with_channel_cases)
    (auto simp: Let_def put_drop_restore split: if_splits intro!: local_same local_rejected)

lemma send_request_effect: "send_request c i req want = (c', r) \<Longrightarrow> c' = c"
  unfolding send_request_def by (elim op_cases) auto

lemma send_request_success_effect: "send_request_success c i = (c', r) \<Longrightarrow> c' = c"
  unfolding send_request_success_def by (elim op_cases) auto

lemma send_request_failure_effect: "send_request_failure c i = (c', r) \<Longrightarrow> c' = c"
  unfolding send_request_failure_def by (elim op_cases) auto

lemma set_xtype_effect:
  assumes "table_ok c"
  shows "local_effect c (set_xtype c i x)"
proof (cases "channel c i")
  case None
  then show ?thesis by (simp add: set_xtype_def local_same)
next
  case (Some ch)
  with assms have "\<not> (local_closed ch \<and> remote_closed ch)"
    by (auto dest!: table_okD channel_ok_not_closed)
  with Some show ?thesis
    by (auto simp: set_xtype_def is_fully_closed_def intro!: local_changed tagged)
qed

lemma data_capacity_bound:
  "data_capacity ch \<le> unat (remote_window ch) \<and> data_capacity ch \<le> unat (remote_max_packet ch) - 9"
  by (auto simp: data_capacity_def unat_sub word_le_nat_alt not_less)

lemma extended_data_capacity_bound:
  "extended_data_capacity ch \<le> unat (remote_window ch) \<and>
   extended_data_capacity ch \<le> unat (remote_max_packet ch) - 13"
  by (auto simp: extended_data_capacity_def unat_sub word_le_nat_alt not_less)

lemma ensure_sendable_Ok:
  "ensure_sendable ch = Ok u \<longleftrightarrow> \<not> local_closed ch \<and> \<not> remote_closed ch"
  by (cases u) (auto simp: ensure_sendable_def)

lemma sent_effect:
  assumes "channel c i = Some ch" "ensure_sendable ch = Ok u" "\<not> local_eof ch"
    "n \<le> unat (remote_window ch)" "n \<le> unat (remote_max_packet ch) - 9"
  shows "local_effect c (put_channel i (note_sent n ch) c)"
proof (rule local_changed [OF assms(1)])
  show "local_chan ch (note_sent n ch)"
    using assms(2-5) by (intro sent) (simp_all add: ensure_sendable_Ok)
  show "\<not> is_fully_closed (note_sent n ch)"
    using assms(2) by (simp add: ensure_sendable_Ok is_fully_closed_def note_sent_def)
qed

lemma send_data_effect: "send_data c i data = (c', r) \<Longrightarrow> local_effect c c'"
  unfolding send_data_def Let_def
proof (elim op_cases, goal_cases)
  case (1 ch u)
  show ?case
  proof (cases "local_eof ch")
    case True
    with 1 show ?thesis by (auto intro: local_same)
  next
    case False
    then have "c' = put_channel i (note_sent (min (length data) (data_capacity ch)) ch) c"
      using 1(3) by (auto simp: try_res_def slice_res_def)
    with 1 False data_capacity_bound [of ch] show ?thesis
      by (auto intro!: sent_effect)
  qed
qed (auto intro: local_same)

lemma send_extended_data_effect: "send_extended_data c i code data = (c', r) \<Longrightarrow> local_effect c c'"
  unfolding send_extended_data_def Let_def
proof (elim op_cases, goal_cases)
  case (1 ch u)
  show ?case
  proof (cases "local_eof ch")
    case True
    with 1 show ?thesis by (auto intro: local_same)
  next
    case False
    then have "c' = put_channel i (note_sent (min (length data) (extended_data_capacity ch)) ch) c"
      using 1(3) by (auto simp: try_res_def slice_res_def)
    with 1 False extended_data_capacity_bound [of ch] show ?thesis
      by (auto intro!: sent_effect)
  qed
qed (auto intro: local_same)

lemma send_datagram_effect: "send_datagram c i data = (c', r) \<Longrightarrow> local_effect c c'"
  unfolding send_datagram_def
  by (elim op_cases)
    (auto split: if_splits prod.splits intro: local_same send_data_effect)

lemma send_eof_effect: "table_ok c \<Longrightarrow> send_eof c i = (c', r) \<Longrightarrow> local_effect c c'"
  unfolding send_eof_def
  by (erule with_channel_cases)
    (auto simp: is_fully_closed_def dest!: table_okD channel_ok_not_closed split: if_splits
      intro!: local_same local_changed local_eof_sent)

lemma send_close_effect: "send_close c i = (c', r) \<Longrightarrow> local_effect c c'"
  unfolding send_close_def
  by (erule with_channel_cases)
    (auto simp: Let_def is_fully_closed_def drop_put split: if_splits
      intro: local_same local_finished intro!: local_changed close_sent)

lemma replenish_window_effect:
  "table_ok c \<Longrightarrow> replenish_window c i n = (c', r) \<Longrightarrow> local_effect c c'"
  unfolding replenish_window_def
proof (erule with_channel_cases, goal_cases)
  case (1 ch)
  then have nc: "\<not> (local_closed ch \<and> remote_closed ch)"
    by (auto dest!: table_okD channel_ok_not_closed)
  let ?p = "sat_add (pending_replenish ch) n"
  have th: "replenish_threshold (ch\<lparr>pending_replenish := ?p\<rparr>) = replenish_threshold ch"
    by (rule threshold_frame) simp_all
  show ?case
  proof (cases "local_closed ch \<or> n = 0")
    case True
    with 1 show ?thesis by (auto split: if_splits intro: local_same)
  next
    case False
    with 1 nc th show ?thesis
      by (auto simp: Let_def is_fully_closed_def not_less split: if_splits
          intro!: local_changed credit_kept credit_flushed)
  qed
qed (auto intro: local_same)

section \<open>The handlers refine the specification\<close>

text \<open>
  A handler leaves the connection alone or has one of the peer's effects; when it reports an error,
  it has left the connection alone.
\<close>

definition handler_ok :: "connection_state \<Rightarrow> 'a conn_res \<Rightarrow> bool" where
  "handler_ok c out \<longleftrightarrow> peer_effect c (fst out) \<and> (\<not> is_ok (snd out) \<longrightarrow> fst out = c) \<and> snd out \<noteq> Panic"

lemma handler_ok_same [simp]: "handler_ok c (c, Ok x)" "handler_ok c (c, Err e)"
  by (simp_all add: handler_ok_def peer_same is_ok_def)

lemma handler_ok_effect: "peer_effect c c' \<Longrightarrow> handler_ok c (c', Ok x)"
  by (simp add: handler_ok_def is_ok_def)

lemma handler_ok_try:
  "m \<noteq> Panic \<Longrightarrow> (\<And>x. m = Ok x \<Longrightarrow> handler_ok c (f x)) \<Longrightarrow> handler_ok c (try_res c m f)"
  by (cases m) (simp_all add: try_res_def)

lemma handler_ok_parse:
  "safe_rd m \<Longrightarrow> (\<And>x. handler_ok c (f x)) \<Longrightarrow> handler_ok c (parse_then c m rd f)"
  unfolding parse_then_def by (rule handler_ok_try) (auto split: prod.splits)

lemma handler_ok_with:
  "(\<And>ch. channel c i = Some ch \<Longrightarrow> handler_ok c (f ch)) \<Longrightarrow> handler_ok c (with_channel c i f)"
  by (cases "channel c i") (simp_all add: with_channel_def)

lemma safe_read_tail: "safe_rd read_tail"
  using safe_take_bytes by (auto simp: safe_rd_def read_tail_def)

lemmas handler_reads = safe_channel_reads safe_utf8_or safe_read_tail

lemma handler_ok_put_closed:
  assumes "table_ok c" "channel c i = Some ch" "peer_chan ch ch'"
    "remote_closed ch' = remote_closed ch"
  shows "handler_ok c (put_channel i ch' c, Ok x)"
proof (intro handler_ok_effect peer_changed [OF assms(2,3)])
  have "local_closed ch' = local_closed ch" using peer_chan_frame [OF assms(3)] by simp
  then show "\<not> is_fully_closed ch'"
    using assms channel_ok_not_closed [OF table_okD [OF assms(1,2)]]
    by (simp add: is_fully_closed_def)
qed

lemma on_global_request_ok: "handler_ok c (on_global_request c rd)"
  unfolding on_global_request_def
  by (intro handler_ok_parse handler_reads)
    (auto intro!: handler_ok_try simp: globb.bdec_safe split: prod.splits)

lemma on_open_confirmation_ok: "table_ok c \<Longrightarrow> handler_ok c (on_open_confirmation c rd)"
  unfolding on_open_confirmation_def
  by (intro handler_ok_parse handler_reads)
    (auto split: prod.splits option.splits intro!: handler_ok_put_closed confirmed)

lemma on_open_failure_ok: "handler_ok c (on_open_failure c rd)"
  unfolding on_open_failure_def
  by (intro handler_ok_parse handler_reads)
    (auto split: prod.splits option.splits intro!: handler_ok_effect peer_refused)

lemma on_window_adjust_ok: "table_ok c \<Longrightarrow> handler_ok c (on_window_adjust c rd)"
  unfolding on_window_adjust_def
  by (intro handler_ok_parse handler_reads)
    (auto split: prod.splits intro!: handler_ok_with handler_ok_put_closed credited)

lemma accept_data_ok: "table_ok c \<Longrightarrow> handler_ok c (accept_data c i data late ev)"
  unfolding accept_data_def
  by (intro handler_ok_with)
    (auto simp: Let_def not_less intro!: handler_ok_put_closed received)

lemma on_channel_data_ok: "table_ok c \<Longrightarrow> handler_ok c (on_channel_data c rd)"
  unfolding on_channel_data_def
  by (intro handler_ok_parse handler_reads) (auto split: prod.splits intro!: accept_data_ok)

lemma on_extended_data_ok: "table_ok c \<Longrightarrow> handler_ok c (on_extended_data c rd)"
  unfolding on_extended_data_def
  by (intro handler_ok_parse handler_reads) (auto split: prod.splits intro!: accept_data_ok)

lemma on_channel_eof_ok: "table_ok c \<Longrightarrow> handler_ok c (on_channel_eof c rd)"
  unfolding on_channel_eof_def
  by (intro handler_ok_parse handler_reads handler_ok_with)
    (auto intro!: handler_ok_put_closed peer_eof)

lemma on_channel_close_ok: "handler_ok c (on_channel_close c rd)"
  unfolding on_channel_close_def
  by (intro handler_ok_parse handler_reads handler_ok_with)
    (auto simp: Let_def is_fully_closed_def drop_put
      intro: handler_ok_effect peer_finished intro!: handler_ok_effect peer_changed peer_closed)

lemma on_channel_request_ok: "handler_ok c (on_channel_request c rd)"
  unfolding on_channel_request_def
  by (intro handler_ok_parse handler_reads)
    (auto split: prod.splits intro!: handler_ok_try handler_ok_with simp: reqb.bdec_safe)

lemma on_channel_success_ok: "handler_ok c (on_channel_success c rd)"
  unfolding on_channel_success_def by (intro handler_ok_parse handler_reads) auto

lemma on_channel_failure_ok: "handler_ok c (on_channel_failure c rd)"
  unfolding on_channel_failure_def by (intro handler_ok_parse handler_reads) auto

lemma on_channel_open_ok: "on_channel_open c rd = Some out \<Longrightarrow> handler_ok c out"
proof -
  let ?m = "rd_bind read_utf8_borrowed (\<lambda>kind_name. rd_bind read_u32 (\<lambda>rid.
            rd_bind read_u32 (\<lambda>initial_window. rd_bind read_u32 (\<lambda>max_packet.
            rd_bind read_tail (\<lambda>tail.
              rd_ok (kind_name, rid, initial_window, max_packet, tail))))))"
  have "safe_rd ?m" by (intro handler_reads)
  then have "?m rd \<noteq> Panic" by blast
  moreover assume "on_channel_open c rd = Some out"
  ultimately show ?thesis
    using openb.bdec_safe
    by (auto simp: on_channel_open_def not_le channel_count_def [symmetric]
        dest!: allocate_spec split: res.splits option.splits prod.splits if_splits
        intro!: handler_ok_effect peer_requested intro: peer_same)
qed

lemma on_packet_ok:
  assumes "table_ok c" and "on_packet c payload = Some out"
  shows "handler_ok c out"
proof -
  have "read_u8 (reader_new payload) \<noteq> Panic" using safe_read_u8 by blast
  moreover have "handler_ok c (parse_then c read_tail rd (\<lambda>data. (c, Ok (GlobalSuccess data))))" for rd
    by (intro handler_ok_parse handler_reads) simp
  ultimately show ?thesis
    using assms
    by (auto simp: on_packet_def on_global_request_ok on_open_confirmation_ok on_open_failure_ok
        on_window_adjust_ok on_channel_data_ok on_extended_data_ok on_channel_eof_ok
        on_channel_close_ok on_channel_request_ok on_channel_success_ok on_channel_failure_ok
        on_channel_open_ok split: res.splits if_splits)
qed

section \<open>Runs\<close>

text \<open>One call of the frontend, or one packet of the peer, with its arguments.\<close>

datatype conn_op =
    OpOpen channel_open
  | OpAccept u32
  | OpReject u32 u32 rust_str rust_str
  | OpRequest u32 channel_request bool
  | OpRequestSuccess u32
  | OpRequestFailure u32
  | OpXtype u32 rust_str
  | OpData u32 bytes
  | OpDatagram u32 bytes
  | OpExtended u32 u32 bytes
  | OpEof u32
  | OpClose u32
  | OpReplenish u32 u32
  | OpPacket bytes

fun exec_op :: "connection_state \<Rightarrow> conn_op \<Rightarrow> connection_state option" where
  "exec_op c (OpOpen k) = map_option fst (open_channel c k)"
| "exec_op c (OpAccept i) = Some (fst (accept_open c i))"
| "exec_op c (OpReject i reason d l) = Some (fst (reject_open c i reason d l))"
| "exec_op c (OpRequest i req want) = Some (fst (send_request c i req want))"
| "exec_op c (OpRequestSuccess i) = Some (fst (send_request_success c i))"
| "exec_op c (OpRequestFailure i) = Some (fst (send_request_failure c i))"
| "exec_op c (OpXtype i x) = Some (set_xtype c i x)"
| "exec_op c (OpData i d) = Some (fst (send_data c i d))"
| "exec_op c (OpDatagram i d) = Some (fst (send_datagram c i d))"
| "exec_op c (OpExtended i code d) = Some (fst (send_extended_data c i code d))"
| "exec_op c (OpEof i) = Some (fst (send_eof c i))"
| "exec_op c (OpClose i) = Some (fst (send_close c i))"
| "exec_op c (OpReplenish i n) = Some (fst (replenish_window c i n))"
| "exec_op c (OpPacket p) = map_option fst (on_packet c p)"

fun is_packet :: "conn_op \<Rightarrow> bool" where
  "is_packet (OpPacket _) = True"
| "is_packet _ = False"

lemma exec_op_local:
  assumes "table_ok c" "exec_op c oper = Some c'" "\<not> is_packet oper"
  shows "local_effect c c'"
  using assms
  by (cases oper)
    (auto intro: open_channel_effect accept_open_effect reject_open_effect set_xtype_effect
      send_data_effect send_datagram_effect send_extended_data_effect send_eof_effect
      send_close_effect replenish_window_effect prod.collapse [symmetric]
      simp: send_request_effect [OF prod.collapse [symmetric]] local_same
        send_request_success_effect [OF prod.collapse [symmetric]]
        send_request_failure_effect [OF prod.collapse [symmetric]])

lemma exec_op_peer:
  assumes "table_ok c" "exec_op c (OpPacket p) = Some c'"
  shows "peer_effect c c'"
  using assms on_packet_ok [OF assms(1)] by (auto simp: handler_ok_def)

lemma exec_op_table_ok:
  assumes "table_ok c" "exec_op c oper = Some c'"
  shows "table_ok c'"
proof (cases "is_packet oper")
  case True
  then obtain p where "oper = OpPacket p" by (cases oper) simp_all
  with assms exec_op_peer peer_effect_table_ok show ?thesis by blast
next
  case False
  with assms exec_op_local local_effect_table_ok show ?thesis by blast
qed

text \<open>
  The states of a connection: it starts with an empty table, the frontend calls operations and
  delivers packets in any order, and it may change the public limits at any time.
\<close>

inductive conn_reach :: "connection_state \<Rightarrow> bool" where
  reach_start: "channels c = Mapping.empty \<Longrightarrow> conn_reach c"
| reach_op: "conn_reach c \<Longrightarrow> exec_op c oper = Some c' \<Longrightarrow> conn_reach c'"
| reach_config: "conn_reach c \<Longrightarrow>
    conn_reach (c\<lparr>default_window := w, default_max_packet := m, max_channels := n\<rparr>)"

lemma table_ok_empty: "channels c = Mapping.empty \<Longrightarrow> table_ok c"
  by (simp add: table_ok_def channel_def)

lemma table_ok_config:
  "table_ok (c\<lparr>default_window := w, default_max_packet := m, max_channels := n\<rparr>) = table_ok c"
  by (simp add: table_ok_def channel_def)

lemma conn_reach_table_ok: "conn_reach c \<Longrightarrow> table_ok c"
  by (induction rule: conn_reach.induct)
    (simp_all add: table_ok_empty table_ok_config exec_op_table_ok)

end
