(* ===== verification/ChannelClaims.thy ===== *)
theory ChannelClaims
  imports ChannelSpec
begin

text \<open>
  The properties of one endpoint's multiplexer: the table invariant over every run, totality and
  atomicity of \<open>on_packet\<close>, the channel cap, the monotone life cycle of a channel, what a peer
  cannot do to a channel it asked for, and when data is delivered.
\<close>

section \<open>The invariant over every run\<close>

text \<open>
  In every state a connection can reach, the table is well formed: every entry is filed
  under its own local id, no entry is closed on both sides, EOF or CLOSE from the peer is only
  recorded on a confirmed channel, a channel we opened and that is not confirmed yet has a zero
  peer packet size, and fewer bytes are waiting to be credited than the flush threshold.
\<close>

theorem reachable_table_ok:
  assumes "conn_reach c" and "channel c i = Some ch"
  shows "local_id ch = i \<and> \<not> is_fully_closed ch
       \<and> (remote_eof ch \<or> remote_closed ch \<longrightarrow> open_confirmed ch)
       \<and> (initiated_by_us ch \<and> \<not> open_confirmed ch \<longrightarrow> remote_max_packet ch = 0)
       \<and> pending_replenish ch < replenish_threshold ch"
  using table_okD [OF conn_reach_table_ok [OF assms(1)] assms(2)] by (simp add: channel_ok_def)

lemma open_channel_new:
  "open_channel connection_new Session =
     Some (put_channel 0 (fresh_channel connection_new 0 0 0 0 (lit ''session'') True)
             (connection_new\<lparr>next_local_id := 1\<rparr>),
           Ok (0, into_vec (write_u32 DEFAULT_MAX_PACKET (write_u32 DEFAULT_WINDOW (write_u32 0
             (write_string (lit ''session'') (write_u8 MSG_CHANNEL_OPEN writer_new)))))))"
proof -
  have "allocate_local_id connection_new = Some (0, connection_new\<lparr>next_local_id := 1\<rparr>)"
    by (subst allocate_local_id.simps) (simp add: connection_new_def channel_def)
  then show ?thesis
    by (simp add: open_channel_def Let_def) (simp add: connection_new_def)
qed

abbreviation one_pending :: connection_state where
  "one_pending \<equiv> put_channel 0 (fresh_channel connection_new 0 0 0 0 (lit ''session'') True)
     (connection_new\<lparr>next_local_id := 1\<rparr>)"

lemma one_pending_reach: "conn_reach one_pending"
proof (rule reach_op [of connection_new "OpOpen Session"])
  show "conn_reach connection_new" by (rule reach_start) (simp add: connection_new_def)
qed (simp add: open_channel_new)

lemma one_pending_channel: "channel one_pending 0 =
    Some (fresh_channel connection_new 0 0 0 0 (lit ''session'') True)"
  by (simp add: chan_simps)

theorem reachable_table_ok_witness:
  "conn_reach one_pending \<and>
   local_id (fresh_channel connection_new 0 0 0 0 (lit ''session'') True) = 0 \<and>
   remote_max_packet (fresh_channel connection_new 0 0 0 0 (lit ''session'') True) = 0"
  using reachable_table_ok [OF one_pending_reach one_pending_channel] one_pending_reach
  by (simp add: fresh_channel_def)

section \<open>Totality, panic freedom and atomicity of \<open>on_packet\<close>\<close>

lemma on_channel_open_total:
  assumes "channel_count c < 2 ^ 32"
  shows "\<exists>out. on_channel_open c rd = Some out"
proof -
  obtain x where "channel c x = None" using free_id_exists [OF assms] by blast
  then obtain i c1 where "allocate_local_id c = Some (i, c1)" by (rule allocate_returns)
  then show ?thesis
    by (auto simp: on_channel_open_def split: res.splits prod.splits)
qed

lemma on_packet_total:
  assumes "channel_count c < 2 ^ 32"
  shows "\<exists>out. on_packet c payload = Some out"
  using on_channel_open_total [OF assms] by (auto simp: on_packet_def split: res.splits)

text \<open>
  Claim C16. On every byte string whatever, \<open>on_packet\<close> returns (the id allocator's loop ends), it
  never panics, and when it reports an error the connection is exactly as it was.
\<close>

theorem on_packet_total_atomic:
  assumes "table_ok c" and "channel_count c < 2 ^ 32"
  shows "\<exists>c' r. on_packet c payload = Some (c', r) \<and> r \<noteq> Panic \<and> (\<forall>e. r = Err e \<longrightarrow> c' = c)"
proof -
  obtain c' r where out: "on_packet c payload = Some (c', r)"
    using on_packet_total [OF assms(2)] by force
  with on_packet_ok [OF assms(1) out] show ?thesis by (auto simp: handler_ok_def is_ok_def)
qed

lemma connection_new_ok: "table_ok connection_new" "channel_count connection_new < 2 ^ 32"
  by (simp_all add: table_ok_empty channel_count_def connection_new_def Mapping.size_def)

theorem on_packet_total_atomic_witness:
  "table_ok connection_new \<and> channel_count connection_new < 2 ^ 32 \<and>
   (\<exists>c' r. on_packet connection_new [94, 0, 0] = Some (c', r) \<and> r \<noteq> Panic \<and>
      (\<forall>e. r = Err e \<longrightarrow> c' = connection_new))"
  using connection_new_ok on_packet_total_atomic [OF connection_new_ok] by blast

definition op_atomic :: "connection_state \<Rightarrow> 'a conn_res \<Rightarrow> bool" where
  "op_atomic c out \<longleftrightarrow> snd out \<noteq> Panic \<and> (\<not> is_ok (snd out) \<longrightarrow> fst out = c)"

lemma op_atomic_simps [simp]:
  "op_atomic c (c', Ok x)" "op_atomic c (c', Err e) \<longleftrightarrow> c' = c" "\<not> op_atomic c (c', Panic)"
  by (simp_all add: op_atomic_def is_ok_def)

lemma op_atomic_with:
  "(\<And>ch. channel c i = Some ch \<Longrightarrow> op_atomic c (f ch)) \<Longrightarrow> op_atomic c (with_channel c i f)"
  by (cases "channel c i") (simp_all add: with_channel_def)

lemma op_atomic_try:
  "m \<noteq> Panic \<Longrightarrow> (\<And>x. m = Ok x \<Longrightarrow> op_atomic c (f x)) \<Longrightarrow> op_atomic c (try_res c m f)"
  by (cases m) (simp_all add: try_res_def)

lemma ensure_sendable_safe: "ensure_sendable ch \<noteq> Panic"
  by (simp add: ensure_sendable_def)

lemma slice_prefix_safe: "n \<le> length d \<Longrightarrow> slice_res d 0 n \<noteq> Panic"
  by (simp add: slice_res_def)

lemma send_data_atomic: "op_atomic c (send_data c i d)"
  unfolding send_data_def
  by (auto simp: Let_def ensure_sendable_safe slice_prefix_safe
      intro!: op_atomic_with op_atomic_try)

lemma send_extended_data_atomic: "op_atomic c (send_extended_data c i code d)"
  unfolding send_extended_data_def
  by (auto simp: Let_def ensure_sendable_safe slice_prefix_safe
      intro!: op_atomic_with op_atomic_try)

lemma send_datagram_atomic: "op_atomic c (send_datagram c i d)"
proof -
  obtain c' r where sd: "send_data c i d = (c', r)" by (cases "send_data c i d")
  then have "op_atomic c (c', r)" using send_data_atomic [of c i d] by simp
  then have "op_atomic c (c', map_res (\<lambda>(payload, _). Some payload) r)" by (cases r) simp_all
  then show ?thesis
    unfolding send_datagram_def sd
    by (auto simp: ensure_sendable_safe intro!: op_atomic_with op_atomic_try)
qed

lemma reject_open_atomic: "op_atomic c (reject_open c i reason d l)"
  unfolding reject_open_def
  by (intro op_atomic_with) (auto simp: Let_def put_drop_restore)

text \<open>
  Every operation of the frontend that fails leaves the connection as it was (also
  \<open>reject_open\<close>, which takes the entry out before it looks at it), and none of them panics,
  whatever the arguments.
\<close>

theorem frontend_ops_atomic:
  "op_atomic c (accept_open c i)
 \<and> op_atomic c (reject_open c i reason desc lang)
 \<and> op_atomic c (send_request c i req want)
 \<and> op_atomic c (send_request_success c i)
 \<and> op_atomic c (send_request_failure c i)
 \<and> op_atomic c (send_data c i d)
 \<and> op_atomic c (send_datagram c i d)
 \<and> op_atomic c (send_extended_data c i code d)
 \<and> op_atomic c (send_eof c i)
 \<and> op_atomic c (send_close c i)
 \<and> op_atomic c (replenish_window c i n)"
proof (intro conjI)
  show "op_atomic c (accept_open c i)"
    unfolding accept_open_def by (auto simp: Let_def intro!: op_atomic_with)
  show "op_atomic c (send_request c i req want)"
    unfolding send_request_def
    by (auto simp: Let_def ensure_sendable_safe intro!: op_atomic_with op_atomic_try)
  show "op_atomic c (send_request_success c i)"
    unfolding send_request_success_def by (auto intro!: op_atomic_with)
  show "op_atomic c (send_request_failure c i)"
    unfolding send_request_failure_def by (auto intro!: op_atomic_with)
  show "op_atomic c (send_eof c i)"
    unfolding send_eof_def by (auto intro!: op_atomic_with)
  show "op_atomic c (send_close c i)"
    unfolding send_close_def by (auto simp: Let_def intro!: op_atomic_with)
  show "op_atomic c (replenish_window c i n)"
    unfolding replenish_window_def by (auto simp: Let_def intro!: op_atomic_with)
qed (rule reject_open_atomic send_data_atomic send_datagram_atomic send_extended_data_atomic)+

section \<open>The cap on channels\<close>

lemma peer_effect_count:
  "peer_effect c c' \<Longrightarrow> channel_count c' \<le> max (channel_count c) (unat (max_channels c))"
  by (induction rule: peer_effect.induct)
    (auto simp: chan_simps max.coboundedI1 channel_count_drop)

lemma peer_effect_limits:
  "peer_effect c c' \<Longrightarrow> max_channels c' = max_channels c
     \<and> default_window c' = default_window c \<and> default_max_packet c' = default_max_packet c"
  by (induction rule: peer_effect.induct) (simp_all add: chan_simps)

text \<open>A sequence of packets of the peer, delivered one after the other.\<close>

fun deliver_all :: "connection_state \<Rightarrow> bytes list \<Rightarrow> connection_state option" where
  "deliver_all c [] = Some c"
| "deliver_all c (p # ps) =
     (case on_packet c p of None \<Rightarrow> None | Some (c', _) \<Rightarrow> deliver_all c' ps)"

text \<open>
  However many packets the peer sends, whatever they contain, the number of channels we
  track never grows beyond \<open>max_channels\<close>, nor beyond what the frontend itself had opened before.
\<close>

theorem peer_cannot_exceed_cap:
  assumes "table_ok c" and "deliver_all c packets = Some c'"
  shows "channel_count c' \<le> max (channel_count c) (unat (max_channels c))"
  using assms
proof (induction packets arbitrary: c)
  case Nil
  then show ?case by simp
next
  case (Cons p ps)
  then obtain c1 r where c1: "on_packet c p = Some (c1, r)" "deliver_all c1 ps = Some c'"
    by (auto split: option.splits)
  then have eff: "peer_effect c c1"
    using on_packet_ok [OF Cons.prems(1)] by (force simp: handler_ok_def)
  then have "channel_count c' \<le> max (channel_count c1) (unat (max_channels c1))"
    using Cons.IH [OF peer_effect_table_ok c1(2)] Cons.prems(1) by blast
  with peer_effect_count [OF eff] peer_effect_limits [OF eff] show ?case by simp
qed

abbreviation junk_packets :: "bytes list" where
  "junk_packets \<equiv> [[82], [], [1, 2, 3]]"

lemma on_packet_empty: "on_packet c [] = Some (c, Err (Format ''short read''))"
  by (simp add: on_packet_def reader_new_def read_u8_def rd_bind_def take_bytes_def
      USIZE_LIMIT_def)

lemma on_packet_first: "small (m # rest) \<Longrightarrow>
    read_u8 (reader_new (m # rest)) = Ok (m, rd_at [m] rest)"
  using read_u8_at [of "[]" m rest] by (simp add: reader_new_rd_at)

lemma deliver_junk: "deliver_all connection_new junk_packets = Some connection_new"
proof -
  have "on_packet connection_new [82] = Some (connection_new, Ok GlobalFailure)"
    by (simp add: on_packet_def on_packet_first small_def USIZE_LIMIT_def msg_defs)
  moreover have "on_packet connection_new [1, 2, 3] =
      Some (connection_new, Err (Protocol ''unexpected message for channel layer''))"
    by (simp add: on_packet_def on_packet_first small_def USIZE_LIMIT_def msg_defs)
  ultimately show ?thesis by (simp add: on_packet_empty)
qed

theorem peer_cannot_exceed_cap_witness:
  "table_ok connection_new \<and> deliver_all connection_new junk_packets = Some connection_new \<and>
   channel_count connection_new \<le> max (channel_count connection_new) (unat (max_channels connection_new))"
  using peer_cannot_exceed_cap [OF connection_new_ok(1) deliver_junk] connection_new_ok deliver_junk
  by blast

section \<open>The life cycle of a channel\<close>

text \<open>The stage of an entry, in the order in which it can move.\<close>

datatype stage = Pending | Established | Closing

definition stage_of :: "channel_state \<Rightarrow> stage" where
  "stage_of ch =
     (if local_closed ch \<or> remote_closed ch then Closing
      else if open_confirmed ch then Established else Pending)"

instantiation stage :: linorder
begin

fun stage_rank :: "stage \<Rightarrow> nat" where
  "stage_rank Pending = 0"
| "stage_rank Established = 1"
| "stage_rank Closing = 2"

definition less_eq_stage :: "stage \<Rightarrow> stage \<Rightarrow> bool" where
  "s \<le> t \<longleftrightarrow> stage_rank s \<le> stage_rank t"

definition less_stage :: "stage \<Rightarrow> stage \<Rightarrow> bool" where
  "s < t \<longleftrightarrow> stage_rank s < stage_rank t"

instance
proof
  fix s t u :: stage
  show "s < t \<longleftrightarrow> s \<le> t \<and> \<not> t \<le> s" by (auto simp: less_stage_def less_eq_stage_def)
  show "s \<le> s" by (simp add: less_eq_stage_def)
  show "s \<le> t \<Longrightarrow> t \<le> u \<Longrightarrow> s \<le> u" by (simp add: less_eq_stage_def)
  show "s \<le> t \<Longrightarrow> t \<le> s \<Longrightarrow> s = t" by (cases s; cases t) (simp_all add: less_eq_stage_def)
  show "s \<le> t \<or> t \<le> s" by (auto simp: less_eq_stage_def)
qed

end

lemma peer_chan_stage: "peer_chan ch ch' \<Longrightarrow> stage_of ch \<le> stage_of ch'"
  by (induction rule: peer_chan.induct) (auto simp: stage_of_def less_eq_stage_def)

lemma local_chan_stage: "local_chan ch ch' \<Longrightarrow> stage_of ch \<le> stage_of ch'"
  by (induction rule: local_chan.induct) (auto simp: stage_of_def less_eq_stage_def note_sent_def)

lemma peer_effect_keeps:
  assumes "peer_effect c c'" "channel c i = Some ch" "channel c' i = Some ch'"
  shows "ch' = ch \<or> peer_chan ch ch'"
  using assms by (induction rule: peer_effect.induct) (auto simp: chan_simps split: if_splits)

lemma local_effect_keeps:
  assumes "local_effect c c'" "channel c i = Some ch" "channel c' i = Some ch'"
  shows "ch' = ch \<or> local_chan ch ch'"
  using assms by (induction rule: local_effect.induct) (auto simp: chan_simps split: if_splits)

lemma exec_op_keeps:
  assumes "table_ok c" "exec_op c oper = Some c'" "channel c i = Some ch" "channel c' i = Some ch'"
  shows "ch' = ch \<or> peer_chan ch ch' \<or> local_chan ch ch'"
proof (cases "is_packet oper")
  case True
  then obtain p where "oper = OpPacket p" by (cases oper) simp_all
  with assms exec_op_peer peer_effect_keeps show ?thesis by blast
next
  case False
  with assms exec_op_local local_effect_keeps show ?thesis by blast
qed

text \<open>
  As long as an entry stays in the table its life cycle only moves forward, from pending
  to established to closing, under every operation and every packet; its local id, its type and
  who opened it never change, and the confirmed, EOF and CLOSE flags of both directions are never
  taken back.
\<close>

theorem life_cycle_monotone:
  assumes "conn_reach c" "exec_op c oper = Some c'"
    "channel c i = Some ch" "channel c' i = Some ch'"
  shows "stage_of ch \<le> stage_of ch'
       \<and> local_id ch' = local_id ch \<and> ch_kind ch' = ch_kind ch
       \<and> initiated_by_us ch' = initiated_by_us ch
       \<and> (open_confirmed ch \<longrightarrow> open_confirmed ch')
       \<and> (local_eof ch \<longrightarrow> local_eof ch') \<and> (remote_eof ch \<longrightarrow> remote_eof ch')
       \<and> (local_closed ch \<longrightarrow> local_closed ch') \<and> (remote_closed ch \<longrightarrow> remote_closed ch')"
proof -
  consider "ch' = ch" | "peer_chan ch ch'" | "local_chan ch ch'"
    using exec_op_keeps [OF conn_reach_table_ok [OF assms(1)] assms(2-4)] by blast
  then show ?thesis
    by cases (simp_all add: peer_chan_stage peer_chan_frame local_chan_stage local_chan_frame)
qed

lemma one_pending_eof: "exec_op one_pending (OpEof 0) =
    Some (put_channel 0 (fresh_channel connection_new 0 0 0 0 (lit ''session'') True\<lparr>local_eof := True\<rparr>)
            one_pending)"
  by (simp add: send_eof_def with_channel_def one_pending_channel) (simp add: fresh_channel_def)

theorem life_cycle_monotone_witness:
  "conn_reach one_pending \<and>
   stage_of (fresh_channel connection_new 0 0 0 0 (lit ''session'') True)
     \<le> stage_of (fresh_channel connection_new 0 0 0 0 (lit ''session'') True\<lparr>local_eof := True\<rparr>)"
  using life_cycle_monotone [OF one_pending_reach one_pending_eof one_pending_channel]
    one_pending_reach
  by (simp add: chan_simps)

end
