(* ===== verification/ChannelWire.thy ===== *)
theory ChannelWire
  imports ChannelSpec
begin

text \<open>
  What the peer's multiplexer makes of the payloads ours produces: for every message, the bytes an
  operation writes and the branch of \<open>on_packet\<close> they lead to. These equations connect two
  endpoints; the properties that span both (handshake, flow control, request round trips) rest on
  them.
\<close>

section \<open>Dispatch\<close>

lemma read_u8_new: "small (m # rest) \<Longrightarrow>
    read_u8 (reader_new (m # rest)) = Ok (m, rd_at [m] rest)"
  using read_u8_at [of "[]" m rest] by (simp add: reader_new_rd_at)

lemma read_tail_at [wire_simps]: "fits pre post \<Longrightarrow>
    rd_bind read_tail f (rd_at pre post) = f post (rd_at (pre @ post) [])"
  by (simp add: rd_bind_def read_tail_def take_bytes_all)

lemma parse_then_Ok: "m r = Ok (x, r') \<Longrightarrow> parse_then c m r f = f x"
  by (simp add: parse_then_def try_res_def)

lemma small_enc: "small b \<longleftrightarrow> length b < 18446744073709551616"
  by (simp add: small_def USIZE_LIMIT_def)

lemma read_u32_last [wire_simps]:
  "fits pre (u32_to_be v) \<Longrightarrow> read_u32 (rd_at pre (u32_to_be v)) = Ok (v, rd_at (pre @ u32_to_be v) [])"
  using read_u32_at [of pre v "[]"] by simp

lemmas dispatch = on_packet_def read_u8_new msg_defs

section \<open>Data, window and close messages\<close>

lemma on_packet_data:
  assumes "fits_u32 d" "small (MSG_CHANNEL_DATA # u32_to_be i @ enc_string d)"
  shows "on_packet c (MSG_CHANNEL_DATA # u32_to_be i @ enc_string d)
       = Some (accept_data c i d ''data after EOF/close'' (Data i d))"
  using assms by (simp add: dispatch on_channel_data_def parse_then_def try_res_def wire_simps)

lemma on_packet_extended:
  assumes "fits_u32 d" "small (MSG_CHANNEL_EXTENDED_DATA # u32_to_be i @ u32_to_be code @ enc_string d)"
  shows "on_packet c (MSG_CHANNEL_EXTENDED_DATA # u32_to_be i @ u32_to_be code @ enc_string d)
       = Some (accept_data c i d ''extended data after EOF/close'' (ExtendedData i code d))"
  using assms by (simp add: dispatch on_extended_data_def parse_then_def try_res_def wire_simps)

lemma on_packet_adjust:
  "on_packet c (MSG_CHANNEL_WINDOW_ADJUST # u32_to_be i @ u32_to_be n) =
   Some (with_channel c i (\<lambda>ch.
     (put_channel i (ch\<lparr>remote_window := sat_add (remote_window ch) n\<rparr>) c, Ok (WindowAdjust i n))))"
  by (simp add: dispatch on_window_adjust_def parse_then_def try_res_def wire_simps small_enc)

lemma on_packet_eof:
  "on_packet c (MSG_CHANNEL_EOF # u32_to_be i) =
   Some (with_channel c i (\<lambda>ch.
     if \<not> open_confirmed ch then (c, Err (Protocol ''channel not yet open''))
     else (put_channel i (ch\<lparr>remote_eof := True\<rparr>) c, Ok (Eof i))))"
  by (simp add: dispatch on_channel_eof_def parse_then_def try_res_def wire_simps small_enc)

lemma on_packet_close:
  "on_packet c (MSG_CHANNEL_CLOSE # u32_to_be i) =
   Some (with_channel c i (\<lambda>ch.
     if \<not> open_confirmed ch then (c, Err (Protocol ''channel not yet open''))
     else if local_closed ch then (drop_channel i c, Ok (Close i))
     else (put_channel i (ch\<lparr>remote_closed := True\<rparr>) c, Ok (Close i))))"
  by (simp add: dispatch on_channel_close_def parse_then_def try_res_def wire_simps small_enc
      with_channel_def is_fully_closed_def drop_put Let_def split: option.split)

section \<open>Opening\<close>

text \<open>The four messages of the opening handshake as bytes.\<close>

definition open_bytes :: "channel_open \<Rightarrow> u32 \<Rightarrow> u32 \<Rightarrow> u32 \<Rightarrow> bytes" where
  "open_bytes k cid win mx = MSG_CHANNEL_OPEN # enc_string (channel_open_kind k) @ u32_to_be cid
     @ u32_to_be win @ u32_to_be mx @ w_buf (encode_tail k writer_new)"

definition confirm_bytes :: "u32 \<Rightarrow> u32 \<Rightarrow> u32 \<Rightarrow> u32 \<Rightarrow> bytes" where
  "confirm_bytes rid cid win mx = MSG_CHANNEL_OPEN_CONFIRMATION # u32_to_be rid @ u32_to_be cid
     @ u32_to_be win @ u32_to_be mx"

definition failure_bytes :: "u32 \<Rightarrow> u32 \<Rightarrow> rust_str \<Rightarrow> rust_str \<Rightarrow> bytes" where
  "failure_bytes rid reason desc lang = MSG_CHANNEL_OPEN_FAILURE # u32_to_be rid @ u32_to_be reason
     @ enc_string desc @ enc_string lang"

lemma open_channel_bytes:
  assumes "allocate_local_id c = Some (i, c1)"
  shows "open_channel c k =
    Some (put_channel i (fresh_channel c i 0 0 0 (channel_open_kind k) True) (c\<lparr>next_local_id := i + 1\<rparr>),
          Ok (i, open_bytes k i (default_window c) (default_max_packet c)))"
proof -
  have "c1 = c\<lparr>next_local_id := i + 1\<rparr>" using allocate_spec [OF assms] by simp
  with assms show ?thesis
    by (simp add: open_channel_def open_bytes_def into_vec_def Let_def wire_simps
        openb.benc_appends [of k "write_u32 _ _"])
qed

lemma on_packet_open:
  assumes "channel_open_wf k" "small (open_bytes k rid win mx)"
    "channel_count c < unat (max_channels c)" "allocate_local_id c = Some (i, c1)"
  shows "on_packet c (open_bytes k rid win mx) =
    Some (put_channel i (fresh_channel c i rid win mx (channel_open_kind k) False)
            (c\<lparr>next_local_id := i + 1\<rparr>), Ok (OpenRequest i k))"
proof -
  let ?b = "w_buf (encode_tail k writer_new)"
  have "c1 = c\<lparr>next_local_id := i + 1\<rparr>" using allocate_spec [OF assms(4)] by simp
  moreover have "text_ok (channel_open_kind k)" using assms(1) by (rule openb.bname_ok)
  moreover have "channel_open_decode (channel_open_kind k) ?b = Ok k"
    using assms(1,2) by (intro openb.bdec_benc) (simp_all add: open_bytes_def small_enc)
  ultimately show ?thesis
    using assms(2-4)
    by (simp add: open_bytes_def dispatch on_channel_open_def wire_simps channel_count_def)
qed

lemma on_packet_open_full:
  assumes "channel_open_wf k" "small (open_bytes k rid win mx)"
    "unat (max_channels c) \<le> channel_count c"
  shows "on_packet c (open_bytes k rid win mx) =
    Some (c, Ok (OpenRejected (open_rejected_payload rid) SSH_OPEN_RESOURCE_SHORTAGE))"
proof -
  let ?b = "w_buf (encode_tail k writer_new)"
  have "text_ok (channel_open_kind k)" using assms(1) by (rule openb.bname_ok)
  moreover have "channel_open_decode (channel_open_kind k) ?b = Ok k"
    using assms(1,2) by (intro openb.bdec_benc) (simp_all add: open_bytes_def small_enc)
  ultimately show ?thesis
    using assms(2,3)
    by (simp add: open_bytes_def dispatch on_channel_open_def wire_simps channel_count_def)
qed

lemma on_packet_confirm:
  "on_packet c (confirm_bytes i rid win mx) =
   Some (case channel c i of
           None \<Rightarrow> (c, Err (Protocol ''open-confirm for unknown channel''))
         | Some ch \<Rightarrow>
             if open_confirmed ch then (c, Err (Protocol ''double open-confirm''))
             else if \<not> initiated_by_us ch
             then (c, Err (Protocol ''open-confirm for channel not initiated by us''))
             else (put_channel i (ch\<lparr>remote_id := rid, remote_window := win,
                     remote_max_packet := mx, open_confirmed := True\<rparr>) c, Ok (OpenConfirmed i)))"
  by (simp add: confirm_bytes_def dispatch on_open_confirmation_def parse_then_def try_res_def
      wire_simps small_enc)

lemma on_packet_failure:
  assumes "text_ok desc" "fits_u32 lang" "small (failure_bytes i reason desc lang)"
  shows "on_packet c (failure_bytes i reason desc lang) =
   Some (case channel c i of
           None \<Rightarrow> (c, Err (Protocol ''open-failure for unknown channel''))
         | Some ch \<Rightarrow>
             if \<not> initiated_by_us ch \<or> open_confirmed ch
             then (c, Err (Protocol ''open-failure for channel not pending our open''))
             else (drop_channel i c, Ok (OpenFailed i reason desc)))"
  using assms
  by (simp add: failure_bytes_def dispatch on_open_failure_def parse_then_def try_res_def
      wire_simps)

section \<open>Requests\<close>

definition request_bytes :: "u32 \<Rightarrow> channel_request \<Rightarrow> bool \<Rightarrow> bytes" where
  "request_bytes rid req want = MSG_CHANNEL_REQUEST # u32_to_be rid
     @ enc_string (channel_request_name req) @ (if want then 1 else 0)
     # w_buf (channel_request_encode req writer_new)"

lemma on_packet_request:
  assumes "channel_request_wf req" "small (request_bytes i req want)"
  shows "on_packet c (request_bytes i req want) =
    Some (with_channel c i (\<lambda>ch.
      if \<not> open_confirmed ch then (c, Err (Protocol ''channel not yet open''))
      else (c, Ok (Request i req want))))"
proof -
  have "text_ok (channel_request_name req)" using assms(1) by (rule reqb.bname_ok)
  moreover have "channel_request_decode (channel_request_name req)
      (w_buf (channel_request_encode req writer_new)) = Ok req"
    using assms by (intro reqb.bdec_benc) (simp_all add: request_bytes_def small_enc)
  ultimately show ?thesis
    using assms(2)
    by (simp add: request_bytes_def dispatch on_channel_request_def parse_then_def try_res_def
        wire_simps)
qed

definition global_bytes :: "global_request \<Rightarrow> bool \<Rightarrow> bytes" where
  "global_bytes req want = MSG_GLOBAL_REQUEST # enc_string (global_request_name req)
     @ (if want then 1 else 0) # w_buf (global_request_encode req writer_new)"

lemma on_packet_global:
  assumes "global_request_wf req" "small (global_bytes req want)"
  shows "on_packet c (global_bytes req want) = Some (c, Ok (GlobalRequest req want))"
proof -
  have "text_ok (global_request_name req)" using assms(1) by (rule globb.bname_ok)
  moreover have "global_request_decode (global_request_name req)
      (w_buf (global_request_encode req writer_new)) = Ok req"
    using assms by (intro globb.bdec_benc) (simp_all add: global_bytes_def small_enc)
  ultimately show ?thesis
    using assms(2)
    by (simp add: global_bytes_def dispatch on_global_request_def parse_then_def try_res_def
        wire_simps)
qed

end
