(* ===== verification/ChannelPeer.thy ===== *)
theory ChannelPeer
  imports ChannelWire
begin

text \<open>
  What the packets of one endpoint do at the other: what a peer cannot do to a channel it asked
  for, when data is delivered, the opening handshake and its two ways of failing, the round trips
  of requests, and the closing handshake.
\<close>

section \<open>What the peer cannot do\<close>

text \<open>
  A channel the peer asked for stays under our control until we answer: no packet of the
  peer confirms it, removes it, marks it closed or at EOF, or takes anything from its window. Only
  its send credit can grow.
\<close>

theorem peer_cannot_confirm_own_request:
  assumes "table_ok c" "on_packet c payload = Some (c', r)"
    "channel c i = Some ch" "\<not> initiated_by_us ch" "\<not> open_confirmed ch"
  shows "\<exists>n. channel c' i = Some (ch\<lparr>remote_window := n\<rparr>)"
proof -
  have eff: "peer_effect c c'" using on_packet_ok [OF assms(1,2)] by (simp add: handler_ok_def)
  from eff assms(3-5) show ?thesis
  proof (induction rule: peer_effect.induct)
    case (peer_changed c j ch0 ch1)
    show ?case
    proof (cases "i = j")
      case True
      with peer_changed have "peer_chan ch ch1" by simp
      then have "\<exists>n. ch1 = ch\<lparr>remote_window := n\<rparr>"
        using peer_changed.prems by cases auto
      with True show ?thesis by (auto simp: chan_simps)
    next
      case False
      with peer_changed show ?thesis
        by (auto simp: chan_simps intro!: exI [of _ "remote_window ch"])
    qed
  qed (auto simp: chan_simps intro!: exI [of _ "remote_window ch"])
qed

lemma connection_new_alloc:
  "allocate_local_id connection_new = Some (0, connection_new\<lparr>next_local_id := 1\<rparr>)"
  by (subst allocate_local_id.simps) (simp add: connection_new_def channel_def)

lemma connection_new_room: "channel_count connection_new < unat (max_channels connection_new)"
  by (simp add: channel_count_def connection_new_def Mapping.size_def
      DEFAULT_MAX_CHANNELS_PER_CONNECTION_def)

text \<open>A connection in which the peer has asked for a session channel.\<close>

abbreviation requested_entry :: channel_state where
  "requested_entry \<equiv> fresh_channel connection_new 0 7 1000 900 (lit ''session'') False"

abbreviation peer_asked :: connection_state where
  "peer_asked \<equiv> put_channel 0 requested_entry (connection_new\<lparr>next_local_id := 1\<rparr>)"

lemma session_open_small: "small (open_bytes Session a b c)"
  by (simp add: open_bytes_def small_enc wire_simps)

lemma peer_asks:
  "on_packet connection_new (open_bytes Session 7 1000 900) = Some (peer_asked, Ok (OpenRequest 0 Session))"
  using on_packet_open [OF _ session_open_small connection_new_room connection_new_alloc] by simp

lemma connection_new_table_ok: "table_ok connection_new"
  by (simp add: table_ok_empty connection_new_def)

lemma peer_asked_ok: "table_ok peer_asked"
  using on_packet_ok [OF connection_new_table_ok peer_asks] peer_effect_table_ok
    connection_new_table_ok by (fastforce simp: handler_ok_def)

lemma peer_asked_channel: "channel peer_asked 0 = Some requested_entry"
  by (simp add: chan_simps)

theorem peer_cannot_confirm_own_request_witness:
  "table_ok peer_asked \<and> \<not> open_confirmed requested_entry \<and>
   on_packet peer_asked (confirm_bytes 0 7 5 5) =
     Some (peer_asked, Err (Protocol ''open-confirm for channel not initiated by us'')) \<and>
   (\<exists>n. channel peer_asked 0 = Some (requested_entry\<lparr>remote_window := n\<rparr>))"
proof -
  have p: "on_packet peer_asked (confirm_bytes 0 7 5 5) =
     Some (peer_asked, Err (Protocol ''open-confirm for channel not initiated by us''))"
    by (simp only: on_packet_confirm peer_asked_channel) (simp add: fresh_channel_def)
  have f: "\<not> initiated_by_us requested_entry" "\<not> open_confirmed requested_entry"
    by (simp_all add: fresh_channel_def)
  from peer_cannot_confirm_own_request [OF peer_asked_ok p peer_asked_channel f] p f peer_asked_ok
  show ?thesis by blast
qed

section \<open>When data is delivered\<close>

lemmas handler_defs = on_global_request_def on_open_confirmation_def on_open_failure_def
  on_window_adjust_def on_channel_data_def on_extended_data_def on_channel_eof_def
  on_channel_close_def on_channel_request_def on_channel_success_def on_channel_failure_def

lemma accept_data_event: "accept_data c i d late ev = (c', Ok ev') \<Longrightarrow> ev' = ev"
  by (auto simp: accept_data_def with_channel_def Let_def split: option.splits if_splits)

lemma on_channel_open_event:
  "on_channel_open c r = Some (c', Ok ev) \<Longrightarrow>
   (\<exists>i k. ev = OpenRequest i k) \<or> (\<exists>p n. ev = OpenRejected p n)"
  by (auto simp: on_channel_open_def split: res.splits option.splits if_splits prod.splits)

fun is_data :: "channel_event \<Rightarrow> bool" where
  "is_data (Data _ _) = True"
| "is_data (ExtendedData _ _ _) = True"
| "is_data _ = False"

lemma handler_not_data:
  assumes "is_data ev"
  shows "on_global_request c r \<noteq> (c', Ok ev)"
    "on_open_confirmation c r \<noteq> (c', Ok ev)"
    "on_open_failure c r \<noteq> (c', Ok ev)"
    "on_window_adjust c r \<noteq> (c', Ok ev)"
    "on_channel_eof c r \<noteq> (c', Ok ev)"
    "on_channel_close c r \<noteq> (c', Ok ev)"
    "on_channel_request c r \<noteq> (c', Ok ev)"
    "on_channel_success c r \<noteq> (c', Ok ev)"
    "on_channel_failure c r \<noteq> (c', Ok ev)"
  using assms unfolding handler_defs
  by (auto simp: Let_def elim!: op_cases split: prod.splits option.splits if_splits)

lemma global_success_not_data:
  "is_data ev \<Longrightarrow> parse_then c read_tail r (\<lambda>data. (c, Ok (GlobalSuccess data))) \<noteq> (c', Ok ev)"
  by (auto elim!: op_cases)

lemma read_string_length: "read_string r = Ok (d, r') \<Longrightarrow> length d < 2 ^ 32"
  using unat_less_p2 [where 'a = 32]
  by (auto simp: read_string_def rd_bind_eq_Ok dest!: take_bytes_length)

lemma on_channel_data_inv:
  assumes "on_channel_data c r = (c', Ok ev)"
  obtains i d where "ev = Data i d" "length d < 2 ^ 32"
    "accept_data c i d ''data after EOF/close'' (Data i d) = (c', Ok (Data i d))"
  using assms unfolding on_channel_data_def
proof (elim parse_then_cases, goal_cases)
  case (1 x r')
  obtain i d where x: "x = (i, d)" by (cases x)
  from 1(2) have "length d < 2 ^ 32" by (auto simp: x rd_bind_eq_Ok dest: read_string_length)
  moreover from 1(3) have "accept_data c i d ''data after EOF/close'' (Data i d) = (c', Ok ev)"
    by (simp add: x)
  ultimately show ?case using 1(1) accept_data_event by blast
qed simp_all

lemma on_extended_data_inv:
  assumes "on_extended_data c r = (c', Ok ev)"
  obtains i code d where "ev = ExtendedData i code d" "length d < 2 ^ 32"
    "accept_data c i d ''extended data after EOF/close'' (ExtendedData i code d)
       = (c', Ok (ExtendedData i code d))"
  using assms unfolding on_extended_data_def
proof (elim parse_then_cases, goal_cases)
  case (1 x r')
  obtain i code d where x: "x = (i, code, d)" by (cases x)
  from 1(2) have "length d < 2 ^ 32" by (auto simp: x rd_bind_eq_Ok dest: read_string_length)
  moreover from 1(3) have
    "accept_data c i d ''extended data after EOF/close'' (ExtendedData i code d) = (c', Ok ev)"
    by (simp add: x)
  ultimately show ?case using 1(1) accept_data_event by blast
qed simp_all

lemma on_packet_data_inv:
  assumes "on_packet c p = Some (c', Ok ev)" "is_data ev"
  shows "\<exists>i d late. length d < 2 ^ 32 \<and> accept_data c i d late ev = (c', Ok ev)
       \<and> (ev = Data i d \<or> (\<exists>code. ev = ExtendedData i code d))"
proof -
  have "\<exists>r. on_channel_data c r = (c', Ok ev) \<or> on_extended_data c r = (c', Ok ev)"
    using assms
    by (auto simp: on_packet_def handler_not_data global_success_not_data
        dest!: on_channel_open_event split: res.splits if_splits)
  then show ?thesis
    by (metis on_channel_data_inv on_extended_data_inv)
qed

lemma accept_data_Ok:
  assumes "accept_data c i d late ev = (c', Ok ev')" "length d < 2 ^ 32"
  obtains ch where "channel c i = Some ch" "open_confirmed ch" "\<not> remote_eof ch"
    "\<not> remote_closed ch" "length d \<le> unat (local_window ch)"
    "length d \<le> unat (local_max_packet ch)"
    "c' = put_channel i (ch\<lparr>local_window := local_window ch - of_nat (length d),
                            activity := activity ch + ucast (of_nat (length d) :: u32)\<rparr>) c"
  using assms
  by (auto simp: accept_data_def with_channel_def Let_def not_less word_le_nat_alt unat_of_nat_u32
      split: option.splits if_splits)

text \<open>
  Data reaches the frontend only on a channel that is confirmed and on which the peer has
  sent neither EOF nor CLOSE, and only within the window and the packet size we advertised; the
  window shrinks by exactly the number of bytes delivered and no other channel is touched.
\<close>

theorem data_delivered_within_limits:
  assumes "on_packet c p = Some (c', Ok ev)"
    and "ev = Data i d \<or> (\<exists>code. ev = ExtendedData i code d)"
  shows "\<exists>ch ch'. channel c i = Some ch \<and> channel c' i = Some ch'
       \<and> open_confirmed ch \<and> \<not> remote_eof ch \<and> \<not> remote_closed ch
       \<and> length d \<le> unat (local_max_packet ch)
       \<and> unat (local_window ch) = unat (local_window ch') + length d
       \<and> (\<forall>j. j \<noteq> i \<longrightarrow> channel c' j = channel c j)"
proof -
  have "is_data ev" using assms(2) by auto
  then obtain late where len: "length d < 2 ^ 32" and acc: "accept_data c i d late ev = (c', Ok ev)"
    using on_packet_data_inv [OF assms(1)] assms(2) by auto
  obtain ch where ch: "channel c i = Some ch" "open_confirmed ch" "\<not> remote_eof ch"
    "\<not> remote_closed ch" "length d \<le> unat (local_window ch)"
    "length d \<le> unat (local_max_packet ch)"
    "c' = put_channel i (ch\<lparr>local_window := local_window ch - of_nat (length d),
            activity := activity ch + ucast (of_nat (length d) :: u32)\<rparr>) c"
    using accept_data_Ok [OF acc len] .
  have "unat (local_window ch - of_nat (length d)) = unat (local_window ch) - length d"
    using ch(5) len by (subst unat_sub) (simp_all add: word_le_nat_alt unat_of_nat_u32)
  with ch show ?thesis by (auto simp: chan_simps)
qed

text \<open>A connection with one established channel, to run the properties on.\<close>

abbreviation served_entry :: channel_state where
  "served_entry \<equiv> requested_entry\<lparr>open_confirmed := True\<rparr>"

abbreviation served :: connection_state where
  "served \<equiv> put_channel 0 served_entry peer_asked"

lemma served_channel: "channel served 0 = Some served_entry"
  by (simp add: chan_simps)

lemma accept_peer_asked: "accept_open peer_asked 0 = (served, Ok (confirm_bytes 7 0 DEFAULT_WINDOW DEFAULT_MAX_PACKET))"
  unfolding accept_open_def with_channel_def peer_asked_channel
  by (simp add: Let_def into_vec_def wire_simps confirm_bytes_def)
    (simp add: fresh_channel_def connection_new_def)

lemma served_data: "\<exists>c'. on_packet served (MSG_CHANNEL_DATA # u32_to_be 0 @ enc_string [1, 2, 3]) =
    Some (c', Ok (Data 0 [1, 2, 3]))"
proof -
  have "small (MSG_CHANNEL_DATA # u32_to_be 0 @ enc_string [1, 2, 3])" "fits_u32 [1, 2, 3]"
    by (simp_all add: small_enc fits_u32_def)
  then have "on_packet served (MSG_CHANNEL_DATA # u32_to_be 0 @ enc_string [1, 2, 3]) =
      Some (accept_data served 0 [1, 2, 3] ''data after EOF/close'' (Data 0 [1, 2, 3]))"
    by (simp add: on_packet_data)
  then show ?thesis
    unfolding accept_data_def with_channel_def served_channel
    by (simp add: Let_def) (simp add: fresh_channel_def connection_new_def DEFAULT_WINDOW_def
        DEFAULT_MAX_PACKET_def)
qed

theorem data_delivered_within_limits_witness:
  "\<exists>c'. on_packet served (MSG_CHANNEL_DATA # u32_to_be 0 @ enc_string [1, 2, 3]) =
     Some (c', Ok (Data 0 [1, 2, 3]))
   \<and> (\<exists>ch ch'. channel served 0 = Some ch \<and> channel c' 0 = Some ch' \<and> open_confirmed ch
        \<and> unat (local_window ch) = unat (local_window ch') + 3)"
proof -
  obtain c' where c': "on_packet served (MSG_CHANNEL_DATA # u32_to_be 0 @ enc_string [1, 2, 3]) =
      Some (c', Ok (Data 0 [1, 2, 3]))" using served_data by blast
  from data_delivered_within_limits [OF c', of 0 "[1, 2, 3]"] c' show ?thesis by auto
qed

section \<open>The opening handshake\<close>

text \<open>Two entries that are the two ends of one established channel.\<close>

definition mirrored :: "channel_state \<Rightarrow> channel_state \<Rightarrow> bool" where
  "mirrored a b \<longleftrightarrow> open_confirmed a \<and> open_confirmed b
   \<and> remote_id a = local_id b \<and> remote_id b = local_id a
   \<and> remote_window a = local_window b \<and> remote_window b = local_window a
   \<and> remote_max_packet a = local_max_packet b \<and> remote_max_packet b = local_max_packet a
   \<and> ch_kind a = ch_kind b \<and> initiated_by_us a \<and> \<not> initiated_by_us b
   \<and> is_open a \<and> is_open b \<and> \<not> local_eof a \<and> \<not> local_eof b \<and> \<not> remote_eof a \<and> \<not> remote_eof b
   \<and> pending_replenish a = 0 \<and> pending_replenish b = 0
   \<and> initial_local_window a = local_window a \<and> initial_local_window b = local_window b"

lemma open_channel_inv:
  assumes "open_channel c k = Some (c1, Ok (i, p))"
  shows "channel c i = None
    \<and> c1 = put_channel i (fresh_channel c i 0 0 0 (channel_open_kind k) True) (c\<lparr>next_local_id := i + 1\<rparr>)
    \<and> p = open_bytes k i (default_window c) (default_max_packet c)"
proof -
  obtain i' c' where "allocate_local_id c = Some (i', c')"
    using assms by (auto simp: open_channel_def split: option.splits)
  with open_channel_bytes [OF this, of k] allocate_spec [OF this] assms show ?thesis by auto
qed

lemma room_alloc:
  assumes "channel_count c < unat (max_channels c)"
  obtains j c1 where "allocate_local_id c = Some (j, c1)"
proof -
  have "channel_count c < 2 ^ 32" using assms unat_less_p2 [of "max_channels c"] by simp
  then show ?thesis using free_id_exists allocate_returns that by blast
qed

lemma accept_open_fresh:
  assumes "channel c j = Some ch" "\<not> open_confirmed ch"
  shows "accept_open c j = (put_channel j (ch\<lparr>open_confirmed := True\<rparr>) c,
    Ok (confirm_bytes (remote_id ch) j (local_window ch) (local_max_packet ch)))"
  using assms
  by (simp add: accept_open_def with_channel_def Let_def into_vec_def wire_simps confirm_bytes_def)

text \<open>
  When the peer has room, an open request, its acceptance and the confirmation run
  through without an error, and leave the two ends of one channel: each knows the other's id,
  either side's send credit is the other side's receive window, either side's packet limit is the
  one the other advertised, and both are open.
\<close>

theorem open_handshake:
  assumes "open_channel A k = Some (A1, Ok (i, p1))" "channel_open_wf k" "small p1"
    "channel_count B < unat (max_channels B)"
  shows "\<exists>B1 j B2 p2 A2 a b.
      on_packet B p1 = Some (B1, Ok (OpenRequest j k)) \<and> accept_open B1 j = (B2, Ok p2)
    \<and> on_packet A1 p2 = Some (A2, Ok (OpenConfirmed i))
    \<and> channel A2 i = Some a \<and> channel B2 j = Some b \<and> mirrored a b"
proof -
  obtain j c1 where j: "allocate_local_id B = Some (j, c1)" by (rule room_alloc [OF assms(4)])
  let ?a = "fresh_channel A i 0 0 0 (channel_open_kind k) True"
  let ?b = "fresh_channel B j i (default_window A) (default_max_packet A) (channel_open_kind k) False"
  let ?B1 = "put_channel j ?b (B\<lparr>next_local_id := j + 1\<rparr>)"
  note inv = open_channel_inv [OF assms(1)]
  have p: "on_packet B p1 = Some (?B1, Ok (OpenRequest j k))"
    using on_packet_open [OF assms(2) _ assms(4) j] assms(3) inv by auto
  have nb: "\<not> open_confirmed ?b" and na: "\<not> open_confirmed ?a" "initiated_by_us ?a"
    by (simp_all add: fresh_channel_def)
  have "channel ?B1 j = Some ?b" by (simp add: chan_simps)
  note acc = accept_open_fresh [OF this nb]
  have "channel A1 i = Some ?a" using inv by (simp add: chan_simps)
  with na have "on_packet A1 (confirm_bytes i j (local_window ?b) (local_max_packet ?b)) =
      Some (put_channel i (?a\<lparr>remote_id := j, remote_window := local_window ?b,
              remote_max_packet := local_max_packet ?b, open_confirmed := True\<rparr>) A1,
            Ok (OpenConfirmed i))"
    by (simp add: on_packet_confirm)
  moreover have "remote_id ?b = i" by (simp add: fresh_channel_def)
  ultimately show ?thesis
    using p acc by (auto simp: chan_simps mirrored_def is_open_def fresh_channel_def)
qed

theorem open_handshake_witness:
  "\<exists>A1 p1. open_channel connection_new Session = Some (A1, Ok (0, p1)) \<and> small p1 \<and>
     channel_count connection_new < unat (max_channels connection_new) \<and>
     (\<exists>B1 j B2 p2 A2 a b.
        on_packet connection_new p1 = Some (B1, Ok (OpenRequest j Session))
      \<and> accept_open B1 j = (B2, Ok p2) \<and> on_packet A1 p2 = Some (A2, Ok (OpenConfirmed 0))
      \<and> channel A2 0 = Some a \<and> channel B2 j = Some b \<and> mirrored a b)"
  using open_handshake [OF open_channel_bytes [OF connection_new_alloc] _ session_open_small
      connection_new_room] open_channel_bytes [OF connection_new_alloc, of Session]
    session_open_small connection_new_room by auto

lemma reject_open_bytes:
  assumes "channel c j = Some ch" "\<not> open_confirmed ch"
  shows "reject_open c j reason desc lang =
    (drop_channel j c, Ok (failure_bytes (remote_id ch) reason desc lang))"
  using assms
  by (simp add: reject_open_def with_channel_def Let_def into_vec_def wire_simps failure_bytes_def)

lemma open_rejected_bytes:
  "open_rejected_payload rid =
   failure_bytes rid SSH_OPEN_RESOURCE_SHORTAGE (lit ''channel limit reached'') []"
  by (simp add: open_rejected_payload_def failure_bytes_def into_vec_def wire_simps)

lemma open_failure_removes:
  assumes "open_channel A k = Some (A1, Ok (i, p1))" "text_ok desc" "fits_u32 lang"
    "small (failure_bytes i reason desc lang)"
  shows "\<exists>A2. on_packet A1 (failure_bytes i reason desc lang) = Some (A2, Ok (OpenFailed i reason desc))
    \<and> (\<forall>x. channel A2 x = channel A x)"
proof -
  note inv = open_channel_inv [OF assms(1)]
  have "channel A1 i = Some (fresh_channel A i 0 0 0 (channel_open_kind k) True)"
    using inv by (simp add: chan_simps)
  then have "on_packet A1 (failure_bytes i reason desc lang)
      = Some (drop_channel i A1, Ok (OpenFailed i reason desc))"
    using on_packet_failure [OF assms(2-4)] by (simp add: fresh_channel_def)
  then show ?thesis using inv by (auto simp: chan_simps)
qed

text \<open>
  An open request that the peer's frontend rejects, or that its multiplexer refuses
  because the channel limit is reached, comes back to the opener as \<open>OpenFailed\<close> with that reason
  (\<open>SSH_OPEN_RESOURCE_SHORTAGE\<close> at the limit); afterwards neither side tracks anything for it:
  both tables are what they were before the request.
\<close>

theorem open_refused:
  assumes "open_channel A k = Some (A1, Ok (i, p1))" "channel_open_wf k" "small p1"
    "text_ok desc" "fits_u32 lang"
  shows "if channel_count B < unat (max_channels B)
    then \<exists>B1 j B2 p2 A2. on_packet B p1 = Some (B1, Ok (OpenRequest j k))
       \<and> reject_open B1 j reason desc lang = (B2, Ok p2)
       \<and> on_packet A1 p2 = Some (A2, Ok (OpenFailed i reason desc))
       \<and> (\<forall>x. channel A2 x = channel A x) \<and> (\<forall>x. channel B2 x = channel B x)
    else \<exists>p2 A2. on_packet B p1 = Some (B, Ok (OpenRejected p2 SSH_OPEN_RESOURCE_SHORTAGE))
       \<and> on_packet A1 p2 = Some (A2, Ok (OpenFailed i SSH_OPEN_RESOURCE_SHORTAGE (lit ''channel limit reached'')))
       \<and> (\<forall>x. channel A2 x = channel A x)"
proof (cases "channel_count B < unat (max_channels B)")
  case True
  obtain j c1 where j: "allocate_local_id B = Some (j, c1)" by (rule room_alloc [OF True])
  let ?b = "fresh_channel B j i (default_window A) (default_max_packet A) (channel_open_kind k) False"
  let ?B1 = "put_channel j ?b (B\<lparr>next_local_id := j + 1\<rparr>)"
  have p: "on_packet B p1 = Some (?B1, Ok (OpenRequest j k))"
    using on_packet_open [OF assms(2) _ True j] assms(3) open_channel_inv [OF assms(1)] by auto
  have "channel ?B1 j = Some ?b" "\<not> open_confirmed ?b" "remote_id ?b = i"
    by (simp_all add: chan_simps fresh_channel_def)
  then have rej: "reject_open ?B1 j reason desc lang =
      (drop_channel j ?B1, Ok (failure_bytes i reason desc lang))"
    using reject_open_bytes by metis
  have "small (failure_bytes i reason desc lang)"
    using assms(4,5) by (simp add: failure_bytes_def small_enc text_ok_def fits_u32_def)
  from open_failure_removes [OF assms(1,4,5) this] p rej show ?thesis
    using allocate_spec [OF j] True by (auto simp: chan_simps)
next
  case False
  have "small (failure_bytes i SSH_OPEN_RESOURCE_SHORTAGE (lit ''channel limit reached'') [])"
    by (simp add: failure_bytes_def small_enc)
  moreover have "text_ok (lit ''channel limit reached'')" by (rule text_ok_lit) simp_all
  ultimately have "\<exists>A2. on_packet A1 (open_rejected_payload i) =
      Some (A2, Ok (OpenFailed i SSH_OPEN_RESOURCE_SHORTAGE (lit ''channel limit reached'')))
      \<and> (\<forall>x. channel A2 x = channel A x)"
    unfolding open_rejected_bytes by (intro open_failure_removes [OF assms(1)]) simp_all
  moreover have "on_packet B p1 =
      Some (B, Ok (OpenRejected (open_rejected_payload i) SSH_OPEN_RESOURCE_SHORTAGE))"
    using on_packet_open_full [OF assms(2)] assms(3) open_channel_inv [OF assms(1)] False by auto
  ultimately show ?thesis using False by auto
qed

abbreviation no_room :: connection_state where
  "no_room \<equiv> connection_new\<lparr>max_channels := 0\<rparr>"

theorem open_refused_witness:
  "\<exists>A1 p1. open_channel connection_new Session = Some (A1, Ok (0, p1)) \<and> small p1 \<and>
     (\<exists>p2 A2. on_packet no_room p1 = Some (no_room, Ok (OpenRejected p2 SSH_OPEN_RESOURCE_SHORTAGE))
      \<and> on_packet A1 p2 = Some (A2, Ok (OpenFailed 0 SSH_OPEN_RESOURCE_SHORTAGE (lit ''channel limit reached'')))
      \<and> (\<forall>x. channel A2 x = channel connection_new x))"
proof -
  have t: "text_ok []" by (simp add: text_ok_def)
  show ?thesis
    using open_refused [OF open_channel_bytes [OF connection_new_alloc, of Session] _ session_open_small
        t fits_u32_Nil, where B = no_room] open_channel_bytes [OF connection_new_alloc, of Session] session_open_small
    by auto
qed

section \<open>Requests reach the peer as they were sent\<close>

lemma send_request_bytes:
  assumes "channel A i = Some a" "\<not> local_closed a" "\<not> remote_closed a"
  shows "send_request A i req want = (A, Ok (request_bytes (remote_id a) req want))"
  using assms
  by (simp add: send_request_def with_channel_def try_res_def ensure_sendable_def Let_def
      into_vec_def wire_simps request_bytes_def reqb.benc_appends [of req "write_bool _ _"])

lemma send_global_bytes: "send_global_request req want = global_bytes req want"
  by (simp add: send_global_request_def global_bytes_def into_vec_def wire_simps
      globb.benc_appends [of req "write_bool _ _"])

text \<open>
  A channel request sent on an open channel reaches the peer as the same request, with
  the same reply flag and on the peer's own end of the channel; neither connection changes.
\<close>

theorem request_reaches_peer:
  assumes "channel A i = Some a" "\<not> local_closed a" "\<not> remote_closed a"
    "channel B (remote_id a) = Some b" "open_confirmed b"
    "channel_request_wf req" "send_request A i req want = (A', Ok p)" "small p"
  shows "A' = A \<and> on_packet B p = Some (B, Ok (Request (remote_id a) req want))"
proof -
  have "A' = A" "p = request_bytes (remote_id a) req want"
    using assms(7) send_request_bytes [OF assms(1-3)] by auto
  with assms(4-6,8) on_packet_request show ?thesis by (simp add: with_channel_def)
qed

abbreviation client_entry :: channel_state where
  "client_entry \<equiv> (fresh_channel connection_new 7 0 DEFAULT_WINDOW DEFAULT_MAX_PACKET
     (lit ''session'') True)
     \<lparr>open_confirmed := True\<rparr>"

abbreviation client :: connection_state where
  "client \<equiv> put_channel 7 client_entry connection_new"

lemma client_channel: "channel client 7 = Some client_entry"
  by (simp add: chan_simps)

lemma client_facts: "\<not> local_closed client_entry" "\<not> remote_closed client_entry"
  "remote_id client_entry = 0" "open_confirmed client_entry"
  and served_facts: "open_confirmed served_entry" "\<not> local_closed served_entry"
  "\<not> remote_closed served_entry" "remote_id served_entry = 7"
  by (simp_all add: fresh_channel_def)

theorem request_reaches_peer_witness:
  "\<exists>p. send_request client 7 (Exec (lit ''ls'')) True = (client, Ok p) \<and>
     on_packet served p = Some (served, Ok (Request 0 (Exec (lit ''ls'')) True))"
proof -
  let ?p = "request_bytes 0 (Exec (lit ''ls'')) True"
  have p: "send_request client 7 (Exec (lit ''ls'')) True = (client, Ok ?p)"
    using send_request_bytes [OF client_channel] client_facts by simp
  have w: "channel_request_wf (Exec (lit ''ls''))" by (simp add: text_ok_lit)
  have s: "small ?p" by (simp add: request_bytes_def small_enc wire_simps)
  have b: "channel served (remote_id client_entry) = Some served_entry"
    using served_channel client_facts(3) by simp
  show ?thesis
    using request_reaches_peer [OF client_channel client_facts(1,2) b served_facts(1) w p s] p
      client_facts(3) by simp
qed

text \<open>
  A global request reaches the peer as the same request with the same reply flag, and
  the payload of its success reply comes back unchanged.
\<close>

theorem global_request_round_trip:
  assumes "global_request_wf req" "small (send_global_request req want)" "small (send_global_success d)"
  shows "on_packet B (send_global_request req want) = Some (B, Ok (GlobalRequest req want))
       \<and> on_packet A (send_global_success d) = Some (A, Ok (GlobalSuccess d))
       \<and> on_packet A send_global_failure = Some (A, Ok GlobalFailure)"
proof (intro conjI)
  show "on_packet B (send_global_request req want) = Some (B, Ok (GlobalRequest req want))"
    using assms(1,2) by (simp add: send_global_bytes on_packet_global)
  show "on_packet A (send_global_success d) = Some (A, Ok (GlobalSuccess d))"
    using assms(3)
    by (simp add: send_global_success_def into_vec_def wire_simps dispatch parse_then_def
        try_res_def read_tail_def)
  show "on_packet A send_global_failure = Some (A, Ok GlobalFailure)"
    by (simp add: send_global_failure_def into_vec_def wire_simps dispatch small_enc)
qed

theorem global_request_round_trip_witness:
  "on_packet served (send_global_request (TcpipForward (lit ''localhost'') 8022) True)
     = Some (served, Ok (GlobalRequest (TcpipForward (lit ''localhost'') 8022) True))
   \<and> on_packet client (send_global_success [0, 0, 31, 86]) = Some (client, Ok (GlobalSuccess [0, 0, 31, 86]))"
proof -
  have "global_request_wf (TcpipForward (lit ''localhost'') 8022)" by (simp add: text_ok_lit)
  moreover have "small (send_global_request (TcpipForward (lit ''localhost'') 8022) True)"
    by (simp add: send_global_bytes global_bytes_def small_enc wire_simps)
  moreover have "small (send_global_success [0, 0, 31, 86])"
    by (simp add: send_global_success_def into_vec_def wire_simps small_enc)
  ultimately show ?thesis using global_request_round_trip by blast
qed

section \<open>The closing handshake\<close>

lemma send_close_bytes:
  assumes "channel A i = Some a" "\<not> local_closed a"
  shows "send_close A i =
    (if remote_closed a then drop_channel i A else put_channel i (a\<lparr>local_closed := True\<rparr>) A,
     Ok (MSG_CHANNEL_CLOSE # u32_to_be (remote_id a)))"
  using assms
  by (simp add: send_close_def with_channel_def Let_def into_vec_def wire_simps is_fully_closed_def
      drop_put)

text \<open>
  Closing works whether the peer answers our CLOSE or the two cross on the wire: in both
  orders every message is accepted, each side reports \<open>Close\<close> exactly once, both entries are gone
  from both tables at the end, and a second CLOSE on our side is refused in between.
\<close>

theorem close_handshake:
  assumes "channel A i = Some a" "channel B j = Some b" "remote_id a = j" "remote_id b = i"
    "open_confirmed a" "open_confirmed b" "\<not> local_closed a" "\<not> remote_closed a"
    "\<not> local_closed b" "\<not> remote_closed b"
  shows "(\<exists>A1 pa A2 B1 B2 pb.
      send_close A i = (A1, Ok pa) \<and> send_close A1 i = (A1, Err BadChannelState)
    \<and> on_packet B pa = Some (B1, Ok (Close j)) \<and> send_close B1 j = (B2, Ok pb)
    \<and> on_packet A1 pb = Some (A2, Ok (Close i))
    \<and> channel A2 i = None \<and> channel B2 j = None)
  \<and> (\<exists>A1 pa A2 B1 B2 pb.
      send_close A i = (A1, Ok pa) \<and> send_close B j = (B1, Ok pb)
    \<and> on_packet B1 pa = Some (B2, Ok (Close j)) \<and> on_packet A1 pb = Some (A2, Ok (Close i))
    \<and> channel A2 i = None \<and> channel B2 j = None)"
proof -
  let ?A1 = "put_channel i (a\<lparr>local_closed := True\<rparr>) A"
  have a: "send_close A i = (?A1, Ok (MSG_CHANNEL_CLOSE # u32_to_be j))"
    "send_close ?A1 i = (?A1, Err BadChannelState)"
    "on_packet ?A1 (MSG_CHANNEL_CLOSE # u32_to_be i) = Some (drop_channel i A, Ok (Close i))"
    using assms by (simp_all add: send_close_bytes on_packet_close with_channel_def chan_simps drop_put)
      (simp add: send_close_def with_channel_def chan_simps)
  let ?B1 = "put_channel j (b\<lparr>remote_closed := True\<rparr>) B"
  have "on_packet B (MSG_CHANNEL_CLOSE # u32_to_be j) = Some (?B1, Ok (Close j))"
    using assms by (simp add: on_packet_close with_channel_def)
  moreover have "send_close ?B1 j = (drop_channel j B, Ok (MSG_CHANNEL_CLOSE # u32_to_be i))"
    using assms send_close_bytes [of ?B1 j "b\<lparr>remote_closed := True\<rparr>"]
    by (simp add: chan_simps drop_put)
  ultimately have answered: "\<exists>A1 pa A2 B1 B2 pb.
      send_close A i = (A1, Ok pa) \<and> send_close A1 i = (A1, Err BadChannelState)
    \<and> on_packet B pa = Some (B1, Ok (Close j)) \<and> send_close B1 j = (B2, Ok pb)
    \<and> on_packet A1 pb = Some (A2, Ok (Close i)) \<and> channel A2 i = None \<and> channel B2 j = None"
    using a by (metis channel_drop)
  let ?B2 = "put_channel j (b\<lparr>local_closed := True\<rparr>) B"
  have "send_close B j = (?B2, Ok (MSG_CHANNEL_CLOSE # u32_to_be i))"
    "on_packet ?B2 (MSG_CHANNEL_CLOSE # u32_to_be j) = Some (drop_channel j B, Ok (Close j))"
    using assms by (simp_all add: send_close_bytes on_packet_close with_channel_def chan_simps drop_put)
  with a have "\<exists>A1 pa A2 B1 B2 pb.
      send_close A i = (A1, Ok pa) \<and> send_close B j = (B1, Ok pb)
    \<and> on_packet B1 pa = Some (B2, Ok (Close j)) \<and> on_packet A1 pb = Some (A2, Ok (Close i))
    \<and> channel A2 i = None \<and> channel B2 j = None"
    by (metis channel_drop)
  with answered show ?thesis by blast
qed

theorem close_handshake_witness:
  "\<exists>A1 pa A2 B1 B2 pb.
      send_close client 7 = (A1, Ok pa) \<and> on_packet served pa = Some (B1, Ok (Close 0))
    \<and> send_close B1 0 = (B2, Ok pb) \<and> on_packet A1 pb = Some (A2, Ok (Close 7))
    \<and> channel A2 7 = None \<and> channel B2 0 = None"
  using close_handshake [OF client_channel served_channel client_facts(3) served_facts(4)
      client_facts(4) served_facts(1) client_facts(1,2) served_facts(2,3)] by blast

end
