(* ===== verification/FlowControl.thy ===== *)
theory FlowControl
  imports ChannelPeer
begin

text \<open>
  Flow control between two endpoints. A system has a sending and a receiving multiplexer, one
  first-in first-out link in either direction, and a receiving frontend that credits back what it
  has consumed. The bytes on the links are those the operations produce and \<open>on_packet\<close> reads.
  Shown: the sender's credit plus what is in flight is the receiver's window, so no delivery ever
  fails; the received stream is a prefix of the sent one; and the sender is never left without
  credit once everything is delivered and consumed.
\<close>

section \<open>The system\<close>

record duplex =
  tx :: connection_state
  rx :: connection_state
  fwd_link :: "bytes list"
  back_link :: "bytes list"
  sent_log :: bytes
  recv_log :: bytes
  unread :: nat

text \<open>What an event adds to the received stream, and to the bytes the frontend has to consume.\<close>

fun ev_stream :: "channel_event res \<Rightarrow> bytes" where
  "ev_stream (Ok (Data _ d)) = d"
| "ev_stream _ = []"

fun ev_size :: "channel_event res \<Rightarrow> nat" where
  "ev_size (Ok (Data _ d)) = length d"
| "ev_size (Ok (ExtendedData _ _ d)) = length d"
| "ev_size _ = 0"

text \<open>
  Channel \<open>i\<close> of the sender is channel \<open>j\<close> of the receiver. The frontend of the receiver credits at
  most what it has received. Everything else the two connections do (other channels, the other
  direction of this one is a second system) is a step that keeps the two entries.
\<close>

inductive duplex_step :: "u32 \<Rightarrow> u32 \<Rightarrow> duplex \<Rightarrow> duplex \<Rightarrow> bool" for i j where
  step_send: "send_data (tx s) i d = (c', Ok (p, n)) \<Longrightarrow>
    duplex_step i j s (s\<lparr>tx := c', fwd_link := fwd_link s @ [p], sent_log := sent_log s @ take n d\<rparr>)"
| step_extended: "send_extended_data (tx s) i code d = (c', Ok (p, n)) \<Longrightarrow>
    duplex_step i j s (s\<lparr>tx := c', fwd_link := fwd_link s @ [p]\<rparr>)"
| step_eof: "send_eof (tx s) i = (c', Ok p) \<Longrightarrow>
    duplex_step i j s (s\<lparr>tx := c', fwd_link := fwd_link s @ [p]\<rparr>)"
| step_deliver: "fwd_link s = p # ps \<Longrightarrow> on_packet (rx s) p = Some (c', r) \<Longrightarrow>
    duplex_step i j s (s\<lparr>rx := c', fwd_link := ps, recv_log := recv_log s @ ev_stream r,
                        unread := unread s + ev_size r\<rparr>)"
| step_consume: "unat n \<le> unread s \<Longrightarrow> replenish_window (rx s) j n = (c', Ok out) \<Longrightarrow>
    duplex_step i j s (s\<lparr>rx := c', unread := unread s - unat n,
                        back_link := back_link s @ (case out of None \<Rightarrow> [] | Some p \<Rightarrow> [p])\<rparr>)"
| step_credit: "back_link s = p # ps \<Longrightarrow> on_packet (tx s) p = Some (c', r) \<Longrightarrow>
    duplex_step i j s (s\<lparr>tx := c', back_link := ps\<rparr>)"
| step_tx: "channel c' i = channel (tx s) i \<Longrightarrow> duplex_step i j s (s\<lparr>tx := c'\<rparr>)"
| step_rx: "channel c' j = channel (rx s) j \<Longrightarrow> duplex_step i j s (s\<lparr>rx := c'\<rparr>)"

text \<open>Sender and receiver as the opening handshake leaves them, in the direction of the data.\<close>

definition feeds :: "channel_state \<Rightarrow> channel_state \<Rightarrow> bool" where
  "feeds a b \<longleftrightarrow> open_confirmed b \<and> \<not> local_closed b \<and> \<not> remote_closed b
   \<and> remote_window a = local_window b \<and> remote_max_packet a = local_max_packet b
   \<and> initial_local_window b = local_window b \<and> pending_replenish b = 0
   \<and> \<not> local_eof a \<and> \<not> remote_eof b"

inductive duplex_reach :: "u32 \<Rightarrow> u32 \<Rightarrow> duplex \<Rightarrow> bool" for i j where
  duplex_start: "channel (tx s) i = Some a \<Longrightarrow> channel (rx s) j = Some b \<Longrightarrow> feeds a b \<Longrightarrow>
    remote_id a = j \<Longrightarrow> remote_id b = i \<Longrightarrow>
    fwd_link s = [] \<Longrightarrow> back_link s = [] \<Longrightarrow> sent_log s = [] \<Longrightarrow> recv_log s = [] \<Longrightarrow> unread s = 0 \<Longrightarrow>
    duplex_reach i j s"
| duplex_more: "duplex_reach i j s \<Longrightarrow> duplex_step i j s s' \<Longrightarrow> duplex_reach i j s'"

lemma mirrored_feeds: "mirrored a b \<Longrightarrow> feeds a b \<and> feeds b a"
  by (auto simp: mirrored_def feeds_def is_open_def)

section \<open>Messages in flight\<close>

datatype fmsg = FData bytes | FExt u32 bytes | FEof

fun fbytes :: "u32 \<Rightarrow> fmsg \<Rightarrow> bytes" where
  "fbytes j (FData d) = MSG_CHANNEL_DATA # u32_to_be j @ enc_string d"
| "fbytes j (FExt code d) = MSG_CHANNEL_EXTENDED_DATA # u32_to_be j @ u32_to_be code @ enc_string d"
| "fbytes j FEof = MSG_CHANNEL_EOF # u32_to_be j"

fun fload :: "fmsg \<Rightarrow> nat" where
  "fload (FData d) = length d"
| "fload (FExt code d) = length d"
| "fload FEof = 0"

fun fstream :: "fmsg \<Rightarrow> bytes" where
  "fstream (FData d) = d"
| "fstream _ = []"

definition abytes :: "u32 \<Rightarrow> u32 \<Rightarrow> bytes" where
  "abytes i n = MSG_CHANNEL_WINDOW_ADJUST # u32_to_be i @ u32_to_be n"

text \<open>Nothing but EOF follows an EOF.\<close>

fun eof_last :: "fmsg list \<Rightarrow> bool" where
  "eof_last [] = True"
| "eof_last (FEof # fs) = (\<forall>f \<in> set fs. f = FEof)"
| "eof_last (_ # fs) = eof_last fs"

lemma eof_last_all: "\<forall>f \<in> set fs. f = FEof \<Longrightarrow> eof_last fs"
  by (induction fs rule: eof_last.induct) auto

lemma eof_last_snoc_eof: "eof_last fs \<Longrightarrow> eof_last (fs @ [FEof])"
  by (induction fs rule: eof_last.induct) auto

lemma eof_last_snoc: "eof_last fs \<Longrightarrow> FEof \<notin> set fs \<Longrightarrow> eof_last (fs @ [m])"
proof (induction fs rule: eof_last.induct)
  case 1
  show ?case by (cases m) simp_all
qed auto

section \<open>The invariant\<close>

definition flow_ok :: "u32 \<Rightarrow> u32 \<Rightarrow> duplex \<Rightarrow> channel_state \<Rightarrow> channel_state \<Rightarrow> fmsg list \<Rightarrow> u32 list \<Rightarrow> bool"
  where
  "flow_ok i j s a b fs ns \<longleftrightarrow>
     channel (tx s) i = Some a \<and> channel (rx s) j = Some b
   \<and> remote_id a = j \<and> remote_id b = i
   \<and> open_confirmed b \<and> \<not> local_closed b \<and> \<not> remote_closed b
   \<and> remote_max_packet a = local_max_packet b
   \<and> fwd_link s = map (fbytes j) fs \<and> back_link s = map (abytes i) ns
   \<and> unat (remote_window a) + (\<Sum>f\<leftarrow>fs. fload f) + (\<Sum>n\<leftarrow>ns. unat n) = unat (local_window b)
   \<and> unat (local_window b) + unat (pending_replenish b) + unread s = unat (initial_local_window b)
   \<and> pending_replenish b < replenish_threshold b
   \<and> (\<forall>f \<in> set fs. fload f \<le> unat (local_max_packet b))
   \<and> sent_log s = recv_log s @ concat (map fstream fs)
   \<and> eof_last fs \<and> (FEof \<in> set fs \<or> remote_eof b \<longrightarrow> local_eof a)
   \<and> (remote_eof b \<longrightarrow> (\<forall>f \<in> set fs. f = FEof))"

lemma flow_start_ok:
  assumes "channel (tx s) i = Some a" "channel (rx s) j = Some b" "feeds a b"
    "remote_id a = j" "remote_id b = i" "fwd_link s = []" "back_link s = []"
    "sent_log s = []" "recv_log s = []" "unread s = 0"
  shows "flow_ok i j s a b [] []"
  using assms threshold_pos [of b] by (simp add: flow_ok_def feeds_def)

section \<open>Sending\<close>

lemma send_data_inv:
  assumes "send_data c i d = (c', Ok (p, n))" "channel c i = Some a"
  shows "\<not> local_eof a" "n = min (length d) (data_capacity a)" "n \<le> length d"
    "c' = put_channel i (note_sent n a) c"
    "p = MSG_CHANNEL_DATA # u32_to_be (remote_id a) @ enc_string (take n d)"
  using assms
  by (auto simp: send_data_def with_channel_def try_res_def ensure_sendable_def slice_res_def
      Let_def into_vec_def wire_simps split: if_splits)

lemma send_extended_data_inv:
  assumes "send_extended_data c i code d = (c', Ok (p, n))" "channel c i = Some a"
  shows "\<not> local_eof a" "n = min (length d) (extended_data_capacity a)" "n \<le> length d"
    "c' = put_channel i (note_sent n a) c"
    "p = MSG_CHANNEL_EXTENDED_DATA # u32_to_be (remote_id a) @ u32_to_be code @ enc_string (take n d)"
  using assms
  by (auto simp: send_extended_data_def with_channel_def try_res_def ensure_sendable_def
      slice_res_def Let_def into_vec_def wire_simps split: if_splits)

lemma note_sent_window:
  "n \<le> unat (remote_window a) \<Longrightarrow> unat (remote_window (note_sent n a)) = unat (remote_window a) - n"
  using unat_less_p2 [of "remote_window a"] by (simp add: note_sent_def unat_sat_sub unat_of_nat_u32)

lemma note_sent_simps [simp]:
  "remote_id (note_sent n a) = remote_id a"
  "remote_max_packet (note_sent n a) = remote_max_packet a"
  "local_eof (note_sent n a) = local_eof a"
  by (simp_all add: note_sent_def)

text \<open>Queueing a message that carries \<open>n\<close> bytes, of which the first \<open>stream\<close> belong to the stream.\<close>

lemma flow_queue:
  assumes "flow_ok i j s a b fs ns" "\<not> local_eof a" "m \<noteq> FEof" "fload m = n"
    "n \<le> unat (remote_window a)" "n \<le> unat (remote_max_packet a)"
  shows "flow_ok i j (s\<lparr>tx := put_channel i (note_sent n a) (tx s), fwd_link := fwd_link s @ [fbytes j m],
            sent_log := sent_log s @ fstream m\<rparr>) (note_sent n a) b (fs @ [m]) ns"
  using assms note_sent_window [of n a]
  by (auto simp: flow_ok_def chan_simps eof_last_snoc)

lemma flow_send:
  assumes "flow_ok i j s a b fs ns" "send_data (tx s) i d = (c', Ok (p, n))"
  shows "\<exists>a' fs'. flow_ok i j (s\<lparr>tx := c', fwd_link := fwd_link s @ [p], sent_log := sent_log s @ take n d\<rparr>)
     a' b fs' ns"
proof -
  have ch: "channel (tx s) i = Some a" "remote_id a = j" using assms(1) by (simp_all add: flow_ok_def)
  note inv = send_data_inv [OF assms(2) ch(1)]
  have "n \<le> unat (remote_window a)" "n \<le> unat (remote_max_packet a)"
    using inv(2) data_capacity_bound [of a] by auto
  moreover have "fload (FData (take n d)) = n" using inv(3) by simp
  ultimately show ?thesis
    using flow_queue [OF assms(1) inv(1), of "FData (take n d)" n, OF fmsg.distinct(3)] inv(4,5) ch(2) by auto
qed

lemma flow_extended:
  assumes "flow_ok i j s a b fs ns" "send_extended_data (tx s) i code d = (c', Ok (p, n))"
  shows "\<exists>a' fs'. flow_ok i j (s\<lparr>tx := c', fwd_link := fwd_link s @ [p]\<rparr>) a' b fs' ns"
proof -
  have ch: "channel (tx s) i = Some a" "remote_id a = j" using assms(1) by (simp_all add: flow_ok_def)
  note inv = send_extended_data_inv [OF assms(2) ch(1)]
  have "n \<le> unat (remote_window a)" "n \<le> unat (remote_max_packet a)"
    using inv(2) extended_data_capacity_bound [of a] by auto
  moreover have "fload (FExt code (take n d)) = n" using inv(3) by simp
  ultimately show ?thesis
    using flow_queue [OF assms(1) inv(1), of "FExt code (take n d)" n, OF fmsg.distinct(5)] inv(4,5) ch(2) by auto
qed

lemma flow_eof:
  assumes "flow_ok i j s a b fs ns" "send_eof (tx s) i = (c', Ok p)"
  shows "\<exists>a' fs'. flow_ok i j (s\<lparr>tx := c', fwd_link := fwd_link s @ [p]\<rparr>) a' b fs' ns"
proof -
  have ch: "channel (tx s) i = Some a" "remote_id a = j" using assms(1) by (simp_all add: flow_ok_def)
  with assms(2) have "c' = put_channel i (a\<lparr>local_eof := True\<rparr>) (tx s)" "p = fbytes j FEof"
    by (auto simp: send_eof_def with_channel_def into_vec_def wire_simps split: if_splits)
  with assms(1) have "flow_ok i j (s\<lparr>tx := c', fwd_link := fwd_link s @ [p]\<rparr>) (a\<lparr>local_eof := True\<rparr>) b (fs @ [FEof]) ns"
    by (auto simp: flow_ok_def chan_simps eof_last_snoc_eof)
  then show ?thesis by blast
qed

section \<open>Receiving\<close>

lemma fload_small: "length d \<le> unat (w :: u32) \<Longrightarrow> fits_u32 d"
  using unat_less_p2 [of w] by (simp add: fits_u32_def)

lemma accept_data_within:
  assumes "channel c j = Some b" "open_confirmed b" "\<not> remote_closed b" "\<not> remote_eof b"
    "length d \<le> unat (local_window b)" "length d \<le> unat (local_max_packet b)"
  shows "accept_data c j d late ev =
    (put_channel j (b\<lparr>local_window := local_window b - of_nat (length d),
                      activity := activity b + ucast (of_nat (length d) :: u32)\<rparr>) c, Ok ev)"
proof -
  have "length d < 2 ^ 32" using fload_small [OF assms(5)] by (simp add: fits_u32_def)
  with assms show ?thesis
    by (simp add: accept_data_def with_channel_def Let_def not_less [symmetric] word_less_nat_alt
        unat_of_nat_u32)
qed

text \<open>The receiver's entry after the message, and the event it reports.\<close>

fun f_received :: "channel_state \<Rightarrow> fmsg \<Rightarrow> channel_state" where
  "f_received b FEof = b\<lparr>remote_eof := True\<rparr>"
| "f_received b m = b\<lparr>local_window := local_window b - of_nat (fload m),
                      activity := activity b + ucast (of_nat (fload m) :: u32)\<rparr>"

fun f_event :: "u32 \<Rightarrow> fmsg \<Rightarrow> channel_event" where
  "f_event j (FData d) = Data j d"
| "f_event j (FExt code d) = ExtendedData j code d"
| "f_event j FEof = Eof j"

lemma f_event_sizes [simp]:
  "ev_stream (Ok (f_event j m)) = fstream m" "ev_size (Ok (f_event j m)) = fload m"
  by (cases m; simp)+

lemma deliver_head:
  assumes "flow_ok i j s a b (m # fs) ns"
  shows "on_packet (rx s) (fbytes j m) = Some (put_channel j (f_received b m) (rx s), Ok (f_event j m))"
proof -
  have b: "channel (rx s) j = Some b" "open_confirmed b" "\<not> remote_closed b"
    "fload m \<le> unat (local_window b)" "fload m \<le> unat (local_max_packet b)"
    and eof: "m \<noteq> FEof \<Longrightarrow> \<not> remote_eof b"
    using assms by (auto simp: flow_ok_def)
  have "fits_u32 d \<and> small (fbytes j m)" if "m = FData d \<or> m = FExt code d" for d code
    using fload_small [of d "local_window b"] b(4) that by (auto simp: small_enc fits_u32_def)
  with b eof show ?thesis
    by (cases m) (simp_all add: on_packet_data on_packet_extended on_packet_eof accept_data_within
        with_channel_def)
qed

lemma unat_minus_of_nat: "n \<le> unat w \<Longrightarrow> unat (w - of_nat n) = unat w - n" for w :: u32
  using unat_less_p2 [of w] by (subst unat_sub) (simp_all add: word_le_nat_alt unat_of_nat_u32)

lemma f_received_frame [simp]:
  "remote_id (f_received b m) = remote_id b" "open_confirmed (f_received b m) = open_confirmed b"
  "local_closed (f_received b m) = local_closed b" "remote_closed (f_received b m) = remote_closed b"
  "local_max_packet (f_received b m) = local_max_packet b"
  "initial_local_window (f_received b m) = initial_local_window b"
  "pending_replenish (f_received b m) = pending_replenish b"
  "remote_eof (f_received b m) = (remote_eof b \<or> m = FEof)"
  "replenish_threshold (f_received b m) = replenish_threshold b"
  by (cases m; simp add: replenish_threshold_def)+

lemma f_received_window: "fload m \<le> unat (local_window b) \<Longrightarrow>
    unat (local_window (f_received b m)) = unat (local_window b) - fload m"
  by (cases m) (simp_all add: unat_minus_of_nat)

lemma eof_last_Cons: "eof_last (m # fs) \<Longrightarrow> eof_last fs"
  by (cases m) (simp_all add: eof_last_all)

lemma flow_deliver:
  assumes "flow_ok i j s a b fs0 ns" "fwd_link s = p # ps" "on_packet (rx s) p = Some (c', r)"
  shows "\<exists>b' fs'. flow_ok i j (s\<lparr>rx := c', fwd_link := ps, recv_log := recv_log s @ ev_stream r,
                        unread := unread s + ev_size r\<rparr>) a b' fs' ns"
proof -
  obtain m fs where fs: "fs0 = m # fs" "p = fbytes j m" "ps = map (fbytes j) fs"
    using assms(1,2) by (auto simp: flow_ok_def)
  note ok = assms(1) [unfolded fs(1)]
  have out: "c' = put_channel j (f_received b m) (rx s)" "r = Ok (f_event j m)"
    using deliver_head [OF ok] assms(3) fs(2) by simp_all
  have w: "fload m \<le> unat (local_window b)" and e: "eof_last fs"
    using ok by (auto simp: flow_ok_def intro: eof_last_Cons)
  have "flow_ok i j (s\<lparr>rx := c', fwd_link := ps, recv_log := recv_log s @ ev_stream r,
      unread := unread s + ev_size r\<rparr>) a (f_received b m) fs ns"
    using ok f_received_window [OF w] w e unfolding out fs(3)
    by (auto simp: flow_ok_def chan_simps)
  then show ?thesis by blast
qed

section \<open>Credit\<close>

lemma replenish_inv:
  assumes "replenish_window c j n = (c', Ok out)" "channel c j = Some b" "\<not> local_closed b"
    "unat (pending_replenish b) + unat n + unat (local_window b) < 2 ^ 32"
    "pending_replenish b < replenish_threshold b"
  obtains (kept) p where "c' = put_channel j (b\<lparr>pending_replenish := p\<rparr>) c" "out = None"
      "unat p = unat (pending_replenish b) + unat n" "p < replenish_threshold b"
    | (flushed) added where "out = Some (abytes (remote_id b) added)"
      "unat added = unat (pending_replenish b) + unat n"
      "c' = put_channel j (b\<lparr>pending_replenish := 0, local_window := local_window b + added\<rparr>) c"
proof -
  let ?p = "sat_add (pending_replenish b) n"
  have p: "unat ?p = unat (pending_replenish b) + unat n"
    using assms(4) by (simp add: unat_sat_add)
  have sum: "sat_add (local_window b) ?p = local_window b + ?p"
    using assms(4) p by (simp add: sat_add_def)
  have th: "replenish_threshold (b\<lparr>pending_replenish := ?p\<rparr>) = replenish_threshold b"
    by (rule threshold_frame) simp_all
  consider "n = 0" | "n \<noteq> 0" "?p < replenish_threshold b" | "n \<noteq> 0" "\<not> ?p < replenish_threshold b"
    by blast
  then show ?thesis
  proof cases
    case 1
    then have "c' = c" "out = None" using assms(1-3) by (simp_all add: replenish_window_def with_channel_def)
    moreover have "put_channel j b c = c"
      using assms(2) put_drop_restore [OF assms(2)] by (metis channel_put drop_put put_drop_restore)
    ultimately show ?thesis using kept [of "pending_replenish b"] 1 assms(5) by simp
  next
    case 2
    then show ?thesis
      using assms(1-3) p th kept [of ?p]
      by (simp add: replenish_window_def with_channel_def Let_def)
  next
    case 3
    then show ?thesis
      using assms(1-3) p th sum flushed [of ?p]
      by (auto simp: replenish_window_def with_channel_def Let_def into_vec_def wire_simps abytes_def)
  qed
qed

lemma flow_consume:
  assumes "flow_ok i j s a b fs ns" "unat n \<le> unread s"
    "replenish_window (rx s) j n = (c', Ok out)"
  shows "\<exists>b' ns'. flow_ok i j (s\<lparr>rx := c', unread := unread s - unat n,
      back_link := back_link s @ (case out of None \<Rightarrow> [] | Some p \<Rightarrow> [p])\<rparr>) a b' fs ns'"
proof -
  have b: "channel (rx s) j = Some b" "\<not> local_closed b" "remote_id b = i"
    "pending_replenish b < replenish_threshold b"
    using assms(1) by (simp_all add: flow_ok_def)
  have total: "unat (pending_replenish b) + unat n + unat (local_window b) < 2 ^ 32"
    using assms(1,2) unat_less_p2 [of "initial_local_window b"] by (simp add: flow_ok_def)
  show ?thesis
  proof (rule replenish_inv [OF assms(3) b(1,2) total b(4)], goal_cases)
    case (1 p)
    have "replenish_threshold (b\<lparr>pending_replenish := p\<rparr>) = replenish_threshold b"
      by (rule threshold_frame) simp_all
    with 1 assms(1,2) have "flow_ok i j (s\<lparr>rx := c', unread := unread s - unat n,
        back_link := back_link s @ (case out of None \<Rightarrow> [] | Some p \<Rightarrow> [p])\<rparr>)
        a (b\<lparr>pending_replenish := p\<rparr>) fs ns"
      by (auto simp: flow_ok_def chan_simps)
    then show ?case by blast
  next
    case (2 added)
    let ?b = "b\<lparr>pending_replenish := 0, local_window := local_window b + added\<rparr>"
    have "unat (local_window b + added) = unat (local_window b) + unat added"
      using total 2(2) by (simp add: unat_word_ariths)
    moreover have "pending_replenish ?b < replenish_threshold ?b" using threshold_pos by simp
    ultimately have "flow_ok i j (s\<lparr>rx := c', unread := unread s - unat n,
        back_link := back_link s @ (case out of None \<Rightarrow> [] | Some p \<Rightarrow> [p])\<rparr>) a ?b fs (ns @ [added])"
      using 2 assms(1,2) by (auto simp: flow_ok_def chan_simps)
    then show ?case by blast
  qed
qed

lemma credit_head:
  assumes "flow_ok i j s a b fs (n # ns)"
  shows "on_packet (tx s) (abytes i n) =
    Some (put_channel i (a\<lparr>remote_window := remote_window a + n\<rparr>) (tx s), Ok (WindowAdjust i n))"
    and "unat (remote_window a + n) = unat (remote_window a) + unat n"
proof -
  have sum: "unat (remote_window a) + unat n < 2 ^ 32"
    using assms unat_less_p2 [of "local_window b"] by (simp add: flow_ok_def)
  then show "unat (remote_window a + n) = unat (remote_window a) + unat n"
    by (simp add: unat_word_ariths)
  have "sat_add (remote_window a) n = remote_window a + n" using sum by (simp add: sat_add_def)
  then show "on_packet (tx s) (abytes i n) =
    Some (put_channel i (a\<lparr>remote_window := remote_window a + n\<rparr>) (tx s), Ok (WindowAdjust i n))"
    using assms by (simp add: abytes_def on_packet_adjust with_channel_def flow_ok_def)
qed

lemma flow_credit:
  assumes "flow_ok i j s a b fs ns0" "back_link s = p # ps" "on_packet (tx s) p = Some (c', r)"
  shows "\<exists>a' ns'. flow_ok i j (s\<lparr>tx := c', back_link := ps\<rparr>) a' b fs ns'"
proof -
  obtain n ns where ns: "ns0 = n # ns" "p = abytes i n" "ps = map (abytes i) ns"
    using assms(1,2) by (auto simp: flow_ok_def)
  note ok = assms(1) [unfolded ns(1)]
  have "c' = put_channel i (a\<lparr>remote_window := remote_window a + n\<rparr>) (tx s)"
    using credit_head(1) [OF ok] assms(3) ns(2) by simp
  then have "flow_ok i j (s\<lparr>tx := c', back_link := ps\<rparr>) (a\<lparr>remote_window := remote_window a + n\<rparr>) b fs ns"
    using ok credit_head(2) [OF ok] ns(3) by (auto simp: flow_ok_def chan_simps)
  then show ?thesis by blast
qed

lemma flow_step:
  assumes "duplex_step i j s s'" "flow_ok i j s a b fs ns"
  shows "\<exists>a b fs ns. flow_ok i j s' a b fs ns"
  using assms
proof (induction rule: duplex_step.induct)
  case (step_send s d c' p n)
  then show ?case using flow_send by blast
next
  case (step_extended s code d c' p n)
  then show ?case using flow_extended by blast
next
  case (step_eof s c' p)
  then show ?case using flow_eof by blast
next
  case (step_deliver s p ps c' r)
  then show ?case using flow_deliver by blast
next
  case (step_consume n s c' out)
  then show ?case using flow_consume by blast
next
  case (step_credit s p ps c' r)
  then show ?case using flow_credit by blast
next
  case (step_tx c' s)
  then have "flow_ok i j (s\<lparr>tx := c'\<rparr>) a b fs ns" by (simp add: flow_ok_def)
  then show ?case by blast
next
  case (step_rx c' s)
  then have "flow_ok i j (s\<lparr>rx := c'\<rparr>) a b fs ns" by (simp add: flow_ok_def)
  then show ?case by blast
qed

lemma duplex_flow_ok: "duplex_reach i j s \<Longrightarrow> \<exists>a b fs ns. flow_ok i j s a b fs ns"
proof (induction rule: duplex_reach.induct)
  case (duplex_start s a b)
  then show ?case using flow_start_ok by blast
next
  case (duplex_more s s')
  then show ?case using flow_step by blast
qed

section \<open>The properties\<close>

text \<open>
  Claim C13. However sending, delivery, consumption and crediting interleave, no delivery ever
  fails: every data, extended data or EOF message at the head of the link is accepted by the
  receiver, and every window adjustment by the sender, with the sender's credit growing by exactly
  the amount announced. In particular the receiver never sees a window or packet-size violation or
  data after EOF.
\<close>

theorem flow_never_violated:
  assumes "duplex_reach i j s"
  shows "(\<forall>p ps. fwd_link s = p # ps \<longrightarrow>
            (\<exists>c' ev. on_packet (rx s) p = Some (c', Ok ev)
               \<and> (ev = Eof j \<or> (\<exists>d. ev = Data j d) \<or> (\<exists>code d. ev = ExtendedData j code d))))
       \<and> (\<forall>p ps. back_link s = p # ps \<longrightarrow>
            (\<exists>c' n a a'. on_packet (tx s) p = Some (c', Ok (WindowAdjust i n))
               \<and> channel (tx s) i = Some a \<and> channel c' i = Some a'
               \<and> unat (remote_window a') = unat (remote_window a) + unat n))"
proof -
  obtain a b fs ns where ok: "flow_ok i j s a b fs ns" using duplex_flow_ok [OF assms] by blast
  show ?thesis
  proof (intro conjI allI impI, goal_cases)
    case (1 p ps)
    then obtain m fs' where "fs = m # fs'" "p = fbytes j m" using ok by (auto simp: flow_ok_def)
    with deliver_head [of i j s a b m fs' ns] ok show ?case by (cases m) auto
  next
    case (2 p ps)
    then obtain n ns' where ns: "ns = n # ns'" "p = abytes i n" using ok by (auto simp: flow_ok_def)
    note ok' = ok [unfolded ns(1)]
    have "channel (tx s) i = Some a" using ok by (simp add: flow_ok_def)
    with credit_head [OF ok'] ns(2) show ?case by (auto simp: chan_simps)
  qed
qed


lemma threshold_half:
  "unat (replenish_threshold b) \<le> max (unat (initial_local_window b) div 2) 1"
proof -
  let ?w = "initial_local_window b div 2"
  have "replenish_threshold b \<le> max ?w 1" by (auto simp: replenish_threshold_def max_def min_def)
  then have "unat (replenish_threshold b) \<le> unat (max ?w 1)" by (simp add: word_le_nat_alt)
  then show ?thesis by (auto simp: max_def unat_div word_le_nat_alt split: if_splits)
qed

text \<open>
  Claim C15. The sender is never starved: when nothing is in flight and the receiving frontend has
  credited everything it was given, at least half of the window the receiver advertised at open is
  available to the sender again, however much has been transferred; so when the packet limit
  leaves room for a byte of data and the window is not zero, the sender can send.
\<close>

theorem credit_never_lost:
  assumes "duplex_reach i j s" "fwd_link s = []" "back_link s = []" "unread s = 0"
    "channel (tx s) i = Some a" "channel (rx s) j = Some b"
  shows "2 * unat (remote_window a) \<ge> unat (initial_local_window b)
       \<and> (0 < initial_local_window b \<and> 9 < remote_max_packet a \<longrightarrow> 0 < data_capacity a)"
proof -
  obtain fs ns where ok: "flow_ok i j s a b fs ns"
    using duplex_flow_ok [OF assms(1)] assms(5,6) by (auto simp: flow_ok_def)
  then have eq: "unat (remote_window a) + unat (pending_replenish b) = unat (initial_local_window b)"
    and lt: "unat (pending_replenish b) < unat (replenish_threshold b)"
    using assms(2-4) by (auto simp: flow_ok_def word_less_nat_alt)
  with threshold_half [of b] have half: "2 * unat (remote_window a) \<ge> unat (initial_local_window b)"
    by linarith
  moreover have "0 < data_capacity a" if "0 < initial_local_window b" "9 < remote_max_packet a"
  proof -
    have "0 < unat (remote_window a)" using half that(1) by (simp add: word_less_nat_alt)
    moreover have "0 < unat (remote_max_packet a - 9)"
      using that(2) by (simp add: unat_gt_0)
    ultimately show ?thesis using that(2) by (simp add: data_capacity_def)
  qed
  ultimately show ?thesis by blast
qed

section \<open>A run\<close>

definition duplex_init :: duplex where
  "duplex_init = \<lparr>tx = client, rx = served, fwd_link = [], back_link = [], sent_log = [],
     recv_log = [], unread = 0\<rparr>"

lemma duplex_init_reach: "duplex_reach 7 0 duplex_init"
proof (rule duplex_start [of duplex_init 7 client_entry 0 served_entry])
  show "channel (tx duplex_init) 7 = Some client_entry" "channel (rx duplex_init) 0 = Some served_entry"
    using client_channel served_channel by (simp_all add: duplex_init_def)
  show "feeds client_entry served_entry"
    by (simp add: feeds_def fresh_channel_def connection_new_def)
  show "remote_id client_entry = 0" "remote_id served_entry = 7"
    by (simp_all add: client_facts served_facts)
qed (simp_all add: duplex_init_def)

lemma send_data_all:
  assumes "channel c i = Some a" "\<not> local_closed a" "\<not> remote_closed a" "\<not> local_eof a"
    "length d \<le> data_capacity a"
  shows "send_data c i d = (put_channel i (note_sent (length d) a) c,
    Ok (fbytes (remote_id a) (FData d), length d))"
  using assms
  by (simp add: send_data_def with_channel_def try_res_def ensure_sendable_def Let_def
      slice_res_def into_vec_def wire_simps)

lemma client_sends: "send_data client 7 [1, 2] =
    (put_channel 7 (note_sent 2 client_entry) client, Ok (fbytes 0 (FData [1, 2]), 2))"
proof -
  have "length [1 :: u8, 2] \<le> data_capacity client_entry" "\<not> local_eof client_entry"
    by (simp_all add: fresh_channel_def data_capacity_def DEFAULT_WINDOW_def DEFAULT_MAX_PACKET_def)
  from send_data_all [OF client_channel client_facts(1,2) this(2,1)] show ?thesis
    by (simp only: client_facts(3)) (simp add: numeral_2_eq_2)
qed

definition duplex_one :: duplex where
  "duplex_one = duplex_init\<lparr>tx := put_channel 7 (note_sent 2 client_entry) client,
     fwd_link := [fbytes 0 (FData [1, 2])], sent_log := [1, 2]\<rparr>"

lemma duplex_one_reach: "duplex_reach 7 0 duplex_one"
  using duplex_more [OF duplex_init_reach
      step_send [of duplex_init 7 "[1, 2]" "put_channel 7 (note_sent 2 client_entry) client"
        "fbytes 0 (FData [1, 2])" 2 0]] client_sends
  by (simp add: duplex_one_def duplex_init_def)

theorem flow_never_violated_witness:
  "duplex_reach 7 0 duplex_one \<and>
   (\<exists>c' ev. on_packet (rx duplex_one) (fbytes 0 (FData [1, 2])) = Some (c', Ok ev))"
proof -
  have "fwd_link duplex_one = fbytes 0 (FData [1, 2]) # []" by (simp add: duplex_one_def)
  then show ?thesis using flow_never_violated [OF duplex_one_reach] duplex_one_reach by blast
qed


lemma client_window_positive: "0 < initial_local_window served_entry" "9 < remote_max_packet client_entry"
  by (simp_all add: fresh_channel_def connection_new_def DEFAULT_WINDOW_def DEFAULT_MAX_PACKET_def)

theorem credit_never_lost_witness:
  "duplex_reach 7 0 duplex_init \<and> 2 * unat (remote_window client_entry) \<ge> unat (initial_local_window served_entry)
   \<and> 0 < data_capacity client_entry"
  using credit_never_lost [OF duplex_init_reach, of client_entry served_entry] duplex_init_reach
    client_channel served_channel client_window_positive
  by (simp add: duplex_init_def)

end
