(* ===== verification/WireClaims.thy ===== *)
theory WireClaims
  imports ChannelMsg
begin

text \<open>
  The properties of the wire format: the readers stay inside their buffer and never panic, the
  encoding of multiple-precision integers is the canonical one and has the right value, field
  sequences decode uniquely, name lists are read back and negotiated in our order of preference,
  and the bodies of the connection-protocol messages round-trip.
\<close>

section \<open>Readers stay in bounds\<close>

definition in_bounds :: "reader \<Rightarrow> bool" where
  "in_bounds r \<longleftrightarrow> r_pos r \<le> length (r_buf r)"

text \<open>A read that succeeds moves the cursor forward inside the same buffer.\<close>

definition bounded_rd :: "'a rd \<Rightarrow> bool" where
  "bounded_rd m \<longleftrightarrow> (\<forall>r. m r \<noteq> Panic) \<and> (\<forall>r x r'. in_bounds r \<and> m r = Ok (x, r') \<longrightarrow>
     in_bounds r' \<and> r_buf r' = r_buf r \<and> r_pos r \<le> r_pos r')"

lemma bounded_take: "bounded_rd (take_bytes n)"
  using safe_take_bytes
  by (auto simp: bounded_rd_def safe_rd_def in_bounds_def take_bytes_def slice_res_def Let_def
      split: if_splits)

lemma bounded_bind:
  assumes "bounded_rd m" "\<And>x. bounded_rd (f x)"
  shows "bounded_rd (rd_bind m f)"
  unfolding bounded_rd_def
proof (intro conjI allI impI)
  fix r
  show "rd_bind m f r \<noteq> Panic"
    using assms by (auto simp: bounded_rd_def rd_bind_def bind_res_eq_Panic split: prod.splits)
next
  fix r x r'
  assume a: "in_bounds r \<and> rd_bind m f r = Ok (x, r')"
  then obtain y r1 where "m r = Ok (y, r1)" "f y r1 = Ok (x, r')" by (auto simp: rd_bind_eq_Ok)
  then have "in_bounds r1 \<and> r_buf r1 = r_buf r \<and> r_pos r \<le> r_pos r1"
    "in_bounds r1 \<longrightarrow> in_bounds r' \<and> r_buf r' = r_buf r1 \<and> r_pos r1 \<le> r_pos r'"
    using assms(1) assms(2) [of y] a unfolding bounded_rd_def by blast+
  then show "in_bounds r'" "r_buf r' = r_buf r" "r_pos r \<le> r_pos r'" by auto
qed

lemma bounded_ok: "bounded_rd (rd_ok x)"
  by (simp add: bounded_rd_def)

lemma bounded_take_map:
  assumes "\<And>b r. length b = n \<Longrightarrow> \<exists>x. g b r = Ok (x, r)"
  shows "bounded_rd (rd_bind (take_bytes n) g)"
proof -
  have t: "take_bytes n r \<noteq> Panic" for r using safe_take_bytes by blast
  have g: "\<exists>x. g b r' = Ok (x, r')" if "take_bytes n r = Ok (b, r')" for b r r'
    using take_bytes_length [OF that] assms by blast
  have "rd_bind (take_bytes n) g r \<noteq> Panic" for r
    using t [of r] by (auto simp: rd_bind_def bind_res_eq_Panic dest!: g)
  moreover have "\<exists>b. take_bytes n r = Ok (b, r')" if "rd_bind (take_bytes n) g r = Ok (x, r')" for r x r'
    using that g by (fastforce simp: rd_bind_eq_Ok)
  ultimately show ?thesis using bounded_take [of n] by (auto simp: bounded_rd_def) blast+
qed

lemma bounded_u8: "bounded_rd read_u8"
  unfolding read_u8_def by (rule bounded_take_map) (simp add: index_res_def)

lemma bounded_u32: "bounded_rd read_u32"
  unfolding read_u32_def by (rule bounded_take_map) (simp add: index_res_def)

lemma bounded_u64: "bounded_rd read_u64"
  unfolding read_u64_def by (rule bounded_take_map) (simp add: index_res_def)

text \<open>
  Claim C20. No reader panics on any buffer and any length prefix, and one that succeeds leaves the
  cursor inside the buffer, at or behind where it stood, with the buffer unchanged.
\<close>

theorem readers_in_bounds:
  "bounded_rd (take_bytes n) \<and> bounded_rd read_u8 \<and> bounded_rd read_bool \<and> bounded_rd read_u32
 \<and> bounded_rd read_u64 \<and> bounded_rd read_string \<and> bounded_rd read_mpint \<and> bounded_rd name_list_read"
  unfolding read_bool_def read_string_def read_mpint_def name_list_read_def
  by (intro conjI bounded_take bounded_u8 bounded_u32 bounded_u64 bounded_bind bounded_ok)

section \<open>mpint\<close>

text \<open>
  What \<open>write_mpint\<close> appends is read back by \<open>read_mpint\<close> as a byte string that is the
  canonical two's-complement form (RFC 4251: no redundant leading byte, zero is empty) of the
  non-negative number the magnitude stands for, whatever leading zeros the magnitude has and
  whether or not its top bit is set.
\<close>

theorem mpint_canonical_round_trip:
  assumes "length m + 1 < 2 ^ 32"
  shows "\<exists>b. read_mpint (reader_new (into_vec (write_mpint m writer_new))) = Ok (b, rd_at (enc_string b) [])
       \<and> twos_value b = int (be_value m) \<and> canonical_mpint b"
proof -
  have "fits_u32 (mpint_body m)" "small (enc_string (mpint_body m))"
    using assms length_mpint_body [of m] by (simp_all add: fits_u32_def small_def USIZE_LIMIT_def)
  then have "read_string (rd_at [] (enc_string (mpint_body m))) =
      Ok (mpint_body m, rd_at (enc_string (mpint_body m)) [])"
    using strc.rd_back [of "mpint_body m" "[]" "[]"] by simp
  then show ?thesis
    using twos_value_mpint_body canonical_mpint_body
    by (auto simp: read_mpint_def into_vec_def wire_simps reader_new_rd_at)
qed

theorem mpint_canonical_round_trip_witness:
  "\<exists>b. read_mpint (reader_new (into_vec (write_mpint [0, 0x80, 1] writer_new))) = Ok (b, rd_at (enc_string b) [])
     \<and> twos_value b = 32769 \<and> canonical_mpint b"
  using mpint_canonical_round_trip [of "[0, 0x80, 1]"] by (simp add: be_value_def)

section \<open>Strings decode uniquely\<close>

text \<open>
  A sequence of length-prefixed strings can be split in one way only: two messages made
  of such fields are equal only when the fields are, in number, order and content. Nothing that is
  signed or hashed over such a sequence has a second reading.
\<close>

theorem string_fields_unique:
  assumes "\<forall>s \<in> set xs. fits_u32 s" "\<forall>s \<in> set ys. fits_u32 s"
    "w_buf (fold write_string xs writer_new) = w_buf (fold write_string ys writer_new)"
    "small (w_buf (fold write_string xs writer_new))"
  shows "xs = ys"
proof -
  have enc: "w_buf (fold write_string zs w) = w_buf w @ concat (map enc_string zs)" for zs w
    by (induction zs arbitrary: w) (simp_all add: wire_simps)
  have "concat (map enc_string xs) = concat (map enc_string ys) \<Longrightarrow>
      small (concat (map enc_string xs)) \<Longrightarrow> xs = ys"
    using assms(1,2)
  proof (induction xs arbitrary: ys)
    case Nil
    then show ?case by (cases ys) (auto simp: enc_string_def dest: arg_cong [of _ _ length])
  next
    case (Cons x xs)
    then obtain y ys' where ys: "ys = y # ys'"
      by (cases ys) (auto simp: enc_string_def dest: arg_cong [of _ _ length])
    have "x = y \<and> concat (map enc_string xs) = concat (map enc_string ys')"
      using Cons.prems by (intro strc.prefix_free) (simp_all add: ys)
    with Cons ys show ?case by (simp add: small_def)
  qed
  with assms(3,4) show ?thesis by (simp add: enc wire_simps)
qed

theorem string_fields_unique_witness:
  "w_buf (fold write_string [lit ''ab'', []] writer_new)
     \<noteq> w_buf (fold write_string [lit ''a'', lit ''b''] writer_new)"
proof
  assume eq: "w_buf (fold write_string [lit ''ab'', []] writer_new)
     = w_buf (fold write_string [lit ''a'', lit ''b''] writer_new)"
  have "[lit ''ab'', []] = [lit ''a'', lit ''b'']"
    by (rule string_fields_unique [OF _ _ eq])
      (simp_all add: fits_u32_def wire_simps small_def USIZE_LIMIT_def)
  then show False by simp
qed

section \<open>Name lists\<close>

text \<open>
  Negotiation over a name-list written on the wire picks, of the names we offer in
  order of preference, the first one the peer's list contains, and nothing when there is none.
\<close>

theorem name_list_negotiation:
  assumes "\<forall>n \<in> set theirs. plain_name n" "fits_u32 (join_comma theirs)"
  shows "\<exists>nl. name_list_read (reader_new (into_vec (write_string (join_comma theirs) writer_new)))
               = Ok (nl, rd_at (enc_string nl) [])
       \<and> name_list_iter nl = theirs
       \<and> name_list_negotiate ours nl = find (\<lambda>n. n \<in> set theirs) ours"
proof -
  have "small (enc_string (join_comma theirs))"
    using assms(2) by (simp add: fits_u32_def small_def USIZE_LIMIT_def)
  then have "name_list_read (reader_new (into_vec (write_string (join_comma theirs) writer_new)))
      = Ok (join_comma theirs, rd_at (enc_string (join_comma theirs)) [])"
    unfolding name_list_read_def using strc.round_trip assms(2) by simp
  moreover have iter: "name_list_iter (join_comma theirs) = theirs"
    using assms(1) by (rule name_list_iter_join)
  moreover have "name_list_negotiate ours (join_comma theirs) = find (\<lambda>n. n \<in> set theirs) ours"
    by (induction ours) (simp_all add: iter)
  ultimately show ?thesis by blast
qed

theorem name_list_negotiation_witness:
  "\<exists>nl. name_list_read (reader_new (into_vec (write_string (join_comma [lit ''a'', lit ''b'']) writer_new)))
          = Ok (nl, rd_at (enc_string nl) [])
      \<and> name_list_iter nl = [lit ''a'', lit ''b'']
      \<and> name_list_negotiate [lit ''c'', lit ''b'', lit ''a''] nl = Some (lit ''b'')"
  using name_list_negotiation [of "[lit ''a'', lit ''b'']" "[lit ''c'', lit ''b'', lit ''a'']"]
  by (simp add: plain_name_def fits_u32_def lit_def of_char_def)

section \<open>Message bodies\<close>

text \<open>
  Every well-formed channel type, channel request and global request is decoded from its
  own name and encoded body to the same value; whatever a decoder accepts has the name it was asked
  for; and no name and body makes a decoder panic.
\<close>

theorem message_bodies_round_trip:
  "(channel_open_wf k \<and> small (w_buf (encode_tail k writer_new)) \<longrightarrow>
      channel_open_decode (channel_open_kind k) (w_buf (encode_tail k writer_new)) = Ok k)
 \<and> (channel_request_wf q \<and> small (w_buf (channel_request_encode q writer_new)) \<longrightarrow>
      channel_request_decode (channel_request_name q) (w_buf (channel_request_encode q writer_new)) = Ok q)
 \<and> (global_request_wf g \<and> small (w_buf (global_request_encode g writer_new)) \<longrightarrow>
      global_request_decode (global_request_name g) (w_buf (global_request_encode g writer_new)) = Ok g)
 \<and> (\<forall>k'. channel_open_decode n b = Ok k' \<longrightarrow> channel_open_kind k' = n)
 \<and> (\<forall>q'. channel_request_decode n b = Ok q' \<longrightarrow> channel_request_name q' = n)
 \<and> (\<forall>g'. global_request_decode n b = Ok g' \<longrightarrow> global_request_name g' = n)
 \<and> channel_open_decode n b \<noteq> Panic \<and> channel_request_decode n b \<noteq> Panic
 \<and> global_request_decode n b \<noteq> Panic"
  by (simp add: openb.bdec_benc reqb.bdec_benc globb.bdec_benc openb.bdec_safe reqb.bdec_safe
      globb.bdec_safe openb.bdec_bname reqb.bdec_bname globb.bdec_bname)

theorem message_bodies_round_trip_witness:
  "channel_request_decode (lit ''exec'') (enc_string (lit ''ls'')) = Ok (Exec (lit ''ls''))
   \<and> channel_open_decode (lit ''tun@openssh.com'') (u32_to_be 1 @ u32_to_be 2) = Ok (Tun 1 2)
   \<and> global_request_decode (lit ''tcpip-forward'') (enc_string (lit ''h'') @ u32_to_be 22)
       = Ok (TcpipForward (lit ''h'') 22)"
  using message_bodies_round_trip [of "Tun 1 2" "Exec (lit ''ls'')" "TcpipForward (lit ''h'') 22"]
  by (simp add: text_ok_lit wire_simps small_def USIZE_LIMIT_def)

end
