(* ===== verification/Suites.thy ===== *)
theory Suites
  imports Wire
begin

text \<open>
  The catalogues of cipher suites (src/src/hazmat/cipher/mod.rs) and MACs (src/src/hazmat/mac/mod.rs)
  and the MAC objects. The hash and MAC primitives belong to the purecrypto crate; \<open>mac_prims\<close>
  holds them as functions, an argument of every definition that uses them. What the code relies on
  is the length of their outputs: \<open>mac_prims_ok\<close>.
\<close>

section \<open>Cipher suites (cipher/mod.rs)\<close>

record cipher_spec =
  cs_name :: rust_str
  cs_key_len :: nat
  cs_iv_len :: nat
  cs_block_size :: nat
  cs_aead :: bool
  cs_tag_len :: nat

definition cipher_spec_of :: "string \<Rightarrow> nat \<Rightarrow> nat \<Rightarrow> nat \<Rightarrow> bool \<Rightarrow> nat \<Rightarrow> cipher_spec" where
  "cipher_spec_of n k i b a t = \<lparr>cs_name = lit n, cs_key_len = k, cs_iv_len = i,
     cs_block_size = b, cs_aead = a, cs_tag_len = t\<rparr>"

definition ALL_CIPHERS :: "cipher_spec list" where
  "ALL_CIPHERS =
    [cipher_spec_of ''chacha20-poly1305@openssh.com'' 64 0 8 True 16,
     cipher_spec_of ''aes256-gcm@openssh.com'' 32 12 16 True 16,
     cipher_spec_of ''aes128-gcm@openssh.com'' 16 12 16 True 16,
     cipher_spec_of ''aes256-ctr'' 32 16 16 False 0,
     cipher_spec_of ''aes192-ctr'' 24 16 16 False 0,
     cipher_spec_of ''aes128-ctr'' 16 16 16 False 0,
     cipher_spec_of ''aes128-cbc'' 16 16 16 False 0,
     cipher_spec_of ''aes192-cbc'' 24 16 16 False 0,
     cipher_spec_of ''aes256-cbc'' 32 16 16 False 0,
     cipher_spec_of ''3des-cbc'' 24 8 8 False 0]"

definition cipher_spec_by_name :: "rust_str \<Rightarrow> cipher_spec option" where
  "cipher_spec_by_name name = find (\<lambda>c. cs_name c = name) ALL_CIPHERS"

section \<open>MAC suites (mac/mod.rs)\<close>

record mac_spec =
  ms_name :: rust_str
  ms_key_len :: nat
  ms_tag_len :: nat
  ms_etm :: bool

definition mac_spec_of :: "string \<Rightarrow> nat \<Rightarrow> nat \<Rightarrow> bool \<Rightarrow> mac_spec" where
  "mac_spec_of n k t e = \<lparr>ms_name = lit n, ms_key_len = k, ms_tag_len = t, ms_etm = e\<rparr>"

definition ALL_MACS :: "mac_spec list" where
  "ALL_MACS =
    [mac_spec_of ''umac-64-etm@openssh.com'' 16 8 True,
     mac_spec_of ''umac-128-etm@openssh.com'' 16 16 True,
     mac_spec_of ''hmac-sha2-256-etm@openssh.com'' 32 32 True,
     mac_spec_of ''hmac-sha2-512-etm@openssh.com'' 64 64 True,
     mac_spec_of ''hmac-sha1-etm@openssh.com'' 20 20 True,
     mac_spec_of ''umac-64@openssh.com'' 16 8 False,
     mac_spec_of ''umac-128@openssh.com'' 16 16 False,
     mac_spec_of ''hmac-sha2-256'' 32 32 False,
     mac_spec_of ''hmac-sha2-512'' 64 64 False,
     mac_spec_of ''hmac-sha1'' 20 20 False,
     mac_spec_of ''hmac-sha1-96-etm@openssh.com'' 20 12 True,
     mac_spec_of ''hmac-md5-etm@openssh.com'' 16 16 True,
     mac_spec_of ''hmac-md5-96-etm@openssh.com'' 16 12 True,
     mac_spec_of ''hmac-sha1-96'' 20 12 False,
     mac_spec_of ''hmac-md5'' 16 16 False,
     mac_spec_of ''hmac-md5-96'' 16 12 False]"

definition mac_spec_by_name :: "rust_str \<Rightarrow> mac_spec option" where
  "mac_spec_by_name name = find (\<lambda>m. ms_name m = name) ALL_MACS"

section \<open>MAC objects\<close>

datatype digest = Md5 | Sha1 | Sha256 | Sha512

text \<open>The primitives of purecrypto: HMAC of a key and a message, UMAC of a key, a nonce and a message.\<close>

record mac_prims =
  hmac :: "digest \<Rightarrow> bytes \<Rightarrow> bytes \<Rightarrow> bytes"
  umac64 :: "bytes \<Rightarrow> bytes \<Rightarrow> bytes \<Rightarrow> bytes"
  umac128 :: "bytes \<Rightarrow> bytes \<Rightarrow> bytes \<Rightarrow> bytes"

fun digest_len :: "digest \<Rightarrow> nat" where
  "digest_len Md5 = 16"
| "digest_len Sha1 = 20"
| "digest_len Sha256 = 32"
| "digest_len Sha512 = 64"

definition mac_prims_ok :: "mac_prims \<Rightarrow> bool" where
  "mac_prims_ok P \<longleftrightarrow>
     (\<forall>d k x. length (hmac P d k x) = digest_len d)
   \<and> (\<forall>k n x. length (umac64 P k n x) = 8) \<and> (\<forall>k n x. length (umac128 P k n x) = 16)"

text \<open>The two implementations of the trait \<open>SshMac\<close>; \<open>Umac\<close> is the enum inside \<open>UmacMac\<close>.\<close>

datatype umac_kind = U64 | U128

datatype ssh_mac =
    HmacMac digest bytes nat bool
  | UmacMac umac_kind bytes bool

fun mac_tag_len :: "ssh_mac \<Rightarrow> nat" where
  "mac_tag_len (HmacMac _ _ n _) = n"
| "mac_tag_len (UmacMac U64 _ _) = 8"
| "mac_tag_len (UmacMac U128 _ _) = 16"

fun mac_etm :: "ssh_mac \<Rightarrow> bool" where
  "mac_etm (HmacMac _ _ _ e) = e"
| "mac_etm (UmacMac _ _ e) = e"

definition ct_eq :: "bytes \<Rightarrow> bytes \<Rightarrow> bool" where
  "ct_eq a b \<longleftrightarrow> length a = length b \<and>
     fold (\<lambda>(x, y) acc. or acc (xor x y)) (zip a b) (0 :: u8) = 0"

definition hmac_tag :: "mac_prims \<Rightarrow> digest \<Rightarrow> bytes \<Rightarrow> u32 \<Rightarrow> bytes \<Rightarrow> bytes" where
  "hmac_tag P d key seq msg = hmac P d key (u32_to_be seq @ msg)"

fun umac_tag :: "mac_prims \<Rightarrow> umac_kind \<Rightarrow> bytes \<Rightarrow> u32 \<Rightarrow> bytes \<Rightarrow> bytes" where
  "umac_tag P U64 key seq msg = umac64 P key (u64_to_be (ucast seq)) msg"
| "umac_tag P U128 key seq msg = umac128 P key (u64_to_be (ucast seq)) msg"

text \<open>
  \<open>compute\<close> fills a caller's buffer of a given length; a buffer of another length than the tag is
  an error. \<open>copy_from_slice\<close> panics when the lengths differ.
\<close>

fun mac_compute :: "mac_prims \<Rightarrow> ssh_mac \<Rightarrow> u32 \<Rightarrow> bytes \<Rightarrow> nat \<Rightarrow> bytes res" where
  "mac_compute P (HmacMac d key n e) seq msg out_len =
     (if out_len \<noteq> n then Err (Crypto ''hmac: tag buffer has the wrong length'')
      else slice_res (hmac_tag P d key seq msg) 0 n)"
| "mac_compute P (UmacMac k key e) seq msg out_len =
     (if out_len \<noteq> mac_tag_len (UmacMac k key e)
      then Err (Crypto ''umac: tag buffer has the wrong length'')
      else if length (umac_tag P k key seq msg) \<noteq> out_len then Panic
      else Ok (umac_tag P k key seq msg))"

fun mac_verify :: "mac_prims \<Rightarrow> ssh_mac \<Rightarrow> u32 \<Rightarrow> bytes \<Rightarrow> bytes \<Rightarrow> unit res" where
  "mac_verify P (HmacMac d key n e) seq msg tag =
     (if length tag = n
      then bind_res (slice_res (hmac_tag P d key seq msg) 0 n) (\<lambda>t.
             if ct_eq t tag then Ok () else Err BadMac)
      else Err BadMac)"
| "mac_verify P (UmacMac k key e) seq msg tag =
     (if length (umac_tag P k key seq msg) \<noteq> mac_tag_len (UmacMac k key e) then Panic
      else if ct_eq (umac_tag P k key seq msg) tag then Ok () else Err BadMac)"

text \<open>\<open>strip_suffix\<close> and \<open>starts_with\<close> of the standard library.\<close>

definition strip_suffix :: "'a list \<Rightarrow> 'a list \<Rightarrow> 'a list option" where
  "strip_suffix suf s =
     (if length suf \<le> length s \<and> drop (length s - length suf) s = suf
      then Some (take (length s - length suf) s) else None)"

definition starts_with :: "'a list \<Rightarrow> 'a list \<Rightarrow> bool" where
  "starts_with pre s \<longleftrightarrow> take (length pre) s = pre"

definition mac_base_name :: "rust_str \<Rightarrow> rust_str" where
  "mac_base_name name =
     (case strip_suffix (lit ''-etm@openssh.com'') name of None \<Rightarrow> name | Some b \<Rightarrow> b)"

definition mac_by_name :: "rust_str \<Rightarrow> bytes \<Rightarrow> ssh_mac option" where
  "mac_by_name name key =
     (case mac_spec_by_name name of
        None \<Rightarrow> None
      | Some spec \<Rightarrow>
          if length key \<noteq> ms_key_len spec then None
          else
            let tag_len = ms_tag_len spec; etm = ms_etm spec; base = mac_base_name name in
            if base = lit ''hmac-sha2-256'' then Some (HmacMac Sha256 key tag_len etm)
            else if base = lit ''hmac-sha2-512'' then Some (HmacMac Sha512 key tag_len etm)
            else if base = lit ''hmac-sha1'' \<or> base = lit ''hmac-sha1-96''
            then Some (HmacMac Sha1 key tag_len etm)
            else if base = lit ''hmac-md5'' \<or> base = lit ''hmac-md5-96''
            then Some (HmacMac Md5 key tag_len etm)
            else if base = lit ''umac-64'' \<or> base = lit ''umac-64@openssh.com''
                  \<or> base = lit ''umac-128'' \<or> base = lit ''umac-128@openssh.com''
            then if length key \<noteq> 16 then None
                 else if starts_with (lit ''umac-64'') base then Some (UmacMac U64 key etm)
                 else Some (UmacMac U128 key etm)
            else None)"

section \<open>Constant-time comparison is comparison\<close>

lemma fold_or_zero:
  "fold (\<lambda>(x, y) acc. or acc (xor x y)) ps (z :: 'a::len word) = 0 \<longleftrightarrow>
     z = 0 \<and> (\<forall>(x, y) \<in> set ps. x = y)"
proof (induction ps arbitrary: z)
  case Nil
  then show ?case by simp
next
  case (Cons p ps)
  obtain x y where p: "p = (x, y)" by (cases p)
  have "or z (xor x y) = 0 \<longleftrightarrow> z = 0 \<and> x = y"
    by (auto simp: or_eq_0_iff bit_eq_iff bit_simps)
  with Cons.IH [of "or z (xor x y)"] show ?case by (auto simp: p)
qed

lemma ct_eq_eq: "ct_eq a b \<longleftrightarrow> a = b"
proof -
  have "a = b" if "length a = length b" "\<forall>(x, y) \<in> set (zip a b). x = y"
    using that by (induction a b rule: list_induct2) auto
  then show ?thesis by (auto simp: ct_eq_def fold_or_zero zip_same_conv_map)
qed

section \<open>The MAC objects of the catalogue\<close>

lemma inj_of_char_u8: "inj (of_char :: char \<Rightarrow> u8)"
  by (simp add: inj_def)

lemma strip_suffix_lit [simp]: "strip_suffix (lit a) (lit b) = map_option lit (strip_suffix a b)"
  by (simp add: strip_suffix_def lit_def drop_map take_map inj_map_eq_map [OF inj_of_char_u8])

lemma starts_with_lit [simp]: "starts_with (lit a) (lit b) = starts_with a b"
  by (simp add: starts_with_def lit_def take_map inj_map_eq_map [OF inj_of_char_u8])

lemma mac_base_name_lit: "mac_base_name (lit n) =
    lit (case strip_suffix ''-etm@openssh.com'' n of None \<Rightarrow> n | Some b \<Rightarrow> b)"
  by (simp add: mac_base_name_def split: option.split)

fun mac_wf :: "ssh_mac \<Rightarrow> bool" where
  "mac_wf (HmacMac d _ n _) = (n \<le> digest_len d)"
| "mac_wf (UmacMac _ _ _) = True"

lemma umac_tag_length: "mac_prims_ok P \<Longrightarrow> length (umac_tag P k key seq msg) = mac_tag_len (UmacMac k key e)"
  by (cases k) (simp_all add: mac_prims_ok_def)

text \<open>The trait's contract: a tag of the announced length, and exactly that tag verifies.\<close>

lemma mac_contract:
  assumes "mac_prims_ok P" "mac_wf m"
  obtains t where "mac_compute P m seq msg (mac_tag_len m) = Ok t" "length t = mac_tag_len m"
    "\<And>tag. mac_verify P m seq msg tag = (if tag = t then Ok () else Err BadMac)"
proof (cases m)
  case (HmacMac d key n e)
  have "length (hmac_tag P d key seq msg) = digest_len d"
    using assms(1) by (simp add: mac_prims_ok_def hmac_tag_def)
  then show ?thesis
    using assms(2) that [of "take n (hmac_tag P d key seq msg)"]
    by (auto simp: HmacMac slice_res_def ct_eq_eq)
next
  case (UmacMac k key e)
  then show ?thesis
    using that [of "umac_tag P k key seq msg"] umac_tag_length [OF assms(1)]
    by (auto simp: ct_eq_eq)
qed

lemma find_by_key:
  "distinct (map f xs) \<Longrightarrow> x \<in> set xs \<Longrightarrow> find (\<lambda>y. f y = f x) xs = Some x"
  by (induction xs) (auto simp: rev_image_eqI)

lemma find_SomeD: "find P xs = Some x \<Longrightarrow> x \<in> set xs \<and> P x"
  by (induction xs) (auto split: if_splits)

lemma umac_prefixes:
  "starts_with (lit ''umac-64'') (lit ''umac-64'')"
  "starts_with (lit ''umac-64'') (lit ''umac-64@openssh.com'')"
  "\<not> starts_with (lit ''umac-64'') (lit ''umac-128'')"
  "\<not> starts_with (lit ''umac-64'') (lit ''umac-128@openssh.com'')"
  unfolding starts_with_lit by (simp_all add: starts_with_def)

lemma mac_names_distinct: "distinct (map ms_name ALL_MACS)"
  by (simp add: ALL_MACS_def mac_spec_of_def)

text \<open>The base name of a suite decides the primitive; the tag fits into its output.\<close>

definition mac_kind_ok :: "mac_spec \<Rightarrow> bool" where
  "mac_kind_ok spec \<longleftrightarrow> (let b = mac_base_name (ms_name spec); n = ms_tag_len spec in
      b = lit ''hmac-sha2-256'' \<and> n \<le> 32 \<or> b = lit ''hmac-sha2-512'' \<and> n \<le> 64
    \<or> (b = lit ''hmac-sha1'' \<or> b = lit ''hmac-sha1-96'') \<and> n \<le> 20
    \<or> (b = lit ''hmac-md5'' \<or> b = lit ''hmac-md5-96'') \<and> n \<le> 16
    \<or> (b = lit ''umac-64'' \<or> b = lit ''umac-64@openssh.com'') \<and> n = 8 \<and> ms_key_len spec = 16
    \<or> (b = lit ''umac-128'' \<or> b = lit ''umac-128@openssh.com'') \<and> n = 16 \<and> ms_key_len spec = 16)"

lemma mac_kinds_ok: "spec \<in> set ALL_MACS \<Longrightarrow> mac_kind_ok spec"
proof -
  have "\<forall>spec \<in> set ALL_MACS. mac_kind_ok spec"
    by (simp add: ALL_MACS_def mac_spec_of_def mac_kind_ok_def mac_base_name_lit strip_suffix_def
        Let_def)
  then show "spec \<in> set ALL_MACS \<Longrightarrow> mac_kind_ok spec" by blast
qed

lemma mac_by_name_catalogue:
  assumes "spec \<in> set ALL_MACS" "length (key :: bytes) = ms_key_len spec"
  obtains m where "mac_by_name (ms_name spec) key = Some m" "mac_tag_len m = ms_tag_len spec"
    "mac_etm m = ms_etm spec" "mac_wf m"
proof -
  have "mac_spec_by_name (ms_name spec) = Some spec"
    unfolding mac_spec_by_name_def by (rule find_by_key [OF mac_names_distinct assms(1)])
  with mac_kinds_ok [OF assms(1)] assms(2) that show ?thesis
    by (auto simp: mac_by_name_def mac_kind_ok_def Let_def umac_prefixes simp del: starts_with_lit)
qed

text \<open>
  Every MAC in the catalogue can be built from a key of the catalogue's length, and the
  object it yields has the catalogue's tag length and mode; it computes a tag of exactly that
  length on every input without panicking (the truncation never exceeds the digest), and
  verification accepts that tag and answers \<open>BadMac\<close> to every other byte string. A name outside
  the catalogue or a key of another length yields no object.
\<close>

theorem mac_catalogue_sound:
  assumes "mac_prims_ok P"
  shows "(\<forall>spec \<in> set ALL_MACS. \<forall>key :: bytes. length key = ms_key_len spec \<longrightarrow>
           (\<exists>m. mac_by_name (ms_name spec) key = Some m \<and> mac_tag_len m = ms_tag_len spec
              \<and> mac_etm m = ms_etm spec
              \<and> (\<forall>seq msg. \<exists>t. mac_compute P m seq msg (ms_tag_len spec) = Ok t
                    \<and> length t = ms_tag_len spec
                    \<and> (\<forall>tag. mac_verify P m seq msg tag = (if tag = t then Ok () else Err BadMac)))))
       \<and> (\<forall>name key. mac_by_name name key \<noteq> None \<longrightarrow>
           (\<exists>spec \<in> set ALL_MACS. ms_name spec = name \<and> length key = ms_key_len spec))"
proof (intro conjI ballI allI impI)
  fix spec and key :: bytes
  assume "spec \<in> set ALL_MACS" "length key = ms_key_len spec"
  then obtain m where m: "mac_by_name (ms_name spec) key = Some m" "mac_tag_len m = ms_tag_len spec"
    "mac_etm m = ms_etm spec" "mac_wf m" by (rule mac_by_name_catalogue)
  have "\<exists>t. mac_compute P m seq msg (ms_tag_len spec) = Ok t \<and> length t = ms_tag_len spec
      \<and> (\<forall>tag. mac_verify P m seq msg tag = (if tag = t then Ok () else Err BadMac))" for seq msg
    using mac_contract [OF assms m(4), of seq msg] m(2) by metis
  with m(1-3) show "\<exists>m. mac_by_name (ms_name spec) key = Some m \<and> mac_tag_len m = ms_tag_len spec
      \<and> mac_etm m = ms_etm spec
      \<and> (\<forall>seq msg. \<exists>t. mac_compute P m seq msg (ms_tag_len spec) = Ok t
            \<and> length t = ms_tag_len spec
            \<and> (\<forall>tag. mac_verify P m seq msg tag = (if tag = t then Ok () else Err BadMac)))"
    by blast
next
  fix name key
  assume "mac_by_name name key \<noteq> None"
  then obtain spec where "mac_spec_by_name name = Some spec" "length key = ms_key_len spec"
    by (auto simp: mac_by_name_def split: option.splits if_splits)
  then show "\<exists>spec \<in> set ALL_MACS. ms_name spec = name \<and> length key = ms_key_len spec"
    by (auto simp: mac_spec_by_name_def dest!: find_SomeD)
qed

text \<open>A stand-in for the primitives, to run the definitions on: tags cut out of the input.\<close>

definition cut :: "nat \<Rightarrow> bytes \<Rightarrow> bytes" where
  "cut n xs = take n (xs @ replicate 64 0)"

lemma length_cut: "n \<le> 64 \<Longrightarrow> length (cut n xs) = n"
  by (simp add: cut_def)

definition toy_macs :: mac_prims where
  "toy_macs = \<lparr>hmac = \<lambda>d k x. cut (digest_len d) (k @ x),
     umac64 = \<lambda>k n x. cut 8 (n @ x), umac128 = \<lambda>k n x. cut 16 (n @ x)\<rparr>"

lemma toy_macs_ok: "mac_prims_ok toy_macs"
proof -
  have "digest_len d \<le> 64" for d by (cases d) simp_all
  then show ?thesis by (simp add: mac_prims_ok_def toy_macs_def length_cut)
qed

theorem mac_catalogue_sound_witness:
  "mac_prims_ok toy_macs \<and>
   (\<exists>m. mac_by_name (lit ''hmac-md5-96'') (replicate 16 1) = Some m \<and> mac_tag_len m = 12 \<and>
      (\<exists>t. mac_compute toy_macs m 5 [9] 12 = Ok t \<and> mac_verify toy_macs m 5 [9] t = Ok ()
         \<and> mac_verify toy_macs m 5 [9] [] = Err BadMac))"
proof -
  let ?spec = "mac_spec_of ''hmac-md5-96'' 16 12 False" and ?key = "replicate 16 1 :: bytes"
  have spec: "?spec \<in> set ALL_MACS" by (simp add: ALL_MACS_def)
  have len: "length ?key = ms_key_len ?spec" by (simp add: mac_spec_of_def)
  have geometry: "ms_name ?spec = lit ''hmac-md5-96''" "ms_tag_len ?spec = 12"
    by (simp_all add: mac_spec_of_def)
  obtain m where m: "mac_by_name (lit ''hmac-md5-96'') ?key = Some m" "mac_tag_len m = 12"
    and t: "\<exists>t. mac_compute toy_macs m 5 [9] 12 = Ok t \<and> length t = 12
       \<and> (\<forall>tag. mac_verify toy_macs m 5 [9] tag = (if tag = t then Ok () else Err BadMac))"
    using bspec [OF conjunct1 [OF mac_catalogue_sound [OF toy_macs_ok]] spec] len
    unfolding geometry by blast
  from t obtain t where t: "mac_compute toy_macs m 5 [9] 12 = Ok t" "length t = 12"
    "\<forall>tag. mac_verify toy_macs m 5 [9] tag = (if tag = t then Ok () else Err BadMac)" by blast
  then have "mac_verify toy_macs m 5 [9] t = Ok ()" "mac_verify toy_macs m 5 [9] [] = Err BadMac"
    by auto
  with t(1) m toy_macs_ok show ?thesis by blast
qed

end
