(* ===== verification/Ciphers.thy ===== *)
theory Ciphers
  imports Suites
begin

text \<open>
  The cipher states (src/src/hazmat/cipher): \<open>SshCipher\<close> and the adapters behind it, AES-CTR
  (ctr.rs), CBC (cbc.rs), AES-GCM with its invocation counter (gcm.rs) and
  chacha20-poly1305@openssh.com (chachapoly.rs). The block ciphers, GCM, ChaCha20 and Poly1305
  belong to the purecrypto crate; \<open>cipher_prims\<close> holds them as functions, an argument of every
  definition that uses them, and \<open>cipher_prims_ok\<close> states the documented behaviour the code relies
  on: decryption inverts encryption and leaves the state encryption left, whole blocks chain, and
  outputs have their lengths. The type \<open>'s\<close> is the running state of a CTR or CBC object.
\<close>

section \<open>Primitives\<close>

datatype cbc_alg = CbcAes128 | CbcAes192 | CbcAes256 | CbcTdes

record 's cipher_prims =
  ctr_new :: "nat \<Rightarrow> bytes \<Rightarrow> bytes \<Rightarrow> 's"
  ctr_apply :: "nat \<Rightarrow> 's \<Rightarrow> bytes \<Rightarrow> bytes \<times> 's"
  cbc_new :: "cbc_alg \<Rightarrow> bytes \<Rightarrow> bytes \<Rightarrow> 's"
  cbc_enc :: "cbc_alg \<Rightarrow> 's \<Rightarrow> bytes \<Rightarrow> (bytes \<times> 's) option"
  cbc_dec :: "cbc_alg \<Rightarrow> 's \<Rightarrow> bytes \<Rightarrow> (bytes \<times> 's) option"
  gcm_enc :: "nat \<Rightarrow> bytes \<Rightarrow> bytes \<Rightarrow> bytes \<Rightarrow> bytes \<Rightarrow> bytes \<times> bytes"
  gcm_dec :: "nat \<Rightarrow> bytes \<Rightarrow> bytes \<Rightarrow> bytes \<Rightarrow> bytes \<Rightarrow> bytes \<Rightarrow> bytes option"
  chacha_xor :: "bytes \<Rightarrow> bytes \<Rightarrow> nat \<Rightarrow> bytes \<Rightarrow> bytes"
  chacha_block :: "bytes \<Rightarrow> bytes \<Rightarrow> nat \<Rightarrow> bytes"
  poly1305 :: "bytes \<Rightarrow> bytes \<Rightarrow> bytes"

fun cbc_block :: "cbc_alg \<Rightarrow> nat" where
  "cbc_block CbcTdes = 8"
| "cbc_block _ = 16"

definition ctr_ok :: "'s cipher_prims \<Rightarrow> bool" where
  "ctr_ok P \<longleftrightarrow>
     (\<forall>k s b c s'. ctr_apply P k s b = (c, s') \<longrightarrow> length c = length b \<and> ctr_apply P k s c = (b, s'))
   \<and> (\<forall>k s a b. ctr_apply P k s (a @ b) =
        (case ctr_apply P k s a of (ca, s1) \<Rightarrow> case ctr_apply P k s1 b of (cb, s2) \<Rightarrow> (ca @ cb, s2)))"

definition cbc_ok :: "'s cipher_prims \<Rightarrow> bool" where
  "cbc_ok P \<longleftrightarrow>
     (\<forall>alg s b. cbc_block alg dvd length b \<longrightarrow>
        (\<exists>c s'. cbc_enc P alg s b = Some (c, s') \<and> length c = length b \<and> cbc_dec P alg s c = Some (b, s')))
   \<and> (\<forall>alg s b. \<not> cbc_block alg dvd length b \<longrightarrow> cbc_enc P alg s b = None)
   \<and> (\<forall>alg s b c s'. cbc_dec P alg s b = Some (c, s') \<longrightarrow> length c = length b)
   \<and> (\<forall>alg s a b. cbc_block alg dvd length a \<longrightarrow> cbc_block alg dvd length b \<longrightarrow>
        cbc_dec P alg s (a @ b) =
          (case cbc_dec P alg s a of
             None \<Rightarrow> None
           | Some (pa, s1) \<Rightarrow>
               (case cbc_dec P alg s1 b of None \<Rightarrow> None | Some (pb, s2) \<Rightarrow> Some (pa @ pb, s2))))"

definition gcm_ok :: "'s cipher_prims \<Rightarrow> bool" where
  "gcm_ok P \<longleftrightarrow>
     (\<forall>k key n aad p c t. gcm_enc P k key n aad p = (c, t) \<longrightarrow> length c = length p \<and> length t = 16)
   \<and> (\<forall>k key n aad p c t. gcm_dec P k key n aad c t = Some p \<longleftrightarrow> gcm_enc P k key n aad p = (c, t))"

definition chacha_ok :: "'s cipher_prims \<Rightarrow> bool" where
  "chacha_ok P \<longleftrightarrow>
     (\<forall>key n i b. length (chacha_xor P key n i b) = length b
        \<and> chacha_xor P key n i (chacha_xor P key n i b) = b)
   \<and> (\<forall>key n i. length (chacha_block P key n i) = 64)
   \<and> (\<forall>key m. length (poly1305 P key m) = 16)"

definition cipher_prims_ok :: "'s cipher_prims \<Rightarrow> bool" where
  "cipher_prims_ok P \<longleftrightarrow> ctr_ok P \<and> cbc_ok P \<and> gcm_ok P \<and> chacha_ok P"

section \<open>AES-CTR (ctr.rs)\<close>

text \<open>The key size in bits stands for the enum's variant.\<close>

datatype 's aes_ctr = AesCtr nat 's

definition ctr_try_new :: "'s cipher_prims \<Rightarrow> nat \<Rightarrow> string \<Rightarrow> bytes \<Rightarrow> bytes \<Rightarrow> 's aes_ctr res" where
  "ctr_try_new P bits key_err key iv =
     (if length key * 8 \<noteq> bits then Err (Format key_err)
      else if length iv \<noteq> 16 then Err (Format ''aes-ctr iv len'')
      else Ok (AesCtr bits (ctr_new P bits key iv)))"

definition ctr_new_128 :: "'s cipher_prims \<Rightarrow> bytes \<Rightarrow> bytes \<Rightarrow> 's aes_ctr res" where
  "ctr_new_128 P = ctr_try_new P 128 ''aes128-ctr key len''"

definition ctr_new_192 :: "'s cipher_prims \<Rightarrow> bytes \<Rightarrow> bytes \<Rightarrow> 's aes_ctr res" where
  "ctr_new_192 P = ctr_try_new P 192 ''aes192-ctr key len''"

definition ctr_new_256 :: "'s cipher_prims \<Rightarrow> bytes \<Rightarrow> bytes \<Rightarrow> 's aes_ctr res" where
  "ctr_new_256 P = ctr_try_new P 256 ''aes256-ctr key len''"

fun apply_keystream :: "'s cipher_prims \<Rightarrow> 's aes_ctr \<Rightarrow> bytes \<Rightarrow> bytes \<times> 's aes_ctr" where
  "apply_keystream P (AesCtr k s) buf =
     (case ctr_apply P k s buf of (c, s') \<Rightarrow> (c, AesCtr k s'))"

section \<open>CBC (cbc.rs)\<close>

datatype 's cbc_state = CbcState cbc_alg 's

definition cbc_try_new :: "'s cipher_prims \<Rightarrow> cbc_alg \<Rightarrow> nat \<Rightarrow> string \<Rightarrow> string \<Rightarrow> bytes \<Rightarrow> bytes
    \<Rightarrow> 's cbc_state res" where
  "cbc_try_new P alg klen key_err iv_err key iv =
     (if length key \<noteq> klen then Err (Format key_err)
      else if length iv \<noteq> cbc_block alg then Err (Format iv_err)
      else Ok (CbcState alg (cbc_new P alg key iv)))"

definition cbc_state_new :: "'s cipher_prims \<Rightarrow> rust_str \<Rightarrow> bytes \<Rightarrow> bytes \<Rightarrow> 's cbc_state res" where
  "cbc_state_new P name key iv =
     (if name = lit ''aes128-cbc''
      then cbc_try_new P CbcAes128 16 ''aes128-cbc key len'' ''aes-cbc iv len'' key iv
      else if name = lit ''aes192-cbc''
      then cbc_try_new P CbcAes192 24 ''aes192-cbc key len'' ''aes-cbc iv len'' key iv
      else if name = lit ''aes256-cbc''
      then cbc_try_new P CbcAes256 32 ''aes256-cbc key len'' ''aes-cbc iv len'' key iv
      else if name = lit ''3des-cbc''
      then cbc_try_new P CbcTdes 24 ''3des-cbc key len'' ''3des-cbc iv len'' key iv
      else Err (Unsupported ''cipher''))"

fun cbc_block_size :: "'s cbc_state \<Rightarrow> nat" where
  "cbc_block_size (CbcState alg _) = cbc_block alg"

fun cbc_encrypt :: "'s cipher_prims \<Rightarrow> 's cbc_state \<Rightarrow> bytes \<Rightarrow> (bytes \<times> 's cbc_state) res" where
  "cbc_encrypt P (CbcState alg s) buf =
     (case cbc_enc P alg s buf of
        None \<Rightarrow> Err (Protocol ''CBC input not block-aligned'')
      | Some (c, s') \<Rightarrow> Ok (c, CbcState alg s'))"

fun cbc_decrypt :: "'s cipher_prims \<Rightarrow> 's cbc_state \<Rightarrow> bytes \<Rightarrow> (bytes \<times> 's cbc_state) res" where
  "cbc_decrypt P (CbcState alg s) buf =
     (case cbc_dec P alg s buf of
        None \<Rightarrow> Err (Protocol ''CBC input not block-aligned'')
      | Some (c, s') \<Rightarrow> Ok (c, CbcState alg s'))"

section \<open>AES-GCM (gcm.rs)\<close>

record gcm_state =
  g_bits :: nat
  g_key :: bytes
  g_fixed :: bytes
  invocation :: u64

definition split_iv :: "bytes \<Rightarrow> (bytes \<times> u64) res" where
  "split_iv iv =
     (if length iv \<noteq> 12 then Err (Format ''aes-gcm iv len'')
      else Ok (take 4 iv, u64_from_be (drop 4 iv)))"

definition gcm_new_128 :: "bytes \<Rightarrow> bytes \<Rightarrow> gcm_state res" where
  "gcm_new_128 key iv =
     (if length key \<noteq> 16 then Err (Format ''aes128-gcm key len'')
      else bind_res (split_iv iv) (\<lambda>(f, i).
             Ok \<lparr>g_bits = 128, g_key = key, g_fixed = f, invocation = i\<rparr>))"

definition gcm_new_256 :: "bytes \<Rightarrow> bytes \<Rightarrow> gcm_state res" where
  "gcm_new_256 key iv =
     (if length key \<noteq> 32 then Err (Format ''aes256-gcm key len'')
      else bind_res (split_iv iv) (\<lambda>(f, i).
             Ok \<lparr>g_bits = 256, g_key = key, g_fixed = f, invocation = i\<rparr>))"

definition gcm_nonce :: "gcm_state \<Rightarrow> bytes" where
  "gcm_nonce g = g_fixed g @ u64_to_be (invocation g)"

definition gcm_step :: "gcm_state \<Rightarrow> gcm_state res" where
  "gcm_step g =
     (if invocation g = - 1 then Err (Crypto ''aes-gcm invocation counter exhausted'')
      else Ok (g\<lparr>invocation := invocation g + 1\<rparr>))"

definition gcm_seal :: "'s cipher_prims \<Rightarrow> gcm_state \<Rightarrow> bytes \<Rightarrow> bytes \<Rightarrow> (bytes \<times> bytes \<times> gcm_state) res"
  where
  "gcm_seal P g aad payload =
     (case gcm_enc P (g_bits g) (g_key g) (gcm_nonce g) aad payload of
        (c, tag) \<Rightarrow> bind_res (gcm_step g) (\<lambda>g'. Ok (c, tag, g')))"

definition gcm_open :: "'s cipher_prims \<Rightarrow> gcm_state \<Rightarrow> bytes \<Rightarrow> bytes \<Rightarrow> bytes \<Rightarrow> (bytes \<times> gcm_state) res"
  where
  "gcm_open P g aad payload tag =
     (if length tag \<noteq> 16 then Err (Format ''aes-gcm tag len'')
      else case gcm_dec P (g_bits g) (g_key g) (gcm_nonce g) aad payload tag of
             None \<Rightarrow> Err BadTag
           | Some p \<Rightarrow> bind_res (gcm_step g) (\<lambda>g'. Ok (p, g')))"

section \<open>chacha20-poly1305@openssh.com (chachapoly.rs)\<close>

record cp_state =
  payload_key :: bytes
  length_key :: bytes

definition cp_new :: "bytes \<Rightarrow> cp_state res" where
  "cp_new key =
     (if length key \<noteq> 64 then Err (Format ''chacha20-poly1305 key len'')
      else Ok \<lparr>payload_key = take 32 key, length_key = drop 32 key\<rparr>)"

definition cp_nonce :: "u64 \<Rightarrow> bytes" where
  "cp_nonce seq = replicate 4 0 @ u64_to_be seq"

definition xor_length :: "'s cipher_prims \<Rightarrow> cp_state \<Rightarrow> u64 \<Rightarrow> bytes \<Rightarrow> bytes" where
  "xor_length P c seq buf = chacha_xor P (length_key c) (cp_nonce seq) 0 buf"

definition xor_payload :: "'s cipher_prims \<Rightarrow> cp_state \<Rightarrow> u64 \<Rightarrow> bytes \<Rightarrow> bytes" where
  "xor_payload P c seq buf = chacha_xor P (payload_key c) (cp_nonce seq) 1 buf"

definition cp_tag_of :: "'s cipher_prims \<Rightarrow> cp_state \<Rightarrow> u64 \<Rightarrow> bytes \<Rightarrow> bytes \<Rightarrow> bytes" where
  "cp_tag_of P c seq enc_len enc_payload =
     poly1305 P (take 32 (chacha_block P (payload_key c) (cp_nonce seq) 0)) (enc_len @ enc_payload)"

definition cp_verify :: "'s cipher_prims \<Rightarrow> cp_state \<Rightarrow> u64 \<Rightarrow> bytes \<Rightarrow> bytes \<Rightarrow> bytes \<Rightarrow> unit res"
  where
  "cp_verify P c seq enc_len enc_payload tag =
     (if length tag \<noteq> 16 then Err (Format ''chacha20-poly1305 tag len'')
      else if cp_tag_of P c seq enc_len enc_payload = tag then Ok () else Err BadTag)"

section \<open>SshCipher (cipher/mod.rs)\<close>

datatype 's ssh_cipher =
    Ctr "'s aes_ctr"
  | Gcm gcm_state
  | Cbc "'s cbc_state"
  | ChaChaPoly cp_state

definition ssh_cipher_new :: "'s cipher_prims \<Rightarrow> rust_str \<Rightarrow> bytes \<Rightarrow> bytes \<Rightarrow> 's ssh_cipher res"
  where
  "ssh_cipher_new P name key iv =
     (if name = lit ''aes128-ctr'' then map_res Ctr (ctr_new_128 P key iv)
      else if name = lit ''aes192-ctr'' then map_res Ctr (ctr_new_192 P key iv)
      else if name = lit ''aes256-ctr'' then map_res Ctr (ctr_new_256 P key iv)
      else if name = lit ''aes128-gcm@openssh.com'' then map_res Gcm (gcm_new_128 key iv)
      else if name = lit ''aes256-gcm@openssh.com'' then map_res Gcm (gcm_new_256 key iv)
      else if name = lit ''chacha20-poly1305@openssh.com'' then map_res ChaChaPoly (cp_new key)
      else if name = lit ''aes128-cbc'' \<or> name = lit ''aes192-cbc'' \<or> name = lit ''aes256-cbc''
            \<or> name = lit ''3des-cbc'' then map_res Cbc (cbc_state_new P name key iv)
      else Err (Unsupported ''cipher''))"

fun is_aead :: "'s ssh_cipher \<Rightarrow> bool" where
  "is_aead (Ctr _) = False"
| "is_aead (Cbc _) = False"
| "is_aead _ = True"

fun block_size :: "'s ssh_cipher \<Rightarrow> nat" where
  "block_size (Cbc c) = cbc_block_size c"
| "block_size _ = 16"

fun encrypts_length :: "'s ssh_cipher \<Rightarrow> bool" where
  "encrypts_length (Gcm _) = False"
| "encrypts_length _ = True"

fun stream :: "'s cipher_prims \<Rightarrow> 's ssh_cipher \<Rightarrow> bytes \<Rightarrow> (bytes \<times> 's ssh_cipher) res" where
  "stream P (Ctr c) buf = (case apply_keystream P c buf of (b, c') \<Rightarrow> Ok (b, Ctr c'))"
| "stream P _ buf = Err (Unsupported ''stream op on AEAD cipher'')"

fun encrypt_blocks :: "'s cipher_prims \<Rightarrow> 's ssh_cipher \<Rightarrow> bytes \<Rightarrow> (bytes \<times> 's ssh_cipher) res" where
  "encrypt_blocks P (Cbc c) buf = map_res (\<lambda>(b, c'). (b, Cbc c')) (cbc_encrypt P c buf)"
| "encrypt_blocks P c buf = stream P c buf"

fun decrypt_blocks :: "'s cipher_prims \<Rightarrow> 's ssh_cipher \<Rightarrow> bytes \<Rightarrow> (bytes \<times> 's ssh_cipher) res" where
  "decrypt_blocks P (Cbc c) buf = map_res (\<lambda>(b, c'). (b, Cbc c')) (cbc_decrypt P c buf)"
| "decrypt_blocks P c buf = stream P c buf"

fun aead_seal_len_aad ::
    "'s cipher_prims \<Rightarrow> 's ssh_cipher \<Rightarrow> bytes \<Rightarrow> bytes \<Rightarrow> (bytes \<times> bytes \<times> 's ssh_cipher) res" where
  "aead_seal_len_aad P (Gcm g) len payload =
     map_res (\<lambda>(c, tag, g'). (c, tag, Gcm g')) (gcm_seal P g len payload)"
| "aead_seal_len_aad P _ len payload = Err (Unsupported ''GCM seal on non-GCM cipher'')"

fun aead_open_len_aad ::
    "'s cipher_prims \<Rightarrow> 's ssh_cipher \<Rightarrow> bytes \<Rightarrow> bytes \<Rightarrow> bytes \<Rightarrow> (bytes \<times> 's ssh_cipher) res" where
  "aead_open_len_aad P (Gcm g) len payload tag =
     map_res (\<lambda>(p, g'). (p, Gcm g')) (gcm_open P g len payload tag)"
| "aead_open_len_aad P _ len payload tag = Err (Unsupported ''GCM open on non-GCM cipher'')"

fun cp_xor_length :: "'s cipher_prims \<Rightarrow> 's ssh_cipher \<Rightarrow> u64 \<Rightarrow> bytes \<Rightarrow> bytes res" where
  "cp_xor_length P (ChaChaPoly c) seq buf = Ok (xor_length P c seq buf)"
| "cp_xor_length P _ seq buf = Err (Unsupported ''chacha20-poly1305 op on other cipher'')"

fun cp_xor_payload :: "'s cipher_prims \<Rightarrow> 's ssh_cipher \<Rightarrow> u64 \<Rightarrow> bytes \<Rightarrow> bytes res" where
  "cp_xor_payload P (ChaChaPoly c) seq buf = Ok (xor_payload P c seq buf)"
| "cp_xor_payload P _ seq buf = Err (Unsupported ''chacha20-poly1305 op on other cipher'')"

fun cp_tag :: "'s cipher_prims \<Rightarrow> 's ssh_cipher \<Rightarrow> u64 \<Rightarrow> bytes \<Rightarrow> bytes \<Rightarrow> bytes res" where
  "cp_tag P (ChaChaPoly c) seq l p = Ok (cp_tag_of P c seq l p)"
| "cp_tag P _ seq l p = Err (Unsupported ''chacha20-poly1305 op on other cipher'')"

fun cp_verify_tag :: "'s cipher_prims \<Rightarrow> 's ssh_cipher \<Rightarrow> u64 \<Rightarrow> bytes \<Rightarrow> bytes \<Rightarrow> bytes \<Rightarrow> unit res" where
  "cp_verify_tag P (ChaChaPoly c) seq l p tag = cp_verify P c seq l p tag"
| "cp_verify_tag P _ seq l p tag = Err (Unsupported ''chacha20-poly1305 op on other cipher'')"

definition cipher_by_name ::
    "'s cipher_prims \<Rightarrow> rust_str \<Rightarrow> bytes \<Rightarrow> bytes \<Rightarrow> 's ssh_cipher res option" where
  "cipher_by_name P name key iv = map_option (\<lambda>_. ssh_cipher_new P name key iv) (cipher_spec_by_name name)"

section \<open>Block operations\<close>

lemma prims_okD: "cipher_prims_ok P \<Longrightarrow> ctr_ok P \<and> cbc_ok P \<and> gcm_ok P \<and> chacha_ok P"
  by (simp add: cipher_prims_ok_def)

lemma ctr_round:
  assumes "ctr_ok P"
  obtains e s' where "ctr_apply P k s b = (e, s')" "length e = length b" "ctr_apply P k s e = (b, s')"
proof (cases "ctr_apply P k s b")
  case (Pair e s')
  moreover from this have "length e = length b \<and> ctr_apply P k s e = (b, s')"
    using assms unfolding ctr_ok_def by blast
  ultimately show ?thesis using that by simp
qed

lemma ctr_length: "ctr_ok P \<Longrightarrow> ctr_apply P k s b = (e, s') \<Longrightarrow> length e = length b"
  by (metis ctr_round prod.inject)

lemma ctr_append:
  assumes "ctr_ok P" "ctr_apply P k s a = (ca, s1)" "ctr_apply P k s1 b = (cb, s2)"
  shows "ctr_apply P k s (a @ b) = (ca @ cb, s2)"
proof -
  have "ctr_apply P k s (a @ b) =
      (case ctr_apply P k s a of (ca, s1) \<Rightarrow> case ctr_apply P k s1 b of (cb, s2) \<Rightarrow> (ca @ cb, s2))"
    using assms(1) unfolding ctr_ok_def by blast
  with assms(2,3) show ?thesis by simp
qed

lemma cbc_dec_length: "cbc_ok P \<Longrightarrow> cbc_dec P alg s b = Some (p, s') \<Longrightarrow> length p = length b"
  unfolding cbc_ok_def by blast

lemma cbc_append:
  assumes "cbc_ok P" "cbc_block alg dvd length a" "cbc_block alg dvd length b"
  shows "cbc_dec P alg s (a @ b) =
    (case cbc_dec P alg s a of None \<Rightarrow> None
     | Some (pa, s1) \<Rightarrow> (case cbc_dec P alg s1 b of None \<Rightarrow> None | Some (pb, s2) \<Rightarrow> Some (pa @ pb, s2)))"
  using assms unfolding cbc_ok_def by blast

lemma blocks_round_trip:
  assumes "cipher_prims_ok P" "\<not> is_aead c" "block_size c dvd length b"
  obtains e c' where "encrypt_blocks P c b = Ok (e, c')" "length e = length b"
    "decrypt_blocks P c e = Ok (b, c')" "\<not> is_aead c'" "block_size c' = block_size c"
proof (cases c)
  case (Ctr a)
  obtain k s where a: "a = AesCtr k s" by (cases a)
  obtain e s' where "ctr_apply P k s b = (e, s')" "length e = length b" "ctr_apply P k s e = (b, s')"
    using ctr_round prims_okD [OF assms(1)] by metis
  then show ?thesis using that [of e "Ctr (AesCtr k s')"] by (simp add: Ctr a)
next
  case (Cbc a)
  obtain alg s where a: "a = CbcState alg s" by (cases a)
  have "cbc_block alg dvd length b" using assms(3) by (simp add: Cbc a)
  moreover have "cbc_ok P" using prims_okD [OF assms(1)] by simp
  ultimately obtain e s' where "cbc_enc P alg s b = Some (e, s')" "length e = length b"
    "cbc_dec P alg s e = Some (b, s')" unfolding cbc_ok_def by blast
  then show ?thesis using that [of e "Cbc (CbcState alg s')"] by (simp add: Cbc a)
qed (use assms(2) in simp_all)

lemma decrypt_blocks_length:
  assumes "cipher_prims_ok P" "decrypt_blocks P c b = Ok (p, c')"
  shows "length p = length b \<and> block_size c' = block_size c"
proof -
  note ok = prims_okD [OF assms(1)]
  show ?thesis
  proof (cases c)
    case (Ctr a)
    then show ?thesis
      using assms(2) ok ctr_length by (cases a) (fastforce split: prod.splits)
  next
    case (Cbc a)
    obtain alg s where a: "a = CbcState alg s" by (cases a)
    then obtain s' where "cbc_dec P alg s b = Some (p, s')" "c' = Cbc (CbcState alg s')"
      using assms(2) by (auto simp: Cbc map_res_eq_Ok split: option.splits)
    with ok cbc_dec_length [of P alg s b p s'] show ?thesis by (simp add: Cbc a)
  qed (use assms(2) in simp_all)
qed

lemma decrypt_blocks_safe: "decrypt_blocks P c b \<noteq> Panic"
proof (cases c)
  case (Ctr a)
  then show ?thesis by (cases a) (simp split: prod.splits)
next
  case (Cbc a)
  then show ?thesis by (cases a) (auto split: option.splits)
qed simp_all

lemma decrypt_blocks_append:
  assumes "cipher_prims_ok P" "block_size c dvd length a" "block_size c dvd length b"
    "decrypt_blocks P c (a @ b) = Ok (p, c')"
  obtains pa c1 pb where "decrypt_blocks P c a = Ok (pa, c1)" "decrypt_blocks P c1 b = Ok (pb, c')"
    "p = pa @ pb" "length pa = length a"
proof (cases c)
  case (Ctr x)
  obtain k s where x: "x = AesCtr k s" by (cases x)
  obtain pa s1 where 1: "ctr_apply P k s a = (pa, s1)" by (cases "ctr_apply P k s a")
  obtain pb s2 where 2: "ctr_apply P k s1 b = (pb, s2)" by (cases "ctr_apply P k s1 b")
  have "ctr_apply P k s (a @ b) = (pa @ pb, s2)"
    using ctr_append [OF _ 1 2] prims_okD [OF assms(1)] by simp
  then show ?thesis
    using assms(4) that [of pa "Ctr (AesCtr k s1)" pb] 1 2 ctr_length [of P] prims_okD [OF assms(1)]
    by (auto simp: Ctr x)
next
  case (Cbc x)
  obtain alg s where x: "x = CbcState alg s" by (cases x)
  have al: "cbc_block alg dvd length a" "cbc_block alg dvd length b" using assms(2,3) by (simp_all add: Cbc x)
  have ok: "cbc_ok P" using prims_okD [OF assms(1)] by simp
  obtain pa s1 pb s2 where d: "cbc_dec P alg s a = Some (pa, s1)" "cbc_dec P alg s1 b = Some (pb, s2)"
    "p = pa @ pb" "c' = Cbc (CbcState alg s2)"
    using assms(4) cbc_append [OF ok al] by (auto simp: Cbc x map_res_eq_Ok split: option.splits)
  moreover have "length pa = length a" using ok d(1) unfolding cbc_ok_def by blast
  ultimately show ?thesis using that [of pa "Cbc (CbcState alg s1)" pb] by (simp add: Cbc x)
qed (use assms(4) in simp_all)

section \<open>The AEADs\<close>

lemma gcm_round:
  assumes "cipher_prims_ok P" "gcm_seal P g aad p = Ok (c, t, g')"
  shows "gcm_open P g aad c t = Ok (p, g')" "length c = length p" "length t = 16"
proof -
  obtain c0 t0 where e: "gcm_enc P (g_bits g) (g_key g) (gcm_nonce g) aad p = (c0, t0)"
    by (cases "gcm_enc P (g_bits g) (g_key g) (gcm_nonce g) aad p")
  then have s: "c0 = c" "t0 = t" "gcm_step g = Ok g'"
    using assms(2) by (auto simp: gcm_seal_def bind_res_eq_Ok)
  have ok: "gcm_ok P" using prims_okD [OF assms(1)] by simp
  then have "length c0 = length p \<and> length t0 = 16" using e unfolding gcm_ok_def by blast
  then show l: "length c = length p" "length t = 16" using e s by simp_all
  have "gcm_dec P (g_bits g) (g_key g) (gcm_nonce g) aad c t = Some p"
    using ok e s unfolding gcm_ok_def by blast
  then show "gcm_open P g aad c t = Ok (p, g')" using s(3) l(2) by (simp add: gcm_open_def)
qed

lemma gcm_open_sound:
  assumes "cipher_prims_ok P" "gcm_open P g aad c t = Ok (p, g')"
  shows "gcm_seal P g aad p = Ok (c, t, g')" "length p = length c"
proof -
  have d: "gcm_dec P (g_bits g) (g_key g) (gcm_nonce g) aad c t = Some p" "gcm_step g = Ok g'"
    using assms(2) by (auto simp: gcm_open_def bind_res_eq_Ok split: if_splits option.splits)
  then have "gcm_enc P (g_bits g) (g_key g) (gcm_nonce g) aad p = (c, t)"
    using prims_okD [OF assms(1)] unfolding gcm_ok_def by blast
  with d(2) show "gcm_seal P g aad p = Ok (c, t, g')" by (simp add: gcm_seal_def)
  then show "length p = length c" using gcm_round [OF assms(1)] by simp
qed

lemma gcm_open_safe: "gcm_open P g aad c t \<noteq> Panic"
  by (auto simp: gcm_open_def gcm_step_def split: option.splits)

lemma xor_payload_twice:
  "cipher_prims_ok P \<Longrightarrow> xor_payload P c q (xor_payload P c q b) = b"
  "cipher_prims_ok P \<Longrightarrow> length (xor_payload P c q b) = length b"
  "cipher_prims_ok P \<Longrightarrow> xor_length P c q (xor_length P c q b) = b"
  "cipher_prims_ok P \<Longrightarrow> length (xor_length P c q b) = length b"
  "cipher_prims_ok P \<Longrightarrow> length (cp_tag_of P c q l b) = 16"
  by (simp_all add: cipher_prims_ok_def chacha_ok_def xor_payload_def xor_length_def cp_tag_of_def)

lemma cp_verify_iff:
  "cipher_prims_ok P \<Longrightarrow> cp_verify P c q l b tag = Ok () \<longleftrightarrow> tag = cp_tag_of P c q l b"
  by (auto simp: cp_verify_def xor_payload_twice)

section \<open>The catalogue\<close>

lemmas cipher_new_defs = ctr_new_128_def ctr_new_192_def ctr_new_256_def ctr_try_new_def
  gcm_new_128_def gcm_new_256_def cp_new_def cbc_state_new_def cbc_try_new_def split_iv_def

definition cipher_entry_ok :: "'s cipher_prims \<Rightarrow> cipher_spec \<Rightarrow> bool" where
  "cipher_entry_ok P spec \<longleftrightarrow> (\<forall>key iv :: bytes. length key = cs_key_len spec \<longrightarrow> length iv = cs_iv_len spec \<longrightarrow>
     (\<exists>c. ssh_cipher_new P (cs_name spec) key iv = Ok c \<and> is_aead c = cs_aead spec
        \<and> (\<not> cs_aead spec \<longrightarrow> block_size c = cs_block_size spec)))"

lemma ssh_cipher_new_catalogue: "spec \<in> set ALL_CIPHERS \<Longrightarrow> cipher_entry_ok P spec"
proof -
  have "\<forall>spec \<in> set ALL_CIPHERS. cipher_entry_ok P spec"
    by (simp add: ALL_CIPHERS_def cipher_spec_of_def cipher_entry_ok_def ssh_cipher_new_def
        cipher_new_defs)
  then show "spec \<in> set ALL_CIPHERS \<Longrightarrow> cipher_entry_ok P spec" by blast
qed

text \<open>Only a catalogue name with a key of its length is accepted.\<close>

definition in_catalogue :: "rust_str \<Rightarrow> nat \<Rightarrow> bool" where
  "in_catalogue name klen \<longleftrightarrow> (name, klen) \<in> set (map (\<lambda>s. (cs_name s, cs_key_len s)) ALL_CIPHERS)"

lemma in_catalogue_names:
  "in_catalogue (lit ''aes128-ctr'') 16" "in_catalogue (lit ''aes192-ctr'') 24"
  "in_catalogue (lit ''aes256-ctr'') 32" "in_catalogue (lit ''aes128-gcm@openssh.com'') 16"
  "in_catalogue (lit ''aes256-gcm@openssh.com'') 32"
  "in_catalogue (lit ''chacha20-poly1305@openssh.com'') 64"
  "in_catalogue (lit ''aes128-cbc'') 16" "in_catalogue (lit ''aes192-cbc'') 24"
  "in_catalogue (lit ''aes256-cbc'') 32" "in_catalogue (lit ''3des-cbc'') 24"
  unfolding in_catalogue_def ALL_CIPHERS_def cipher_spec_of_def by simp_all

lemma ssh_cipher_new_names: "ssh_cipher_new P name key iv = Ok c \<Longrightarrow> in_catalogue name (length key)"
  by (auto simp: ssh_cipher_new_def map_res_eq_Ok cipher_new_defs bind_res_eq_Ok in_catalogue_names
      split: if_splits)

text \<open>
  Every suite of the catalogue can be built from a key and an IV of the catalogue's
  lengths, and the cipher it yields is an AEAD exactly when the catalogue says so and, when not,
  works in blocks of the catalogue's size. Conversely only catalogue names with keys of the
  catalogue's length yield a cipher, and \<open>cipher_by_name\<close> knows exactly the catalogue.
\<close>

theorem cipher_catalogue_sound:
  "(\<forall>spec \<in> set ALL_CIPHERS. \<forall>key iv :: bytes. length key = cs_key_len spec \<and> length iv = cs_iv_len spec \<longrightarrow>
      (\<exists>c. cipher_by_name P (cs_name spec) key iv = Some (Ok c) \<and> is_aead c = cs_aead spec
         \<and> (\<not> cs_aead spec \<longrightarrow> block_size c = cs_block_size spec)))
 \<and> (\<forall>name key iv c. ssh_cipher_new P name key iv = Ok c \<longrightarrow>
      (\<exists>spec \<in> set ALL_CIPHERS. cs_name spec = name \<and> length key = cs_key_len spec))
 \<and> (\<forall>name key iv. cipher_by_name P name key iv = None \<longleftrightarrow> name \<notin> cs_name ` set ALL_CIPHERS)"
proof (intro conjI ballI allI impI)
  fix spec and key iv :: bytes
  assume a: "spec \<in> set ALL_CIPHERS" "length key = cs_key_len spec \<and> length iv = cs_iv_len spec"
  have "distinct (map cs_name ALL_CIPHERS)" by (simp add: ALL_CIPHERS_def cipher_spec_of_def)
  then have "cipher_spec_by_name (cs_name spec) = Some spec"
    unfolding cipher_spec_by_name_def using a(1) by (rule find_by_key)
  then show "\<exists>c. cipher_by_name P (cs_name spec) key iv = Some (Ok c) \<and> is_aead c = cs_aead spec
         \<and> (\<not> cs_aead spec \<longrightarrow> block_size c = cs_block_size spec)"
    using ssh_cipher_new_catalogue [OF a(1), of P] a(2)
    by (simp add: cipher_by_name_def cipher_entry_ok_def)
next
  fix name key iv c
  assume "ssh_cipher_new P name key iv = Ok c"
  then have "in_catalogue name (length key)" by (rule ssh_cipher_new_names)
  then show "\<exists>spec \<in> set ALL_CIPHERS. cs_name spec = name \<and> length key = cs_key_len spec"
    by (auto simp: in_catalogue_def)
next
  fix name key iv
  show "cipher_by_name P name key iv = None \<longleftrightarrow> name \<notin> cs_name ` set ALL_CIPHERS"
    by (auto simp: cipher_by_name_def cipher_spec_by_name_def find_None_iff)
qed

section \<open>GCM nonces\<close>

text \<open>A sequence of seals under one key, with the nonces they used.\<close>

fun seal_all :: "'s cipher_prims \<Rightarrow> gcm_state \<Rightarrow> (bytes \<times> bytes) list \<Rightarrow> bytes list res" where
  "seal_all P g [] = Ok []"
| "seal_all P g ((aad, p) # msgs) =
     bind_res (gcm_seal P g aad p) (\<lambda>(c, t, g').
     bind_res (seal_all P g' msgs) (\<lambda>ns. Ok (gcm_nonce g # ns)))"

lemma u64_to_be_inject: "u64_to_be a = u64_to_be b \<longleftrightarrow> a = b"
  by (metis u64_from_to_be)

lemma unat_plus_one: "x \<noteq> - 1 \<Longrightarrow> unat (x + 1) = Suc (unat x)" for x :: u64
proof -
  assume "x \<noteq> - 1"
  then have "unat x \<noteq> unat (- 1 :: u64)" by (metis word_unat_eq_iff)
  then have "Suc (unat x) < 2 ^ 64" using unat_less_p2 [of x] by (simp add: unat_max_word_nat)
  then show ?thesis by (simp add: unat_word_ariths)
qed

lemma seal_step: "gcm_seal P g aad p = Ok (c, t, g') \<Longrightarrow>
    g' = g\<lparr>invocation := invocation g + 1\<rparr> \<and> unat (invocation g') = Suc (unat (invocation g))"
proof -
  assume "gcm_seal P g aad p = Ok (c, t, g')"
  then have "invocation g \<noteq> - 1" "g' = g\<lparr>invocation := invocation g + 1\<rparr>"
    by (auto simp: gcm_seal_def gcm_step_def bind_res_eq_Ok split: prod.splits if_splits)
  then show ?thesis by (simp add: unat_plus_one)
qed

lemma seal_all_counter:
  "seal_all P g msgs = Ok ns \<Longrightarrow> n \<in> set ns \<Longrightarrow>
     \<exists>i. n = g_fixed g @ u64_to_be i \<and> unat (invocation g) \<le> unat i"
proof (induction msgs arbitrary: g ns)
  case (Cons m msgs)
  obtain aad p where m: "m = (aad, p)" by (cases m)
  obtain c t g' ns' where s: "gcm_seal P g aad p = Ok (c, t, g')" "seal_all P g' msgs = Ok ns'"
    "ns = gcm_nonce g # ns'"
    using Cons.prems(1) by (auto simp: m bind_res_eq_Ok)
  show ?case
  proof (cases "n = gcm_nonce g")
    case True
    then show ?thesis by (auto simp: gcm_nonce_def)
  next
    case False
    then have "n \<in> set ns'" using Cons.prems(2) s(3) by simp
    with Cons.IH [OF s(2)] seal_step [OF s(1)] show ?thesis by fastforce
  qed
qed simp

text \<open>
  No nonce is ever used twice under one GCM key: however many packets are sealed, the
  nonces are pairwise distinct, because the 64-bit invocation counter grows by one per packet and
  sealing fails instead of letting it wrap.
\<close>

theorem gcm_nonces_distinct:
  assumes "seal_all P g msgs = Ok ns"
  shows "distinct ns \<and> length ns = length msgs"
  using assms
proof (induction msgs arbitrary: g ns)
  case (Cons m msgs)
  obtain aad p where m: "m = (aad, p)" by (cases m)
  obtain c t g' ns' where s: "gcm_seal P g aad p = Ok (c, t, g')" "seal_all P g' msgs = Ok ns'"
    "ns = gcm_nonce g # ns'"
    using Cons.prems(1) by (auto simp: m bind_res_eq_Ok)
  have "gcm_nonce g \<notin> set ns'"
  proof
    assume "gcm_nonce g \<in> set ns'"
    then obtain i where "gcm_nonce g = g_fixed g' @ u64_to_be i" "unat (invocation g') \<le> unat i"
      using seal_all_counter [OF s(2)] by blast
    then have "i = invocation g" using seal_step [OF s(1)] by (simp add: gcm_nonce_def u64_to_be_inject)
    with \<open>unat (invocation g') \<le> unat i\<close> seal_step [OF s(1)] show False
      by (metis Suc_n_not_le_n)
  qed
  with Cons.IH [OF s(2)] s(3) show ?case by simp
qed simp

section \<open>A stand-in for the primitives\<close>

text \<open>Every cipher the identity, tags constant: enough to run the definitions on.\<close>

definition plain_prims :: "unit cipher_prims" where
  "plain_prims = \<lparr>ctr_new = \<lambda>_ _ _. (), ctr_apply = \<lambda>_ s b. (b, s),
     cbc_new = \<lambda>_ _ _. (),
     cbc_enc = \<lambda>alg s b. if cbc_block alg dvd length b then Some (b, s) else None,
     cbc_dec = \<lambda>alg s b. if cbc_block alg dvd length b then Some (b, s) else None,
     gcm_enc = \<lambda>_ _ _ _ p. (p, replicate 16 0),
     gcm_dec = \<lambda>_ _ _ _ c t. if t = replicate 16 0 then Some c else None,
     chacha_xor = \<lambda>_ _ _ b. b, chacha_block = \<lambda>_ _ _. replicate 64 0,
     poly1305 = \<lambda>_ _. replicate 16 0\<rparr>"

lemma plain_prims_ok: "cipher_prims_ok plain_prims"
  by (auto simp: cipher_prims_ok_def ctr_ok_def cbc_ok_def gcm_ok_def chacha_ok_def plain_prims_def)

theorem cipher_catalogue_sound_witness:
  "\<exists>c. cipher_by_name plain_prims (lit ''3des-cbc'') (replicate 24 1) (replicate 8 2) = Some (Ok c)
     \<and> \<not> is_aead c \<and> block_size c = 8"
proof -
  let ?spec = "cipher_spec_of ''3des-cbc'' 24 8 8 False 0"
  have spec: "?spec \<in> set ALL_CIPHERS" by (simp add: ALL_CIPHERS_def)
  have geometry: "cs_name ?spec = lit ''3des-cbc''" "cs_key_len ?spec = 24" "cs_iv_len ?spec = 8"
    "cs_block_size ?spec = 8" "\<not> cs_aead ?spec" by (simp_all add: cipher_spec_of_def)
  have "length (replicate 24 (1 :: u8)) = 24 \<and> length (replicate 8 (2 :: u8)) = 8" by simp
  then show ?thesis
    using bspec [OF conjunct1 [OF cipher_catalogue_sound [of plain_prims]] spec]
    unfolding geometry(1-4) using geometry(5) by blast
qed

theorem gcm_nonces_distinct_witness:
  "\<exists>ns. seal_all plain_prims \<lparr>g_bits = 128, g_key = [], g_fixed = [1, 2, 3, 4], invocation = 5\<rparr>
          [([], [7]), ([], [7]), ([], [8])] = Ok ns \<and> distinct ns \<and> length ns = 3"
proof -
  let ?g = "\<lparr>g_bits = 128, g_key = [], g_fixed = [1, 2, 3, 4], invocation = 5\<rparr>"
  have "\<exists>ns. seal_all plain_prims ?g [([], [7]), ([], [7]), ([], [8])] = Ok ns"
    by (simp add: gcm_seal_def gcm_step_def plain_prims_def)
  then obtain ns where ns: "seal_all plain_prims ?g [([], [7]), ([], [7]), ([], [8])] = Ok ns" by blast
  from gcm_nonces_distinct [OF ns] ns show ?thesis by auto
qed

end
