(* ===== verification/Compress.thy ===== *)
theory Compress
  imports Wire
begin

text \<open>
  Payload compression (src/src/hazmat/compress): the \<open>none\<close>, \<open>zlib\<close> and delayed \<open>zlib@openssh.com\<close>
  channels (mod.rs) and the loops that drive the DEFLATE coder for one packet (zlib.rs). The coder
  itself belongs to the compcol crate; \<open>zlib_prims\<close> holds its calls as functions. A loop may in
  principle run forever, depending on the coder; it is a partial function whose value is \<open>None\<close>
  then. The decompression loop is shown to return on every input and never to exceed its cap, from
  the coder's contract alone: it consumes no more than it is given and fills no more than its
  output buffer.
\<close>

section \<open>The coder\<close>

datatype zstatus = InputEmpty | OutputFull | StreamEnd

text \<open>A call reports the bytes consumed, the bytes written into a buffer of the given size, and a status.\<close>

record ('e, 'd) zlib_prims =
  enc_new :: 'e
  enc_encode :: "'e \<Rightarrow> bytes \<Rightarrow> nat \<Rightarrow> (nat \<times> bytes \<times> zstatus \<times> 'e) option"
  enc_flush :: "'e \<Rightarrow> nat \<Rightarrow> (bytes \<times> zstatus \<times> 'e) option"
  dec_new :: 'd
  dec_decode :: "'d \<Rightarrow> bytes \<Rightarrow> nat \<Rightarrow> (nat \<times> bytes \<times> zstatus \<times> 'd) option"

definition zlib_decoder_ok :: "('e, 'd) zlib_prims \<Rightarrow> bool" where
  "zlib_decoder_ok Z \<longleftrightarrow> (\<forall>d inp k n w st d'. dec_decode Z d inp k = Some (n, w, st, d') \<longrightarrow>
     n \<le> length inp \<and> length w \<le> k)"

definition CHUNK :: nat where "CHUNK = 8 * 1024"

definition MAX_PACKET_LEN :: u32 where "MAX_PACKET_LEN = 256 * 1024"

definition DEFAULT_MAX_INFLATE_OUTPUT :: nat where
  "DEFAULT_MAX_INFLATE_OUTPUT = unat MAX_PACKET_LEN * 8"

section \<open>Deflate (zlib.rs)\<close>

partial_function (option) deflate_push ::
    "('e, 'd) zlib_prims \<Rightarrow> bytes \<Rightarrow> 'e \<Rightarrow> nat \<Rightarrow> bytes \<Rightarrow> (bytes \<times> 'e) res option" where
  "deflate_push Z input enc consumed out =
     (if \<not> consumed < length input then Some (Ok (out, enc))
      else case enc_encode Z enc (drop consumed input) CHUNK of
             None \<Rightarrow> Some (Err (Crypto ''zlib compress failed''))
           | Some (n, w, st, enc') \<Rightarrow>
               (case st of
                  InputEmpty \<Rightarrow> Some (Ok (out @ w, enc'))
                | OutputFull \<Rightarrow>
                    if n = 0 \<and> length w = 0 then Some (Err (Crypto ''zlib compress stalled''))
                    else deflate_push Z input enc' (consumed + n) (out @ w)
                | StreamEnd \<Rightarrow> Some (Err (Crypto ''zlib compress closed''))))"

partial_function (option) deflate_flush ::
    "('e, 'd) zlib_prims \<Rightarrow> 'e \<Rightarrow> bytes \<Rightarrow> (bytes \<times> 'e) res option" where
  "deflate_flush Z enc out =
     (case enc_flush Z enc CHUNK of
        None \<Rightarrow> Some (Err (Crypto ''zlib compress failed''))
      | Some (w, st, enc') \<Rightarrow>
          (case st of
             InputEmpty \<Rightarrow>
               if length w = CHUNK then deflate_flush Z enc' (out @ w) else Some (Ok (out @ w, enc'))
           | OutputFull \<Rightarrow>
               if length w = 0 then Some (Err (Crypto ''zlib compress stalled''))
               else deflate_flush Z enc' (out @ w)
           | StreamEnd \<Rightarrow> Some (Err (Crypto ''zlib compress closed''))))"

definition deflate_step :: "('e, 'd) zlib_prims \<Rightarrow> 'e \<Rightarrow> bytes \<Rightarrow> (bytes \<times> 'e) res option" where
  "deflate_step Z enc input =
     (case deflate_push Z input enc 0 [] of
        None \<Rightarrow> None
      | Some (Ok (out, enc')) \<Rightarrow> deflate_flush Z enc' out
      | Some (Err e) \<Rightarrow> Some (Err e)
      | Some Panic \<Rightarrow> Some Panic)"

section \<open>Inflate (zlib.rs)\<close>

record 'd zlib_inflate =
  zi_dec :: 'd
  zi_max_output_size :: nat

definition inflate_new :: "('e, 'd) zlib_prims \<Rightarrow> 'd zlib_inflate" where
  "inflate_new Z = \<lparr>zi_dec = dec_new Z, zi_max_output_size = DEFAULT_MAX_INFLATE_OUTPUT\<rparr>"

definition inflate_set_max :: "nat \<Rightarrow> 'd zlib_inflate \<Rightarrow> 'd zlib_inflate" where
  "inflate_set_max n i = i\<lparr>zi_max_output_size := n\<rparr>"

partial_function (option) inflate_loop ::
    "('e, 'd) zlib_prims \<Rightarrow> nat \<Rightarrow> bytes \<Rightarrow> 'd \<Rightarrow> nat \<Rightarrow> bytes \<Rightarrow> (bytes \<times> 'd) res option" where
  "inflate_loop Z max_out input d consumed out =
     (if consumed > length input then Some Panic
      else case dec_decode Z d (drop consumed input) CHUNK of
             None \<Rightarrow> Some (Err (Format ''zlib decompress failed''))
           | Some (n, w, st, d') \<Rightarrow>
               if length out + length w > max_out
               then Some (Err (Format ''zlib decompressed too large''))
               else (case st of
                       InputEmpty \<Rightarrow>
                         if length w = CHUNK
                         then inflate_loop Z max_out input d' (consumed + n) (out @ w)
                         else Some (Ok (out @ w, d'))
                     | OutputFull \<Rightarrow>
                         if n = 0 \<and> length w = 0 then Some (Err (Format ''zlib decompress stalled''))
                         else inflate_loop Z max_out input d' (consumed + n) (out @ w)
                     | StreamEnd \<Rightarrow> Some (Err (Format ''zlib decompress closed''))))"

definition inflate_step ::
    "('e, 'd) zlib_prims \<Rightarrow> 'd zlib_inflate \<Rightarrow> bytes \<Rightarrow> (bytes \<times> 'd zlib_inflate) res option" where
  "inflate_step Z i input =
     map_option (map_res (\<lambda>(out, d). (out, i\<lparr>zi_dec := d\<rparr>)))
       (inflate_loop Z (zi_max_output_size i) input (zi_dec i) 0 [])"

section \<open>The channels (mod.rs, zlib.rs)\<close>

datatype 'e compressor = NoneCompress | ZlibCompress 'e | ZlibOpenSshCompress "'e option"

datatype 'd decompressor =
    NoneDecompress
  | ZlibDecompress "'d zlib_inflate"
  | ZlibOpenSshDecompress "'d zlib_inflate option" nat

fun compress_name :: "'e compressor \<Rightarrow> rust_str" where
  "compress_name NoneCompress = lit ''none''"
| "compress_name (ZlibCompress _) = lit ''zlib''"
| "compress_name (ZlibOpenSshCompress _) = lit ''zlib@openssh.com''"

fun decompress_name :: "'d decompressor \<Rightarrow> rust_str" where
  "decompress_name NoneDecompress = lit ''none''"
| "decompress_name (ZlibDecompress _) = lit ''zlib''"
| "decompress_name (ZlibOpenSshDecompress _ _) = lit ''zlib@openssh.com''"

fun compress_active :: "'e compressor \<Rightarrow> bool" where
  "compress_active NoneCompress = True"
| "compress_active (ZlibCompress _) = True"
| "compress_active (ZlibOpenSshCompress inner) = (inner \<noteq> None)"

fun decompress_active :: "'d decompressor \<Rightarrow> bool" where
  "decompress_active NoneDecompress = True"
| "decompress_active (ZlibDecompress _) = True"
| "decompress_active (ZlibOpenSshDecompress inner _) = (inner \<noteq> None)"

fun compress_activate :: "('e, 'd) zlib_prims \<Rightarrow> 'e compressor \<Rightarrow> 'e compressor" where
  "compress_activate Z (ZlibOpenSshCompress None) = ZlibOpenSshCompress (Some (enc_new Z))"
| "compress_activate Z c = c"

fun decompress_activate :: "('e, 'd) zlib_prims \<Rightarrow> 'd decompressor \<Rightarrow> 'd decompressor" where
  "decompress_activate Z (ZlibOpenSshDecompress None n) =
     ZlibOpenSshDecompress (Some (inflate_set_max n (inflate_new Z))) n"
| "decompress_activate Z d = d"

fun compress :: "('e, 'd) zlib_prims \<Rightarrow> 'e compressor \<Rightarrow> bytes \<Rightarrow> (bytes \<times> 'e compressor) res option" where
  "compress Z NoneCompress input = Some (Ok (input, NoneCompress))"
| "compress Z (ZlibCompress enc) input =
     map_option (map_res (\<lambda>(out, enc'). (out, ZlibCompress enc'))) (deflate_step Z enc input)"
| "compress Z (ZlibOpenSshCompress None) input = Some (Ok (input, ZlibOpenSshCompress None))"
| "compress Z (ZlibOpenSshCompress (Some enc)) input =
     map_option (map_res (\<lambda>(out, enc'). (out, ZlibOpenSshCompress (Some enc')))) (deflate_step Z enc input)"

fun decompress :: "('e, 'd) zlib_prims \<Rightarrow> 'd decompressor \<Rightarrow> bytes \<Rightarrow> (bytes \<times> 'd decompressor) res option" where
  "decompress Z NoneDecompress input = Some (Ok (input, NoneDecompress))"
| "decompress Z (ZlibDecompress i) input =
     map_option (map_res (\<lambda>(out, i'). (out, ZlibDecompress i'))) (inflate_step Z i input)"
| "decompress Z (ZlibOpenSshDecompress None n) input = Some (Ok (input, ZlibOpenSshDecompress None n))"
| "decompress Z (ZlibOpenSshDecompress (Some i) n) input =
     map_option (map_res (\<lambda>(out, i'). (out, ZlibOpenSshDecompress (Some i') n))) (inflate_step Z i input)"

text \<open>The cap can be set on the two zlib channels; \<open>none\<close> has no such method.\<close>

fun decompress_set_max :: "nat \<Rightarrow> 'd decompressor \<Rightarrow> 'd decompressor" where
  "decompress_set_max n NoneDecompress = NoneDecompress"
| "decompress_set_max n (ZlibDecompress i) = ZlibDecompress (inflate_set_max n i)"
| "decompress_set_max n (ZlibOpenSshDecompress inner _) =
     ZlibOpenSshDecompress (map_option (inflate_set_max n) inner) n"

text \<open>The factories, in a build with the \<open>compress\<close> feature.\<close>

definition compress_by_name :: "('e, 'd) zlib_prims \<Rightarrow> rust_str \<Rightarrow> 'e compressor option" where
  "compress_by_name Z name =
     (if name = lit ''none'' then Some NoneCompress
      else if name = lit ''zlib'' then Some (ZlibCompress (enc_new Z))
      else if name = lit ''zlib@openssh.com'' then Some (ZlibOpenSshCompress None)
      else None)"

definition decompress_by_name :: "('e, 'd) zlib_prims \<Rightarrow> rust_str \<Rightarrow> 'd decompressor option" where
  "decompress_by_name Z name =
     (if name = lit ''none'' then Some NoneDecompress
      else if name = lit ''zlib'' then Some (ZlibDecompress (inflate_new Z))
      else if name = lit ''zlib@openssh.com''
      then Some (ZlibOpenSshDecompress None DEFAULT_MAX_INFLATE_OUTPUT)
      else None)"

section \<open>Decompression is bounded and returns\<close>

lemma inflate_loop_returns:
  assumes "zlib_decoder_ok Z" "consumed \<le> length input" "length out \<le> max_out"
  shows "\<exists>r. inflate_loop Z max_out input d consumed out = Some r \<and> r \<noteq> Panic
    \<and> (\<forall>o' d'. r = Ok (o', d') \<longrightarrow> length o' \<le> max_out)"
  using assms(2,3)
proof (induction "(length input - consumed) + (max_out - length out)" arbitrary: d consumed out
    rule: less_induct)
  case less
  show ?case
  proof (cases "dec_decode Z d (drop consumed input) CHUNK")
    case None
    then show ?thesis using less.prems by (subst inflate_loop.simps) simp
  next
    case (Some t)
    obtain n w st d' where t: "t = (n, w, st, d')" by (cases t)
    have n: "n \<le> length input - consumed"
      using assms(1) Some unfolding zlib_decoder_ok_def t by fastforce
    have again: "\<exists>r. inflate_loop Z max_out input d' (consumed + n) (out @ w) = Some r \<and> r \<noteq> Panic
        \<and> (\<forall>o' d'. r = Ok (o', d') \<longrightarrow> length o' \<le> max_out)"
      if "length out + length w \<le> max_out" "n \<noteq> 0 \<or> length w \<noteq> 0"
    proof (rule less.hyps)
      have "0 < n + length w" using that(2) by linarith
      then show "length input - (consumed + n) + (max_out - length (out @ w))
          < length input - consumed + (max_out - length out)"
        using that(1) n less.prems unfolding length_append by linarith
      show "consumed + n \<le> length input" using n less.prems by linarith
      show "length (out @ w) \<le> max_out" using that(1) by simp
    qed
    have "CHUNK \<noteq> 0" by (simp add: CHUNK_def)
    then show ?thesis
      using Some less.prems again
      by (subst inflate_loop.simps) (auto simp: t not_less split: zstatus.split)
  qed
qed

text \<open>The bound a channel keeps on what one packet decompresses to.\<close>

fun output_bound :: "'d decompressor \<Rightarrow> bytes \<Rightarrow> bytes \<Rightarrow> bool" where
  "output_bound (ZlibDecompress i) input out \<longleftrightarrow> length out \<le> zi_max_output_size i"
| "output_bound (ZlibOpenSshDecompress (Some i) _) input out \<longleftrightarrow> length out \<le> zi_max_output_size i"
| "output_bound _ input out \<longleftrightarrow> out = input"

lemma decompress_bound:
  assumes "zlib_decoder_ok Z"
  shows "\<exists>r. decompress Z d input = Some r \<and> r \<noteq> Panic
       \<and> (\<forall>out d'. r = Ok (out, d') \<longrightarrow> output_bound d input out)"
proof -
  have step: "\<exists>r. inflate_step Z i input = Some r \<and> r \<noteq> Panic
      \<and> (\<forall>o' i'. r = Ok (o', i') \<longrightarrow> length o' \<le> zi_max_output_size i)" for i
    using inflate_loop_returns [OF assms, of 0 input "[]" "zi_max_output_size i" "zi_dec i"]
    by (fastforce simp: inflate_step_def map_res_eq_Ok)
  show ?thesis
  proof (cases d)
    case (ZlibDecompress i)
    with step [of i] show ?thesis by (fastforce simp: map_res_eq_Ok)
  next
    case (ZlibOpenSshDecompress inner n)
    show ?thesis
    proof (cases inner)
      case (Some i)
      with ZlibOpenSshDecompress step [of i] show ?thesis by (fastforce simp: map_res_eq_Ok)
    qed (simp add: ZlibOpenSshDecompress)
  qed simp
qed

lemma decompress_returns: "zlib_decoder_ok Z \<Longrightarrow> \<exists>r. decompress Z d input = Some r \<and> r \<noteq> Panic"
  using decompress_bound by blast

text \<open>
  A decompression bomb cannot hurt: whatever bytes the peer sends, decompressing one
  packet returns, without panicking, and yields at most \<open>max_output_size\<close> bytes or an error, on
  every channel (\<open>none\<close> and a not yet active channel return the packet as it is). This needs of the
  coder only that it respects its buffers, not that it is correct.
\<close>

theorem decompression_bounded:
  assumes "zlib_decoder_ok Z"
  shows "\<exists>r. decompress Z d input = Some r \<and> r \<noteq> Panic
       \<and> (\<forall>out d'. r = Ok (out, d') \<longrightarrow>
            (case d of
               ZlibDecompress i \<Rightarrow> length out \<le> zi_max_output_size i
             | ZlibOpenSshDecompress (Some i) _ \<Rightarrow> length out \<le> zi_max_output_size i
             | _ \<Rightarrow> out = input))"
  using decompress_bound [OF assms, of d input]
  by (auto split: decompressor.split option.split)

text \<open>A coder that stores: the encoder copies its input, the decoder hands it on in chunks.\<close>

definition store_prims :: "(bytes, bytes) zlib_prims" where
  "store_prims = \<lparr>enc_new = [],
     enc_encode = \<lambda>e inp k. Some (length inp, [], InputEmpty, e @ inp),
     enc_flush = \<lambda>e k. Some (take k e, if length e \<le> k then InputEmpty else OutputFull, drop k e),
     dec_new = [],
     dec_decode = \<lambda>d inp k. Some (length inp, take k (d @ inp),
        if length (d @ inp) \<le> k then InputEmpty else OutputFull, drop k (d @ inp))\<rparr>"

lemma store_prims_ok: "zlib_decoder_ok store_prims"
  by (auto simp: zlib_decoder_ok_def store_prims_def min_def)

theorem decompression_bounded_witness:
  "zlib_decoder_ok store_prims \<and>
   (\<exists>r. decompress store_prims (ZlibDecompress (inflate_set_max 2 (inflate_new store_prims))) [1, 2, 3] = Some r
      \<and> r \<noteq> Panic \<and> (\<forall>out d'. r = Ok (out, d') \<longrightarrow> length out \<le> 2))"
  using decompression_bounded [OF store_prims_ok,
      of "ZlibDecompress (inflate_set_max 2 (inflate_new store_prims))" "[1, 2, 3]"] store_prims_ok
  by (simp add: inflate_set_max_def)

end
