(* ===== verification/Packet.thy ===== *)
theory Packet
  imports Ciphers Compress
begin

text \<open>
  The binary packet protocol (src/src/hazmat/transport/packet.rs): padding, the framing of the
  cleartext, stream (encrypt-and-MAC and encrypt-then-MAC), AES-GCM and chacha20-poly1305 modes,
  and the stateful \<open>PacketCodec\<close> with its sequence numbers, counters and compression channels. The
  random padding is an argument \<open>rnd\<close>: the bytes the generator fills a buffer of a given length
  with. Operations return the state they leave together with their result, also when they fail. A
  compression or decryption call that fails inside its crate leaves its coder where it was here; the
  code drops the connection then and never uses the coder again. The traffic statistics wrap at
  \<open>2^64\<close>, as in a release build.
\<close>

section \<open>Constants and padding\<close>

definition BLOCK_SIZE_DEFAULT :: nat where "BLOCK_SIZE_DEFAULT = 8"
definition MIN_TOTAL_LEN :: nat where "MIN_TOTAL_LEN = 16"

definition MAX_ENCODABLE_PAYLOAD :: nat where
  "MAX_ENCODABLE_PAYLOAD = unat MAX_PACKET_LEN - 256"

definition payload_within_limit :: "nat \<Rightarrow> bool" where
  "payload_within_limit n \<longleftrightarrow> n < MAX_ENCODABLE_PAYLOAD"

text \<open>The \<open>while\<close> loop that raises the padding to the minimum packet size.\<close>

function pad_min :: "nat \<Rightarrow> nat \<Rightarrow> nat \<Rightarrow> nat" where
  "pad_min payload_len bsz pad =
     (if 4 + 1 + payload_len + pad < MIN_TOTAL_LEN
      then pad_min payload_len bsz (pad + max bsz 8) else pad)"
  by pat_completeness auto
termination
  by (relation "measure (\<lambda>(_, _, pad). MIN_TOTAL_LEN - pad)") auto

declare pad_min.simps [simp del]

definition padding_for :: "nat \<Rightarrow> nat \<Rightarrow> bool \<Rightarrow> nat" where
  "padding_for payload_len bsz encrypts_len =
     (let bs = max bsz 8;
          unit = (if encrypts_len then 4 + 1 + payload_len else 1 + payload_len);
          rem = unit mod bs;
          pad = bs - rem;
          pad1 = (if pad < 4 then pad + bs else pad)
      in if encrypts_len then pad_min payload_len bsz pad1 else pad1)"

section \<open>Framing\<close>

definition clear_frame :: "bytes \<Rightarrow> nat \<Rightarrow> (nat \<Rightarrow> bytes) \<Rightarrow> bytes" where
  "clear_frame payload pad rnd =
     u32_to_be (of_nat (1 + length payload + pad)) @ [of_nat pad] @ payload @ rnd pad"

definition encode_cleartext :: "bytes \<Rightarrow> (nat \<Rightarrow> bytes) \<Rightarrow> bytes res" where
  "encode_cleartext payload rnd =
     (if \<not> payload_within_limit (length payload) then Err (Protocol ''payload exceeds encoder limit'')
      else
        let pad = padding_for (length payload) BLOCK_SIZE_DEFAULT True;
            packet_length = 1 + length payload + pad
        in if packet_length + 4 < MIN_TOTAL_LEN then Err (Protocol ''packet too short'')
           else Ok (clear_frame payload pad rnd))"

text \<open>\<open>u32::from_be_bytes([buf[0], buf[1], buf[2], buf[3]])\<close>\<close>

definition be_u32_at :: "bytes \<Rightarrow> u32 res" where
  "be_u32_at buf =
     bind_res (index_res buf 0) (\<lambda>b0. bind_res (index_res buf 1) (\<lambda>b1.
     bind_res (index_res buf 2) (\<lambda>b2. bind_res (index_res buf 3) (\<lambda>b3.
       Ok (u32_from_be [b0, b1, b2, b3])))))"

type_synonym decoded = "(bytes \<times> nat) option res"

definition decode_cleartext :: "bytes \<Rightarrow> decoded" where
  "decode_cleartext buf =
     (if length buf < 5 then Ok None
      else bind_res (be_u32_at buf) (\<lambda>packet_length.
        if packet_length > MAX_PACKET_LEN then Err (Protocol ''packet length exceeds limit'')
        else
          let plen = unat packet_length; total = 4 + plen in
          if total < MIN_TOTAL_LEN then Err (Protocol ''packet too short'')
          else if (packet_length + 4) mod of_nat BLOCK_SIZE_DEFAULT \<noteq> 0
          then Err (Protocol ''packet length not block-aligned'')
          else if length buf < total then Ok None
          else bind_res (index_res buf 4) (\<lambda>b.
            let pad_len = unat b in
            if \<not> (4 \<le> pad_len \<and> pad_len \<le> 255) then Err BadPadding
            else if pad_len + 1 > plen then Err BadPadding
            else bind_res (sub_res (4 + plen) pad_len) (\<lambda>payload_end.
              if payload_end < 5 then Err BadPadding
              else bind_res (slice_res buf 5 payload_end) (\<lambda>payload. Ok (Some (payload, total)))))))"

text \<open>The padding checks on a decrypted body that starts with the padding length.\<close>

definition strip_body :: "bytes \<Rightarrow> bytes res" where
  "strip_body body =
     bind_res (index_res body 0) (\<lambda>b.
       let pad_len = unat b in
       if \<not> (4 \<le> pad_len \<and> pad_len \<le> 255) then Err BadPadding
       else if pad_len + 1 > length body then Err BadPadding
       else bind_res (sub_res (length body) pad_len) (\<lambda>e. slice_res body 1 e))"

text \<open>\<open>?\<close> in an operation that carries a state.\<close>

definition st_try :: "'st \<Rightarrow> 'a res \<Rightarrow> ('a \<Rightarrow> 'st \<times> 'b res) \<Rightarrow> 'st \<times> 'b res" where
  "st_try st m f = (case m of Ok x \<Rightarrow> f x | Err e \<Rightarrow> (st, Err e) | Panic \<Rightarrow> (st, Panic))"

subsection \<open>Stream ciphers with a MAC\<close>

definition encode_stream :: "'s cipher_prims \<Rightarrow> mac_prims \<Rightarrow> u32 \<Rightarrow> bytes \<Rightarrow> (nat \<Rightarrow> bytes) \<Rightarrow>
    's ssh_cipher \<Rightarrow> ssh_mac \<Rightarrow> 's ssh_cipher \<times> bytes res" where
  "encode_stream P M seq payload rnd cipher mac =
     (if \<not> payload_within_limit (length payload)
      then (cipher, Err (Protocol ''payload exceeds encoder limit''))
      else
        let etm = mac_etm mac;
            pad = padding_for (length payload) (block_size cipher) (\<not> etm);
            packet_length = 1 + length payload + pad;
            frame = clear_frame payload pad rnd;
            tag_len = mac_tag_len mac
        in if \<not> etm \<and> packet_length + 4 < MIN_TOTAL_LEN
           then (cipher, Err (Protocol ''packet too short''))
           else if etm
           then st_try cipher (encrypt_blocks P cipher (drop 4 frame)) (\<lambda>(body, cipher').
                  let frame' = take 4 frame @ body in
                  st_try cipher' (mac_compute M mac seq frame' tag_len) (\<lambda>tag.
                    (cipher', Ok (frame' @ tag))))
           else st_try cipher (mac_compute M mac seq frame tag_len) (\<lambda>tag.
                  st_try cipher (encrypt_blocks P cipher frame) (\<lambda>(frame', cipher').
                    (cipher', Ok (frame' @ tag)))))"

definition decode_etm :: "'s cipher_prims \<Rightarrow> mac_prims \<Rightarrow> u32 \<Rightarrow> bytes \<Rightarrow>
    's ssh_cipher \<Rightarrow> ssh_mac \<Rightarrow> 's ssh_cipher \<times> decoded" where
  "decode_etm P M seq buf cipher mac =
     (if length buf < 4 then (cipher, Ok None)
      else st_try cipher (be_u32_at buf) (\<lambda>packet_length.
        if packet_length > MAX_PACKET_LEN then (cipher, Err (Protocol ''packet length exceeds limit''))
        else
          let body_len = unat packet_length; total = 4 + body_len + mac_tag_len mac in
          if \<not> block_size cipher dvd body_len
          then (cipher, Err (Protocol ''packet body not block-aligned''))
          else if body_len < block_size cipher then (cipher, Err (Protocol ''packet too short''))
          else if length buf < total then (cipher, Ok None)
          else st_try cipher (slice_res buf 0 (4 + body_len)) (\<lambda>mac_input.
               st_try cipher (slice_res buf (4 + body_len) total) (\<lambda>tag.
               st_try cipher (mac_verify M mac seq mac_input tag) (\<lambda>_.
               st_try cipher (slice_res buf 4 (4 + body_len)) (\<lambda>enc.
               st_try cipher (decrypt_blocks P cipher enc) (\<lambda>(body, cipher').
               st_try cipher' (strip_body body) (\<lambda>payload.
                 (cipher', Ok (Some (payload, total)))))))))))"

definition stream_length_err :: "nat \<Rightarrow> u32 \<Rightarrow> string option" where
  "stream_length_err bs packet_length =
     (if packet_length > MAX_PACKET_LEN then Some ''packet length exceeds limit''
      else if \<not> bs dvd 4 + unat packet_length then Some ''packet not block-aligned''
      else if 4 + unat packet_length < MIN_TOTAL_LEN then Some ''packet too short''
      else None)"

fun is_cbc :: "'s ssh_cipher \<Rightarrow> bool" where
  "is_cbc (Cbc _) = True"
| "is_cbc _ = False"

text \<open>The padding checks of the encrypt-and-MAC mode, whose plaintext starts with the length field.\<close>

definition strip_plain :: "bytes \<Rightarrow> bytes res" where
  "strip_plain plain =
     bind_res (index_res plain 4) (\<lambda>b.
       let pad_len = unat b in
       if \<not> (4 \<le> pad_len \<and> pad_len \<le> 255) then Err BadPadding
       else if 5 + pad_len > length plain then Err BadPadding
       else bind_res (sub_res (length plain) pad_len) (\<lambda>e. slice_res plain 5 e))"

type_synonym 's eam_state = "'s ssh_cipher \<times> bytes option"

text \<open>With the first block decrypted: the rest of the encrypt-and-MAC mode.\<close>

definition decode_eam_rest :: "'s cipher_prims \<Rightarrow> mac_prims \<Rightarrow> u32 \<Rightarrow> bytes \<Rightarrow>
    's ssh_cipher \<Rightarrow> ssh_mac \<Rightarrow> bytes \<Rightarrow> 's eam_state \<times> decoded" where
  "decode_eam_rest P M seq buf cipher mac first_block =
     st_try (cipher, None) (be_u32_at first_block) (\<lambda>packet_length.
       let bs = block_size cipher; body_len = unat packet_length in
       case stream_length_err bs packet_length of
         Some msg \<Rightarrow>
           if is_cbc cipher
           then if length buf < unat MAX_PACKET_LEN then ((cipher, Some first_block), Ok None)
                else ((cipher, None), Err BadMac)
           else ((cipher, None), Err (Protocol msg))
       | None \<Rightarrow>
           let total = 4 + body_len + mac_tag_len mac in
           if length buf < total then ((cipher, Some first_block), Ok None)
           else st_try (cipher, None)
                  (if 4 + body_len > bs
                   then bind_res (slice_res buf bs (4 + body_len)) (decrypt_blocks P cipher)
                   else Ok ([], cipher)) (\<lambda>(rest, cipher').
                let plain = first_block @ rest in
                st_try (cipher', None) (slice_res buf (4 + body_len) total) (\<lambda>tag.
                st_try (cipher', None) (mac_verify M mac seq plain tag) (\<lambda>_.
                st_try (cipher', None) (strip_plain plain) (\<lambda>payload.
                  ((cipher', None), Ok (Some (payload, total))))))))"

definition decode_eam :: "'s cipher_prims \<Rightarrow> mac_prims \<Rightarrow> u32 \<Rightarrow> bytes \<Rightarrow>
    's ssh_cipher \<Rightarrow> ssh_mac \<Rightarrow> bytes option \<Rightarrow> 's eam_state \<times> decoded" where
  "decode_eam P M seq buf cipher mac pending =
     (if length buf < block_size cipher then ((cipher, pending), Ok None)
      else case pending of
             Some b \<Rightarrow> decode_eam_rest P M seq buf cipher mac b
           | None \<Rightarrow>
               st_try (cipher, None)
                 (bind_res (slice_res buf 0 (block_size cipher)) (decrypt_blocks P cipher))
                 (\<lambda>(b, cipher'). decode_eam_rest P M seq buf cipher' mac b))"

definition decode_stream :: "'s cipher_prims \<Rightarrow> mac_prims \<Rightarrow> u32 \<Rightarrow> bytes \<Rightarrow>
    's ssh_cipher \<Rightarrow> ssh_mac \<Rightarrow> bytes option \<Rightarrow> 's eam_state \<times> decoded" where
  "decode_stream P M seq buf cipher mac pending =
     (if mac_etm mac
      then case decode_etm P M seq buf cipher mac of (cipher', r) \<Rightarrow> ((cipher', pending), r)
      else decode_eam P M seq buf cipher mac pending)"

subsection \<open>AES-GCM\<close>

definition encode_gcm :: "'s cipher_prims \<Rightarrow> bytes \<Rightarrow> (nat \<Rightarrow> bytes) \<Rightarrow> 's ssh_cipher \<Rightarrow> 's ssh_cipher \<times> bytes res"
  where
  "encode_gcm P payload rnd cipher =
     (if \<not> payload_within_limit (length payload)
      then (cipher, Err (Protocol ''payload exceeds encoder limit''))
      else
        let pad = padding_for (length payload) 16 False;
            frame = clear_frame payload pad rnd
        in st_try cipher (aead_seal_len_aad P cipher (take 4 frame) (drop 4 frame)) (\<lambda>(body, tag, cipher').
             (cipher', Ok (take 4 frame @ body @ tag))))"

definition decode_gcm :: "'s cipher_prims \<Rightarrow> bytes \<Rightarrow> 's ssh_cipher \<Rightarrow> 's ssh_cipher \<times> decoded" where
  "decode_gcm P buf cipher =
     (if length buf < 4 then (cipher, Ok None)
      else st_try cipher (be_u32_at buf) (\<lambda>packet_length.
        if packet_length > MAX_PACKET_LEN then (cipher, Err (Protocol ''packet length exceeds limit''))
        else
          let body_len = unat packet_length; total = 4 + body_len + 16 in
          if \<not> 16 dvd body_len then (cipher, Err (Protocol ''packet body not block-aligned''))
          else if body_len < 16 then (cipher, Err (Protocol ''packet too short''))
          else if length buf < total then (cipher, Ok None)
          else st_try cipher (slice_res buf 0 4) (\<lambda>length_field.
               st_try cipher (slice_res buf 4 (4 + body_len)) (\<lambda>enc.
               st_try cipher (slice_res buf (4 + body_len) total) (\<lambda>tag.
               st_try cipher (aead_open_len_aad P cipher length_field enc tag) (\<lambda>(body, cipher').
               st_try cipher' (strip_body body) (\<lambda>payload.
                 (cipher', Ok (Some (payload, total))))))))))"

subsection \<open>chacha20-poly1305\<close>

definition encode_chachapoly :: "'s cipher_prims \<Rightarrow> u32 \<Rightarrow> bytes \<Rightarrow> (nat \<Rightarrow> bytes) \<Rightarrow> 's ssh_cipher \<Rightarrow> bytes res"
  where
  "encode_chachapoly P seq payload rnd cipher =
     (if \<not> payload_within_limit (length payload) then Err (Protocol ''payload exceeds encoder limit'')
      else
        let pad = padding_for (length payload) 8 False;
            seq64 = ucast seq :: u64;
            frame = clear_frame payload pad rnd
        in bind_res (cp_xor_length P cipher seq64 (take 4 frame)) (\<lambda>len_part.
           bind_res (cp_xor_payload P cipher seq64 (drop 4 frame)) (\<lambda>body_part.
           bind_res (cp_tag P cipher seq64 len_part body_part) (\<lambda>tag.
             Ok (len_part @ body_part @ tag)))))"

definition decode_chachapoly :: "'s cipher_prims \<Rightarrow> u32 \<Rightarrow> bytes \<Rightarrow> 's ssh_cipher \<Rightarrow> decoded" where
  "decode_chachapoly P seq buf cipher =
     (if length buf < 4 then Ok None
      else
        let seq64 = ucast seq :: u64 in
        bind_res (slice_res buf 0 4) (\<lambda>enc_len_wire.
        bind_res (cp_xor_length P cipher seq64 enc_len_wire) (\<lambda>enc_len.
        bind_res (be_u32_at enc_len) (\<lambda>packet_length.
          if packet_length > MAX_PACKET_LEN then Err (Protocol ''packet length exceeds limit'')
          else
            let body_len = unat packet_length; total = 4 + body_len + 16 in
            if \<not> 8 dvd body_len then Err (Protocol ''packet body not block-aligned'')
            else if body_len < 8 then Err (Protocol ''packet too short'')
            else if length buf < total then Ok None
            else bind_res (slice_res buf 4 (4 + body_len)) (\<lambda>enc_payload.
                 bind_res (slice_res buf (4 + body_len) total) (\<lambda>tag.
                 bind_res (cp_verify_tag P cipher seq64 enc_len_wire enc_payload tag) (\<lambda>_.
                 bind_res (cp_xor_payload P cipher seq64 enc_payload) (\<lambda>body.
                 bind_res (strip_body body) (\<lambda>payload. Ok (Some (payload, total)))))))))))"

section \<open>PacketCodec\<close>

datatype 's cipher_slot =
    SlotNone
  | SlotStream "'s ssh_cipher" ssh_mac
  | SlotGcm "'s ssh_cipher"
  | SlotChaChaPoly "'s ssh_cipher"

fun classify :: "'s ssh_cipher \<Rightarrow> ssh_mac option \<Rightarrow> 's cipher_slot res" where
  "classify (Ctr c) mac =
     (case mac of None \<Rightarrow> Err (Protocol ''MAC required for non-AEAD cipher'')
      | Some m \<Rightarrow> Ok (SlotStream (Ctr c) m))"
| "classify (Cbc c) mac =
     (case mac of None \<Rightarrow> Err (Protocol ''MAC required for non-AEAD cipher'')
      | Some m \<Rightarrow> Ok (SlotStream (Cbc c) m))"
| "classify (Gcm g) mac = Ok (SlotGcm (Gcm g))"
| "classify (ChaChaPoly c) mac = Ok (SlotChaChaPoly (ChaChaPoly c))"

record traffic_stats =
  packets_in :: u64
  packets_out :: u64
  t_bytes_in :: u64
  t_bytes_out :: u64
  compressed_in :: u64
  raw_in :: u64
  raw_out :: u64
  compressed_out :: u64

record ('s, 'e, 'd) packet_codec =
  seq_in :: u32
  seq_out :: u32
  bytes_out :: u64
  bytes_in :: u64
  seq_in_base :: u32
  seq_out_base :: u32
  outbound :: "'s cipher_slot"
  inbound :: "'s cipher_slot"
  pending_first_block :: "bytes option"
  outbound_compress :: "'e compressor"
  inbound_decompress :: "'d decompressor"
  traffic :: traffic_stats

definition codec_new :: "('s, 'e, 'd) packet_codec" where
  "codec_new = \<lparr>seq_in = 0, seq_out = 0, bytes_out = 0, bytes_in = 0, seq_in_base = 0, seq_out_base = 0,
     outbound = SlotNone, inbound = SlotNone, pending_first_block = None,
     outbound_compress = NoneCompress, inbound_decompress = NoneDecompress,
     traffic = \<lparr>packets_in = 0, packets_out = 0, t_bytes_in = 0, t_bytes_out = 0, compressed_in = 0,
                raw_in = 0, raw_out = 0, compressed_out = 0\<rparr>\<rparr>"

definition install_outbound ::
    "('s, 'e, 'd) packet_codec \<Rightarrow> 's ssh_cipher \<Rightarrow> ssh_mac option \<Rightarrow> ('s, 'e, 'd) packet_codec \<times> unit res" where
  "install_outbound k cipher mac =
     st_try k (classify cipher mac) (\<lambda>slot. (k\<lparr>outbound := slot\<rparr>, Ok ()))"

definition install_inbound ::
    "('s, 'e, 'd) packet_codec \<Rightarrow> 's ssh_cipher \<Rightarrow> ssh_mac option \<Rightarrow> ('s, 'e, 'd) packet_codec \<times> unit res" where
  "install_inbound k cipher mac =
     st_try k (classify cipher mac) (\<lambda>slot. (k\<lparr>inbound := slot, pending_first_block := None\<rparr>, Ok ()))"

definition reset_rekey_epoch :: "('s, 'e, 'd) packet_codec \<Rightarrow> ('s, 'e, 'd) packet_codec" where
  "reset_rekey_epoch k = k\<lparr>bytes_in := 0, bytes_out := 0, seq_in_base := seq_in k, seq_out_base := seq_out k\<rparr>"

definition reset_sequence_numbers :: "('s, 'e, 'd) packet_codec \<Rightarrow> ('s, 'e, 'd) packet_codec" where
  "reset_sequence_numbers k = k\<lparr>seq_in := 0, seq_out := 0\<rparr>"

definition reset_outbound_sequence :: "('s, 'e, 'd) packet_codec \<Rightarrow> ('s, 'e, 'd) packet_codec" where
  "reset_outbound_sequence k = k\<lparr>seq_out := 0\<rparr>"

definition reset_inbound_sequence :: "('s, 'e, 'd) packet_codec \<Rightarrow> ('s, 'e, 'd) packet_codec" where
  "reset_inbound_sequence k = k\<lparr>seq_in := 0\<rparr>"

definition install_outbound_compress ::
    "('e, 'd) zlib_prims \<Rightarrow> 'e compressor \<Rightarrow> ('s, 'e, 'd) packet_codec \<Rightarrow> ('s, 'e, 'd) packet_codec" where
  "install_outbound_compress Z c k =
     k\<lparr>outbound_compress :=
         (if compress_name (outbound_compress k) \<noteq> lit ''none'' \<and> compress_active (outbound_compress k)
          then compress_activate Z c else c)\<rparr>"

definition install_inbound_decompress ::
    "('e, 'd) zlib_prims \<Rightarrow> 'd decompressor \<Rightarrow> ('s, 'e, 'd) packet_codec \<Rightarrow> ('s, 'e, 'd) packet_codec" where
  "install_inbound_decompress Z d k =
     k\<lparr>inbound_decompress :=
         (if decompress_name (inbound_decompress k) \<noteq> lit ''none'' \<and> decompress_active (inbound_decompress k)
          then decompress_activate Z d else d)\<rparr>"

definition activate_compress :: "('e, 'd) zlib_prims \<Rightarrow> ('s, 'e, 'd) packet_codec \<Rightarrow> ('s, 'e, 'd) packet_codec" where
  "activate_compress Z k =
     k\<lparr>outbound_compress := compress_activate Z (outbound_compress k),
       inbound_decompress := decompress_activate Z (inbound_decompress k)\<rparr>"

text \<open>Encrypting and decrypting one frame in the installed slot; the slot carries the cipher state.\<close>

fun encode_slot :: "'s cipher_prims \<Rightarrow> mac_prims \<Rightarrow> u32 \<Rightarrow> bytes \<Rightarrow> (nat \<Rightarrow> bytes) \<Rightarrow>
    's cipher_slot \<Rightarrow> 's cipher_slot \<times> bytes res" where
  "encode_slot P M seq payload rnd SlotNone = (SlotNone, encode_cleartext payload rnd)"
| "encode_slot P M seq payload rnd (SlotStream c m) =
     (case encode_stream P M seq payload rnd c m of (c', r) \<Rightarrow> (SlotStream c' m, r))"
| "encode_slot P M seq payload rnd (SlotGcm c) =
     (case encode_gcm P payload rnd c of (c', r) \<Rightarrow> (SlotGcm c', r))"
| "encode_slot P M seq payload rnd (SlotChaChaPoly c) =
     (SlotChaChaPoly c, encode_chachapoly P seq payload rnd c)"

fun decode_slot :: "'s cipher_prims \<Rightarrow> mac_prims \<Rightarrow> u32 \<Rightarrow> bytes \<Rightarrow>
    's cipher_slot \<Rightarrow> bytes option \<Rightarrow> ('s cipher_slot \<times> bytes option) \<times> decoded" where
  "decode_slot P M seq buf SlotNone pending = ((SlotNone, pending), decode_cleartext buf)"
| "decode_slot P M seq buf (SlotStream c m) pending =
     (case decode_stream P M seq buf c m pending of ((c', pending'), r) \<Rightarrow> ((SlotStream c' m, pending'), r))"
| "decode_slot P M seq buf (SlotGcm c) pending =
     (case decode_gcm P buf c of (c', r) \<Rightarrow> ((SlotGcm c', pending), r))"
| "decode_slot P M seq buf (SlotChaChaPoly c) pending =
     ((SlotChaChaPoly c, pending), decode_chachapoly P seq buf c)"

text \<open>
  The two halves of \<open>encode\<close>: compressing the payload, then framing it and counting. The outer
  \<open>None\<close> means that a compression loop does not return.
\<close>

definition encode_compress :: "('e, 'd) zlib_prims \<Rightarrow> ('s, 'e, 'd) packet_codec \<Rightarrow> bytes \<Rightarrow>
    (('s, 'e, 'd) packet_codec \<times> bytes res) option" where
  "encode_compress Z k payload =
     (if compress_active (outbound_compress k) \<and> compress_name (outbound_compress k) \<noteq> lit ''none''
      then map_option (\<lambda>r. st_try k r (\<lambda>(out, c').
             (k\<lparr>outbound_compress := c',
                traffic := (traffic k)\<lparr>raw_out := raw_out (traffic k) + of_nat (length payload),
                                      compressed_out := compressed_out (traffic k) + of_nat (length out)\<rparr>\<rparr>,
              Ok out))) (compress Z (outbound_compress k) payload)
      else Some (k, Ok payload))"

definition encode_frame :: "'s cipher_prims \<Rightarrow> mac_prims \<Rightarrow> ('s, 'e, 'd) packet_codec \<Rightarrow> bytes \<Rightarrow>
    (nat \<Rightarrow> bytes) \<Rightarrow> ('s, 'e, 'd) packet_codec \<times> bytes res" where
  "encode_frame P M k to_frame rnd =
     (case encode_slot P M (seq_out k) to_frame rnd (outbound k) of
        (slot, r) \<Rightarrow>
          let k1 = k\<lparr>outbound := slot\<rparr> in
          st_try k1 r (\<lambda>frame.
            (k1\<lparr>seq_out := seq_out k1 + 1,
                bytes_out := sat_add (bytes_out k1) (of_nat (length frame)),
                traffic := (traffic k1)\<lparr>packets_out := packets_out (traffic k1) + 1,
                  t_bytes_out := t_bytes_out (traffic k1) + of_nat (length frame)\<rparr>\<rparr>,
             Ok frame)))"

definition codec_encode :: "'s cipher_prims \<Rightarrow> mac_prims \<Rightarrow> ('e, 'd) zlib_prims \<Rightarrow>
    ('s, 'e, 'd) packet_codec \<Rightarrow> bytes \<Rightarrow> (nat \<Rightarrow> bytes) \<Rightarrow> (('s, 'e, 'd) packet_codec \<times> bytes res) option" where
  "codec_encode P M Z k payload rnd =
     map_option (\<lambda>(k1, to_frame). st_try k1 to_frame (\<lambda>body. encode_frame P M k1 body rnd))
       (encode_compress Z k payload)"

text \<open>The two halves of \<open>decode\<close>: a frame off the buffer, with the counters; then decompressing it.\<close>

definition decode_frame :: "'s cipher_prims \<Rightarrow> mac_prims \<Rightarrow> ('s, 'e, 'd) packet_codec \<Rightarrow> bytes \<Rightarrow>
    ('s, 'e, 'd) packet_codec \<times> decoded" where
  "decode_frame P M k buf =
     (case decode_slot P M (seq_in k) buf (inbound k) (pending_first_block k) of
        ((slot, pending), r) \<Rightarrow>
          let k1 = k\<lparr>inbound := slot, pending_first_block := pending\<rparr> in
          st_try k1 r (\<lambda>x.
            case x of
              None \<Rightarrow> (k1, Ok None)
            | Some (payload, consumed) \<Rightarrow>
                (k1\<lparr>seq_in := seq_in k1 + 1,
                    bytes_in := sat_add (bytes_in k1) (of_nat consumed),
                    traffic := (traffic k1)\<lparr>packets_in := packets_in (traffic k1) + 1,
                      t_bytes_in := t_bytes_in (traffic k1) + of_nat consumed\<rparr>\<rparr>,
                 Ok (Some (payload, consumed)))))"

definition decode_decompress :: "('e, 'd) zlib_prims \<Rightarrow> ('s, 'e, 'd) packet_codec \<Rightarrow> bytes \<Rightarrow> nat \<Rightarrow>
    (('s, 'e, 'd) packet_codec \<times> decoded) option" where
  "decode_decompress Z k payload consumed =
     (if decompress_active (inbound_decompress k) \<and> decompress_name (inbound_decompress k) \<noteq> lit ''none''
      then map_option (\<lambda>r. st_try k r (\<lambda>(raw, d').
             (k\<lparr>inbound_decompress := d',
                traffic := (traffic k)\<lparr>compressed_in := compressed_in (traffic k) + of_nat (length payload),
                                      raw_in := raw_in (traffic k) + of_nat (length raw)\<rparr>\<rparr>,
              Ok (Some (raw, consumed)))))
           (decompress Z (inbound_decompress k) payload)
      else Some (k, Ok (Some (payload, consumed))))"

definition codec_decode :: "'s cipher_prims \<Rightarrow> mac_prims \<Rightarrow> ('e, 'd) zlib_prims \<Rightarrow>
    ('s, 'e, 'd) packet_codec \<Rightarrow> bytes \<Rightarrow> (('s, 'e, 'd) packet_codec \<times> decoded) option" where
  "codec_decode P M Z k buf =
     (case decode_frame P M k buf of
        (k1, Ok (Some (payload, consumed))) \<Rightarrow> decode_decompress Z k1 payload consumed
      | (k1, r) \<Rightarrow> Some (k1, r))"

end
