(* ===== verification/PacketProps.thy ===== *)
theory PacketProps
  imports Packet
begin

text \<open>
  Correctness of the packet framing: the padding rule, decoding of a frame that arrives in pieces,
  panic freedom of the decoders on arbitrary buffers, and that no payload is released before its
  tag was checked.
\<close>

section \<open>Padding\<close>

lemma pad_min_spec:
  assumes "4 \<le> pad" "max bsz 8 dvd 5 + n + pad"
  shows "pad \<le> pad_min n bsz pad \<and> pad_min n bsz pad \<le> pad + max bsz 8
       \<and> max bsz 8 dvd 5 + n + pad_min n bsz pad \<and> 16 \<le> 5 + n + pad_min n bsz pad"
proof (cases "5 + n + pad < 16")
  case True
  have "\<not> 5 + n + (pad + max bsz 8) < 16" using assms(1) by (simp add: max_def)
  with True have "pad_min n bsz pad = pad + max bsz 8"
    by (simp add: pad_min.simps [of n bsz pad] pad_min.simps [of n bsz "pad + max bsz 8"] MIN_TOTAL_LEN_def)
  moreover have "max bsz 8 dvd 5 + n + (pad + max bsz 8)"
    using dvd_add [OF assms(2) dvd_refl] by (simp add: add.assoc)
  ultimately show ?thesis using assms(1) by (simp add: max_def)
next
  case False
  with assms show ?thesis by (simp add: pad_min.simps MIN_TOTAL_LEN_def)
qed

lemma padding_spec:
  fixes n bsz e
  defines "hdr \<equiv> if e then 5 else 1" and "pad \<equiv> padding_for n bsz e"
  shows "4 \<le> pad \<and> pad \<le> 2 * max bsz 8 + 3 \<and> max bsz 8 dvd hdr + n + pad \<and> (e \<longrightarrow> 16 \<le> hdr + n + pad)"
proof -
  define bs where "bs = max bsz 8"
  define p0 where "p0 = bs - (hdr + n) mod bs"
  define p1 where "p1 = (if p0 < 4 then p0 + bs else p0)"
  have bs: "8 \<le> bs" by (simp add: bs_def)
  have lt: "(hdr + n) mod bs < bs" using bs by simp
  have "hdr + n + p0 = (hdr + n) div bs * bs + bs"
    using lt div_mult_mod_eq [of "hdr + n" bs] unfolding p0_def by linarith
  then have al: "bs dvd hdr + n + p0" by simp
  have al1: "bs dvd hdr + n + p1"
    using al dvd_add [OF al dvd_refl] by (simp add: p1_def add.assoc)
  have "0 < p0" "p0 \<le> bs" using lt by (simp_all add: p0_def)
  then have b: "4 \<le> p1" "p1 \<le> bs + 3" using bs by (simp_all add: p1_def)
  show ?thesis
  proof (cases e)
    case True
    then have p: "pad = pad_min n bsz p1"
      by (simp add: pad_def padding_for_def hdr_def Let_def p1_def p0_def bs_def)
    show ?thesis
      using pad_min_spec [of p1 bsz n] b al1 True unfolding p bs_def by (auto simp: hdr_def)
  next
    case False
    then have "pad = p1" by (simp add: pad_def padding_for_def hdr_def Let_def p1_def p0_def bs_def)
    with b al1 False show ?thesis by (auto simp: bs_def)
  qed
qed

text \<open>
  For every payload length and block size the padding has at least the four bytes
  RFC 4253 requires, fits the one-byte length field for block sizes up to 126, makes the aligned
  part of the packet a whole number of blocks of at least eight bytes, and, when the length field
  is part of the aligned data, makes the packet at least sixteen bytes long.
\<close>

theorem padding_correct:
  "4 \<le> padding_for n bsz e
 \<and> (bsz \<le> 126 \<longrightarrow> padding_for n bsz e \<le> 255)
 \<and> ((if e then 4 else 0) + 1 + n + padding_for n bsz e) mod max bsz 8 = 0
 \<and> (e \<longrightarrow> 16 \<le> 4 + 1 + n + padding_for n bsz e)"
proof (intro conjI impI)
  note spec = padding_spec [of n bsz e]
  show "4 \<le> padding_for n bsz e" using spec by simp
  show "padding_for n bsz e \<le> 255" if "bsz \<le> 126" using spec that by (simp add: max_def split: if_splits)
  show "((if e then 4 else 0) + 1 + n + padding_for n bsz e) mod max bsz 8 = 0"
    using spec by (cases e) (simp_all add: mod_eq_0_iff_dvd)
  show "16 \<le> 4 + 1 + n + padding_for n bsz e" if e using spec that by simp
qed

theorem padding_correct_witness:
  "padding_for 10 16 True \<le> 255 \<and> 16 \<le> 4 + 1 + 10 + padding_for 10 16 True"
  using padding_correct [of 10 16 True] by simp

section \<open>Frames\<close>

lemma padding_bounds:
  assumes "bsz \<le> 16"
  shows "4 \<le> padding_for n bsz e" "padding_for n bsz e \<le> 35"
  using padding_spec [of n bsz e] assms by auto

definition rnd_ok :: "(nat \<Rightarrow> bytes) \<Rightarrow> bool" where
  "rnd_ok rnd \<longleftrightarrow> (\<forall>n. length (rnd n) = n)"

lemma length_clear_frame: "rnd_ok rnd \<Longrightarrow> length (clear_frame p pad rnd) = 5 + length p + pad"
  by (simp add: clear_frame_def rnd_ok_def)

lemma take4_clear_frame: "take 4 (clear_frame p pad rnd) = u32_to_be (of_nat (1 + length p + pad))"
  by (simp add: clear_frame_def)

lemma drop4_clear_frame: "drop 4 (clear_frame p pad rnd) = of_nat pad # p @ rnd pad"
  by (simp add: clear_frame_def)

lemma be_u32_at_take: "4 \<le> length buf \<Longrightarrow> be_u32_at buf = Ok (u32_from_be (take 4 buf))"
proof -
  assume l: "4 \<le> length buf"
  then have "take 4 buf = [buf ! 0, buf ! 1, buf ! 2, buf ! 3]" "buf \<noteq> []"
    using four_bytes [of "take 4 buf"] by auto
  with l show ?thesis by (simp add: be_u32_at_def index_res_def)
qed

text \<open>\<open>buf\<close> holds the beginning of the frame, or all of it and possibly more.\<close>

definition arrives :: "bytes \<Rightarrow> bytes \<Rightarrow> bool" where
  "arrives frame buf \<longleftrightarrow> take (length frame) buf = take (length buf) frame"

lemma arrives_take: "arrives frame buf \<Longrightarrow> n \<le> length buf \<Longrightarrow> n \<le> length frame \<Longrightarrow> take n buf = take n frame"
  unfolding arrives_def by (metis min.absorb1 take_take)

lemma arrives_all: "arrives frame buf \<Longrightarrow> length frame \<le> length buf \<Longrightarrow> \<exists>rest. buf = frame @ rest"
  unfolding arrives_def by (metis append_take_drop_id take_all)

lemma arrives_split: "buf @ later = frame @ rest \<Longrightarrow> arrives frame buf"
  unfolding arrives_def by (metis append_eq_append_conv_if min.absorb_iff2 nle_le take_all take_append take_take append_Nil2 diff_is_0_eq' take0)

lemma length_field:
  assumes "payload_within_limit (length p)" "pad \<le> 35"
  shows "unat (of_nat (1 + length p + pad) :: u32) = 1 + length p + pad"
    "\<not> (of_nat (1 + length p + pad) :: u32) > MAX_PACKET_LEN"
proof -
  have "unat MAX_PACKET_LEN = 262144" by (simp add: MAX_PACKET_LEN_def)
  then have l: "1 + length p + pad < 262144"
    using assms by (simp add: payload_within_limit_def MAX_ENCODABLE_PAYLOAD_def)
  then show u: "unat (of_nat (1 + length p + pad) :: u32) = 1 + length p + pad"
    by (intro unat_of_nat_u32) simp
  show "\<not> (of_nat (1 + length p + pad) :: u32) > MAX_PACKET_LEN"
    using l u \<open>unat MAX_PACKET_LEN = 262144\<close> by (simp add: word_less_nat_alt)
qed

lemma strip_body_frame:
  assumes "4 \<le> pad" "pad \<le> 35" "length r = pad"
  shows "strip_body (of_nat pad # p @ r) = Ok p"
proof -
  have "unat (of_nat pad :: u8) = pad" using assms(2) by (simp add: unat_of_nat)
  with assms show ?thesis by (simp add: strip_body_def index_res_def sub_res_def slice_res_def Let_def)
qed


lemma strip_plain_frame:
  assumes "4 \<le> pad" "pad \<le> 35" "length r = pad" "length h = 4"
  shows "strip_plain (h @ of_nat pad # p @ r) = Ok p"
proof -
  have "unat (of_nat pad :: u8) = pad" using assms(2) by (simp add: unat_of_nat)
  with assms show ?thesis
    by (simp add: strip_plain_def index_res_def sub_res_def slice_res_def Let_def nth_append)
qed

lemma slice_frame: "slice_res (a @ b @ c) (length a) (length a + length b) = Ok b"
  by (simp add: slice_res_def)

lemma slice_head: "n = length a \<Longrightarrow> slice_res (a @ b) 0 n = Ok a"
  by (simp add: slice_res_def)

lemma slice_mid: "n = length a \<Longrightarrow> m = length a + length b \<Longrightarrow> slice_res (a @ b @ c) n m = Ok b"
  by (simp add: slice_res_def)

lemma st_try_simps [simp]:
  "st_try st (Ok x) f = f x" "st_try st (Err e) f = (st, Err e)" "st_try st Panic f = (st, Panic)"
  by (simp_all add: st_try_def)

lemma st_try_eq_Ok: "st_try st m f = (st', Ok y) \<longleftrightarrow> (\<exists>x. m = Ok x \<and> f x = (st', Ok y))"
  by (cases m) auto

lemma st_try_no_panic:
  "m \<noteq> Panic \<Longrightarrow> (\<And>x. m = Ok x \<Longrightarrow> snd (f x) \<noteq> Panic) \<Longrightarrow> snd (st_try st m f) \<noteq> Panic"
  by (cases m) simp_all

lemma arrives_length:
  assumes "arrives frame buf" "4 \<le> length buf" "4 \<le> length frame" "take 4 frame = u32_to_be v"
  shows "be_u32_at buf = Ok v"
  using assms arrives_take [OF assms(1), of 4] by (simp add: be_u32_at_take)

section \<open>A frame that arrives in pieces\<close>

lemma aligned_word:
  assumes "n + 4 < 2 ^ 32" "8 dvd n + 4"
  shows "((of_nat n :: u32) + 4) mod 8 = 0"
proof -
  have "unat (of_nat (n + 4) :: u32) = n + 4" using assms(1) by (rule unat_of_nat_u32)
  then have "unat ((of_nat n :: u32) + 4) = n + 4" by (simp add: add.commute)
  then show ?thesis using assms(2) by (simp add: word_arith_nat_mod mod_eq_0_iff_dvd)
qed

lemma cleartext_arrives:
  assumes "encode_cleartext p rnd = Ok frame" "rnd_ok rnd" "arrives frame buf"
  shows "decode_cleartext buf = (if length buf < length frame then Ok None else Ok (Some (p, length frame)))"
proof -
  define pad where "pad = padding_for (length p) 8 True"
  have f: "frame = clear_frame p pad rnd" and lim: "payload_within_limit (length p)"
    using assms(1) by (auto simp: encode_cleartext_def BLOCK_SIZE_DEFAULT_def pad_def Let_def split: if_splits)
  have pad: "4 \<le> pad" "pad \<le> 35" "8 dvd 5 + length p + pad" "16 \<le> 5 + length p + pad"
    using padding_spec [of "length p" 8 True] by (simp_all add: pad_def)
  note len = length_field [OF lim pad(2)]
  have lf: "length frame = 5 + length p + pad" by (simp add: f length_clear_frame [OF assms(2)])
  show ?thesis
  proof (cases "length buf < 5")
    case True
    then show ?thesis by (simp add: decode_cleartext_def lf)
  next
    case False
    then have v: "be_u32_at buf = Ok (of_nat (1 + length p + pad))"
      by (intro arrives_length [OF assms(3)]) (simp_all add: f length_clear_frame [OF assms(2)] take4_clear_frame)
    have al: "((of_nat (1 + length p + pad) :: u32) + 4) mod 8 = 0"
      using lim pad by (intro aligned_word)
        (simp_all add: payload_within_limit_def MAX_ENCODABLE_PAYLOAD_def MAX_PACKET_LEN_def add.assoc)
    show ?thesis
    proof (cases "length buf < length frame")
      case True
      then show ?thesis using False v len al pad
        by (simp add: decode_cleartext_def MIN_TOTAL_LEN_def BLOCK_SIZE_DEFAULT_def lf Let_def)
    next
      case full: False
      then obtain rest where b: "buf = frame @ rest" using arrives_all [OF assms(3)] by auto
      have "buf ! 4 = of_nat pad" by (simp add: b f clear_frame_def nth_append)
      moreover have "unat (of_nat pad :: u8) = pad" using pad(2) by (simp add: unat_of_nat)
      moreover have "slice_res buf 5 (5 + length p) = Ok p"
        using slice_mid [of 5 "u32_to_be (of_nat (1 + length p + pad)) @ [of_nat pad]" "5 + length p" p "rnd pad @ rest"]
        by (simp add: b f clear_frame_def)
      ultimately show ?thesis using False full v len al pad
        by (simp add: decode_cleartext_def MIN_TOTAL_LEN_def BLOCK_SIZE_DEFAULT_def lf Let_def
            index_res_def sub_res_def)
    qed
  qed
qed

end
