(* ===== verification/PacketModes.thy ===== *)
theory PacketModes
  imports PacketProps
begin

text \<open>
  The encrypted modes of the packet protocol: a frame the sender made is accepted by the receiver
  at the end of any sequence of partial arrivals, and the cipher states of the two ends agree again.
\<close>

section \<open>Well-formed slots\<close>

fun is_gcm :: "'s ssh_cipher \<Rightarrow> bool" where
  "is_gcm (Gcm _) = True"
| "is_gcm _ = False"

fun is_chachapoly :: "'s ssh_cipher \<Rightarrow> bool" where
  "is_chachapoly (ChaChaPoly _) = True"
| "is_chachapoly _ = False"

fun slot_wf :: "'s cipher_slot \<Rightarrow> bool" where
  "slot_wf SlotNone = True"
| "slot_wf (SlotStream c m) = (\<not> is_aead c \<and> mac_wf m)"
| "slot_wf (SlotGcm c) = is_gcm c"
| "slot_wf (SlotChaChaPoly c) = is_chachapoly c"

lemma classify_wf: "classify c mac = Ok slot \<Longrightarrow> (\<forall>m. mac = Some m \<longrightarrow> mac_wf m) \<Longrightarrow> slot_wf slot"
  by (cases c) (auto split: option.splits)

lemma block_size_cases: "block_size c = 8 \<or> block_size c = 16"
proof (cases c)
  case (Cbc s)
  obtain alg x where "s = CbcState alg x" by (cases s)
  with Cbc show ?thesis by (cases alg) simp_all
qed simp_all

lemma frame_geometry:
  fixes e :: bool
  assumes "payload_within_limit (length p)" "rnd_ok rnd" "b = 8 \<or> b = 16"
  defines "pad \<equiv> padding_for (length p) b e"
  defines "n \<equiv> 1 + length p + pad"
  shows "4 \<le> pad" "pad \<le> 35" "length (clear_frame p pad rnd) = 4 + n"
    "unat (of_nat n :: u32) = n" "\<not> (of_nat n :: u32) > MAX_PACKET_LEN"
    "b dvd (if e then 4 else 0) + n" "e \<Longrightarrow> MIN_TOTAL_LEN \<le> 4 + n" "b \<le> (if e then 4 else 0) + n"
proof -
  have m: "max b 8 = b" using assms(3) by auto
  note spec = padding_spec [of "length p" b e]
  show pad: "4 \<le> pad" "pad \<le> 35" using spec assms(3) m by (auto simp: pad_def)
  show "length (clear_frame p pad rnd) = 4 + n" by (simp add: length_clear_frame [OF assms(2)] n_def)
  show "unat (of_nat n :: u32) = n" "\<not> (of_nat n :: u32) > MAX_PACKET_LEN"
    unfolding n_def by (rule length_field [OF assms(1) pad(2)])+
  show d: "b dvd (if e then 4 else 0) + n" using spec m by (simp add: pad_def n_def add.assoc split: if_splits)
  show "e \<Longrightarrow> MIN_TOTAL_LEN \<le> 4 + n" using spec by (simp add: pad_def n_def MIN_TOTAL_LEN_def)
  show "b \<le> (if e then 4 else 0) + n" using d by (rule dvd_imp_le) (simp add: n_def)
qed

section \<open>Encrypt-then-MAC\<close>

lemma etm_encode:
  assumes "cipher_prims_ok P" "mac_prims_ok M" "\<not> is_aead c" "mac_wf m" "mac_etm m" "rnd_ok rnd"
    "encode_stream P M q p rnd c m = (c', Ok frame)"
  obtains n body tag pad where "n = 1 + length p + pad" "4 \<le> pad" "pad \<le> 35"
    "frame = u32_to_be (of_nat n) @ body @ tag" "length body = n" "length tag = mac_tag_len m"
    "unat (of_nat n :: u32) = n" "\<not> (of_nat n :: u32) > MAX_PACKET_LEN" "block_size c dvd n" "block_size c \<le> n"
    "decrypt_blocks P c body = Ok (of_nat pad # p @ rnd pad, c')"
    "mac_verify M m q (u32_to_be (of_nat n) @ body) tag = Ok ()" "\<not> is_aead c'"
proof -
  define pad where "pad = padding_for (length p) (block_size c) False"
  define n where "n = 1 + length p + pad"
  have lim: "payload_within_limit (length p)"
    using assms(7) by (auto simp: encode_stream_def split: if_splits)
  note geo = frame_geometry [OF lim assms(6) block_size_cases [of c], of False, folded pad_def, folded n_def]
  define plain where "plain = of_nat pad # p @ rnd pad"
  have pl: "length plain = n" using assms(6) by (simp add: plain_def n_def rnd_ok_def)
  then have "block_size c dvd length plain" using geo(6) by simp
  from blocks_round_trip [OF assms(1,3) this] obtain e c1 where
    e: "encrypt_blocks P c plain = Ok (e, c1)" "length e = length plain"
      "decrypt_blocks P c e = Ok (plain, c1)" "\<not> is_aead c1" by metis
  obtain t where t: "mac_compute M m q (u32_to_be (of_nat n) @ e) (mac_tag_len m) = Ok t"
    "length t = mac_tag_len m" "mac_verify M m q (u32_to_be (of_nat n) @ e) t = Ok ()"
    by (metis mac_contract [OF assms(2,4)])
  have tk: "take 4 (clear_frame p pad rnd) = u32_to_be (of_nat n)"
    unfolding n_def by (rule take4_clear_frame)
  have dr: "drop 4 (clear_frame p pad rnd) = plain" unfolding plain_def by (rule drop4_clear_frame)
  have "encode_stream P M q p rnd c m = (c1, Ok ((u32_to_be (of_nat n) @ e) @ t))"
    using lim assms(5) e(1) t(1)
    by (simp add: encode_stream_def Let_def pad_def [symmetric] tk dr)
  then have "c' = c1" "frame = u32_to_be (of_nat n) @ e @ t" using assms(7) by simp_all
  then show ?thesis using that [of n pad e t] geo pl e t by (simp add: n_def plain_def)
qed

lemma etm_arrives:
  assumes "cipher_prims_ok P" "mac_prims_ok M" "\<not> is_aead c" "mac_wf m" "mac_etm m" "rnd_ok rnd"
    "encode_stream P M q p rnd c m = (c', Ok frame)" "arrives frame buf"
  shows "decode_etm P M q buf c m =
    (if length buf < length frame then (c, Ok None) else (c', Ok (Some (p, length frame))))"
proof (rule etm_encode [OF assms(1-7)])
  fix n body tag pad
  assume f: "n = 1 + length p + pad" "4 \<le> pad" "pad \<le> 35"
    "frame = u32_to_be (of_nat n) @ body @ tag" "length body = n" "length tag = mac_tag_len m"
    "unat (of_nat n :: u32) = n" "\<not> (of_nat n :: u32) > MAX_PACKET_LEN" "block_size c dvd n" "block_size c \<le> n"
    "decrypt_blocks P c body = Ok (of_nat pad # p @ rnd pad, c')"
    "mac_verify M m q (u32_to_be (of_nat n) @ body) tag = Ok ()" "\<not> is_aead c'"
  have lf: "length frame = 4 + n + mac_tag_len m" using f by simp
  have v: "be_u32_at buf = Ok (of_nat n)" if "4 \<le> length buf"
    using that by (intro arrives_length [OF assms(8)]) (simp_all add: f(4))
  show ?thesis
  proof (cases "length buf < length frame")
    case True
    then show ?thesis using v f(7-10) lf by (simp add: decode_etm_def Let_def)
  next
    case False
    then obtain rest where b: "buf = frame @ rest" using arrives_all [OF assms(8)] by auto
    have s: "slice_res buf 0 (4 + n) = Ok (u32_to_be (of_nat n) @ body)" "slice_res buf 4 (4 + n) = Ok body"
      "slice_res buf (4 + n) (4 + n + mac_tag_len m) = Ok tag"
      by (simp_all add: b f(4,5,6) slice_res_def)
    have "strip_body (of_nat pad # p @ rnd pad) = Ok p"
      using f(2,3) assms(6) by (intro strip_body_frame) (simp_all add: rnd_ok_def)
    moreover have "4 \<le> length buf" using False lf by simp
    ultimately show ?thesis using False v f(7-12) lf s by (simp add: decode_etm_def Let_def)
  qed
qed

section \<open>Encrypt-and-MAC\<close>

text \<open>
  The receiver of an encrypt-and-MAC frame has either not touched it yet, or decrypted its first
  block and kept the plaintext.
\<close>

definition eam_view :: "'s cipher_prims \<Rightarrow> 's ssh_cipher \<Rightarrow> bytes \<Rightarrow> 's eam_state \<Rightarrow> bool" where
  "eam_view P c frame st \<longleftrightarrow> st = (c, None)
     \<or> (\<exists>b c1. decrypt_blocks P c (take (block_size c) frame) = Ok (b, c1) \<and> st = (c1, Some b))"

lemma eam_encode:
  assumes "cipher_prims_ok P" "mac_prims_ok M" "\<not> is_aead c" "mac_wf m" "\<not> mac_etm m" "rnd_ok rnd"
    "encode_stream P M q p rnd c m = (c', Ok frame)"
  obtains n body tag pad where "n = 1 + length p + pad" "4 \<le> pad" "pad \<le> 35"
    "frame = body @ tag" "length body = 4 + n" "length tag = mac_tag_len m"
    "unat (of_nat n :: u32) = n" "stream_length_err (block_size c) (of_nat n) = None"
    "block_size c dvd 4 + n" "block_size c \<le> 4 + n"
    "decrypt_blocks P c body = Ok (u32_to_be (of_nat n) @ of_nat pad # p @ rnd pad, c')"
    "mac_verify M m q (u32_to_be (of_nat n) @ of_nat pad # p @ rnd pad) tag = Ok ()" "\<not> is_aead c'"
proof -
  define pad where "pad = padding_for (length p) (block_size c) True"
  define n where "n = 1 + length p + pad"
  have lim: "payload_within_limit (length p)"
    using assms(7) by (auto simp: encode_stream_def split: if_splits)
  note geo = frame_geometry [OF lim assms(6) block_size_cases [of c], of True, folded pad_def, folded n_def]
  define plain where "plain = clear_frame p pad rnd"
  have pl: "plain = u32_to_be (of_nat n) @ of_nat pad # p @ rnd pad"
    by (simp add: plain_def clear_frame_def n_def)
  have len: "length plain = 4 + n" using geo(3) by (simp add: plain_def)
  then have "block_size c dvd length plain" using geo(6) by simp
  from blocks_round_trip [OF assms(1,3) this] obtain e c1 where
    e: "encrypt_blocks P c plain = Ok (e, c1)" "length e = length plain"
      "decrypt_blocks P c e = Ok (plain, c1)" "\<not> is_aead c1" by metis
  obtain t where t: "mac_compute M m q plain (mac_tag_len m) = Ok t"
    "length t = mac_tag_len m" "mac_verify M m q plain t = Ok ()"
    by (metis mac_contract [OF assms(2,4)])
  have "encode_stream P M q p rnd c m = (c1, Ok (e @ t))"
    using lim assms(5) e(1) t(1) geo(7)
    by (simp add: encode_stream_def Let_def pad_def [symmetric] plain_def [symmetric] n_def)
  then have "c' = c1" "frame = e @ t" using assms(7) by simp_all
  moreover have "stream_length_err (block_size c) (of_nat n) = None"
    using geo by (simp add: stream_length_err_def)
  ultimately show ?thesis
    using geo len e t pl by (intro that [OF n_def]) simp_all
qed

lemma eam_rest_arrives:
  assumes c1: "block_size c1 = block_size c" and buf: "arrives (body @ tag) buf"
    and first: "be_u32_at b = Ok (of_nat n)" "unat (of_nat n :: u32) = n"
      "stream_length_err (block_size c) (of_nat n) = None" "length b = block_size c"
    and len: "length body = 4 + n" "length tag = mac_tag_len m" "block_size c \<le> 4 + n"
    and rest: "decrypt_blocks P c1 (drop (block_size c) body) = Ok (pb, c')"
      "block_size c = 4 + n \<Longrightarrow> pb = [] \<and> c1 = c'"
    and ver: "mac_verify M m q (b @ pb) tag = Ok ()" "strip_plain (b @ pb) = Ok p"
  shows "decode_eam_rest P M q buf c1 m b =
    (if length buf < length (body @ tag) then ((c1, Some b), Ok None)
     else ((c', None), Ok (Some (p, length (body @ tag)))))"
proof (cases "length buf < length (body @ tag)")
  case True
  then show ?thesis using assms by (simp add: decode_eam_rest_def Let_def)
next
  case False
  then obtain r where r: "buf = (body @ tag) @ r" using arrives_all [OF buf] by auto
  have s: "slice_res buf (block_size c) (4 + n) = Ok (drop (block_size c) body)"
    "slice_res buf (4 + n) (4 + n + mac_tag_len m) = Ok tag"
    using len by (simp_all add: r slice_res_def)
  then show ?thesis
    using False first rest ver c1 len by (cases "block_size c = 4 + n") (simp_all add: decode_eam_rest_def Let_def)
qed

lemma eam_arrives:
  assumes "cipher_prims_ok P" "mac_prims_ok M" "\<not> is_aead c" "mac_wf m" "\<not> mac_etm m" "rnd_ok rnd"
    "encode_stream P M q p rnd c m = (c', Ok frame)" "arrives frame buf" "eam_view P c frame (c0, pend)"
  shows "\<exists>st. eam_view P c frame st \<and> decode_eam P M q buf c0 m pend =
    (if length buf < length frame then (st, Ok None) else ((c', None), Ok (Some (p, length frame))))"
proof (rule eam_encode [OF assms(1-7)])
  fix n body tag pad
  let ?bs = "block_size c" and ?plain = "u32_to_be (of_nat n) @ of_nat pad # p @ rnd pad"
  assume f: "n = 1 + length p + pad" "4 \<le> pad" "pad \<le> 35"
    "frame = body @ tag" "length body = 4 + n" "length tag = mac_tag_len m"
    "unat (of_nat n :: u32) = n" "stream_length_err ?bs (of_nat n) = None"
    "?bs dvd 4 + n" "?bs \<le> 4 + n" "decrypt_blocks P c body = Ok (?plain, c')"
    "mac_verify M m q ?plain tag = Ok ()" "\<not> is_aead c'"
  have al: "?bs dvd length (take ?bs body)" "?bs dvd length (drop ?bs body)"
    using f(5,9,10) by (simp_all add: dvd_diff_nat)
  obtain pa c1 pb where d: "decrypt_blocks P c (take ?bs body) = Ok (pa, c1)"
    "decrypt_blocks P c1 (drop ?bs body) = Ok (pb, c')" "?plain = pa @ pb" "length pa = length (take ?bs body)"
    using decrypt_blocks_append [OF assms(1) al] f(11) by (metis append_take_drop_id)
  have tk: "take ?bs frame = take ?bs body" using f(4,5,10) by simp
  have bs: "8 \<le> ?bs" "block_size c1 = ?bs" "length pa = ?bs"
    using block_size_cases [of c] decrypt_blocks_length [OF assms(1) d(1)] d(4) f(5,10) by auto
  have strip: "strip_plain ?plain = Ok p"
    using f(2,3) assms(6) by (intro strip_plain_frame) (simp_all add: rnd_ok_def)
  have "take 4 pa = take 4 (pa @ pb)" using bs by simp
  then have first: "be_u32_at pa = Ok (of_nat n)" using bs by (simp add: be_u32_at_take flip: d(3))
  have whole: "pb = [] \<and> c1 = c'" if "?bs = 4 + n"
    using that d f(5,11) bs by simp
  have rest: "decode_eam_rest P M q buf c1 m pa =
    (if length buf < length frame then ((c1, Some pa), Ok None) else ((c', None), Ok (Some (p, length frame))))"
    using f(4-8,10,12) strip assms(8) d(3) whole
    unfolding f(4) by (intro eam_rest_arrives [OF bs(2) _ first _ _ bs(3) _ _ _ d(2)]) simp_all
  have view: "eam_view P c frame (c1, Some pa)" by (simp add: eam_view_def tk d(1))
  show ?thesis
  proof (cases "length buf < ?bs")
    case True
    then have "length buf < length frame" using f(4-6,10) by simp
    moreover have "length buf < block_size c0"
      using True assms(9) tk d(1) bs(2) by (auto simp: eam_view_def)
    ultimately show ?thesis using assms(9) by (auto simp: decode_eam_def)
  next
    case False
    have "take ?bs buf = take ?bs frame" using False f(4-6,10) by (intro arrives_take [OF assms(8)]) simp_all
    then have "slice_res buf 0 ?bs = Ok (take ?bs body)" using False tk by (simp add: slice_res_def)
    moreover have "(c0, pend) = (c, None) \<or> (c0, pend) = (c1, Some pa)"
      using assms(9) tk d(1) by (auto simp: eam_view_def)
    ultimately have "decode_eam P M q buf c0 m pend = decode_eam_rest P M q buf c1 m pa"
      using False d(1) bs(2) by (auto simp: decode_eam_def)
    with rest view show ?thesis by auto
  qed
qed

section \<open>AES-GCM\<close>

lemma gcm_arrives:
  assumes "cipher_prims_ok P" "is_gcm c" "rnd_ok rnd" "encode_gcm P p rnd c = (c', Ok frame)" "arrives frame buf"
  shows "decode_gcm P buf c =
    (if length buf < length frame then (c, Ok None) else (c', Ok (Some (p, length frame))))" "is_gcm c'"
proof -
  define pad where "pad = padding_for (length p) 16 False"
  define n where "n = 1 + length p + pad"
  obtain g where g: "c = Gcm g" using assms(2) by (cases c) simp_all
  have lim: "payload_within_limit (length p)"
    using assms(4) by (auto simp: encode_gcm_def split: if_splits)
  note geo = frame_geometry [OF lim assms(3), of 16 False, folded pad_def, folded n_def]
  have tk: "take 4 (clear_frame p pad rnd) = u32_to_be (of_nat n)"
    unfolding n_def by (rule take4_clear_frame)
  obtain body tag g' where seal:
    "gcm_seal P g (u32_to_be (of_nat n)) (of_nat pad # p @ rnd pad) = Ok (body, tag, g')"
    and c': "c' = Gcm g'" and f: "frame = u32_to_be (of_nat n) @ body @ tag"
    using assms(4) lim
    by (auto simp: encode_gcm_def Let_def pad_def [symmetric] g st_try_eq_Ok map_res_eq_Ok tk drop4_clear_frame)
  note round = gcm_round [OF assms(1) seal]
  have len: "length body = n" "length tag = 16" using round(2,3) assms(3) by (simp_all add: rnd_ok_def n_def)
  have lf: "length frame = 4 + n + 16" using len by (simp add: f)
  have v: "be_u32_at buf = Ok (of_nat n)" if "4 \<le> length buf"
    using that by (intro arrives_length [OF assms(5)]) (simp_all add: f)
  show "decode_gcm P buf c = (if length buf < length frame then (c, Ok None) else (c', Ok (Some (p, length frame))))"
  proof (cases "length buf < length frame")
    case True
    then show ?thesis using v geo lf by (simp add: decode_gcm_def Let_def)
  next
    case False
    then obtain rest where b: "buf = frame @ rest" using arrives_all [OF assms(5)] by auto
    have s: "slice_res buf 0 4 = Ok (u32_to_be (of_nat n))" "slice_res buf 4 (4 + n) = Ok body"
      "slice_res buf (4 + n) (4 + n + 16) = Ok tag"
      using len by (simp_all add: b f slice_res_def)
    have "strip_body (of_nat pad # p @ rnd pad) = Ok p"
      using geo(1,2) assms(3) by (intro strip_body_frame) (simp_all add: rnd_ok_def)
    moreover have "4 \<le> length buf" using False lf by simp
    ultimately show ?thesis using False v geo lf s round(1) by (simp add: decode_gcm_def Let_def g c')
  qed
  show "is_gcm c'" by (simp add: c')
qed

section \<open>chacha20-poly1305\<close>

lemma chachapoly_arrives:
  assumes "cipher_prims_ok P" "is_chachapoly c" "rnd_ok rnd" "encode_chachapoly P q p rnd c = Ok frame"
    "arrives frame buf"
  shows "decode_chachapoly P q buf c =
    (if length buf < length frame then Ok None else Ok (Some (p, length frame)))"
proof -
  define pad where "pad = padding_for (length p) 8 False"
  define n where "n = 1 + length p + pad"
  obtain k where k: "c = ChaChaPoly k" using assms(2) by (cases c) simp_all
  let ?len = "xor_length P k (ucast q) (u32_to_be (of_nat n))"
  let ?body = "xor_payload P k (ucast q) (of_nat pad # p @ rnd pad)"
  let ?tag = "cp_tag_of P k (ucast q) ?len ?body"
  have lim: "payload_within_limit (length p)"
    using assms(4) by (auto simp: encode_chachapoly_def split: if_splits)
  note geo = frame_geometry [OF lim assms(3), of 8 False, folded pad_def, folded n_def]
  note xor = xor_payload_twice [OF assms(1)]
  have tk: "take 4 (clear_frame p pad rnd) = u32_to_be (of_nat n)"
    unfolding n_def by (rule take4_clear_frame)
  have f: "frame = ?len @ ?body @ ?tag"
    using assms(4) lim by (simp add: encode_chachapoly_def Let_def pad_def [symmetric] k tk drop4_clear_frame)
  have len: "length ?len = 4" "length ?body = n" "length ?tag = 16"
    using assms(3) by (simp_all add: xor rnd_ok_def n_def)
  have lf: "length frame = 4 + n + 16" using len by (simp add: f)
  have l: "slice_res buf 0 4 = Ok ?len" if "4 \<le> length buf"
    using that arrives_take [OF assms(5), of 4] lf len(1) by (simp add: slice_res_def f)
  have v: "be_u32_at (u32_to_be (of_nat n)) = Ok (of_nat n)" by (simp add: be_u32_at_take)
  show ?thesis
  proof (cases "length buf < length frame")
    case True
    then show ?thesis using l v geo lf by (simp add: decode_chachapoly_def Let_def k xor)
  next
    case False
    then obtain rest where b: "buf = frame @ rest" using arrives_all [OF assms(5)] by auto
    have s: "slice_res buf 4 (4 + n) = Ok ?body" "slice_res buf (4 + n) (4 + n + 16) = Ok ?tag"
      using len by (simp_all add: b f slice_res_def)
    have "strip_body (of_nat pad # p @ rnd pad) = Ok p"
      using geo(1,2) assms(3) by (intro strip_body_frame) (simp_all add: rnd_ok_def)
    moreover have "4 \<le> length buf" using False lf by simp
    ultimately show ?thesis using False l v geo lf s
      by (simp add: decode_chachapoly_def Let_def k xor cp_verify_def)
  qed
qed

end
