(* ===== verification/PacketSafety.thy ===== *)
theory PacketSafety
  imports PacketModes
begin

text \<open>
  What the decoders do with bytes from an arbitrary peer: they never panic, never consume more than
  they were given, keep the receiving state well formed, and release a payload only when the
  packet's tag is the one the installed key yields.
\<close>

section \<open>Panic freedom\<close>

definition pending_ok :: "'s cipher_slot \<Rightarrow> bytes option \<Rightarrow> bool" where
  "pending_ok slot pending \<longleftrightarrow>
     (case pending of None \<Rightarrow> True
      | Some b \<Rightarrow> (case slot of SlotStream c _ \<Rightarrow> length b = block_size c | _ \<Rightarrow> False))"

lemma pending_ok_None: "pending_ok slot None"
  by (simp add: pending_ok_def)

text \<open>The shape of a decoder's answer on a buffer of \<open>n\<close> bytes.\<close>

definition answer_ok :: "nat \<Rightarrow> decoded \<Rightarrow> bool" where
  "answer_ok n r \<longleftrightarrow> (case r of Panic \<Rightarrow> False | Ok (Some (p, k)) \<Rightarrow> 0 < k \<and> k \<le> n \<and> length p < k | _ \<Rightarrow> True)"

lemma answer_ok_simps [simp]:
  "answer_ok n (Err e)" "answer_ok n (Ok None)"
  "answer_ok n (Ok (Some (p, k))) \<longleftrightarrow> 0 < k \<and> k \<le> n \<and> length p < k" "\<not> answer_ok n Panic"
  by (simp_all add: answer_ok_def)

lemma bind_res_answer:
  "m \<noteq> Panic \<Longrightarrow> (\<And>x. m = Ok x \<Longrightarrow> answer_ok n (f x)) \<Longrightarrow> answer_ok n (bind_res m f)"
  by (cases m) simp_all

definition out_ok :: "('st \<Rightarrow> bool) \<Rightarrow> nat \<Rightarrow> 'st \<times> decoded \<Rightarrow> bool" where
  "out_ok Q n sr \<longleftrightarrow> Q (fst sr) \<and> answer_ok n (snd sr)"

lemma out_ok_simp [simp]: "out_ok Q n (st, r) \<longleftrightarrow> Q st \<and> answer_ok n r"
  by (simp add: out_ok_def)

lemma st_try_out:
  "Q st \<Longrightarrow> m \<noteq> Panic \<Longrightarrow> (\<And>x. m = Ok x \<Longrightarrow> out_ok Q n (f x)) \<Longrightarrow> out_ok Q n (st_try st m f)"
  by (cases m) simp_all

lemma be_u32_at_safe: "4 \<le> length buf \<Longrightarrow> be_u32_at buf \<noteq> Panic"
  by (simp add: be_u32_at_take)

lemma strip_body_safe: "body \<noteq> [] \<Longrightarrow> strip_body body \<noteq> Panic"
  by (auto simp: strip_body_def index_res_def sub_res_def slice_res_def Let_def)

lemma strip_plain_safe: "5 \<le> length plain \<Longrightarrow> strip_plain plain \<noteq> Panic"
  by (auto simp: strip_plain_def index_res_def sub_res_def slice_res_def Let_def)

lemma strip_length:
  "strip_body body = Ok p \<Longrightarrow> length p < length body"
  "strip_plain plain = Ok p \<Longrightarrow> length p < length plain"
  by (auto simp: strip_body_def strip_plain_def index_res_def sub_res_def slice_res_def Let_def
      split: if_splits)

lemma mac_verify_safe: "mac_prims_ok M \<Longrightarrow> mac_wf m \<Longrightarrow> mac_verify M m q d t \<noteq> Panic"
  by (rule mac_contract [of M m q d]) auto

lemma mac_verify_Ok:
  assumes "mac_prims_ok M" "mac_wf m" "mac_verify M m q d t = Ok ()"
  shows "mac_compute M m q d (mac_tag_len m) = Ok t"
  using assms(3) by (rule_tac mac_contract [OF assms(1,2), of q d]) (auto split: if_splits)

lemma cp_verify_safe: "cp_verify P k q l b t \<noteq> Panic"
  by (simp add: cp_verify_def)

lemma decrypt_blocks_kind:
  assumes "cipher_prims_ok P" "decrypt_blocks P c b = Ok (p, c')"
  shows "length p = length b" "block_size c' = block_size c" "is_aead c' = is_aead c"
proof -
  show "length p = length b" "block_size c' = block_size c"
    using decrypt_blocks_length [OF assms] by simp_all
  show "is_aead c' = is_aead c"
  proof (cases c)
    case (Ctr a)
    with assms(2) show ?thesis by (auto split: prod.splits)
  next
    case (Cbc a)
    with assms(2) show ?thesis by (auto simp: map_res_eq_Ok)
  qed (use assms(2) in simp_all)
qed

lemma decrypt_blocks_keeps:
  "cipher_prims_ok P \<Longrightarrow> decrypt_blocks P c b = Ok (p, c') \<Longrightarrow>
     length p = length b \<and> block_size c' = block_size c \<and> is_aead c' = is_aead c"
  using decrypt_blocks_kind by blast

lemma decode_cleartext_safe: "answer_ok (length buf) (decode_cleartext buf)"
  by (auto simp: decode_cleartext_def be_u32_at_take index_res_def sub_res_def slice_res_def Let_def
      MIN_TOTAL_LEN_def)

lemma decode_etm_safe:
  assumes "cipher_prims_ok P" "mac_prims_ok M" "mac_wf m" "\<not> is_aead c"
  shows "out_ok (\<lambda>c'. \<not> is_aead c' \<and> block_size c' = block_size c) (length buf) (decode_etm P M q buf c m)"
proof -
  have bs: "0 < block_size c" using block_size_cases [of c] by auto
  show ?thesis
    unfolding decode_etm_def Let_def
    using bs assms(4)
    by (auto intro!: st_try_out decrypt_blocks_safe strip_body_safe mac_verify_safe [OF assms(2,3)]
        dest!: strip_length decrypt_blocks_keeps [OF assms(1)]
        simp: slice_res_def be_u32_at_take)
qed

definition eam_ok :: "ssh_mac \<Rightarrow> 's eam_state \<Rightarrow> bool" where
  "eam_ok m st \<longleftrightarrow> \<not> is_aead (fst st) \<and> pending_ok (SlotStream (fst st) m) (snd st)"

lemma eam_ok_simps [simp]:
  "eam_ok m (c, None) \<longleftrightarrow> \<not> is_aead c" "eam_ok m (c, Some b) \<longleftrightarrow> \<not> is_aead c \<and> length b = block_size c"
  by (simp_all add: eam_ok_def pending_ok_def)

lemma decode_eam_rest_safe:
  assumes "cipher_prims_ok P" "mac_prims_ok M" "mac_wf m" "\<not> is_aead c" "length b = block_size c"
  shows "out_ok (eam_ok m) (length buf) (decode_eam_rest P M q buf c m b)"
proof -
  have bs: "8 \<le> block_size c" using block_size_cases [of c] by auto
  have v: "be_u32_at b = Ok (u32_from_be (take 4 b))" using assms(5) bs by (simp add: be_u32_at_take)
  define n where "n = unat (u32_from_be (take 4 b))"
  show ?thesis
  proof (cases "stream_length_err (block_size c) (u32_from_be (take 4 b)) = None \<and> 4 + n + mac_tag_len m \<le> length buf")
    case True
    then have len: "16 \<le> 4 + n" "block_size c \<le> 4 + n"
      by (auto simp: stream_length_err_def MIN_TOTAL_LEN_def n_def split: if_splits intro: dvd_imp_le)
    let ?rest = "if 4 + n > block_size c
      then bind_res (slice_res buf (block_size c) (4 + n)) (decrypt_blocks P c) else Ok ([], c)"
    have safe: "?rest \<noteq> Panic"
      using True len decrypt_blocks_safe [of P c] by (simp add: slice_res_def)
    have kind: "\<not> is_aead c' \<and> length rest = 4 + n - block_size c" if "?rest = Ok (rest, c')" for rest c'
      using that True len assms(4) decrypt_blocks_kind [OF assms(1), of c]
      by (auto simp: slice_res_def split: if_splits)
    have "out_ok (eam_ok m) (length buf) (st_try (c, None) ?rest (\<lambda>(rest, cipher').
                let plain = b @ rest in
                st_try (cipher', None) (slice_res buf (4 + n) (4 + n + mac_tag_len m)) (\<lambda>tag.
                st_try (cipher', None) (mac_verify M m q plain tag) (\<lambda>_.
                st_try (cipher', None) (strip_plain plain) (\<lambda>payload.
                  ((cipher', None), Ok (Some (payload, 4 + n + mac_tag_len m))))))))"
      unfolding Let_def using True len assms(4,5)
      by (intro st_try_out safe)
        (auto intro!: st_try_out strip_plain_safe mac_verify_safe [OF assms(2,3)]
          dest!: kind strip_length(2) simp: slice_res_def)
    then show ?thesis
      using True by (simp add: decode_eam_rest_def v Let_def cong: if_cong flip: n_def split del: if_split)
  next
    case False
    then show ?thesis using assms(4,5)
      by (cases "stream_length_err (block_size c) (u32_from_be (take 4 b))")
        (simp_all add: decode_eam_rest_def v n_def Let_def)
  qed
qed

lemma decode_eam_safe:
  assumes "cipher_prims_ok P" "mac_prims_ok M" "mac_wf m" "eam_ok m (c, pend)"
  shows "out_ok (eam_ok m) (length buf) (decode_eam P M q buf c m pend)"
proof (cases "length buf < block_size c")
  case True
  then show ?thesis using assms(4) by (simp add: decode_eam_def)
next
  case False
  show ?thesis
  proof (cases pend)
    case (Some b)
    then show ?thesis
      using False assms(4) decode_eam_rest_safe [OF assms(1-3)] by (simp add: decode_eam_def)
  next
    case None
    have s: "slice_res buf 0 (block_size c) = Ok (take (block_size c) buf)"
      using False by (simp add: slice_res_def)
    have kind: "\<not> is_aead c1 \<and> length b = block_size c1"
      if "decrypt_blocks P c (take (block_size c) buf) = Ok (b, c1)" for b c1
      using decrypt_blocks_kind [OF assms(1) that] False None assms(4) by simp
    show ?thesis
      using False None assms(4) s decrypt_blocks_safe
      by (auto simp: decode_eam_def intro!: st_try_out decode_eam_rest_safe [OF assms(1-3)] dest: kind)
  qed
qed

lemma decode_gcm_safe:
  assumes "cipher_prims_ok P" "is_gcm c"
  shows "out_ok is_gcm (length buf) (decode_gcm P buf c)"
proof -
  obtain g where g: "c = Gcm g" using assms(2) by (cases c) simp_all
  have open_safe: "aead_open_len_aad P c l b t \<noteq> Panic" for l b t
    using gcm_open_safe by (simp add: g)
  have open_len: "length p = length b \<and> is_gcm c1" if "aead_open_len_aad P c l b t = Ok (p, c1)" for l b t p c1
    using that gcm_open_sound [OF assms(1)] by (auto simp: g map_res_eq_Ok)
  show ?thesis
    unfolding decode_gcm_def Let_def using assms(2)
    by (auto intro!: st_try_out open_safe strip_body_safe dest!: strip_length(1) open_len
        simp: slice_res_def be_u32_at_take)
qed

lemma decode_chachapoly_safe:
  assumes "cipher_prims_ok P" "is_chachapoly c"
  shows "answer_ok (length buf) (decode_chachapoly P q buf c)"
proof -
  obtain k where k: "c = ChaChaPoly k" using assms(2) by (cases c) simp_all
  show ?thesis
    unfolding decode_chachapoly_def Let_def k
    by (auto intro!: bind_res_answer cp_verify_safe strip_body_safe dest!: strip_length(1)
        simp: slice_res_def be_u32_at_take xor_payload_twice [OF assms(1)] simp flip: length_0_conv)
qed

lemma decode_slot_safe:
  assumes "cipher_prims_ok P" "mac_prims_ok M" "slot_wf slot" "pending_ok slot pending"
  shows "out_ok (\<lambda>(slot', pending'). slot_wf slot' \<and> pending_ok slot' pending') (length buf)
    (decode_slot P M q buf slot pending)"
proof (cases slot)
  case SlotNone
  then show ?thesis using assms(4) decode_cleartext_safe by simp
next
  case (SlotStream c m)
  have wf: "\<not> is_aead c" "mac_wf m" using assms(3) by (simp_all add: SlotStream)
  show ?thesis
  proof (cases "mac_etm m")
    case True
    with decode_etm_safe [OF assms(1,2) wf(2,1), of buf q] assms(4) wf(2) show ?thesis
      by (auto simp: SlotStream decode_stream_def pending_ok_def split: option.splits prod.splits)
  next
    case False
    have "eam_ok m (c, pending)" using wf assms(4) by (simp add: eam_ok_def SlotStream)
    from decode_eam_safe [OF assms(1,2) wf(2) this, of buf q] False wf(2) show ?thesis
      by (auto simp: SlotStream decode_stream_def eam_ok_def split: prod.splits)
  qed
next
  case (SlotGcm c)
  with assms(3,4) decode_gcm_safe [OF assms(1), of c buf] show ?thesis
    by (auto simp: pending_ok_def split: option.splits prod.splits)
next
  case (SlotChaChaPoly c)
  then show ?thesis using assms(3,4) decode_chachapoly_safe [OF assms(1)]
    by (auto simp: pending_ok_def split: option.splits)
qed

section \<open>The encoders\<close>

definition enc_ok :: "('st \<Rightarrow> bool) \<Rightarrow> 'st \<times> 'a res \<Rightarrow> bool" where
  "enc_ok Q sr \<longleftrightarrow> Q (fst sr) \<and> snd sr \<noteq> Panic"

lemma enc_ok_simp [simp]: "enc_ok Q (st, r) \<longleftrightarrow> Q st \<and> r \<noteq> Panic"
  by (simp add: enc_ok_def)

lemma st_try_enc:
  "Q st \<Longrightarrow> m \<noteq> Panic \<Longrightarrow> (\<And>x. m = Ok x \<Longrightarrow> enc_ok Q (f x)) \<Longrightarrow> enc_ok Q (st_try st m f)"
  by (cases m) simp_all

lemma encrypt_blocks_safe: "encrypt_blocks P c b \<noteq> Panic"
proof (cases c)
  case (Ctr a)
  then show ?thesis by (cases a) (simp split: prod.splits)
next
  case (Cbc a)
  then show ?thesis by (cases a) (auto split: option.splits)
qed simp_all

lemma encrypt_blocks_kind: "encrypt_blocks P c b = Ok (e, c') \<Longrightarrow> is_aead c' = is_aead c"
proof (cases c)
  case (Ctr a)
  then show "encrypt_blocks P c b = Ok (e, c') \<Longrightarrow> ?thesis" by (auto split: prod.splits)
next
  case (Cbc a)
  then show "encrypt_blocks P c b = Ok (e, c') \<Longrightarrow> ?thesis" by (auto simp: map_res_eq_Ok)
qed simp_all

lemma mac_compute_safe: "mac_prims_ok M \<Longrightarrow> mac_wf m \<Longrightarrow> mac_compute M m q d (mac_tag_len m) \<noteq> Panic"
  by (rule mac_contract [of M m q d]) auto

lemma encode_slot_safe:
  assumes "mac_prims_ok M" "slot_wf slot"
  shows "enc_ok slot_wf (encode_slot P M q p rnd slot)"
proof (cases slot)
  case SlotNone
  then show ?thesis by (simp add: encode_cleartext_def Let_def)
next
  case (SlotStream c m)
  have wf: "\<not> is_aead c" "mac_wf m" using assms(2) by (simp_all add: SlotStream)
  have "enc_ok (\<lambda>c. \<not> is_aead c) (encode_stream P M q p rnd c m)"
    unfolding encode_stream_def Let_def using wf(1)
    by (auto intro!: st_try_enc encrypt_blocks_safe mac_compute_safe [OF assms(1) wf(2)]
        dest: encrypt_blocks_kind)
  then show ?thesis using wf(2) by (auto simp: SlotStream enc_ok_def split: prod.split)
next
  case (SlotGcm c)
  then obtain g where g: "c = Gcm g" using assms(2) by (cases c) simp_all
  have "enc_ok is_gcm (encode_gcm P p rnd c)"
    by (auto simp: encode_gcm_def Let_def g gcm_seal_def gcm_step_def st_try_def split: prod.split res.split)
  then show ?thesis by (auto simp: SlotGcm enc_ok_def split: prod.split)
next
  case (SlotChaChaPoly c)
  then obtain k where "c = ChaChaPoly k" using assms(2) by (cases c) simp_all
  with SlotChaChaPoly show ?thesis by (simp add: encode_chachapoly_def Let_def)
qed

lemma deflate_push_safe: "deflate_push Z input enc consumed out = Some r \<Longrightarrow> r \<noteq> Panic"
  by (erule deflate_push.raw_induct [where P = "\<lambda>_ _ _ _ _ r. r \<noteq> Panic", rotated])
    (auto split: if_splits option.splits prod.splits zstatus.splits)

lemma deflate_flush_safe: "deflate_flush Z enc out = Some r \<Longrightarrow> r \<noteq> Panic"
  by (erule deflate_flush.raw_induct [where P = "\<lambda>_ _ _ r. r \<noteq> Panic", rotated])
    (auto split: if_splits option.splits prod.splits zstatus.splits)

lemma compress_safe: "compress Z c input = Some r \<Longrightarrow> r \<noteq> Panic"
proof -
  have "r \<noteq> Panic" if "deflate_step Z enc input = Some r" for enc r
    using that by (auto simp: deflate_step_def dest: deflate_push_safe deflate_flush_safe
        split: option.splits res.splits)
  then show "compress Z c input = Some r \<Longrightarrow> r \<noteq> Panic"
    by (cases "(Z, c, input)" rule: compress.cases) auto
qed

end
