(* ===== verification/PacketClaims.thy ===== *)
theory PacketClaims
  imports PacketSafety
begin

text \<open>
  Properties of the stateful codec: every state the public operations can build is well formed,
  decoding arbitrary bytes in it returns without panicking, and a payload comes out only of a
  packet whose tag is right.
\<close>

section \<open>Reachable codecs\<close>

definition codec_wf :: "('s, 'e, 'd) packet_codec \<Rightarrow> bool" where
  "codec_wf k \<longleftrightarrow> slot_wf (outbound k) \<and> slot_wf (inbound k) \<and> pending_ok (inbound k) (pending_first_block k)"

text \<open>The MAC object an installation gets: none, or one built from the catalogue.\<close>

definition mac_built :: "ssh_mac option \<Rightarrow> bool" where
  "mac_built mac \<longleftrightarrow> (case mac of None \<Rightarrow> True | Some m \<Rightarrow> \<exists>name key. mac_by_name name key = Some m)"

inductive codec_reachable :: "'s cipher_prims \<Rightarrow> mac_prims \<Rightarrow> ('e, 'd) zlib_prims \<Rightarrow>
    ('s, 'e, 'd) packet_codec \<Rightarrow> bool" for P M Z where
  r_new: "codec_reachable P M Z codec_new"
| r_install_out: "codec_reachable P M Z k \<Longrightarrow> mac_built mac \<Longrightarrow>
    codec_reachable P M Z (fst (install_outbound k c mac))"
| r_install_in: "codec_reachable P M Z k \<Longrightarrow> mac_built mac \<Longrightarrow>
    codec_reachable P M Z (fst (install_inbound k c mac))"
| r_epoch: "codec_reachable P M Z k \<Longrightarrow> codec_reachable P M Z (reset_rekey_epoch k)"
| r_seq: "codec_reachable P M Z k \<Longrightarrow> codec_reachable P M Z (reset_sequence_numbers k)"
| r_seq_out: "codec_reachable P M Z k \<Longrightarrow> codec_reachable P M Z (reset_outbound_sequence k)"
| r_seq_in: "codec_reachable P M Z k \<Longrightarrow> codec_reachable P M Z (reset_inbound_sequence k)"
| r_comp: "codec_reachable P M Z k \<Longrightarrow> codec_reachable P M Z (install_outbound_compress Z cc k)"
| r_decomp: "codec_reachable P M Z k \<Longrightarrow> codec_reachable P M Z (install_inbound_decompress Z dd k)"
| r_activate: "codec_reachable P M Z k \<Longrightarrow> codec_reachable P M Z (activate_compress Z k)"
| r_encode: "codec_reachable P M Z k \<Longrightarrow> codec_encode P M Z k payload rnd = Some (k', r) \<Longrightarrow>
    codec_reachable P M Z k'"
| r_decode: "codec_reachable P M Z k \<Longrightarrow> codec_decode P M Z k buf = Some (k', r') \<Longrightarrow>
    codec_reachable P M Z k'"

lemma mac_by_name_wf: "mac_by_name name key = Some m \<Longrightarrow> mac_wf m"
proof -
  assume m: "mac_by_name name key = Some m"
  then obtain spec where "spec \<in> set ALL_MACS" "ms_name spec = name" "length key = ms_key_len spec"
    by (auto simp: mac_by_name_def mac_spec_by_name_def split: option.splits if_splits dest!: find_SomeD)
  then show "mac_wf m" using m by (metis mac_by_name_catalogue option.inject)
qed

lemma install_wf:
  assumes "codec_wf k" "mac_built mac"
  shows "codec_wf (fst (install_outbound k c mac))" "codec_wf (fst (install_inbound k c mac))"
proof -
  have "slot_wf slot" if "classify c mac = Ok slot" for slot
    using that
  proof (rule classify_wf)
    show "\<forall>m. mac = Some m \<longrightarrow> mac_wf m" using assms(2) by (auto simp: mac_built_def mac_by_name_wf)
  qed
  then show "codec_wf (fst (install_outbound k c mac))" "codec_wf (fst (install_inbound k c mac))"
    using assms(1)
    by (cases "classify c mac";
        simp add: install_outbound_def install_inbound_def codec_wf_def pending_ok_None)+
qed

lemma encode_frame_safe:
  assumes "mac_prims_ok M" "codec_wf k"
  shows "enc_ok codec_wf (encode_frame P M k body rnd)"
  using assms(2) encode_slot_safe [OF assms(1), of "outbound k" P "seq_out k" body rnd]
  by (auto simp: encode_frame_def Let_def codec_wf_def intro!: st_try_enc split: prod.split)

lemma encode_compress_safe:
  assumes "codec_wf k" "encode_compress Z k p = Some kr"
  shows "enc_ok codec_wf kr"
  using assms
  by (auto simp: encode_compress_def codec_wf_def intro!: st_try_enc dest: compress_safe split: if_splits)

lemma codec_encode_safe:
  assumes "mac_prims_ok M" "codec_wf k" "codec_encode P M Z k p rnd = Some (k', r)"
  shows "codec_wf k' \<and> r \<noteq> Panic"
proof -
  obtain k1 r1 where c: "encode_compress Z k p = Some (k1, r1)"
    "st_try k1 r1 (\<lambda>body. encode_frame P M k1 body rnd) = (k', r)"
    using assms(3) by (auto simp: codec_encode_def)
  have wf: "codec_wf k1" "r1 \<noteq> Panic" using encode_compress_safe [OF assms(2) c(1)] by simp_all
  have "enc_ok codec_wf (st_try k1 r1 (\<lambda>body. encode_frame P M k1 body rnd))"
    using wf by (intro st_try_enc encode_frame_safe [OF assms(1)])
  then show ?thesis by (simp add: c(2))
qed

lemma decode_frame_safe:
  assumes "cipher_prims_ok P" "mac_prims_ok M" "codec_wf k"
  shows "out_ok codec_wf (length buf) (decode_frame P M k buf)"
proof -
  obtain slot pend r where d:
    "decode_slot P M (seq_in k) buf (inbound k) (pending_first_block k) = ((slot, pend), r)"
    by (metis surj_pair)
  have ok: "answer_ok (length buf) r" "slot_wf slot" "pending_ok slot pend"
    using decode_slot_safe [OF assms(1,2), of "inbound k" "pending_first_block k" buf "seq_in k"] assms(3) d
    by (simp_all add: codec_wf_def)
  show ?thesis
    unfolding decode_frame_def d Let_def split
    using ok assms(3)
    by (intro st_try_out) (auto simp: codec_wf_def split: option.split)
qed

lemma decode_decompress_safe:
  assumes "zlib_decoder_ok Z" "codec_wf k"
  obtains k' r where "decode_decompress Z k p n = Some (k', r)" "codec_wf k'" "r \<noteq> Panic"
    "\<forall>q m. r = Ok (Some (q, m)) \<longrightarrow> m = n"
proof -
  obtain rd where rd: "decompress Z (inbound_decompress k) p = Some rd" "rd \<noteq> Panic"
    using decompress_returns [OF assms(1)] by blast
  show ?thesis
  proof (cases "decompress_active (inbound_decompress k) \<and> decompress_name (inbound_decompress k) \<noteq> lit ''none''")
    case True
    with rd assms(2) that show ?thesis
      by (cases rd) (auto simp: decode_decompress_def codec_wf_def)
  next
    case False
    with assms(2) that show ?thesis by (simp add: decode_decompress_def)
  qed
qed

lemma codec_decode_safe:
  assumes "cipher_prims_ok P" "mac_prims_ok M" "zlib_decoder_ok Z" "codec_wf k"
  obtains k' r where "codec_decode P M Z k buf = Some (k', r)" "codec_wf k'" "r \<noteq> Panic"
    "\<forall>p n. r = Ok (Some (p, n)) \<longrightarrow> 0 < n \<and> n \<le> length buf"
proof -
  obtain k1 r1 where d: "decode_frame P M k buf = (k1, r1)" by (cases "decode_frame P M k buf")
  have ok: "codec_wf k1" "answer_ok (length buf) r1"
    using decode_frame_safe [OF assms(1,2,4), of buf] by (simp_all add: d)
  show ?thesis
  proof (cases "\<exists>p n. r1 = Ok (Some (p, n))")
    case True
    then obtain p n where r1: "r1 = Ok (Some (p, n))" by blast
    obtain k' r where z: "decode_decompress Z k1 p n = Some (k', r)" "codec_wf k'" "r \<noteq> Panic"
      "\<forall>q m. r = Ok (Some (q, m)) \<longrightarrow> m = n"
      by (rule decode_decompress_safe [OF assms(3) ok(1), of p n])
    have b: "0 < n \<and> n \<le> length buf" using ok(2) by (simp add: r1)
    show ?thesis using that [of k' r] z b by (auto simp: codec_decode_def d r1)
  next
    case False
    then have "codec_decode P M Z k buf = Some (k1, r1)"
      by (auto simp: codec_decode_def d split: res.split option.split)
    moreover have "r1 \<noteq> Panic" using ok(2) by auto
    ultimately show ?thesis using that [of k1 r1] ok(1) False by auto
  qed
qed

lemma reachable_wf:
  assumes "cipher_prims_ok P" "mac_prims_ok M" "zlib_decoder_ok Z" "codec_reachable P M Z k"
  shows "codec_wf k"
  using assms(4)
proof induction
  case r_new
  then show ?case by (simp add: codec_wf_def codec_new_def pending_ok_def)
next
  case (r_encode k payload rnd k' r)
  then show ?case using codec_encode_safe [OF assms(2)] by blast
next
  case (r_decode k buf k' r')
  then show ?case using codec_decode_safe [OF assms(1-3) r_decode.IH, of buf] by (metis option.inject prod.inject)
qed (simp_all add: install_wf, simp_all add: codec_wf_def reset_rekey_epoch_def reset_sequence_numbers_def
    reset_outbound_sequence_def reset_inbound_sequence_def install_outbound_compress_def
    install_inbound_decompress_def activate_compress_def)

text \<open>
  Claim C6. No peer can crash the transport with bytes: in every state that installing suites,
  resetting counters, changing compression and earlier traffic can lead to, decoding an arbitrary
  buffer returns, without a panic, and a payload it yields consumes at least one byte and no more
  than the buffer holds, so the receive loop makes progress. Encoding never panics either.
\<close>

theorem codec_never_panics:
  assumes "cipher_prims_ok P" "mac_prims_ok M" "zlib_decoder_ok Z" "codec_reachable P M Z k"
  shows "(\<forall>buf. \<exists>k' r. codec_decode P M Z k buf = Some (k', r) \<and> r \<noteq> Panic
           \<and> (\<forall>p n. r = Ok (Some (p, n)) \<longrightarrow> 0 < n \<and> n \<le> length buf))
       \<and> (\<forall>payload rnd k' r. codec_encode P M Z k payload rnd = Some (k', r) \<longrightarrow> r \<noteq> Panic)"
proof (intro conjI allI impI)
  have wf: "codec_wf k" using assms by (rule reachable_wf)
  show "\<exists>k' r. codec_decode P M Z k buf = Some (k', r) \<and> r \<noteq> Panic
           \<and> (\<forall>p n. r = Ok (Some (p, n)) \<longrightarrow> 0 < n \<and> n \<le> length buf)" for buf
    by (rule codec_decode_safe [OF assms(1-3) wf, of buf]) blast
  show "r \<noteq> Panic" if "codec_encode P M Z k payload rnd = Some (k', r)" for payload rnd k' r
    using codec_encode_safe [OF assms(2) wf that] by simp
qed

definition demo_cipher :: "unit ssh_cipher" where
  "demo_cipher = Ctr (AesCtr 128 ())"

definition demo_mac :: ssh_mac where
  "demo_mac = HmacMac Sha256 (replicate 32 7) 32 False"

lemma demo_mac_built: "mac_by_name (lit ''hmac-sha2-256'') (replicate 32 7) = Some demo_mac"
  by (simp add: mac_by_name_def mac_spec_by_name_def ALL_MACS_def mac_spec_of_def mac_base_name_lit
      strip_suffix_def demo_mac_def Let_def)

theorem codec_never_panics_witness:
  "\<exists>k. codec_reachable plain_prims toy_macs store_prims k \<and> inbound k = SlotStream demo_cipher demo_mac
     \<and> (\<exists>k' r. codec_decode plain_prims toy_macs store_prims k [255, 255, 255, 255, 1, 2, 3, 4] = Some (k', r)
          \<and> r \<noteq> Panic)"
proof -
  let ?k = "fst (install_inbound codec_new demo_cipher (Some demo_mac))
    :: (unit, bytes, bytes) packet_codec"
  have r: "codec_reachable plain_prims toy_macs store_prims ?k"
    using demo_mac_built by (intro r_install_in r_new) (auto simp: mac_built_def)
  have "inbound ?k = SlotStream demo_cipher demo_mac"
    by (simp add: install_inbound_def demo_cipher_def)
  with r codec_never_panics [OF plain_prims_ok toy_macs_ok store_prims_ok r] show ?thesis by blast
qed

section \<open>Authenticity\<close>

text \<open>
  The bytes \<open>w\<close> of a packet are authentic with payload \<open>p\<close> under the receiving slot: the tag at
  their end is the one the installed key yields for what stands before it, and the payload is what
  the authenticated part decrypts to.
\<close>

definition tag_split :: "nat \<Rightarrow> bytes \<Rightarrow> bytes \<Rightarrow> bytes \<Rightarrow> bool" where
  "tag_split n w body tag \<longleftrightarrow> w = body @ tag \<and> length tag = n"

fun authentic :: "'s cipher_prims \<Rightarrow> mac_prims \<Rightarrow> u32 \<Rightarrow> 's cipher_slot \<Rightarrow> bytes \<Rightarrow> bytes \<Rightarrow> bool" where
  "authentic P M q SlotNone w p \<longleftrightarrow> True"
| "authentic P M q (SlotStream c m) w p \<longleftrightarrow>
     (\<exists>body tag. tag_split (mac_tag_len m) w body tag \<and>
       (if mac_etm m
        then mac_compute M m q body (mac_tag_len m) = Ok tag
           \<and> (\<exists>plain c'. decrypt_blocks P c (drop 4 body) = Ok (plain, c') \<and> strip_body plain = Ok p)
        else \<exists>plain. length plain = length body \<and> mac_compute M m q plain (mac_tag_len m) = Ok tag
           \<and> strip_plain plain = Ok p))"
| "authentic P M q (SlotGcm c) w p \<longleftrightarrow>
     (\<exists>g g' body tag plain. c = Gcm g \<and> tag_split 16 w body tag
       \<and> gcm_seal P g (take 4 body) plain = Ok (drop 4 body, tag, g') \<and> strip_body plain = Ok p)"
| "authentic P M q (SlotChaChaPoly c) w p \<longleftrightarrow>
     (\<exists>k body tag. c = ChaChaPoly k \<and> tag_split 16 w body tag
       \<and> cp_tag_of P k (ucast q) (take 4 body) (drop 4 body) = tag
       \<and> strip_body (xor_payload P k (ucast q) (drop 4 body)) = Ok p)"

lemma slice_tag:
  "slice_res buf a b = Ok t \<Longrightarrow> b = a + n \<Longrightarrow> tag_split n (take b buf) (take a buf) t"
  by (auto simp: slice_res_def tag_split_def take_add split: if_splits)

lemma etm_authentic:
  assumes "mac_prims_ok M" "mac_wf m" "mac_etm m" "decode_etm P M q buf c m = (c', Ok (Some (p, n)))"
  shows "authentic P M q (SlotStream c m) (take n buf) p"
proof -
  obtain v where be: "be_u32_at buf = Ok v"
    using assms(4) by (auto simp: decode_etm_def st_try_eq_Ok split: if_splits)
  obtain tag body where
    v: "n = 4 + unat v + mac_tag_len m" "4 + unat v \<le> length buf"
    and tag: "slice_res buf (4 + unat v) n = Ok tag" "mac_verify M m q (take (4 + unat v) buf) tag = Ok ()"
    and d: "decrypt_blocks P c (take (unat v) (drop 4 buf)) = Ok (body, c')" "strip_body body = Ok p"
    using assms(4)
    by (auto simp: decode_etm_def be st_try_eq_Ok Let_def slice_res_def split: if_splits)
  have "tag_split (mac_tag_len m) (take n buf) (take (4 + unat v) buf) tag"
    using slice_tag [OF tag(1) v(1)] .
  moreover have "drop 4 (take (4 + unat v) buf) = take (unat v) (drop 4 buf)" by (simp add: drop_take)
  ultimately show ?thesis
    using assms(3) d mac_verify_Ok [OF assms(1,2) tag(2)] by (metis authentic.simps(2))
qed

lemma eam_rest_authentic:
  assumes "cipher_prims_ok P" "mac_prims_ok M" "mac_wf m" "\<not> mac_etm m" "length b = block_size c"
    "decode_eam_rest P M q buf c m b = (st, Ok (Some (p, n)))"
  shows "authentic P M q (SlotStream c0 m) (take n buf) p"
proof -
  obtain v where be: "be_u32_at b = Ok v"
    using assms(6) by (auto simp: decode_eam_rest_def st_try_eq_Ok)
  define R where "R = (if 4 + unat v > block_size c
    then bind_res (slice_res buf (block_size c) (4 + unat v)) (decrypt_blocks P c) else Ok ([], c))"
  have v: "stream_length_err (block_size c) v = None"
    using assms(6) by (auto simp: decode_eam_rest_def be Let_def split: if_splits option.splits)
  obtain rest c1 tag where n: "n = 4 + unat v + mac_tag_len m" "n \<le> length buf" and r: "R = Ok (rest, c1)"
    and t: "slice_res buf (4 + unat v) n = Ok tag" "mac_verify M m q (b @ rest) tag = Ok ()"
      "strip_plain (b @ rest) = Ok p"
    using assms(6) unfolding decode_eam_rest_def Let_def be st_try_simps v option.case R_def [symmetric]
    by (cases "length buf < 4 + unat v + mac_tag_len m") (auto simp: st_try_eq_Ok)
  have "block_size c \<le> 4 + unat v"
    using v by (auto simp: stream_length_err_def split: if_splits intro: dvd_imp_le)
  then have "length (b @ rest) = 4 + unat v"
    using r assms(5) n
    by (auto simp: R_def slice_res_def bind_res_eq_Ok dest!: decrypt_blocks_keeps [OF assms(1)] split: if_splits)
  moreover have "tag_split (mac_tag_len m) (take n buf) (take (4 + unat v) buf) tag"
    using slice_tag [OF t(1) n(1)] .
  moreover have "length (take (4 + unat v) buf) = 4 + unat v" using n by simp
  ultimately show ?thesis using assms(4) t(3) mac_verify_Ok [OF assms(2,3) t(2)]
    by (metis authentic.simps(2))
qed

lemma eam_authentic:
  assumes "cipher_prims_ok P" "mac_prims_ok M" "mac_wf m" "\<not> mac_etm m" "pending_ok (SlotStream c m) pend"
    "decode_eam P M q buf c m pend = (st, Ok (Some (p, n)))"
  shows "authentic P M q (SlotStream c m) (take n buf) p"
proof -
  note rest = eam_rest_authentic [OF assms(1-4)]
  have bs: "\<not> length buf < block_size c" using assms(6) by (auto simp: decode_eam_def)
  show ?thesis
  proof (cases pend)
    case (Some b)
    then show ?thesis using bs assms(5,6) by (intro rest [of b c]) (simp_all add: pending_ok_def decode_eam_def)
  next
    case None
    then obtain b c1 where d: "decrypt_blocks P c (take (block_size c) buf) = Ok (b, c1)"
      "decode_eam_rest P M q buf c1 m b = (st, Ok (Some (p, n)))"
      using bs assms(6) by (auto simp: decode_eam_def st_try_eq_Ok bind_res_eq_Ok slice_res_def)
    then show ?thesis using decrypt_blocks_kind [OF assms(1) d(1)] bs by (intro rest [OF _ d(2)]) simp
  qed
qed

lemma gcm_authentic:
  assumes "cipher_prims_ok P" "is_gcm c" "decode_gcm P buf c = (c', Ok (Some (p, n)))"
  shows "authentic P M q (SlotGcm c) (take n buf) p"
proof -
  obtain g where g: "c = Gcm g" using assms(2) by (cases c) simp_all
  obtain v where be: "be_u32_at buf = Ok v"
    using assms(3) by (auto simp: decode_gcm_def st_try_eq_Ok split: if_splits)
  obtain tag body g' where
    v: "n = 4 + unat v + 16" "n \<le> length buf"
    and tag: "slice_res buf (4 + unat v) n = Ok tag" 
    and d: "gcm_open P g (take 4 buf) (take (unat v) (drop 4 buf)) tag = Ok (body, g')" "strip_body body = Ok p"
    using assms(3)
    by (auto simp: decode_gcm_def be g st_try_eq_Ok map_res_eq_Ok Let_def slice_res_def split: if_splits)
  have "tag_split 16 (take n buf) (take (4 + unat v) buf) tag"
    using slice_tag [OF tag v(1)] .
  moreover have "drop 4 (take (4 + unat v) buf) = take (unat v) (drop 4 buf)" by (simp add: drop_take)
  moreover have "take 4 (take (4 + unat v) buf) = take 4 buf" by (simp add: min_def)
  ultimately show ?thesis
    using gcm_open_sound(1) [OF assms(1) d(1)] d(2) g by (metis authentic.simps(3))
qed

lemma chachapoly_authentic:
  assumes "cipher_prims_ok P" "is_chachapoly c" "decode_chachapoly P q buf c = Ok (Some (p, n))"
  shows "authentic P M q (SlotChaChaPoly c) (take n buf) p"
proof -
  obtain k where k: "c = ChaChaPoly k" using assms(2) by (cases c) simp_all
  obtain v where be: "be_u32_at (xor_length P k (ucast q) (take 4 buf)) = Ok v"
    using assms(3) by (auto simp: decode_chachapoly_def k Let_def bind_res_eq_Ok slice_res_def split: if_splits)
  obtain tag where
    v: "n = 4 + unat v + 16" "n \<le> length buf"
    and tag: "slice_res buf (4 + unat v) n = Ok tag"
      "cp_verify P k (ucast q) (take 4 buf) (take (unat v) (drop 4 buf)) tag = Ok ()"
    and d: "strip_body (xor_payload P k (ucast q) (take (unat v) (drop 4 buf))) = Ok p"
    using assms(3)
    by (auto simp: decode_chachapoly_def k be Let_def bind_res_eq_Ok slice_res_def split: if_splits)
  have "tag_split 16 (take n buf) (take (4 + unat v) buf) tag"
    using slice_tag [OF tag(1) v(1)] .
  moreover have "drop 4 (take (4 + unat v) buf) = take (unat v) (drop 4 buf)" by (simp add: drop_take)
  moreover have "take 4 (take (4 + unat v) buf) = take 4 buf" by (simp add: min_def)
  ultimately show ?thesis
    using d k tag(2) cp_verify_iff [OF assms(1)] by (metis authentic.simps(4))
qed

lemma slot_authentic:
  assumes "cipher_prims_ok P" "mac_prims_ok M" "slot_wf slot" "pending_ok slot pend"
    "decode_slot P M q buf slot pend = (st, Ok (Some (p, n)))"
  shows "authentic P M q slot (take n buf) p"
proof (cases slot)
  case (SlotStream c m)
  have wf: "mac_wf m" using assms(3) by (simp add: SlotStream)
  show ?thesis
  proof (cases "mac_etm m")
    case True
    then obtain c' where "decode_etm P M q buf c m = (c', Ok (Some (p, n)))"
      using assms(5) by (auto simp: SlotStream decode_stream_def split: prod.splits)
    then show ?thesis using etm_authentic [OF assms(2) wf True] by (simp only: SlotStream)
  next
    case False
    then obtain st' where "decode_eam P M q buf c m pend = (st', Ok (Some (p, n)))"
      using assms(5) by (auto simp: SlotStream decode_stream_def split: prod.splits)
    then show ?thesis
      using eam_authentic [OF assms(1,2) wf False] assms(4) by (simp only: SlotStream)
  qed
next
  case (SlotGcm c)
  then obtain c' where "decode_gcm P buf c = (c', Ok (Some (p, n)))" "is_gcm c"
    using assms(3,5) by (auto split: prod.splits)
  then show ?thesis using gcm_authentic [OF assms(1)] by (simp only: SlotGcm)
next
  case (SlotChaChaPoly c)
  then have "decode_chachapoly P q buf c = Ok (Some (p, n))" "is_chachapoly c" using assms(3,5) by auto
  then show ?thesis using chachapoly_authentic [OF assms(1)] by (simp only: SlotChaChaPoly)
qed simp

lemma decode_frame_Ok:
  "decode_frame P M k buf = (k1, Ok (Some (p, n))) \<Longrightarrow>
     (\<exists>st. decode_slot P M (seq_in k) buf (inbound k) (pending_first_block k) = (st, Ok (Some (p, n))))
     \<and> seq_in k1 = seq_in k + 1 \<and> inbound_decompress k1 = inbound_decompress k"
  by (auto simp: decode_frame_def Let_def st_try_eq_Ok split: prod.splits option.splits)

lemma decode_decompress_Ok:
  "decode_decompress Z k p n = Some (k', Ok (Some (q, m))) \<Longrightarrow>
     m = n \<and> seq_in k' = seq_in k \<and> (decompress_name (inbound_decompress k) = lit ''none'' \<longrightarrow> q = p)"
  by (auto simp: decode_decompress_def st_try_eq_Ok split: if_splits)

text \<open>
  Claim C7. No unauthenticated byte reaches the layers above: when decoding yields a payload, the
  consumed bytes end in exactly the tag that the installed key gives for this packet's sequence
  number (or GCM counter) and contents, and the payload is the decryption of those contents. With
  compression off the payload is handed on as it is.
\<close>

theorem payload_is_authentic:
  assumes "cipher_prims_ok P" "mac_prims_ok M" "zlib_decoder_ok Z" "codec_reachable P M Z k"
    "codec_decode P M Z k buf = Some (k', Ok (Some (payload, n)))"
  shows "\<exists>p. authentic P M (seq_in k) (inbound k) (take n buf) p \<and> seq_in k' = seq_in k + 1
       \<and> (decompress_name (inbound_decompress k) = lit ''none'' \<longrightarrow> payload = p)"
proof -
  have wf: "slot_wf (inbound k)" "pending_ok (inbound k) (pending_first_block k)"
    using reachable_wf [OF assms(1-4)] by (simp_all add: codec_wf_def)
  obtain k1 p m where f: "decode_frame P M k buf = (k1, Ok (Some (p, m)))"
    and z: "decode_decompress Z k1 p m = Some (k', Ok (Some (payload, n)))"
    using assms(5) by (auto simp: codec_decode_def split: prod.splits res.splits option.splits)
  note f' = decode_frame_Ok [OF f] and z' = decode_decompress_Ok [OF z]
  obtain st where "decode_slot P M (seq_in k) buf (inbound k) (pending_first_block k) = (st, Ok (Some (p, n)))"
    using f' z' by auto
  then have "authentic P M (seq_in k) (inbound k) (take n buf) p"
    by (rule slot_authentic [OF assms(1,2) wf])
  then show ?thesis using f' z' by auto
qed

lemma demo_decode: "decode_chachapoly plain_prims 0 ([0, 0, 0, 8, 5, 5, 6, 0, 0, 0, 0, 0] @ replicate 16 0) 
    (ChaChaPoly \<lparr>payload_key = [], length_key = []\<rparr>) = Ok (Some ([5, 6], 28))"
proof -
  have be: "be_u32_at [0, 0, 0, 8] = Ok 8" by (simp add: be_u32_at_def index_res_def u32_from_be_four)
  have a: "slice_res ([0, 0, 0, 8, 5, 5, 6, 0, 0, 0, 0, 0] @ replicate 16 0) 0 4 = Ok [0, 0, 0, 8 :: u8]"
    by (simp add: slice_res_def)
  have b: "slice_res ([0, 0, 0, 8, 5, 5, 6, 0, 0, 0, 0, 0] @ replicate 16 0) 4 12 = Ok [5, 5, 6, 0, 0, 0, 0, 0 :: u8]"
    by (simp add: slice_res_def)
  have c: "slice_res ([0, 0, 0, 8, 5, 5, 6, 0, 0, 0, 0, 0] @ replicate 16 0) 12 28 = Ok (replicate 16 0 :: u8 list)"
    by (simp add: slice_res_def)
  have s: "strip_body [5, 5, 6, 0, 0, 0, 0, 0] = Ok [5, 6]"
    by (simp add: strip_body_def index_res_def sub_res_def slice_res_def)
  show ?thesis
    by (simp add: decode_chachapoly_def plain_prims_def xor_length_def xor_payload_def be a b c s
        cp_verify_def cp_tag_of_def MAX_PACKET_LEN_def Let_def del: append_Cons)
qed
theorem payload_is_authentic_witness:
  "\<exists>(k :: (unit, bytes, bytes) packet_codec) k' frame p.
     codec_reachable plain_prims toy_macs store_prims k
   \<and> codec_decode plain_prims toy_macs store_prims k frame = Some (k', Ok (Some ([5, 6], length frame)))
   \<and> authentic plain_prims toy_macs 0 (inbound k) (take (length frame) frame) p \<and> p = [5, 6]"
proof -
  let ?k = "fst (install_inbound codec_new (ChaChaPoly \<lparr>payload_key = [], length_key = []\<rparr>) None)
    :: (unit, bytes, bytes) packet_codec"
  let ?f = "[0, 0, 0, 8, 5, 5, 6, 0, 0, 0, 0, 0] @ replicate 16 0 :: bytes"
  have r: "codec_reachable plain_prims toy_macs store_prims ?k"
    by (intro r_install_in r_new) (simp add: mac_built_def)
  have k: "inbound ?k = SlotChaChaPoly (ChaChaPoly \<lparr>payload_key = [], length_key = []\<rparr>)"
    "inbound_decompress ?k = NoneDecompress" "seq_in ?k = 0" "pending_first_block ?k = None"
    by (simp_all add: install_inbound_def codec_new_def)
  have "decode_chachapoly plain_prims 0 ?f (ChaChaPoly \<lparr>payload_key = [], length_key = []\<rparr>)
      = Ok (Some ([5, 6], length ?f))"
    using demo_decode by simp
  then obtain k' where d: "codec_decode plain_prims toy_macs store_prims ?k ?f = Some (k', Ok (Some ([5, 6], length ?f)))"
    by (simp add: codec_decode_def decode_frame_def decode_decompress_def k Let_def del: append_Cons)
  from payload_is_authentic [OF plain_prims_ok toy_macs_ok store_prims_ok r d]
  obtain p where "authentic plain_prims toy_macs 0 (inbound ?k) (take (length ?f) ?f) p" "p = [5, 6]"
    by (auto simp: k)
  with r d show ?thesis by blast
qed

end
