(* ===== verification/Rekey.thy ===== *)
theory Rekey
  imports PacketClaims
begin

text \<open>
  The re-key scheduler (src/src/hazmat/transport/rekey.rs): when a new key exchange is due, and which
  messages belong to one. Instants and durations are numbers of nanoseconds.
\<close>

section \<open>The policy\<close>

record rekey_policy =
  max_bytes :: u64
  max_duration :: nat
  max_seq :: u32

definition rekey_policy_default :: rekey_policy where
  "rekey_policy_default =
     \<lparr>max_bytes = push_bit 30 1, max_duration = 60 * 60 * 10 ^ 9, max_seq = push_bit 31 1\<rparr>"

definition bytes_exceeded :: "rekey_policy \<Rightarrow> ('s, 'e, 'd) packet_codec \<Rightarrow> bool" where
  "bytes_exceeded pol k \<longleftrightarrow> bytes_in k \<ge> max_bytes pol \<or> bytes_out k \<ge> max_bytes pol"

definition seq_exceeded :: "rekey_policy \<Rightarrow> ('s, 'e, 'd) packet_codec \<Rightarrow> bool" where
  "seq_exceeded pol k \<longleftrightarrow>
     (let in_epoch = seq_in k - seq_in_base k; out_epoch = seq_out k - seq_out_base k
      in in_epoch \<ge> max_seq pol \<or> out_epoch \<ge> max_seq pol)"

definition should_rekey :: "rekey_policy \<Rightarrow> ('s, 'e, 'd) packet_codec \<Rightarrow> nat \<Rightarrow> nat \<Rightarrow> bool" where
  "should_rekey pol k last_kex now \<longleftrightarrow>
     (if bytes_exceeded pol k then True
      else if seq_exceeded pol k then True
      else now - last_kex \<ge> max_duration pol)"

definition is_kex_msg :: "u8 \<Rightarrow> bool" where
  "is_kex_msg b \<longleftrightarrow> b = 20 \<or> b = 21 \<or> 30 \<le> b \<and> b \<le> 49"

definition may_send_during_kex :: "u8 \<Rightarrow> bool" where
  "may_send_during_kex b \<longleftrightarrow> 1 \<le> b \<and> b \<le> 49"

section \<open>One key epoch\<close>

text \<open>
  What happens to a codec from the moment its epoch counters are reset: it sends and receives. The
  relation records the sequence numbers of the packets sent, the number of packets received, and
  how many packets were sent although the packet limit had been reached (those of the key exchange
  that the limit triggers).
\<close>

inductive epoch_run :: "'s cipher_prims \<Rightarrow> mac_prims \<Rightarrow> ('e, 'd) zlib_prims \<Rightarrow> rekey_policy \<Rightarrow>
    ('s, 'e, 'd) packet_codec \<Rightarrow> u32 list \<Rightarrow> nat \<Rightarrow> nat \<Rightarrow> bool" for P M Z pol where
  e_start: "epoch_run P M Z pol (reset_rekey_epoch k) [] 0 0"
| e_send: "epoch_run P M Z pol k qs n late \<Longrightarrow> codec_encode P M Z k p rnd = Some (k', Ok frame) \<Longrightarrow>
    epoch_run P M Z pol k' (qs @ [seq_out k]) n (if seq_exceeded pol k then late + 1 else late)"
| e_recv: "epoch_run P M Z pol k qs n late \<Longrightarrow> codec_decode P M Z k buf = Some (k', Ok (Some x)) \<Longrightarrow>
    epoch_run P M Z pol k' qs (n + 1) late"
| e_wait: "epoch_run P M Z pol k qs n late \<Longrightarrow> codec_decode P M Z k buf = Some (k', Ok None) \<Longrightarrow>
    epoch_run P M Z pol k' qs n late"

lemma encode_counters:
  assumes "codec_encode P M Z k p rnd = Some (k', Ok frame)"
  shows "seq_out k' = seq_out k + 1 \<and> seq_out_base k' = seq_out_base k
       \<and> seq_in k' = seq_in k \<and> seq_in_base k' = seq_in_base k"
proof -
  obtain k1 body where c: "encode_compress Z k p = Some (k1, Ok body)" "encode_frame P M k1 body rnd = (k', Ok frame)"
    using assms by (auto simp: codec_encode_def st_try_eq_Ok)
  have "seq_out k1 = seq_out k \<and> seq_out_base k1 = seq_out_base k \<and> seq_in k1 = seq_in k \<and> seq_in_base k1 = seq_in_base k"
    using c(1) by (auto simp: encode_compress_def st_try_eq_Ok split: if_splits)
  then show ?thesis using c(2) by (auto simp: encode_frame_def st_try_eq_Ok Let_def split: prod.splits)
qed

lemma decode_counters:
  assumes "codec_decode P M Z k buf = Some (k', Ok x)"
  shows "seq_in k' = seq_in k + (if x = None then 0 else 1) \<and> seq_in_base k' = seq_in_base k
       \<and> seq_out k' = seq_out k \<and> seq_out_base k' = seq_out_base k"
proof -
  obtain k1 y where f: "decode_frame P M k buf = (k1, Ok y)"
    and z: "case y of None \<Rightarrow> x = None \<and> k' = k1 | Some (p, n) \<Rightarrow> decode_decompress Z k1 p n = Some (k', Ok x)"
    using assms by (auto simp: codec_decode_def split: prod.splits res.splits option.splits)
  have "seq_in k1 = seq_in k + (if y = None then 0 else 1) \<and> seq_in_base k1 = seq_in_base k
      \<and> seq_out k1 = seq_out k \<and> seq_out_base k1 = seq_out_base k"
    using f by (auto simp: decode_frame_def st_try_eq_Ok Let_def split: prod.splits option.splits)
  then show ?thesis using z
    by (auto simp: decode_decompress_def st_try_eq_Ok split: option.splits if_splits prod.splits)
qed

lemma epoch_counters:
  "epoch_run P M Z pol k qs n late \<Longrightarrow>
     qs = map (\<lambda>i. seq_out_base k + of_nat i) [0..<length qs]
   \<and> seq_out k = seq_out_base k + of_nat (length qs) \<and> seq_in k = seq_in_base k + of_nat n"
proof (induction rule: epoch_run.induct)
  case (e_start k)
  then show ?case by (simp add: reset_rekey_epoch_def)
next
  case (e_send k qs n late p rnd k' frame)
  then show ?case using encode_counters [OF e_send(2)] by simp
next
  case (e_recv k qs n late buf k' x)
  then show ?case using decode_counters [OF e_recv(2)] by simp
next
  case (e_wait k qs n late buf k')
  then show ?case using decode_counters [OF e_wait(2)] by simp
qed

lemma epoch_limit:
  assumes "epoch_run P M Z pol k qs n late" "length qs < 2 ^ 32" "n < 2 ^ 32"
  shows "seq_exceeded pol k \<longleftrightarrow> unat (max_seq pol) \<le> length qs \<or> unat (max_seq pol) \<le> n"
  using epoch_counters [OF assms(1)] assms(2,3)
  by (auto simp: seq_exceeded_def Let_def word_le_nat_alt unat_of_nat_u32)




text \<open>
  The packet limit counts the packets of the current key epoch and nothing else: whatever
  the absolute sequence numbers are, it is reached exactly when \<open>max_seq\<close> packets have gone out, or
  come in, since the last key exchange. So an exchange that has just completed never triggers
  another one.
\<close>

theorem packet_limit_exact:
  assumes "epoch_run P M Z pol k qs n late" "length qs < 2 ^ 32" "n < 2 ^ 32"
  shows "(seq_exceeded pol k \<longleftrightarrow> unat (max_seq pol) \<le> length qs \<or> unat (max_seq pol) \<le> n)
       \<and> (0 < max_bytes pol \<and> 0 < max_seq pol \<and> 0 < max_duration pol \<longrightarrow>
            \<not> should_rekey pol (reset_rekey_epoch k) now now)"
  using epoch_limit [OF assms]
  by (auto simp: should_rekey_def bytes_exceeded_def seq_exceeded_def reset_rekey_epoch_def Let_def)


text \<open>A policy of two packets, and a codec that sends three in cleartext.\<close>

definition two_packets :: rekey_policy where
  "two_packets = \<lparr>max_bytes = 1000, max_duration = 1, max_seq = 2\<rparr>"

lemma clear_sends:
  assumes "outbound k = SlotNone" "outbound_compress k = NoneCompress"
  obtains k' frame where "codec_encode plain_prims toy_macs store_prims k [1] (\<lambda>n. replicate n 0) = Some (k', Ok frame)"
    "outbound k' = SlotNone" "outbound_compress k' = NoneCompress" "seq_out k' = seq_out k + 1"
proof -
  have "5 \<le> padding_for 1 BLOCK_SIZE_DEFAULT True + 1" using padding_spec [of 1 BLOCK_SIZE_DEFAULT True] by simp
  then have "\<exists>frame. encode_cleartext [1] (\<lambda>n. replicate n 0) = Ok frame"
    using padding_spec [of 1 BLOCK_SIZE_DEFAULT True]
    by (simp add: encode_cleartext_def payload_within_limit_def MAX_ENCODABLE_PAYLOAD_def MAX_PACKET_LEN_def
        MIN_TOTAL_LEN_def Let_def)
  then show ?thesis using assms that
    by (auto simp: codec_encode_def encode_compress_def encode_frame_def Let_def)
qed

lemma demo_epoch:
  "\<exists>(k :: (unit, bytes, bytes) packet_codec) late.
     epoch_run plain_prims toy_macs store_prims two_packets k [0, 1, 2] 0 late \<and> late \<le> 3"
proof -
  define k0 where "k0 = reset_rekey_epoch (codec_new :: (unit, bytes, bytes) packet_codec)"
  have "outbound k0 = SlotNone" "outbound_compress k0 = NoneCompress" "seq_out k0 = 0"
    by (simp_all add: k0_def reset_rekey_epoch_def codec_new_def)
  then obtain k1 f1 where 1: "codec_encode plain_prims toy_macs store_prims k0 [1] (\<lambda>n. replicate n 0) = Some (k1, Ok f1)"
    "outbound k1 = SlotNone" "outbound_compress k1 = NoneCompress" "seq_out k1 = 1"
    by (metis clear_sends add.left_neutral)
  then obtain k2 f2 where 2: "codec_encode plain_prims toy_macs store_prims k1 [1] (\<lambda>n. replicate n 0) = Some (k2, Ok f2)"
    "outbound k2 = SlotNone" "outbound_compress k2 = NoneCompress" "seq_out k2 = 2"
    by (metis clear_sends one_add_one)
  then obtain k3 f3 where 3: "codec_encode plain_prims toy_macs store_prims k2 [1] (\<lambda>n. replicate n 0) = Some (k3, Ok f3)"
    by (metis clear_sends)
  have "epoch_run plain_prims toy_macs store_prims two_packets k0 [] 0 0"
    unfolding k0_def by (rule e_start)
  from e_send [OF e_send [OF e_send [OF this 1(1)] 2(1)] 3] 1(4) 2(4) \<open>seq_out k0 = 0\<close>
  show ?thesis by (intro exI [of _ k3] exI) auto
qed

theorem packet_limit_exact_witness:
  "\<exists>k :: (unit, bytes, bytes) packet_codec. seq_exceeded two_packets k
     \<and> \<not> should_rekey two_packets (reset_rekey_epoch k) 5 5"
proof -
  obtain k :: "(unit, bytes, bytes) packet_codec" and late where
    k: "epoch_run plain_prims toy_macs store_prims two_packets k [0, 1, 2] 0 late"
    using demo_epoch by blast
  have "unat (max_seq two_packets) = 2" "0 < max_bytes two_packets \<and> 0 < max_seq two_packets \<and> 0 < max_duration two_packets"
    by (simp_all add: two_packets_def)
  then show ?thesis using packet_limit_exact [OF k, of 5] by auto
qed


end
