(* ===== verification/Kexinit.thy ===== *)
theory Kexinit
  imports Suites
begin

text \<open>
  Algorithm negotiation: the KEXINIT message and its codec (src/src/hazmat/transport/kexinit.rs), the
  advertised lists and signalling markers (transport/kex.rs, transport/ext\_info.rs) and the
  negotiation of two KEXINITs. Shown: the codec round-trips and lets no unprintable or over-long
  name through, negotiation picks the client's first common choice in every category, the
  signalling names are never chosen and never change a choice, and both sides compute the same
  result from what they exchanged.
\<close>

section \<open>Messages and markers\<close>

definition SSH_MSG_KEXINIT :: u8 where "SSH_MSG_KEXINIT = 20"
definition SSH_MSG_NEWKEYS :: u8 where "SSH_MSG_NEWKEYS = 21"

definition STRICT_KEX_CLIENT_MARKER :: rust_str where
  "STRICT_KEX_CLIENT_MARKER = lit ''kex-strict-c-v00@openssh.com''"

definition STRICT_KEX_SERVER_MARKER :: rust_str where
  "STRICT_KEX_SERVER_MARKER = lit ''kex-strict-s-v00@openssh.com''"

definition is_strict_kex_marker :: "rust_str \<Rightarrow> bool" where
  "is_strict_kex_marker name \<longleftrightarrow> name = STRICT_KEX_CLIENT_MARKER \<or> name = STRICT_KEX_SERVER_MARKER"

definition EXT_INFO_CLIENT_MARKER :: rust_str where
  "EXT_INFO_CLIENT_MARKER = lit ''ext-info-c''"

definition EXT_INFO_SERVER_MARKER :: rust_str where
  "EXT_INFO_SERVER_MARKER = lit ''ext-info-s''"

definition is_ext_info_marker :: "rust_str \<Rightarrow> bool" where
  "is_ext_info_marker name \<longleftrightarrow> name = EXT_INFO_CLIENT_MARKER \<or> name = EXT_INFO_SERVER_MARKER"

lemmas marker_defs = STRICT_KEX_CLIENT_MARKER_def STRICT_KEX_SERVER_MARKER_def
  EXT_INFO_CLIENT_MARKER_def EXT_INFO_SERVER_MARKER_def is_strict_kex_marker_def
  is_ext_info_marker_def

datatype role = Client | Server

text \<open>One side's preference lists; \<open>KexAlgorithms\<close> and its owned counterpart have the same fields.\<close>

record kex_algorithms =
  ka_kex :: "rust_str list"
  ka_server_host_key :: "rust_str list"
  ka_ciphers_c2s :: "rust_str list"
  ka_ciphers_s2c :: "rust_str list"
  ka_macs_c2s :: "rust_str list"
  ka_macs_s2c :: "rust_str list"
  ka_comp_c2s :: "rust_str list"
  ka_comp_s2c :: "rust_str list"
  ka_lang_c2s :: "rust_str list"
  ka_lang_s2c :: "rust_str list"

definition kex_algorithms_default :: kex_algorithms where
  "kex_algorithms_default = \<lparr>ka_kex = [], ka_server_host_key = [], ka_ciphers_c2s = [],
     ka_ciphers_s2c = [], ka_macs_c2s = [], ka_macs_s2c = [], ka_comp_c2s = [], ka_comp_s2c = [],
     ka_lang_c2s = [], ka_lang_s2c = []\<rparr>"

definition DEFAULT_KEX :: "rust_str list" where
  "DEFAULT_KEX = map lit [''mlkem768x25519-sha256'', ''sntrup761x25519-sha512'',
     ''sntrup761x25519-sha512@openssh.com'', ''curve25519-sha256'', ''curve25519-sha256@libssh.org'',
     ''ecdh-sha2-nistp256'', ''ecdh-sha2-nistp384'', ''ecdh-sha2-nistp521'',
     ''diffie-hellman-group-exchange-sha256'', ''diffie-hellman-group16-sha512'',
     ''diffie-hellman-group18-sha512'', ''diffie-hellman-group14-sha256'']
     @ [STRICT_KEX_CLIENT_MARKER, STRICT_KEX_SERVER_MARKER]"

definition DEFAULT_HOST_KEY :: "rust_str list" where
  "DEFAULT_HOST_KEY = map lit [''ssh-ed25519'', ''ecdsa-sha2-nistp256'', ''ecdsa-sha2-nistp384'',
     ''ecdsa-sha2-nistp521'', ''sk-ssh-ed25519@openssh.com'', ''sk-ecdsa-sha2-nistp256@openssh.com'',
     ''webauthn-sk-ecdsa-sha2-nistp256@openssh.com'', ''rsa-sha2-512'', ''rsa-sha2-256'',
     ''ssh-mldsa44-ed25519'']"

definition DEFAULT_CIPHERS :: "rust_str list" where
  "DEFAULT_CIPHERS = map lit [''chacha20-poly1305@openssh.com'', ''aes128-gcm@openssh.com'',
     ''aes256-gcm@openssh.com'', ''aes128-ctr'', ''aes192-ctr'', ''aes256-ctr'']"

definition DEFAULT_MACS :: "rust_str list" where
  "DEFAULT_MACS = map lit [''umac-64-etm@openssh.com'', ''umac-128-etm@openssh.com'',
     ''hmac-sha2-256-etm@openssh.com'', ''hmac-sha2-512-etm@openssh.com'',
     ''hmac-sha1-etm@openssh.com'', ''umac-64@openssh.com'', ''umac-128@openssh.com'',
     ''hmac-sha2-256'', ''hmac-sha2-512'', ''hmac-sha1'']"

definition DEFAULT_COMP :: "rust_str list" where
  "DEFAULT_COMP = [lit ''none'']"

section \<open>KexInit\<close>

record kex_init =
  cookie :: bytes
  ki_kex :: "rust_str list"
  server_host_key :: "rust_str list"
  ciphers_c2s :: "rust_str list"
  ciphers_s2c :: "rust_str list"
  macs_c2s :: "rust_str list"
  macs_s2c :: "rust_str list"
  comp_c2s :: "rust_str list"
  comp_s2c :: "rust_str list"
  lang_c2s :: "rust_str list"
  lang_s2c :: "rust_str list"
  first_kex_packet_follows :: bool

definition from_algorithms :: "kex_algorithms \<Rightarrow> bytes \<Rightarrow> kex_init" where
  "from_algorithms algs c =
     \<lparr>cookie = c, ki_kex = ka_kex algs, server_host_key = ka_server_host_key algs,
      ciphers_c2s = ka_ciphers_c2s algs, ciphers_s2c = ka_ciphers_s2c algs,
      macs_c2s = ka_macs_c2s algs, macs_s2c = ka_macs_s2c algs,
      comp_c2s = ka_comp_c2s algs, comp_s2c = ka_comp_s2c algs,
      lang_c2s = ka_lang_c2s algs, lang_s2c = ka_lang_s2c algs,
      first_kex_packet_follows = False\<rparr>"

fun ext_info_marker :: "role \<Rightarrow> rust_str" where
  "ext_info_marker Client = EXT_INFO_CLIENT_MARKER"
| "ext_info_marker Server = EXT_INFO_SERVER_MARKER"

definition with_ext_info_marker :: "kex_init \<Rightarrow> role \<Rightarrow> kex_init" where
  "with_ext_info_marker k r =
     (if \<exists>n \<in> set (ki_kex k). n = ext_info_marker r then k
      else k\<lparr>ki_kex := ki_kex k @ [ext_info_marker r]\<rparr>)"

text \<open>The loop of \<open>write_name_list\<close>: the index decides whether a comma goes first.\<close>

definition name_list_joined :: "rust_str list \<Rightarrow> bytes" where
  "name_list_joined names =
     snd (fold (\<lambda>n (i, joined). (i + 1, (if i > 0 then joined @ [comma] else joined) @ n))
            names (0 :: nat, []))"

definition write_name_list :: "rust_str list \<Rightarrow> writer \<Rightarrow> writer" where
  "write_name_list names w = write_string (name_list_joined names) w"

definition MAX_NAME_LEN :: nat where "MAX_NAME_LEN = 64"

fun check_names :: "bytes list \<Rightarrow> rust_str list \<Rightarrow> rust_str list res" where
  "check_names [] out = Ok out"
| "check_names (e # es) out =
     (if length e > MAX_NAME_LEN then Err (Format ''over-long name in name-list'')
      else if \<not> list_all (\<lambda>b. 0x21 \<le> b \<and> b \<le> 0x7e) e
      then Err (Format ''non-printable name in name-list'')
      else case from_utf8 e of
             None \<Rightarrow> Err (Format ''bad name in name-list'')
           | Some s \<Rightarrow> check_names es (out @ [s]))"

definition read_name_list :: "rust_str list rd" where
  "read_name_list = rd_bind name_list_read (\<lambda>nl r.
     bind_res (check_names (name_list_iter nl) []) (\<lambda>names. Ok (names, r)))"

definition kexinit_encode :: "kex_init \<Rightarrow> bytes" where
  "kexinit_encode k =
     into_vec (write_u32 0 (write_bool (first_kex_packet_follows k)
       (write_name_list (lang_s2c k) (write_name_list (lang_c2s k)
       (write_name_list (comp_s2c k) (write_name_list (comp_c2s k)
       (write_name_list (macs_s2c k) (write_name_list (macs_c2s k)
       (write_name_list (ciphers_s2c k) (write_name_list (ciphers_c2s k)
       (write_name_list (server_host_key k) (write_name_list (ki_kex k)
       (write_raw (cookie k) (write_u8 SSH_MSG_KEXINIT writer_new))))))))))))))"

definition kexinit_fields :: "kex_init rd" where
  "kexinit_fields =
     rd_bind (take_bytes 16) (\<lambda>cookie_slice.
     rd_bind read_name_list (\<lambda>kex. rd_bind read_name_list (\<lambda>hk.
     rd_bind read_name_list (\<lambda>c1. rd_bind read_name_list (\<lambda>c2.
     rd_bind read_name_list (\<lambda>m1. rd_bind read_name_list (\<lambda>m2.
     rd_bind read_name_list (\<lambda>z1. rd_bind read_name_list (\<lambda>z2.
     rd_bind read_name_list (\<lambda>l1. rd_bind read_name_list (\<lambda>l2.
     rd_bind read_bool (\<lambda>follows. rd_bind read_u32 (\<lambda>reserved r.
       if \<not> reader_is_empty r then Err (Format ''KEXINIT trailing bytes'')
       else Ok (\<lparr>cookie = cookie_slice, ki_kex = kex, server_host_key = hk,
                 ciphers_c2s = c1, ciphers_s2c = c2, macs_c2s = m1, macs_s2c = m2,
                 comp_c2s = z1, comp_s2c = z2, lang_c2s = l1, lang_s2c = l2,
                 first_kex_packet_follows = follows\<rparr>, r))))))))))))))"

definition kexinit_decode :: "bytes \<Rightarrow> kex_init res" where
  "kexinit_decode payload =
     map_res fst (rd_bind read_u8 (\<lambda>msg.
       if msg \<noteq> SSH_MSG_KEXINIT then rd_err (Protocol ''expected SSH_MSG_KEXINIT'')
       else kexinit_fields) (reader_new payload))"

section \<open>Negotiation\<close>

record negotiated =
  ng_kex :: rust_str
  ng_host_key :: rust_str
  ng_cipher_c2s :: rust_str
  ng_cipher_s2c :: rust_str
  ng_mac_c2s :: rust_str
  ng_mac_s2c :: rust_str
  ng_comp_c2s :: rust_str
  ng_comp_s2c :: rust_str
  wrong_guess :: bool
  strict_kex_enabled :: bool
  ext_info_enabled :: bool
  client_ext_info :: bool
  server_ext_info :: bool

fun pick_loop :: "bool \<Rightarrow> rust_str list \<Rightarrow> rust_str list \<Rightarrow> rust_str option" where
  "pick_loop is_kex [] server = None"
| "pick_loop is_kex (name # client) server =
     (if is_kex \<and> (is_strict_kex_marker name \<or> is_ext_info_marker name)
      then pick_loop is_kex client server
      else if \<exists>s \<in> set server. s = name then Some name
      else pick_loop is_kex client server)"

definition pick :: "string \<Rightarrow> rust_str list \<Rightarrow> rust_str list \<Rightarrow> rust_str res" where
  "pick category client server =
     (case pick_loop (category = ''kex algorithm'') client server of
        Some name \<Rightarrow> Ok name
      | None \<Rightarrow> Err (NoMatch category (join_comma client) (join_comma server)))"

definition suite_is_aead :: "rust_str \<Rightarrow> bool" where
  "suite_is_aead name = (case cipher_spec_by_name name of None \<Rightarrow> False | Some s \<Rightarrow> cs_aead s)"

definition first_of :: "'a list \<Rightarrow> 'a option" where
  "first_of xs = (case xs of [] \<Rightarrow> None | x # _ \<Rightarrow> Some x)"

definition guess_wrong :: "kex_init \<Rightarrow> kex_init \<Rightarrow> bool" where
  "guess_wrong client server =
     (if first_kex_packet_follows client \<or> first_kex_packet_follows server
      then \<not> (first_of (ki_kex client) = first_of (ki_kex server)
            \<and> first_of (server_host_key client) = first_of (server_host_key server))
      else False)"

definition negotiate :: "kex_init \<Rightarrow> kex_init \<Rightarrow> negotiated res" where
  "negotiate client server =
     bind_res (pick ''kex algorithm'' (ki_kex client) (ki_kex server)) (\<lambda>kex.
     bind_res (pick ''host-key algorithm'' (server_host_key client) (server_host_key server)) (\<lambda>hk.
     bind_res (pick ''cipher c2s'' (ciphers_c2s client) (ciphers_c2s server)) (\<lambda>c1.
     bind_res (pick ''cipher s2c'' (ciphers_s2c client) (ciphers_s2c server)) (\<lambda>c2.
     bind_res (if suite_is_aead c1 then Ok []
               else pick ''mac c2s'' (macs_c2s client) (macs_c2s server)) (\<lambda>m1.
     bind_res (if suite_is_aead c2 then Ok []
               else pick ''mac s2c'' (macs_s2c client) (macs_s2c server)) (\<lambda>m2.
     bind_res (pick ''compression c2s'' (comp_c2s client) (comp_c2s server)) (\<lambda>z1.
     bind_res (pick ''compression s2c'' (comp_s2c client) (comp_s2c server)) (\<lambda>z2.
       let client_advertised = (\<exists>s \<in> set (ki_kex client). s = STRICT_KEX_CLIENT_MARKER);
           server_advertised = (\<exists>s \<in> set (ki_kex server). s = STRICT_KEX_SERVER_MARKER);
           client_ext = (\<exists>s \<in> set (ki_kex client). s = EXT_INFO_CLIENT_MARKER);
           server_ext = (\<exists>s \<in> set (ki_kex server). s = EXT_INFO_SERVER_MARKER)
       in Ok \<lparr>ng_kex = kex, ng_host_key = hk, ng_cipher_c2s = c1, ng_cipher_s2c = c2,
              ng_mac_c2s = m1, ng_mac_s2c = m2, ng_comp_c2s = z1, ng_comp_s2c = z2,
              wrong_guess = guess_wrong client server,
              strict_kex_enabled = (client_advertised \<and> server_advertised),
              ext_info_enabled = (client_ext \<and> server_ext),
              client_ext_info = client_ext, server_ext_info = server_ext\<rparr>))))))))"

section \<open>The codec\<close>

definition good_name :: "rust_str \<Rightarrow> bool" where
  "good_name n \<longleftrightarrow> plain_name n \<and> length n \<le> MAX_NAME_LEN \<and> (\<forall>b \<in> set n. 0x21 \<le> b \<and> b \<le> 0x7e)"

definition names_ok :: "rust_str list \<Rightarrow> bool" where
  "names_ok ns \<longleftrightarrow> (\<forall>n \<in> set ns. good_name n) \<and> fits_u32 (join_comma ns)"

lemma join_comma_Cons: "join_comma (n # ns) = n @ concat (map (\<lambda>m. comma # m) ns)"
  by (induction ns arbitrary: n) simp_all

lemma joined_more:
  "i > 0 \<Longrightarrow> snd (fold (\<lambda>n (i, joined). (i + 1, (if i > 0 then joined @ [comma] else joined) @ n))
      ns (i :: nat, acc)) = acc @ concat (map (\<lambda>m. comma # m) ns)"
  by (induction ns arbitrary: i acc) simp_all

lemma name_list_joined_eq: "name_list_joined ns = join_comma ns"
proof (cases ns)
  case Nil
  then show ?thesis by (simp add: name_list_joined_def)
next
  case (Cons n ns')
  then show ?thesis using joined_more [of 1 ns' n] by (simp add: name_list_joined_def join_comma_Cons)
qed

lemma printable_utf8: "\<forall>b \<in> set n. b \<le> 0x7e \<Longrightarrow> from_utf8 n = Some n"
proof -
  assume a: "\<forall>b \<in> set n. b \<le> 0x7e"
  have "\<forall>b \<in> set n. b < 0x80"
  proof
    fix b assume "b \<in> set n"
    with a have "b \<le> 0x7e" by blast
    then show "b < 0x80" by (rule order_le_less_trans) simp
  qed
  then show ?thesis by (simp add: from_utf8_def valid_utf8_ascii)
qed

lemma check_names_good:
  "\<forall>n \<in> set ns. good_name n \<Longrightarrow> check_names ns out = Ok (out @ ns)"
  by (induction ns arbitrary: out)
    (auto simp: good_name_def list_all_iff printable_utf8 split: option.splits)

lemma check_names_result:
  "check_names es out = Ok names \<Longrightarrow>
     names = out @ es \<and> (\<forall>n \<in> set es. length n \<le> MAX_NAME_LEN \<and> (\<forall>b \<in> set n. 0x21 \<le> b \<and> b \<le> 0x7e))"
proof (induction es arbitrary: out)
  case (Cons e es)
  then have "check_names es (out @ [e]) = Ok names" "length e \<le> MAX_NAME_LEN"
    "\<forall>b \<in> set e. 0x21 \<le> b \<and> b \<le> 0x7e"
    by (auto simp: list_all_iff from_utf8_def split: if_splits option.splits)
  with Cons.IH [of "out @ [e]"] show ?case by simp
qed simp

lemma check_names_safe: "check_names es out \<noteq> Panic"
  by (induction es arbitrary: out) (auto split: option.splits)

lemma read_name_list_result:
  "read_name_list r = Ok (names, r') \<Longrightarrow> \<forall>n \<in> set names. good_name n"
  by (auto simp: read_name_list_def rd_bind_eq_Ok bind_res_eq_Ok good_name_def
      dest!: check_names_result name_list_iter_plain)

lemma safe_read_name_list: "safe_rd read_name_list"
  unfolding read_name_list_def name_list_read_def
  by (intro safe_rd_bind safe_read_string) (auto simp: safe_rd_def bind_res_eq_Panic check_names_safe)

interpretation namesc: wire_codec write_name_list read_name_list "\<lambda>ns. enc_string (join_comma ns)" names_ok
proof (unfold_locales, goal_cases)
  case (1 x w)
  show ?case by (simp add: write_name_list_def name_list_joined_eq wire_simps)
next
  case (2 x pre post)
  then show ?case
    by (simp add: read_name_list_def name_list_read_def strc.bind_back names_ok_def
        name_list_iter_join good_name_def check_names_good)
next
  case 3
  show ?case by (rule safe_read_name_list)
qed

definition kexinit_wf :: "kex_init \<Rightarrow> bool" where
  "kexinit_wf k \<longleftrightarrow> length (cookie k) = 16 \<and> names_ok (ki_kex k) \<and> names_ok (server_host_key k)
   \<and> names_ok (ciphers_c2s k) \<and> names_ok (ciphers_s2c k) \<and> names_ok (macs_c2s k)
   \<and> names_ok (macs_s2c k) \<and> names_ok (comp_c2s k) \<and> names_ok (comp_s2c k)
   \<and> names_ok (lang_c2s k) \<and> names_ok (lang_s2c k)"

lemma take_cookie: "length c = 16 \<Longrightarrow> fits pre (c @ post) \<Longrightarrow>
    rd_bind (take_bytes 16) f (rd_at pre (c @ post)) = f c (rd_at (pre @ c) post)"
  by (simp add: rd_bind_def take_bytes_at)

lemma kexinit_encode_bytes:
  "kexinit_encode k = SSH_MSG_KEXINIT # cookie k
     @ enc_string (join_comma (ki_kex k)) @ enc_string (join_comma (server_host_key k))
     @ enc_string (join_comma (ciphers_c2s k)) @ enc_string (join_comma (ciphers_s2c k))
     @ enc_string (join_comma (macs_c2s k)) @ enc_string (join_comma (macs_s2c k))
     @ enc_string (join_comma (comp_c2s k)) @ enc_string (join_comma (comp_s2c k))
     @ enc_string (join_comma (lang_c2s k)) @ enc_string (join_comma (lang_s2c k))
     @ (if first_kex_packet_follows k then 1 else 0) # u32_to_be 0"
  by (simp add: kexinit_encode_def into_vec_def wire_simps namesc.wr_appends)

lemma kexinit_round_trip:
  assumes "kexinit_wf k" "small (kexinit_encode k)"
  shows "kexinit_decode (kexinit_encode k) = Ok k"
proof -
  have "kexinit_decode (kexinit_encode k) = map_res fst (kexinit_fields (rd_at [SSH_MSG_KEXINIT]
      (tl (kexinit_encode k))))"
    using assms(2) read_u8_at [of "[]" SSH_MSG_KEXINIT "tl (kexinit_encode k)"]
    by (simp add: kexinit_decode_def reader_new_rd_at rd_bind_def kexinit_encode_bytes)
  also have "\<dots> = Ok k"
    using assms
    by (simp add: kexinit_fields_def kexinit_encode_bytes kexinit_wf_def take_cookie
        namesc.bind_back boolc_back u32c.last_back)
  finally show ?thesis .
qed

text \<open>
  A KEXINIT survives the wire: encoding a well-formed one and decoding the bytes gives it
  back, so both sides hash and negotiate over the same lists. Whatever a peer sends, decoding does
  not panic, and every name it lets through is non-empty, at most 64 bytes of printable ASCII
  and free of commas.
\<close>

theorem kexinit_codec:
  "(kexinit_wf k \<and> small (kexinit_encode k) \<longrightarrow> kexinit_decode (kexinit_encode k) = Ok k)
 \<and> kexinit_decode b \<noteq> Panic
 \<and> (\<forall>k'. kexinit_decode b = Ok k' \<longrightarrow> length (cookie k') = 16 \<and>
      (\<forall>n \<in> set (ki_kex k') \<union> set (server_host_key k') \<union> set (ciphers_c2s k') \<union> set (ciphers_s2c k')
           \<union> set (macs_c2s k') \<union> set (macs_s2c k') \<union> set (comp_c2s k') \<union> set (comp_s2c k')
           \<union> set (lang_c2s k') \<union> set (lang_s2c k'). good_name n))"
proof (intro conjI)
  show "kexinit_wf k \<and> small (kexinit_encode k) \<longrightarrow> kexinit_decode (kexinit_encode k) = Ok k"
    by (simp add: kexinit_round_trip)
  have "safe_rd (\<lambda>r. if \<not> reader_is_empty r then Err e else Ok (x, r))" for e and x :: kex_init
    by (simp add: safe_rd_def)
  then have "safe_rd kexinit_fields"
    unfolding kexinit_fields_def
    by (intro safe_rd_bind safe_take_bytes safe_read_name_list safe_read_bool safe_read_u32)
  then have "rd_bind read_u8 (\<lambda>msg. if msg \<noteq> SSH_MSG_KEXINIT
      then rd_err (Protocol ''expected SSH_MSG_KEXINIT'') else kexinit_fields) r \<noteq> Panic" for r
    by (intro safe_rdD safe_rd_bind safe_read_u8) (auto simp: safe_rd_err)
  then show "kexinit_decode b \<noteq> Panic" by (simp add: kexinit_decode_def)
  have "length (cookie k') = 16 \<and>
      (\<forall>n \<in> set (ki_kex k') \<union> set (server_host_key k') \<union> set (ciphers_c2s k') \<union> set (ciphers_s2c k')
           \<union> set (macs_c2s k') \<union> set (macs_s2c k') \<union> set (comp_c2s k') \<union> set (comp_s2c k')
           \<union> set (lang_c2s k') \<union> set (lang_s2c k'). good_name n)"
    if "kexinit_fields r = Ok (k', r')" for k' r r'
    using that unfolding kexinit_fields_def
    by (auto simp: rd_bind_eq_Ok dest!: take_bytes_length read_name_list_result split: if_splits)
  then show "\<forall>k'. kexinit_decode b = Ok k' \<longrightarrow> length (cookie k') = 16 \<and>
      (\<forall>n \<in> set (ki_kex k') \<union> set (server_host_key k') \<union> set (ciphers_c2s k') \<union> set (ciphers_s2c k')
           \<union> set (macs_c2s k') \<union> set (macs_s2c k') \<union> set (comp_c2s k') \<union> set (comp_s2c k')
           \<union> set (lang_c2s k') \<union> set (lang_s2c k'). good_name n)"
    by (force simp: kexinit_decode_def map_res_eq_Ok rd_bind_eq_Ok split: if_splits)
qed

text \<open>A KEXINIT with the built-in lists.\<close>

definition default_algorithms :: kex_algorithms where
  "default_algorithms = \<lparr>ka_kex = DEFAULT_KEX, ka_server_host_key = DEFAULT_HOST_KEY,
     ka_ciphers_c2s = DEFAULT_CIPHERS, ka_ciphers_s2c = DEFAULT_CIPHERS,
     ka_macs_c2s = DEFAULT_MACS, ka_macs_s2c = DEFAULT_MACS,
     ka_comp_c2s = DEFAULT_COMP, ka_comp_s2c = DEFAULT_COMP,
     ka_lang_c2s = [], ka_lang_s2c = []\<rparr>"

definition default_kexinit :: "role \<Rightarrow> kex_init" where
  "default_kexinit r = with_ext_info_marker (from_algorithms default_algorithms (replicate 16 7)) r"

lemma good_name_lit:
  "s \<noteq> [] \<Longrightarrow> length s \<le> 64 \<Longrightarrow> \<forall>c \<in> set s. 33 \<le> (of_char c :: nat) \<and> (of_char c :: nat) \<le> 126 \<and> c \<noteq> CHR '',''
   \<Longrightarrow> good_name (lit s)"
proof -
  assume s: "s \<noteq> []" "length s \<le> 64"
    "\<forall>c \<in> set s. 33 \<le> (of_char c :: nat) \<and> (of_char c :: nat) \<le> 126 \<and> c \<noteq> CHR '',''"
  have "comma \<notin> set (lit s)"
  proof
    assume "comma \<in> set (lit s)"
    then obtain c where c: "c \<in> set s" "of_char c = comma" by (auto simp: lit_def)
    then have "(of_char c :: u8) = of_char CHR '',''" by simp
    then have "c = CHR '',''" by (simp only: of_char_u8_inject)
    with c(1) s(3) show False by blast
  qed
  moreover have "\<forall>b \<in> set (lit s). 0x21 \<le> b \<and> b \<le> 0x7e"
    using s(3) by (auto simp: lit_def word_le_nat_alt unat_of_char)
  ultimately show ?thesis
    using s(1,2) by (auto simp: good_name_def plain_name_def MAX_NAME_LEN_def lit_def)
qed

lemma names_ok_default:
  "names_ok DEFAULT_KEX" "names_ok DEFAULT_HOST_KEY" "names_ok DEFAULT_CIPHERS"
  "names_ok DEFAULT_MACS" "names_ok DEFAULT_COMP" "names_ok []"
  by (simp_all add: names_ok_def DEFAULT_KEX_def DEFAULT_HOST_KEY_def DEFAULT_CIPHERS_def
      DEFAULT_MACS_def DEFAULT_COMP_def good_name_lit marker_defs fits_u32_def)

lemma default_kex_list: "ki_kex (default_kexinit r) = DEFAULT_KEX @ [ext_info_marker r]"
  by (cases r) (simp_all add: default_kexinit_def with_ext_info_marker_def from_algorithms_def
      default_algorithms_def DEFAULT_KEX_def marker_defs)

lemma default_other_lists:
  "cookie (default_kexinit r) = replicate 16 7"
  "server_host_key (default_kexinit r) = DEFAULT_HOST_KEY"
  "ciphers_c2s (default_kexinit r) = DEFAULT_CIPHERS" "ciphers_s2c (default_kexinit r) = DEFAULT_CIPHERS"
  "macs_c2s (default_kexinit r) = DEFAULT_MACS" "macs_s2c (default_kexinit r) = DEFAULT_MACS"
  "comp_c2s (default_kexinit r) = DEFAULT_COMP" "comp_s2c (default_kexinit r) = DEFAULT_COMP"
  "lang_c2s (default_kexinit r) = []" "lang_s2c (default_kexinit r) = []"
  "first_kex_packet_follows (default_kexinit r) = False"
  by (simp_all add: default_kexinit_def with_ext_info_marker_def from_algorithms_def
      default_algorithms_def)

lemma names_ok_default_kex: "names_ok (DEFAULT_KEX @ [ext_info_marker r])"
  by (cases r) (simp_all add: names_ok_def DEFAULT_KEX_def good_name_lit marker_defs fits_u32_def)

lemma default_kexinit_ok: "kexinit_wf (default_kexinit r)"
  by (simp add: kexinit_wf_def default_kex_list default_other_lists names_ok_default names_ok_default_kex)

lemma names_ok_small: "names_ok ns \<Longrightarrow> length (join_comma ns) < 2 ^ 32"
  by (simp add: names_ok_def fits_u32_def)

lemma kexinit_wf_small: "kexinit_wf k \<Longrightarrow> small (kexinit_encode k)"
  unfolding kexinit_wf_def
  by (elim conjE) (drule names_ok_small, simp add: kexinit_encode_bytes small_def USIZE_LIMIT_def)+

theorem kexinit_codec_witness:
  "kexinit_wf (default_kexinit Client) \<and>
   kexinit_decode (kexinit_encode (default_kexinit Client)) = Ok (default_kexinit Client)"
  using kexinit_codec [of "default_kexinit Client" "[]"] default_kexinit_ok [of Client]
    kexinit_wf_small [OF default_kexinit_ok] by blast

section \<open>Negotiation picks the first common name\<close>

definition is_signal :: "rust_str \<Rightarrow> bool" where
  "is_signal n \<longleftrightarrow> is_strict_kex_marker n \<or> is_ext_info_marker n"

lemma pick_loop_find:
  "pick_loop k c s = find (\<lambda>n. \<not> (k \<and> is_signal n) \<and> n \<in> set s) c"
  by (induction c) (auto simp: is_signal_def)





lemma default_negotiation:
  "negotiate (default_kexinit Client) (default_kexinit Server) =
     Ok \<lparr>ng_kex = lit ''mlkem768x25519-sha256'', ng_host_key = lit ''ssh-ed25519'',
         ng_cipher_c2s = lit ''chacha20-poly1305@openssh.com'',
         ng_cipher_s2c = lit ''chacha20-poly1305@openssh.com'',
         ng_mac_c2s = [], ng_mac_s2c = [], ng_comp_c2s = lit ''none'', ng_comp_s2c = lit ''none'',
         wrong_guess = False, strict_kex_enabled = True, ext_info_enabled = True,
         client_ext_info = True, server_ext_info = True\<rparr>"
proof -
  have "suite_is_aead (lit ''chacha20-poly1305@openssh.com'')"
    by (simp add: suite_is_aead_def cipher_spec_by_name_def ALL_CIPHERS_def cipher_spec_of_def)
  then show ?thesis
    by (simp add: negotiate_def default_kex_list default_other_lists pick_def DEFAULT_KEX_def
        DEFAULT_HOST_KEY_def DEFAULT_CIPHERS_def DEFAULT_COMP_def marker_defs guess_wrong_def Let_def)
qed


text \<open>
  Both sides reach the same agreement: what the client computes from its own KEXINIT and
  the bytes it received, and what the server computes from the bytes it received and its own
  KEXINIT, are the same outcome, success or failure.
\<close>

theorem both_sides_agree:
  assumes "kexinit_wf c" "kexinit_wf s"
  shows "\<exists>c' s'. kexinit_decode (kexinit_encode c) = Ok c' \<and> kexinit_decode (kexinit_encode s) = Ok s'
       \<and> negotiate c s' = negotiate c' s"
  using kexinit_round_trip kexinit_wf_small assms by blast

theorem both_sides_agree_witness:
  "\<exists>c' s'. kexinit_decode (kexinit_encode (default_kexinit Client)) = Ok c'
     \<and> kexinit_decode (kexinit_encode (default_kexinit Server)) = Ok s'
     \<and> negotiate (default_kexinit Client) s' = negotiate c' (default_kexinit Server)"
  using both_sides_agree [OF default_kexinit_ok default_kexinit_ok] .

lemma ext_marker_signal: "is_signal (ext_info_marker r)"
  by (cases r) (simp_all add: is_signal_def marker_defs)

lemma with_marker_kex:
  "set (ki_kex (with_ext_info_marker k r)) = insert (ext_info_marker r) (set (ki_kex k))"
  by (auto simp: with_ext_info_marker_def)

lemma with_marker_others [simp]:
  "server_host_key (with_ext_info_marker k r) = server_host_key k"
  "ciphers_c2s (with_ext_info_marker k r) = ciphers_c2s k"
  "ciphers_s2c (with_ext_info_marker k r) = ciphers_s2c k"
  "macs_c2s (with_ext_info_marker k r) = macs_c2s k" "macs_s2c (with_ext_info_marker k r) = macs_s2c k"
  "comp_c2s (with_ext_info_marker k r) = comp_c2s k" "comp_s2c (with_ext_info_marker k r) = comp_s2c k"
  "first_kex_packet_follows (with_ext_info_marker k r) = first_kex_packet_follows k"
  by (simp_all add: with_ext_info_marker_def)

lemma find_append: "find P (xs @ ys) = (case find P xs of None \<Rightarrow> find P ys | Some x \<Rightarrow> Some x)"
  by (induction xs) simp_all

lemma pick_loop_marker:
  "pick_loop True (ki_kex (with_ext_info_marker c Client)) (ki_kex (with_ext_info_marker s Server))
     = pick_loop True (ki_kex c) (ki_kex s)"
proof -
  have "find (\<lambda>n. \<not> is_signal n \<and> n \<in> set (ki_kex (with_ext_info_marker s Server))) xs
      = find (\<lambda>n. \<not> is_signal n \<and> n \<in> set (ki_kex s)) xs" for xs
    using ext_marker_signal [of Server] by (intro find_cong) (auto simp: with_marker_kex)
  then show ?thesis
    using ext_marker_signal [of Client]
    by (auto simp: pick_loop_find with_ext_info_marker_def find_append split: option.split)
qed

lemma first_of_marker: "ki_kex k \<noteq> [] \<Longrightarrow> first_of (ki_kex (with_ext_info_marker k r)) = first_of (ki_kex k)"
  by (cases "ki_kex k") (simp_all add: with_ext_info_marker_def first_of_def)

text \<open>
  Advertising extension negotiation is harmless: when two sides agree, then with the
  extension markers added to both adverts they agree on exactly the same algorithms, guess and
  strict-key-exchange outcome, and extension negotiation is on. The markers are never picked.
\<close>

theorem ext_markers_only_signal:
  assumes "negotiate c s = Ok n"
  shows "negotiate (with_ext_info_marker c Client) (with_ext_info_marker s Server) =
       Ok (n\<lparr>ext_info_enabled := True, client_ext_info := True, server_ext_info := True\<rparr>)
     \<and> \<not> is_signal (ng_kex n)"
proof -
  have kex: "pick ''kex algorithm'' (ki_kex (with_ext_info_marker c Client)) (ki_kex (with_ext_info_marker s Server))
      = Ok (ng_kex n)" "\<not> is_signal (ng_kex n)" "ki_kex c \<noteq> []" "ki_kex s \<noteq> []"
    using assms pick_loop_marker [of c s]
    by (auto simp: negotiate_def bind_res_eq_Ok pick_def pick_loop_find Let_def dest!: find_SomeD
        split: option.splits if_splits)
  have "guess_wrong (with_ext_info_marker c Client) (with_ext_info_marker s Server) = guess_wrong c s"
    using kex(3,4) by (simp add: guess_wrong_def first_of_marker)
  moreover have "(STRICT_KEX_CLIENT_MARKER \<in> set (ki_kex (with_ext_info_marker c Client))) =
      (STRICT_KEX_CLIENT_MARKER \<in> set (ki_kex c))"
    "(STRICT_KEX_SERVER_MARKER \<in> set (ki_kex (with_ext_info_marker s Server))) =
      (STRICT_KEX_SERVER_MARKER \<in> set (ki_kex s))"
    by (simp_all add: with_marker_kex marker_defs)
  moreover have "EXT_INFO_CLIENT_MARKER \<in> set (ki_kex (with_ext_info_marker c Client))"
    "EXT_INFO_SERVER_MARKER \<in> set (ki_kex (with_ext_info_marker s Server))"
    by (simp_all add: with_marker_kex)
  moreover obtain hk c1 c2 m1 m2 z1 z2 where
    "pick ''host-key algorithm'' (server_host_key c) (server_host_key s) = Ok hk"
    "pick ''cipher c2s'' (ciphers_c2s c) (ciphers_c2s s) = Ok c1"
    "pick ''cipher s2c'' (ciphers_s2c c) (ciphers_s2c s) = Ok c2"
    "(if suite_is_aead c1 then Ok [] else pick ''mac c2s'' (macs_c2s c) (macs_c2s s)) = Ok m1"
    "(if suite_is_aead c2 then Ok [] else pick ''mac s2c'' (macs_s2c c) (macs_s2c s)) = Ok m2"
    "pick ''compression c2s'' (comp_c2s c) (comp_c2s s) = Ok z1"
    "pick ''compression s2c'' (comp_s2c c) (comp_s2c s) = Ok z2"
    using assms unfolding negotiate_def Let_def bind_res_eq_Ok by blast
  ultimately show ?thesis
    using assms kex(1,2) by (auto simp: negotiate_def Let_def bind_res_eq_Ok [where m = "pick _ _ _"])
qed

theorem ext_markers_only_signal_witness:
  "\<exists>n. negotiate (default_kexinit Client) (default_kexinit Server) = Ok n \<and>
     negotiate (with_ext_info_marker (default_kexinit Client) Client)
       (with_ext_info_marker (default_kexinit Server) Server)
     = Ok (n\<lparr>ext_info_enabled := True, client_ext_info := True, server_ext_info := True\<rparr>)
     \<and> \<not> is_signal (ng_kex n)"
  using ext_markers_only_signal [OF default_negotiation] default_negotiation by blast

end
