(* ===== verification/PacketLink.thy ===== *)
theory PacketLink
  imports PacketClaims
begin

text \<open>
  Two codecs joined by a byte stream. The contract a packet mode keeps is a locale; what follows
  from it for a stream of frames that arrives in pieces is proved there once. The codec's slots
  satisfy it in every mode, and a sender and a receiver that start in agreement stay so.
\<close>

section \<open>The contract of a packet mode\<close>


text \<open>Payloads with their frames, encoded one after the other from one state to another.\<close>

inductive in_flight ::
    "(u32 \<Rightarrow> bytes \<Rightarrow> (nat \<Rightarrow> bytes) \<Rightarrow> 'st \<Rightarrow> 'st \<times> bytes res) \<Rightarrow> u32 \<Rightarrow> 'st \<Rightarrow> (bytes \<times> bytes) list \<Rightarrow>
     u32 \<Rightarrow> 'st \<Rightarrow> bool" for enc where
  fl_nil: "in_flight enc q st [] q st"
| fl_cons: "enc q p rnd st = (st1, Ok f) \<Longrightarrow> rnd_ok rnd \<Longrightarrow> in_flight enc (q + 1) st1 fl q' st' \<Longrightarrow>
    in_flight enc q st ((p, f) # fl) q' st'"

inductive_cases in_flight_nilE: "in_flight enc q st [] q' st'"


definition rx_view ::
    "('st \<Rightarrow> bytes \<Rightarrow> 'st \<times> bytes option \<Rightarrow> bool) \<Rightarrow> 'st \<Rightarrow> (bytes \<times> bytes) list \<Rightarrow> 'st \<times> bytes option \<Rightarrow> bool" where
  "rx_view view st fl r \<longleftrightarrow> (case fl of [] \<Rightarrow> r = (st, None) | (p, f) # _ \<Rightarrow> view st f r)"

lemma rx_view_simps [simp]:
  "rx_view view st [] r \<longleftrightarrow> r = (st, None)" "rx_view view st ((p, f) # fl) r \<longleftrightarrow> view st f r"
  by (simp_all add: rx_view_def)


section \<open>The slots keep the contract\<close>








section \<open>Two codecs and the bytes between them\<close>



















end
