(* ===== verification/Keys.thy ===== *)
theory Keys
  imports Kexinit PacketLink
begin

text \<open>
  From the outcome of a key exchange to installed ciphers: the exchange-hash builder and the key
  derivation of RFC 4253 (src/src/hazmat/kex/hash.rs), and the parts of the key-exchange runner that
  derive one direction's keys and build its cipher and MAC (src/src/hazmat/transport/runner.rs). The hash functions belong to purecrypto and are an argument.
\<close>

section \<open>Exchange hash and derivation (kex/hash.rs)\<close>

datatype kex_digest = KSha1 | KSha256 | KSha384 | KSha512

fun kex_digest_len :: "kex_digest \<Rightarrow> nat" where
  "kex_digest_len KSha1 = 20"
| "kex_digest_len KSha256 = 32"
| "kex_digest_len KSha384 = 48"
| "kex_digest_len KSha512 = 64"

type_synonym hash_prim = "kex_digest \<Rightarrow> bytes \<Rightarrow> bytes"

definition hash_ok :: "hash_prim \<Rightarrow> bool" where
  "hash_ok H \<longleftrightarrow> (\<forall>d x. length (H d x) = kex_digest_len d)"

text \<open>The builder \<open>ExchangeHash\<close>: what has been fed to the digest so far.\<close>

definition eh_new :: bytes where "eh_new = []"

definition eh_write_string :: "bytes \<Rightarrow> bytes \<Rightarrow> bytes" where
  "eh_write_string s hasher = hasher @ u32_to_be (of_nat (length s)) @ s"

definition eh_write_u32 :: "u32 \<Rightarrow> bytes \<Rightarrow> bytes" where
  "eh_write_u32 v hasher = hasher @ u32_to_be v"

definition eh_write_mpint :: "bytes \<Rightarrow> bytes \<Rightarrow> bytes" where
  "eh_write_mpint magnitude hasher =
     (let m = drop (skip_zeros magnitude 0) magnitude in
      case m of
        [] \<Rightarrow> eh_write_u32 0 hasher
      | b # _ \<Rightarrow>
          if high_bit b then eh_write_u32 (of_nat (length m + 1)) hasher @ [0] @ m
          else eh_write_u32 (of_nat (length m)) hasher @ m)"

definition eh_write_raw :: "bytes \<Rightarrow> bytes \<Rightarrow> bytes" where
  "eh_write_raw b hasher = hasher @ b"

definition eh_finalize :: "hash_prim \<Rightarrow> kex_digest \<Rightarrow> bytes \<Rightarrow> bytes" where
  "eh_finalize H d hasher = H d hasher"

definition mpint_bytes :: "bytes \<Rightarrow> bytes" where
  "mpint_bytes magnitude =
     (let m = drop (skip_zeros magnitude 0) magnitude in
      case m of
        [] \<Rightarrow> u32_to_be 0
      | b # _ \<Rightarrow>
          if high_bit b then u32_to_be (of_nat (length m + 1)) @ [0] @ m
          else u32_to_be (of_nat (length m)) @ m)"

text \<open>The \<open>while\<close> loop of \<open>derive\<close>; it ends because a digest is never empty.\<close>

partial_function (option) derive_loop :: "(bytes \<Rightarrow> bytes) \<Rightarrow> bytes \<Rightarrow> bytes \<Rightarrow> nat \<Rightarrow> bytes \<Rightarrow> bytes option" where
  "derive_loop hash k_mpint h out_len out =
     (if length out < out_len then derive_loop hash k_mpint h out_len (out @ hash (k_mpint @ h @ out))
      else Some out)"

definition derive :: "hash_prim \<Rightarrow> kex_digest \<Rightarrow> bytes \<Rightarrow> bytes \<Rightarrow> bytes \<Rightarrow> u8 \<Rightarrow> nat \<Rightarrow> bytes option" where
  "derive H d k_mpint h session_id letter out_len =
     (if out_len = 0 then Some []
      else map_option (take out_len)
             (derive_loop (H d) k_mpint h out_len (H d (k_mpint @ h @ [letter] @ session_id))))"

section \<open>Backends and keys (runner.rs)\<close>

datatype kex_backend =
    Curve25519 | EcdhP256 | EcdhP384 | EcdhP521 | Dh14 | Dh16 | Dh18 | Gex | Dh1Sha1 | Dh14Sha1 | GexSha1
  | MlKem768X25519 | MlKem768Nistp256 | Sntrup761X25519

definition kex_backend_from_name :: "rust_str \<Rightarrow> kex_backend res" where
  "kex_backend_from_name name =
     (if name = lit ''curve25519-sha256'' \<or> name = lit ''curve25519-sha256@libssh.org'' then Ok Curve25519
      else if name = lit ''ecdh-sha2-nistp256'' then Ok EcdhP256
      else if name = lit ''ecdh-sha2-nistp384'' then Ok EcdhP384
      else if name = lit ''ecdh-sha2-nistp521'' then Ok EcdhP521
      else if name = lit ''diffie-hellman-group14-sha256'' then Ok Dh14
      else if name = lit ''diffie-hellman-group16-sha512'' then Ok Dh16
      else if name = lit ''diffie-hellman-group18-sha512'' then Ok Dh18
      else if name = lit ''diffie-hellman-group-exchange-sha256'' then Ok Gex
      else if name = lit ''diffie-hellman-group1-sha1'' then Ok Dh1Sha1
      else if name = lit ''diffie-hellman-group14-sha1'' then Ok Dh14Sha1
      else if name = lit ''diffie-hellman-group-exchange-sha1'' then Ok GexSha1
      else if name = lit ''mlkem768x25519-sha256'' then Ok MlKem768X25519
      else if name = lit ''mlkem768nistp256-sha256'' then Ok MlKem768Nistp256
      else if name = lit ''sntrup761x25519-sha512'' \<or> name = lit ''sntrup761x25519-sha512@openssh.com''
      then Ok Sntrup761X25519
      else Err (Unsupported ''KEX algorithm''))"

fun kdf_digest :: "kex_backend \<Rightarrow> kex_digest" where
  "kdf_digest Curve25519 = KSha256"
| "kdf_digest EcdhP256 = KSha256"
| "kdf_digest Dh14 = KSha256"
| "kdf_digest Gex = KSha256"
| "kdf_digest MlKem768X25519 = KSha256"
| "kdf_digest MlKem768Nistp256 = KSha256"
| "kdf_digest EcdhP384 = KSha384"
| "kdf_digest Dh1Sha1 = KSha1"
| "kdf_digest Dh14Sha1 = KSha1"
| "kdf_digest GexSha1 = KSha1"
| "kdf_digest EcdhP521 = KSha512"
| "kdf_digest Dh16 = KSha512"
| "kdf_digest Dh18 = KSha512"
| "kdf_digest Sntrup761X25519 = KSha512"

definition kdf :: "hash_prim \<Rightarrow> kex_backend \<Rightarrow> bytes \<Rightarrow> bytes \<Rightarrow> bytes \<Rightarrow> u8 \<Rightarrow> nat \<Rightarrow> bytes option" where
  "kdf H backend k h sid letter n = derive H (kdf_digest backend) k h sid letter n"

record dir_keys =
  dk_cipher :: rust_str
  dk_iv :: bytes
  dk_key :: bytes
  dk_mac :: rust_str
  dk_mac_key :: bytes

record installed_keys =
  keys_c2s :: dir_keys
  keys_s2c :: dir_keys

text \<open>\<open>None\<close> stands for a derivation loop that does not return.\<close>

definition derive_for_direction :: "hash_prim \<Rightarrow> kex_backend \<Rightarrow> bytes \<Rightarrow> bytes \<Rightarrow> bytes \<Rightarrow> u8 \<Rightarrow> u8 \<Rightarrow> u8 \<Rightarrow>
    rust_str \<Rightarrow> rust_str \<Rightarrow> dir_keys res option" where
  "derive_for_direction H backend k h sid iv_letter key_letter mac_letter cipher mac =
     (case cipher_spec_by_name cipher of
        None \<Rightarrow> Some (Err (Unsupported ''cipher in negotiation''))
      | Some spec \<Rightarrow>
          Option.bind (kdf H backend k h sid iv_letter (cs_iv_len spec)) (\<lambda>iv.
          Option.bind (kdf H backend k h sid key_letter (cs_key_len spec)) (\<lambda>key.
            if cs_aead spec
            then Some (Ok \<lparr>dk_cipher = cipher, dk_iv = iv, dk_key = key, dk_mac = [], dk_mac_key = []\<rparr>)
            else case mac_spec_by_name mac of
                   None \<Rightarrow> Some (Err (Unsupported ''MAC in negotiation''))
                 | Some mspec \<Rightarrow>
                     Option.bind (kdf H backend k h sid mac_letter (ms_key_len mspec)) (\<lambda>mk.
                       Some (Ok \<lparr>dk_cipher = cipher, dk_iv = iv, dk_key = key, dk_mac = mac, dk_mac_key = mk\<rparr>)))))"

definition build_cipher_mac :: "'s cipher_prims \<Rightarrow> dir_keys \<Rightarrow> ('s ssh_cipher \<times> ssh_mac option) res" where
  "build_cipher_mac P dir =
     (case cipher_by_name P (dk_cipher dir) (dk_key dir) (dk_iv dir) of
        None \<Rightarrow> Err (Unsupported ''cipher name'')
      | Some rc \<Rightarrow> bind_res rc (\<lambda>cipher.
          if dk_mac dir = [] then Ok (cipher, None)
          else case mac_by_name (dk_mac dir) (dk_mac_key dir) of
                 None \<Rightarrow> Err (Unsupported ''MAC name'')
               | Some m \<Rightarrow> Ok (cipher, Some m)))"

text \<open>\<open>?\<close> on an installation: its codec and its error.\<close>

definition st_then :: "'st \<times> 'a res \<Rightarrow> ('st \<Rightarrow> 'a \<Rightarrow> 'st \<times> 'b res) \<Rightarrow> 'st \<times> 'b res" where
  "st_then sr f = (case sr of (st, Ok x) \<Rightarrow> f st x | (st, Err e) \<Rightarrow> (st, Err e) | (st, Panic) \<Rightarrow> (st, Panic))"

definition need_comp :: "'a option \<Rightarrow> 'a res" where
  "need_comp x = (case x of None \<Rightarrow> Err (Unsupported ''unsupported compression'') | Some c \<Rightarrow> Ok c)"

end
