(* ===== verification/KexMethods.thy ===== *)
theory KexMethods
  imports Keys
begin

text \<open>
  The key-exchange methods of src/src/hazmat/kex: curve25519, the NIST curves, the fixed
  Diffie-Hellman groups, the group exchange of RFC 4419 and the hybrid post-quantum methods. Curve,
  group and KEM arithmetic belongs to the purecrypto crate and is an argument, \<open>kex_prims\<close>, with the
  laws the methods rely on in \<open>kex_prims_ok\<close>; so is the sntrup761 KEM (its polynomial arithmetic is
  not modelled). A host key and a verifier are trait objects of the caller. The random generator is
  threaded through as a state of any type.
\<close>

section \<open>Arguments of the methods\<close>

record kex_context =
  v_c :: bytes
  v_s :: bytes
  i_c :: bytes
  i_s :: bytes

record kex_output =
  ko_k :: bytes
  ko_h :: bytes

record server_reply_out =
  sr_payload :: bytes
  sr_kex :: kex_output

record host_key =
  public_blob :: bytes
  hk_sign :: "bytes \<Rightarrow> bytes res"

type_synonym host_key_verify = "bytes \<Rightarrow> bytes \<Rightarrow> unit res"

datatype curve_id = P256 | P384 | P521 | Secp256k1

text \<open>
  Private keys are opaque byte strings, Diffie-Hellman groups values of an opaque type. \<open>None\<close> is an
  error of the crate: a small-order point, a point off the curve, a public value out of range.
\<close>

record ('r, 'g) kex_prims =
  x_generate :: "'r \<Rightarrow> bytes \<times> 'r"
  x_public :: "bytes \<Rightarrow> bytes"
  x_dh :: "bytes \<Rightarrow> bytes \<Rightarrow> bytes option"
  ec_generate :: "curve_id \<Rightarrow> 'r \<Rightarrow> bytes \<times> 'r"
  ec_public :: "curve_id \<Rightarrow> bytes \<Rightarrow> bytes"
  ec_from_sec1 :: "curve_id \<Rightarrow> bytes \<Rightarrow> bytes option"
  ec_dh :: "curve_id \<Rightarrow> bytes \<Rightarrow> bytes \<Rightarrow> bytes option"
  dh_generate :: "'g \<Rightarrow> 'r \<Rightarrow> bytes \<times> 'r"
  dh_public :: "'g \<Rightarrow> bytes \<Rightarrow> bytes"
  dh_from_bytes :: "'g \<Rightarrow> bytes \<Rightarrow> bytes option"
  dh_shared :: "'g \<Rightarrow> bytes \<Rightarrow> bytes \<Rightarrow> bytes option"
  dh_custom :: "bytes \<Rightarrow> bytes \<Rightarrow> nat \<Rightarrow> 'g option"
  dh_p_bytes :: "'g \<Rightarrow> bytes"
  dh_g_bytes :: "'g \<Rightarrow> bytes"
  uint_bit_len :: "bytes \<Rightarrow> nat"
  group14 :: 'g
  group16 :: 'g
  group18 :: 'g
  mlkem_generate :: "'r \<Rightarrow> (bytes \<times> bytes) \<times> 'r"
  mlkem_valid :: "bytes \<Rightarrow> bool"
  mlkem_encaps :: "bytes \<Rightarrow> 'r \<Rightarrow> (bytes \<times> bytes) \<times> 'r"
  mlkem_decaps :: "bytes \<Rightarrow> bytes \<Rightarrow> bytes"
  sntrup_keypair :: "'r \<Rightarrow> (bytes \<times> bytes) \<times> 'r"
  sntrup_encaps :: "bytes \<Rightarrow> 'r \<Rightarrow> (bytes \<times> bytes) \<times> 'r"
  sntrup_decaps :: "bytes \<Rightarrow> bytes \<Rightarrow> bytes"

section \<open>Shared parts\<close>

definition SSH_MSG_KEX_ECDH_INIT :: u8 where "SSH_MSG_KEX_ECDH_INIT = 30"
definition SSH_MSG_KEX_ECDH_REPLY :: u8 where "SSH_MSG_KEX_ECDH_REPLY = 31"
definition SSH_MSG_KEX_DH_GEX_REQUEST_OLD :: u8 where "SSH_MSG_KEX_DH_GEX_REQUEST_OLD = 30"
definition SSH_MSG_KEX_DH_GEX_GROUP :: u8 where "SSH_MSG_KEX_DH_GEX_GROUP = 31"
definition SSH_MSG_KEX_DH_GEX_INIT :: u8 where "SSH_MSG_KEX_DH_GEX_INIT = 32"
definition SSH_MSG_KEX_DH_GEX_REPLY :: u8 where "SSH_MSG_KEX_DH_GEX_REPLY = 33"
definition SSH_MSG_KEX_DH_GEX_REQUEST :: u8 where "SSH_MSG_KEX_DH_GEX_REQUEST = 34"

lemmas kex_msg_defs = SSH_MSG_KEX_ECDH_INIT_def SSH_MSG_KEX_ECDH_REPLY_def
  SSH_MSG_KEX_DH_GEX_REQUEST_OLD_def SSH_MSG_KEX_DH_GEX_GROUP_def SSH_MSG_KEX_DH_GEX_INIT_def
  SSH_MSG_KEX_DH_GEX_REPLY_def SSH_MSG_KEX_DH_GEX_REQUEST_def

text \<open>\<open>opt.map_err(|_| e)\<close> and \<open>opt.ok_or(e)\<close>\<close>

definition ok_or :: "'a option \<Rightarrow> error \<Rightarrow> 'a res" where
  "ok_or x e = (case x of None \<Rightarrow> Err e | Some v \<Rightarrow> Ok v)"

text \<open>The message type, one string, and for a reply the host key before and the signature behind it.\<close>

definition read_init :: "u8 \<Rightarrow> string \<Rightarrow> bytes \<Rightarrow> bytes res" where
  "read_init msg expected payload =
     map_res fst (rd_bind read_u8 (\<lambda>m. if m \<noteq> msg then rd_err (Protocol expected) else read_string)
       (reader_new payload))"

definition read_reply :: "u8 \<Rightarrow> string \<Rightarrow> (bytes \<Rightarrow> unit res) \<Rightarrow> bytes \<Rightarrow> (bytes \<times> bytes \<times> bytes) res" where
  "read_reply msg expected check payload =
     map_res fst (rd_bind read_u8 (\<lambda>m. if m \<noteq> msg then rd_err (Protocol expected) else
       rd_bind read_string (\<lambda>k_s. rd_bind read_string (\<lambda>q_s r.
         bind_res (check q_s) (\<lambda>_. rd_bind read_string (\<lambda>sig. rd_ok (k_s, q_s, sig)) r))))
       (reader_new payload))"

definition eh_context :: "kex_context \<Rightarrow> bytes \<Rightarrow> bytes" where
  "eh_context ctx k_s =
     eh_write_string k_s (eh_write_string (i_s ctx) (eh_write_string (i_c ctx)
       (eh_write_string (v_s ctx) (eh_write_string (v_c ctx) eh_new))))"

definition reply_payload :: "u8 \<Rightarrow> bytes \<Rightarrow> bytes \<Rightarrow> bytes \<Rightarrow> bytes" where
  "reply_payload msg k_s value sig =
     [msg] @ u32_to_be (of_nat (length k_s)) @ k_s @ value @ u32_to_be (of_nat (length sig)) @ sig"

section \<open>curve25519.rs\<close>

record curve_state =
  cu_secret :: bytes
  cu_q_c :: bytes

definition curve_client_init :: "('r, 'g) kex_prims \<Rightarrow> 'r \<Rightarrow> (curve_state \<times> bytes) \<times> 'r" where
  "curve_client_init X rng =
     (let (secret, rng') = x_generate X rng; q_c = x_public X secret
      in ((\<lparr>cu_secret = secret, cu_q_c = q_c\<rparr>, [SSH_MSG_KEX_ECDH_INIT] @ u32_to_be 32 @ q_c), rng'))"

definition len_check :: "nat \<Rightarrow> string \<Rightarrow> bytes \<Rightarrow> unit res" where
  "len_check n msg b = (if length b \<noteq> n then Err (Format msg) else Ok ())"

definition curve_hash :: "hash_prim \<Rightarrow> kex_context \<Rightarrow> bytes \<Rightarrow> bytes \<Rightarrow> bytes \<Rightarrow> bytes \<Rightarrow> bytes" where
  "curve_hash H ctx k_s q_c q_s k_raw =
     eh_finalize H KSha256 (eh_write_mpint k_raw (eh_write_string q_s (eh_write_string q_c (eh_context ctx k_s))))"

definition curve_server_reply :: "('r, 'g) kex_prims \<Rightarrow> hash_prim \<Rightarrow> 'r \<Rightarrow> bytes \<Rightarrow> host_key \<Rightarrow> kex_context \<Rightarrow>
    'r \<times> server_reply_out res" where
  "curve_server_reply X H rng init_payload hk ctx =
     st_try rng (read_init SSH_MSG_KEX_ECDH_INIT ''expected SSH_MSG_KEX_ECDH_INIT'' init_payload) (\<lambda>q_c.
     st_try rng (len_check 32 ''X25519 Q_C must be 32 bytes'' q_c) (\<lambda>_.
       let (secret, rng') = x_generate X rng; q_s = x_public X secret in
       st_try rng' (ok_or (x_dh X secret q_c) (Crypto ''X25519 small-order peer'')) (\<lambda>k_raw.
       let k_s = public_blob hk; h = curve_hash H ctx k_s q_c q_s k_raw in
       st_try rng' (hk_sign hk h) (\<lambda>sig.
         (rng', Ok \<lparr>sr_payload = reply_payload SSH_MSG_KEX_ECDH_REPLY k_s (u32_to_be 32 @ q_s) sig,
                    sr_kex = \<lparr>ko_k = mpint_bytes k_raw, ko_h = h\<rparr>\<rparr>)))))"

definition curve_client_finish :: "('r, 'g) kex_prims \<Rightarrow> hash_prim \<Rightarrow> curve_state \<Rightarrow> bytes \<Rightarrow> host_key_verify \<Rightarrow>
    kex_context \<Rightarrow> kex_output res" where
  "curve_client_finish X H st reply verify ctx =
     bind_res (read_reply SSH_MSG_KEX_ECDH_REPLY ''expected SSH_MSG_KEX_ECDH_REPLY''
       (len_check 32 ''X25519 Q_S must be 32 bytes'') reply) (\<lambda>(k_s, q_s, sig).
     bind_res (ok_or (x_dh X (cu_secret st) q_s) (Crypto ''X25519 small-order peer'')) (\<lambda>k_raw.
       let h = curve_hash H ctx k_s (cu_q_c st) q_s k_raw in
       bind_res (verify h sig) (\<lambda>_. Ok \<lparr>ko_k = mpint_bytes k_raw, ko_h = h\<rparr>)))"

section \<open>ecdh.rs\<close>

fun field_len :: "curve_id \<Rightarrow> nat option" where
  "field_len P256 = Some 32"
| "field_len P384 = Some 48"
| "field_len P521 = Some 66"
| "field_len Secp256k1 = Some 32"

definition sec1_point_len :: "curve_id \<Rightarrow> nat option" where
  "sec1_point_len curve = map_option (\<lambda>n. 1 + 2 * n) (field_len curve)"

record ecdh_state =
  ec_curve :: curve_id
  ec_secret :: bytes
  ec_q_c :: bytes

definition ecdh_client_init :: "('r, 'g) kex_prims \<Rightarrow> curve_id \<Rightarrow> 'r \<Rightarrow> (ecdh_state \<times> bytes) \<times> 'r" where
  "ecdh_client_init X curve rng =
     (let (secret, rng') = ec_generate X curve rng; q_c = ec_public X curve secret
      in ((\<lparr>ec_curve = curve, ec_secret = secret, ec_q_c = q_c\<rparr>,
           [SSH_MSG_KEX_ECDH_INIT] @ u32_to_be (of_nat (length q_c)) @ q_c), rng'))"

definition point_check :: "curve_id \<Rightarrow> string \<Rightarrow> bytes \<Rightarrow> unit res" where
  "point_check curve msg q =
     bind_res (ok_or (sec1_point_len curve) (Unsupported ''unsupported ECDH curve'')) (\<lambda>n. len_check n msg q)"

definition ecdh_hash :: "hash_prim \<Rightarrow> kex_digest \<Rightarrow> kex_context \<Rightarrow> bytes \<Rightarrow> bytes \<Rightarrow> bytes \<Rightarrow> bytes \<Rightarrow> bytes" where
  "ecdh_hash H d ctx k_s q_c q_s k_raw =
     eh_finalize H d (eh_write_mpint k_raw (eh_write_string q_s (eh_write_string q_c (eh_context ctx k_s))))"

definition ecdh_server_reply :: "('r, 'g) kex_prims \<Rightarrow> hash_prim \<Rightarrow> kex_digest \<Rightarrow> curve_id \<Rightarrow> 'r \<Rightarrow> bytes \<Rightarrow>
    host_key \<Rightarrow> kex_context \<Rightarrow> 'r \<times> server_reply_out res" where
  "ecdh_server_reply X H d curve rng init_payload hk ctx =
     st_try rng (read_init SSH_MSG_KEX_ECDH_INIT ''expected SSH_MSG_KEX_ECDH_INIT'' init_payload) (\<lambda>q_c.
     st_try rng (point_check curve ''ECDH Q_C wrong length'' q_c) (\<lambda>_.
     st_try rng (ok_or (ec_from_sec1 X curve q_c) (Format ''invalid ECDH Q_C'')) (\<lambda>peer.
       let (secret, rng') = ec_generate X curve rng; q_s = ec_public X curve secret in
       st_try rng' (ok_or (ec_dh X curve secret peer) (Crypto ''ECDH agreement failed'')) (\<lambda>k_raw.
       let k_s = public_blob hk; h = ecdh_hash H d ctx k_s q_c q_s k_raw in
       st_try rng' (hk_sign hk h) (\<lambda>sig.
         (rng', Ok \<lparr>sr_payload = reply_payload SSH_MSG_KEX_ECDH_REPLY k_s
                        (u32_to_be (of_nat (length q_s)) @ q_s) sig,
                    sr_kex = \<lparr>ko_k = mpint_bytes k_raw, ko_h = h\<rparr>\<rparr>))))))"

definition ecdh_client_finish_inner :: "('r, 'g) kex_prims \<Rightarrow> hash_prim \<Rightarrow> kex_digest \<Rightarrow> ecdh_state \<Rightarrow> bytes \<Rightarrow>
    host_key_verify \<Rightarrow> kex_context \<Rightarrow> kex_output res" where
  "ecdh_client_finish_inner X H d st reply verify ctx =
     bind_res (read_reply SSH_MSG_KEX_ECDH_REPLY ''expected SSH_MSG_KEX_ECDH_REPLY''
       (point_check (ec_curve st) ''ECDH Q_S wrong length'') reply) (\<lambda>(k_s, q_s, sig).
     bind_res (ok_or (ec_from_sec1 X (ec_curve st) q_s) (Format ''invalid ECDH Q_S'')) (\<lambda>peer.
     bind_res (ok_or (ec_dh X (ec_curve st) (ec_secret st) peer) (Crypto ''ECDH agreement failed'')) (\<lambda>k_raw.
       let h = ecdh_hash H d ctx k_s (ec_q_c st) q_s k_raw in
       bind_res (verify h sig) (\<lambda>_. Ok \<lparr>ko_k = mpint_bytes k_raw, ko_h = h\<rparr>))))"

definition ecdh_client_finish :: "('r, 'g) kex_prims \<Rightarrow> hash_prim \<Rightarrow> kex_digest \<Rightarrow> curve_id \<Rightarrow> ecdh_state \<Rightarrow>
    bytes \<Rightarrow> host_key_verify \<Rightarrow> kex_context \<Rightarrow> kex_output res" where
  "ecdh_client_finish X H d curve st reply verify ctx =
     (if ec_curve st \<noteq> curve then Err (Protocol ''ECDH curve mismatch'')
      else ecdh_client_finish_inner X H d st reply verify ctx)"

section \<open>dh.rs: fixed groups\<close>

text \<open>\<open>char::to_digit(16)\<close>\<close>

definition hex_digit :: "u8 \<Rightarrow> u8 option" where
  "hex_digit c =
     (if 0x30 \<le> c \<and> c \<le> 0x39 then Some (c - 0x30)
      else if 0x61 \<le> c \<and> c \<le> 0x66 then Some (c - 0x61 + 10)
      else if 0x41 \<le> c \<and> c \<le> 0x46 then Some (c - 0x41 + 10)
      else None)"

definition GROUP1_P :: rust_str where
  "GROUP1_P = lit ''FFFFFFFFFFFFFFFFC90FDAA22168C234C4C6628B80DC1CD129024E088A67CC74020BBEA63B139B22514A08798E3404DDEF9519B3CD3A431B302B0A6DF25F14374FE1356D6D51C245E485B576625E7EC6F44C42E9A637ED6B0BFF5CB6F406B7EDEE386BFB5A899FA5AE9F24117C4B1FE649286651ECE65381FFFFFFFFFFFFFFFF''"

definition hex_nibble :: "u8 \<Rightarrow> u8" where
  "hex_nibble c = (case hex_digit c of None \<Rightarrow> 0 | Some d \<Rightarrow> d)"

fun hex_pairs :: "bytes \<Rightarrow> bytes res" where
  "hex_pairs [] = Ok []"
| "hex_pairs [_] = Panic"
| "hex_pairs (a # b # rest) =
     map_res ((#) (or (push_bit 4 (hex_nibble a)) (hex_nibble b))) (hex_pairs rest)"

definition group1 :: "('r, 'g) kex_prims \<Rightarrow> 'g res" where
  "group1 X =
     bind_res (hex_pairs GROUP1_P) (\<lambda>p.
       case dh_custom X p [2] 256 of None \<Rightarrow> Panic | Some g \<Rightarrow> Ok g)"

record 'g dh_client_state =
  dc_group :: 'g
  dc_secret :: bytes
  dc_e_mag :: bytes

definition strip_leading_zero :: "bytes \<Rightarrow> bytes" where
  "strip_leading_zero b = drop (skip_zeros b 0) b"

definition encode_mpint_into :: "bytes \<Rightarrow> bytes \<Rightarrow> bytes" where
  "encode_mpint_into magnitude buf =
     (case strip_leading_zero magnitude of
        [] \<Rightarrow> buf @ u32_to_be 0
      | b # bs \<Rightarrow>
          if high_bit b then buf @ u32_to_be (of_nat (length (b # bs) + 1)) @ [0] @ b # bs
          else buf @ u32_to_be (of_nat (length (b # bs))) @ b # bs)"

definition dh_client_init :: "('r, 'g) kex_prims \<Rightarrow> 'g \<Rightarrow> 'r \<Rightarrow> ('g dh_client_state \<times> bytes) \<times> 'r" where
  "dh_client_init X grp rng =
     (let (secret, rng') = dh_generate X grp rng; e_mag = dh_public X grp secret
      in ((\<lparr>dc_group = grp, dc_secret = secret, dc_e_mag = e_mag\<rparr>,
           encode_mpint_into e_mag [SSH_MSG_KEX_ECDH_INIT]), rng'))"

definition dh_hash :: "hash_prim \<Rightarrow> kex_digest \<Rightarrow> kex_context \<Rightarrow> bytes \<Rightarrow> bytes \<Rightarrow> bytes \<Rightarrow> bytes \<Rightarrow> bytes" where
  "dh_hash H d ctx k_s e f k_mag =
     eh_finalize H d (eh_write_mpint k_mag (eh_write_mpint f (eh_write_mpint e (eh_context ctx k_s))))"

definition dh_server_reply :: "('r, 'g) kex_prims \<Rightarrow> hash_prim \<Rightarrow> kex_digest \<Rightarrow> 'g \<Rightarrow> 'r \<Rightarrow> bytes \<Rightarrow>
    host_key \<Rightarrow> kex_context \<Rightarrow> 'r \<times> server_reply_out res" where
  "dh_server_reply X H d grp rng init_payload hk ctx =
     st_try rng (read_init SSH_MSG_KEX_ECDH_INIT ''expected SSH_MSG_KEXDH_INIT'' init_payload) (\<lambda>e_raw.
     st_try rng (ok_or (dh_from_bytes X grp e_raw) (Format ''invalid DH e'')) (\<lambda>peer.
       let (secret, rng') = dh_generate X grp rng; f_mag = dh_public X grp secret in
       st_try rng' (ok_or (dh_shared X grp secret peer) (Crypto ''DH agreement failed'')) (\<lambda>k_mag.
       let k_s = public_blob hk; h = dh_hash H d ctx k_s e_raw f_mag k_mag in
       st_try rng' (hk_sign hk h) (\<lambda>sig.
         (rng', Ok \<lparr>sr_payload = reply_payload SSH_MSG_KEX_ECDH_REPLY k_s (encode_mpint_into f_mag []) sig,
                    sr_kex = \<lparr>ko_k = mpint_bytes k_mag, ko_h = h\<rparr>\<rparr>)))))"

definition no_check :: "bytes \<Rightarrow> unit res" where
  "no_check b = Ok ()"

definition dh_client_finish :: "('r, 'g) kex_prims \<Rightarrow> hash_prim \<Rightarrow> kex_digest \<Rightarrow> 'g dh_client_state \<Rightarrow> bytes \<Rightarrow>
    host_key_verify \<Rightarrow> kex_context \<Rightarrow> kex_output res" where
  "dh_client_finish X H d st reply verify ctx =
     bind_res (read_reply SSH_MSG_KEX_ECDH_REPLY ''expected SSH_MSG_KEXDH_REPLY'' no_check reply) (\<lambda>(k_s, f_raw, sig).
     bind_res (ok_or (dh_from_bytes X (dc_group st) f_raw) (Format ''invalid DH f'')) (\<lambda>peer.
     bind_res (ok_or (dh_shared X (dc_group st) (dc_secret st) peer) (Crypto ''DH agreement failed'')) (\<lambda>k_mag.
       let h = dh_hash H d ctx k_s (dc_e_mag st) f_raw k_mag in
       bind_res (verify h sig) (\<lambda>_. Ok \<lparr>ko_k = mpint_bytes k_mag, ko_h = h\<rparr>))))"

section \<open>dh.rs: group exchange\<close>

record gex_request =
  gx_min :: u32
  gx_n :: u32
  gx_max :: u32

definition for_strength :: "nat \<Rightarrow> gex_request" where
  "for_strength need_bytes =
     (let bits = need_bytes * 8;
          n = (if bits \<le> 112 then 2048 else if bits \<le> 128 then 3072 else if bits \<le> 192 then 7680 else 8192)
      in \<lparr>gx_min = 2048, gx_n = n, gx_max = 8192\<rparr>)"

definition gex_request_default :: gex_request where
  "gex_request_default = \<lparr>gx_min = 2048, gx_n = 8192, gx_max = 8192\<rparr>"

record 'g gex_client_state =
  gc_request :: gex_request
  gc_group :: "'g option"
  gc_p_bytes :: bytes
  gc_g_bytes :: bytes
  gc_secret :: "bytes option"
  gc_e_mag :: bytes

text \<open>\<open>u8::leading_zeros\<close> and \<open>u8::count_ones\<close>\<close>

definition leading_zeros :: "u8 \<Rightarrow> nat" where
  "leading_zeros b = length (takeWhile (\<lambda>i. \<not> bit b i) [7, 6, 5, 4, 3, 2, 1, 0])"

definition count_ones :: "u8 \<Rightarrow> nat" where
  "count_ones b = length (filter (bit b) [0, 1, 2, 3, 4, 5, 6, 7])"

definition group_bits :: "'g gex_client_state \<Rightarrow> u32" where
  "group_bits st =
     (case dropWhile (\<lambda>b. b = 0) (gc_p_bytes st) of
        [] \<Rightarrow> 0
      | lead # rest \<Rightarrow> (of_nat (length (lead # rest)) - 1) * 8 + of_nat (8 - leading_zeros lead))"

definition e_bits_set :: "'g gex_client_state \<Rightarrow> u32" where
  "e_bits_set st = sum_list (map (\<lambda>b. of_nat (count_ones b)) (gc_e_mag st))"

definition gex_client_request :: "gex_request \<Rightarrow> 'g gex_client_state \<times> bytes" where
  "gex_client_request request =
     (\<lparr>gc_request = request, gc_group = None, gc_p_bytes = [], gc_g_bytes = [], gc_secret = None, gc_e_mag = []\<rparr>,
      [SSH_MSG_KEX_DH_GEX_REQUEST] @ u32_to_be (gx_min request) @ u32_to_be (gx_n request)
        @ u32_to_be (gx_max request))"

definition gex_read_request :: "bytes \<Rightarrow> gex_request res" where
  "gex_read_request payload =
     map_res fst (rd_bind read_u8 (\<lambda>m.
       if m = SSH_MSG_KEX_DH_GEX_REQUEST
       then rd_bind read_u32 (\<lambda>mn. rd_bind read_u32 (\<lambda>n. rd_bind read_u32 (\<lambda>mx.
              rd_ok \<lparr>gx_min = mn, gx_n = n, gx_max = mx\<rparr>)))
       else if m = 30 then rd_bind read_u32 (\<lambda>n. rd_ok \<lparr>gx_min = n, gx_n = n, gx_max = n\<rparr>)
       else rd_err (Protocol ''expected SSH_MSG_KEX_DH_GEX_REQUEST'')) (reader_new payload))"

definition gex_server_group :: "('r, 'g) kex_prims \<Rightarrow> bytes \<Rightarrow> (gex_request \<Rightarrow> 'g) \<Rightarrow>
    (gex_request \<times> 'g \<times> bytes) res" where
  "gex_server_group X request_payload select =
     bind_res (gex_read_request request_payload) (\<lambda>request.
       let grp = select request in
       Ok (request, grp, encode_mpint_into (dh_g_bytes X grp)
             (encode_mpint_into (dh_p_bytes X grp) [SSH_MSG_KEX_DH_GEX_GROUP])))"

definition gex_read_group :: "bytes \<Rightarrow> (bytes \<times> bytes) res" where
  "gex_read_group payload =
     map_res fst (rd_bind read_u8 (\<lambda>m.
       if m \<noteq> SSH_MSG_KEX_DH_GEX_GROUP then rd_err (Protocol ''expected SSH_MSG_KEX_DH_GEX_GROUP'')
       else rd_bind read_mpint (\<lambda>p. rd_bind read_mpint (\<lambda>g. rd_ok (p, g)))) (reader_new payload))"

definition gex_client_init :: "('r, 'g) kex_prims \<Rightarrow> 'g gex_client_state \<Rightarrow> bytes \<Rightarrow> 'r \<Rightarrow>
    'r \<times> ('g gex_client_state \<times> bytes) res" where
  "gex_client_init X st group_payload rng =
     st_try rng (gex_read_group group_payload) (\<lambda>(p_raw, g_raw).
       let p = strip_leading_zero p_raw; g = strip_leading_zero g_raw; bits = uint_bit_len X p in
       if bits < unat (gx_min (gc_request st)) \<or> bits > unat (gx_max (gc_request st))
       then (rng, Err (Crypto ''GEX group out of requested range''))
       else
         let priv_bits = max 160 (min bits 512) in
         st_try rng (ok_or (dh_custom X p g priv_bits) (Format ''invalid GEX group'')) (\<lambda>grp.
           let (secret, rng') = dh_generate X grp rng; e_mag = dh_public X grp secret in
           (rng', Ok (st\<lparr>gc_p_bytes := p, gc_g_bytes := g, gc_group := Some grp, gc_secret := Some secret,
                         gc_e_mag := e_mag\<rparr>,
                      encode_mpint_into e_mag [SSH_MSG_KEX_DH_GEX_INIT]))))"

definition gex_hash :: "hash_prim \<Rightarrow> kex_digest \<Rightarrow> kex_context \<Rightarrow> bytes \<Rightarrow> gex_request \<Rightarrow> bytes \<Rightarrow> bytes \<Rightarrow>
    bytes \<Rightarrow> bytes \<Rightarrow> bytes \<Rightarrow> bytes" where
  "gex_hash H d ctx k_s request p g e f k_mag =
     eh_finalize H d (eh_write_mpint k_mag (eh_write_mpint f (eh_write_mpint e (eh_write_mpint g (eh_write_mpint p
       (eh_write_u32 (gx_max request) (eh_write_u32 (gx_n request) (eh_write_u32 (gx_min request)
         (eh_context ctx k_s)))))))))"

definition gex_server_reply :: "('r, 'g) kex_prims \<Rightarrow> hash_prim \<Rightarrow> kex_digest \<Rightarrow> 'r \<Rightarrow> gex_request \<Rightarrow> 'g \<Rightarrow>
    bytes \<Rightarrow> host_key \<Rightarrow> kex_context \<Rightarrow> 'r \<times> server_reply_out res" where
  "gex_server_reply X H d rng request grp init_payload hk ctx =
     st_try rng (read_init SSH_MSG_KEX_DH_GEX_INIT ''expected SSH_MSG_KEX_DH_GEX_INIT'' init_payload) (\<lambda>e_raw.
     st_try rng (ok_or (dh_from_bytes X grp e_raw) (Format ''invalid GEX e'')) (\<lambda>peer.
       let (secret, rng') = dh_generate X grp rng; f_mag = dh_public X grp secret in
       st_try rng' (ok_or (dh_shared X grp secret peer) (Crypto ''DH agreement failed'')) (\<lambda>k_mag.
       let k_s = public_blob hk;
           h = gex_hash H d ctx k_s request (dh_p_bytes X grp) (dh_g_bytes X grp) e_raw f_mag k_mag in
       st_try rng' (hk_sign hk h) (\<lambda>sig.
         (rng', Ok \<lparr>sr_payload = reply_payload SSH_MSG_KEX_DH_GEX_REPLY k_s (encode_mpint_into f_mag []) sig,
                    sr_kex = \<lparr>ko_k = mpint_bytes k_mag, ko_h = h\<rparr>\<rparr>)))))"

definition gex_client_finish :: "('r, 'g) kex_prims \<Rightarrow> hash_prim \<Rightarrow> kex_digest \<Rightarrow> 'g gex_client_state \<Rightarrow> bytes \<Rightarrow>
    host_key_verify \<Rightarrow> kex_context \<Rightarrow> kex_output res" where
  "gex_client_finish X H d st reply verify ctx =
     bind_res (ok_or (gc_group st) (Protocol ''GEX state missing group'')) (\<lambda>grp.
     bind_res (ok_or (gc_secret st) (Protocol ''GEX state missing secret'')) (\<lambda>secret.
     bind_res (read_reply SSH_MSG_KEX_DH_GEX_REPLY ''expected SSH_MSG_KEX_DH_GEX_REPLY'' no_check reply)
       (\<lambda>(k_s, f_raw, sig).
     bind_res (ok_or (dh_from_bytes X grp f_raw) (Format ''invalid GEX f'')) (\<lambda>peer.
     bind_res (ok_or (dh_shared X grp secret peer) (Crypto ''DH agreement failed'')) (\<lambda>k_mag.
       let h = gex_hash H d ctx k_s (gc_request st) (gc_p_bytes st) (gc_g_bytes st) (gc_e_mag st) f_raw k_mag in
       bind_res (verify h sig) (\<lambda>_. Ok \<lparr>ko_k = mpint_bytes k_mag, ko_h = h\<rparr>))))))"

section \<open>The hybrid methods\<close>

definition EK_PQ_LEN :: nat where "EK_PQ_LEN = 1184"
definition CT_PQ_LEN :: nat where "CT_PQ_LEN = 1088"
definition X25519_PUB_LEN :: nat where "X25519_PUB_LEN = 32"
definition P256_POINT_LEN :: nat where "P256_POINT_LEN = 1 + 2 * 32"
definition SNTRUP_PK :: nat where "SNTRUP_PK = 1158"
definition SNTRUP_CT :: nat where "SNTRUP_CT = 1007 + 32"

lemmas hybrid_len_defs = EK_PQ_LEN_def CT_PQ_LEN_def X25519_PUB_LEN_def P256_POINT_LEN_def SNTRUP_PK_def SNTRUP_CT_def

definition combine_secrets :: "hash_prim \<Rightarrow> kex_digest \<Rightarrow> bytes \<Rightarrow> bytes \<Rightarrow> bytes" where
  "combine_secrets H d k_pq k_ecdh = H d (k_pq @ k_ecdh)"

definition k_string_bytes :: "bytes \<Rightarrow> bytes" where
  "k_string_bytes k = u32_to_be (of_nat (length k)) @ k"

definition hybrid_hash :: "hash_prim \<Rightarrow> kex_digest \<Rightarrow> kex_context \<Rightarrow> bytes \<Rightarrow> bytes \<Rightarrow> bytes \<Rightarrow> bytes \<Rightarrow> bytes" where
  "hybrid_hash H d ctx k_s c_init s_reply k =
     eh_finalize H d (eh_write_string k (eh_write_string s_reply (eh_write_string c_init (eh_context ctx k_s))))"

record hybrid_state =
  hy_ec_secret :: bytes
  hy_pq_secret :: bytes
  hy_c_init :: bytes

definition hybrid_init_payload :: "nat \<Rightarrow> bytes \<Rightarrow> bytes" where
  "hybrid_init_payload n c_init = [SSH_MSG_KEX_ECDH_INIT] @ u32_to_be (of_nat n) @ c_init"

definition hybrid_out :: "bytes \<Rightarrow> bytes \<Rightarrow> bytes \<Rightarrow> bytes \<Rightarrow> bytes \<Rightarrow> server_reply_out" where
  "hybrid_out k_s s_reply sig k h =
     \<lparr>sr_payload = reply_payload SSH_MSG_KEX_ECDH_REPLY k_s (u32_to_be (of_nat (length s_reply)) @ s_reply) sig,
      sr_kex = \<lparr>ko_k = k_string_bytes k, ko_h = h\<rparr>\<rparr>"

subsection \<open>mlkem768x25519.rs\<close>

definition mlx_client_init :: "('r, 'g) kex_prims \<Rightarrow> 'r \<Rightarrow> (hybrid_state \<times> bytes) \<times> 'r" where
  "mlx_client_init X rng =
     (let (secret, rng1) = x_generate X rng;
          q_c = x_public X secret;
          ((dk, ek), rng2) = mlkem_generate X rng1;
          c_init = ek @ q_c
      in ((\<lparr>hy_ec_secret = secret, hy_pq_secret = dk, hy_c_init = c_init\<rparr>,
           hybrid_init_payload (EK_PQ_LEN + X25519_PUB_LEN) c_init), rng2))"

definition mlx_server_reply :: "('r, 'g) kex_prims \<Rightarrow> hash_prim \<Rightarrow> 'r \<Rightarrow> bytes \<Rightarrow> host_key \<Rightarrow> kex_context \<Rightarrow>
    'r \<times> server_reply_out res" where
  "mlx_server_reply X H rng init_payload hk ctx =
     st_try rng (read_init SSH_MSG_KEX_ECDH_INIT ''expected SSH_MSG_KEX_HYBRID_INIT'' init_payload) (\<lambda>c_init.
     st_try rng (len_check (EK_PQ_LEN + X25519_PUB_LEN) ''hybrid C_INIT wrong length'' c_init) (\<lambda>_.
       let ek = take EK_PQ_LEN c_init; q_c = drop EK_PQ_LEN c_init in
       if \<not> mlkem_valid X ek then (rng, Err (Crypto ''hybrid KEX agreement failed''))
       else
         let (secret, rng1) = x_generate X rng;
             q_s = x_public X secret;
             ((ct, k_pq), rng2) = mlkem_encaps X ek rng1
         in st_try rng2 (ok_or (x_dh X secret q_c) (Crypto ''hybrid KEX agreement failed'')) (\<lambda>k_ecdh.
            let k = combine_secrets H KSha256 k_pq k_ecdh;
                s_reply = ct @ q_s;
                k_s = public_blob hk;
                h = hybrid_hash H KSha256 ctx k_s c_init s_reply k
            in st_try rng2 (hk_sign hk h) (\<lambda>sig. (rng2, Ok (hybrid_out k_s s_reply sig k h))))))"

definition mlx_client_finish :: "('r, 'g) kex_prims \<Rightarrow> hash_prim \<Rightarrow> hybrid_state \<Rightarrow> bytes \<Rightarrow> host_key_verify \<Rightarrow>
    kex_context \<Rightarrow> kex_output res" where
  "mlx_client_finish X H st reply verify ctx =
     bind_res (read_reply SSH_MSG_KEX_ECDH_REPLY ''expected SSH_MSG_KEX_HYBRID_REPLY''
       (len_check (CT_PQ_LEN + X25519_PUB_LEN) ''hybrid S_REPLY wrong length'') reply) (\<lambda>(k_s, s_reply, sig).
       let ct = take CT_PQ_LEN s_reply; q_s = drop CT_PQ_LEN s_reply;
           k_pq = mlkem_decaps X (hy_pq_secret st) ct in
       bind_res (ok_or (x_dh X (hy_ec_secret st) q_s) (Crypto ''hybrid KEX agreement failed'')) (\<lambda>k_ecdh.
         let k = combine_secrets H KSha256 k_pq k_ecdh;
             h = hybrid_hash H KSha256 ctx k_s (hy_c_init st) s_reply k in
         bind_res (verify h sig) (\<lambda>_. Ok \<lparr>ko_k = k_string_bytes k, ko_h = h\<rparr>)))"

subsection \<open>mlkem768nistp256.rs\<close>

definition p256_agree :: "('r, 'g) kex_prims \<Rightarrow> bytes \<Rightarrow> bytes \<Rightarrow> bytes res" where
  "p256_agree X secret peer =
     bind_res (ok_or (ec_from_sec1 X P256 peer) (Format ''invalid hybrid ECDH point'')) (\<lambda>pt.
       ok_or (ec_dh X P256 secret pt) (Crypto ''hybrid KEX agreement failed''))"

definition mln_client_init :: "('r, 'g) kex_prims \<Rightarrow> 'r \<Rightarrow> (hybrid_state \<times> bytes) \<times> 'r" where
  "mln_client_init X rng =
     (let (secret, rng1) = ec_generate X P256 rng;
          ((dk, ek), rng2) = mlkem_generate X rng1;
          c_init = ek @ ec_public X P256 secret
      in ((\<lparr>hy_ec_secret = secret, hy_pq_secret = dk, hy_c_init = c_init\<rparr>,
           hybrid_init_payload (EK_PQ_LEN + P256_POINT_LEN) c_init), rng2))"

definition mln_server_reply :: "('r, 'g) kex_prims \<Rightarrow> hash_prim \<Rightarrow> 'r \<Rightarrow> bytes \<Rightarrow> host_key \<Rightarrow> kex_context \<Rightarrow>
    'r \<times> server_reply_out res" where
  "mln_server_reply X H rng init_payload hk ctx =
     (let (secret, rng1) = ec_generate X P256 rng in
      st_try rng1 (read_init SSH_MSG_KEX_ECDH_INIT ''expected SSH_MSG_KEX_HYBRID_INIT'' init_payload) (\<lambda>c_init.
      st_try rng1 (len_check (EK_PQ_LEN + P256_POINT_LEN) ''hybrid C_INIT wrong length'' c_init) (\<lambda>_.
        let ek = take EK_PQ_LEN c_init; q_c = drop EK_PQ_LEN c_init in
        if \<not> mlkem_valid X ek then (rng1, Err (Crypto ''hybrid KEX agreement failed''))
        else st_try rng1 (p256_agree X secret q_c) (\<lambda>k_ecdh.
          let ((ct, k_pq), rng2) = mlkem_encaps X ek rng1;
              k = combine_secrets H KSha256 k_pq k_ecdh;
              s_reply = ct @ ec_public X P256 secret;
              k_s = public_blob hk;
              h = hybrid_hash H KSha256 ctx k_s c_init s_reply k
          in st_try rng2 (hk_sign hk h) (\<lambda>sig. (rng2, Ok (hybrid_out k_s s_reply sig k h)))))))"

definition mln_client_finish :: "('r, 'g) kex_prims \<Rightarrow> hash_prim \<Rightarrow> hybrid_state \<Rightarrow> bytes \<Rightarrow> host_key_verify \<Rightarrow>
    kex_context \<Rightarrow> kex_output res" where
  "mln_client_finish X H st reply verify ctx =
     bind_res (read_reply SSH_MSG_KEX_ECDH_REPLY ''expected SSH_MSG_KEX_HYBRID_REPLY''
       (len_check (CT_PQ_LEN + P256_POINT_LEN) ''hybrid S_REPLY wrong length'') reply) (\<lambda>(k_s, s_reply, sig).
       let ct = take CT_PQ_LEN s_reply; q_s = drop CT_PQ_LEN s_reply in
       bind_res (p256_agree X (hy_ec_secret st) q_s) (\<lambda>k_ecdh.
         let k_pq = mlkem_decaps X (hy_pq_secret st) ct;
             k = combine_secrets H KSha256 k_pq k_ecdh;
             h = hybrid_hash H KSha256 ctx k_s (hy_c_init st) s_reply k in
         bind_res (verify h sig) (\<lambda>_. Ok \<lparr>ko_k = k_string_bytes k, ko_h = h\<rparr>)))"

subsection \<open>sntrup761x25519.rs\<close>

definition snx_client_init :: "('r, 'g) kex_prims \<Rightarrow> 'r \<Rightarrow> (hybrid_state \<times> bytes) \<times> 'r" where
  "snx_client_init X rng =
     (let (secret, rng1) = x_generate X rng;
          ((pk, sk), rng2) = sntrup_keypair X rng1;
          c_init = pk @ x_public X secret
      in ((\<lparr>hy_ec_secret = secret, hy_pq_secret = sk, hy_c_init = c_init\<rparr>,
           hybrid_init_payload (SNTRUP_PK + X25519_PUB_LEN) c_init), rng2))"

definition snx_server_reply :: "('r, 'g) kex_prims \<Rightarrow> hash_prim \<Rightarrow> 'r \<Rightarrow> bytes \<Rightarrow> host_key \<Rightarrow> kex_context \<Rightarrow>
    'r \<times> server_reply_out res" where
  "snx_server_reply X H rng init_payload hk ctx =
     st_try rng (read_init SSH_MSG_KEX_ECDH_INIT ''expected SSH_MSG_KEX_ECDH_INIT'' init_payload) (\<lambda>c_init.
     st_try rng (len_check (SNTRUP_PK + X25519_PUB_LEN) ''hybrid C_INIT wrong length'' c_init) (\<lambda>_.
       let pk = take SNTRUP_PK c_init; q_c = drop SNTRUP_PK c_init;
           ((ct, k_pq), rng1) = sntrup_encaps X pk rng;
           (secret, rng2) = x_generate X rng1;
           q_s = x_public X secret
       in st_try rng2 (ok_or (x_dh X secret q_c) (Crypto ''hybrid KEX agreement failed'')) (\<lambda>k_ecdh.
          let k = combine_secrets H KSha512 k_pq k_ecdh;
              s_reply = ct @ q_s;
              k_s = public_blob hk;
              h = hybrid_hash H KSha512 ctx k_s c_init s_reply k
          in st_try rng2 (hk_sign hk h) (\<lambda>sig. (rng2, Ok (hybrid_out k_s s_reply sig k h))))))"

definition snx_client_finish :: "('r, 'g) kex_prims \<Rightarrow> hash_prim \<Rightarrow> hybrid_state \<Rightarrow> bytes \<Rightarrow> host_key_verify \<Rightarrow>
    kex_context \<Rightarrow> kex_output res" where
  "snx_client_finish X H st reply verify ctx =
     bind_res (read_reply SSH_MSG_KEX_ECDH_REPLY ''expected SSH_MSG_KEX_ECDH_REPLY''
       (len_check (SNTRUP_CT + X25519_PUB_LEN) ''hybrid S_REPLY wrong length'') reply) (\<lambda>(k_s, s_reply, sig).
       let ct = take SNTRUP_CT s_reply; q_s = drop SNTRUP_CT s_reply;
           k_pq = sntrup_decaps X ct (hy_pq_secret st) in
       bind_res (ok_or (x_dh X (hy_ec_secret st) q_s) (Crypto ''hybrid KEX agreement failed'')) (\<lambda>k_ecdh.
         let k = combine_secrets H KSha512 k_pq k_ecdh;
             h = hybrid_hash H KSha512 ctx k_s (hy_c_init st) s_reply k in
         bind_res (verify h sig) (\<lambda>_. Ok \<lparr>ko_k = k_string_bytes k, ko_h = h\<rparr>)))"

end
