(* ===== verification/TransportMsg.thy ===== *)
theory TransportMsg
  imports ChannelMsg Kexinit
begin

text \<open>
  The small transport messages: the identification line (src/src/hazmat/transport/version.rs),
  SSH\_MSG\_EXT\_INFO (transport/ext\_info.rs) and the PING/PONG extension (transport/ping.rs).
  Shown: what lines are accepted as an identification, that an EXT\_INFO the builder makes is read
  back field by field, and that a PONG answers exactly the PINGs, with their data.
\<close>

section \<open>Version exchange (version.rs)\<close>

definition crlf :: bytes where "crlf = [13, 10]"

text \<open>\<open>concat!("SSH-2.0-puressh_", env!("CARGO_PKG_VERSION"))\<close>; the version is the build's.\<close>

definition LOCAL_VERSION :: "rust_str \<Rightarrow> rust_str" where
  "LOCAL_VERSION pkg_version = lit ''SSH-2.0-puressh_'' @ pkg_version"

definition outgoing_bytes :: "rust_str \<Rightarrow> bytes" where
  "outgoing_bytes pkg_version = LOCAL_VERSION pkg_version @ crlf"

definition trim_line :: "bytes \<Rightarrow> bytes" where
  "trim_line line =
     (case strip_suffix crlf line of
        Some t \<Rightarrow> t
      | None \<Rightarrow> (case strip_suffix [10] line of Some t \<Rightarrow> t | None \<Rightarrow> line))"

definition parse_remote :: "bytes \<Rightarrow> rust_str res" where
  "parse_remote line =
     (if length line > 255 then Err (Protocol ''version line exceeds 255 bytes'')
      else
        let trimmed = trim_line line in
        if \<not> starts_with (lit ''SSH-2.0-'') trimmed \<and> \<not> starts_with (lit ''SSH-1.99-'') trimmed
        then Err (Protocol ''peer is not SSH 2.0'')
        else case from_utf8 trimmed of
               Some s \<Rightarrow> Ok s
             | None \<Rightarrow> Err (Protocol ''non-ASCII in version string''))"

lemma strip_suffix_append: "strip_suffix suf (s @ suf) = Some s"
  by (simp add: strip_suffix_def)

lemma strip_suffix_Some: "strip_suffix suf line = Some t \<longleftrightarrow> line = t @ suf"
  by (auto simp: strip_suffix_def split: if_splits) (metis append_take_drop_id)

lemma starts_with_append: "starts_with p (p @ s)"
  by (simp add: starts_with_def)

lemma starts_with_shorter: "length p \<le> length s \<Longrightarrow> starts_with p (s @ t) = starts_with p s"
  by (simp add: starts_with_def)

text \<open>
  An identification line is accepted exactly when, with its line ending, it has at most
  255 bytes, announces protocol 2.0 or 1.99 and is UTF-8; the result is the line without its line
  ending, and no line makes the parser panic. Our own identification, sent with CR LF, is accepted
  by the peer's parser as what we hash: the string without CR LF.
\<close>

theorem version_exchange:
  "(\<forall>s. parse_remote line = Ok s \<longleftrightarrow>
      length line \<le> 255 \<and> valid_utf8 s
    \<and> (starts_with (lit ''SSH-2.0-'') s \<or> starts_with (lit ''SSH-1.99-'') s)
    \<and> (line = s @ crlf \<or> (line = s @ [10] \<and> \<not> (\<exists>t. s = t @ [13]))
       \<or> (line = s \<and> \<not> (\<exists>t. s = t @ [10]))))
 \<and> parse_remote line \<noteq> Panic
 \<and> (valid_utf8 v \<and> length v \<le> 200 \<longrightarrow> parse_remote (outgoing_bytes v) = Ok (LOCAL_VERSION v))"
proof (intro conjI)
  have trim: "s = trim_line line \<longleftrightarrow> line = s @ crlf \<or> (line = s @ [10] \<and> \<not> (\<exists>t. s = t @ [13]))
       \<or> (line = s \<and> \<not> (\<exists>t. s = t @ [10]))" for s
  proof (cases "strip_suffix crlf line")
    case (Some t)
    then have "line = t @ crlf" by (simp add: strip_suffix_Some)
    with Some show ?thesis by (auto simp: trim_line_def crlf_def append_eq_append_conv2 Cons_eq_append_conv)
  next
    case None
    then have n: "line \<noteq> t @ crlf" for t using strip_suffix_append [of crlf t] by auto
    show ?thesis
    proof (cases "strip_suffix [10] line")
      case (Some t)
      then have "line = t @ [10]" by (simp add: strip_suffix_Some)
      with None Some n show ?thesis by (auto simp: trim_line_def crlf_def)
    next
      case None2: None
      then have "line \<noteq> t @ [10]" for t using strip_suffix_append [of "[10]" t] by auto
      with None None2 n show ?thesis by (auto simp: trim_line_def)
    qed
  qed
  show "\<forall>s. parse_remote line = Ok s \<longleftrightarrow> length line \<le> 255 \<and> valid_utf8 s
    \<and> (starts_with (lit ''SSH-2.0-'') s \<or> starts_with (lit ''SSH-1.99-'') s)
    \<and> (line = s @ crlf \<or> (line = s @ [10] \<and> \<not> (\<exists>t. s = t @ [13]))
       \<or> (line = s \<and> \<not> (\<exists>t. s = t @ [10])))"
    unfolding trim [symmetric]
    by (auto simp: parse_remote_def Let_def from_utf8_def split: option.splits)
  show "parse_remote line \<noteq> Panic"
    by (simp add: parse_remote_def Let_def split: option.splits)
  show "valid_utf8 v \<and> length v \<le> 200 \<longrightarrow> parse_remote (outgoing_bytes v) = Ok (LOCAL_VERSION v)"
  proof
    assume v: "valid_utf8 v \<and> length v \<le> 200"
    have "valid_utf8 (lit ''SSH-2.0-puressh_'')" by (rule valid_utf8_lit) simp
    then have "valid_utf8 (LOCAL_VERSION v)" using v by (simp add: LOCAL_VERSION_def valid_utf8_append)
    moreover have "starts_with (lit ''SSH-2.0-'') (LOCAL_VERSION v)"
    proof -
      have "lit ''SSH-2.0-puressh_'' = lit ''SSH-2.0-'' @ lit ''puressh_''" by (simp add: lit_def)
      then show ?thesis by (simp add: LOCAL_VERSION_def starts_with_append)
    qed
    moreover have "trim_line (outgoing_bytes v) = LOCAL_VERSION v"
      by (simp add: trim_line_def outgoing_bytes_def strip_suffix_append)
    moreover have "length (outgoing_bytes v) \<le> 255"
      using v by (simp add: outgoing_bytes_def LOCAL_VERSION_def crlf_def)
    ultimately show "parse_remote (outgoing_bytes v) = Ok (LOCAL_VERSION v)"
      by (simp add: parse_remote_def Let_def)
  qed
qed

theorem version_exchange_witness:
  "parse_remote (outgoing_bytes (lit ''0.6.0'')) = Ok (LOCAL_VERSION (lit ''0.6.0''))
   \<and> parse_remote (lit ''hello'') \<noteq> Panic"
  using version_exchange [of "lit ''hello''" "lit ''0.6.0''"] valid_utf8_lit [of "''0.6.0''"] by simp

section \<open>ExtInfo (ext\_info.rs)\<close>

definition SSH_MSG_EXT_INFO :: u8 where "SSH_MSG_EXT_INFO = 7"

record ext_info =
  server_sig_algs :: "rust_str option"
  publickey_algorithms_in_use :: "rust_str option"
  ext_raw :: "(rust_str \<times> rust_str) list"

definition ext_info_new :: ext_info where
  "ext_info_new = \<lparr>server_sig_algs = None, publickey_algorithms_in_use = None, ext_raw = []\<rparr>"

text \<open>Replace the value of the first pair with that name, or append a pair.\<close>

fun set_raw :: "rust_str \<Rightarrow> rust_str \<Rightarrow> (rust_str \<times> rust_str) list \<Rightarrow> (rust_str \<times> rust_str) list" where
  "set_raw name value [] = [(name, value)]"
| "set_raw name value ((n, v) # ps) =
     (if n = name then (n, value) # ps else (n, v) # set_raw name value ps)"

definition with_server_sig_algs :: "rust_str \<Rightarrow> ext_info \<Rightarrow> ext_info" where
  "with_server_sig_algs v e =
     e\<lparr>ext_raw := set_raw (lit ''server-sig-algs'') v (ext_raw e), server_sig_algs := Some v\<rparr>"

definition with_publickey_algorithms_in_use :: "rust_str \<Rightarrow> ext_info \<Rightarrow> ext_info" where
  "with_publickey_algorithms_in_use v e =
     e\<lparr>ext_raw := set_raw (lit ''publickey-algorithms-in-use'') v (ext_raw e),
       publickey_algorithms_in_use := Some v\<rparr>"

definition with_extension :: "rust_str \<Rightarrow> rust_str \<Rightarrow> ext_info \<Rightarrow> ext_info" where
  "with_extension name value e = e\<lparr>ext_raw := set_raw name value (ext_raw e)\<rparr>"

definition extension :: "ext_info \<Rightarrow> rust_str \<Rightarrow> rust_str option" where
  "extension e name = map_option snd (find (\<lambda>(n, _). n = name) (ext_raw e))"

definition write_pair :: "rust_str \<times> rust_str \<Rightarrow> writer \<Rightarrow> writer" where
  "write_pair = (\<lambda>(name, value) w. write_string value (write_string name w))"

definition ext_info_encode :: "ext_info \<Rightarrow> bytes" where
  "ext_info_encode e =
     into_vec (fold write_pair (ext_raw e)
       (write_u32 (of_nat (length (ext_raw e))) (write_u8 SSH_MSG_EXT_INFO writer_new)))"

definition read_pair :: "(bytes \<times> bytes) rd" where
  "read_pair = rd_bind read_string (\<lambda>name. rd_bind read_string (\<lambda>value. rd_ok (name, value)))"

text \<open>One round of the decoding loop after the two reads: the UTF-8 checks and the bookkeeping.\<close>

definition ext_add :: "bytes \<times> bytes \<Rightarrow> ext_info \<Rightarrow> ext_info res" where
  "ext_add = (\<lambda>(name, value) out.
     case from_utf8 name of
       None \<Rightarrow> Err (Format ''EXT_INFO non-UTF8 name'')
     | Some n \<Rightarrow>
         (case from_utf8 value of
            None \<Rightarrow> Err (Format ''EXT_INFO non-UTF8 value'')
          | Some v \<Rightarrow>
              let out1 = (if n = lit ''server-sig-algs'' then out\<lparr>server_sig_algs := Some v\<rparr>
                          else if n = lit ''publickey-algorithms-in-use''
                          then out\<lparr>publickey_algorithms_in_use := Some v\<rparr> else out)
              in Ok (out1\<lparr>ext_raw := ext_raw out1 @ [(n, v)]\<rparr>)))"

fun ext_pairs :: "nat \<Rightarrow> ext_info \<Rightarrow> ext_info rd" where
  "ext_pairs 0 out = rd_ok out"
| "ext_pairs (Suc n) out = rd_bind read_pair (\<lambda>p r. bind_res (ext_add p out) (\<lambda>out'. ext_pairs n out' r))"

definition ext_info_decode :: "bytes \<Rightarrow> ext_info res" where
  "ext_info_decode payload =
     map_res fst (rd_bind read_u8 (\<lambda>msg.
       if msg \<noteq> SSH_MSG_EXT_INFO then rd_err (Protocol ''expected SSH_MSG_EXT_INFO'')
       else rd_bind read_u32 (\<lambda>n.
         if unat n > 1024 then rd_err (Format ''EXT_INFO nr-extensions too large'')
         else rd_bind (ext_pairs (unat n) ext_info_new) (\<lambda>out r.
           if \<not> reader_is_empty r then Err (Format ''EXT_INFO trailing bytes'') else Ok (out, r))))
       (reader_new payload))"

subsection \<open>The pairs\<close>

interpretation pairc: wire_codec_pair write_string read_string enc_string fits_u32
  write_string read_string enc_string fits_u32
  by unfold_locales

lemmas pair_back = pairc.pair.bind_back [folded write_pair_def read_pair_def]

definition enc_pair :: "rust_str \<times> rust_str \<Rightarrow> bytes" where
  "enc_pair = (\<lambda>(a, b). enc_string a @ enc_string b)"

definition pair_ok :: "rust_str \<times> rust_str \<Rightarrow> bool" where
  "pair_ok = (\<lambda>(a, b). text_ok a \<and> text_ok b)"

lemma fold_write_pair: "w_buf (fold write_pair ps w) = w_buf w @ concat (map enc_pair ps)"
  by (induction ps arbitrary: w) (auto simp: write_pair_def enc_pair_def wire_simps)

text \<open>What decoding a list of pairs adds to the record.\<close>

definition ext_absorb :: "rust_str \<times> rust_str \<Rightarrow> ext_info \<Rightarrow> ext_info" where
  "ext_absorb = (\<lambda>(n, v) out.
     (if n = lit ''server-sig-algs'' then out\<lparr>server_sig_algs := Some v\<rparr>
      else if n = lit ''publickey-algorithms-in-use'' then out\<lparr>publickey_algorithms_in_use := Some v\<rparr>
      else out)\<lparr>ext_raw := ext_raw out @ [(n, v)]\<rparr>)"

lemma ext_add_ok: "pair_ok p \<Longrightarrow> ext_add p out = Ok (ext_absorb p out)"
  by (cases p) (auto simp: ext_add_def ext_absorb_def pair_ok_def text_ok_def Let_def)

lemma ext_pairs_back:
  assumes "\<forall>p \<in> set ps. pair_ok p" "fits pre (concat (map enc_pair ps))"
  shows "ext_pairs (length ps) out (rd_at pre (concat (map enc_pair ps)))
       = Ok (fold ext_absorb ps out, rd_at (pre @ concat (map enc_pair ps)) [])"
  using assms
proof (induction ps arbitrary: pre out)
  case (Cons p ps)
  obtain a b where p: "p = (a, b)" by (cases p)
  have "rd_bind read_pair f (rd_at pre (enc_pair p @ concat (map enc_pair ps)))
      = f p (rd_at (pre @ enc_pair p) (concat (map enc_pair ps)))" for f :: "bytes \<times> bytes \<Rightarrow> ext_info rd"
    using pair_back [of p pre "concat (map enc_pair ps)" f] Cons.prems
    by (simp add: p enc_pair_def pair_ok_def text_ok_def)
  with Cons show ?case by (simp add: ext_add_ok)
qed simp

lemma ext_info_encode_bytes: "ext_info_encode e =
    SSH_MSG_EXT_INFO # u32_to_be (of_nat (length (ext_raw e))) @ concat (map enc_pair (ext_raw e))"
  by (simp add: ext_info_encode_def into_vec_def fold_write_pair wire_simps)

lemma ext_info_decode_encode:
  assumes "\<forall>p \<in> set (ext_raw e). pair_ok p" "length (ext_raw e) \<le> 1024" "small (ext_info_encode e)"
  shows "ext_info_decode (ext_info_encode e) = Ok (fold ext_absorb (ext_raw e) ext_info_new)"
proof -
  let ?b = "concat (map enc_pair (ext_raw e))" and ?n = "of_nat (length (ext_raw e)) :: u32"
  have n: "unat ?n = length (ext_raw e)" using assms(2) by (simp add: unat_of_nat_u32)
  have s: "small (SSH_MSG_EXT_INFO # u32_to_be ?n @ ?b)" using assms(3) by (simp add: ext_info_encode_bytes)
  then have "read_u8 (rd_at [] (SSH_MSG_EXT_INFO # u32_to_be ?n @ ?b))
      = Ok (SSH_MSG_EXT_INFO, rd_at [SSH_MSG_EXT_INFO] (u32_to_be ?n @ ?b))"
    using read_u8_at [of "[]"] by simp
  moreover have "rd_bind (ext_pairs (length (ext_raw e)) ext_info_new) f
      (rd_at (SSH_MSG_EXT_INFO # u32_to_be ?n) ?b)
      = f (fold ext_absorb (ext_raw e) ext_info_new) (rd_at (SSH_MSG_EXT_INFO # u32_to_be ?n @ ?b) [])"
    for f :: "ext_info \<Rightarrow> ext_info rd"
    using ext_pairs_back [OF assms(1), of "SSH_MSG_EXT_INFO # u32_to_be ?n"] s by (simp add: rd_bind_Ok)
  ultimately show ?thesis
    using s n assms(2)
    by (simp add: ext_info_decode_def ext_info_encode_bytes reader_new_rd_at rd_bind_Ok u32c.bind_back)
qed

subsection \<open>The builder\<close>

abbreviation k_sig_algs :: rust_str where "k_sig_algs \<equiv> lit ''server-sig-algs''"
abbreviation k_pk_algs :: rust_str where "k_pk_algs \<equiv> lit ''publickey-algorithms-in-use''"

text \<open>The values the builder methods make, starting from \<open>new\<close>.\<close>

inductive ext_built :: "ext_info \<Rightarrow> bool" where
  built_new: "ext_built ext_info_new"
| built_sig: "ext_built e \<Longrightarrow> text_ok v \<Longrightarrow> ext_built (with_server_sig_algs v e)"
| built_pk: "ext_built e \<Longrightarrow> text_ok v \<Longrightarrow> ext_built (with_publickey_algorithms_in_use v e)"
| built_ext: "ext_built e \<Longrightarrow> text_ok n \<Longrightarrow> text_ok v \<Longrightarrow> n \<noteq> k_sig_algs \<Longrightarrow> n \<noteq> k_pk_algs \<Longrightarrow>
    ext_built (with_extension n v e)"

definition ext_ok :: "ext_info \<Rightarrow> bool" where
  "ext_ok e \<longleftrightarrow> distinct (map fst (ext_raw e)) \<and> (\<forall>p \<in> set (ext_raw e). pair_ok p)
   \<and> server_sig_algs e = map_of (ext_raw e) k_sig_algs
   \<and> publickey_algorithms_in_use e = map_of (ext_raw e) k_pk_algs"

lemma map_of_set_raw: "map_of (set_raw n v ps) = (map_of ps)(n \<mapsto> v)"
  by (induction n v ps rule: set_raw.induct) (auto simp: fun_eq_iff)

lemma set_raw_fst: "set (map fst (set_raw n v ps)) = insert n (set (map fst ps))"
  by (induction n v ps rule: set_raw.induct) auto

lemma distinct_set_raw: "distinct (map fst ps) \<Longrightarrow> distinct (map fst (set_raw n v ps))"
  using set_raw_fst by (induction n v ps rule: set_raw.induct) auto

lemma set_raw_pairs: "set (set_raw n v ps) \<subseteq> insert (n, v) (set ps)"
  by (induction n v ps rule: set_raw.induct) auto

lemma text_ok_keys: "text_ok k_sig_algs" "text_ok k_pk_algs"
  by (simp_all add: text_ok_lit)

lemma ext_built_ok: "ext_built e \<Longrightarrow> ext_ok e"
proof (induction rule: ext_built.induct)
  case (built_sig e v)
  then show ?case
    using set_raw_pairs [of k_sig_algs v "ext_raw e"] text_ok_keys
    by (auto simp: ext_ok_def with_server_sig_algs_def map_of_set_raw distinct_set_raw pair_ok_def)
next
  case (built_pk e v)
  then show ?case
    using set_raw_pairs [of k_pk_algs v "ext_raw e"] text_ok_keys
    by (auto simp: ext_ok_def with_publickey_algorithms_in_use_def map_of_set_raw distinct_set_raw
        pair_ok_def)
next
  case (built_ext e n v)
  then show ?case
    using set_raw_pairs [of n v "ext_raw e"]
    by (auto simp: ext_ok_def with_extension_def map_of_set_raw distinct_set_raw pair_ok_def)
qed (simp add: ext_ok_def ext_info_new_def)

lemma fold_absorb:
  "fold ext_absorb ps out = out
     \<lparr>server_sig_algs := (case map_of (rev ps) k_sig_algs of None \<Rightarrow> server_sig_algs out | Some v \<Rightarrow> Some v),
      publickey_algorithms_in_use := (case map_of (rev ps) k_pk_algs of
         None \<Rightarrow> publickey_algorithms_in_use out | Some v \<Rightarrow> Some v),
      ext_raw := ext_raw out @ ps\<rparr>"
proof (induction ps rule: rev_induct)
  case (snoc p ps)
  then show ?case by (cases p) (auto simp: ext_absorb_def)
qed simp

lemma fold_absorb_new: "ext_ok e \<Longrightarrow> fold ext_absorb (ext_raw e) ext_info_new = e"
proof -
  assume ok: "ext_ok e"
  then have "map_of (rev (ext_raw e)) = map_of (ext_raw e)"
    by (subst map_of_inject_set) (simp_all add: ext_ok_def rev_map [symmetric])
  with ok show ?thesis by (simp add: fold_absorb ext_ok_def ext_info_new_def split: option.split)
qed

lemma extension_map_of: "extension e n = map_of (ext_raw e) n"
proof -
  have "map_option snd (find (\<lambda>(m, _). m = n) ps) = map_of ps n" for ps :: "(rust_str \<times> rust_str) list"
    by (induction ps) auto
  then show ?thesis by (simp add: extension_def)
qed

text \<open>
  An EXT\_INFO put together with the builder (at most 1024 extensions) is read back as
  exactly the same record, with the two known extensions in their own fields; setting an extension
  is seen by \<open>extension\<close> and changes no other; and no payload makes the decoder panic.
\<close>

theorem ext_info_round_trip:
  "(ext_built e \<and> length (ext_raw e) \<le> 1024 \<and> small (ext_info_encode e) \<longrightarrow>
      ext_info_decode (ext_info_encode e) = Ok e)
 \<and> extension (with_extension n v e) m = (if m = n then Some v else extension e m)
 \<and> ext_info_decode b \<noteq> Panic"
proof (intro conjI impI)
  assume e: "ext_built e \<and> length (ext_raw e) \<le> 1024 \<and> small (ext_info_encode e)"
  then have ok: "ext_ok e" using ext_built_ok by blast
  with e show "ext_info_decode (ext_info_encode e) = Ok e"
    using ext_info_decode_encode [of e] fold_absorb_new [OF ok] by (simp add: ext_ok_def)
next
  show "extension (with_extension n v e) m = (if m = n then Some v else extension e m)"
    by (simp add: extension_map_of with_extension_def map_of_set_raw)
next
  have add: "ext_add p out \<noteq> Panic" for p out
    by (auto simp: ext_add_def Let_def split: prod.splits option.splits)
  have "safe_rd (ext_pairs k out)" for k out
  proof (induction k arbitrary: out)
    case (Suc k)
    have "safe_rd read_pair" unfolding read_pair_def by (intro safe_reads)
    moreover have "safe_rd (\<lambda>r. bind_res (ext_add p out) (\<lambda>out'. ext_pairs k out' r))" for p
      using add Suc by (auto simp: safe_rd_def bind_res_eq_Panic)
    ultimately show ?case by (simp add: safe_rd_bind)
  qed (simp add: safe_rd_ok)
  moreover have "safe_rd (\<lambda>r. if \<not> reader_is_empty r then Err err else Ok (out, r))"
    for err and out :: ext_info by (simp add: safe_rd_def)
  ultimately have "safe_rd (rd_bind (ext_pairs k ext_info_new) (\<lambda>out r.
      if \<not> reader_is_empty r then Err (Format ''EXT_INFO trailing bytes'') else Ok (out, r)))" for k
    by (intro safe_rd_bind)
  then have "safe_rd (rd_bind read_u8 (\<lambda>msg.
       if msg \<noteq> SSH_MSG_EXT_INFO then rd_err (Protocol ''expected SSH_MSG_EXT_INFO'')
       else rd_bind read_u32 (\<lambda>n.
         if unat n > 1024 then rd_err (Format ''EXT_INFO nr-extensions too large'')
         else rd_bind (ext_pairs (unat n) ext_info_new) (\<lambda>out r.
           if \<not> reader_is_empty r then Err (Format ''EXT_INFO trailing bytes'') else Ok (out, r)))))"
    by (auto intro!: safe_rd_bind safe_read_u8 safe_read_u32 safe_rd_err)
  then show "ext_info_decode b \<noteq> Panic" by (auto simp: ext_info_decode_def)
qed

abbreviation sample_ext :: ext_info where
  "sample_ext \<equiv> with_extension (lit ''ping@openssh.com'') (lit ''0'')
     (with_server_sig_algs (lit ''rsa-sha2-512,rsa-sha2-256'') ext_info_new)"

lemma sample_ext_built: "ext_built sample_ext"
  by (intro built_ext built_sig built_new text_ok_lit) simp_all

lemma sample_ext_raw: "ext_raw sample_ext =
    [(k_sig_algs, lit ''rsa-sha2-512,rsa-sha2-256''), (lit ''ping@openssh.com'', lit ''0'')]"
  by (simp add: with_extension_def with_server_sig_algs_def ext_info_new_def)

theorem ext_info_round_trip_witness:
  "ext_built sample_ext \<and> ext_info_decode (ext_info_encode sample_ext) = Ok sample_ext"
proof -
  have "small (ext_info_encode sample_ext)"
    unfolding ext_info_encode_bytes sample_ext_raw by (simp add: enc_pair_def small_def USIZE_LIMIT_def)
  moreover have "length (ext_raw sample_ext) \<le> 1024" unfolding sample_ext_raw by simp
  ultimately show ?thesis using ext_info_round_trip [of sample_ext] sample_ext_built by blast
qed

section \<open>PING and PONG (ping.rs)\<close>

definition SSH_MSG_PING :: u8 where "SSH_MSG_PING = 192"
definition SSH_MSG_PONG :: u8 where "SSH_MSG_PONG = 193"

definition encode_ping :: "bytes \<Rightarrow> bytes" where
  "encode_ping data = [SSH_MSG_PING] @ u32_to_be (of_nat (length data)) @ data"

definition encode_pong :: "bytes \<Rightarrow> bytes" where
  "encode_pong data = [SSH_MSG_PONG] @ u32_to_be (of_nat (length data)) @ data"

definition pong_for_ping :: "bytes \<Rightarrow> bytes res" where
  "pong_for_ping payload =
     map_res fst (rd_bind read_u8 (\<lambda>msg.
       if msg \<noteq> SSH_MSG_PING then rd_err (Protocol ''ping: not a SSH_MSG_PING'')
       else rd_bind read_string (\<lambda>data. rd_ok (encode_pong data))) (reader_new payload))"

text \<open>A read of a string that succeeds stood before that string's encoding.\<close>

lemma take_bytes_split:
  assumes "take_bytes n (rd_at pre post) = Ok (b, r')"
  shows "post = b @ drop n post \<and> r' = rd_at (pre @ b) (drop n post)"
  using assms
  by (auto simp: take_bytes_def rd_at_def slice_res_def Let_def split: if_splits)

lemma read_string_split:
  assumes "read_string (rd_at pre post) = Ok (d, r')"
  shows "\<exists>rest. post = enc_string d @ rest"
proof -
  obtain len r1 where len: "read_u32 (rd_at pre post) = Ok (len, r1)" "take_bytes (unat len) r1 = Ok (d, r')"
    using assms by (auto simp: read_string_def rd_bind_eq_Ok)
  then obtain b where b: "take_bytes 4 (rd_at pre post) = Ok (b, r1)"
    by (auto simp: read_u32_def rd_bind_eq_Ok bind_res_eq_Ok)
  have l: "len = u32_from_be b" using read_u32_bytes [OF b] len(1) by simp
  have "r1 = rd_at (pre @ b) (drop 4 post)" "post = b @ drop 4 post"
    using take_bytes_split [OF b] by auto
  moreover from this len(2) have "drop 4 post = d @ drop (unat len) (drop 4 post)"
    using take_bytes_split by blast
  moreover have "b = u32_to_be (of_nat (length d))"
    using l take_bytes_length [OF b] take_bytes_length [OF len(2)] u32_to_from_be by simp
  ultimately show ?thesis by (metis append.assoc enc_string_def)
qed

text \<open>
  A PING is answered by the PONG with the same data; a payload is answered only when it
  begins with a PING, whose data the answer carries; and no payload makes the handler panic.
\<close>

theorem pong_answers_ping:
  "(length d < 2 ^ 32 \<and> small (encode_ping d @ rest) \<longrightarrow> pong_for_ping (encode_ping d @ rest) = Ok (encode_pong d))
 \<and> (\<forall>out. pong_for_ping p = Ok out \<longrightarrow> (\<exists>d rest. p = encode_ping d @ rest \<and> out = encode_pong d))
 \<and> pong_for_ping p \<noteq> Panic"
proof (intro conjI impI allI)
  assume d: "length d < 2 ^ 32 \<and> small (encode_ping d @ rest)"
  then have "read_u8 (rd_at [] (SSH_MSG_PING # enc_string d @ rest))
      = Ok (SSH_MSG_PING, rd_at [SSH_MSG_PING] (enc_string d @ rest))"
    using read_u8_at [of "[]"] by (simp add: encode_ping_def enc_string_def)
  with d show "pong_for_ping (encode_ping d @ rest) = Ok (encode_pong d)"
    by (simp add: pong_for_ping_def encode_ping_def reader_new_rd_at rd_bind_Ok strc.bind_back
        fits_u32_def enc_string_def [symmetric] append.assoc [symmetric] del: append_assoc)
next
  fix out
  assume "pong_for_ping p = Ok out"
  then obtain r d r' where rd: "read_u8 (rd_at [] p) = Ok (SSH_MSG_PING, r)"
    "read_string r = Ok (d, r')" "out = encode_pong d"
    by (auto simp: pong_for_ping_def map_res_eq_Ok rd_bind_eq_Ok reader_new_rd_at split: if_splits)
  then obtain b where b: "take_bytes 1 (rd_at [] p) = Ok (b, r)" "b ! 0 = SSH_MSG_PING"
    by (auto simp: read_u8_def rd_bind_eq_Ok bind_res_eq_Ok index_res_def split: if_splits)
  then have "b = [SSH_MSG_PING]" using take_bytes_length [OF b(1)] by (cases b) auto
  with take_bytes_split [OF b(1)] have "p = SSH_MSG_PING # drop 1 p" "r = rd_at [SSH_MSG_PING] (drop 1 p)"
    by auto
  with read_string_split [of "[SSH_MSG_PING]" "drop 1 p" d r'] rd(2)
  show "\<exists>d rest. p = encode_ping d @ rest \<and> out = encode_pong d"
    using rd(3) by (metis append.assoc append_Cons append_Nil encode_ping_def enc_string_def)
next
  show "pong_for_ping p \<noteq> Panic"
    unfolding pong_for_ping_def map_res_eq_Panic
    by (intro safe_rdD safe_rd_bind safe_read_u8) (auto intro!: safe_reads)
qed

theorem pong_answers_ping_witness:
  "pong_for_ping (encode_ping [1, 2, 3] @ []) = Ok (encode_pong [1, 2, 3])"
  using pong_answers_ping [of "[1, 2, 3]" "[]"]
  by (simp add: encode_ping_def small_def USIZE_LIMIT_def)

end
