(* ===== verification/Runner.thy ===== *)
theory Runner
  imports KexMethods TransportMsg
begin

text \<open>
  The key-exchange runner (src/src/hazmat/transport/runner.rs), the state machine that drives one key
  exchange after another on a connection: KEXINIT, the method's messages (with the three round trips
  of a group exchange), NEWKEYS, key installation into the codec, and the windows in which an
  extension-info message may arrive. Operations run on the runner, the codec and the random
  generator together and leave all three behind also when they fail; \<open>None\<close> stands for a key
  derivation that does not return.
\<close>

section \<open>State\<close>

datatype 'g client_state_inner =
    CsCurve curve_state
  | CsEcdh ecdh_state
  | CsDh "'g dh_client_state"
  | CsGex "'g gex_client_state"
  | CsMlKem768X25519 hybrid_state
  | CsMlKem768Nistp256 hybrid_state
  | CsSntrup761X25519 hybrid_state

datatype 'g phase =
    Idle
  | SentKexInit
  | Negotiated "'g client_state_inner option"
  | GexClientAwaitGroup "'g gex_client_state"
  | GexClientAwaitReply "'g gex_client_state"
  | GexServerAwaitInit gex_request 'g
  | AwaitingPeerNewKeys
  | Completed

record gex_sizes =
  gs_min :: u32
  gs_n :: u32
  gs_max :: u32
  gs_group_bits :: u32
  gs_bits_set :: u32

record 'g kex_runner =
  kr_role :: role
  kr_our_advert :: kex_init
  kr_our_advert_bytes :: bytes
  kr_peer_advert_bytes :: "bytes option"
  kr_negotiated :: "negotiated option"
  kr_backend :: "kex_backend option"
  kr_session_id :: "bytes option"
  kr_initial_host_key_sig :: "(bytes \<times> bytes) option"
  kr_current_h :: "bytes option"
  kr_current_k :: "bytes option"
  kr_installed_keys :: "installed_keys option"
  kr_sent_newkeys :: bool
  kr_peer_newkeys :: bool
  kr_phase :: "'g phase"
  kr_strict_kex :: bool
  kr_pending_discard :: bool
  kr_first_kex :: bool
  kr_ext_info_enabled :: bool
  kr_ext_info_send :: bool
  kr_outbound_ext_info :: "ext_info option"
  kr_peer_ext_info :: "ext_info option"
  kr_accept_ext_info_now :: bool
  kr_gex_sizes :: "gex_sizes option"
  kr_gex_selector :: "(gex_request \<Rightarrow> 'g option) option"

record kex_advance =
  ka_outbound :: "bytes list"
  ka_completed :: bool

text \<open>The crates the runner calls into: ciphers, DEFLATE, digests, key agreement.\<close>

record ('s, 'e, 'd, 'r, 'g) kex_env =
  ke_ciphers :: "'s cipher_prims"
  ke_zlib :: "('e, 'd) zlib_prims"
  ke_hash :: hash_prim
  ke_kex :: "('r, 'g) kex_prims"

text \<open>What an operation of the runner reads and writes.\<close>

record ('s, 'e, 'd, 'r, 'g) kex_state =
  ks_runner :: "'g kex_runner"
  ks_codec :: "('s, 'e, 'd) packet_codec"
  ks_rng :: 'r

section \<open>Sequencing\<close>

type_synonym ('st, 'a) act = "'st \<Rightarrow> ('st \<times> 'a res) option"

definition act_ok :: "'a \<Rightarrow> ('st, 'a) act" where
  "act_ok x s = Some (s, Ok x)"

definition act_err :: "error \<Rightarrow> ('st, 'a) act" where
  "act_err e s = Some (s, Err e)"

definition act_res :: "'a res \<Rightarrow> ('st, 'a) act" where
  "act_res r s = Some (s, r)"

definition act_mod :: "('st \<Rightarrow> 'st) \<Rightarrow> ('st, unit) act" where
  "act_mod f s = Some (f s, Ok ())"

definition act_get :: "('st \<Rightarrow> ('st, 'a) act) \<Rightarrow> ('st, 'a) act" where
  "act_get f s = f s s"

text \<open>\<open>?\<close>\<close>

definition act_bind :: "('st, 'a) act \<Rightarrow> ('a \<Rightarrow> ('st, 'b) act) \<Rightarrow> ('st, 'b) act" where
  "act_bind m f s =
     (case m s of
        None \<Rightarrow> None
      | Some (s', Ok x) \<Rightarrow> f x s'
      | Some (s', Err e) \<Rightarrow> Some (s', Err e)
      | Some (s', Panic) \<Rightarrow> Some (s', Panic))"

abbreviation act_then :: "('st, unit) act \<Rightarrow> ('st, 'b) act \<Rightarrow> ('st, 'b) act" where
  "act_then m f \<equiv> act_bind m (\<lambda>_. f)"

lemma act_simps [simp]:
  "act_ok x s = Some (s, Ok x)"
  "act_err e s = Some (s, Err e)"
  "act_res r s = Some (s, r)"
  "act_mod f s = Some (f s, Ok ())"
  "act_get g s = g s s"
  by (simp_all add: act_ok_def act_err_def act_res_def act_mod_def act_get_def)

lemma act_bind_cases:
  "m s = None \<Longrightarrow> act_bind m f s = None"
  "m s = Some (s', Ok x) \<Longrightarrow> act_bind m f s = f x s'"
  "m s = Some (s', Err e) \<Longrightarrow> act_bind m f s = Some (s', Err e)"
  "m s = Some (s', Panic) \<Longrightarrow> act_bind m f s = Some (s', Panic)"
  by (simp_all add: act_bind_def)

lemma act_bind_step [simp]:
  "act_bind (act_ok x) f s = f x s"
  "act_bind (act_err e) f s = Some (s, Err e)"
  "act_bind (act_res (Ok x)) f s = f x s"
  "act_bind (act_res (Err e)) f s = Some (s, Err e)"
  "act_bind (act_res Panic) f s = Some (s, Panic)"
  "act_bind (act_mod h) g s = g () (h s)"
  by (simp_all add: act_bind_def)

type_synonym ('s, 'e, 'd, 'r, 'g, 'a) kact = "(('s, 'e, 'd, 'r, 'g) kex_state, 'a) act"

definition on_runner :: "('g kex_runner \<Rightarrow> 'g kex_runner) \<Rightarrow> ('s, 'e, 'd, 'r, 'g, unit) kact" where
  "on_runner f = act_mod (ks_runner_update f)"

lemma on_runner_simps [simp]:
  "on_runner f s = Some (s\<lparr>ks_runner := f (ks_runner s)\<rparr>, Ok ())"
  "act_bind (on_runner f) g s = g () (s\<lparr>ks_runner := f (ks_runner s)\<rparr>)"
  by (cases s; simp add: on_runner_def)+

text \<open>A call that draws random bytes, and one on the codec.\<close>

definition with_rng :: "('r \<Rightarrow> 'r \<times> 'a res) \<Rightarrow> ('s, 'e, 'd, 'r, 'g, 'a) kact" where
  "with_rng f s = (case f (ks_rng s) of (rng', x) \<Rightarrow> Some (s\<lparr>ks_rng := rng'\<rparr>, x))"

definition with_codec :: "(('s, 'e, 'd) packet_codec \<Rightarrow> ('s, 'e, 'd) packet_codec \<times> 'a res) \<Rightarrow>
    ('s, 'e, 'd, 'r, 'g, 'a) kact" where
  "with_codec f s = (case f (ks_codec s) of (codec', x) \<Rightarrow> Some (s\<lparr>ks_codec := codec'\<rparr>, x))"

section \<open>Construction, start, restart\<close>

definition runner_new :: "role \<Rightarrow> kex_init \<Rightarrow> 'g kex_runner" where
  "runner_new role advert =
     \<lparr>kr_role = role, kr_our_advert = advert, kr_our_advert_bytes = kexinit_encode advert,
      kr_peer_advert_bytes = None, kr_negotiated = None, kr_backend = None, kr_session_id = None,
      kr_initial_host_key_sig = None, kr_current_h = None, kr_current_k = None, kr_installed_keys = None,
      kr_sent_newkeys = False, kr_peer_newkeys = False, kr_phase = Idle, kr_strict_kex = False,
      kr_pending_discard = False, kr_first_kex = True, kr_ext_info_enabled = False, kr_ext_info_send = False,
      kr_outbound_ext_info = None, kr_peer_ext_info = None, kr_accept_ext_info_now = False,
      kr_gex_sizes = None, kr_gex_selector = None\<rparr>"

definition set_gex_selector :: "(gex_request \<Rightarrow> 'g option) option \<Rightarrow> 'g kex_runner \<Rightarrow> 'g kex_runner" where
  "set_gex_selector sel r = r\<lparr>kr_gex_selector := sel\<rparr>"

definition advance :: "bytes list \<Rightarrow> kex_advance" where
  "advance out = \<lparr>ka_outbound = out, ka_completed = False\<rparr>"

definition runner_start :: "'g kex_runner \<Rightarrow> 'g kex_runner \<times> kex_advance res" where
  "runner_start r =
     (case kr_phase r of
        Idle \<Rightarrow> (r\<lparr>kr_phase := SentKexInit\<rparr>, Ok (advance [kr_our_advert_bytes r]))
      | _ \<Rightarrow> (r, Err (Protocol ''KexRunner::start called twice'')))"

definition runner_restart :: "kex_init \<Rightarrow> 'g kex_runner \<Rightarrow> 'g kex_runner \<times> kex_advance res" where
  "runner_restart advert r =
     (case kr_phase r of
        Completed \<Rightarrow>
          let bs = kexinit_encode advert in
          (r\<lparr>kr_our_advert := advert, kr_our_advert_bytes := bs, kr_peer_advert_bytes := None,
             kr_negotiated := None, kr_gex_sizes := None, kr_backend := None, kr_current_h := None,
             kr_current_k := None, kr_installed_keys := None, kr_sent_newkeys := False,
             kr_peer_newkeys := False, kr_pending_discard := False, kr_first_kex := False,
             kr_ext_info_enabled := False, kr_ext_info_send := False, kr_outbound_ext_info := None,
             kr_accept_ext_info_now := False, kr_phase := SentKexInit\<rparr>,
           Ok (advance [bs]))
      | _ \<Rightarrow> (r, Err (Protocol ''KexRunner::restart from non-Completed'')))"

definition is_kexing :: "'g kex_runner \<Rightarrow> bool" where
  "is_kexing r \<longleftrightarrow> \<not> (kr_phase r = Idle \<or> kr_phase r = Completed)"

definition is_completed :: "'g kex_runner \<Rightarrow> bool" where
  "is_completed r \<longleftrightarrow> kr_phase r = Completed"

definition awaiting_peer_kexinit :: "'g kex_runner \<Rightarrow> bool" where
  "awaiting_peer_kexinit r \<longleftrightarrow> kr_phase r = SentKexInit"

definition uses_gex :: "'g kex_runner \<Rightarrow> bool" where
  "uses_gex r \<longleftrightarrow> kr_backend r = Some Gex \<or> kr_backend r = Some GexSha1"

section \<open>The extension-info windows\<close>

definition set_outbound_ext_info :: "ext_info \<Rightarrow> 'g kex_runner \<Rightarrow> 'g kex_runner" where
  "set_outbound_ext_info ext r = r\<lparr>kr_outbound_ext_info := Some ext\<rparr>"

definition may_accept_ext_info :: "'g kex_runner \<Rightarrow> bool" where
  "may_accept_ext_info r \<longleftrightarrow> kr_accept_ext_info_now r"

definition arm_ext_info_post_auth :: "'g kex_runner \<Rightarrow> 'g kex_runner" where
  "arm_ext_info_post_auth r =
     (if kr_role r = Client \<and> kr_ext_info_enabled r then r\<lparr>kr_accept_ext_info_now := True\<rparr> else r)"

definition handle_inbound_ext_info :: "bytes \<Rightarrow> 'g kex_runner \<Rightarrow> 'g kex_runner \<times> unit res" where
  "handle_inbound_ext_info payload r =
     (if \<not> kr_accept_ext_info_now r then (r, Err (Protocol ''unexpected SSH_MSG_EXT_INFO''))
      else st_try r (ext_info_decode payload) (\<lambda>parsed.
        (r\<lparr>kr_peer_ext_info := Some parsed, kr_accept_ext_info_now := False\<rparr>, Ok ())))"

definition note_inbound_other :: "'g kex_runner \<Rightarrow> 'g kex_runner" where
  "note_inbound_other r = r\<lparr>kr_accept_ext_info_now := False\<rparr>"

section \<open>Choosing the method\<close>

text \<open>One direction's contribution to \<open>dh_need\<close>.\<close>

definition need_of :: "rust_str \<Rightarrow> rust_str \<Rightarrow> nat \<Rightarrow> nat" where
  "need_of cipher mac need =
     (let need1 = (case find (\<lambda>c. cs_name c = cipher) ALL_CIPHERS of
                     None \<Rightarrow> need
                   | Some c \<Rightarrow>
                       let seclen = (if cs_name c = lit ''3des-cbc'' then 14 else cs_key_len c)
                       in max (max (max need seclen) (cs_block_size c)) (cs_iv_len c))
      in case find (\<lambda>m. ms_name m = mac) ALL_MACS of
           None \<Rightarrow> need1
         | Some m \<Rightarrow> max need1 (ms_key_len m))"

definition dh_need :: "negotiated \<Rightarrow> nat" where
  "dh_need n = need_of (ng_cipher_s2c n) (ng_mac_s2c n) (need_of (ng_cipher_c2s n) (ng_mac_c2s n) 0)"

definition default_gex_group :: "('r, 'g) kex_prims \<Rightarrow> gex_request \<Rightarrow> 'g" where
  "default_gex_group X req =
     (if gx_min req > 4096 then group18 X
      else if gx_min req > 2048 then (if gx_n req > 4096 then group18 X else group16 X)
      else if gx_n req \<le> 2048 \<and> gx_max req \<ge> 2048 then group14 X
      else if gx_n req \<le> 4096 \<and> gx_max req \<ge> 4096 then group16 X
      else if gx_max req \<ge> 8192 then group18 X
      else if gx_max req \<ge> 4096 then group16 X
      else group14 X)"

definition init_done :: "('a \<Rightarrow> 'g client_state_inner) \<Rightarrow> ('a \<times> bytes) \<times> 'r \<Rightarrow>
    'r \<times> ('g client_state_inner \<times> bytes) res" where
  "init_done C out = (case out of ((st, payload), rng) \<Rightarrow> (rng, Ok (C st, payload)))"

fun client_init_for :: "('r, 'g) kex_prims \<Rightarrow> negotiated option \<Rightarrow> kex_backend \<Rightarrow> 'r \<Rightarrow>
    'r \<times> ('g client_state_inner \<times> bytes) res" where
  "client_init_for X neg Curve25519 rng = init_done CsCurve (curve_client_init X rng)"
| "client_init_for X neg EcdhP256 rng = init_done CsEcdh (ecdh_client_init X P256 rng)"
| "client_init_for X neg EcdhP384 rng = init_done CsEcdh (ecdh_client_init X P384 rng)"
| "client_init_for X neg EcdhP521 rng = init_done CsEcdh (ecdh_client_init X P521 rng)"
| "client_init_for X neg Dh14 rng = init_done CsDh (dh_client_init X (group14 X) rng)"
| "client_init_for X neg Dh16 rng = init_done CsDh (dh_client_init X (group16 X) rng)"
| "client_init_for X neg Dh18 rng = init_done CsDh (dh_client_init X (group18 X) rng)"
| "client_init_for X neg Dh1Sha1 rng =
     st_try rng (group1 X) (\<lambda>g. init_done CsDh (dh_client_init X g rng))"
| "client_init_for X neg Dh14Sha1 rng = init_done CsDh (dh_client_init X (group14 X) rng)"
| "client_init_for X neg Gex rng =
     init_done CsGex (gex_client_request
       (case neg of None \<Rightarrow> gex_request_default | Some n \<Rightarrow> for_strength (dh_need n)), rng)"
| "client_init_for X neg GexSha1 rng =
     init_done CsGex (gex_client_request
       (case neg of None \<Rightarrow> gex_request_default | Some n \<Rightarrow> for_strength (dh_need n)), rng)"
| "client_init_for X neg MlKem768X25519 rng = init_done CsMlKem768X25519 (mlx_client_init X rng)"
| "client_init_for X neg MlKem768Nistp256 rng = init_done CsMlKem768Nistp256 (mln_client_init X rng)"
| "client_init_for X neg Sntrup761X25519 rng = init_done CsSntrup761X25519 (snx_client_init X rng)"

definition build_client_init :: "('r, 'g) kex_prims \<Rightarrow> 'g kex_runner \<Rightarrow> 'r \<Rightarrow>
    'r \<times> ('g client_state_inner \<times> bytes) res" where
  "build_client_init X r rng =
     st_try rng (ok_or (kr_backend r) (Protocol ''backend unset'')) (\<lambda>be.
       client_init_for X (kr_negotiated r) be rng)"

fun server_reply_for :: "('r, 'g) kex_prims \<Rightarrow> hash_prim \<Rightarrow> kex_backend \<Rightarrow> 'r \<Rightarrow> bytes \<Rightarrow> host_key \<Rightarrow>
    kex_context \<Rightarrow> 'r \<times> server_reply_out res" where
  "server_reply_for X H Curve25519 rng payload hk ctx = curve_server_reply X H rng payload hk ctx"
| "server_reply_for X H EcdhP256 rng payload hk ctx = ecdh_server_reply X H KSha256 P256 rng payload hk ctx"
| "server_reply_for X H EcdhP384 rng payload hk ctx = ecdh_server_reply X H KSha384 P384 rng payload hk ctx"
| "server_reply_for X H EcdhP521 rng payload hk ctx = ecdh_server_reply X H KSha512 P521 rng payload hk ctx"
| "server_reply_for X H Dh14 rng payload hk ctx = dh_server_reply X H KSha256 (group14 X) rng payload hk ctx"
| "server_reply_for X H Dh1Sha1 rng payload hk ctx =
     st_try rng (group1 X) (\<lambda>g. dh_server_reply X H KSha1 g rng payload hk ctx)"
| "server_reply_for X H Dh14Sha1 rng payload hk ctx = dh_server_reply X H KSha1 (group14 X) rng payload hk ctx"
| "server_reply_for X H Dh16 rng payload hk ctx = dh_server_reply X H KSha512 (group16 X) rng payload hk ctx"
| "server_reply_for X H Dh18 rng payload hk ctx = dh_server_reply X H KSha512 (group18 X) rng payload hk ctx"
| "server_reply_for X H MlKem768X25519 rng payload hk ctx = mlx_server_reply X H rng payload hk ctx"
| "server_reply_for X H MlKem768Nistp256 rng payload hk ctx = mln_server_reply X H rng payload hk ctx"
| "server_reply_for X H Sntrup761X25519 rng payload hk ctx = snx_server_reply X H rng payload hk ctx"
| "server_reply_for X H Gex rng payload hk ctx = (rng, Err (Protocol ''GEX routed wrong''))"
| "server_reply_for X H GexSha1 rng payload hk ctx = (rng, Err (Protocol ''GEX routed wrong''))"

definition state_mismatch :: "kex_output res" where
  "state_mismatch = Err (Protocol ''client state type mismatch'')"

definition ecdh_finish_with :: "('r, 'g) kex_prims \<Rightarrow> hash_prim \<Rightarrow> kex_digest \<Rightarrow> curve_id \<Rightarrow>
    'g client_state_inner \<Rightarrow> bytes \<Rightarrow> host_key_verify \<Rightarrow> kex_context \<Rightarrow> kex_output res" where
  "ecdh_finish_with X H d curve st payload vf ctx =
     (case st of CsEcdh s \<Rightarrow> ecdh_client_finish X H d curve s payload vf ctx | _ \<Rightarrow> state_mismatch)"

definition dh_finish_with :: "('r, 'g) kex_prims \<Rightarrow> hash_prim \<Rightarrow> kex_digest \<Rightarrow>
    'g client_state_inner \<Rightarrow> bytes \<Rightarrow> host_key_verify \<Rightarrow> kex_context \<Rightarrow> kex_output res" where
  "dh_finish_with X H d st payload vf ctx =
     (case st of CsDh s \<Rightarrow> dh_client_finish X H d s payload vf ctx | _ \<Rightarrow> state_mismatch)"

fun client_finish_for :: "('r, 'g) kex_prims \<Rightarrow> hash_prim \<Rightarrow> kex_backend \<Rightarrow> 'g client_state_inner \<Rightarrow> bytes \<Rightarrow>
    host_key_verify \<Rightarrow> kex_context \<Rightarrow> kex_output res" where
  "client_finish_for X H Curve25519 st payload vf ctx =
     (case st of CsCurve s \<Rightarrow> curve_client_finish X H s payload vf ctx | _ \<Rightarrow> state_mismatch)"
| "client_finish_for X H EcdhP256 st payload vf ctx = ecdh_finish_with X H KSha256 P256 st payload vf ctx"
| "client_finish_for X H EcdhP384 st payload vf ctx = ecdh_finish_with X H KSha384 P384 st payload vf ctx"
| "client_finish_for X H EcdhP521 st payload vf ctx = ecdh_finish_with X H KSha512 P521 st payload vf ctx"
| "client_finish_for X H Dh14 st payload vf ctx = dh_finish_with X H KSha256 st payload vf ctx"
| "client_finish_for X H Dh16 st payload vf ctx = dh_finish_with X H KSha512 st payload vf ctx"
| "client_finish_for X H Dh18 st payload vf ctx = dh_finish_with X H KSha512 st payload vf ctx"
| "client_finish_for X H Dh1Sha1 st payload vf ctx = dh_finish_with X H KSha1 st payload vf ctx"
| "client_finish_for X H Dh14Sha1 st payload vf ctx = dh_finish_with X H KSha1 st payload vf ctx"
| "client_finish_for X H MlKem768X25519 st payload vf ctx =
     (case st of CsMlKem768X25519 s \<Rightarrow> mlx_client_finish X H s payload vf ctx | _ \<Rightarrow> state_mismatch)"
| "client_finish_for X H MlKem768Nistp256 st payload vf ctx =
     (case st of CsMlKem768Nistp256 s \<Rightarrow> mln_client_finish X H s payload vf ctx | _ \<Rightarrow> state_mismatch)"
| "client_finish_for X H Sntrup761X25519 st payload vf ctx =
     (case st of CsSntrup761X25519 s \<Rightarrow> snx_client_finish X H s payload vf ctx | _ \<Rightarrow> state_mismatch)"
| "client_finish_for X H Gex st payload vf ctx = Err (Protocol ''GEX routed wrong'')"
| "client_finish_for X H GexSha1 st payload vf ctx = Err (Protocol ''GEX routed wrong'')"

definition host_key_and_sig :: "bytes \<Rightarrow> (bytes \<times> bytes) option" where
  "host_key_and_sig reply =
     (case rd_bind read_u8 (\<lambda>_. rd_bind read_string (\<lambda>k_s. rd_bind read_string (\<lambda>_.
             rd_bind read_string (\<lambda>sig. rd_ok (k_s, sig))))) (reader_new reply) of
        Ok (x, _) \<Rightarrow> Some x
      | _ \<Rightarrow> None)"

section \<open>Deriving and installing keys\<close>

definition need_field :: "'a option \<Rightarrow> string \<Rightarrow> 'a res" where
  "need_field x msg = ok_or x (Protocol msg)"

definition derive_keys :: "hash_prim \<Rightarrow> 'g kex_runner \<Rightarrow> ('g kex_runner \<times> unit res) option" where
  "derive_keys H r =
     (let inputs =
        bind_res (need_field (kr_negotiated r) ''missing negotiation'') (\<lambda>neg.
        bind_res (need_field (kr_backend r) ''missing backend'') (\<lambda>backend.
        bind_res (need_field (kr_current_k r) ''missing K'') (\<lambda>k.
        bind_res (need_field (kr_current_h r) ''missing H'') (\<lambda>h.
        bind_res (need_field (kr_session_id r) ''missing session id'') (\<lambda>sid.
          Ok (neg, backend, k, h, sid))))))
      in case inputs of
           Err e \<Rightarrow> Some (r, Err e)
         | Panic \<Rightarrow> Some (r, Panic)
         | Ok (neg, backend, k, h, sid) \<Rightarrow>
             Option.bind (derive_for_direction H backend k h sid 0x41 0x43 0x45 (ng_cipher_c2s neg) (ng_mac_c2s neg))
               (\<lambda>c2s_r. case c2s_r of
                  Err e \<Rightarrow> Some (r, Err e)
                | Panic \<Rightarrow> Some (r, Panic)
                | Ok c2s \<Rightarrow>
                    Option.bind (derive_for_direction H backend k h sid 0x42 0x44 0x46 (ng_cipher_s2c neg) (ng_mac_s2c neg))
                      (\<lambda>s2c_r. Some (st_try r s2c_r (\<lambda>s2c.
                         (r\<lparr>kr_installed_keys := Some \<lparr>keys_c2s = c2s, keys_s2c = s2c\<rparr>\<rparr>, Ok ()))))))"

definition maybe_install :: "'s cipher_prims \<Rightarrow> ('e, 'd) zlib_prims \<Rightarrow> 'g kex_runner \<Rightarrow>
    ('s, 'e, 'd) packet_codec \<Rightarrow> ('s, 'e, 'd) packet_codec \<times> unit res" where
  "maybe_install P Z r codec =
     (if \<not> (kr_sent_newkeys r \<and> kr_peer_newkeys r) then (codec, Ok ())
      else st_try codec (need_field (kr_installed_keys r) ''no derived keys'') (\<lambda>keys.
        let outbound_dir = (case kr_role r of Client \<Rightarrow> keys_c2s keys | Server \<Rightarrow> keys_s2c keys);
            inbound_dir = (case kr_role r of Client \<Rightarrow> keys_s2c keys | Server \<Rightarrow> keys_c2s keys)
        in st_try codec (build_cipher_mac P outbound_dir) (\<lambda>(out_cipher, out_mac).
           st_then (install_outbound codec out_cipher out_mac) (\<lambda>codec1 _.
           st_try codec1 (build_cipher_mac P inbound_dir) (\<lambda>(in_cipher, in_mac).
           st_then (install_inbound codec1 in_cipher in_mac) (\<lambda>codec2 _.
           st_try codec2 (need_field (kr_negotiated r) ''missing negotiation'') (\<lambda>neg.
           let (out_comp_name, in_comp_name) =
                 (case kr_role r of Client \<Rightarrow> (ng_comp_c2s neg, ng_comp_s2c neg)
                                  | Server \<Rightarrow> (ng_comp_s2c neg, ng_comp_c2s neg))
           in st_try codec2 (need_comp (compress_by_name Z out_comp_name)) (\<lambda>out_comp.
              st_try codec2 (need_comp (decompress_by_name Z in_comp_name)) (\<lambda>in_comp.
              let codec3 = install_inbound_decompress Z in_comp (install_outbound_compress Z out_comp codec2);
                  codec4 = (if kr_strict_kex r then reset_sequence_numbers codec3 else codec3)
              in (reset_rekey_epoch codec4, Ok ()))))))))))"

section \<open>Handlers\<close>

definition act_derive_keys :: "('s, 'e, 'd, 'r, 'g) kex_env \<Rightarrow> ('s, 'e, 'd, 'r, 'g, unit) kact" where
  "act_derive_keys E s =
     map_option (\<lambda>(r', x). (s\<lparr>ks_runner := r'\<rparr>, x)) (derive_keys (ke_hash E) (ks_runner s))"

definition act_maybe_install :: "('s, 'e, 'd, 'r, 'g) kex_env \<Rightarrow> ('s, 'e, 'd, 'r, 'g, unit) kact" where
  "act_maybe_install E =
     act_get (\<lambda>s. with_codec (maybe_install (ke_ciphers E) (ke_zlib E) (ks_runner s)))"

definition advance_after_send_newkeys :: "'g kex_runner \<Rightarrow> 'g kex_runner" where
  "advance_after_send_newkeys r =
     r\<lparr>kr_phase := (if kr_peer_newkeys r then Completed else AwaitingPeerNewKeys)\<rparr>"

text \<open>
  What the four message handlers that complete a method share: \<open>K\<close> and \<open>H\<close> are kept, the session id
  is the first \<open>H\<close>, keys are derived, NEWKEYS goes out. \<open>first_sig\<close> is what a client records of the
  first host key.
\<close>

definition note_agreed :: "kex_output \<Rightarrow> (bytes \<times> bytes) option option \<Rightarrow> 'g kex_runner \<Rightarrow> 'g kex_runner" where
  "note_agreed out first_sig r =
     (let r1 = r\<lparr>kr_current_k := Some (ko_k out), kr_current_h := Some (ko_h out)\<rparr> in
      if kr_session_id r1 = None
      then case first_sig of
             None \<Rightarrow> r1\<lparr>kr_session_id := Some (ko_h out)\<rparr>
           | Some x \<Rightarrow> r1\<lparr>kr_session_id := Some (ko_h out), kr_initial_host_key_sig := x\<rparr>
      else r1)"

definition finish_exchange :: "('s, 'e, 'd, 'r, 'g) kex_env \<Rightarrow> kex_output \<Rightarrow> (bytes \<times> bytes) option option \<Rightarrow>
    bytes list \<Rightarrow> ('s, 'e, 'd, 'r, 'g, kex_advance) kact" where
  "finish_exchange E out first_sig replies =
     act_then (on_runner (note_agreed out first_sig))
    (act_then (act_derive_keys E)
    (act_then (on_runner (kr_sent_newkeys_update (\<lambda>_. True)))
    (act_then (act_maybe_install E)
    (act_then (on_runner advance_after_send_newkeys)
     (act_ok (advance (replies @ [[SSH_MSG_NEWKEYS]])))))))"

definition kex_context_of :: "'g kex_runner \<Rightarrow> bytes \<Rightarrow> bytes \<Rightarrow> kex_context" where
  "kex_context_of r vc vs =
     (let peer = (case kr_peer_advert_bytes r of None \<Rightarrow> [] | Some b \<Rightarrow> b); ours = kr_our_advert_bytes r
      in case kr_role r of
           Client \<Rightarrow> \<lparr>v_c = vc, v_s = vs, i_c = ours, i_s = peer\<rparr>
         | Server \<Rightarrow> \<lparr>v_c = vc, v_s = vs, i_c = peer, i_s = ours\<rparr>)"

text \<open>What the runner keeps of a negotiation: strict key exchange latches, extension info is for the first exchange.\<close>

definition note_negotiated :: "kex_init \<Rightarrow> negotiated \<Rightarrow> kex_backend \<Rightarrow> 'g kex_runner \<Rightarrow> 'g kex_runner" where
  "note_negotiated peer neg be r =
     (let (recv, send) = (case kr_role r of Client \<Rightarrow> (client_ext_info neg, server_ext_info neg)
                                          | Server \<Rightarrow> (server_ext_info neg, client_ext_info neg))
      in r\<lparr>kr_backend := Some be,
           kr_strict_kex := (kr_strict_kex r \<or> strict_kex_enabled neg),
           kr_ext_info_enabled := (kr_first_kex r \<and> recv),
           kr_ext_info_send := (kr_first_kex r \<and> send),
           kr_pending_discard := (kr_pending_discard r \<or> first_kex_packet_follows peer \<and> wrong_guess neg),
           kr_negotiated := Some neg\<rparr>)"

text \<open>What follows a negotiation: a client sends the method's first message, a server waits for it.\<close>

definition begin_method :: "('s, 'e, 'd, 'r, 'g) kex_env \<Rightarrow> role \<Rightarrow> kex_backend \<Rightarrow>
    ('s, 'e, 'd, 'r, 'g, kex_advance) kact" where
  "begin_method E role be =
     (if role = Client
      then act_bind (act_get (\<lambda>s. with_rng (build_client_init (ke_kex E) (ks_runner s)))) (\<lambda>(st, init_payload).
             if be = Gex \<or> be = GexSha1
             then case st of
                    CsGex g \<Rightarrow> act_then (on_runner (kr_phase_update (\<lambda>_. GexClientAwaitGroup g)))
                                 (act_ok (advance [init_payload]))
                  | _ \<Rightarrow> act_err (Protocol ''GEX backend without GEX state'')
             else act_then (on_runner (kr_phase_update (\<lambda>_. Negotiated (Some st))))
                    (act_ok (advance [init_payload])))
      else act_then (on_runner (kr_phase_update (\<lambda>_. Negotiated None))) (act_ok (advance [])))"

definition handle_peer_kexinit :: "('s, 'e, 'd, 'r, 'g) kex_env \<Rightarrow> u32 \<Rightarrow> bytes \<Rightarrow>
    ('s, 'e, 'd, 'r, 'g, kex_advance) kact" where
  "handle_peer_kexinit E seq_in_after payload =
     act_bind (act_res (kexinit_decode payload)) (\<lambda>peer.
     act_then (on_runner (kr_peer_advert_bytes_update (\<lambda>_. Some payload)))
     (act_get (\<lambda>s0. let ours = kr_our_advert (ks_runner s0); role = kr_role (ks_runner s0) in
     act_bind (act_res (case role of Client \<Rightarrow> negotiate ours peer | Server \<Rightarrow> negotiate peer ours)) (\<lambda>neg.
     if strict_kex_enabled neg \<and> kr_session_id (ks_runner s0) = None \<and> seq_in_after \<noteq> 1
     then act_err (Protocol ''strict-kex: KEXINIT was not the first packet'')
     else act_bind (act_res (kex_backend_from_name (ng_kex neg))) (\<lambda>be.
     act_then (on_runner (note_negotiated peer neg be))
     (begin_method E role be))))))"

definition handle_kex_init_message :: "('s, 'e, 'd, 'r, 'g) kex_env \<Rightarrow> bytes \<Rightarrow> host_key option \<Rightarrow>
    bytes \<Rightarrow> bytes \<Rightarrow> ('s, 'e, 'd, 'r, 'g, kex_advance) kact" where
  "handle_kex_init_message E payload host_key vc vs =
     act_bind (act_res (ok_or host_key (Protocol ''server requires host key''))) (\<lambda>hk.
     act_get (\<lambda>s. let r = ks_runner s in
     act_bind (act_res (ok_or (kr_backend r) (Protocol ''backend unset''))) (\<lambda>be.
     act_bind (with_rng (\<lambda>rng. server_reply_for (ke_kex E) (ke_hash E) be rng payload hk (kex_context_of r vc vs)))
       (\<lambda>out. finish_exchange E (sr_kex out) None [sr_payload out]))))"

definition handle_kex_reply_message :: "('s, 'e, 'd, 'r, 'g) kex_env \<Rightarrow> bytes \<Rightarrow> host_key_verify option \<Rightarrow>
    bytes \<Rightarrow> bytes \<Rightarrow> ('s, 'e, 'd, 'r, 'g, kex_advance) kact" where
  "handle_kex_reply_message E payload verifier vc vs =
     act_get (\<lambda>s. let r = ks_runner s in
     act_bind (act_res (ok_or (kr_backend r) (Protocol ''backend unset''))) (\<lambda>be.
     act_then (on_runner (kr_phase_update (\<lambda>_. Idle)))
     (act_bind (act_res (case kr_phase r of Negotiated (Some st) \<Rightarrow> Ok st
                          | _ \<Rightarrow> Err (Protocol ''no client state for KEX reply''))) (\<lambda>st.
      act_bind (act_res (ok_or verifier (Protocol ''client requires host-key verifier''))) (\<lambda>vf.
      act_bind (act_res (client_finish_for (ke_kex E) (ke_hash E) be st payload vf (kex_context_of r vc vs)))
        (\<lambda>out. finish_exchange E out (Some (host_key_and_sig payload)) []))))))"

definition handle_gex_request :: "('s, 'e, 'd, 'r, 'g) kex_env \<Rightarrow> bytes \<Rightarrow>
    ('s, 'e, 'd, 'r, 'g, kex_advance) kact" where
  "handle_gex_request E payload =
     act_get (\<lambda>s. let X = ke_kex E; sel = kr_gex_selector (ks_runner s);
       pick_group = (\<lambda>req. case sel of None \<Rightarrow> default_gex_group X req
                        | Some f \<Rightarrow> (case f req of None \<Rightarrow> default_gex_group X req | Some g \<Rightarrow> g)) in
     act_bind (act_res (gex_server_group X payload pick_group)) (\<lambda>(request, grp, out).
       if (case sel of None \<Rightarrow> False | Some f \<Rightarrow> f request = None)
       then act_err (Protocol ''no matching DH grp found'')
       else act_then (on_runner (kr_phase_update (\<lambda>_. GexServerAwaitInit request grp)))
              (act_ok (advance [out]))))"

definition handle_gex_group :: "('s, 'e, 'd, 'r, 'g) kex_env \<Rightarrow> bytes \<Rightarrow>
    ('s, 'e, 'd, 'r, 'g, kex_advance) kact" where
  "handle_gex_group E payload =
     act_get (\<lambda>s.
     act_then (on_runner (kr_phase_update (\<lambda>_. Idle)))
     (act_bind (act_res (case kr_phase (ks_runner s) of GexClientAwaitGroup st \<Rightarrow> Ok st
                          | _ \<Rightarrow> Err (Protocol ''GEX_GROUP without prior request''))) (\<lambda>st0.
      act_bind (with_rng (gex_client_init (ke_kex E) st0 payload)) (\<lambda>(st, out).
        act_then (on_runner (\<lambda>r. r\<lparr>
          kr_gex_sizes := Some \<lparr>gs_min = gx_min (gc_request st), gs_n = gx_n (gc_request st),
            gs_max = gx_max (gc_request st), gs_group_bits = group_bits st, gs_bits_set = e_bits_set st\<rparr>,
          kr_phase := GexClientAwaitReply st\<rparr>))
        (act_ok (advance [out]))))))"

text \<open>The hash of a group exchange depends on which of its two names was negotiated.\<close>

definition gex_digest :: "'g kex_runner \<Rightarrow> kex_digest" where
  "gex_digest r = (if kr_backend r = Some GexSha1 then KSha1 else KSha256)"

definition handle_gex_init :: "('s, 'e, 'd, 'r, 'g) kex_env \<Rightarrow> bytes \<Rightarrow> host_key option \<Rightarrow>
    bytes \<Rightarrow> bytes \<Rightarrow> ('s, 'e, 'd, 'r, 'g, kex_advance) kact" where
  "handle_gex_init E payload host_key vc vs =
     act_bind (act_res (ok_or host_key (Protocol ''server requires host key''))) (\<lambda>hk.
     act_get (\<lambda>s. let r = ks_runner s in
     act_then (on_runner (kr_phase_update (\<lambda>_. Idle)))
     (act_bind (act_res (case kr_phase r of GexServerAwaitInit request grp \<Rightarrow> Ok (request, grp)
                          | _ \<Rightarrow> Err (Protocol ''GEX_INIT without prior group''))) (\<lambda>(request, grp).
      act_bind (with_rng (\<lambda>rng. gex_server_reply (ke_kex E) (ke_hash E) (gex_digest r) rng request grp payload hk
                                  (kex_context_of r vc vs)))
        (\<lambda>out. finish_exchange E (sr_kex out) None [sr_payload out])))))"

definition handle_gex_reply :: "('s, 'e, 'd, 'r, 'g) kex_env \<Rightarrow> bytes \<Rightarrow> host_key_verify option \<Rightarrow>
    bytes \<Rightarrow> bytes \<Rightarrow> ('s, 'e, 'd, 'r, 'g, kex_advance) kact" where
  "handle_gex_reply E payload verifier vc vs =
     act_bind (act_res (ok_or verifier (Protocol ''client requires host-key verifier''))) (\<lambda>vf.
     act_get (\<lambda>s. let r = ks_runner s in
     act_then (on_runner (kr_phase_update (\<lambda>_. Idle)))
     (act_bind (act_res (case kr_phase r of GexClientAwaitReply st \<Rightarrow> Ok st
                          | _ \<Rightarrow> Err (Protocol ''GEX_REPLY without prior init''))) (\<lambda>st.
      act_bind (act_res (gex_client_finish (ke_kex E) (ke_hash E) (gex_digest r) st payload vf (kex_context_of r vc vs)))
        (\<lambda>out. finish_exchange E out (Some (host_key_and_sig payload)) [])))))"

definition handle_peer_newkeys :: "('s, 'e, 'd, 'r, 'g) kex_env \<Rightarrow> ('s, 'e, 'd, 'r, 'g, kex_advance) kact" where
  "handle_peer_newkeys E =
     act_then (on_runner (kr_peer_newkeys_update (\<lambda>_. True)))
    (act_then (act_maybe_install E)
    (act_then (on_runner (kr_phase_update (\<lambda>_. Completed)))
    (act_then (on_runner (\<lambda>r. if kr_first_kex r \<and> kr_ext_info_enabled r
                              then r\<lparr>kr_accept_ext_info_now := True\<rparr> else r))
     (act_get (\<lambda>s. let r = ks_runner s in
       case (if kr_first_kex r \<and> kr_ext_info_send r then kr_outbound_ext_info r else None) of
         None \<Rightarrow> act_ok (advance [])
       | Some ext \<Rightarrow> act_then (on_runner (kr_outbound_ext_info_update (\<lambda>_. None)))
                       (act_ok (advance [ext_info_encode ext])))))))"

section \<open>Dispatch\<close>

definition kex_specific :: "u8 \<Rightarrow> bool" where
  "kex_specific msg \<longleftrightarrow> 30 \<le> msg \<and> msg \<le> 49"

fun discard_phase :: "'g phase \<Rightarrow> bool" where
  "discard_phase (Negotiated _) = True"
| "discard_phase (GexClientAwaitGroup _) = True"
| "discard_phase (GexServerAwaitInit _ _) = True"
| "discard_phase _ = False"

definition newkeys_or_unexpected :: "u8 \<Rightarrow> ('st, 'a) act" where
  "newkeys_or_unexpected msg =
     act_err (Protocol (if msg = SSH_MSG_NEWKEYS then ''NEWKEYS before KEX completion''
                        else ''unexpected message during KEX''))"

definition dispatch :: "('s, 'e, 'd, 'r, 'g) kex_env \<Rightarrow> bytes \<Rightarrow> u8 \<Rightarrow> host_key option \<Rightarrow> host_key_verify option \<Rightarrow>
    bytes \<Rightarrow> bytes \<Rightarrow> ('s, 'e, 'd, 'r, 'g, kex_advance) kact" where
  "dispatch E payload msg host_key verifier vc vs =
     act_get (\<lambda>s. let r = ks_runner s; gex = uses_gex r in
       case kr_phase r of
         SentKexInit \<Rightarrow>
           if msg = SSH_MSG_KEXINIT then handle_peer_kexinit E (seq_in (ks_codec s)) payload
           else act_err (Protocol ''unexpected message during KEX'')
       | Negotiated _ \<Rightarrow>
           if msg = SSH_MSG_KEX_ECDH_INIT \<and> kr_role r = Server \<and> \<not> gex
           then handle_kex_init_message E payload host_key vc vs
           else if msg = SSH_MSG_KEX_ECDH_REPLY \<and> kr_role r = Client \<and> \<not> gex
           then handle_kex_reply_message E payload verifier vc vs
           else if (msg = SSH_MSG_KEX_DH_GEX_REQUEST \<or> msg = SSH_MSG_KEX_DH_GEX_REQUEST_OLD)
                     \<and> kr_role r = Server \<and> gex
           then handle_gex_request E payload
           else newkeys_or_unexpected msg
       | GexClientAwaitGroup _ \<Rightarrow>
           if msg = SSH_MSG_KEX_DH_GEX_GROUP then handle_gex_group E payload else newkeys_or_unexpected msg
       | GexServerAwaitInit _ _ \<Rightarrow>
           if msg = SSH_MSG_KEX_DH_GEX_INIT then handle_gex_init E payload host_key vc vs
           else newkeys_or_unexpected msg
       | GexClientAwaitReply _ \<Rightarrow>
           if msg = SSH_MSG_KEX_DH_GEX_REPLY then handle_gex_reply E payload verifier vc vs
           else newkeys_or_unexpected msg
       | AwaitingPeerNewKeys \<Rightarrow>
           if msg = SSH_MSG_NEWKEYS then handle_peer_newkeys E
           else act_err (Protocol ''unexpected message during KEX'')
       | Idle \<Rightarrow> act_err (Protocol ''unexpected message during KEX'')
       | Completed \<Rightarrow> act_err (Protocol ''unexpected message during KEX''))"

definition runner_on_packet :: "('s, 'e, 'd, 'r, 'g) kex_env \<Rightarrow> bytes \<Rightarrow> host_key option \<Rightarrow>
    host_key_verify option \<Rightarrow> bytes \<Rightarrow> bytes \<Rightarrow> ('s, 'e, 'd, 'r, 'g, kex_advance) kact" where
  "runner_on_packet E payload host_key verifier vc vs =
     (case payload of
        [] \<Rightarrow> act_err (Format ''empty payload'')
      | msg # _ \<Rightarrow>
          act_then (on_runner (kr_accept_ext_info_now_update (\<lambda>_. False)))
          (act_get (\<lambda>s. let r = ks_runner s in
             if kr_pending_discard r \<and> discard_phase (kr_phase r) \<and> kex_specific msg
             then act_then (on_runner (kr_pending_discard_update (\<lambda>_. False))) (act_ok (advance []))
             else if kr_strict_kex r \<and> kr_phase r \<noteq> Idle \<and> kr_phase r \<noteq> Completed
                     \<and> \<not> (msg = 20 \<or> msg = 21 \<or> kex_specific msg)
             then act_err (Protocol ''non-KEX message during strict-kex window'')
             else act_bind (dispatch E payload msg host_key verifier vc vs) (\<lambda>adv.
                    act_get (\<lambda>s'. act_ok (adv\<lparr>ka_completed := is_completed (ks_runner s')\<rparr>))))))"

end
