(* ===== verification/KexProps.thy ===== *)
theory KexProps
  imports Runner
begin

text \<open>
  What the key-exchange methods promise: a client and a server that run a method on each other's
  messages end with the same shared secret and the same exchange hash, and a client never ends
  without its verifier having accepted a signature on that hash. The contract is a locale, interpreted
  for every two-message method of the runner.
\<close>

section \<open>Laws of the primitives\<close>

text \<open>
  Diffie-Hellman commutes, own public values are well-formed, decapsulation inverts encapsulation (an
  idealisation for ML-KEM, whose decapsulation fails with negligible probability).
\<close>

definition x25519_ok :: "('r, 'g) kex_prims \<Rightarrow> bool" where
  "x25519_ok X \<longleftrightarrow> (\<forall>s. length (x_public X s) = 32)
     \<and> (\<forall>a b. x_dh X a (x_public X b) = x_dh X b (x_public X a))"

definition ecdh_ok :: "('r, 'g) kex_prims \<Rightarrow> bool" where
  "ecdh_ok X \<longleftrightarrow> (\<forall>c s. Some (length (ec_public X c s)) = sec1_point_len c)
     \<and> (\<forall>c a b. \<exists>pa pb. ec_from_sec1 X c (ec_public X c a) = Some pa
           \<and> ec_from_sec1 X c (ec_public X c b) = Some pb \<and> ec_dh X c a pb = ec_dh X c b pa)"

definition same_group :: "('r, 'g) kex_prims \<Rightarrow> 'g \<Rightarrow> 'g \<Rightarrow> bool" where
  "same_group X g g' \<longleftrightarrow> dh_p_bytes X g = dh_p_bytes X g' \<and> dh_g_bytes X g = dh_g_bytes X g'"

definition dh_ok :: "('r, 'g) kex_prims \<Rightarrow> bool" where
  "dh_ok X \<longleftrightarrow> (\<forall>g s. length (dh_public X g s) < 2 ^ 31)
     \<and> (\<forall>g b. dh_from_bytes X g (strip_zeros b) = dh_from_bytes X g b)
     \<and> (\<forall>g g' a b. same_group X g g' \<longrightarrow> (\<exists>pa pb. dh_from_bytes X g' (dh_public X g a) = Some pa
           \<and> dh_from_bytes X g (dh_public X g' b) = Some pb \<and> dh_shared X g a pb = dh_shared X g' b pa))
     \<and> (\<forall>g. length (dh_p_bytes X g) < 2 ^ 31 \<and> length (dh_g_bytes X g) < 2 ^ 31)
     \<and> (\<forall>g n. \<exists>g'. dh_custom X (strip_zeros (dh_p_bytes X g)) (strip_zeros (dh_g_bytes X g)) n = Some g'
           \<and> same_group X g g')
     \<and> (\<forall>p. dh_custom X p [2] 256 \<noteq> None)"

definition kem_ok :: "('r \<Rightarrow> (bytes \<times> bytes) \<times> 'r) \<Rightarrow> (bytes \<Rightarrow> bool) \<Rightarrow> (bytes \<Rightarrow> 'r \<Rightarrow> (bytes \<times> bytes) \<times> 'r) \<Rightarrow>
    (bytes \<Rightarrow> bytes \<Rightarrow> bytes) \<Rightarrow> nat \<Rightarrow> nat \<Rightarrow> bool" where
  "kem_ok generate valid encaps decaps ek_len ct_len \<longleftrightarrow>
     (\<forall>r dk ek r'. generate r = ((dk, ek), r') \<longrightarrow> length ek = ek_len \<and> valid ek
        \<and> (\<forall>r1 ct k r2. encaps ek r1 = ((ct, k), r2) \<longrightarrow> length ct = ct_len \<and> decaps dk ct = k))"

definition kex_prims_ok :: "('r, 'g) kex_prims \<Rightarrow> bool" where
  "kex_prims_ok X \<longleftrightarrow> x25519_ok X \<and> ecdh_ok X \<and> dh_ok X
     \<and> kem_ok (mlkem_generate X) (mlkem_valid X) (mlkem_encaps X) (mlkem_decaps X) EK_PQ_LEN CT_PQ_LEN
     \<and> kem_ok (\<lambda>r. apfst prod.swap (sntrup_keypair X r)) (\<lambda>_. True) (sntrup_encaps X)
         (\<lambda>sk ct. sntrup_decaps X ct sk) SNTRUP_PK SNTRUP_CT"

definition hk_ok :: "host_key \<Rightarrow> bool" where
  "hk_ok hk \<longleftrightarrow> fits_u32 (public_blob hk) \<and> (\<forall>h sig. hk_sign hk h = Ok sig \<longrightarrow> fits_u32 sig)"

section \<open>The messages\<close>

lemma strip_leading_zero_eq: "strip_leading_zero m = strip_zeros m"
  by (simp add: strip_leading_zero_def strip_zeros_def)

lemma encode_mpint_into_eq: "encode_mpint_into m buf = buf @ enc_string (mpint_body m)"
  by (auto simp: encode_mpint_into_def strip_leading_zero_eq mpint_body_def enc_string_def split: list.splits)

lemma eh_write_mpint_eq: "eh_write_mpint m h = h @ enc_string (mpint_body m)"
  by (auto simp: eh_write_mpint_def eh_write_u32_def mpint_body_def strip_zeros_def [symmetric] enc_string_def
      Let_def split: list.splits)

lemma mpint_bytes_eq: "mpint_bytes m = enc_string (mpint_body m)"
  by (auto simp: mpint_bytes_def mpint_body_def strip_zeros_def [symmetric] enc_string_def Let_def
      split: list.splits)

lemma skip_zeros_none: "hd m \<noteq> 0 \<Longrightarrow> skip_zeros m 0 = 0"
  by (subst skip_zeros.simps) (cases m, auto)

lemma strip_zeros_id: "hd m \<noteq> 0 \<Longrightarrow> strip_zeros m = m"
  by (simp add: strip_zeros_def skip_zeros_none)

lemma skip_zeros_one: "m \<noteq> [] \<Longrightarrow> hd m \<noteq> 0 \<Longrightarrow> skip_zeros (0 # m) 0 = 1"
proof -
  assume "m \<noteq> []" "hd m \<noteq> 0"
  then have "skip_zeros (0 # m) 1 = 1" by (subst skip_zeros.simps) (cases m, auto)
  then show ?thesis by (subst skip_zeros.simps) simp
qed

lemma strip_zeros_zero: "m \<noteq> [] \<Longrightarrow> hd m \<noteq> 0 \<Longrightarrow> strip_zeros (0 # m) = m"
  by (simp add: strip_zeros_def skip_zeros_one)

lemma strip_mpint_body [simp]: "strip_zeros (mpint_body m) = strip_zeros m"
proof (cases "strip_zeros m")
  case Nil
  then show ?thesis by (simp add: mpint_body_def strip_zeros_def)
next
  case (Cons b bs)
  then have "b \<noteq> 0" by (rule strip_zeros_hd)
  then have "strip_zeros (b # bs) = b # bs" "strip_zeros (0 # b # bs) = b # bs"
    using strip_zeros_zero [of "b # bs"] by (simp_all add: strip_zeros_id)
  with Cons show ?thesis by (simp add: mpint_body_def)
qed

lemma mpint_body_cong: "strip_zeros m = strip_zeros m' \<Longrightarrow> mpint_body m = mpint_body m'"
  by (simp add: mpint_body_def)

lemma strip_strip [simp]: "strip_zeros (strip_zeros m) = strip_zeros m"
proof (cases "strip_zeros m")
  case Nil
  then show ?thesis by (simp add: strip_zeros_def)
next
  case (Cons b bs)
  then show ?thesis using strip_zeros_hd by (metis list.sel(1) strip_zeros_id)
qed

lemma mpint_body_idem [simp]: "mpint_body (mpint_body m) = mpint_body m" "mpint_body (strip_zeros m) = mpint_body m"
  by (rule mpint_body_cong, simp)+

lemma read_init_back: "fits_u32 x \<Longrightarrow> read_init msg e (msg # enc_string x) = Ok x"
  using strc.last_back [of x "[msg]" rd_ok] strc.rd_back [of x "[msg]" "[]"]
  by (simp add: read_init_def reader_new_rd_at wire_simps small_def fits_u32_def USIZE_LIMIT_def)

lemma reply_payload_eq: "reply_payload msg k_s v sig = msg # enc_string k_s @ v @ enc_string sig"
  by (simp add: reply_payload_def enc_string_def)

lemma three_strings_small:
  "fits_u32 a \<Longrightarrow> fits_u32 b \<Longrightarrow> fits_u32 c \<Longrightarrow> small (m # enc_string a @ enc_string b @ enc_string c)"
  by (simp add: small_def fits_u32_def USIZE_LIMIT_def)

lemma read_reply_back:
  assumes "fits_u32 k_s" "fits_u32 v" "fits_u32 sig" "check v = Ok ()"
  shows "read_reply msg e check (msg # enc_string k_s @ enc_string v @ enc_string sig) = Ok (k_s, v, sig)"
  using three_strings_small [OF assms(1-3), of msg] assms
  by (simp add: read_reply_def reader_new_rd_at wire_simps)

lemma host_key_and_sig_back:
  assumes "fits_u32 k_s" "fits_u32 v" "fits_u32 sig"
  shows "host_key_and_sig (msg # enc_string k_s @ enc_string v @ enc_string sig) = Some (k_s, sig)"
  using three_strings_small [OF assms, of msg] assms
  by (simp add: host_key_and_sig_def reader_new_rd_at wire_simps)

lemma ok_or_eq_Ok [simp]: "ok_or x e = Ok y \<longleftrightarrow> x = Some y"
  by (cases x) (auto simp: ok_or_def)

lemma ok_or_Some [simp]: "ok_or (Some y) e = Ok y"
  by (simp add: ok_or_def)

lemma len_check_Ok [simp]: "len_check n e b = Ok () \<longleftrightarrow> length b = n"
  by (simp add: len_check_def)

section \<open>The contract of a two-message method\<close>

text \<open>The client, given the server's reply, ends with the server's \<open>(K, H)\<close> once the signature is accepted.\<close>

definition confirms :: "host_key \<Rightarrow> (bytes \<Rightarrow> host_key_verify \<Rightarrow> kex_output res) \<Rightarrow> server_reply_out \<Rightarrow> bool" where
  "confirms hk fin out \<longleftrightarrow> (\<exists>sig. hk_sign hk (ko_h (sr_kex out)) = Ok sig
     \<and> (\<forall>vf. vf (ko_h (sr_kex out)) sig = Ok () \<longrightarrow> fin (sr_payload out) vf = Ok (sr_kex out)))"

text \<open>The verifier has accepted the signature in the reply on the hash the client ends with.\<close>

definition vouched :: "bytes \<Rightarrow> host_key_verify \<Rightarrow> kex_output \<Rightarrow> bool" where
  "vouched reply vf ko \<longleftrightarrow> (\<exists>k_s sig. host_key_and_sig reply = Some (k_s, sig) \<and> vf (ko_h ko) sig = Ok ())"

text \<open>A verifier that knows the host key: it accepts what the key signs.\<close>

definition accepts :: "host_key_verify \<Rightarrow> host_key \<Rightarrow> bool" where
  "accepts vf hk \<longleftrightarrow> (\<forall>h sig. hk_sign hk h = Ok sig \<longrightarrow> vf h sig = Ok ())"

locale kex_method =
  fixes usable :: bool
    and init :: "'r \<Rightarrow> 'r \<times> ('st \<times> bytes) res"
    and reply :: "'r \<Rightarrow> bytes \<Rightarrow> host_key \<Rightarrow> kex_context \<Rightarrow> 'r \<times> server_reply_out res"
    and finish :: "'st \<Rightarrow> bytes \<Rightarrow> host_key_verify \<Rightarrow> kex_context \<Rightarrow> kex_output res"
  assumes init_starts: "usable \<Longrightarrow> \<exists>r' st p. init r = (r', Ok (st, SSH_MSG_KEX_ECDH_INIT # p))"
    and reply_starts: "reply r p hk ctx = (r', Ok out) \<Longrightarrow> \<exists>q. sr_payload out = SSH_MSG_KEX_ECDH_REPLY # q"
    and agree: "usable \<Longrightarrow> hk_ok hk \<Longrightarrow> init r1 = (r1', Ok (st, p)) \<Longrightarrow> reply r2 p hk ctx = (r2', Ok out) \<Longrightarrow>
      confirms hk (\<lambda>b vf. finish st b vf ctx) out"
    and authentic: "finish st b vf ctx = Ok ko \<Longrightarrow> vouched b vf ko"
begin

lemma completes:
  assumes "usable" "hk_ok hk" "accepts vf hk" "init r1 = (r1', Ok (st, p))" "reply r2 p hk ctx = (r2', Ok out)"
  shows "finish st (sr_payload out) vf ctx = Ok (sr_kex out)" "vouched (sr_payload out) vf (sr_kex out)"
proof -
  show "finish st (sr_payload out) vf ctx = Ok (sr_kex out)"
    using agree [OF assms(1,2,4,5)] assms(3) by (auto simp: confirms_def accepts_def)
  then show "vouched (sr_payload out) vf (sr_kex out)" by (rule authentic)
qed

end

lemma read_reply_vouched:
  "read_reply msg e check b = Ok (k_s, q_s, sig) \<Longrightarrow> host_key_and_sig b = Some (k_s, sig)"
  by (auto simp: read_reply_def host_key_and_sig_def map_res_eq_Ok rd_bind_eq_Ok rd_bind_Ok bind_res_eq_Ok
      split: if_splits)

lemma enc_string_32: "length b = 32 \<Longrightarrow> u32_to_be 32 @ b = enc_string b"
  by (simp add: enc_string_def)

lemma fits_32: "length b < 2 ^ 32 \<Longrightarrow> fits_u32 b"
  by (simp add: fits_u32_def)

lemma signed: "hk_ok hk \<Longrightarrow> hk_sign hk h = Ok sig \<Longrightarrow> fits_u32 (public_blob hk) \<and> fits_u32 sig"
  by (auto simp: hk_ok_def)

lemma reply_back:
  "fits_u32 k_s \<Longrightarrow> fits_u32 v \<Longrightarrow> fits_u32 sig \<Longrightarrow> check v = Ok () \<Longrightarrow>
     read_reply msg e check (reply_payload msg k_s (enc_string v) sig) = Ok (k_s, v, sig)"
  by (simp add: reply_payload_eq read_reply_back)

lemma curve_agree:
  assumes "x25519_ok X" "hk_ok hk" "curve_client_init X r1 = ((st, p), r1')"
    "curve_server_reply X H r2 p hk ctx = (r2', Ok out)"
  shows "confirms hk (\<lambda>b vf. curve_client_finish X H st b vf ctx) out"
proof -
  obtain s1 s2 r where g: "x_generate X r1 = (s1, r1')" "x_generate X r2 = (s2, r)"
    using assms(3) by (cases "x_generate X r2") (auto simp: curve_client_init_def Let_def split: prod.splits)
  have len: "length (x_public X s) = 32" for s using assms(1) by (simp add: x25519_ok_def)
  have st: "st = \<lparr>cu_secret = s1, cu_q_c = x_public X s1\<rparr>"
    and p: "p = SSH_MSG_KEX_ECDH_INIT # enc_string (x_public X s1)"
    using assms(3) g len by (auto simp: curve_client_init_def Let_def enc_string_32)
  have "fits_u32 (x_public X s)" for s by (simp add: fits_u32_def len)
  with assms(1,2,4) show ?thesis
    by (auto simp: curve_server_reply_def p st g len read_init_back st_try_eq_Ok confirms_def
        curve_client_finish_def enc_string_32 reply_back signed x25519_ok_def Let_def split: prod.splits)
qed

lemma curve_authentic: "curve_client_finish X H st b vf ctx = Ok ko \<Longrightarrow> vouched b vf ko"
  by (auto simp: curve_client_finish_def bind_res_eq_Ok vouched_def Let_def dest: read_reply_vouched)

lemma sec1_len_fits: "Some (length b) = sec1_point_len c \<Longrightarrow> fits_u32 b"
  by (cases c) (simp_all add: sec1_point_len_def fits_u32_def)

lemma point_check_Ok: "Some (length b) = sec1_point_len c \<Longrightarrow> point_check c e b = Ok ()"
  by (cases "sec1_point_len c") (simp_all add: point_check_def)

lemma ecdh_laws:
  assumes "ecdh_ok X"
  shows "Some (length (ec_public X c s)) = sec1_point_len c" "fits_u32 (ec_public X c s)"
    "point_check c e (ec_public X c s) = Ok ()"
  using assms sec1_len_fits [of "ec_public X c s" c] point_check_Ok [of "ec_public X c s" c]
  by (simp_all add: ecdh_ok_def)

lemma ecdh_agree:
  assumes "ecdh_ok X" "hk_ok hk" "ecdh_client_init X c r1 = ((st, p), r1')"
    "ecdh_server_reply X H d c r2 p hk ctx = (r2', Ok out)"
  shows "confirms hk (\<lambda>b vf. ecdh_client_finish X H d c st b vf ctx) out"
proof -
  obtain s1 s2 r where g: "ec_generate X c r1 = (s1, r1')" "ec_generate X c r2 = (s2, r)"
    using assms(3) by (cases "ec_generate X c r2") (auto simp: ecdh_client_init_def Let_def split: prod.splits)
  have st: "st = \<lparr>ec_curve = c, ec_secret = s1, ec_q_c = ec_public X c s1\<rparr>"
    and p: "p = SSH_MSG_KEX_ECDH_INIT # enc_string (ec_public X c s1)"
    using assms(3) g by (auto simp: ecdh_client_init_def Let_def enc_string_def)
  obtain pa pb where "ec_from_sec1 X c (ec_public X c s1) = Some pa"
    "ec_from_sec1 X c (ec_public X c s2) = Some pb" "ec_dh X c s1 pb = ec_dh X c s2 pa"
    using assms(1) unfolding ecdh_ok_def by blast
  with assms(2,4) ecdh_laws [OF assms(1)] show ?thesis
    by (auto simp: ecdh_server_reply_def p st g read_init_back st_try_eq_Ok confirms_def ecdh_client_finish_def
        ecdh_client_finish_inner_def enc_string_def [symmetric] reply_back signed Let_def)
qed

lemma ecdh_authentic: "ecdh_client_finish X H d c st b vf ctx = Ok ko \<Longrightarrow> vouched b vf ko"
  by (auto simp: ecdh_client_finish_def ecdh_client_finish_inner_def bind_res_eq_Ok vouched_def Let_def
      dest: read_reply_vouched split: if_splits)

lemma dh_laws:
  assumes "dh_ok X"
  shows "dh_from_bytes X g (mpint_body b) = dh_from_bytes X g b" "fits_u32 (mpint_body (dh_public X g s))"
proof -
  have "dh_from_bytes X g (strip_zeros (mpint_body b)) = dh_from_bytes X g (mpint_body b)"
    "dh_from_bytes X g (strip_zeros b) = dh_from_bytes X g b" "length (dh_public X g s) < 2 ^ 31"
    using assms unfolding dh_ok_def by blast+
  then show "dh_from_bytes X g (mpint_body b) = dh_from_bytes X g b" "fits_u32 (mpint_body (dh_public X g s))"
    using length_mpint_body [of "dh_public X g s"] by (simp_all add: fits_u32_def)
qed

lemma dh_commutes:
  assumes "dh_ok X" "same_group X g g'"
  obtains pa pb where "dh_from_bytes X g' (dh_public X g a) = Some pa"
    "dh_from_bytes X g (dh_public X g' b) = Some pb" "dh_shared X g a pb = dh_shared X g' b pa"
  using assms unfolding dh_ok_def by blast

lemma dh_agree:
  assumes "dh_ok X" "hk_ok hk" "dh_client_init X g r1 = ((st, p), r1')"
    "dh_server_reply X H d g r2 p hk ctx = (r2', Ok out)"
  shows "confirms hk (\<lambda>b vf. dh_client_finish X H d st b vf ctx) out"
proof -
  obtain s1 s2 r where g: "dh_generate X g r1 = (s1, r1')" "dh_generate X g r2 = (s2, r)"
    using assms(3) by (cases "dh_generate X g r2") (auto simp: dh_client_init_def Let_def split: prod.splits)
  have st: "st = \<lparr>dc_group = g, dc_secret = s1, dc_e_mag = dh_public X g s1\<rparr>"
    and p: "p = SSH_MSG_KEX_ECDH_INIT # enc_string (mpint_body (dh_public X g s1))"
    using assms(3) g by (auto simp: dh_client_init_def Let_def encode_mpint_into_eq)
  obtain pa pb where "dh_from_bytes X g (dh_public X g s1) = Some pa"
    "dh_from_bytes X g (dh_public X g s2) = Some pb" "dh_shared X g s1 pb = dh_shared X g s2 pa"
    by (rule dh_commutes [OF assms(1)]) (simp add: same_group_def)
  with assms(2,4) dh_laws [OF assms(1)] show ?thesis
    by (auto simp: dh_server_reply_def p st g read_init_back st_try_eq_Ok confirms_def dh_client_finish_def
        no_check_def encode_mpint_into_eq reply_back signed dh_hash_def eh_write_mpint_eq Let_def)
qed

lemma dh_authentic: "dh_client_finish X H d st b vf ctx = Ok ko \<Longrightarrow> vouched b vf ko"
  by (auto simp: dh_client_finish_def bind_res_eq_Ok vouched_def Let_def dest: read_reply_vouched)

lemma combine_length: "hash_ok H \<Longrightarrow> length (combine_secrets H d a b) = kex_digest_len d"
  by (simp add: combine_secrets_def hash_ok_def)

lemma hybrid_read:
  assumes "length c = n" "n < 2 ^ 32"
  shows "read_init SSH_MSG_KEX_ECDH_INIT e (hybrid_init_payload n c) = Ok c"
  using assms read_init_back [of c SSH_MSG_KEX_ECDH_INIT e]
  by (simp add: hybrid_init_payload_def enc_string_def fits_u32_def)

lemma hybrid_reply_read:
  assumes "hk_ok hk" "hk_sign hk h = Ok sig" "length s_reply = n" "n < 2 ^ 32"
  shows "read_reply SSH_MSG_KEX_ECDH_REPLY e (len_check n e')
    (sr_payload (hybrid_out (public_blob hk) s_reply sig k h)) = Ok (public_blob hk, s_reply, sig)"
  unfolding hybrid_out_def enc_string_def [symmetric]
  using signed [OF assms(1,2)] assms(3,4) by (simp add: reply_back fits_u32_def)

lemma kem_laws:
  assumes "kem_ok generate valid encaps decaps n m" "generate r = ((dk, ek), r')"
  shows "length ek = n" "valid ek" "encaps ek r1 = ((ct, k), r2) \<Longrightarrow> length ct = m \<and> decaps dk ct = k"
  using assms unfolding kem_ok_def by blast+

lemma prims_laws:
  assumes "kex_prims_ok X"
  shows "length (x_public X s) = 32" "x_dh X a (x_public X b) = x_dh X b (x_public X a)" "ecdh_ok X" "dh_ok X"
    "x25519_ok X"
    "kem_ok (mlkem_generate X) (mlkem_valid X) (mlkem_encaps X) (mlkem_decaps X) EK_PQ_LEN CT_PQ_LEN"
    "kem_ok (\<lambda>r. apfst prod.swap (sntrup_keypair X r)) (\<lambda>_. True) (sntrup_encaps X)
         (\<lambda>sk ct. sntrup_decaps X ct sk) SNTRUP_PK SNTRUP_CT"
  using assms unfolding kex_prims_ok_def x25519_ok_def by blast+

text \<open>The end of a hybrid exchange: the reply reads back, and the client's half gives the same secret.\<close>

lemma hybrid_confirms:
  assumes "hk_ok hk" "hk_sign hk h = Ok sig" "length s_reply = n" "n < 2 ^ 32"
    and "out = hybrid_out (public_blob hk) s_reply sig k h"
    and "\<And>b vf. fin b vf = bind_res (read_reply SSH_MSG_KEX_ECDH_REPLY e (len_check n e') b) (F vf)"
    and "\<And>vf. vf h sig = Ok () \<Longrightarrow>
      F vf (public_blob hk, s_reply, sig) = Ok \<lparr>ko_k = k_string_bytes k, ko_h = h\<rparr>"
  shows "confirms hk fin out"
  using assms(2,7) hybrid_reply_read [OF assms(1-4)]
  by (auto simp: confirms_def assms(5,6)) (simp_all add: hybrid_out_def)

lemma mlx_agree:
  assumes "kex_prims_ok X" "hk_ok hk" "mlx_client_init X r1 = ((st, p), r1')"
    "mlx_server_reply X H r2 p hk ctx = (r2', Ok out)"
  shows "confirms hk (\<lambda>b vf. mlx_client_finish X H st b vf ctx) out"
proof -
  note laws = prims_laws [OF assms(1)]
  obtain s1 r where g1: "x_generate X r1 = (s1, r)" by fastforce
  obtain dk ek where k: "mlkem_generate X r = ((dk, ek), r1')"
    using assms(3) g1 by (auto simp: mlx_client_init_def Let_def split: prod.splits)
  obtain s2 r3 ct kp r4 where g2: "x_generate X r2 = (s2, r3)" "mlkem_encaps X ek r3 = ((ct, kp), r4)"
    by (metis surj_pair)
  note kem = kem_laws [OF laws(6) k] kem_laws(3) [OF laws(6) k g2(2)]
  let ?c = "ek @ x_public X s1" and ?s = "ct @ x_public X s2"
  have st: "st = \<lparr>hy_ec_secret = s1, hy_pq_secret = dk, hy_c_init = ?c\<rparr>"
    and p: "p = hybrid_init_payload (EK_PQ_LEN + X25519_PUB_LEN) ?c"
    using assms(3) g1 k by (auto simp: mlx_client_init_def Let_def)
  have lens: "length ?c = EK_PQ_LEN + X25519_PUB_LEN" "length ?s = CT_PQ_LEN + X25519_PUB_LEN"
    using kem laws(1) by (simp_all add: X25519_PUB_LEN_def)
  obtain k_ecdh sig where x: "x_dh X s2 (x_public X s1) = Some k_ecdh"
    "hk_sign hk (hybrid_hash H KSha256 ctx (public_blob hk) ?c ?s (combine_secrets H KSha256 kp k_ecdh)) = Ok sig"
    "out = hybrid_out (public_blob hk) ?s sig (combine_secrets H KSha256 kp k_ecdh)
       (hybrid_hash H KSha256 ctx (public_blob hk) ?c ?s (combine_secrets H KSha256 kp k_ecdh))"
    using assms(4) kem laws(1) g2 hybrid_read [OF lens(1)]
    by (auto simp: mlx_server_reply_def p st_try_eq_Ok Let_def hybrid_len_defs)
  show ?thesis
    by (rule hybrid_confirms [OF assms(2) x(2) lens(2) _ x(3) mlx_client_finish_def])
      (use kem x(1) [unfolded laws(2) [of s2 s1]] in \<open>simp_all add: st hybrid_len_defs Let_def\<close>)
qed

lemma mlx_authentic: "mlx_client_finish X H st b vf ctx = Ok ko \<Longrightarrow> vouched b vf ko"
  by (auto simp: mlx_client_finish_def bind_res_eq_Ok vouched_def Let_def dest: read_reply_vouched)

lemma snx_agree:
  assumes "kex_prims_ok X" "hk_ok hk" "snx_client_init X r1 = ((st, p), r1')"
    "snx_server_reply X H r2 p hk ctx = (r2', Ok out)"
  shows "confirms hk (\<lambda>b vf. snx_client_finish X H st b vf ctx) out"
proof -
  note laws = prims_laws [OF assms(1)]
  obtain s1 r where g1: "x_generate X r1 = (s1, r)" by fastforce
  obtain sk pk where k: "sntrup_keypair X r = ((pk, sk), r1')"
    using assms(3) g1 by (auto simp: snx_client_init_def Let_def split: prod.splits)
  obtain s2 r3 ct kp r4 where g2: "sntrup_encaps X pk r2 = ((ct, kp), r3)" "x_generate X r3 = (s2, r4)"
    by (metis surj_pair)
  have "apfst prod.swap (sntrup_keypair X r) = ((sk, pk), r1')" by (simp add: k)
  note kem = kem_laws [OF laws(7) this] kem_laws(3) [OF laws(7) this g2(1)]
  let ?c = "pk @ x_public X s1" and ?s = "ct @ x_public X s2"
  have st: "st = \<lparr>hy_ec_secret = s1, hy_pq_secret = sk, hy_c_init = ?c\<rparr>"
    and p: "p = hybrid_init_payload (SNTRUP_PK + X25519_PUB_LEN) ?c"
    using assms(3) g1 k by (auto simp: snx_client_init_def Let_def)
  have lens: "length ?c = SNTRUP_PK + X25519_PUB_LEN" "length ?s = SNTRUP_CT + X25519_PUB_LEN"
    using kem laws(1) by (simp_all add: X25519_PUB_LEN_def)
  obtain k_ecdh sig where x: "x_dh X s2 (x_public X s1) = Some k_ecdh"
    "hk_sign hk (hybrid_hash H KSha512 ctx (public_blob hk) ?c ?s (combine_secrets H KSha512 kp k_ecdh)) = Ok sig"
    "out = hybrid_out (public_blob hk) ?s sig (combine_secrets H KSha512 kp k_ecdh)
       (hybrid_hash H KSha512 ctx (public_blob hk) ?c ?s (combine_secrets H KSha512 kp k_ecdh))"
    using assms(4) kem laws(1) g2 hybrid_read [OF lens(1)]
    by (auto simp: snx_server_reply_def p st_try_eq_Ok Let_def hybrid_len_defs)
  show ?thesis
    by (rule hybrid_confirms [OF assms(2) x(2) lens(2) _ x(3) snx_client_finish_def])
      (use kem x(1) [unfolded laws(2) [of s2 s1]] in \<open>simp_all add: st hybrid_len_defs Let_def\<close>)
qed

lemma snx_authentic: "snx_client_finish X H st b vf ctx = Ok ko \<Longrightarrow> vouched b vf ko"
  by (auto simp: snx_client_finish_def bind_res_eq_Ok vouched_def Let_def dest: read_reply_vouched)

lemma mln_agree:
  assumes "kex_prims_ok X" "hk_ok hk" "mln_client_init X r1 = ((st, p), r1')"
    "mln_server_reply X H r2 p hk ctx = (r2', Ok out)"
  shows "confirms hk (\<lambda>b vf. mln_client_finish X H st b vf ctx) out"
proof -
  note laws = prims_laws [OF assms(1)]
  obtain s1 r where g1: "ec_generate X P256 r1 = (s1, r)" by fastforce
  obtain dk ek where k: "mlkem_generate X r = ((dk, ek), r1')"
    using assms(3) g1 by (auto simp: mln_client_init_def Let_def split: prod.splits)
  obtain s2 r3 ct kp r4 where g2: "ec_generate X P256 r2 = (s2, r3)" "mlkem_encaps X ek r3 = ((ct, kp), r4)"
    by (metis surj_pair)
  note kem = kem_laws [OF laws(6) k] kem_laws(3) [OF laws(6) k g2(2)]
  let ?c = "ek @ ec_public X P256 s1" and ?s = "ct @ ec_public X P256 s2"
  have st: "st = \<lparr>hy_ec_secret = s1, hy_pq_secret = dk, hy_c_init = ?c\<rparr>"
    and p: "p = hybrid_init_payload (EK_PQ_LEN + P256_POINT_LEN) ?c"
    using assms(3) g1 k by (auto simp: mln_client_init_def Let_def)
  have ec: "length (ec_public X P256 s) = P256_POINT_LEN" for s
    using ecdh_laws(1) [OF laws(3), of P256 s] by (simp add: sec1_point_len_def P256_POINT_LEN_def)
  have lens: "length ?c = EK_PQ_LEN + P256_POINT_LEN" "length ?s = CT_PQ_LEN + P256_POINT_LEN"
    using kem ec by simp_all
  obtain pa pb where pt: "ec_from_sec1 X P256 (ec_public X P256 s1) = Some pa"
    "ec_from_sec1 X P256 (ec_public X P256 s2) = Some pb" "ec_dh X P256 s1 pb = ec_dh X P256 s2 pa"
    using laws(3) unfolding ecdh_ok_def by blast
  obtain k_ecdh sig where x: "ec_dh X P256 s2 pa = Some k_ecdh"
    "hk_sign hk (hybrid_hash H KSha256 ctx (public_blob hk) ?c ?s (combine_secrets H KSha256 kp k_ecdh)) = Ok sig"
    "out = hybrid_out (public_blob hk) ?s sig (combine_secrets H KSha256 kp k_ecdh)
       (hybrid_hash H KSha256 ctx (public_blob hk) ?c ?s (combine_secrets H KSha256 kp k_ecdh))"
    using assms(4) kem ec g2 pt hybrid_read [OF lens(1)]
    by (auto simp: mln_server_reply_def p256_agree_def p st_try_eq_Ok Let_def hybrid_len_defs)
  show ?thesis
    by (rule hybrid_confirms [OF assms(2) x(2) lens(2) _ x(3) mln_client_finish_def])
      (use kem pt x(1) in \<open>simp_all add: st p256_agree_def hybrid_len_defs Let_def\<close>)
qed

lemma mln_authentic: "mln_client_finish X H st b vf ctx = Ok ko \<Longrightarrow> vouched b vf ko"
  by (auto simp: mln_client_finish_def bind_res_eq_Ok vouched_def Let_def dest: read_reply_vouched)

section \<open>Every two-message method keeps the contract\<close>

definition two_message :: "kex_backend \<Rightarrow> bool" where
  "two_message be \<longleftrightarrow> be \<noteq> Gex \<and> be \<noteq> GexSha1"

lemma init_done_Ok: "init_done C x = (r', Ok (st, p)) \<longleftrightarrow> (\<exists>s. x = ((s, p), r') \<and> st = C s)"
  by (cases x) (auto simp: init_done_def)

lemma hex_pairs_ok: "even (length b) \<Longrightarrow> \<exists>p. hex_pairs b = Ok p"
  by (induction b rule: hex_pairs.induct) auto

lemma group1_ok: "dh_ok X \<Longrightarrow> \<exists>g. group1 X = Ok g"
proof -
  assume "dh_ok X"
  moreover obtain p where "hex_pairs GROUP1_P = Ok p"
    using hex_pairs_ok [of GROUP1_P] by (auto simp: GROUP1_P_def lit_def)
  ultimately show ?thesis by (auto simp: group1_def dh_ok_def split: option.split)
qed

lemmas client_init_defs = curve_client_init_def ecdh_client_init_def dh_client_init_def mlx_client_init_def
  mln_client_init_def snx_client_init_def hybrid_init_payload_def encode_mpint_into_eq

lemma init_for_starts:
  assumes "kex_prims_ok X" "two_message be"
  shows "\<exists>r' st p. client_init_for X neg be r = (r', Ok (st, SSH_MSG_KEX_ECDH_INIT # p))"
  using assms(2) group1_ok [OF prims_laws(4) [OF assms(1)]]
  by (cases be) (auto simp: two_message_def init_done_def client_init_defs Let_def st_try_def split: prod.splits)

lemmas server_reply_defs = curve_server_reply_def ecdh_server_reply_def dh_server_reply_def mlx_server_reply_def
  mln_server_reply_def snx_server_reply_def hybrid_out_def reply_payload_def

lemma reply_for_starts:
  "server_reply_for X H be r p hk ctx = (r', Ok out) \<Longrightarrow> \<exists>q. sr_payload out = SSH_MSG_KEX_ECDH_REPLY # q"
  by (cases be) (auto simp: server_reply_defs st_try_eq_Ok Let_def case_prod_unfold split: if_splits)

lemma finish_for_vouched: "client_finish_for X H be st b vf ctx = Ok ko \<Longrightarrow> vouched b vf ko"
  by (cases be; cases st)
    (auto simp: state_mismatch_def ecdh_finish_with_def dh_finish_with_def
      intro: curve_authentic ecdh_authentic dh_authentic mlx_authentic mln_authentic snx_authentic)

lemma for_agree:
  assumes "kex_prims_ok X" "hk_ok hk" "client_init_for X neg be r1 = (r1', Ok (st, p))" "two_message be"
    "server_reply_for X H be r2 p hk ctx = (r2', Ok out)"
  shows "confirms hk (\<lambda>b vf. client_finish_for X H be st b vf ctx) out"
  using assms(3,4,5) prims_laws(3-5) [OF assms(1)] assms(2)
  by (cases be) (auto simp: two_message_def init_done_Ok st_try_eq_Ok ecdh_finish_with_def dh_finish_with_def
      intro: curve_agree ecdh_agree dh_agree mlx_agree [OF assms(1)] mln_agree [OF assms(1)] snx_agree [OF assms(1)])

interpretation twom: kex_method "kex_prims_ok X \<and> two_message be" "client_init_for X neg be" "server_reply_for X H be"
  "client_finish_for X H be" for X neg be H
  by unfold_locales (auto intro: init_for_starts reply_for_starts for_agree finish_for_vouched)

section \<open>The group exchange\<close>

lemma gex_request_back: "gex_client_request req = (st, p) \<Longrightarrow> gex_read_request p = Ok req"
  by (auto simp: gex_client_request_def gex_read_request_def reader_new_rd_at wire_simps kex_msg_defs small_def
      USIZE_LIMIT_def)

lemma gex_group_back:
  "fits_u32 (mpint_body p) \<Longrightarrow> fits_u32 (mpint_body g) \<Longrightarrow>
     gex_read_group (encode_mpint_into g (encode_mpint_into p [SSH_MSG_KEX_DH_GEX_GROUP]))
       = Ok (mpint_body p, mpint_body g)"
  by (simp add: gex_read_group_def encode_mpint_into_eq reader_new_rd_at read_mpint_def wire_simps small_def
      fits_u32_def USIZE_LIMIT_def)

lemma mpint_fits: "length m < 2 ^ 31 \<Longrightarrow> fits_u32 (mpint_body m)"
  using length_mpint_body [of m] by (simp add: fits_u32_def)

text \<open>What the client knows after \<open>GEX_GROUP\<close>: a group with the server's modulus and generator.\<close>

lemma gex_client_init_group:
  assumes "dh_ok X" "gex_server_group X p0 sel = Ok (req, g, p1)"
    "gex_client_init X st0 p1 r1 = (r1', Ok (st, p2))"
  obtains g' s where "same_group X g g'" "p2 = SSH_MSG_KEX_DH_GEX_INIT # enc_string (mpint_body (dh_public X g' s))"
    "st = st0\<lparr>gc_p_bytes := strip_zeros (dh_p_bytes X g), gc_g_bytes := strip_zeros (dh_g_bytes X g),
       gc_group := Some g', gc_secret := Some s, gc_e_mag := dh_public X g' s\<rparr>"
proof -
  have len: "length (dh_p_bytes X g) < 2 ^ 31" "length (dh_g_bytes X g) < 2 ^ 31"
    using assms(1) by (simp_all add: dh_ok_def)
  have p1: "p1 = encode_mpint_into (dh_g_bytes X g) (encode_mpint_into (dh_p_bytes X g) [SSH_MSG_KEX_DH_GEX_GROUP])"
    using assms(2) by (auto simp: gex_server_group_def bind_res_eq_Ok Let_def)
  obtain n g' s where c: "dh_custom X (strip_zeros (dh_p_bytes X g)) (strip_zeros (dh_g_bytes X g)) n = Some g'"
    "st = st0\<lparr>gc_p_bytes := strip_zeros (dh_p_bytes X g), gc_g_bytes := strip_zeros (dh_g_bytes X g),
       gc_group := Some g', gc_secret := Some s, gc_e_mag := dh_public X g' s\<rparr>"
    "p2 = SSH_MSG_KEX_DH_GEX_INIT # enc_string (mpint_body (dh_public X g' s))"
    using assms(3) gex_group_back [OF mpint_fits [OF len(1)] mpint_fits [OF len(2)]]
    by (auto simp: gex_client_init_def p1 st_try_eq_Ok Let_def strip_leading_zero_eq encode_mpint_into_eq
        case_prod_unfold split: if_splits)
  moreover have "same_group X g g'"
    using assms(1) c(1) unfolding dh_ok_def by (metis option.inject)
  ultimately show ?thesis using that by blast
qed

lemma gex_agree:
  assumes "dh_ok X" "hk_ok hk" "gex_server_group X p0 sel = Ok (req, g, p1)"
    "gex_client_init X st0 p1 r1 = (r1', Ok (st, p2))" "gc_request st0 = req"
    "gex_server_reply X H d r2 req g p2 hk ctx = (r2', Ok out)"
  shows "confirms hk (\<lambda>b vf. gex_client_finish X H d st b vf ctx) out"
proof -
  obtain g' s1 where c: "same_group X g g'" "p2 = SSH_MSG_KEX_DH_GEX_INIT # enc_string (mpint_body (dh_public X g' s1))"
    "st = st0\<lparr>gc_p_bytes := strip_zeros (dh_p_bytes X g), gc_g_bytes := strip_zeros (dh_g_bytes X g),
       gc_group := Some g', gc_secret := Some s1, gc_e_mag := dh_public X g' s1\<rparr>"
    by (rule gex_client_init_group [OF assms(1,3,4)])
  obtain s2 r where g2: "dh_generate X g r2 = (s2, r)" by fastforce
  obtain pa pb where "dh_from_bytes X g' (dh_public X g s2) = Some pa"
    "dh_from_bytes X g (dh_public X g' s1) = Some pb" "dh_shared X g s2 pb = dh_shared X g' s1 pa"
    by (rule dh_commutes [OF assms(1) c(1)])
  with assms(2,6) dh_laws [OF assms(1)] show ?thesis
    by (auto simp: gex_server_reply_def c(2,3) g2 read_init_back st_try_eq_Ok confirms_def gex_client_finish_def
        no_check_def encode_mpint_into_eq reply_back signed gex_hash_def eh_write_mpint_eq assms(5) Let_def)
qed

lemma gex_vouched: "gex_client_finish X H d st b vf ctx = Ok ko \<Longrightarrow> vouched b vf ko"
  by (auto simp: gex_client_finish_def bind_res_eq_Ok vouched_def Let_def dest: read_reply_vouched)

end
