(* ===== verification/KexClaims.thy ===== *)
theory KexClaims
  imports KexProps
begin

text \<open>
  The properties of the key-exchange methods, and a concrete instance of the primitives on which they
  run: agreement by addition instead of exponentiation.
\<close>

section \<open>An instance of the primitives\<close>

definition pad_to :: "nat \<Rightarrow> bytes \<Rightarrow> bytes" where
  "pad_to n s = take n (s @ replicate n 0)"

lemma length_pad_to [simp]: "length (pad_to n s) = n"
  by (simp add: pad_to_def)

definition add_bytes :: "bytes \<Rightarrow> bytes \<Rightarrow> bytes" where
  "add_bytes a b = map (\<lambda>(x, y). x + y) (zip a b)"

lemma add_bytes_commute: "add_bytes a b = add_bytes b a"
  unfolding add_bytes_def by (subst zip_commute) (simp add: case_prod_unfold comp_def add.commute)

text \<open>The group is named by its modulus, the byte string that stands for its size.\<close>

definition toy_kex :: "(nat, bytes \<times> bytes) kex_prims" where
  "toy_kex =
    \<lparr>x_generate = (\<lambda>r. ([of_nat r], Suc r)),
     x_public = pad_to 32,
     x_dh = (\<lambda>a b. Some (add_bytes (pad_to 32 a) b)),
     ec_generate = (\<lambda>c r. ([of_nat r], Suc r)),
     ec_public = (\<lambda>c. pad_to (the (sec1_point_len c))),
     ec_from_sec1 = (\<lambda>c q. Some q),
     ec_dh = (\<lambda>c a b. Some (add_bytes (pad_to (the (sec1_point_len c)) a) b)),
     dh_generate = (\<lambda>g r. ([of_nat r], Suc r)),
     dh_public = (\<lambda>g. pad_to 4),
     dh_from_bytes = (\<lambda>g b. Some [of_nat (be_value b)]),
     dh_shared = (\<lambda>g a b. Some (add_bytes [of_nat (be_value (pad_to 4 a))] b)),
     dh_custom = (\<lambda>p g n. Some (p, g)),
     dh_p_bytes = (\<lambda>(p, g). strip_zeros (take 2000 p)),
     dh_g_bytes = (\<lambda>(p, g). strip_zeros (take 2000 g)),
     uint_bit_len = (\<lambda>b. 8 * length b),
     group14 = (replicate 256 1, [2]),
     group16 = (replicate 512 1, [2]),
     group18 = (replicate 1024 1, [2]),
     mlkem_generate = (\<lambda>r. (([7], replicate 1184 0), Suc r)),
     mlkem_valid = (\<lambda>ek. True),
     mlkem_encaps = (\<lambda>ek r. ((replicate 1088 0, [9]), Suc r)),
     mlkem_decaps = (\<lambda>dk ct. [9]),
     sntrup_keypair = (\<lambda>r. ((replicate 1158 0, [7]), Suc r)),
     sntrup_encaps = (\<lambda>pk r. ((replicate 1039 0, [9]), Suc r)),
     sntrup_decaps = (\<lambda>ct sk. [9])\<rparr>"

lemma strip_take: "length b \<le> n \<Longrightarrow> strip_zeros (take n (strip_zeros b)) = strip_zeros b"
  by (simp add: strip_zeros_def [of b])
    (metis length_drop diff_le_self le_trans take_all strip_strip strip_zeros_def)

lemma toy_dh_ok: "dh_ok toy_kex"
proof -
  have strip: "strip_zeros (take 2000 (strip_zeros (take 2000 p))) = strip_zeros (take 2000 p)" for p
    by (rule strip_take) simp
  have len: "length (strip_zeros (take 2000 p)) < 2147483648" for p
    using length_drop [of "skip_zeros (take 2000 p) 0" "take 2000 p"] by (simp add: strip_zeros_def)
  show ?thesis
    unfolding dh_ok_def
    by (auto simp: toy_kex_def be_value_strip same_group_def add_bytes_commute strip len)
qed

lemma toy_kex_ok: "kex_prims_ok toy_kex"
proof -
  have "x25519_ok toy_kex" by (simp add: x25519_ok_def toy_kex_def add_bytes_commute)
  moreover have "ecdh_ok toy_kex"
  proof -
    have "\<exists>n. sec1_point_len c = Some n" for c by (cases c) (simp_all add: sec1_point_len_def)
    then show ?thesis unfolding ecdh_ok_def by (auto simp: toy_kex_def add_bytes_commute)
  qed
  ultimately show ?thesis
    using toy_dh_ok by (simp add: kex_prims_ok_def kem_ok_def toy_kex_def hybrid_len_defs)
qed

text \<open>A host key that signs by prefixing a byte, its verifier, and a digest.\<close>

definition toy_key :: host_key where
  "toy_key = \<lparr>public_blob = [1, 2, 3], hk_sign = (\<lambda>h. Ok (pad_to 70 (4 # h)))\<rparr>"

definition toy_verify :: host_key_verify where
  "toy_verify h sig = (if sig = pad_to 70 (4 # h) then Ok () else Err BadSignature)"

lemma toy_key_ok: "hk_ok toy_key" "accepts toy_verify toy_key"
  by (auto simp: hk_ok_def accepts_def toy_key_def toy_verify_def fits_u32_def)

definition toy_hash :: hash_prim where
  "toy_hash d x = pad_to (kex_digest_len d) x"

lemma toy_hash_ok: "hash_ok toy_hash"
  by (simp add: hash_ok_def toy_hash_def)

section \<open>Both ends agree\<close>


definition demo_ctx :: kex_context where
  "demo_ctx = \<lparr>v_c = lit ''SSH-2.0-a'', v_s = lit ''SSH-2.0-b'', i_c = [20, 1], i_s = [20, 2]\<rparr>"



section \<open>The group exchange\<close>

text \<open>The size in bits of a group's modulus, as the client measures it.\<close>

definition group_size :: "('r, 'g) kex_prims \<Rightarrow> 'g \<Rightarrow> nat" where
  "group_size X g = uint_bit_len X (strip_leading_zero (dh_p_bytes X g))"

lemma gex_client_init_range:
  assumes "dh_ok X" "gex_server_group X p0 sel = Ok (req, g, p1)"
  shows "gex_client_init X st0 p1 r1 = (r1', Ok x) \<Longrightarrow>
      unat (gx_min (gc_request st0)) \<le> group_size X g \<and> group_size X g \<le> unat (gx_max (gc_request st0))"
    and "unat (gx_min (gc_request st0)) \<le> group_size X g \<Longrightarrow> group_size X g \<le> unat (gx_max (gc_request st0)) \<Longrightarrow>
      \<exists>r1' st p2. gex_client_init X st0 p1 r1 = (r1', Ok (st, p2))"
proof -
  have len: "length (dh_p_bytes X g) < 2 ^ 31" "length (dh_g_bytes X g) < 2 ^ 31"
    using assms(1) by (simp_all add: dh_ok_def)
  have p1: "p1 = encode_mpint_into (dh_g_bytes X g) (encode_mpint_into (dh_p_bytes X g) [SSH_MSG_KEX_DH_GEX_GROUP])"
    using assms(2) by (auto simp: gex_server_group_def bind_res_eq_Ok Let_def)
  note rd = gex_group_back [OF mpint_fits [OF len(1)] mpint_fits [OF len(2)]]
  show "unat (gx_min (gc_request st0)) \<le> group_size X g \<and> group_size X g \<le> unat (gx_max (gc_request st0))"
    if "gex_client_init X st0 p1 r1 = (r1', Ok x)"
    using that rd by (auto simp: gex_client_init_def p1 st_try_eq_Ok Let_def group_size_def strip_leading_zero_eq
        split: if_splits)
  have custom: "\<exists>g'. dh_custom X (strip_zeros (dh_p_bytes X g)) (strip_zeros (dh_g_bytes X g)) n = Some g'" for n
    using assms(1) unfolding dh_ok_def by blast
  show "\<exists>r1' st p2. gex_client_init X st0 p1 r1 = (r1', Ok (st, p2))"
    if "unat (gx_min (gc_request st0)) \<le> group_size X g" "group_size X g \<le> unat (gx_max (gc_request st0))"
    using that rd custom [of "max 160 (min (group_size X g) 512)"]
    by (auto simp: gex_client_init_def p1 st_try_def Let_def group_size_def strip_leading_zero_eq
        case_prod_unfold)
qed

text \<open>
  The group exchange works: when the three round trips run to the server's reply, the server
  has read the client's own size request, the group it chose lies within the client's bounds, and the
  client ends with the server's shared secret and exchange hash.
\<close>

theorem gex_agreement:
  assumes "kex_prims_ok X" "hk_ok hk" "accepts vf hk" "gex_client_request req = (st0, p0)"
    "gex_server_group X p0 sel = Ok (req', g, p1)" "gex_client_init X st0 p1 r1 = (r1', Ok (st, p2))"
    "gex_server_reply X H d r2 req' g p2 hk ctx = (r2', Ok out)"
  shows "req' = req \<and> g = sel req \<and> unat (gx_min req) \<le> group_size X g \<and> group_size X g \<le> unat (gx_max req)
    \<and> gex_client_finish X H d st (sr_payload out) vf ctx = Ok (sr_kex out)"
proof -
  note dh = prims_laws(4) [OF assms(1)]
  have r: "req' = req" "g = sel req"
    using assms(5) gex_request_back [OF assms(4)] by (auto simp: gex_server_group_def Let_def)
  have st0: "gc_request st0 = req" using assms(4) by (auto simp: gex_client_request_def)
  have "confirms hk (\<lambda>b vf. gex_client_finish X H d st b vf ctx) out"
    using gex_agree [OF dh assms(2,5,6) _ assms(7)] st0 r(1) by simp
  then show ?thesis
    using r gex_client_init_range(1) [OF dh assms(5,6)] st0 assms(3) by (auto simp: confirms_def accepts_def)
qed

definition groups_sized :: "('r, 'g) kex_prims \<Rightarrow> bool" where
  "groups_sized X \<longleftrightarrow> group_size X (group14 X) = 2048 \<and> group_size X (group16 X) = 4096
     \<and> group_size X (group18 X) = 8192"

lemma default_group_min:
  "groups_sized X \<Longrightarrow> gx_min req \<le> 8192 \<Longrightarrow> unat (gx_min req) \<le> group_size X (default_gex_group X req)"
  by (auto simp: default_gex_group_def groups_sized_def word_le_nat_alt word_less_nat_alt)

lemma default_group_max:
  "groups_sized X \<Longrightarrow> gx_min req \<le> 2048 \<Longrightarrow> 2048 \<le> gx_max req \<Longrightarrow>
     group_size X (default_gex_group X req) \<le> unat (gx_max req)"
  by (auto simp: default_gex_group_def groups_sized_def word_le_nat_alt word_less_nat_alt)

lemma default_group_preferred:
  "groups_sized X \<Longrightarrow> unat (gx_n (for_strength need)) \<le> group_size X (default_gex_group X (for_strength need))"
  by (auto simp: default_gex_group_def groups_sized_def for_strength_def Let_def word_le_nat_alt word_less_nat_alt)

text \<open>A range that only the 4096-bit group fits is answered with the 8192-bit one.\<close>

lemma default_group_exceeds_max:
  assumes "groups_sized X"
  shows "group_size X (default_gex_group X \<lparr>gx_min = 3000, gx_n = 5000, gx_max = 6000\<rparr>) = 8192"
    "3000 \<le> group_size X (group16 X) \<and> group_size X (group16 X) \<le> 6000"
  using assms by (auto simp: default_gex_group_def groups_sized_def)

lemma own_request_runs:
  fixes X :: "('r, 'g) kex_prims"
  assumes "kex_prims_ok X" "groups_sized X"
  obtains st0 p0 g p1 r1' st p2 where "gex_client_request (for_strength need) = (st0, p0)"
    "gex_server_group X p0 (default_gex_group X) = Ok (for_strength need, g, p1)"
    "gex_client_init X st0 p1 r1 = (r1', Ok (st, p2))"
proof -
  let ?req = "for_strength need" and ?g = "default_gex_group X (for_strength need)"
  obtain st0 :: "'g gex_client_state" and p0 where c: "gex_client_request ?req = (st0, p0)" by fastforce
  obtain p1 where s: "gex_server_group X p0 (default_gex_group X) = Ok (?req, ?g, p1)"
    using gex_request_back [OF c] by (simp add: gex_server_group_def Let_def)
  have req: "gc_request st0 = ?req" using c by (auto simp: gex_client_request_def)
  have "gx_min ?req \<le> 2048" "2048 \<le> gx_max ?req" "gx_min ?req \<le> 8192" by (simp_all add: for_strength_def Let_def)
  then have "\<exists>r1' st p2. gex_client_init X st0 p1 r1 = (r1', Ok (st, p2))"
    using gex_client_init_range(2) [OF prims_laws(4) [OF assms(1)] s] default_group_min [OF assms(2)]
      default_group_max [OF assms(2)] by (simp add: req)
  with c s that show ?thesis by blast
qed

text \<open>
  A server without a moduli file never answers below a client's minimum, and for the request
  this crate's own client makes, whatever security the negotiated algorithms need, it answers with a
  group of at least the preferred size that the client accepts. It can exceed another client's
  maximum: for 3000 to 6000 bits with 5000 preferred it answers with 8192 although 4096 would do.
\<close>

theorem default_group_suits:
  assumes "kex_prims_ok X" "groups_sized X"
  shows "(gx_min req \<le> 8192 \<longrightarrow> unat (gx_min req) \<le> group_size X (default_gex_group X req))
    \<and> unat (gx_n (for_strength need)) \<le> group_size X (default_gex_group X (for_strength need))
    \<and> (\<exists>st0 p0 g p1 r1' st p2. gex_client_request (for_strength need) = (st0, p0)
         \<and> gex_server_group X p0 (default_gex_group X) = Ok (for_strength need, g, p1)
         \<and> gex_client_init X st0 p1 r1 = (r1', Ok (st, p2)))
    \<and> group_size X (default_gex_group X \<lparr>gx_min = 3000, gx_n = 5000, gx_max = 6000\<rparr>) = 8192
    \<and> 3000 \<le> group_size X (group16 X) \<and> group_size X (group16 X) \<le> 6000"
  using default_group_min [OF assms(2)] default_group_preferred [OF assms(2)] default_group_exceeds_max [OF assms(2)]
  by (blast intro: own_request_runs [OF assms])

lemma toy_groups_sized: "groups_sized toy_kex"
proof -
  have "strip_zeros (replicate n 1) = replicate n (1 :: u8)" if "0 < n" for n
    using that by (intro strip_zeros_id) simp
  then show ?thesis
    by (simp add: groups_sized_def group_size_def toy_kex_def strip_leading_zero_eq)
qed

theorem default_group_suits_witness:
  "\<exists>st0 p0 g p1 r1' st p2. gex_client_request (for_strength 32) = (st0, p0)
     \<and> gex_server_group toy_kex p0 (default_gex_group toy_kex) = Ok (for_strength 32, g, p1)
     \<and> gex_client_init toy_kex st0 p1 1 = (r1', Ok (st, p2))"
  using default_group_suits [OF toy_kex_ok toy_groups_sized, of "for_strength 32" 32 1] by blast

lemma toy_gex_run:
  obtains st0 p0 g p1 r1 st p2 out r2 where
    "gex_client_request (for_strength 32) = (st0, p0)"
    "gex_server_group toy_kex p0 (default_gex_group toy_kex) = Ok (for_strength 32, g, p1)"
    "gex_client_init toy_kex st0 p1 1 = (r1, Ok (st, p2))"
    "gex_server_reply toy_kex toy_hash KSha256 5 (for_strength 32) g p2 toy_key demo_ctx = (r2, Ok out)"
proof -
  obtain st0 p0 g p1 r1 st p2 where r: "gex_client_request (for_strength 32) = (st0, p0)"
    "gex_server_group toy_kex p0 (default_gex_group toy_kex) = Ok (for_strength 32, g, p1)"
    "gex_client_init toy_kex st0 p1 1 = (r1, Ok (st, p2))"
    by (rule own_request_runs [OF toy_kex_ok toy_groups_sized])
  note dh = prims_laws(4) [OF toy_kex_ok]
  obtain g' s where p2: "p2 = SSH_MSG_KEX_DH_GEX_INIT # enc_string (mpint_body (dh_public toy_kex g' s))"
    by (rule gex_client_init_group [OF dh r(2,3)])
  have "read_init SSH_MSG_KEX_DH_GEX_INIT e p2 = Ok (mpint_body (dh_public toy_kex g' s))" for e
    by (simp add: p2 read_init_back dh_laws(2) [OF dh])
  then obtain out r2 where
    "gex_server_reply toy_kex toy_hash KSha256 5 (for_strength 32) g p2 toy_key demo_ctx = (r2, Ok out)"
    by (simp add: gex_server_reply_def st_try_def Let_def toy_key_def ok_or_def) (simp add: toy_kex_def)
  with r that show ?thesis by blast
qed

theorem gex_agreement_witness:
  "\<exists>st g out p2 r2. gex_server_reply toy_kex toy_hash KSha256 5 (for_strength 32) g p2 toy_key demo_ctx = (r2, Ok out)
     \<and> group_size toy_kex g \<le> 8192
     \<and> gex_client_finish toy_kex toy_hash KSha256 st (sr_payload out) toy_verify demo_ctx = Ok (sr_kex out)"
proof -
  obtain st0 p0 g p1 r1 st p2 out r2 where r:
    "gex_client_request (for_strength 32) = (st0, p0)"
    "gex_server_group toy_kex p0 (default_gex_group toy_kex) = Ok (for_strength 32, g, p1)"
    "gex_client_init toy_kex st0 p1 1 = (r1, Ok (st, p2))"
    "gex_server_reply toy_kex toy_hash KSha256 5 (for_strength 32) g p2 toy_key demo_ctx = (r2, Ok out)"
    by (rule toy_gex_run)
  have "group_size toy_kex g \<le> unat (gx_max (for_strength 32))
      \<and> gex_client_finish toy_kex toy_hash KSha256 st (sr_payload out) toy_verify demo_ctx = Ok (sr_kex out)"
    using gex_agreement [OF toy_kex_ok toy_key_ok r(1-4)] by blast
  moreover have "unat (gx_max (for_strength 32)) = 8192" by (simp add: for_strength_def Let_def)
  ultimately show ?thesis using r(4) by metis
qed

end
