(* ===== verification/Derive.thy ===== *)
theory Derive
  imports KexClaims
begin

text \<open>
  Key derivation against RFC 4253 section 7.2, and what deriving and building one direction's keys
  yields for the names of the catalogues.
\<close>

section \<open>The key stream of the RFC\<close>

text \<open>\<open>K1 = HASH(K || H || X || session_id)\<close>, and every further block hashes \<open>K || H || K1 || ... || Kn\<close>.\<close>

primrec rfc_stream :: "(bytes \<Rightarrow> bytes) \<Rightarrow> bytes \<Rightarrow> bytes \<Rightarrow> bytes \<Rightarrow> nat \<Rightarrow> bytes" where
  "rfc_stream hash k h k1 0 = k1"
| "rfc_stream hash k h k1 (Suc i) = rfc_stream hash k h k1 i @ hash (k @ h @ rfc_stream hash k h k1 i)"

lemma rfc_stream_extends:
  "i \<le> j \<Longrightarrow> \<exists>more. rfc_stream hash k h k1 j = rfc_stream hash k h k1 i @ more"
  by (induction j) (auto simp: le_Suc_eq)

lemma rfc_stream_length:
  assumes "\<And>x. hash x \<noteq> []" "k1 \<noteq> []"
  shows "i < length (rfc_stream hash k h k1 i)"
proof (induction i)
  case 0
  then show ?case using assms by simp
next
  case (Suc i)
  have "0 < length (hash (k @ h @ rfc_stream hash k h k1 i))" using assms(1) by simp
  with Suc show ?case unfolding rfc_stream.simps length_append by linarith
qed

lemma take_stream:
  assumes "n \<le> length (rfc_stream hash k h k1 i)" "n \<le> length (rfc_stream hash k h k1 j)"
  shows "take n (rfc_stream hash k h k1 i) = take n (rfc_stream hash k h k1 j)"
proof (cases "i \<le> j")
  case True
  then show ?thesis using assms rfc_stream_extends [of i j hash k h k1] by auto
next
  case False
  then show ?thesis using assms rfc_stream_extends [of j i hash k h k1] by auto
qed

lemma derive_loop_stream:
  assumes "\<And>x. hash x \<noteq> []"
  shows "\<exists>j. derive_loop hash k h n (rfc_stream hash k h k1 i) = Some (rfc_stream hash k h k1 j)
    \<and> n \<le> length (rfc_stream hash k h k1 j)"
proof (induction "n - length (rfc_stream hash k h k1 i)" arbitrary: i rule: less_induct)
  case less
  let ?out = "rfc_stream hash k h k1 i"
  show ?case
  proof (cases "length ?out < n")
    case True
    have "0 < length (hash (k @ h @ ?out))" using assms by simp
    then have "n - length (rfc_stream hash k h k1 (Suc i)) < n - length ?out"
      using True unfolding rfc_stream.simps length_append by linarith
    from less [OF this] True show ?thesis by (subst derive_loop.simps) simp
  next
    case False
    then show ?thesis by (subst derive_loop.simps) auto
  qed
qed

lemma hash_nonempty: "hash_ok H \<Longrightarrow> H d x \<noteq> []"
proof -
  assume "hash_ok H"
  then have "length (H d x) = kex_digest_len d" by (simp add: hash_ok_def)
  moreover have "0 < kex_digest_len d" by (cases d) simp_all
  ultimately show ?thesis by auto
qed

lemma derive_stream:
  assumes "hash_ok H"
  shows "derive H d k h sid letter n = Some (take n (rfc_stream (H d) k h (H d (k @ h @ letter # sid)) n))"
    and "n \<le> length (rfc_stream (H d) k h (H d (k @ h @ letter # sid)) n)"
proof -
  note ne = hash_nonempty [OF assms]
  let ?s = "rfc_stream (H d) k h (H d (k @ h @ letter # sid))"
  show len: "n \<le> length (?s n)"
    using rfc_stream_length [of "H d" "H d (k @ h @ letter # sid)" n k h] ne by simp
  obtain j where j: "derive_loop (H d) k h n (?s 0) = Some (?s j)" "n \<le> length (?s j)"
    using derive_loop_stream [of "H d" k h n "H d (k @ h @ letter # sid)" 0] ne by blast
  show "derive H d k h sid letter n = Some (take n (?s n))"
    using j take_stream [OF j(2) len] by (simp add: derive_def)
qed

text \<open>
  Claim C12. Key derivation is that of RFC 4253 section 7.2: the loop always ends, the key has exactly
  the requested length and is the beginning of the stream \<open>K1 || K2 || ...\<close> of the RFC, and a shorter
  key is a prefix of a longer one.
\<close>

theorem derive_spec:
  assumes "hash_ok H"
  shows "derive H d k h sid letter n = Some (take n (rfc_stream (H d) k h (H d (k @ h @ [letter] @ sid)) n))
    \<and> (\<forall>key. derive H d k h sid letter n = Some key \<longrightarrow> length key = n)
    \<and> (\<forall>m key longer. m \<le> n \<longrightarrow> derive H d k h sid letter m = Some key \<longrightarrow>
         derive H d k h sid letter n = Some longer \<longrightarrow> key = take m longer)"
proof (intro conjI allI impI)
  let ?s = "rfc_stream (H d) k h (H d (k @ h @ letter # sid))"
  note spec = derive_stream [OF assms, where d = d and k = k and h = h and sid = sid and letter = letter]
  show "derive H d k h sid letter n = Some (take n (rfc_stream (H d) k h (H d (k @ h @ [letter] @ sid)) n))"
    using spec(1) by simp
  show "length key = n" if "derive H d k h sid letter n = Some key" for key
    using that spec [where n = n] by auto
  show "key = take m longer" if "m \<le> n" "derive H d k h sid letter m = Some key"
    "derive H d k h sid letter n = Some longer" for m key longer
    using that spec [where n = m] spec [where n = n] take_stream [of m "H d" k h _ m n] by auto
qed

theorem derive_spec_witness:
  "hash_ok toy_hash \<and> (\<exists>key. derive toy_hash KSha256 [1] [2] [3] 0x41 70 = Some key \<and> length key = 70)"
  using derive_spec [OF toy_hash_ok, where d = KSha256 and k = "[1]" and h = "[2]" and sid = "[3]" and letter = "0x41" and n = 70]
    toy_hash_ok by blast

section \<open>One direction's keys\<close>

lemma derive_some: "hash_ok H \<Longrightarrow> \<exists>key. derive H d k h sid letter n = Some key \<and> length key = n"
  using derive_stream [where H = H and d = d and k = k and h = h and sid = sid and letter = letter and n = n] by auto

lemma kdf_some: "hash_ok H \<Longrightarrow> \<exists>key. kdf H be k h sid letter n = Some key \<and> length key = n"
  unfolding kdf_def by (rule derive_some)


text \<open>The names a negotiation over the catalogues can yield for one direction.\<close>

definition suite_ok :: "rust_str \<Rightarrow> rust_str \<Rightarrow> bool" where
  "suite_ok cipher mac \<longleftrightarrow>
     (\<exists>spec. cipher_spec_by_name cipher = Some spec
        \<and> (if cs_aead spec then mac = [] else \<exists>m. mac_spec_by_name mac = Some m))"

lemma mac_name_nonempty: "mac_spec_by_name mac = Some m \<Longrightarrow> mac \<noteq> []"
proof -
  have "\<forall>m \<in> set ALL_MACS. ms_name m \<noteq> []" by (simp add: ALL_MACS_def mac_spec_of_def lit_def)
  then show "mac_spec_by_name mac = Some m \<Longrightarrow> mac \<noteq> []"
    by (auto simp: mac_spec_by_name_def dest!: find_SomeD)
qed

text \<open>Deriving and then building gives a cipher and MAC that fit a slot of the codec.\<close>

lemma direction_builds:
  assumes "hash_ok H" "suite_ok cipher mac"
  obtains dk slot c m where
    "derive_for_direction H be k h sid l1 l2 l3 cipher mac = Some (Ok dk)"
    "build_cipher_mac P dk = Ok (c, m)" "classify c m = Ok slot" "slot_wf slot" "slot \<noteq> SlotNone"
proof -
  obtain spec where spec: "cipher_spec_by_name cipher = Some spec"
    "if cs_aead spec then mac = [] else \<exists>m. mac_spec_by_name mac = Some m"
    using assms(2) by (auto simp: suite_ok_def)
  obtain iv key where k: "kdf H be k h sid l1 (cs_iv_len spec) = Some iv" "length iv = cs_iv_len spec"
    "kdf H be k h sid l2 (cs_key_len spec) = Some key" "length key = cs_key_len spec"
    using kdf_some [OF assms(1)] by metis
  have mem: "spec \<in> set ALL_CIPHERS" "cs_name spec = cipher"
    using spec(1) by (auto simp: cipher_spec_by_name_def dest: find_SomeD)
  obtain c where c: "cipher_by_name P cipher key iv = Some (Ok c)" "is_aead c = cs_aead spec"
    using ssh_cipher_new_catalogue [OF mem(1), of P] k mem(2) spec(1)
    by (auto simp: cipher_by_name_def cipher_entry_ok_def)
  show ?thesis
  proof (cases "cs_aead spec")
    case True
    then have "\<exists>slot. classify c None = Ok slot \<and> slot \<noteq> SlotNone" using c(2) by (cases c) auto
    then obtain slot where cl: "classify c None = Ok slot" "slot \<noteq> SlotNone" by blast
    moreover have "slot_wf slot" by (rule classify_wf [OF cl(1)]) simp
    ultimately show ?thesis
      using that [of "\<lparr>dk_cipher = cipher, dk_iv = iv, dk_key = key, dk_mac = [], dk_mac_key = []\<rparr>" c None slot]
        True spec k c by (simp add: derive_for_direction_def build_cipher_mac_def)
  next
    case False
    then obtain ms where ms: "mac_spec_by_name mac = Some ms" using spec(2) by auto
    then have msm: "ms \<in> set ALL_MACS" "ms_name ms = mac" by (auto simp: mac_spec_by_name_def dest: find_SomeD)
    obtain mk where mk: "kdf H be k h sid l3 (ms_key_len ms) = Some mk" "length mk = ms_key_len ms"
      using kdf_some [OF assms(1)] by metis
    obtain m where m: "mac_by_name mac mk = Some m" "mac_wf m"
      using mac_by_name_catalogue [OF msm(1) mk(2)] msm(2) by metis
    have "\<exists>slot. classify c (Some m) = Ok slot \<and> slot \<noteq> SlotNone" using c(2) False by (cases c) auto
    then obtain slot where cl: "classify c (Some m) = Ok slot" "slot \<noteq> SlotNone" by blast
    moreover have "slot_wf slot" by (rule classify_wf [OF cl(1)]) (simp add: m(2))
    ultimately show ?thesis
      using that [of "\<lparr>dk_cipher = cipher, dk_iv = iv, dk_key = key, dk_mac = mac, dk_mac_key = mk\<rparr>" c "Some m" slot]
        False spec k c m mk ms mac_name_nonempty [OF ms]
      by (simp add: derive_for_direction_def build_cipher_mac_def)
  qed
qed

end
