(* ===== verification/RunnerProps.thy ===== *)
theory RunnerProps
  imports Derive
begin

text \<open>
  The state machine of the key-exchange runner: what every operation keeps, what a packet can and
  cannot do in each phase. The steps of a runner, with packets of any content arriving at any time,
  are a relation; the properties hold of every reachable state.
\<close>

section \<open>What actions preserve\<close>

definition pres :: "('st \<Rightarrow> bool) \<Rightarrow> ('st, 'a) act \<Rightarrow> bool" where
  "pres I m \<longleftrightarrow> (\<forall>s s' x. I s \<longrightarrow> m s = Some (s', x) \<longrightarrow> I s')"

lemma presD: "pres I m \<Longrightarrow> I s \<Longrightarrow> m s = Some (s', x) \<Longrightarrow> I s'"
  by (auto simp: pres_def)

lemma pres_bind:
  assumes "pres I m" "\<And>x. pres I (f x)"
  shows "pres I (act_bind m f)"
proof (subst pres_def, intro allI impI)
  fix s s' y
  assume a: "I s" "act_bind m f s = Some (s', y)"
  then obtain s1 r where m: "m s = Some (s1, r)" by (cases "m s") (auto simp: act_bind_def)
  then have "I s1" using a(1) assms(1) by (auto simp: pres_def)
  with a(2) assms(2) m show "I s'" by (cases r) (auto simp: act_bind_def pres_def)
qed

lemma pres_get: "(\<And>s. I s \<Longrightarrow> pres I (f s)) \<Longrightarrow> pres I (act_get f)"
  unfolding pres_def act_simps by blast

lemma pres_basic [simp]: "pres I (act_ok x)" "pres I (act_err e)" "pres I (act_res r)"
  by (simp_all add: pres_def)

lemma pres_runner: "(\<And>s. I s \<Longrightarrow> I (s\<lparr>ks_runner := f (ks_runner s)\<rparr>)) \<Longrightarrow> pres I (on_runner f)"
  by (auto simp: pres_def)

lemma pres_rng: "(\<And>s r. I s \<Longrightarrow> I (s\<lparr>ks_rng := r\<rparr>)) \<Longrightarrow> pres I (with_rng f)"
  by (auto simp: pres_def with_rng_def split: prod.splits)

lemma pres_codec: "(\<And>s k. I s \<Longrightarrow> I (s\<lparr>ks_codec := k\<rparr>)) \<Longrightarrow> pres I (with_codec f)"
  by (auto simp: pres_def with_codec_def split: prod.splits)

lemma pres_if: "(b \<Longrightarrow> pres I m) \<Longrightarrow> (\<not> b \<Longrightarrow> pres I n) \<Longrightarrow> pres I (if b then m else n)"
  by simp

lemma pres_prod: "(\<And>a b. pres I (f a b)) \<Longrightarrow> pres I (case x of (a, b) \<Rightarrow> f a b)"
  by (cases x) simp

lemma pres_case_gex: "(\<And>g. pres I (f g)) \<Longrightarrow> pres I n \<Longrightarrow> pres I (case st of CsGex g \<Rightarrow> f g | _ \<Rightarrow> n)"
  by (cases st) simp_all

lemma pres_case_ext: "pres I n \<Longrightarrow> (\<And>e. pres I (f e)) \<Longrightarrow> pres I (case x of None \<Rightarrow> n | Some e \<Rightarrow> f e)"
  by (cases x) simp_all

lemmas pres_intros = pres_bind pres_get pres_basic pres_if pres_prod pres_case_gex pres_case_ext

section \<open>Deriving and finishing\<close>

lemma derive_keys_cases:
  assumes "derive_keys H r = Some (r', x)"
  obtains (Derived) keys where "x = Ok ()" "r' = r\<lparr>kr_installed_keys := Some keys\<rparr>"
      "kr_negotiated r \<noteq> None" "kr_backend r \<noteq> None" "kr_session_id r \<noteq> None"
  | (Failed) "x \<noteq> Ok ()" "r' = r"
proof (cases "kr_negotiated r = None \<or> kr_backend r = None \<or> kr_current_k r = None \<or> kr_current_h r = None
    \<or> kr_session_id r = None")
  case True
  then show ?thesis
    using assms Failed by (auto simp: derive_keys_def need_field_def ok_or_def split: option.splits)
next
  case False
  then obtain neg be k h sid where f: "kr_negotiated r = Some neg" "kr_backend r = Some be"
    "kr_current_k r = Some k" "kr_current_h r = Some h" "kr_session_id r = Some sid" by auto
  let ?a = "derive_for_direction (H :: hash_prim) be k h sid 0x41 0x43 0x45 (ng_cipher_c2s neg) (ng_mac_c2s neg)"
  let ?b = "derive_for_direction H be k h sid 0x42 0x44 0x46 (ng_cipher_s2c neg) (ng_mac_s2c neg)"
  have e: "Option.bind ?a (\<lambda>c2s_r. case c2s_r of Err e \<Rightarrow> Some (r, Err e) | Panic \<Rightarrow> Some (r, Panic)
      | Ok c2s \<Rightarrow> Option.bind ?b (\<lambda>s2c_r. Some (st_try r s2c_r (\<lambda>s2c.
          (r\<lparr>kr_installed_keys := Some \<lparr>keys_c2s = c2s, keys_s2c = s2c\<rparr>\<rparr>, Ok ()))))) = Some (r', x)"
    using assms by (simp add: derive_keys_def f need_field_def)
  show ?thesis
  proof (cases ?a)
    case (Some ra)
    show ?thesis
    proof (cases ra)
      case (Ok c2s)
      then obtain rb where "?b = Some rb" using e Some by (cases ?b) simp_all
      then have st: "st_try r rb (\<lambda>s2c. (r\<lparr>kr_installed_keys := Some \<lparr>keys_c2s = c2s, keys_s2c = s2c\<rparr>\<rparr>, Ok ()))
          = (r', x)" using e Some Ok by simp
      show ?thesis
      proof (cases rb)
        case (Ok s2c)
        with st show ?thesis using Derived [of "\<lparr>keys_c2s = c2s, keys_s2c = s2c\<rparr>"] f by (simp add: st_try_def)
      qed (use st Failed in \<open>auto simp: st_try_def\<close>)
    qed (use e Some Failed in auto)
  qed (use e in simp)
qed

lemma act_derive_keys_cases:
  assumes "act_derive_keys E s = Some (s', x)"
  obtains (Derived) keys where "x = Ok ()" "s' = s\<lparr>ks_runner := (ks_runner s)\<lparr>kr_installed_keys := Some keys\<rparr>\<rparr>"
      "kr_negotiated (ks_runner s) \<noteq> None" "kr_backend (ks_runner s) \<noteq> None" "kr_session_id (ks_runner s) \<noteq> None"
  | (Failed) "x \<noteq> Ok ()" "s' = s"
proof -
  obtain r' where r: "derive_keys (ke_hash E) (ks_runner s) = Some (r', x)" "s' = s\<lparr>ks_runner := r'\<rparr>"
    using assms by (auto simp: act_derive_keys_def)
  from r(1) show ?thesis
  proof (cases rule: derive_keys_cases)
    case (Derived keys)
    then show ?thesis using that(1) [of keys] r(2) by simp
  next
    case Failed
    then show ?thesis using that(2) r(2) by simp
  qed
qed

lemma maybe_install_wait: "\<not> kr_peer_newkeys r \<Longrightarrow> maybe_install P Z r k = (k, Ok ())"
  by (simp add: maybe_install_def)

lemma note_agreed_fields [simp]:
  "kr_role (note_agreed out sig r) = kr_role r"
  "kr_negotiated (note_agreed out sig r) = kr_negotiated r"
  "kr_backend (note_agreed out sig r) = kr_backend r"
  "kr_current_h (note_agreed out sig r) = Some (ko_h out)"
  "kr_current_k (note_agreed out sig r) = Some (ko_k out)"
  "kr_installed_keys (note_agreed out sig r) = kr_installed_keys r"
  "kr_sent_newkeys (note_agreed out sig r) = kr_sent_newkeys r"
  "kr_peer_newkeys (note_agreed out sig r) = kr_peer_newkeys r"
  "kr_phase (note_agreed out sig r) = kr_phase r"
  "kr_strict_kex (note_agreed out sig r) = kr_strict_kex r"
  "kr_first_kex (note_agreed out sig r) = kr_first_kex r"
  "kr_ext_info_enabled (note_agreed out sig r) = kr_ext_info_enabled r"
  "kr_ext_info_send (note_agreed out sig r) = kr_ext_info_send r"
  "kr_accept_ext_info_now (note_agreed out sig r) = kr_accept_ext_info_now r"
  "kr_peer_ext_info (note_agreed out sig r) = kr_peer_ext_info r"
  "kr_session_id (note_agreed out sig r) =
     (case kr_session_id r of None \<Rightarrow> Some (ko_h out) | Some sid \<Rightarrow> Some sid)"
  by (auto simp: note_agreed_def Let_def split: option.splits)

text \<open>Before the peer's NEWKEYS, finishing a method either fails after \<open>K\<close> and \<open>H\<close> are noted, or waits for it.\<close>

lemma finish_exchange_cases:
  assumes "finish_exchange E out sig replies s = Some (s', x)" "\<not> kr_peer_newkeys (ks_runner s)"
  obtains (Waits) keys where "x = Ok (advance (replies @ [[SSH_MSG_NEWKEYS]]))"
      "s' = s\<lparr>ks_runner := (note_agreed out sig (ks_runner s))\<lparr>kr_installed_keys := Some keys,
         kr_sent_newkeys := True, kr_phase := AwaitingPeerNewKeys\<rparr>\<rparr>"
      "kr_negotiated (ks_runner s) \<noteq> None" "kr_backend (ks_runner s) \<noteq> None"
  | (Fails) "\<forall>a. x \<noteq> Ok a" "s' = s\<lparr>ks_runner := note_agreed out sig (ks_runner s)\<rparr>"
proof -
  let ?s1 = "s\<lparr>ks_runner := note_agreed out sig (ks_runner s)\<rparr>"
  have b: "act_bind (act_derive_keys E) (\<lambda>_. act_then (on_runner (kr_sent_newkeys_update (\<lambda>_. True)))
      (act_then (act_maybe_install E) (act_then (on_runner advance_after_send_newkeys)
       (act_ok (advance (replies @ [[SSH_MSG_NEWKEYS]])))))) ?s1 = Some (s', x)"
    using assms(1) by (simp add: finish_exchange_def)
  obtain s2 y where d: "act_derive_keys E ?s1 = Some (s2, y)"
    using b by (auto simp: act_bind_def split: option.splits prod.splits)
  from d show ?thesis
  proof (cases rule: act_derive_keys_cases)
    case (Derived keys)
    have "act_bind (act_derive_keys E) (\<lambda>_. act_then (on_runner (kr_sent_newkeys_update (\<lambda>_. True)))
        (act_then (act_maybe_install E) (act_then (on_runner advance_after_send_newkeys)
         (act_ok (advance (replies @ [[SSH_MSG_NEWKEYS]])))))) ?s1 =
      Some (s\<lparr>ks_runner := (note_agreed out sig (ks_runner s))\<lparr>kr_installed_keys := Some keys,
         kr_sent_newkeys := True, kr_phase := AwaitingPeerNewKeys\<rparr>\<rparr>, Ok (advance (replies @ [[SSH_MSG_NEWKEYS]])))"
      using assms(2) by (simp add: act_bind_def d Derived(1,2) act_maybe_install_def with_codec_def
          maybe_install_wait advance_after_send_newkeys_def)
    with b have w: "x = Ok (advance (replies @ [[SSH_MSG_NEWKEYS]]))"
      "s' = s\<lparr>ks_runner := (note_agreed out sig (ks_runner s))\<lparr>kr_installed_keys := Some keys,
         kr_sent_newkeys := True, kr_phase := AwaitingPeerNewKeys\<rparr>\<rparr>"
      by simp_all
    have "kr_negotiated (ks_runner s) \<noteq> None" "kr_backend (ks_runner s) \<noteq> None" using Derived(3,4) by simp_all
    with w show ?thesis by (rule Waits)
  next
    case Failed
    then have "\<forall>a. x \<noteq> Ok a" "s' = ?s1" using b d by (auto simp: act_bind_def split: res.splits)
    then show ?thesis by (rule Fails)
  qed
qed

section \<open>What a packet does\<close>

text \<open>The state a packet is handled in: the extension-info window is closed first.\<close>

definition closed :: "('s, 'e, 'd, 'r, 'g) kex_state \<Rightarrow> ('s, 'e, 'd, 'r, 'g) kex_state" where
  "closed s = s\<lparr>ks_runner := (ks_runner s)\<lparr>kr_accept_ext_info_now := False\<rparr>\<rparr>"

lemma closed_simps [simp]:
  "ks_codec (closed s) = ks_codec s" "ks_rng (closed s) = ks_rng s"
  "ks_runner (closed s) = (ks_runner s)\<lparr>kr_accept_ext_info_now := False\<rparr>"
  by (simp_all add: closed_def)

lemma on_packet_cases:
  assumes "runner_on_packet E payload host_key verifier vc vs s = Some (s', x)"
  obtains (Empty) "payload = []" "s' = s" "x = Err (Format ''empty payload'')"
  | (Discard) msg rest where "payload = msg # rest" "kr_pending_discard (ks_runner s)" "kex_specific msg"
      "s' = s\<lparr>ks_runner := (ks_runner s)\<lparr>kr_accept_ext_info_now := False, kr_pending_discard := False\<rparr>\<rparr>"
      "x = Ok (advance [])"
  | (Refuse) msg rest e where "payload = msg # rest" "s' = closed s" "x = Err (Protocol e)"
  | (Kexinit) msg rest y where "payload = msg # rest" "kr_phase (ks_runner s) = SentKexInit" "msg = SSH_MSG_KEXINIT"
      "handle_peer_kexinit E (seq_in (ks_codec s)) payload (closed s) = Some (s', y)"
      "x = map_res (ka_completed_update (\<lambda>_. is_completed (ks_runner s'))) y"
  | (Init) msg rest y st where "payload = msg # rest" "kr_phase (ks_runner s) = Negotiated st"
      "msg = SSH_MSG_KEX_ECDH_INIT" "kr_role (ks_runner s) = Server"
      "handle_kex_init_message E payload host_key vc vs (closed s) = Some (s', y)"
      "x = map_res (ka_completed_update (\<lambda>_. is_completed (ks_runner s'))) y"
  | (Reply) msg rest y st where "payload = msg # rest" "kr_phase (ks_runner s) = Negotiated st"
      "msg = SSH_MSG_KEX_ECDH_REPLY" "kr_role (ks_runner s) = Client"
      "handle_kex_reply_message E payload verifier vc vs (closed s) = Some (s', y)"
      "x = map_res (ka_completed_update (\<lambda>_. is_completed (ks_runner s'))) y"
  | (GexRequest) msg rest y st where "payload = msg # rest" "kr_phase (ks_runner s) = Negotiated st"
      "kr_role (ks_runner s) = Server" "handle_gex_request E payload (closed s) = Some (s', y)"
      "x = map_res (ka_completed_update (\<lambda>_. is_completed (ks_runner s'))) y"
  | (GexGroup) msg rest y st where "payload = msg # rest" "kr_phase (ks_runner s) = GexClientAwaitGroup st"
      "handle_gex_group E payload (closed s) = Some (s', y)"
      "x = map_res (ka_completed_update (\<lambda>_. is_completed (ks_runner s'))) y"
  | (GexInit) msg rest y req g where "payload = msg # rest" "kr_phase (ks_runner s) = GexServerAwaitInit req g"
      "handle_gex_init E payload host_key vc vs (closed s) = Some (s', y)"
      "x = map_res (ka_completed_update (\<lambda>_. is_completed (ks_runner s'))) y"
  | (GexReply) msg rest y st where "payload = msg # rest" "kr_phase (ks_runner s) = GexClientAwaitReply st"
      "handle_gex_reply E payload verifier vc vs (closed s) = Some (s', y)"
      "x = map_res (ka_completed_update (\<lambda>_. is_completed (ks_runner s'))) y"
  | (NewKeys) msg rest y where "payload = msg # rest" "kr_phase (ks_runner s) = AwaitingPeerNewKeys"
      "msg = SSH_MSG_NEWKEYS" "handle_peer_newkeys E (closed s) = Some (s', y)"
      "x = map_res (ka_completed_update (\<lambda>_. is_completed (ks_runner s'))) y"
proof (cases payload)
  case Nil
  then show ?thesis using assms Empty by (simp add: runner_on_packet_def)
next
  case (Cons msg rest)
  have after: "act_bind m (\<lambda>adv. act_get (\<lambda>s'. act_ok (adv\<lparr>ka_completed := is_completed (ks_runner s')\<rparr>))) t
      = Some (s', x) \<Longrightarrow> \<exists>y. m t = Some (s', y) \<and> x = map_res (ka_completed_update (\<lambda>_. is_completed (ks_runner s'))) y"
    for m and t :: "('a, 'b, 'c, 'd, 'e) kex_state"
    by (cases "m t") (auto simp: act_bind_def split: res.splits)
  let ?r = "ks_runner s"
  have body: "(if kr_pending_discard ?r \<and> discard_phase (kr_phase ?r) \<and> kex_specific msg
       then act_then (on_runner (kr_pending_discard_update (\<lambda>_. False))) (act_ok (advance []))
       else if kr_strict_kex ?r \<and> kr_phase ?r \<noteq> Idle \<and> kr_phase ?r \<noteq> Completed
               \<and> \<not> (msg = 20 \<or> msg = 21 \<or> kex_specific msg)
       then act_err (Protocol ''non-KEX message during strict-kex window'')
       else act_bind (dispatch E payload msg host_key verifier vc vs) (\<lambda>adv.
              act_get (\<lambda>s'. act_ok (adv\<lparr>ka_completed := is_completed (ks_runner s')\<rparr>)))) (closed s) = Some (s', x)"
    using assms by (simp add: runner_on_packet_def Cons Let_def closed_def cong: if_cong)
  show ?thesis
  proof (cases "kr_pending_discard ?r \<and> discard_phase (kr_phase ?r) \<and> kex_specific msg")
    case True
    then show ?thesis using body Discard [OF Cons] by (simp add: closed_def)
  next
    case nd: False
    show ?thesis
    proof (cases "kr_strict_kex ?r \<and> kr_phase ?r \<noteq> Idle \<and> kr_phase ?r \<noteq> Completed
               \<and> \<not> (msg = 20 \<or> msg = 21 \<or> kex_specific msg)")
      case True
      then show ?thesis using nd body Refuse [OF Cons] by auto
    next
      case False
      with nd body have "act_bind (dispatch E payload msg host_key verifier vc vs) (\<lambda>adv.
          act_get (\<lambda>s'. act_ok (adv\<lparr>ka_completed := is_completed (ks_runner s')\<rparr>))) (closed s) = Some (s', x)"
        by (simp only: if_False)
      from after [OF this] obtain y where y: "dispatch E payload msg host_key verifier vc vs (closed s) = Some (s', y)"
        "x = map_res (ka_completed_update (\<lambda>_. is_completed (ks_runner s'))) y" by blast
      have err: ?thesis if "Some (closed s, Err (Protocol e)) = Some (s', y)" for e
        using Refuse [OF Cons] that y(2) by auto
      note d = y(1) [unfolded dispatch_def act_simps Let_def closed_simps kex_runner.simps]
      show ?thesis
      proof (cases "kr_phase ?r")
        case SentKexInit
        then show ?thesis using d err Kexinit [OF Cons SentKexInit _ _ y(2)] by (auto split: if_splits)
      next
        case (Negotiated st)
        then show ?thesis
          using d err Init [OF Cons Negotiated _ _ _ y(2)] Reply [OF Cons Negotiated _ _ _ y(2)]
            GexRequest [OF Cons Negotiated _ _ y(2)]
          by (auto simp: newkeys_or_unexpected_def split: if_splits)
      next
        case (GexClientAwaitGroup st)
        then show ?thesis
          using d err GexGroup [OF Cons GexClientAwaitGroup _ y(2)]
          by (auto simp: newkeys_or_unexpected_def split: if_splits)
      next
        case (GexServerAwaitInit req g)
        then show ?thesis
          using d err GexInit [OF Cons GexServerAwaitInit _ y(2)]
          by (auto simp: newkeys_or_unexpected_def split: if_splits)
      next
        case (GexClientAwaitReply st)
        then show ?thesis
          using d err GexReply [OF Cons GexClientAwaitReply _ y(2)]
          by (auto simp: newkeys_or_unexpected_def split: if_splits)
      next
        case AwaitingPeerNewKeys
        then show ?thesis using d err NewKeys [OF Cons AwaitingPeerNewKeys _ _ y(2)] by (auto split: if_splits)
      qed (use d err in auto)
    qed
  qed
qed

section \<open>The invariant\<close>

definition awaiting_or_done :: "'g kex_runner \<Rightarrow> bool" where
  "awaiting_or_done r \<longleftrightarrow> kr_phase r = AwaitingPeerNewKeys \<or> kr_phase r = Completed"

definition ext_inv :: "'g kex_runner \<Rightarrow> bool" where
  "ext_inv r \<longleftrightarrow> (kr_ext_info_enabled r \<or> kr_ext_info_send r \<longrightarrow> kr_first_kex r)
     \<and> (kr_session_id r = None \<longrightarrow> kr_first_kex r)"

text \<open>
  NEWKEYS of both sides only after a completed method, with a session id and derived keys; the
  extension-info flags only during the first exchange.
\<close>

definition runner_inv :: "'g kex_runner \<Rightarrow> bool" where
  "runner_inv r \<longleftrightarrow> ext_inv r
     \<and> (kr_accept_ext_info_now r \<longrightarrow> kr_ext_info_enabled r)
     \<and> (kr_peer_newkeys r \<longrightarrow> kr_sent_newkeys r) \<and> kr_sent_newkeys r = awaiting_or_done r
     \<and> (awaiting_or_done r \<longrightarrow> kr_session_id r \<noteq> None \<and> kr_installed_keys r \<noteq> None
          \<and> kr_negotiated r \<noteq> None \<and> kr_backend r \<noteq> None)
     \<and> (kr_phase r = Completed \<longrightarrow> kr_peer_newkeys r)"

text \<open>A method is still running; the codec is the given one.\<close>

definition running :: "('s, 'e, 'd) packet_codec \<Rightarrow> ('s, 'e, 'd, 'r, 'g) kex_state \<Rightarrow> bool" where
  "running k s \<longleftrightarrow> ks_codec s = k \<and> ext_inv (ks_runner s) \<and> \<not> kr_accept_ext_info_now (ks_runner s)
     \<and> \<not> kr_sent_newkeys (ks_runner s) \<and> \<not> kr_peer_newkeys (ks_runner s) \<and> \<not> awaiting_or_done (ks_runner s)"

definition settled :: "('s, 'e, 'd) packet_codec \<Rightarrow> ('s, 'e, 'd, 'r, 'g) kex_state \<Rightarrow> bool" where
  "settled k s \<longleftrightarrow> ks_codec s = k \<and> runner_inv (ks_runner s)"

lemma running_settled: "running k s \<Longrightarrow> settled k s"
  by (auto simp: running_def settled_def runner_inv_def awaiting_or_done_def)

lemma inv_running:
  "runner_inv (ks_runner s) \<Longrightarrow> \<not> awaiting_or_done (ks_runner s) \<Longrightarrow> running (ks_codec s) (closed s)"
  by (auto simp: running_def runner_inv_def ext_inv_def awaiting_or_done_def)

definition leads :: "('st \<Rightarrow> bool) \<Rightarrow> ('st, 'a) act \<Rightarrow> ('st \<Rightarrow> bool) \<Rightarrow> bool" where
  "leads J m R \<longleftrightarrow> (\<forall>s s' x. J s \<longrightarrow> m s = Some (s', x) \<longrightarrow> R s')"

lemma leads_bind:
  assumes "pres J m" "\<And>s. J s \<Longrightarrow> R s" "\<And>x. leads J (f x) R"
  shows "leads J (act_bind m f) R"
proof (subst leads_def, intro allI impI)
  fix s s' y
  assume a: "J s" "act_bind m f s = Some (s', y)"
  then obtain s1 r where m: "m s = Some (s1, r)" by (cases "m s") (auto simp: act_bind_def)
  then have "J s1" using a(1) assms(1) by (auto simp: pres_def)
  with a(2) assms(2) m show "R s'"
    by (cases r) (auto simp: act_bind_def dest: assms(3) [unfolded leads_def, rule_format])
qed

lemma leads_get: "(\<And>s. J s \<Longrightarrow> leads J (f s) R) \<Longrightarrow> leads J (act_get f) R"
  unfolding leads_def act_simps by blast

lemma leads_pres: "pres J m \<Longrightarrow> (\<And>s. J s \<Longrightarrow> R s) \<Longrightarrow> leads J m R"
  by (auto simp: leads_def pres_def)

lemma finish_settles: "leads (running k) (finish_exchange E out sig replies) (settled k)"
proof (subst leads_def, intro allI impI)
  fix s s' x
  assume j: "running k s" and f: "finish_exchange E out sig replies s = Some (s', x)"
  have "\<not> kr_peer_newkeys (ks_runner s)" using j by (simp add: running_def)
  from f this show "settled k s'"
  proof (cases rule: finish_exchange_cases)
    case (Waits keys)
    then show ?thesis using j
      by (auto simp: running_def settled_def runner_inv_def ext_inv_def awaiting_or_done_def split: option.splits)
  next
    case Fails
    have "running k s'" using j unfolding Fails(2)
      by (auto simp: running_def ext_inv_def awaiting_or_done_def split: option.splits)
    then show ?thesis by (rule running_settled)
  qed
qed

lemma running_updates:
  "running k s \<Longrightarrow> running k (s\<lparr>ks_rng := r\<rparr>)"
  "running k s \<Longrightarrow> p \<noteq> AwaitingPeerNewKeys \<Longrightarrow> p \<noteq> Completed \<Longrightarrow>
     running k (s\<lparr>ks_runner := (ks_runner s)\<lparr>kr_phase := p\<rparr>\<rparr>)"
  "running k s \<Longrightarrow> running k (s\<lparr>ks_runner := (ks_runner s)\<lparr>kr_peer_advert_bytes := b\<rparr>\<rparr>)"
  "running k s \<Longrightarrow> running k (s\<lparr>ks_runner := (ks_runner s)\<lparr>kr_gex_sizes := z\<rparr>\<rparr>)"
  by (auto simp: running_def ext_inv_def awaiting_or_done_def)

lemma pres_running_rng: "pres (running k) (with_rng f)"
  by (rule pres_rng) (rule running_updates)

lemma pres_running_phase:
  "p \<noteq> AwaitingPeerNewKeys \<Longrightarrow> p \<noteq> Completed \<Longrightarrow> pres (running k) (on_runner (kr_phase_update (\<lambda>_. p)))"
  by (intro pres_runner) (simp add: running_updates)

lemma note_negotiated_fields [simp]:
  "kr_role (note_negotiated peer neg be r) = kr_role r"
  "kr_our_advert (note_negotiated peer neg be r) = kr_our_advert r"
  "kr_our_advert_bytes (note_negotiated peer neg be r) = kr_our_advert_bytes r"
  "kr_peer_advert_bytes (note_negotiated peer neg be r) = kr_peer_advert_bytes r"
  "kr_negotiated (note_negotiated peer neg be r) = Some neg"
  "kr_backend (note_negotiated peer neg be r) = Some be"
  "kr_session_id (note_negotiated peer neg be r) = kr_session_id r"
  "kr_current_h (note_negotiated peer neg be r) = kr_current_h r"
  "kr_installed_keys (note_negotiated peer neg be r) = kr_installed_keys r"
  "kr_sent_newkeys (note_negotiated peer neg be r) = kr_sent_newkeys r"
  "kr_peer_newkeys (note_negotiated peer neg be r) = kr_peer_newkeys r"
  "kr_phase (note_negotiated peer neg be r) = kr_phase r"
  "kr_strict_kex (note_negotiated peer neg be r) = (kr_strict_kex r \<or> strict_kex_enabled neg)"
  "kr_first_kex (note_negotiated peer neg be r) = kr_first_kex r"
  "kr_outbound_ext_info (note_negotiated peer neg be r) = kr_outbound_ext_info r"
  "kr_peer_ext_info (note_negotiated peer neg be r) = kr_peer_ext_info r"
  "kr_accept_ext_info_now (note_negotiated peer neg be r) = kr_accept_ext_info_now r"
  by (simp_all add: note_negotiated_def case_prod_unfold Let_def)

lemma note_negotiated_ext:
  "kr_ext_info_enabled (note_negotiated peer neg be r) \<Longrightarrow> kr_first_kex r"
  "kr_ext_info_send (note_negotiated peer neg be r) \<Longrightarrow> kr_first_kex r"
  by (simp_all add: note_negotiated_def case_prod_unfold Let_def)

lemma running_negotiated: "pres (running k) (on_runner (note_negotiated peer neg be))"
  by (rule pres_runner) (auto simp: running_def ext_inv_def awaiting_or_done_def dest: note_negotiated_ext)

lemma running_peer_advert: "pres (running k) (on_runner (kr_peer_advert_bytes_update (\<lambda>_. b)))"
  by (rule pres_runner) (simp add: running_updates)

lemma running_gex_sizes:
  "pres (running k) (on_runner (\<lambda>r. r\<lparr>kr_gex_sizes := z, kr_phase := GexClientAwaitReply st\<rparr>))"
  by (rule pres_runner) (auto simp: running_def ext_inv_def awaiting_or_done_def)

lemmas running_intros = pres_intros pres_running_rng pres_running_phase running_negotiated running_peer_advert
  running_gex_sizes

lemma kexinit_running: "pres (running k) (handle_peer_kexinit E q payload)"
  unfolding handle_peer_kexinit_def begin_method_def Let_def by (intro running_intros) simp_all

lemma gex_request_running: "pres (running k) (handle_gex_request E payload)"
  unfolding handle_gex_request_def Let_def by (intro running_intros) simp_all

lemma gex_group_running: "pres (running k) (handle_gex_group E payload)"
  unfolding handle_gex_group_def Let_def by (intro running_intros) simp_all

lemma leads_prod: "(\<And>a b. leads J (f a b) R) \<Longrightarrow> leads J (case x of (a, b) \<Rightarrow> f a b) R"
  by (cases x) simp

lemmas leads_intros = leads_bind leads_get leads_prod finish_settles running_settled running_intros

lemma method_messages_settle:
  "leads (running k) (handle_kex_init_message E payload hk vc vs) (settled k)"
  "leads (running k) (handle_kex_reply_message E payload vf vc vs) (settled k)"
  "leads (running k) (handle_gex_init E payload hk vc vs) (settled k)"
  "leads (running k) (handle_gex_reply E payload vf vc vs) (settled k)"
  unfolding handle_kex_init_message_def handle_kex_reply_message_def handle_gex_init_def handle_gex_reply_def
    Let_def
  by (intro leads_intros; simp)+

section \<open>The peer's NEWKEYS\<close>

text \<open>What is left to do once the keys are installed.\<close>

definition completed_runner :: "'g kex_runner \<Rightarrow> 'g kex_runner" where
  "completed_runner r =
     (let r1 = r\<lparr>kr_peer_newkeys := True, kr_phase := Completed,
                 kr_accept_ext_info_now := (kr_accept_ext_info_now r \<or> kr_first_kex r \<and> kr_ext_info_enabled r)\<rparr>
      in if kr_first_kex r \<and> kr_ext_info_send r then r1\<lparr>kr_outbound_ext_info := None\<rparr> else r1)"

definition ext_payloads :: "'g kex_runner \<Rightarrow> bytes list" where
  "ext_payloads r = (if kr_first_kex r \<and> kr_ext_info_send r
     then case kr_outbound_ext_info r of None \<Rightarrow> [] | Some ext \<Rightarrow> [ext_info_encode ext] else [])"

lemma note_ext_window:
  "(if kr_first_kex r \<and> kr_ext_info_enabled r then r\<lparr>kr_accept_ext_info_now := True\<rparr> else r) =
     r\<lparr>kr_accept_ext_info_now := (kr_accept_ext_info_now r \<or> kr_first_kex r \<and> kr_ext_info_enabled r)\<rparr>"
  by (cases r) auto

lemma outbound_ext_None: "kr_outbound_ext_info r = None \<Longrightarrow> r\<lparr>kr_outbound_ext_info := None\<rparr> = r"
  by (cases r) simp

lemma newkeys_effect:
  "handle_peer_newkeys E s =
     (case maybe_install (ke_ciphers E) (ke_zlib E) ((ks_runner s)\<lparr>kr_peer_newkeys := True\<rparr>) (ks_codec s) of
        (k, Ok _) \<Rightarrow> Some (s\<lparr>ks_runner := completed_runner (ks_runner s), ks_codec := k\<rparr>,
                        Ok (advance (ext_payloads (ks_runner s))))
      | (k, Err e) \<Rightarrow> Some (s\<lparr>ks_runner := (ks_runner s)\<lparr>kr_peer_newkeys := True\<rparr>, ks_codec := k\<rparr>, Err e)
      | (k, Panic) \<Rightarrow> Some (s\<lparr>ks_runner := (ks_runner s)\<lparr>kr_peer_newkeys := True\<rparr>, ks_codec := k\<rparr>, Panic))"
proof -
  obtain k y where m: "maybe_install (ke_ciphers E) (ke_zlib E) ((ks_runner s)\<lparr>kr_peer_newkeys := True\<rparr>) (ks_codec s)
      = (k, y)" by fastforce
  let ?r = "ks_runner s"
  let ?r1 = "?r\<lparr>kr_peer_newkeys := True, kr_phase := Completed,
     kr_accept_ext_info_now := (kr_accept_ext_info_now ?r \<or> kr_first_kex ?r \<and> kr_ext_info_enabled ?r)\<rparr>"
  have inst: "act_maybe_install E (s\<lparr>ks_runner := ?r\<lparr>kr_peer_newkeys := True\<rparr>\<rparr>)
      = Some (s\<lparr>ks_runner := ?r\<lparr>kr_peer_newkeys := True\<rparr>, ks_codec := k\<rparr>, y)"
    by (simp add: act_maybe_install_def with_codec_def m)
  show ?thesis
  proof (cases y)
    case (Ok u)
    have "handle_peer_newkeys E s = (case (if kr_first_kex ?r \<and> kr_ext_info_send ?r then kr_outbound_ext_info ?r else None) of
         None \<Rightarrow> Some (s\<lparr>ks_runner := ?r1, ks_codec := k\<rparr>, Ok (advance []))
       | Some ext \<Rightarrow> Some (s\<lparr>ks_runner := ?r1\<lparr>kr_outbound_ext_info := None\<rparr>, ks_codec := k\<rparr>,
           Ok (advance [ext_info_encode ext])))"
      unfolding handle_peer_newkeys_def note_ext_window
      by (simp add: act_bind_cases(2) [where m = "act_maybe_install E", OF inst [unfolded Ok]] Let_def
          split: option.split)
    moreover have "?r1\<lparr>kr_outbound_ext_info := None\<rparr> = ?r1" if "kr_outbound_ext_info ?r = None"
      by (rule outbound_ext_None) (simp add: that)
    ultimately show ?thesis
      by (cases "kr_first_kex ?r \<and> kr_ext_info_send ?r"; cases "kr_outbound_ext_info ?r")
        (auto simp: m Ok completed_runner_def ext_payloads_def Let_def)
  next
    case (Err e)
    then show ?thesis unfolding handle_peer_newkeys_def
      by (simp add: act_bind_cases(3) [where m = "act_maybe_install E", OF inst [unfolded Err]] m)
  next
    case Panic
    then show ?thesis unfolding handle_peer_newkeys_def
      by (simp add: act_bind_cases(4) [where m = "act_maybe_install E", OF inst [unfolded Panic]] m)
  qed
qed

lemma completed_runner_inv:
  "runner_inv r \<Longrightarrow> kr_phase r = AwaitingPeerNewKeys \<Longrightarrow> runner_inv (completed_runner r)"
  by (auto simp: runner_inv_def ext_inv_def completed_runner_def awaiting_or_done_def Let_def)

lemma newkeys_inv:
  assumes "handle_peer_newkeys E s = Some (s', x)" "runner_inv (ks_runner s)"
    "kr_phase (ks_runner s) = AwaitingPeerNewKeys"
  shows "runner_inv (ks_runner s')"
proof -
  have "runner_inv ((ks_runner s)\<lparr>kr_peer_newkeys := True\<rparr>)"
    using assms(2,3) by (auto simp: runner_inv_def ext_inv_def awaiting_or_done_def)
  with assms completed_runner_inv show ?thesis
    by (auto simp: newkeys_effect split: prod.splits res.splits)
qed

lemma inv_closed: "runner_inv (ks_runner s) \<Longrightarrow> runner_inv (ks_runner (closed s))"
  by (auto simp: runner_inv_def ext_inv_def awaiting_or_done_def)

lemma phase_running:
  assumes "runner_inv (ks_runner s)" "kr_phase (ks_runner s) \<noteq> AwaitingPeerNewKeys" "kr_phase (ks_runner s) \<noteq> Completed"
  shows "running (ks_codec s) (closed s)"
  using assms by (intro inv_running) (simp_all add: awaiting_or_done_def)

text \<open>Every packet keeps the invariant, and only an awaited NEWKEYS reaches the codec.\<close>

lemma on_packet_inv:
  assumes "runner_on_packet E payload hk vf vc vs s = Some (s', x)" "runner_inv (ks_runner s)"
  shows "runner_inv (ks_runner s')
    \<and> (ks_codec s' = ks_codec s
       \<or> kr_phase (ks_runner s) = AwaitingPeerNewKeys \<and> (\<exists>rest. payload = SSH_MSG_NEWKEYS # rest))"
proof -
  have settle: "runner_inv (ks_runner s') \<and> ks_codec s' = ks_codec s" if "settled (ks_codec s) s'"
    using that by (simp add: settled_def)
  note run = phase_running [OF assms(2)]
  note fin = method_messages_settle [unfolded leads_def, rule_format, OF run]
  from assms(1) show ?thesis
  proof (cases rule: on_packet_cases)
    case Empty
    then show ?thesis using assms(2) by simp
  next
    case (Discard msg rest)
    then show ?thesis using assms(2) by (auto simp: runner_inv_def ext_inv_def awaiting_or_done_def)
  next
    case (Refuse msg rest e)
    then show ?thesis using inv_closed [OF assms(2)] by simp
  next
    case (Kexinit msg rest y)
    then show ?thesis using settle [OF running_settled [OF presD [OF kexinit_running run Kexinit(4)]]] by simp
  next
    case (Init msg rest y st)
    then show ?thesis using settle fin(1) [OF _ _ Init(5)] by simp
  next
    case (Reply msg rest y st)
    then show ?thesis using settle fin(2) [OF _ _ Reply(5)] by simp
  next
    case (GexRequest msg rest y st)
    then show ?thesis using settle [OF running_settled [OF presD [OF gex_request_running run GexRequest(4)]]] by simp
  next
    case (GexGroup msg rest y st)
    then show ?thesis using settle [OF running_settled [OF presD [OF gex_group_running run GexGroup(3)]]] by simp
  next
    case (GexInit msg rest y req g)
    then show ?thesis using settle fin(3) [OF _ _ GexInit(3)] by simp
  next
    case (GexReply msg rest y st)
    then show ?thesis using settle fin(4) [OF _ _ GexReply(3)] by simp
  next
    case (NewKeys msg rest y)
    then show ?thesis using newkeys_inv [OF NewKeys(4) inv_closed [OF assms(2)]] by simp
  qed
qed

section \<open>Reachable states\<close>

text \<open>
  A runner is started and restarted, fed packets, told about extension info; between its calls the
  caller uses the codec and the generator as it likes.
\<close>

inductive kex_step :: "('s, 'e, 'd, 'r, 'g) kex_env \<Rightarrow> ('s, 'e, 'd, 'r, 'g) kex_state \<Rightarrow>
    ('s, 'e, 'd, 'r, 'g) kex_state \<Rightarrow> bool" for E where
  k_start: "runner_start (ks_runner s) = (r', x) \<Longrightarrow> kex_step E s (s\<lparr>ks_runner := r'\<rparr>)"
| k_restart: "runner_restart advert (ks_runner s) = (r', x) \<Longrightarrow> kex_step E s (s\<lparr>ks_runner := r'\<rparr>)"
| k_packet: "runner_on_packet E payload hk vf vc vs s = Some (s', x) \<Longrightarrow> kex_step E s s'"
| k_arm: "kex_step E s (s\<lparr>ks_runner := arm_ext_info_post_auth (ks_runner s)\<rparr>)"
| k_ext: "handle_inbound_ext_info payload (ks_runner s) = (r', x) \<Longrightarrow> kex_step E s (s\<lparr>ks_runner := r'\<rparr>)"
| k_other: "kex_step E s (s\<lparr>ks_runner := note_inbound_other (ks_runner s)\<rparr>)"
| k_set: "kex_step E s (s\<lparr>ks_runner := set_outbound_ext_info ext (ks_runner s)\<rparr>)"
| k_selector: "kex_step E s (s\<lparr>ks_runner := set_gex_selector sel (ks_runner s)\<rparr>)"
| k_caller: "kex_step E s (s\<lparr>ks_codec := k, ks_rng := g\<rparr>)"

definition kex_reachable :: "('s, 'e, 'd, 'r, 'g) kex_env \<Rightarrow> ('s, 'e, 'd, 'r, 'g) kex_state \<Rightarrow> bool" where
  "kex_reachable E s \<longleftrightarrow> (\<exists>role advert k g.
     (kex_step E)\<^sup>*\<^sup>* \<lparr>ks_runner = runner_new role advert, ks_codec = k, ks_rng = g\<rparr> s)"

lemma start_inv: "runner_start r = (r', x) \<Longrightarrow> runner_inv r \<Longrightarrow> runner_inv r'"
  by (auto simp: runner_start_def runner_inv_def ext_inv_def awaiting_or_done_def split: phase.splits)

lemma restart_inv: "runner_restart advert r = (r', x) \<Longrightarrow> runner_inv r \<Longrightarrow> runner_inv r'"
  by (auto simp: runner_restart_def Let_def runner_inv_def ext_inv_def awaiting_or_done_def split: phase.splits)

lemma arm_inv: "runner_inv r \<Longrightarrow> runner_inv (arm_ext_info_post_auth r)"
  by (cases "kr_role r = Client \<and> kr_ext_info_enabled r")
    (auto simp: arm_ext_info_post_auth_def runner_inv_def ext_inv_def awaiting_or_done_def)

lemma other_ops_inv:
  assumes "runner_inv r"
  shows "runner_inv (note_inbound_other r)" "runner_inv (set_outbound_ext_info ext r)"
    "runner_inv (set_gex_selector sel r)"
    "runner_inv (r\<lparr>kr_peer_ext_info := e, kr_accept_ext_info_now := False\<rparr>)"
  using assms by (auto simp: runner_inv_def ext_inv_def awaiting_or_done_def note_inbound_other_def
      set_outbound_ext_info_def set_gex_selector_def)

lemma inbound_ext_cases:
  "handle_inbound_ext_info payload r = (r', x) \<Longrightarrow>
     r' = r \<or> kr_accept_ext_info_now r \<and> (\<exists>e. r' = r\<lparr>kr_peer_ext_info := Some e, kr_accept_ext_info_now := False\<rparr>)"
  by (auto simp: handle_inbound_ext_info_def st_try_def split: if_splits res.splits)

lemma inbound_ext_inv: "handle_inbound_ext_info payload r = (r', x) \<Longrightarrow> runner_inv r \<Longrightarrow> runner_inv r'"
  using inbound_ext_cases [of payload r r' x] other_ops_inv(4) [of r] by blast

lemma kex_step_inv: "kex_step E s s' \<Longrightarrow> runner_inv (ks_runner s) \<Longrightarrow> runner_inv (ks_runner s')"
proof (induction rule: kex_step.induct)
  case (k_packet payload hk vf vc vs s s' x)
  then show ?case using on_packet_inv by blast
qed (simp_all add: start_inv restart_inv arm_inv other_ops_inv inbound_ext_inv)

lemma reachable_inv: "kex_reachable E s \<Longrightarrow> runner_inv (ks_runner s)"
proof -
  assume "kex_reachable E s"
  then obtain role advert k g where
    "(kex_step E)\<^sup>*\<^sup>* \<lparr>ks_runner = runner_new role advert, ks_codec = k, ks_rng = g\<rparr> s"
    by (auto simp: kex_reachable_def)
  then show ?thesis
  proof induction
    case base
    show ?case by (simp add: runner_new_def runner_inv_def ext_inv_def awaiting_or_done_def)
  next
    case (step s s')
    then show ?case using kex_step_inv by blast
  qed
qed

end
