(* ===== verification/RunnerFrame.thy ===== *)
theory RunnerFrame
  imports RunnerProps
begin

text \<open>
  What packets leave alone. A property of the runner that survives the runner's elementary updates
  survives every message handler; the locales state which updates, the interpretations in
  \<open>RunnerClaims\<close> give the properties of interest.
\<close>

section \<open>Properties a handler keeps\<close>

text \<open>Everything but a negotiation and the server's phase of a group exchange.\<close>

locale client_frame =
  fixes J :: "'g kex_runner \<Rightarrow> bool"
  assumes phase: "J r \<Longrightarrow> (\<And>req g. p \<noteq> GexServerAwaitInit req g) \<Longrightarrow> J (r\<lparr>kr_phase := p\<rparr>)"
    and peer_advert: "J r \<Longrightarrow> J (r\<lparr>kr_peer_advert_bytes := b\<rparr>)"
    and discard: "J r \<Longrightarrow> J (r\<lparr>kr_pending_discard := c\<rparr>)"
    and newkeys: "J r \<Longrightarrow> J (r\<lparr>kr_sent_newkeys := c\<rparr>)" "J r \<Longrightarrow> J (r\<lparr>kr_peer_newkeys := c\<rparr>)"
    and keys: "J r \<Longrightarrow> J (r\<lparr>kr_installed_keys := k\<rparr>)"
    and sizes: "J r \<Longrightarrow> J (r\<lparr>kr_gex_sizes := z\<rparr>)"
    and ext: "J r \<Longrightarrow> J (r\<lparr>kr_accept_ext_info_now := c\<rparr>)" "J r \<Longrightarrow> J (r\<lparr>kr_outbound_ext_info := x\<rparr>)"
    and agreed: "J r \<Longrightarrow> J (note_agreed out sig r)"
begin

lemma runner: "(\<And>r. J r \<Longrightarrow> J (f r)) \<Longrightarrow> pres (\<lambda>s. J (ks_runner s)) (on_runner f)"
  by (rule pres_runner) simp

lemma rng: "pres (\<lambda>s. J (ks_runner s)) (with_rng f)"
  by (rule pres_rng) simp

lemma install: "pres (\<lambda>s. J (ks_runner s)) (act_maybe_install E)"
  unfolding act_maybe_install_def by (intro pres_get pres_codec) simp

lemma derive: "pres (\<lambda>s. J (ks_runner s)) (act_derive_keys E)"
proof (subst pres_def, intro allI impI)
  fix s s' x
  assume h: "J (ks_runner s)" and d: "act_derive_keys E s = Some (s', x)"
  from d show "J (ks_runner s')"
    by (cases rule: act_derive_keys_cases) (use h keys in auto)
qed

lemma after_newkeys: "J r \<Longrightarrow> J (advance_after_send_newkeys r)"
  by (auto simp: advance_after_send_newkeys_def intro: phase)

lemma window: "J r \<Longrightarrow> J (if b then r\<lparr>kr_accept_ext_info_now := True\<rparr> else r)"
  by (simp add: ext)

lemma sizes_phase: "J r \<Longrightarrow> J (r\<lparr>kr_gex_sizes := z, kr_phase := GexClientAwaitReply st\<rparr>)"
  using phase [OF sizes] by simp

lemmas intros = pres_intros runner rng install derive phase peer_advert newkeys keys ext agreed after_newkeys
  window sizes_phase

lemma finish: "pres (\<lambda>s. J (ks_runner s)) (finish_exchange E out sig replies)"
  unfolding finish_exchange_def by (intro intros)

lemma handlers:
  "pres (\<lambda>s. J (ks_runner s)) (handle_kex_init_message E payload hk vc vs)"
  "pres (\<lambda>s. J (ks_runner s)) (handle_kex_reply_message E payload vf vc vs)"
  "pres (\<lambda>s. J (ks_runner s)) (handle_gex_group E payload)"
  "pres (\<lambda>s. J (ks_runner s)) (handle_gex_init E payload hk vc vs)"
  "pres (\<lambda>s. J (ks_runner s)) (handle_gex_reply E payload vf vc vs)"
  "pres (\<lambda>s. J (ks_runner s)) (handle_peer_newkeys E)"
  unfolding handle_kex_init_message_def handle_kex_reply_message_def
    handle_gex_group_def handle_gex_init_def handle_gex_reply_def handle_peer_newkeys_def Let_def
  by (intro intros finish; simp)+

lemma begins: "pres (\<lambda>s. J (ks_runner s)) (begin_method E role be)"
  unfolding begin_method_def by (intro intros; simp)

text \<open>A packet keeps it unless it is a KEXINIT or a server's group request.\<close>

lemma packet:
  assumes "runner_on_packet E payload hk vf vc vs s = Some (s', x)" "J (ks_runner s)"
  obtains "J (ks_runner s')"
  | rest y where "payload = SSH_MSG_KEXINIT # rest" "kr_phase (ks_runner s) = SentKexInit"
      "handle_peer_kexinit E (seq_in (ks_codec s)) payload (closed s) = Some (s', y)"
  | y where "kr_role (ks_runner s) = Server" "handle_gex_request E payload (closed s) = Some (s', y)"
proof -
  have c: "J (ks_runner (closed s))" using assms(2) ext by simp
  note keep = presD [where I = "\<lambda>s. J (ks_runner s)" and s = "closed s", OF _ c]
  from assms(1) show ?thesis
  proof (cases rule: on_packet_cases)
    case Empty
    then show ?thesis using that(1) assms(2) by simp
  next
    case (Discard msg rest)
    then show ?thesis using that(1) discard [OF ext(1) [OF assms(2)]] by simp
  next
    case (Refuse msg rest e)
    then show ?thesis using that(1) c by simp
  next
    case (Kexinit msg rest y)
    then show ?thesis using that(2) by blast
  next
    case (Init msg rest y st)
    then show ?thesis using that(1) keep [OF handlers(1)] by blast
  next
    case (Reply msg rest y st)
    then show ?thesis using that(1) keep [OF handlers(2)] by blast
  next
    case (GexRequest msg rest y st)
    then show ?thesis using that(3) by blast
  next
    case (GexGroup msg rest y st)
    then show ?thesis using that(1) keep [OF handlers(3)] by blast
  next
    case (GexInit msg rest y req g)
    then show ?thesis using that(1) keep [OF handlers(4)] by blast
  next
    case (GexReply msg rest y st)
    then show ?thesis using that(1) keep [OF handlers(5)] by blast
  next
    case (NewKeys msg rest y)
    then show ?thesis using that(1) keep [OF handlers(6)] by blast
  qed
qed

end

text \<open>Any phase will do: the group request keeps it too.\<close>

locale any_phase_frame = client_frame +
  assumes any_phase: "J r \<Longrightarrow> J (r\<lparr>kr_phase := p\<rparr>)"
begin

lemma gex_request: "pres (\<lambda>s. J (ks_runner s)) (handle_gex_request E payload)"
  unfolding handle_gex_request_def Let_def by (intro intros any_phase)

end

text \<open>It survives a negotiation.\<close>

locale negotiation_frame = client_frame +
  assumes negotiated: "J r \<Longrightarrow> J (note_negotiated peer neg be r)"
begin

lemma kexinit: "pres (\<lambda>s. J (ks_runner s)) (handle_peer_kexinit E q payload)"
  unfolding handle_peer_kexinit_def Let_def by (intro intros negotiated begins)

end

locale packet_frame = any_phase_frame + negotiation_frame
begin

lemma on_packet:
  assumes "runner_on_packet E payload hk vf vc vs s = Some (s', x)" "J (ks_runner s)"
  shows "J (ks_runner s')"
proof -
  have c: "J (ks_runner (closed s))" using assms(2) ext by simp
  note keep = presD [where I = "\<lambda>s. J (ks_runner s)" and s = "closed s", OF _ c]
  from assms show ?thesis
    by (rule packet) (blast dest: keep [OF kexinit] keep [OF gex_request])+
qed

end

end
