(* ===== verification/RunnerClaims.thy ===== *)
theory RunnerClaims
  imports RunnerFrame
begin

text \<open>The properties of the key-exchange runner in every reachable state.\<close>

section \<open>What never changes back\<close>

text \<open>
  The role, a session id once set, strict key exchange once on, and that the first exchange is over.
  The parameters are the values to hold on to.
\<close>

definition latched :: "'g kex_runner \<Rightarrow> 'g kex_runner \<Rightarrow> bool" where
  "latched r r' \<longleftrightarrow> kr_role r' = kr_role r \<and> (kr_session_id r \<noteq> None \<longrightarrow> kr_session_id r' = kr_session_id r)
     \<and> (kr_strict_kex r \<longrightarrow> kr_strict_kex r') \<and> (kr_first_kex r' \<longrightarrow> kr_first_kex r)"

lemma latched_refl [simp]: "latched r r"
  by (simp add: latched_def)

lemma latched_trans: "latched r r' \<Longrightarrow> latched r' r'' \<Longrightarrow> latched r r''"
  by (auto simp: latched_def)

lemma latched_updates:
  "latched r (r1\<lparr>kr_phase := p\<rparr>) = latched r r1" "latched r (r1\<lparr>kr_peer_advert_bytes := b\<rparr>) = latched r r1"
  "latched r (r1\<lparr>kr_sent_newkeys := c\<rparr>) = latched r r1" "latched r (r1\<lparr>kr_peer_newkeys := c\<rparr>) = latched r r1"
  "latched r (r1\<lparr>kr_gex_sizes := z\<rparr>) = latched r r1" "latched r (r1\<lparr>kr_outbound_ext_info := x\<rparr>) = latched r r1"
  "latched r (r1\<lparr>kr_accept_ext_info_now := c\<rparr>) = latched r r1"
  "latched r (r1\<lparr>kr_pending_discard := c\<rparr>) = latched r r1" "latched r (r1\<lparr>kr_installed_keys := k\<rparr>) = latched r r1"
  "latched r r1 \<Longrightarrow> latched r (note_negotiated peer neg be r1)" "latched r r1 \<Longrightarrow> latched r (note_agreed out sig r1)"
  by (auto simp: latched_def)

interpretation lat: packet_frame "latched r" for r
  by unfold_locales (simp_all add: latched_updates)

lemma start_latched: "runner_start r = (r', x) \<Longrightarrow> latched r r'"
  by (auto simp: runner_start_def latched_def split: phase.splits)

lemma restart_latched: "runner_restart advert r = (r', x) \<Longrightarrow> latched r r'"
  by (auto simp: runner_restart_def latched_def Let_def split: phase.splits)

lemma step_latched: "kex_step E s s' \<Longrightarrow> latched (ks_runner s) (ks_runner s')"
proof (induction rule: kex_step.induct)
  case (k_start s r' x)
  then show ?case using start_latched by simp
next
  case (k_restart advert s r' x)
  then show ?case using restart_latched by simp
next
  case (k_packet payload hk vf vc vs s s' x)
  then show ?case using lat.on_packet [OF k_packet] by simp
next
  case (k_ext payload s r' x)
  from inbound_ext_cases [OF k_ext] have "latched (ks_runner s) r'" by (auto simp: latched_def)
  then show ?case by simp
qed (simp_all add: latched_def arm_ext_info_post_auth_def note_inbound_other_def set_outbound_ext_info_def
    set_gex_selector_def)

lemma steps_latched: "(kex_step E)\<^sup>*\<^sup>* s s' \<Longrightarrow> latched (ks_runner s) (ks_runner s')"
  by (induction rule: rtranclp_induct) (auto intro: latched_trans step_latched)

text \<open>
  Claim C9. Whatever packets arrive and however often keys are exchanged again, a runner keeps its
  role, never changes a session id once it has one, and never turns strict key exchange off; and
  keys and NEWKEYS come in order: it has sent its own NEWKEYS exactly when it waits for the peer's or
  is done, then it has a session id, a negotiation and derived keys, and it is done only with both.
\<close>

theorem runner_latches:
  assumes "kex_reachable E s" "(kex_step E)\<^sup>*\<^sup>* s s'"
  shows "kr_role (ks_runner s') = kr_role (ks_runner s)
    \<and> (\<forall>sid. kr_session_id (ks_runner s) = Some sid \<longrightarrow> kr_session_id (ks_runner s') = Some sid)
    \<and> (kr_strict_kex (ks_runner s) \<longrightarrow> kr_strict_kex (ks_runner s'))
    \<and> (kr_sent_newkeys (ks_runner s) \<longleftrightarrow> kr_phase (ks_runner s) = AwaitingPeerNewKeys \<or> is_completed (ks_runner s))
    \<and> (kr_sent_newkeys (ks_runner s) \<longrightarrow> kr_session_id (ks_runner s) \<noteq> None
         \<and> kr_negotiated (ks_runner s) \<noteq> None \<and> kr_installed_keys (ks_runner s) \<noteq> None)
    \<and> (is_completed (ks_runner s) \<longrightarrow> kr_sent_newkeys (ks_runner s) \<and> kr_peer_newkeys (ks_runner s))"
  using steps_latched [OF assms(2)] reachable_inv [OF assms(1)]
  by (auto simp: latched_def runner_inv_def awaiting_or_done_def is_completed_def)


definition toy_env :: "(unit, bytes, bytes, nat, bytes \<times> bytes) kex_env" where
  "toy_env = \<lparr>ke_ciphers = plain_prims, ke_zlib = store_prims, ke_hash = toy_hash, ke_kex = toy_kex\<rparr>"

definition fresh_state :: "role \<Rightarrow> (unit, bytes, bytes, nat, bytes \<times> bytes) kex_state" where
  "fresh_state role = \<lparr>ks_runner = runner_new role (default_kexinit role), ks_codec = codec_new, ks_rng = 0\<rparr>"

definition started_state :: "role \<Rightarrow> (unit, bytes, bytes, nat, bytes \<times> bytes) kex_state" where
  "started_state role = (fresh_state role)\<lparr>ks_runner := (ks_runner (fresh_state role))\<lparr>kr_phase := SentKexInit\<rparr>\<rparr>"

lemma fresh_reachable: "kex_reachable toy_env (fresh_state role)"
  unfolding kex_reachable_def fresh_state_def by blast

lemma started_step: "kex_step toy_env (fresh_state role) (started_state role)"
proof -
  have "runner_start (ks_runner (fresh_state role)) = ((ks_runner (fresh_state role))\<lparr>kr_phase := SentKexInit\<rparr>,
      Ok (advance [kr_our_advert_bytes (ks_runner (fresh_state role))]))"
    by (simp add: runner_start_def fresh_state_def runner_new_def)
  from k_start [OF this, of toy_env] show ?thesis by (simp add: started_state_def)
qed

lemma started_steps: "(kex_step toy_env)\<^sup>*\<^sup>* (fresh_state role) (started_state role)"
  using started_step by blast

theorem runner_latches_witness:
  "kex_reachable toy_env (fresh_state Client) \<and> kr_role (ks_runner (started_state Client)) = Client
   \<and> \<not> kr_sent_newkeys (ks_runner (fresh_state Client))"
  using runner_latches [OF fresh_reachable started_steps, of Client] fresh_reachable
  by (simp add: fresh_state_def runner_new_def is_completed_def)

text \<open>
  Claim C10. Keys change only on NEWKEYS: no packet, of whatever content, changes the ciphers, the
  sequence numbers or anything else of the codec, except the peer's NEWKEYS when the runner, having
  sent its own, waits for it.
\<close>

theorem keys_change_on_newkeys_only:
  assumes "kex_reachable E s" "runner_on_packet E payload hk vf vc vs s = Some (s', x)"
  shows "ks_codec s' = ks_codec s
    \<or> (\<exists>rest. payload = SSH_MSG_NEWKEYS # rest) \<and> kr_phase (ks_runner s) = AwaitingPeerNewKeys
        \<and> kr_sent_newkeys (ks_runner s) \<and> kr_session_id (ks_runner s) \<noteq> None"
proof -
  note inv = reachable_inv [OF assms(1)]
  have "kr_sent_newkeys (ks_runner s) \<and> kr_session_id (ks_runner s) \<noteq> None"
    if "kr_phase (ks_runner s) = AwaitingPeerNewKeys"
    using inv that by (simp add: runner_inv_def awaiting_or_done_def)
  with on_packet_inv [OF assms(2) inv] show ?thesis by blast
qed

lemma idle_refuses:
  assumes "kr_phase (ks_runner s) = Idle"
  shows "runner_on_packet E (msg # rest) hk vf vc vs s =
    Some (closed s, Err (Protocol ''unexpected message during KEX''))"
proof -
  let ?s = "s\<lparr>ks_runner := (ks_runner s)\<lparr>kr_accept_ext_info_now := False\<rparr>\<rparr>"
  have "dispatch E (msg # rest) msg hk vf vc vs ?s = Some (?s, Err (Protocol ''unexpected message during KEX''))"
    by (simp add: dispatch_def assms)
  then show ?thesis by (simp add: runner_on_packet_def assms act_bind_def closed_def Let_def)
qed

lemma toy_refused:
  "runner_on_packet toy_env [SSH_MSG_NEWKEYS] None None [] [] (fresh_state Client) =
     Some (closed (fresh_state Client), Err (Protocol ''unexpected message during KEX''))"
  by (rule idle_refuses) (simp add: fresh_state_def runner_new_def)

theorem keys_change_on_newkeys_only_witness:
  "kex_reachable toy_env (fresh_state Client)
   \<and> runner_on_packet toy_env [SSH_MSG_NEWKEYS] None None [] [] (fresh_state Client) =
       Some (closed (fresh_state Client), Err (Protocol ''unexpected message during KEX''))
   \<and> ks_codec (closed (fresh_state Client)) = codec_new"
  using keys_change_on_newkeys_only [OF fresh_reachable toy_refused] fresh_reachable toy_refused
  by (simp add: fresh_state_def runner_new_def)

section \<open>A client trusts only a verified exchange hash\<close>

text \<open>Nothing agreed yet in this exchange beyond the given hash.\<close>

definition hash_is :: "bytes option \<Rightarrow> bytes option \<Rightarrow> ('s, 'e, 'd, 'r, 'g) kex_state \<Rightarrow> bool" where
  "hash_is h sid s \<longleftrightarrow> kr_current_h (ks_runner s) = h \<and> kr_session_id (ks_runner s) = sid \<and> \<not> kr_peer_newkeys (ks_runner s)
     \<and> kr_phase (ks_runner s) \<noteq> AwaitingPeerNewKeys"

definition hash_vouched :: "bytes option \<Rightarrow> bytes option \<Rightarrow> bytes \<Rightarrow> host_key_verify option \<Rightarrow>
    ('s, 'e, 'd, 'r, 'g) kex_state \<Rightarrow> bool" where
  "hash_vouched h sid payload verifier s \<longleftrightarrow>
     (kr_phase (ks_runner s) = AwaitingPeerNewKeys \<or> kr_current_h (ks_runner s) \<noteq> h
        \<or> kr_session_id (ks_runner s) \<noteq> sid \<longrightarrow>
       (\<exists>vf k_s sig h'. verifier = Some vf \<and> host_key_and_sig payload = Some (k_s, sig) \<and> vf h' sig = Ok ()
          \<and> kr_current_h (ks_runner s) = Some h'
          \<and> kr_session_id (ks_runner s) = (case sid of None \<Rightarrow> Some h' | Some old \<Rightarrow> Some old)))"

lemma hash_is_vouched: "hash_is h sid s \<Longrightarrow> hash_vouched h sid payload verifier s"
  by (simp add: hash_is_def hash_vouched_def)

lemma finish_vouched:
  assumes "vouched payload vf out"
  shows "leads (hash_is h sid) (finish_exchange E out sig replies) (hash_vouched h sid payload (Some vf))"
proof (subst leads_def, intro allI impI)
  fix s s' x
  assume j: "hash_is h sid s" and f: "finish_exchange E out sig replies s = Some (s', x)"
  have "\<not> kr_peer_newkeys (ks_runner s)" using j by (simp add: hash_is_def)
  from f this show "hash_vouched h sid payload (Some vf) s'"
    by (cases rule: finish_exchange_cases) (use assms j in \<open>auto simp: hash_vouched_def vouched_def hash_is_def\<close>)
qed

lemma hash_is_runner:
  "pres (hash_is h sid) (on_runner (kr_phase_update (\<lambda>_. Idle)))"
  by (rule pres_runner) (simp add: hash_is_def)

lemma leads_res:
  assumes "\<And>s. J s \<Longrightarrow> R s" "\<And>x. m = Ok x \<Longrightarrow> leads J (f x) R"
  shows "leads J (act_bind (act_res m) f) R"
  using assms by (cases m) (auto simp: leads_def act_bind_def)

lemma reply_hash:
  "leads (hash_is h sid) (handle_kex_reply_message E payload verifier vc vs) (hash_vouched h sid payload verifier)"
  unfolding handle_kex_reply_message_def Let_def
  by (intro leads_get leads_res leads_bind [OF hash_is_runner] hash_is_vouched)
    (auto intro: finish_vouched finish_for_vouched)

lemma gex_reply_hash:
  "leads (hash_is h sid) (handle_gex_reply E payload verifier vc vs) (hash_vouched h sid payload verifier)"
  unfolding handle_gex_reply_def Let_def
  by (intro leads_get leads_res leads_bind [OF hash_is_runner] hash_is_vouched)
    (auto intro: finish_vouched gex_vouched)

text \<open>A client is never asked to play the server's part of a group exchange.\<close>

definition client_phase :: "'g kex_runner \<Rightarrow> bool" where
  "client_phase r \<longleftrightarrow> (\<forall>req g. kr_phase r \<noteq> GexServerAwaitInit req g)"

interpretation cli: negotiation_frame client_phase
  by unfold_locales (simp_all add: client_phase_def)

lemma client_packet_phase:
  assumes "runner_on_packet E payload hk vf vc vs s = Some (s', x)" "client_phase (ks_runner s)"
    "kr_role (ks_runner s) = Client"
  shows "client_phase (ks_runner s')"
proof -
  have "client_phase (ks_runner (closed s))" using assms(2) by (simp add: client_phase_def)
  note keep = presD [OF cli.kexinit, OF this]
  from assms(1,2) show ?thesis
    by (rule cli.packet) (use assms(3) keep in \<open>simp_all\<close>)
qed

lemma client_step_phase:
  assumes "kex_step E s s'" "client_phase (ks_runner s)" "kr_role (ks_runner s) = Client"
  shows "client_phase (ks_runner s')"
  using assms(1)
proof (cases rule: kex_step.cases)
  case (k_packet payload hk vf vc vs x)
  then show ?thesis using client_packet_phase assms(2,3) by blast
next
  case (k_ext payload r' x)
  then show ?thesis using assms(2) inbound_ext_cases [OF k_ext(2)] by (auto simp: client_phase_def)
qed (use assms(2) in \<open>auto simp: client_phase_def runner_start_def runner_restart_def Let_def
    arm_ext_info_post_auth_def note_inbound_other_def set_outbound_ext_info_def set_gex_selector_def
    split: phase.splits\<close>)

lemma reachable_client_phase:
  assumes "kex_reachable E s" "kr_role (ks_runner s) = Client"
  shows "client_phase (ks_runner s)"
proof -
  obtain role advert k g where
    "(kex_step E)\<^sup>*\<^sup>* \<lparr>ks_runner = runner_new role advert, ks_codec = k, ks_rng = g\<rparr> s"
    using assms(1) by (auto simp: kex_reachable_def)
  then have "kr_role (ks_runner s) = Client \<longrightarrow> client_phase (ks_runner s)"
  proof induction
    case base
    show ?case by (simp add: runner_new_def client_phase_def)
  next
    case (step s s')
    then show ?case using client_step_phase [OF step(2)] step_latched [OF step(2)] by (simp add: latched_def)
  qed
  with assms(2) show ?thesis by simp
qed

lemma hash_is_keeps:
  "(\<And>r. kr_current_h (f r) = kr_current_h r \<and> kr_peer_newkeys (f r) = kr_peer_newkeys r
      \<and> kr_session_id (f r) = kr_session_id r
      \<and> (kr_phase r \<noteq> AwaitingPeerNewKeys \<longrightarrow> kr_phase (f r) \<noteq> AwaitingPeerNewKeys)) \<Longrightarrow>
   pres (hash_is h sid) (on_runner f)"
  by (rule pres_runner) (simp add: hash_is_def)

lemma hash_is_rng: "pres (hash_is h sid) (with_rng f)"
  by (rule pres_rng) (simp add: hash_is_def)

lemma hash_is_handlers:
  "pres (hash_is h sid) (handle_peer_kexinit E q payload)"
  "pres (hash_is h sid) (handle_gex_group E payload)"
  unfolding handle_peer_kexinit_def begin_method_def handle_gex_group_def Let_def
  by (intro pres_intros hash_is_keeps hash_is_rng; simp)+

lemma client_packet_vouched:
  assumes "kex_reachable E s" "kr_role (ks_runner s) = Client"
    "runner_on_packet E payload hk verifier vc vs s = Some (s', x)"
    "kr_phase (ks_runner s) \<noteq> AwaitingPeerNewKeys"
  shows "hash_vouched (kr_current_h (ks_runner s)) (kr_session_id (ks_runner s)) payload verifier s'"
proof (cases "kr_phase (ks_runner s) = Completed")
  case True
  from assms(3) True show ?thesis
    by (cases rule: on_packet_cases) (simp_all add: hash_vouched_def)
next
  case False
  let ?h = "kr_current_h (ks_runner s)" and ?sid = "kr_session_id (ks_runner s)"
  have "running (ks_codec s) (closed s)"
    using phase_running [OF reachable_inv [OF assms(1)] assms(4) False] .
  then have c: "hash_is ?h ?sid (closed s)"
    using assms(4) by (simp add: running_def hash_is_def)
  have cl: "client_phase (ks_runner s)" by (rule reachable_client_phase [OF assms(1,2)])
  note keep = presD [where I = "hash_is ?h ?sid" and s = "closed s", OF _ c, THEN hash_is_vouched]
  from assms(3) show ?thesis
  proof (cases rule: on_packet_cases)
    case (Reply msg rest y st)
    then show ?thesis using reply_hash c unfolding leads_def by blast
  next
    case (GexReply msg rest y st)
    then show ?thesis using gex_reply_hash c unfolding leads_def by blast
  next
    case (Kexinit msg rest y)
    then show ?thesis using keep hash_is_handlers(1) by blast
  next
    case (GexGroup msg rest y st)
    then show ?thesis using keep hash_is_handlers(2) by blast
  next
    case (GexInit msg rest y req g)
    then show ?thesis using cl by (simp add: client_phase_def)
  qed (use assms(2,4) in \<open>simp_all add: hash_vouched_def\<close>)
qed

section \<open>Strict key exchange\<close>

abbreviation lax :: "bytes option \<Rightarrow> ('s, 'e, 'd, 'r, 'g) kex_state \<Rightarrow> bool" where
  "lax sid s \<equiv> \<not> kr_strict_kex (ks_runner s) \<and> kr_session_id (ks_runner s) = sid"

interpretation lx: any_phase_frame "\<lambda>r. \<not> kr_strict_kex r"
  by unfold_locales simp_all

text \<open>Strict mode comes on in a first exchange only if the peer's KEXINIT was the first packet.\<close>

definition strict_from_first :: "bytes option \<Rightarrow> u32 \<Rightarrow> 'g kex_runner \<Rightarrow> bool" where
  "strict_from_first sid q r \<longleftrightarrow> (kr_strict_kex r \<and> sid = None \<longrightarrow> q = 1)"

interpretation sff: client_frame "strict_from_first sid q" for sid q
  by unfold_locales (simp_all add: strict_from_first_def)

text \<open>A KEXINIT either fails before anything is agreed, or is negotiated and the method begins.\<close>

lemma kexinit_cases:
  assumes "handle_peer_kexinit E q payload s = Some (s', x)"
  obtains (Fails) b where "s' = s\<lparr>ks_runner := (ks_runner s)\<lparr>kr_peer_advert_bytes := b\<rparr>\<rparr>" "\<forall>a. x \<noteq> Ok a"
  | (Begins) peer neg be where "kexinit_decode payload = Ok peer"
      "(case kr_role (ks_runner s) of Client \<Rightarrow> negotiate (kr_our_advert (ks_runner s)) peer
         | Server \<Rightarrow> negotiate peer (kr_our_advert (ks_runner s))) = Ok neg"
      "strict_kex_enabled neg \<and> kr_session_id (ks_runner s) = None \<longrightarrow> q = 1"
      "kex_backend_from_name (ng_kex neg) = Ok be"
      "begin_method E (kr_role (ks_runner s)) be (s\<lparr>ks_runner := note_negotiated peer neg be
         ((ks_runner s)\<lparr>kr_peer_advert_bytes := Some payload\<rparr>)\<rparr>) = Some (s', x)"
proof -
  let ?neg = "\<lambda>peer. case kr_role (ks_runner s) of Client \<Rightarrow> negotiate (kr_our_advert (ks_runner s)) peer
      | Server \<Rightarrow> negotiate peer (kr_our_advert (ks_runner s))"
  have same: "s = s\<lparr>ks_runner := (ks_runner s)\<lparr>kr_peer_advert_bytes := kr_peer_advert_bytes (ks_runner s)\<rparr>\<rparr>"
    by simp
  note e = assms [unfolded handle_peer_kexinit_def]
  consider (dec) "\<forall>p. kexinit_decode payload \<noteq> Ok p"
    | (neg) p where "kexinit_decode payload = Ok p" "\<forall>n. ?neg p \<noteq> Ok n"
    | (strict) p n where "kexinit_decode payload = Ok p" "?neg p = Ok n"
        "strict_kex_enabled n \<and> kr_session_id (ks_runner s) = None \<and> q \<noteq> 1"
    | (be) p n where "kexinit_decode payload = Ok p" "?neg p = Ok n"
        "\<not> (strict_kex_enabled n \<and> kr_session_id (ks_runner s) = None \<and> q \<noteq> 1)"
        "\<forall>b. kex_backend_from_name (ng_kex n) \<noteq> Ok b"
    | (ok) p n b where "kexinit_decode payload = Ok p" "?neg p = Ok n"
        "\<not> (strict_kex_enabled n \<and> kr_session_id (ks_runner s) = None \<and> q \<noteq> 1)"
        "kex_backend_from_name (ng_kex n) = Ok b"
    by (metis (no_types, lifting))
  then show ?thesis
  proof cases
    case dec
    then have "s' = s" "\<forall>a. x \<noteq> Ok a" using e by (cases "kexinit_decode payload"; auto)+
    then show ?thesis using same Fails by blast
  next
    case neg
    then show ?thesis using e Fails by (cases "?neg p") (auto simp: Let_def cong: role.case_cong)
  next
    case strict
    then show ?thesis using e Fails by (auto simp: Let_def cong: role.case_cong)
  next
    case be
    then show ?thesis using e Fails by (cases "kex_backend_from_name (ng_kex n)") (auto simp: Let_def cong: role.case_cong)
  next
    case ok
    then show ?thesis using e Begins [OF ok(1,2) _ ok(4)] by (auto simp: Let_def cong: role.case_cong)
  qed
qed

lemma kexinit_strict:
  "leads (lax sid) (handle_peer_kexinit E q payload) (\<lambda>s. strict_from_first sid q (ks_runner s))"
proof (subst leads_def, intro allI impI)
  fix s s' x
  assume l: "lax sid s" and h: "handle_peer_kexinit E q payload s = Some (s', x)"
  from h show "strict_from_first sid q (ks_runner s')"
  proof (cases rule: kexinit_cases)
    case (Fails b)
    then show ?thesis using l by (simp add: strict_from_first_def)
  next
    case (Begins peer neg be)
    then show ?thesis using l presD [OF sff.begins _ Begins(5), of sid q] by (simp add: strict_from_first_def)
  qed
qed

lemma strict_turns_on:
  assumes "runner_on_packet E payload hk vf vc vs s = Some (s', x)"
    "\<not> kr_strict_kex (ks_runner s)" "kr_strict_kex (ks_runner s')"
  shows "(\<exists>rest. payload = SSH_MSG_KEXINIT # rest) \<and> kr_phase (ks_runner s) = SentKexInit
    \<and> (kr_session_id (ks_runner s) = None \<longrightarrow> seq_in (ks_codec s) = 1)"
proof -
  let ?sid = "kr_session_id (ks_runner s)" and ?q = "seq_in (ks_codec s)"
  have c: "\<not> kr_strict_kex (ks_runner (closed s))" using assms(2) by simp
  have k: "strict_from_first ?sid ?q (ks_runner s')" if "handle_peer_kexinit E ?q payload (closed s) = Some (s', y)" for y
    by (rule kexinit_strict [unfolded leads_def, rule_format, OF _ that]) (use assms(2) in simp)
  from assms(1,2) show ?thesis
  proof (rule lx.packet)
    fix rest y
    assume "payload = SSH_MSG_KEXINIT # rest" "kr_phase (ks_runner s) = SentKexInit"
      "handle_peer_kexinit E ?q payload (closed s) = Some (s', y)"
    then show ?thesis using k assms(3) by (simp add: strict_from_first_def)
  qed (use assms(3) presD [OF lx.gex_request, OF c] in blast)+
qed

lemma strict_refuses:
  assumes "kr_strict_kex (ks_runner s)" "is_kexing (ks_runner s)" "\<not> (msg = 20 \<or> msg = 21 \<or> kex_specific msg)"
  shows "runner_on_packet E (msg # rest) hk vf vc vs s =
    Some (closed s, Err (Protocol ''non-KEX message during strict-kex window''))"
  using assms by (simp add: runner_on_packet_def closed_def Let_def is_kexing_def)

text \<open>
  Claim C11. Strict key exchange, the defence against prefix truncation: while it is on and an exchange
  runs, a packet that is not KEXINIT, NEWKEYS or a method's message (30 to 49) is an error that leaves
  codec, generator and runner as they were but for the closed extension-info window; and a packet can
  turn it on only as a KEXINIT, which in the connection's first exchange must have been the very first
  packet received.
\<close>

theorem strict_kex_guards:
  assumes "runner_on_packet E (msg # rest) hk vf vc vs s = Some (s', x)"
  shows "(kr_strict_kex (ks_runner s) \<and> is_kexing (ks_runner s)
          \<and> \<not> (msg = SSH_MSG_KEXINIT \<or> msg = SSH_MSG_NEWKEYS \<or> 30 \<le> msg \<and> msg \<le> 49) \<longrightarrow>
        x = Err (Protocol ''non-KEX message during strict-kex window'')
        \<and> s' = s\<lparr>ks_runner := (ks_runner s)\<lparr>kr_accept_ext_info_now := False\<rparr>\<rparr>)
    \<and> (\<not> kr_strict_kex (ks_runner s) \<and> kr_strict_kex (ks_runner s') \<longrightarrow>
        msg = SSH_MSG_KEXINIT \<and> awaiting_peer_kexinit (ks_runner s)
        \<and> (kr_session_id (ks_runner s) = None \<longrightarrow> seq_in (ks_codec s) = 1))"
proof (intro conjI impI)
  assume "kr_strict_kex (ks_runner s) \<and> is_kexing (ks_runner s)
    \<and> \<not> (msg = SSH_MSG_KEXINIT \<or> msg = SSH_MSG_NEWKEYS \<or> 30 \<le> msg \<and> msg \<le> 49)"
  then have "runner_on_packet E (msg # rest) hk vf vc vs s =
    Some (closed s, Err (Protocol ''non-KEX message during strict-kex window''))"
    by (intro strict_refuses) (simp_all add: kex_specific_def SSH_MSG_KEXINIT_def SSH_MSG_NEWKEYS_def)
  then show "x = Err (Protocol ''non-KEX message during strict-kex window'')"
    "s' = s\<lparr>ks_runner := (ks_runner s)\<lparr>kr_accept_ext_info_now := False\<rparr>\<rparr>"
    using assms by (simp_all add: closed_def)
qed (use strict_turns_on [OF assms] in \<open>auto simp: awaiting_peer_kexinit_def\<close>)

definition strict_state :: "role \<Rightarrow> (unit, bytes, bytes, nat, bytes \<times> bytes) kex_state" where
  "strict_state role = (started_state role)\<lparr>ks_runner := (ks_runner (started_state role))\<lparr>kr_strict_kex := True\<rparr>\<rparr>"

lemma toy_strict_refused:
  "runner_on_packet toy_env [2, 0, 0, 0, 0] None None [] [] (strict_state Client) =
     Some (closed (strict_state Client), Err (Protocol ''non-KEX message during strict-kex window''))"
  by (rule strict_refuses) (simp_all add: strict_state_def started_state_def is_kexing_def kex_specific_def)

theorem strict_kex_guards_witness:
  "runner_on_packet toy_env [2, 0, 0, 0, 0] None None [] [] (strict_state Client) =
     Some (closed (strict_state Client), Err (Protocol ''non-KEX message during strict-kex window''))
   \<and> closed (strict_state Client)
       = (strict_state Client)\<lparr>ks_runner := (ks_runner (strict_state Client))\<lparr>kr_accept_ext_info_now := False\<rparr>\<rparr>"
proof -
  have "kr_strict_kex (ks_runner (strict_state Client))" "is_kexing (ks_runner (strict_state Client))"
    by (simp_all add: strict_state_def started_state_def is_kexing_def)
  then show ?thesis
    using strict_kex_guards [OF toy_strict_refused] toy_strict_refused
    by (simp add: SSH_MSG_KEXINIT_def SSH_MSG_NEWKEYS_def)
qed

section \<open>Extension info is for the first exchange\<close>

interpretation pei: packet_frame "\<lambda>r. kr_peer_ext_info r = e" for e
  by unfold_locales simp_all

text \<open>Only an extension-info message in its window changes what is known of the peer's extensions.\<close>

lemma step_peer_ext:
  assumes "kex_step E s s'" "\<not> may_accept_ext_info (ks_runner s)"
  shows "kr_peer_ext_info (ks_runner s') = kr_peer_ext_info (ks_runner s)"
  using assms(1)
proof (cases rule: kex_step.cases)
  case (k_packet payload hk vf vc vs x)
  then show ?thesis using pei.on_packet by blast
next
  case (k_ext payload r' x)
  then show ?thesis using inbound_ext_cases [OF k_ext(2)] assms(2) by (auto simp: may_accept_ext_info_def)
qed (auto simp: runner_start_def runner_restart_def Let_def arm_ext_info_post_auth_def note_inbound_other_def
    set_outbound_ext_info_def set_gex_selector_def split: phase.splits)

lemma window_first_kex: "runner_inv r \<Longrightarrow> may_accept_ext_info r \<Longrightarrow> kr_first_kex r \<and> kr_ext_info_enabled r"
  by (auto simp: runner_inv_def ext_inv_def may_accept_ext_info_def)

lemma later_ext:
  assumes "(kex_step E)\<^sup>*\<^sup>* s s'" "runner_inv (ks_runner s)" "\<not> kr_first_kex (ks_runner s)"
  shows "runner_inv (ks_runner s') \<and> \<not> kr_first_kex (ks_runner s')
    \<and> kr_peer_ext_info (ks_runner s') = kr_peer_ext_info (ks_runner s)"
  using assms(1)
proof induction
  case base
  then show ?case using assms(2,3) by simp
next
  case (step s1 s2)
  then have "\<not> may_accept_ext_info (ks_runner s1)" using window_first_kex by blast
  with step show ?case
    using step_peer_ext [OF step(2)] kex_step_inv [OF step(2)] step_latched [OF step(2)] by (simp add: latched_def)
qed

lemma inbound_ext_once:
  "handle_inbound_ext_info payload r = (r', Ok ()) \<Longrightarrow> may_accept_ext_info r \<and> \<not> may_accept_ext_info r'"
  by (auto simp: handle_inbound_ext_info_def may_accept_ext_info_def st_try_def split: if_splits res.splits)

text \<open>
  A peer's extension info is taken only in its window, once per window, and only while the
  connection is in its first key exchange, with the extension negotiated; from the first re-exchange
  on nothing that arrives changes what the runner knows of the peer's extensions, and no window opens.
\<close>

theorem ext_info_first_exchange_only:
  assumes "kex_reachable E s" "(kex_step E)\<^sup>*\<^sup>* s s'"
  shows "(may_accept_ext_info (ks_runner s) \<longrightarrow> kr_first_kex (ks_runner s) \<and> kr_ext_info_enabled (ks_runner s))
    \<and> (\<forall>payload r'. handle_inbound_ext_info payload (ks_runner s) = (r', Ok ()) \<longrightarrow>
          may_accept_ext_info (ks_runner s) \<and> \<not> may_accept_ext_info r')
    \<and> (\<not> kr_first_kex (ks_runner s) \<longrightarrow> kr_peer_ext_info (ks_runner s') = kr_peer_ext_info (ks_runner s)
          \<and> \<not> may_accept_ext_info (ks_runner s'))"
proof -
  note inv = reachable_inv [OF assms(1)]
  have "kr_peer_ext_info (ks_runner s') = kr_peer_ext_info (ks_runner s) \<and> \<not> may_accept_ext_info (ks_runner s')"
    if "\<not> kr_first_kex (ks_runner s)"
    using later_ext [OF assms(2) inv that] window_first_kex by blast
  with window_first_kex [OF inv] inbound_ext_once show ?thesis by blast
qed

theorem ext_info_first_exchange_only_witness:
  "kex_reachable toy_env (fresh_state Server) \<and> (kex_step toy_env)\<^sup>*\<^sup>* (fresh_state Server) (started_state Server)
   \<and> \<not> may_accept_ext_info (ks_runner (fresh_state Server))
   \<and> snd (handle_inbound_ext_info [] (ks_runner (fresh_state Server))) \<noteq> Ok ()"
proof -
  let ?r = "ks_runner (fresh_state Server)"
  have "\<not> kr_ext_info_enabled ?r" by (simp add: fresh_state_def runner_new_def)
  with ext_info_first_exchange_only [OF fresh_reachable started_steps, of Server]
  have "\<not> may_accept_ext_info ?r" "\<nexists>r'. handle_inbound_ext_info [] ?r = (r', Ok ())" by blast+
  then show ?thesis using fresh_reachable started_steps by (metis prod.collapse)
qed

end
