(* ===== verification/KexTotal.thy ===== *)
theory KexTotal
  imports RunnerFrame
begin

text \<open>
  When things go well they succeed: a server answers the opening message of an honest client, keys
  are derived, and both codecs are installed in agreement. The primitives must agree on honest
  values, the host key must sign, and the negotiated names must be in the catalogues.
\<close>

section \<open>Honest values\<close>

text \<open>Agreement on public values that were generated properly does not fail.\<close>

definition kex_prims_total :: "('r, 'g) kex_prims \<Rightarrow> bool" where
  "kex_prims_total X \<longleftrightarrow> (\<forall>a b. x_dh X a (x_public X b) \<noteq> None)
     \<and> (\<forall>c a b p. ec_from_sec1 X c (ec_public X c b) = Some p \<longrightarrow> ec_dh X c a p \<noteq> None)
     \<and> (\<forall>g g' a b p. same_group X g g' \<longrightarrow> dh_from_bytes X g (dh_public X g' b) = Some p \<longrightarrow>
          dh_shared X g a p \<noteq> None)"

definition signs :: "host_key \<Rightarrow> bool" where
  "signs hk \<longleftrightarrow> (\<forall>h. \<exists>sig. hk_sign hk h = Ok sig)"

lemma honest_agreement:
  assumes "kex_prims_ok X" "kex_prims_total X"
  obtains "\<And>a b. \<exists>k. x_dh X a (x_public X b) = Some k"
    "\<And>c a b. \<exists>p k. ec_from_sec1 X c (ec_public X c b) = Some p \<and> ec_dh X c a p = Some k"
    "\<And>g a b. \<exists>p k. dh_from_bytes X g (dh_public X g b) = Some p \<and> dh_shared X g a p = Some k"
proof
  show "\<exists>k. x_dh X a (x_public X b) = Some k" for a b using assms(2) by (auto simp: kex_prims_total_def)
  show "\<exists>p k. ec_from_sec1 X c (ec_public X c b) = Some p \<and> ec_dh X c a p = Some k" for c a b
  proof -
    obtain p where "ec_from_sec1 X c (ec_public X c b) = Some p"
      using prims_laws(3) [OF assms(1)] unfolding ecdh_ok_def by blast
    with assms(2) show ?thesis unfolding kex_prims_total_def by blast
  qed
  show "\<exists>p k. dh_from_bytes X g (dh_public X g b) = Some p \<and> dh_shared X g a p = Some k" for g a b
  proof -
    have sg: "same_group X g g" by (simp add: same_group_def)
    obtain p where "dh_from_bytes X g (dh_public X g b) = Some p"
      using prims_laws(4) [OF assms(1)] sg unfolding dh_ok_def by blast
    with assms(2) sg show ?thesis unfolding kex_prims_total_def by blast
  qed
qed

section \<open>The server's answer\<close>

lemma curve_replies:
  assumes "x25519_ok X" "\<And>a b. \<exists>k. x_dh X a (x_public X b) = Some k" "signs hk"
    "curve_client_init X r1 = ((st, p), r1')"
  shows "\<exists>r2' out. curve_server_reply X H r2 p hk ctx = (r2', Ok out)"
proof -
  obtain s1 where g: "x_generate X r1 = (s1, r1')"
    using assms(4) by (auto simp: curve_client_init_def Let_def split: prod.splits)
  obtain s2 r where g2: "x_generate X r2 = (s2, r)" by fastforce
  have len: "length (x_public X s) = 32" for s using assms(1) by (simp add: x25519_ok_def)
  then have "p = SSH_MSG_KEX_ECDH_INIT # enc_string (x_public X s1)" "fits_u32 (x_public X s1)"
    using assms(4) g by (auto simp: curve_client_init_def Let_def enc_string_32 fits_u32_def)
  moreover obtain k where "x_dh X s2 (x_public X s1) = Some k" using assms(2) by blast
  moreover obtain sig where "hk_sign hk (curve_hash H ctx (public_blob hk) (x_public X s1) (x_public X s2) k) = Ok sig"
    using assms(3) by (auto simp: signs_def)
  ultimately show ?thesis
    by (simp add: curve_server_reply_def read_init_back st_try_eq_Ok len g2 Let_def)
qed

lemma ecdh_replies:
  assumes "ecdh_ok X" "\<And>c a b. \<exists>p k. ec_from_sec1 X c (ec_public X c b) = Some p \<and> ec_dh X c a p = Some k" "signs hk"
    "ecdh_client_init X c r1 = ((st, p), r1')"
  shows "\<exists>r2' out. ecdh_server_reply X H d c r2 p hk ctx = (r2', Ok out)"
proof -
  obtain s1 where g: "ec_generate X c r1 = (s1, r1')"
    using assms(4) by (auto simp: ecdh_client_init_def Let_def split: prod.splits)
  obtain s2 r where g2: "ec_generate X c r2 = (s2, r)" by fastforce
  have "p = SSH_MSG_KEX_ECDH_INIT # enc_string (ec_public X c s1)"
    using assms(4) g by (auto simp: ecdh_client_init_def Let_def enc_string_def)
  moreover obtain pt k where "ec_from_sec1 X c (ec_public X c s1) = Some pt" "ec_dh X c s2 pt = Some k"
    using assms(2) by blast
  moreover obtain sig where
    "hk_sign hk (ecdh_hash H d ctx (public_blob hk) (ec_public X c s1) (ec_public X c s2) k) = Ok sig"
    using assms(3) by (auto simp: signs_def)
  ultimately show ?thesis using ecdh_laws [OF assms(1)]
    by (simp add: ecdh_server_reply_def read_init_back st_try_eq_Ok g2 Let_def)
qed

lemma dh_replies:
  assumes "dh_ok X" "\<And>g a b. \<exists>p k. dh_from_bytes X g (dh_public X g b) = Some p \<and> dh_shared X g a p = Some k" "signs hk"
    "dh_client_init X g r1 = ((st, p), r1')"
  shows "\<exists>r2' out. dh_server_reply X H d g r2 p hk ctx = (r2', Ok out)"
proof -
  obtain s1 where g: "dh_generate X g r1 = (s1, r1')"
    using assms(4) by (auto simp: dh_client_init_def Let_def split: prod.splits)
  obtain s2 r where g2: "dh_generate X g r2 = (s2, r)" by fastforce
  let ?e = "mpint_body (dh_public X g s1)"
  have "p = SSH_MSG_KEX_ECDH_INIT # enc_string ?e"
    using assms(4) g by (auto simp: dh_client_init_def Let_def encode_mpint_into_eq)
  moreover obtain pt k where "dh_from_bytes X g (dh_public X g s1) = Some pt" "dh_shared X g s2 pt = Some k"
    using assms(2) by blast
  moreover obtain sig where "hk_sign hk (dh_hash H d ctx (public_blob hk) ?e (dh_public X g s2) k) = Ok sig"
    using assms(3) by (auto simp: signs_def)
  ultimately show ?thesis using dh_laws [OF assms(1)]
    by (simp add: dh_server_reply_def read_init_back st_try_eq_Ok g2 Let_def)
qed

lemma mlx_replies:
  assumes "kex_prims_ok X" "\<And>a b. \<exists>k. x_dh X a (x_public X b) = Some k" "signs hk"
    "mlx_client_init X r1 = ((st, p), r1')"
  shows "\<exists>r2' out. mlx_server_reply X H r2 p hk ctx = (r2', Ok out)"
proof -
  note laws = prims_laws [OF assms(1)]
  obtain s1 r where g1: "x_generate X r1 = (s1, r)" by fastforce
  obtain dk ek where k: "mlkem_generate X r = ((dk, ek), r1')"
    using assms(4) g1 by (auto simp: mlx_client_init_def Let_def split: prod.splits)
  obtain s2 r3 ct kp r4 where g2: "x_generate X r2 = (s2, r3)" "mlkem_encaps X ek r3 = ((ct, kp), r4)"
    by (metis surj_pair)
  note kem = kem_laws [OF laws(6) k]
  let ?c = "ek @ x_public X s1"
  have p: "p = hybrid_init_payload (EK_PQ_LEN + X25519_PUB_LEN) ?c"
    using assms(4) g1 k by (auto simp: mlx_client_init_def Let_def)
  have len: "length ?c = EK_PQ_LEN + X25519_PUB_LEN" using kem laws(1) by (simp add: X25519_PUB_LEN_def)
  obtain ke where ke: "x_dh X s2 (x_public X s1) = Some ke" using assms(2) by blast
  obtain sig where "hk_sign hk (hybrid_hash H KSha256 ctx (public_blob hk) ?c (ct @ x_public X s2)
      (combine_secrets H KSha256 kp ke)) = Ok sig" using assms(3) by (auto simp: signs_def)
  with kem laws(1) g2 ke hybrid_read [OF len] show ?thesis
    by (simp add: mlx_server_reply_def p st_try_eq_Ok Let_def hybrid_len_defs)
qed

lemma snx_replies:
  assumes "kex_prims_ok X" "\<And>a b. \<exists>k. x_dh X a (x_public X b) = Some k" "signs hk"
    "snx_client_init X r1 = ((st, p), r1')"
  shows "\<exists>r2' out. snx_server_reply X H r2 p hk ctx = (r2', Ok out)"
proof -
  note laws = prims_laws [OF assms(1)]
  obtain s1 r where g1: "x_generate X r1 = (s1, r)" by fastforce
  obtain sk pk where k: "sntrup_keypair X r = ((pk, sk), r1')"
    using assms(4) g1 by (auto simp: snx_client_init_def Let_def split: prod.splits)
  obtain s2 r3 ct kp r4 where g2: "sntrup_encaps X pk r2 = ((ct, kp), r3)" "x_generate X r3 = (s2, r4)"
    by (metis surj_pair)
  have "apfst prod.swap (sntrup_keypair X r) = ((sk, pk), r1')" by (simp add: k)
  note kem = kem_laws [OF laws(7) this]
  let ?c = "pk @ x_public X s1"
  have p: "p = hybrid_init_payload (SNTRUP_PK + X25519_PUB_LEN) ?c"
    using assms(4) g1 k by (auto simp: snx_client_init_def Let_def)
  have len: "length ?c = SNTRUP_PK + X25519_PUB_LEN" using kem laws(1) by (simp add: X25519_PUB_LEN_def)
  obtain ke where ke: "x_dh X s2 (x_public X s1) = Some ke" using assms(2) by blast
  obtain sig where "hk_sign hk (hybrid_hash H KSha512 ctx (public_blob hk) ?c (ct @ x_public X s2)
      (combine_secrets H KSha512 kp ke)) = Ok sig" using assms(3) by (auto simp: signs_def)
  with kem laws(1) g2 ke hybrid_read [OF len] show ?thesis
    by (simp add: snx_server_reply_def p st_try_eq_Ok Let_def hybrid_len_defs)
qed

lemma mln_replies:
  assumes "kex_prims_ok X" "\<And>c a b. \<exists>p k. ec_from_sec1 X c (ec_public X c b) = Some p \<and> ec_dh X c a p = Some k"
    "signs hk" "mln_client_init X r1 = ((st, p), r1')"
  shows "\<exists>r2' out. mln_server_reply X H r2 p hk ctx = (r2', Ok out)"
proof -
  note laws = prims_laws [OF assms(1)]
  obtain s1 r where g1: "ec_generate X P256 r1 = (s1, r)" by fastforce
  obtain dk ek where k: "mlkem_generate X r = ((dk, ek), r1')"
    using assms(4) g1 by (auto simp: mln_client_init_def Let_def split: prod.splits)
  obtain s2 r3 ct kp r4 where g2: "ec_generate X P256 r2 = (s2, r3)" "mlkem_encaps X ek r3 = ((ct, kp), r4)"
    by (metis surj_pair)
  note kem = kem_laws [OF laws(6) k]
  let ?c = "ek @ ec_public X P256 s1"
  have p: "p = hybrid_init_payload (EK_PQ_LEN + P256_POINT_LEN) ?c"
    using assms(4) g1 k by (auto simp: mln_client_init_def Let_def)
  have ec: "length (ec_public X P256 s) = P256_POINT_LEN" for s
    using ecdh_laws(1) [OF laws(3), of P256 s] by (simp add: sec1_point_len_def P256_POINT_LEN_def)
  have len: "length ?c = EK_PQ_LEN + P256_POINT_LEN" using kem ec by simp
  obtain pt ke where ke: "ec_from_sec1 X P256 (ec_public X P256 s1) = Some pt" "ec_dh X P256 s2 pt = Some ke"
    using assms(2) by blast
  obtain sig where "hk_sign hk (hybrid_hash H KSha256 ctx (public_blob hk) ?c (ct @ ec_public X P256 s2)
      (combine_secrets H KSha256 kp ke)) = Ok sig" using assms(3) by (auto simp: signs_def)
  with kem ec g2 ke hybrid_read [OF len] show ?thesis
    by (simp add: mln_server_reply_def p256_agree_def p st_try_eq_Ok Let_def hybrid_len_defs)
qed

lemma server_replies:
  assumes "kex_prims_ok X" "kex_prims_total X" "signs hk" "two_message be"
    "client_init_for X neg be r1 = (r1', Ok (st, p))"
  shows "\<exists>r2' out. server_reply_for X H be r2 p hk ctx = (r2', Ok out)"
proof (rule honest_agreement [OF assms(1,2)])
  assume x: "\<And>a b. \<exists>k. x_dh X a (x_public X b) = Some k"
    and e: "\<And>c a b. \<exists>p k. ec_from_sec1 X c (ec_public X c b) = Some p \<and> ec_dh X c a p = Some k"
    and d: "\<And>g a b. \<exists>p k. dh_from_bytes X g (dh_public X g b) = Some p \<and> dh_shared X g a p = Some k"
  note laws = prims_laws(3-5) [OF assms(1)]
  note replies = curve_replies [OF laws(3) x assms(3)] ecdh_replies [OF laws(1) e assms(3)]
    dh_replies [OF laws(2) d assms(3)] mlx_replies [OF assms(1) x assms(3)] snx_replies [OF assms(1) x assms(3)]
    mln_replies [OF assms(1) e assms(3)]
  show ?thesis
    using assms(4,5)
    by (cases be) (auto simp: two_message_def init_done_Ok st_try_eq_Ok intro: replies)
qed

section \<open>Keys\<close>

text \<open>The keys of both directions for an agreed \<open>K\<close>, \<open>H\<close> and session id.\<close>

definition keys_for :: "hash_prim \<Rightarrow> kex_backend \<Rightarrow> negotiated \<Rightarrow> bytes \<Rightarrow> bytes \<Rightarrow> bytes \<Rightarrow> installed_keys \<Rightarrow> bool" where
  "keys_for H be neg k h sid keys \<longleftrightarrow>
     derive_for_direction H be k h sid 0x41 0x43 0x45 (ng_cipher_c2s neg) (ng_mac_c2s neg) = Some (Ok (keys_c2s keys))
   \<and> derive_for_direction H be k h sid 0x42 0x44 0x46 (ng_cipher_s2c neg) (ng_mac_s2c neg) = Some (Ok (keys_s2c keys))"

definition dir_slot :: "'s cipher_prims \<Rightarrow> dir_keys \<Rightarrow> 's cipher_slot \<Rightarrow> bool" where
  "dir_slot P dk slot \<longleftrightarrow> (\<exists>c m. build_cipher_mac P dk = Ok (c, m) \<and> classify c m = Ok slot)
     \<and> slot_wf slot \<and> slot \<noteq> SlotNone"

text \<open>What a negotiation must have come to: known suites, no compression.\<close>

definition suites_agreed :: "negotiated \<Rightarrow> bool" where
  "suites_agreed neg \<longleftrightarrow> suite_ok (ng_cipher_c2s neg) (ng_mac_c2s neg) \<and> suite_ok (ng_cipher_s2c neg) (ng_mac_s2c neg)
     \<and> ng_comp_c2s neg = lit ''none'' \<and> ng_comp_s2c neg = lit ''none''"

lemma keys_exist:
  assumes "hash_ok H" "suites_agreed neg"
  obtains keys out_slot in_slot where "keys_for H be neg k h sid keys" "dir_slot P (keys_c2s keys) out_slot"
    "dir_slot P (keys_s2c keys) in_slot"
proof -
  have s: "suite_ok (ng_cipher_c2s neg) (ng_mac_c2s neg)" "suite_ok (ng_cipher_s2c neg) (ng_mac_s2c neg)"
    using assms(2) by (simp_all add: suites_agreed_def)
  obtain d1 s1 c1 m1 where d1: "derive_for_direction H be k h sid 0x41 0x43 0x45 (ng_cipher_c2s neg) (ng_mac_c2s neg)
      = Some (Ok d1)" "build_cipher_mac P d1 = Ok (c1, m1)" "classify c1 m1 = Ok s1" "slot_wf s1" "s1 \<noteq> SlotNone"
    by (rule direction_builds [OF assms(1) s(1)])
  obtain d2 s2 c2 m2 where d2: "derive_for_direction H be k h sid 0x42 0x44 0x46 (ng_cipher_s2c neg) (ng_mac_s2c neg)
      = Some (Ok d2)" "build_cipher_mac P d2 = Ok (c2, m2)" "classify c2 m2 = Ok s2" "slot_wf s2" "s2 \<noteq> SlotNone"
    by (rule direction_builds [OF assms(1) s(2)])
  show ?thesis
    using that [of "\<lparr>keys_c2s = d1, keys_s2c = d2\<rparr>" s1 s2] d1 d2 by (auto simp: keys_for_def dir_slot_def)
qed

lemma derive_keys_ok:
  assumes "kr_negotiated r = Some neg" "kr_backend r = Some be" "kr_current_k r = Some k" "kr_current_h r = Some h"
    "kr_session_id r = Some sid" "keys_for H be neg k h sid keys"
  shows "derive_keys H r = Some (r\<lparr>kr_installed_keys := Some keys\<rparr>, Ok ())"
  using assms by (simp add: derive_keys_def need_field_def keys_for_def)

text \<open>The session id an exchange with hash \<open>h\<close> leaves.\<close>

definition sid_after :: "bytes \<Rightarrow> bytes option \<Rightarrow> bytes" where
  "sid_after h sid = (case sid of None \<Rightarrow> h | Some s \<Rightarrow> s)"

lemma finish_waits:
  assumes "kr_negotiated (ks_runner s) = Some neg" "kr_backend (ks_runner s) = Some be"
    "\<not> kr_peer_newkeys (ks_runner s)"
    "keys_for (ke_hash E) be neg (ko_k out) (ko_h out) (sid_after (ko_h out) (kr_session_id (ks_runner s))) keys"
  shows "finish_exchange E out sig replies s =
    Some (s\<lparr>ks_runner := (note_agreed out sig (ks_runner s))\<lparr>kr_installed_keys := Some keys,
         kr_sent_newkeys := True, kr_phase := AwaitingPeerNewKeys\<rparr>\<rparr>, Ok (advance (replies @ [[SSH_MSG_NEWKEYS]])))"
proof -
  let ?r = "note_agreed out sig (ks_runner s)"
  have "derive_keys (ke_hash E) ?r = Some (?r\<lparr>kr_installed_keys := Some keys\<rparr>, Ok ())"
    by (rule derive_keys_ok [where k = "ko_k out" and h = "ko_h out"])
      (use assms in \<open>simp_all add: sid_after_def split: option.splits\<close>)
  then have "act_derive_keys E (s\<lparr>ks_runner := ?r\<rparr>)
      = Some (s\<lparr>ks_runner := ?r\<lparr>kr_installed_keys := Some keys\<rparr>\<rparr>, Ok ())"
    by (simp add: act_derive_keys_def)
  with assms(3) show ?thesis
    by (simp add: finish_exchange_def act_bind_cases(2) act_maybe_install_def with_codec_def act_bind_def
        maybe_install_wait advance_after_send_newkeys_def)
qed

text \<open>The codec after an installation, and that it comes to that.\<close>

definition rekeyed :: "'s cipher_slot \<Rightarrow> 's cipher_slot \<Rightarrow> bool \<Rightarrow> ('s, 'e, 'd) packet_codec \<Rightarrow> ('s, 'e, 'd) packet_codec" where
  "rekeyed out_slot in_slot strict k =
     (let k1 = k\<lparr>outbound := out_slot, inbound := in_slot, pending_first_block := None,
                 outbound_compress := NoneCompress, inbound_decompress := NoneDecompress\<rparr>
      in reset_rekey_epoch (if strict then reset_sequence_numbers k1 else k1))"

lemma comp_none [simp]:
  "compress_by_name Z (lit ''none'') = Some NoneCompress" "decompress_by_name Z (lit ''none'') = Some NoneDecompress"
  by (simp_all add: compress_by_name_def decompress_by_name_def)

lemma installs:
  assumes "kr_sent_newkeys r" "kr_peer_newkeys r" "kr_installed_keys r = Some keys" "kr_negotiated r = Some neg"
    "ng_comp_c2s neg = lit ''none''" "ng_comp_s2c neg = lit ''none''"
    "dir_slot P (case kr_role r of Client \<Rightarrow> keys_c2s keys | Server \<Rightarrow> keys_s2c keys) out_slot"
    "dir_slot P (case kr_role r of Client \<Rightarrow> keys_s2c keys | Server \<Rightarrow> keys_c2s keys) in_slot"
  shows "maybe_install P Z r k = (rekeyed out_slot in_slot (kr_strict_kex r) k, Ok ())"
proof -
  obtain c1 m1 c2 m2 where b:
    "build_cipher_mac P (case kr_role r of Client \<Rightarrow> keys_c2s keys | Server \<Rightarrow> keys_s2c keys) = Ok (c1, m1)"
    "classify c1 m1 = Ok out_slot"
    "build_cipher_mac P (case kr_role r of Client \<Rightarrow> keys_s2c keys | Server \<Rightarrow> keys_c2s keys) = Ok (c2, m2)"
    "classify c2 m2 = Ok in_slot"
    using assms(7,8) by (auto simp: dir_slot_def)
  show ?thesis
    using assms(1-6) b
    by (cases "kr_role r")
      (simp_all add: maybe_install_def need_field_def Let_def st_then_def install_outbound_def install_inbound_def
        need_comp_def install_outbound_compress_def install_inbound_decompress_def rekeyed_def)
qed

end
