(* ===== verification/Duet.thy ===== *)
theory Duet
  imports Prelude
begin

text \<open>
  Two state machines that only react to each other's messages, over two first-in first-out links. If
  each follows a script when it receives the other's messages in order, then whatever the scheduling
  the pair walks through the two scripts, gets stuck nowhere, and has one outcome.
\<close>

record ('a, 'b, 'm) duet =
  left :: 'a
  right :: 'b
  to_left :: "'m list"
  to_right :: "'m list"
  crashed :: bool

inductive duet_step :: "('a \<Rightarrow> 'm \<Rightarrow> ('a \<times> 'm list) option) \<Rightarrow> ('b \<Rightarrow> 'm \<Rightarrow> ('b \<times> 'm list) option) \<Rightarrow>
    ('a, 'b, 'm) duet \<Rightarrow> ('a, 'b, 'm) duet \<Rightarrow> bool" for f g where
  l_recv: "to_left d = p # rest \<Longrightarrow> f (left d) p = Some (a, out) \<Longrightarrow>
    duet_step f g d (d\<lparr>left := a, to_left := rest, to_right := to_right d @ out\<rparr>)"
| l_fail: "to_left d = p # rest \<Longrightarrow> f (left d) p = None \<Longrightarrow> duet_step f g d (d\<lparr>crashed := True\<rparr>)"
| r_recv: "to_right d = p # rest \<Longrightarrow> g (right d) p = Some (b, out) \<Longrightarrow>
    duet_step f g d (d\<lparr>right := b, to_right := rest, to_left := to_left d @ out\<rparr>)"
| r_fail: "to_right d = p # rest \<Longrightarrow> g (right d) p = None \<Longrightarrow> duet_step f g d (d\<lparr>crashed := True\<rparr>)"

text \<open>A script: the states of one side, and what it sends on entering each of them.\<close>

definition emitted :: "(nat \<Rightarrow> 'm list) \<Rightarrow> nat \<Rightarrow> 'm list" where
  "emitted out i = concat (map out [0..<Suc i])"

definition follows :: "('a \<Rightarrow> 'm \<Rightarrow> ('a \<times> 'm list) option) \<Rightarrow> (nat \<Rightarrow> 'a) \<Rightarrow> (nat \<Rightarrow> 'm list) \<Rightarrow> 'm list \<Rightarrow> bool" where
  "follows f st out msgs \<longleftrightarrow> (\<forall>i < length msgs. f (st i) (msgs ! i) = Some (st (Suc i), out (Suc i)))"

definition at_stage :: "(nat \<Rightarrow> 'a) \<Rightarrow> (nat \<Rightarrow> 'm list) \<Rightarrow> (nat \<Rightarrow> 'b) \<Rightarrow> (nat \<Rightarrow> 'm list) \<Rightarrow> nat \<Rightarrow> nat \<Rightarrow>
    ('a, 'b, 'm) duet \<Rightarrow> bool" where
  "at_stage cs co ss so i j d \<longleftrightarrow> left d = cs i \<and> right d = ss j \<and> \<not> crashed d
     \<and> to_left d = drop i (emitted so j) \<and> to_right d = drop j (emitted co i)
     \<and> i \<le> length (emitted so j) \<and> j \<le> length (emitted co i)"

lemma emitted_Suc: "emitted out (Suc i) = emitted out i @ out (Suc i)"
  by (simp add: emitted_def)

lemma emitted_mono: "i \<le> k \<Longrightarrow> \<exists>more. emitted out k = emitted out i @ more"
  by (induction k) (auto simp: emitted_Suc le_Suc_eq)

lemma emitted_nth: "j \<le> m \<Longrightarrow> i < length (emitted out j) \<Longrightarrow> emitted out m ! i = emitted out j ! i"
  using emitted_mono [of j m out] by (auto simp: nth_append)

lemma emitted_length: "j \<le> m \<Longrightarrow> length (emitted out j) \<le> length (emitted out m)"
  using emitted_mono [of j m out] by auto

definition scripts_fit :: "('a \<Rightarrow> 'm \<Rightarrow> ('a \<times> 'm list) option) \<Rightarrow> ('b \<Rightarrow> 'm \<Rightarrow> ('b \<times> 'm list) option) \<Rightarrow>
    (nat \<Rightarrow> 'a) \<Rightarrow> (nat \<Rightarrow> 'm list) \<Rightarrow> (nat \<Rightarrow> 'b) \<Rightarrow> (nat \<Rightarrow> 'm list) \<Rightarrow> nat \<Rightarrow> nat \<Rightarrow> bool" where
  "scripts_fit f g cs co ss so n m \<longleftrightarrow>
     follows f cs co (emitted so m) \<and> follows g ss so (emitted co n)
     \<and> length (emitted so m) = n \<and> length (emitted co n) = m
     \<and> (\<forall>i \<le> n. \<forall>j \<le> m. i = length (emitted so j) \<longrightarrow> j = length (emitted co i) \<longrightarrow> i = n \<and> j = m)"

lemma drop_eq_Cons: "drop i xs = p # rest \<Longrightarrow> i < length xs \<and> p = xs ! i \<and> rest = drop (Suc i) xs"
  by (metis Cons_nth_drop_Suc drop_eq_Nil2 leI list.inject neq_Nil_conv)

text \<open>The next message on a link is the one the script expects.\<close>

lemma next_message:
  assumes "length (emitted so m) = n" "j \<le> m" "drop i (emitted so j) = p # rest"
  shows "i < n" "p = emitted so m ! i" "rest = drop (Suc i) (emitted so j)" "Suc i \<le> length (emitted so j)"
  using drop_eq_Cons [OF assms(3)] emitted_nth [OF assms(2), of i so] emitted_length [OF assms(2), of so] assms(1) by auto

lemma stage_left:
  assumes "scripts_fit f g cs co ss so n m" "at_stage cs co ss so i j d" "j \<le> m" "to_left d = p # rest"
  shows "i < n" "f (left d) p = Some (cs (Suc i), co (Suc i))"
    "at_stage cs co ss so (Suc i) j
       (d\<lparr>left := cs (Suc i), to_left := rest, to_right := to_right d @ co (Suc i)\<rparr>)"
proof -
  have len: "length (emitted so m) = n" using assms(1) by (simp add: scripts_fit_def)
  have dr: "drop i (emitted so j) = p # rest" using assms(2,4) by (simp add: at_stage_def)
  note nxt = next_message [OF len assms(3) dr]
  show "i < n" by (rule nxt(1))
  show "f (left d) p = Some (cs (Suc i), co (Suc i))"
    using assms(1,2) nxt(1,2) len by (simp add: scripts_fit_def follows_def at_stage_def)
  show "at_stage cs co ss so (Suc i) j
       (d\<lparr>left := cs (Suc i), to_left := rest, to_right := to_right d @ co (Suc i)\<rparr>)"
    using assms(2) nxt(3,4) by (simp add: at_stage_def emitted_Suc)
qed

lemma stage_right:
  assumes "scripts_fit f g cs co ss so n m" "at_stage cs co ss so i j d" "i \<le> n" "to_right d = p # rest"
  shows "j < m" "g (right d) p = Some (ss (Suc j), so (Suc j))"
    "at_stage cs co ss so i (Suc j)
       (d\<lparr>right := ss (Suc j), to_right := rest, to_left := to_left d @ so (Suc j)\<rparr>)"
proof -
  have len: "length (emitted co n) = m" using assms(1) by (simp add: scripts_fit_def)
  have dr: "drop j (emitted co i) = p # rest" using assms(2,4) by (simp add: at_stage_def)
  note nxt = next_message [OF len assms(3) dr]
  show "j < m" by (rule nxt(1))
  show "g (right d) p = Some (ss (Suc j), so (Suc j))"
    using assms(1,2) nxt(1,2) len by (simp add: scripts_fit_def follows_def at_stage_def)
  show "at_stage cs co ss so i (Suc j)
       (d\<lparr>right := ss (Suc j), to_right := rest, to_left := to_left d @ so (Suc j)\<rparr>)"
    using assms(2) nxt(3,4) by (simp add: at_stage_def emitted_Suc)
qed

text \<open>Every step moves one of the two scripts forward.\<close>

lemma stage_step:
  assumes "scripts_fit f g cs co ss so n m" "at_stage cs co ss so i j d" "i \<le> n" "j \<le> m" "duet_step f g d d'"
  shows "\<exists>i' j'. at_stage cs co ss so i' j' d' \<and> i' \<le> n \<and> j' \<le> m \<and> i' + j' = Suc (i + j)"
  using assms(5)
proof (cases rule: duet_step.cases)
  case (l_recv p rest a out)
  note st = stage_left [OF assms(1,2,4) l_recv(2)]
  have "a = cs (Suc i)" "out = co (Suc i)" using st(2) l_recv(3) by simp_all
  then show ?thesis using st(1,3) assms(4) unfolding l_recv(1) by (intro exI [of _ "Suc i"] exI [of _ j]) simp
next
  case (l_fail p rest)
  then show ?thesis using stage_left(2) [OF assms(1,2,4) l_fail(2)] by simp
next
  case (r_recv p rest b out)
  note st = stage_right [OF assms(1,2,3) r_recv(2)]
  have "b = ss (Suc j)" "out = so (Suc j)" using st(2) r_recv(3) by simp_all
  then show ?thesis using st(1,3) assms(3) unfolding r_recv(1) by (intro exI [of _ i] exI [of _ "Suc j"]) simp
next
  case (r_fail p rest)
  then show ?thesis using stage_right(2) [OF assms(1,2,3) r_fail(2)] by simp
qed

lemma stage_steps:
  assumes "scripts_fit f g cs co ss so n m" "at_stage cs co ss so 0 0 d0" "(duet_step f g ^^ k) d0 d"
  shows "\<exists>i j. at_stage cs co ss so i j d \<and> i \<le> n \<and> j \<le> m \<and> i + j = k"
  using assms(3)
proof (induction k arbitrary: d)
  case 0
  then show ?case using assms(2) by (intro exI [of _ 0]) simp
next
  case (Suc k)
  then obtain d1 where "(duet_step f g ^^ k) d0 d1" "duet_step f g d1 d" by auto
  with Suc.IH stage_step [OF assms(1)] show ?case by metis
qed

lemma stage_progress:
  assumes "scripts_fit f g cs co ss so n m" "at_stage cs co ss so i j d" "i \<le> n" "j \<le> m"
    "to_left d \<noteq> [] \<or> to_right d \<noteq> []"
  shows "\<exists>d'. duet_step f g d d'"
proof (cases "to_left d")
  case (Cons p rest)
  then show ?thesis using stage_left(2) [OF assms(1,2,4) Cons] l_recv by metis
next
  case Nil
  then obtain p rest where "to_right d = p # rest" using assms(5) by (cases "to_right d") auto
  then show ?thesis using stage_right(2) [OF assms(1,2,3)] r_recv by metis
qed

lemma stage_end:
  assumes "scripts_fit f g cs co ss so n m" "at_stage cs co ss so i j d" "i \<le> n" "j \<le> m"
    "to_left d = []" "to_right d = []"
  shows "i = n" "j = m"
proof -
  have "i = length (emitted so j)" "j = length (emitted co i)" using assms(2,5,6) by (simp_all add: at_stage_def)
  then show "i = n" "j = m" using assms(1,3,4) unfolding scripts_fit_def by blast+
qed

text \<open>
  The pair never crashes, takes at most \<open>n + m\<close> steps, can go on while a message is under way, and
  ends with both scripts played.
\<close>

lemma duet_completes:
  assumes "scripts_fit f g cs co ss so n m" "at_stage cs co ss so 0 0 d0" "(duet_step f g ^^ k) d0 d"
  shows "\<not> crashed d" "k \<le> n + m" "to_left d \<noteq> [] \<or> to_right d \<noteq> [] \<Longrightarrow> \<exists>d'. duet_step f g d d'"
    "to_left d = [] \<Longrightarrow> to_right d = [] \<Longrightarrow> left d = cs n \<and> right d = ss m"
proof -
  obtain i j where st: "at_stage cs co ss so i j d" "i \<le> n" "j \<le> m" "i + j = k"
    using stage_steps [OF assms] by blast
  show "\<not> crashed d" using st(1) by (simp add: at_stage_def)
  show "k \<le> n + m" using st by simp
  show "to_left d \<noteq> [] \<or> to_right d \<noteq> [] \<Longrightarrow> \<exists>d'. duet_step f g d d'" by (rule stage_progress [OF assms(1) st(1-3)])
  assume "to_left d = []" "to_right d = []"
  from stage_end [OF assms(1) st(1-3) this] st(1) show "left d = cs n \<and> right d = ss m" by (simp add: at_stage_def)
qed

text \<open>There is a run to the end.\<close>

lemma duet_ends:
  assumes "scripts_fit f g cs co ss so n m" "at_stage cs co ss so i j d" "i \<le> n" "j \<le> m"
  shows "\<exists>d'. (duet_step f g)\<^sup>*\<^sup>* d d' \<and> to_left d' = [] \<and> to_right d' = []"
  using assms(2-4)
proof (induction "n + m - (i + j)" arbitrary: i j d rule: less_induct)
  case less
  show ?case
  proof (cases "to_left d \<noteq> [] \<or> to_right d \<noteq> []")
    case True
    then obtain d1 where d1: "duet_step f g d d1" using stage_progress [OF assms(1) less.prems] by blast
    then obtain i' j' where s: "at_stage cs co ss so i' j' d1" "i' \<le> n" "j' \<le> m" "i' + j' = Suc (i + j)"
      using stage_step [OF assms(1) less.prems] by blast
    then have "n + m - (i' + j') < n + m - (i + j)" by simp
    from less.hyps [OF this s(1-3)] d1 show ?thesis by (meson converse_rtranclp_into_rtranclp)
  qed blast
qed

end
