(* ===== verification/Handshake.thy ===== *)
theory Handshake
  imports RunnerClaims KexTotal Duet
begin

text \<open>
  A client's and a server's runner joined by two links of payloads: a whole key exchange, the first of
  a connection or a later one, under every scheduling. The packet codec carries the payloads (that is
  \<open>PacketLink\<close>); here it contributes its sequence numbers and receives the keys.
\<close>

section \<open>One runner and its codec's counters\<close>

text \<open>Decoding a packet counts it, and so does encoding one.\<close>

definition counted_in :: "('s, 'e, 'd, 'r, 'g) kex_state \<Rightarrow> ('s, 'e, 'd, 'r, 'g) kex_state" where
  "counted_in s = s\<lparr>ks_codec := (ks_codec s)\<lparr>seq_in := seq_in (ks_codec s) + 1\<rparr>\<rparr>"

definition counted_out :: "nat \<Rightarrow> ('s, 'e, 'd, 'r, 'g) kex_state \<Rightarrow> ('s, 'e, 'd, 'r, 'g) kex_state" where
  "counted_out n s = s\<lparr>ks_codec := (ks_codec s)\<lparr>seq_out := seq_out (ks_codec s) + of_nat n\<rparr>\<rparr>"

text \<open>A payload arrives, the runner handles it, its answers go out; \<open>None\<close> is any failure.\<close>

definition take_packet :: "('s, 'e, 'd, 'r, 'g) kex_env \<Rightarrow> host_key option \<Rightarrow> host_key_verify option \<Rightarrow> bytes \<Rightarrow> bytes \<Rightarrow>
    ('s, 'e, 'd, 'r, 'g) kex_state \<Rightarrow> bytes \<Rightarrow> (('s, 'e, 'd, 'r, 'g) kex_state \<times> bytes list) option" where
  "take_packet E hk vf vc vs s payload =
     (case runner_on_packet E payload hk vf vc vs (counted_in s) of
        Some (s', Ok adv) \<Rightarrow> Some (counted_out (length (ka_outbound adv)) s', ka_outbound adv)
      | _ \<Rightarrow> None)"

lemma counted_simps [simp]:
  "ks_runner (counted_in s) = ks_runner s" "ks_rng (counted_in s) = ks_rng s"
  "ks_runner (counted_out n s) = ks_runner s" "ks_rng (counted_out n s) = ks_rng s"
  "ks_codec (counted_in s) = (ks_codec s)\<lparr>seq_in := seq_in (ks_codec s) + 1\<rparr>"
  "ks_codec (counted_out n s) = (ks_codec s)\<lparr>seq_out := seq_out (ks_codec s) + of_nat n\<rparr>"
  by (simp_all add: counted_in_def counted_out_def)

lemma take_dispatch:
  assumes "payload = msg # rest" "\<not> kr_pending_discard (ks_runner s)" "msg = 20 \<or> msg = 21 \<or> kex_specific msg"
    "dispatch E payload msg hk vf vc vs (closed (counted_in s)) = Some (s', Ok adv)"
  shows "take_packet E hk vf vc vs s payload = Some (counted_out (length (ka_outbound adv)) s', ka_outbound adv)"
proof -
  have "runner_on_packet E payload hk vf vc vs (counted_in s) =
      Some (s', Ok (adv\<lparr>ka_completed := is_completed (ks_runner s')\<rparr>))"
    using assms(1-3) assms(4) [unfolded closed_def]
    by (auto simp: runner_on_packet_def Let_def act_bind_def)
  then show ?thesis by (simp add: take_packet_def)
qed

section \<open>The stages of an exchange\<close>

text \<open>Our KEXINIT is out, the peer's is awaited.\<close>

definition about_to_exchange :: "role \<Rightarrow> kex_init \<Rightarrow> ('s, 'e, 'd, 'r, 'g) kex_state \<Rightarrow> bool" where
  "about_to_exchange role advert s \<longleftrightarrow>
     (let r = ks_runner s in kr_role r = role \<and> kr_our_advert r = advert \<and> kr_our_advert_bytes r = kexinit_encode advert
      \<and> kr_phase r = SentKexInit \<and> \<not> kr_sent_newkeys r \<and> \<not> kr_peer_newkeys r \<and> \<not> kr_pending_discard r
      \<and> kr_outbound_ext_info r = None)"

text \<open>The algorithms are agreed: what both sides now hold.\<close>

definition mid_exchange :: "role \<Rightarrow> bytes \<Rightarrow> bytes \<Rightarrow> negotiated \<Rightarrow> kex_backend \<Rightarrow> bytes option \<Rightarrow> bool \<Rightarrow>
    'g phase \<Rightarrow> ('s, 'e, 'd, 'r, 'g) kex_state \<Rightarrow> bool" where
  "mid_exchange role ours theirs neg be sid strict ph s \<longleftrightarrow>
     (let r = ks_runner s in kr_role r = role \<and> kr_our_advert_bytes r = ours \<and> kr_peer_advert_bytes r = Some theirs
      \<and> kr_negotiated r = Some neg \<and> kr_backend r = Some be \<and> kr_session_id r = sid \<and> kr_strict_kex r = strict
      \<and> kr_phase r = ph \<and> \<not> kr_peer_newkeys r \<and> \<not> kr_pending_discard r \<and> kr_outbound_ext_info r = None)"

text \<open>Keys are derived and our NEWKEYS is out.\<close>

definition keyed :: "role \<Rightarrow> negotiated \<Rightarrow> bytes \<Rightarrow> bool \<Rightarrow> installed_keys \<Rightarrow> ('s, 'e, 'd, 'r, 'g) kex_state \<Rightarrow> bool" where
  "keyed role neg sid strict keys s \<longleftrightarrow>
     (let r = ks_runner s in kr_role r = role \<and> kr_negotiated r = Some neg \<and> kr_session_id r = Some sid
      \<and> kr_strict_kex r = strict \<and> kr_installed_keys r = Some keys \<and> kr_sent_newkeys r
      \<and> kr_phase r = AwaitingPeerNewKeys \<and> \<not> kr_pending_discard r \<and> kr_outbound_ext_info r = None)"

lemma note_agreed_more [simp]:
  "kr_pending_discard (note_agreed out sig r) = kr_pending_discard r"
  "kr_outbound_ext_info (note_agreed out sig r) = kr_outbound_ext_info r"
  by (auto simp: note_agreed_def Let_def split: option.splits)

lemma note_negotiated_discard:
  "\<not> first_kex_packet_follows peer \<Longrightarrow> kr_pending_discard (note_negotiated peer neg be r) = kr_pending_discard r"
  by (simp add: note_negotiated_def case_prod_unfold Let_def)

lemma kexinit_begins:
  assumes "kexinit_decode payload = Ok peer"
    "(case kr_role (ks_runner s) of Client \<Rightarrow> negotiate (kr_our_advert (ks_runner s)) peer
       | Server \<Rightarrow> negotiate peer (kr_our_advert (ks_runner s))) = Ok neg"
    "strict_kex_enabled neg \<and> kr_session_id (ks_runner s) = None \<longrightarrow> q = 1"
    "kex_backend_from_name (ng_kex neg) = Ok be"
  shows "handle_peer_kexinit E q payload s = begin_method E (kr_role (ks_runner s)) be
    (s\<lparr>ks_runner := note_negotiated peer neg be ((ks_runner s)\<lparr>kr_peer_advert_bytes := Some payload\<rparr>)\<rparr>)"
  using assms by (cases "kr_role (ks_runner s)") (auto simp: handle_peer_kexinit_def Let_def)

lemma kexinit_starts: "\<exists>rest. kexinit_encode a = SSH_MSG_KEXINIT # rest"
  by (simp add: kexinit_encode_bytes)

text \<open>The peer's KEXINIT: the client answers with the method's first message, the server waits for it.\<close>

lemma stage_kexinit:
  assumes "about_to_exchange role advert s" "kexinit_decode payload = Ok peer" "payload = kexinit_encode peer"
    "(case role of Client \<Rightarrow> negotiate advert peer | Server \<Rightarrow> negotiate peer advert) = Ok neg"
    "kr_session_id (ks_runner s) = None \<longrightarrow> seq_in (ks_codec s) = 0"
    "kex_backend_from_name (ng_kex neg) = Ok be" "\<not> first_kex_packet_follows peer"
    "begin_method E role be ((closed (counted_in s))\<lparr>ks_runner := note_negotiated peer neg be
       ((ks_runner (closed (counted_in s)))\<lparr>kr_peer_advert_bytes := Some payload\<rparr>)\<rparr>) = Some (s', Ok adv)"
  shows "take_packet E hk vf vc vs s payload = Some (counted_out (length (ka_outbound adv)) s', ka_outbound adv)"
proof -
  obtain rest where p: "payload = SSH_MSG_KEXINIT # rest" using kexinit_starts assms(3) by metis
  let ?s = "closed (counted_in s)"
  have "handle_peer_kexinit E (seq_in (ks_codec ?s)) payload ?s = Some (s', Ok adv)"
    using kexinit_begins [of payload peer ?s neg "seq_in (ks_codec ?s)" be E] assms
    by (simp add: about_to_exchange_def Let_def cong: role.case_cong)
  then have "dispatch E payload SSH_MSG_KEXINIT hk vf vc vs ?s = Some (s', Ok adv)"
    using assms(1) by (simp add: dispatch_def about_to_exchange_def Let_def)
  then show ?thesis
    using assms(1) by (intro take_dispatch [OF p]) (simp_all add: about_to_exchange_def Let_def SSH_MSG_KEXINIT_def)
qed

lemma client_kexinit:
  assumes "about_to_exchange Client advert s" "kexinit_decode (kexinit_encode peer) = Ok peer"
    "negotiate advert peer = Ok neg" "kr_session_id (ks_runner s) = None \<longrightarrow> seq_in (ks_codec s) = 0"
    "kex_backend_from_name (ng_kex neg) = Ok be" "\<not> first_kex_packet_follows peer" "two_message be"
    "client_init_for (ke_kex E) (Some neg) be (ks_rng s) = (g, Ok (st, p))"
  obtains s1 where "take_packet E hk vf vc vs s (kexinit_encode peer) = Some (s1, [p])"
    "mid_exchange Client (kexinit_encode advert) (kexinit_encode peer) neg be (kr_session_id (ks_runner s))
       (kr_strict_kex (ks_runner s) \<or> strict_kex_enabled neg) (Negotiated (Some st)) s1"
    "ks_codec s1 = (ks_codec s)\<lparr>seq_in := seq_in (ks_codec s) + 1, seq_out := seq_out (ks_codec s) + 1\<rparr>"
proof -
  let ?s = "closed (counted_in s)"
  let ?r = "note_negotiated peer neg be ((ks_runner ?s)\<lparr>kr_peer_advert_bytes := Some (kexinit_encode peer)\<rparr>)"
  let ?s' = "?s\<lparr>ks_runner := ?r\<lparr>kr_phase := Negotiated (Some st)\<rparr>, ks_rng := g\<rparr>"
  have be: "be \<noteq> Gex" "be \<noteq> GexSha1" using assms(7) by (simp_all add: two_message_def)
  have b: "begin_method E Client be (?s\<lparr>ks_runner := ?r\<rparr>) = Some (?s', Ok (advance [p]))"
    using be assms(8)
    by (simp add: begin_method_def act_bind_def with_rng_def build_client_init_def ok_or_def st_try_def)
  have "take_packet E hk vf vc vs s (kexinit_encode peer) = Some (counted_out 1 ?s', [p])"
    using stage_kexinit [OF assms(1,2) refl _ assms(4-6) b, of hk vf vc vs] assms(3) by (simp add: advance_def)
  moreover have "mid_exchange Client (kexinit_encode advert) (kexinit_encode peer) neg be (kr_session_id (ks_runner s))
       (kr_strict_kex (ks_runner s) \<or> strict_kex_enabled neg) (Negotiated (Some st)) (counted_out 1 ?s')"
    using assms(1,6) by (simp add: mid_exchange_def about_to_exchange_def Let_def note_negotiated_discard)
  ultimately show ?thesis by (rule that) simp
qed


text \<open>
  The method's last message: keys are derived and NEWKEYS goes out. \<open>finish_exchange\<close> runs in a state
  that still holds what was negotiated.
\<close>

lemma stage_finish:
  assumes "mid_exchange role ours theirs neg be sid strict ph s"
    "keys_for (ke_hash E) be neg (ko_k out) (ko_h out) (sid_after (ko_h out) sid) keys"
    "ks_runner t = (ks_runner (closed (counted_in s)))\<lparr>kr_phase := ph'\<rparr>" "ks_codec t = ks_codec (counted_in s)"
  obtains s2 where "finish_exchange E out sig replies t = Some (s2, Ok (advance (replies @ [[SSH_MSG_NEWKEYS]])))"
    "keyed role neg (sid_after (ko_h out) sid) strict keys s2"
    "ks_codec s2 = ks_codec (counted_in s)"
proof -
  have f: "finish_exchange E out sig replies t = Some (t\<lparr>ks_runner := (note_agreed out sig (ks_runner t))\<lparr>
      kr_installed_keys := Some keys, kr_sent_newkeys := True, kr_phase := AwaitingPeerNewKeys\<rparr>\<rparr>,
      Ok (advance (replies @ [[SSH_MSG_NEWKEYS]])))"
    using assms(1,2) by (intro finish_waits) (simp_all add: assms(3) mid_exchange_def Let_def)
  show ?thesis
    by (rule that [OF f])
      (use assms in \<open>auto simp: keyed_def mid_exchange_def Let_def sid_after_def split: option.splits\<close>)
qed

definition context_of :: "bytes \<Rightarrow> bytes \<Rightarrow> bytes \<Rightarrow> bytes \<Rightarrow> kex_context" where
  "context_of vc vs ic is = \<lparr>v_c = vc, v_s = vs, i_c = ic, i_s = is\<rparr>"


lemma client_reply_stage:
  assumes "mid_exchange Client ours theirs neg be sid strict (Negotiated (Some st)) s" "two_message be"
    "client_finish_for (ke_kex E) (ke_hash E) be st (SSH_MSG_KEX_ECDH_REPLY # p) vf (context_of vc vs ours theirs) = Ok ko"
    "keys_for (ke_hash E) be neg (ko_k ko) (ko_h ko) (sid_after (ko_h ko) sid) keys"
  obtains s2 where "take_packet E hk (Some vf) vc vs s (SSH_MSG_KEX_ECDH_REPLY # p) = Some (s2, [[SSH_MSG_NEWKEYS]])"
    "keyed Client neg (sid_after (ko_h ko) sid) strict keys s2"
    "ks_codec s2 = (ks_codec s)\<lparr>seq_in := seq_in (ks_codec s) + 1, seq_out := seq_out (ks_codec s) + 1\<rparr>"
proof -
  let ?s = "closed (counted_in s)"
  let ?t = "?s\<lparr>ks_runner := (ks_runner ?s)\<lparr>kr_phase := Idle\<rparr>\<rparr>"
  let ?p = "SSH_MSG_KEX_ECDH_REPLY # p"
  have be: "be \<noteq> Gex" "be \<noteq> GexSha1" using assms(2) by (simp_all add: two_message_def)
  have mid: "kr_role (ks_runner s) = Client" "kr_backend (ks_runner s) = Some be" "\<not> kr_pending_discard (ks_runner s)"
    "kr_phase (ks_runner s) = Negotiated (Some st)" "kr_our_advert_bytes (ks_runner s) = ours"
    "kr_peer_advert_bytes (ks_runner s) = Some theirs"
    using assms(1) by (simp_all add: mid_exchange_def Let_def)
  have ctx: "kex_context_of (ks_runner ?s) vc vs = context_of vc vs ours theirs"
    by (simp add: kex_context_of_def context_of_def mid Let_def)
  obtain s2 where fin: "finish_exchange E ko (Some (host_key_and_sig ?p)) [] ?t
      = Some (s2, Ok (advance ([] @ [[SSH_MSG_NEWKEYS]])))"
    "keyed Client neg (sid_after (ko_h ko) sid) strict keys s2" "ks_codec s2 = ks_codec (counted_in s)"
    by (rule stage_finish [OF assms(1,4), of ?t Idle "Some (host_key_and_sig ?p)" "[]"]) simp_all
  have "handle_kex_reply_message E ?p (Some vf) vc vs ?s = finish_exchange E ko (Some (host_key_and_sig ?p)) [] ?t"
    using assms(3) ctx by (simp add: handle_kex_reply_message_def ok_or_def mid Let_def)
  then have "dispatch E ?p SSH_MSG_KEX_ECDH_REPLY hk (Some vf) vc vs ?s
      = Some (s2, Ok (advance ([] @ [[SSH_MSG_NEWKEYS]])))"
    using fin(1) be by (simp add: dispatch_def mid uses_gex_def Let_def SSH_MSG_KEX_ECDH_REPLY_def SSH_MSG_KEX_ECDH_INIT_def)
  then have "take_packet E hk (Some vf) vc vs s ?p = Some (counted_out 1 s2, [[SSH_MSG_NEWKEYS]])"
    using take_dispatch [OF refl mid(3), of SSH_MSG_KEX_ECDH_REPLY E p hk "Some vf" vc vs]
    by (simp add: SSH_MSG_KEX_ECDH_REPLY_def kex_specific_def advance_def)
  then show ?thesis by (rule that) (use fin(2,3) in \<open>simp_all add: keyed_def\<close>)
qed


section \<open>The whole exchange\<close>

type_synonym ('s, 'e, 'd, 'r, 'g) session =
  "(('s, 'e, 'd, 'r, 'g) kex_state, ('s, 'e, 'd, 'r, 'g) kex_state, bytes) duet"


text \<open>
  Both KEXINITs are under way. In a first exchange nothing else has been received; the counters of the
  two ends differ by the KEXINIT on the link.
\<close>

definition exchange_start :: "kex_init \<Rightarrow> kex_init \<Rightarrow> ('s, 'e, 'd, 'r, 'g) session \<Rightarrow> bool" where
  "exchange_start a_c a_s d \<longleftrightarrow>
     about_to_exchange Client a_c (left d) \<and> about_to_exchange Server a_s (right d)
     \<and> to_left d = [kexinit_encode a_s] \<and> to_right d = [kexinit_encode a_c] \<and> \<not> crashed d
     \<and> kr_session_id (ks_runner (left d)) = kr_session_id (ks_runner (right d))
     \<and> kr_strict_kex (ks_runner (left d)) = kr_strict_kex (ks_runner (right d))
     \<and> seq_out (ks_codec (left d)) = seq_in (ks_codec (right d)) + 1
     \<and> seq_out (ks_codec (right d)) = seq_in (ks_codec (left d)) + 1
     \<and> (kr_session_id (ks_runner (left d)) = None \<longrightarrow>
          seq_in (ks_codec (left d)) = 0 \<and> seq_in (ks_codec (right d)) = 0)"

definition parties_ok :: "('s, 'e, 'd, 'r, 'g) kex_env \<Rightarrow> host_key \<Rightarrow> host_key_verify \<Rightarrow> bool" where
  "parties_ok E hk vf \<longleftrightarrow> kex_prims_ok (ke_kex E) \<and> kex_prims_total (ke_kex E) \<and> hash_ok (ke_hash E)
     \<and> hk_ok hk \<and> signs hk \<and> accepts vf hk"

definition terms_agreed :: "kex_init \<Rightarrow> kex_init \<Rightarrow> negotiated \<Rightarrow> kex_backend \<Rightarrow> bool" where
  "terms_agreed a_c a_s neg be \<longleftrightarrow> kexinit_wf a_c \<and> kexinit_wf a_s \<and> negotiate a_c a_s = Ok neg
     \<and> kex_backend_from_name (ng_kex neg) = Ok be \<and> two_message be \<and> suites_agreed neg
     \<and> \<not> first_kex_packet_follows a_c \<and> \<not> first_kex_packet_follows a_s"



lemma two_message_messages:
  assumes "parties_ok E hk vf" "two_message be"
  obtains g st p g' out q where "client_init_for (ke_kex E) (Some neg) be r1 = (g, Ok (st, SSH_MSG_KEX_ECDH_INIT # p))"
    "server_reply_for (ke_kex E) (ke_hash E) be r2 (SSH_MSG_KEX_ECDH_INIT # p) hk ctx = (g', Ok out)"
    "sr_payload out = SSH_MSG_KEX_ECDH_REPLY # q"
    "client_finish_for (ke_kex E) (ke_hash E) be st (SSH_MSG_KEX_ECDH_REPLY # q) vf ctx = Ok (sr_kex out)"
proof -
  have laws: "kex_prims_ok (ke_kex E)" "kex_prims_total (ke_kex E)" "hk_ok hk" "signs hk" "accepts vf hk"
    using assms(1) by (simp_all add: parties_ok_def)
  have usable: "kex_prims_ok (ke_kex E) \<and> two_message be" using laws(1) assms(2) by simp
  obtain g st p where i: "client_init_for (ke_kex E) (Some neg) be r1 = (g, Ok (st, SSH_MSG_KEX_ECDH_INIT # p))"
    using twom.init_starts [OF usable] by blast
  obtain g' out where o: "server_reply_for (ke_kex E) (ke_hash E) be r2 (SSH_MSG_KEX_ECDH_INIT # p) hk ctx = (g', Ok out)"
    using server_replies [OF laws(1,2,4) assms(2) i] by blast
  obtain q where q: "sr_payload out = SSH_MSG_KEX_ECDH_REPLY # q" using twom.reply_starts [OF o] by blast
  show ?thesis
    using that [OF i o q] twom.completes(1) [OF usable laws(3,5) i o] q by simp
qed










section \<open>A concrete exchange\<close>

definition demo_session :: "(unit, bytes, bytes, nat, bytes \<times> bytes) session" where
  "demo_session = \<lparr>left = counted_out 1 (started_state Client), right = counted_out 1 (started_state Server),
     to_left = [kexinit_encode (default_kexinit Server)], to_right = [kexinit_encode (default_kexinit Client)],
     crashed = False\<rparr>"

definition demo_terms :: negotiated where
  "demo_terms = \<lparr>ng_kex = lit ''mlkem768x25519-sha256'', ng_host_key = lit ''ssh-ed25519'',
     ng_cipher_c2s = lit ''chacha20-poly1305@openssh.com'', ng_cipher_s2c = lit ''chacha20-poly1305@openssh.com'',
     ng_mac_c2s = [], ng_mac_s2c = [], ng_comp_c2s = lit ''none'', ng_comp_s2c = lit ''none'',
     wrong_guess = False, strict_kex_enabled = True, ext_info_enabled = True,
     client_ext_info = True, server_ext_info = True\<rparr>"

lemma demo_start: "exchange_start (default_kexinit Client) (default_kexinit Server) demo_session"
  by (simp add: exchange_start_def about_to_exchange_def demo_session_def started_state_def fresh_state_def
      runner_new_def codec_new_def Let_def)

lemma demo_agreed: "terms_agreed (default_kexinit Client) (default_kexinit Server) demo_terms MlKem768X25519"
proof -
  have "negotiate (default_kexinit Client) (default_kexinit Server) = Ok demo_terms"
    by (simp add: default_negotiation demo_terms_def)
  moreover have "kex_backend_from_name (ng_kex demo_terms) = Ok MlKem768X25519"
    by (simp add: demo_terms_def kex_backend_from_name_def lit_def)
  moreover have "suite_ok (lit ''chacha20-poly1305@openssh.com'') []"
    by (simp add: suite_ok_def cipher_spec_by_name_def ALL_CIPHERS_def cipher_spec_of_def)
  ultimately show ?thesis
    using default_kexinit_ok
    by (simp add: terms_agreed_def two_message_def suites_agreed_def default_other_lists)
      (simp add: demo_terms_def)
qed

lemma toy_parties: "parties_ok toy_env toy_key toy_verify"
proof -
  have "kex_prims_total toy_kex" by (simp add: kex_prims_total_def toy_kex_def)
  moreover have "signs toy_key" by (simp add: signs_def toy_key_def)
  ultimately show ?thesis
    using toy_kex_ok toy_hash_ok toy_key_ok by (simp add: parties_ok_def toy_env_def)
qed



section \<open>The client trusts only what its verifier accepted\<close>

text \<open>
  Claim C3. Server authentication: whatever a reachable client is sent, it takes on a new exchange
  hash, a session id, or goes on to NEWKEYS only if the verifier it was given has accepted the
  signature in that very packet on the new exchange hash, which then is the session id of a first
  exchange; a later exchange keeps the session id.
\<close>

theorem client_authenticates_server:
  assumes "kex_reachable E s" "kr_role (ks_runner s) = Client"
    "runner_on_packet E payload hk verifier vc vs s = Some (s', x)"
    "kr_phase (ks_runner s) \<noteq> AwaitingPeerNewKeys"
    "kr_phase (ks_runner s') = AwaitingPeerNewKeys \<or> kr_current_h (ks_runner s') \<noteq> kr_current_h (ks_runner s)
       \<or> kr_session_id (ks_runner s') \<noteq> kr_session_id (ks_runner s)"
  shows "\<exists>vf k_s sig h. verifier = Some vf \<and> host_key_and_sig payload = Some (k_s, sig) \<and> vf h sig = Ok ()
    \<and> kr_current_h (ks_runner s') = Some h
    \<and> kr_session_id (ks_runner s') = (case kr_session_id (ks_runner s) of None \<Rightarrow> Some h | Some old \<Rightarrow> Some old)"
  using client_packet_vouched [OF assms(1-4)] assms(5) by (simp add: hash_vouched_def)

lemma reachable_codec: "kex_reachable E s \<Longrightarrow> kex_reachable E (s\<lparr>ks_codec := k\<rparr>)"
proof -
  have "s\<lparr>ks_codec := k\<rparr> = s\<lparr>ks_codec := k, ks_rng := ks_rng s\<rparr>" by simp
  then have "kex_step E s (s\<lparr>ks_codec := k\<rparr>)" by (metis k_caller)
  then show "kex_reachable E s \<Longrightarrow> kex_reachable E (s\<lparr>ks_codec := k\<rparr>)"
    unfolding kex_reachable_def by (meson rtranclp.rtrancl_into_rtrancl)
qed

lemma take_packet_step:
  assumes "take_packet E hk vf vc vs s p = Some (s', out)" "kex_reachable E s"
  obtains s1 x where "kex_reachable E (counted_in s)" "runner_on_packet E p hk vf vc vs (counted_in s) = Some (s1, x)"
    "s' = counted_out (length out) s1" "kex_reachable E s'"
proof -
  have r: "kex_reachable E (counted_in s)" unfolding counted_in_def by (rule reachable_codec [OF assms(2)])
  obtain s1 adv where p: "runner_on_packet E p hk vf vc vs (counted_in s) = Some (s1, Ok adv)"
    "s' = counted_out (length out) s1"
    using assms(1) by (auto simp: take_packet_def split: option.splits prod.splits res.splits)
  have "kex_reachable E s1"
    using r k_packet [OF p(1)] unfolding kex_reachable_def by (meson rtranclp.rtrancl_into_rtrancl)
  then have "kex_reachable E s'" unfolding p(2) counted_out_def by (rule reachable_codec)
  with that r p show ?thesis by blast
qed

lemma demo_client:
  obtains c1 c2 q st where "kex_reachable toy_env c1" "kr_phase (ks_runner c1) = Negotiated st"
    "kr_role (ks_runner c1) = Client"
    "take_packet toy_env None (Some toy_verify) [] [] c1 (SSH_MSG_KEX_ECDH_REPLY # q) = Some (c2, [[SSH_MSG_NEWKEYS]])"
    "kr_phase (ks_runner c2) = AwaitingPeerNewKeys"
proof -
  let ?c = "counted_out 1 (started_state Client)"
  let ?ec = "kexinit_encode (default_kexinit Client)" and ?es = "kexinit_encode (default_kexinit Server)"
  have start: "about_to_exchange Client (default_kexinit Client) ?c"
    "kr_session_id (ks_runner ?c) = None \<longrightarrow> seq_in (ks_codec ?c) = 0"
    using demo_start by (simp_all add: exchange_start_def demo_session_def)
  have t: "kexinit_decode ?es = Ok (default_kexinit Server)"
    "negotiate (default_kexinit Client) (default_kexinit Server) = Ok demo_terms"
    "kex_backend_from_name (ng_kex demo_terms) = Ok MlKem768X25519" "two_message MlKem768X25519"
    "\<not> first_kex_packet_follows (default_kexinit Server)" "suites_agreed demo_terms"
    using demo_agreed kexinit_round_trip kexinit_wf_small by (auto simp: terms_agreed_def)
  obtain g st p g' out q where m:
    "client_init_for (ke_kex toy_env) (Some demo_terms) MlKem768X25519 (ks_rng ?c) = (g, Ok (st, SSH_MSG_KEX_ECDH_INIT # p))"
    "server_reply_for (ke_kex toy_env) (ke_hash toy_env) MlKem768X25519 0 (SSH_MSG_KEX_ECDH_INIT # p) toy_key
       (context_of [] [] ?ec ?es) = (g', Ok out)" "sr_payload out = SSH_MSG_KEX_ECDH_REPLY # q"
    "client_finish_for (ke_kex toy_env) (ke_hash toy_env) MlKem768X25519 st (SSH_MSG_KEX_ECDH_REPLY # q) toy_verify
       (context_of [] [] ?ec ?es) = Ok (sr_kex out)"
    by (rule two_message_messages [OF toy_parties t(4)])
  obtain c1 where c1: "take_packet toy_env None (Some toy_verify) [] [] ?c ?es = Some (c1, [SSH_MSG_KEX_ECDH_INIT # p])"
    "mid_exchange Client ?ec ?es demo_terms MlKem768X25519 (kr_session_id (ks_runner ?c))
       (kr_strict_kex (ks_runner ?c) \<or> strict_kex_enabled demo_terms) (Negotiated (Some st)) c1"
    by (rule client_kexinit [OF start(1) t(1,2) start(2) t(3,5,4) m(1)])
  have "kex_reachable toy_env (started_state Client)"
    using started_steps [of Client] unfolding kex_reachable_def fresh_state_def by blast
  then have "kex_reachable toy_env c1"
    using take_packet_step [OF c1(1)] reachable_codec unfolding counted_out_def by blast
  moreover obtain keys a b where k: "keys_for (ke_hash toy_env) MlKem768X25519 demo_terms (ko_k (sr_kex out))
      (ko_h (sr_kex out)) (sid_after (ko_h (sr_kex out)) (kr_session_id (ks_runner ?c))) keys"
    "dir_slot plain_prims (keys_c2s keys) a" "dir_slot plain_prims (keys_s2c keys) b"
    using keys_exist [OF _ t(6)] toy_parties unfolding parties_ok_def by metis
  moreover obtain c2 where "take_packet toy_env None (Some toy_verify) [] [] c1 (SSH_MSG_KEX_ECDH_REPLY # q)
      = Some (c2, [[SSH_MSG_NEWKEYS]])" "keyed Client demo_terms (sid_after (ko_h (sr_kex out)) (kr_session_id (ks_runner ?c)))
       (kr_strict_kex (ks_runner ?c) \<or> strict_kex_enabled demo_terms) keys c2"
    by (rule client_reply_stage [OF c1(2) t(4) m(4) k(1)])
  ultimately show ?thesis
    using c1(2) that by (simp add: mid_exchange_def keyed_def Let_def)
qed

theorem client_authenticates_server_witness:
  "\<exists>s payload s' x h sig. kex_reachable toy_env s \<and> kr_role (ks_runner s) = Client
     \<and> runner_on_packet toy_env payload None (Some toy_verify) [] [] s = Some (s', x)
     \<and> kr_phase (ks_runner s') = AwaitingPeerNewKeys
     \<and> toy_verify h sig = Ok () \<and> kr_current_h (ks_runner s') = Some h"
proof -
  obtain c1 c2 q st where c: "kex_reachable toy_env c1" "kr_phase (ks_runner c1) = Negotiated st"
    "kr_role (ks_runner c1) = Client"
    "take_packet toy_env None (Some toy_verify) [] [] c1 (SSH_MSG_KEX_ECDH_REPLY # q) = Some (c2, [[SSH_MSG_NEWKEYS]])"
    "kr_phase (ks_runner c2) = AwaitingPeerNewKeys" by (rule demo_client)
  obtain s1 x where s1: "kex_reachable toy_env (counted_in c1)"
    "runner_on_packet toy_env (SSH_MSG_KEX_ECDH_REPLY # q) None (Some toy_verify) [] [] (counted_in c1) = Some (s1, x)"
    "c2 = counted_out (length [[SSH_MSG_NEWKEYS]]) s1"
    by (rule take_packet_step [OF c(4,1)])
  have p: "kr_phase (ks_runner s1) = AwaitingPeerNewKeys" using c(5) s1(3) by simp
  have "\<exists>vf k_s sig h. Some toy_verify = Some vf \<and> host_key_and_sig (SSH_MSG_KEX_ECDH_REPLY # q) = Some (k_s, sig)
      \<and> vf h sig = Ok () \<and> kr_current_h (ks_runner s1) = Some h
      \<and> kr_session_id (ks_runner s1) = (case kr_session_id (ks_runner (counted_in c1)) of None \<Rightarrow> Some h | Some old \<Rightarrow> Some old)"
    by (rule client_authenticates_server [OF s1(1) _ s1(2)]) (use c(2,3) p in simp_all)
  with s1(1,2) c(3) p show ?thesis by (metis counted_simps(1) option.inject)
qed

end
