(* ===== verification/Reading.thy ===== *)
theory Reading
  imports ChannelMsg
begin

text \<open>
  Decoders and what their result depends on. A decoder is local when it looks only at the bytes it
  consumes: on any buffer that continues those bytes differently it yields the same value. The field
  readers are local and sequencing keeps it, so a signature over the consumed bytes covers every
  field read from them.
\<close>

section \<open>Two more steps of a decoder\<close>

text \<open>\<open>if !r.is_empty() { return Err(e) }\<close> and \<open>?\<close> on a value computed from fields.\<close>

definition rd_end :: "error \<Rightarrow> unit rd" where
  "rd_end e r = (if reader_is_empty r then Ok ((), r) else Err e)"

definition rd_res :: "'a res \<Rightarrow> 'a rd" where
  "rd_res m r = map_res (\<lambda>x. (x, r)) m"

definition rd_check :: "bool \<Rightarrow> error \<Rightarrow> unit rd" where
  "rd_check c e r = (if c then Ok ((), r) else Err e)"

lemma rd_end_at [wire_simps]: "rd_bind (rd_end e) f (rd_at pre post) = (if post = [] then f () (rd_at pre post) else Err e)"
  by (simp add: rd_bind_def rd_end_def)

lemma rd_res_Ok [wire_simps]: "rd_bind (rd_res (Ok x)) f r = f x r"
  by (simp add: rd_bind_def rd_res_def)

lemma rd_res_Err [wire_simps]: "rd_bind (rd_res (Err e)) f r = Err e"
  by (simp add: rd_bind_def rd_res_def)

lemma rd_check_bind [wire_simps]: "rd_bind (rd_check c e) f r = (if c then f () r else Err e)"
  by (simp add: rd_bind_def rd_check_def)

lemma safe_rd_end: "safe_rd (rd_end e)"
  by (rule safe_rdI) (simp add: rd_end_def)

lemma safe_rd_res: "m \<noteq> Panic \<Longrightarrow> safe_rd (rd_res m)"
  by (rule safe_rdI) (simp add: rd_res_def)

lemma safe_rd_check: "safe_rd (rd_check c e)"
  by (rule safe_rdI) (simp add: rd_check_def)

lemmas safe_decoders = safe_reads safe_rd_end safe_rd_check

section \<open>Locality\<close>

definition consumes :: "'a rd \<Rightarrow> bytes \<Rightarrow> 'a \<Rightarrow> bool" where
  "consumes m x v \<longleftrightarrow>
     (\<forall>pre post. fits pre (x @ post) \<longrightarrow> m (rd_at pre (x @ post)) = Ok (v, rd_at (pre @ x) post))"

definition local_rd :: "'a rd \<Rightarrow> bool" where
  "local_rd m \<longleftrightarrow>
     (\<forall>pre s v r. fits pre s \<longrightarrow> m (rd_at pre s) = Ok (v, r) \<longrightarrow>
        (\<exists>x t. s = x @ t \<and> r = rd_at (pre @ x) t \<and> consumes m x v))"

lemma consumesD: "consumes m x v \<Longrightarrow> fits pre (x @ post) \<Longrightarrow> m (rd_at pre (x @ post)) = Ok (v, rd_at (pre @ x) post)"
  by (simp add: consumes_def)

lemma consumes_unique: "consumes m x v \<Longrightarrow> consumes m x w \<Longrightarrow> small x \<Longrightarrow> v = w"
  using consumesD [of m x v "[]" "[]"] consumesD [of m x w "[]" "[]"] by simp

lemma consumes_bind:
  assumes "consumes m x v" "consumes (f v) y w"
  shows "consumes (rd_bind m f) (x @ y) w"
  unfolding consumes_def
proof (intro allI impI)
  fix pre post
  assume fit: "fits pre ((x @ y) @ post)"
  then have "m (rd_at pre (x @ (y @ post))) = Ok (v, rd_at (pre @ x) (y @ post))"
    using consumesD [OF assms(1), of pre "y @ post"] by simp
  moreover have "f v (rd_at (pre @ x) (y @ post)) = Ok (w, rd_at ((pre @ x) @ y) post)"
    using fit consumesD [OF assms(2), of "pre @ x" post] by simp
  ultimately show "rd_bind m f (rd_at pre ((x @ y) @ post)) = Ok (w, rd_at (pre @ x @ y) post)"
    by (simp add: rd_bind_def)
qed

lemma local_rdE:
  assumes "local_rd m" "fits pre s" "m (rd_at pre s) = Ok (v, r)"
  obtains x t where "s = x @ t" "r = rd_at (pre @ x) t" "consumes m x v"
  using assms unfolding local_rd_def by blast

lemma local_bind:
  assumes "local_rd m" "\<And>v. local_rd (f v)"
  shows "local_rd (rd_bind m f)"
  unfolding local_rd_def
proof (intro allI impI)
  fix pre s w r
  assume fit: "fits pre s" and run: "rd_bind m f (rd_at pre s) = Ok (w, r)"
  obtain v r1 where m: "m (rd_at pre s) = Ok (v, r1)" and f: "f v r1 = Ok (w, r)"
    using run by (auto simp: rd_bind_eq_Ok)
  obtain x t where x: "s = x @ t" "r1 = rd_at (pre @ x) t" "consumes m x v"
    using local_rdE [OF assms(1) fit m] .
  have "fits (pre @ x) t" using fit x(1) by simp
  then obtain y u where y: "t = y @ u" "r = rd_at ((pre @ x) @ y) u" "consumes (f v) y w"
    using local_rdE [OF assms(2)] f x(2) by blast
  show "\<exists>x t. s = x @ t \<and> r = rd_at (pre @ x) t \<and> consumes (rd_bind m f) x w"
    using x y consumes_bind [of m x v f y w] by (intro exI [of _ "x @ y"] exI [of _ u]) simp
qed

text \<open>A step that does not move the cursor.\<close>

lemma local_still:
  assumes "\<And>r. m r = Ok (v, r) \<or> (\<forall>w. m r \<noteq> Ok w)" "\<And>r r'. m r = Ok (v, r) \<Longrightarrow> m r' = Ok (v, r')"
  shows "local_rd m"
  unfolding local_rd_def consumes_def
proof (intro allI impI)
  fix pre s w r
  assume "m (rd_at pre s) = Ok (w, r)"
  then have run: "m (rd_at pre s) = Ok (v, rd_at pre s)" "w = v" "r = rd_at pre s"
    using assms(1) [of "rd_at pre s"] by auto
  with assms(2) show "\<exists>x t. s = x @ t \<and> r = rd_at (pre @ x) t \<and>
      (\<forall>pre post. fits pre (x @ post) \<longrightarrow> m (rd_at pre (x @ post)) = Ok (w, rd_at (pre @ x) post))"
    by (intro exI [of _ "[]"] exI [of _ s]) auto
qed

lemma local_rd_err: "local_rd (rd_err e)"
  by (simp add: local_rd_def)

lemma local_rd_ok: "local_rd (rd_ok v)"
  by (rule local_still [of _ v]) simp_all

lemma local_rd_res: "local_rd (rd_res m)"
proof (cases m)
  case (Ok v)
  then show ?thesis by (intro local_still [of _ v]) (simp_all add: rd_res_def)
qed (simp_all add: local_rd_def rd_res_def)

lemma local_rd_check: "local_rd (rd_check c e)"
  by (rule local_still [of _ "()"]) (simp_all add: rd_check_def split: if_splits)

lemma local_take_bytes: "local_rd (take_bytes n)"
  unfolding local_rd_def
proof (intro allI impI)
  fix pre s v r
  assume fit: "fits pre s" and run: "take_bytes n (rd_at pre s) = Ok (v, r)"
  have len: "n \<le> length s"
    using run by (auto simp: take_bytes_def rd_at_def Let_def split: if_splits)
  let ?x = "take n s" let ?t = "drop n s"
  have s: "s = ?x @ ?t" "length ?x = n" using len by simp_all
  then have "take_bytes n (rd_at pre s) = Ok (?x, rd_at (pre @ ?x) ?t)"
    using take_bytes_at [of pre ?x ?t n] fit by simp
  with run have "v = ?x" "r = rd_at (pre @ ?x) ?t" by auto
  moreover have "consumes (take_bytes n) ?x ?x"
    using s(2) take_bytes_at [of _ ?x _ n] by (simp add: consumes_def)
  ultimately show "\<exists>x t. s = x @ t \<and> r = rd_at (pre @ x) t \<and> consumes (take_bytes n) x v"
    using s(1) by blast
qed

text \<open>The readers that index what they took.\<close>

lemma local_indexed:
  assumes "\<And>b r. f b r = map_res (\<lambda>v. (v, r)) (g b)"
  shows "local_rd (rd_bind (take_bytes n) f)"
proof (rule local_bind [OF local_take_bytes])
  fix b
  have "f b = rd_res (g b)" by (simp add: fun_eq_iff assms rd_res_def)
  then show "local_rd (f b)" by (simp add: local_rd_res)
qed

lemma map_res_bind: "map_res h (bind_res m f) = bind_res m (\<lambda>x. map_res h (f x))"
  by (cases m) simp_all

lemma local_read_u8: "local_rd read_u8"
  unfolding read_u8_def
  by (rule local_indexed [where g = "\<lambda>b. index_res b 0"]) (simp add: bind_res_def split: res.split)

lemma local_read_bool: "local_rd read_bool"
  unfolding read_bool_def by (intro local_bind local_read_u8 local_rd_ok)

lemma local_read_u32: "local_rd read_u32"
  unfolding read_u32_def
  by (rule local_indexed [where g = "\<lambda>b. bind_res (index_res b 0) (\<lambda>b0. bind_res (index_res b 1) (\<lambda>b1.
      bind_res (index_res b 2) (\<lambda>b2. bind_res (index_res b 3) (\<lambda>b3. Ok (u32_from_be [b0, b1, b2, b3])))))"])
    (simp add: map_res_bind)

lemma local_read_u64: "local_rd read_u64"
  unfolding read_u64_def
  by (rule local_indexed [where g = "\<lambda>b. bind_res (index_res b 0) (\<lambda>b0. bind_res (index_res b 1) (\<lambda>b1.
      bind_res (index_res b 2) (\<lambda>b2. bind_res (index_res b 3) (\<lambda>b3. bind_res (index_res b 4) (\<lambda>b4.
      bind_res (index_res b 5) (\<lambda>b5. bind_res (index_res b 6) (\<lambda>b6. bind_res (index_res b 7) (\<lambda>b7.
        Ok (u64_from_be [b0, b1, b2, b3, b4, b5, b6, b7])))))))))"])
    (simp add: map_res_bind)

lemma local_read_string: "local_rd read_string"
  unfolding read_string_def by (intro local_bind local_read_u32 local_take_bytes)

lemmas local_reads = local_bind local_rd_ok local_rd_err local_rd_res local_rd_check local_take_bytes
  local_read_u8 local_read_bool local_read_u32 local_read_u64 local_read_string

section \<open>What a string reader has read\<close>

lemma take_bytes_moves: "take_bytes n r = Ok (v, r') \<Longrightarrow> remaining r = remaining r' + n \<and> length v = n"
  by (auto simp: take_bytes_def remaining_def slice_res_def Let_def bind_res_eq_Ok split: if_splits)

lemma read_u32_takes: "read_u32 r = Ok (v, r') \<longleftrightarrow> (\<exists>b. take_bytes 4 r = Ok (b, r') \<and> v = u32_from_be b)"
proof (cases "take_bytes 4 r")
  case (Ok br)
  obtain b r1 where br: "br = (b, r1)" by (cases br)
  have "read_u32 r = Ok (u32_from_be b, r1)" using Ok br read_u32_bytes by simp
  with Ok br show ?thesis by auto
qed (simp_all add: read_u32_def rd_bind_def)

lemma read_string_moves: "read_string r = Ok (v, r') \<Longrightarrow> remaining r = remaining r' + length v + 4"
  by (auto simp: read_string_def rd_bind_eq_Ok read_u32_takes dest!: take_bytes_moves)

lemma read_string_inverse:
  assumes "fits pre s" "read_string (rd_at pre s) = Ok (v, r)"
  obtains t where "s = enc_string v @ t" "r = rd_at (pre @ enc_string v) t" "fits_u32 v"
proof -
  obtain b r1 where b: "take_bytes 4 (rd_at pre s) = Ok (b, r1)"
    and v: "take_bytes (unat (u32_from_be b)) r1 = Ok (v, r)"
    using assms(2) by (auto simp: read_string_def rd_bind_eq_Ok read_u32_takes)
  obtain x t where x: "s = x @ t" "r1 = rd_at (pre @ x) t" "consumes (take_bytes 4) x b"
    using local_rdE [OF local_take_bytes assms(1) b] .
  have fit: "fits (pre @ x) t" using assms(1) x(1) by simp
  obtain y u where y: "t = y @ u" "r = rd_at ((pre @ x) @ y) u" "consumes (take_bytes (unat (u32_from_be b))) y v"
    using local_rdE [OF local_take_bytes fit] v x(2) by blast
  have small: "small x" "small y" using assms(1) x(1) y(1) by (auto simp: small_def)
  have bx: "b = x" "length b = 4"
    using consumesD [OF x(3), of "[]" "[]"] small take_bytes_moves [OF b] x(1,2)
      take_bytes_at [of "[]" x "[]" 4] by auto
  have vy: "v = y" "length v = unat (u32_from_be b)"
    using consumesD [OF y(3), of "[]" "[]"] small take_bytes_moves [OF v] x(2) y(1,2)
      take_bytes_at [of "[]" y "[]" "unat (u32_from_be b)"] by auto
  have "u32_to_be (of_nat (length v)) = b"
    using vy(2) bx(2) by (simp add: u32_to_from_be)
  then have "s = enc_string v @ u" "r = rd_at (pre @ enc_string v) u"
    using x(1) y(1,2) bx(1) vy(1) by (simp_all add: enc_string_def)
  moreover have "fits_u32 v" using vy(2) unat_less_p2 [of "u32_from_be b"] by (simp add: fits_u32_def)
  ultimately show thesis by (rule that)
qed

end
