(* ===== verification/Text.thy ===== *)
theory Text
  imports Utf8 "HOL-Library.Sublist"
begin

text \<open>
  What the source uses of Rust's \<open>str\<close>: trimming of white space, splitting at a separator, prefixes
  and suffixes, ASCII case. A string is its UTF-8 byte sequence, so a character outside ASCII is a
  sequence of two to four bytes; on valid UTF-8 it cannot start or end inside another one.
\<close>

text \<open>The characters with the property \<open>White_Space\<close>, which \<open>str::trim\<close> removes.\<close>

definition white_space :: "bytes list" where
  "white_space =
     [[0x09], [0x0A], [0x0B], [0x0C], [0x0D], [0x20], [0xC2, 0x85], [0xC2, 0xA0], [0xE1, 0x9A, 0x80],
      [0xE2, 0x80, 0x80], [0xE2, 0x80, 0x81], [0xE2, 0x80, 0x82], [0xE2, 0x80, 0x83], [0xE2, 0x80, 0x84],
      [0xE2, 0x80, 0x85], [0xE2, 0x80, 0x86], [0xE2, 0x80, 0x87], [0xE2, 0x80, 0x88], [0xE2, 0x80, 0x89],
      [0xE2, 0x80, 0x8A], [0xE2, 0x80, 0xA8], [0xE2, 0x80, 0xA9], [0xE2, 0x80, 0xAF], [0xE2, 0x81, 0x9F],
      [0xE3, 0x80, 0x80]]"

text \<open>Remove elements of \<open>ws\<close> from the front as long as one stands there.\<close>

function strip_front :: "bytes list \<Rightarrow> bytes \<Rightarrow> bytes" where
  "strip_front ws s =
     (case find (\<lambda>w. w \<noteq> [] \<and> prefix w s) ws of
        None \<Rightarrow> s
      | Some w \<Rightarrow> strip_front ws (drop (length w) s))"
  by pat_completeness auto

termination
proof (relation "measure (\<lambda>(ws, s). length s)", goal_cases)
  case (2 ws s w)
  then have "w \<noteq> []" "prefix w s" by (auto simp: find_Some_iff)
  then show ?case by (cases w) (auto simp: prefix_def)
qed simp

declare strip_front.simps [simp del]

definition str_trim_start :: "rust_str \<Rightarrow> rust_str" where
  "str_trim_start = strip_front white_space"

definition str_trim_end :: "rust_str \<Rightarrow> rust_str" where
  "str_trim_end s = rev (strip_front (map rev white_space) (rev s))"

definition str_trim :: "rust_str \<Rightarrow> rust_str" where
  "str_trim s = str_trim_end (str_trim_start s)"

definition str_starts_with :: "rust_str \<Rightarrow> rust_str \<Rightarrow> bool" where
  "str_starts_with s p \<longleftrightarrow> take (length p) s = p"

definition str_ends_with :: "rust_str \<Rightarrow> rust_str \<Rightarrow> bool" where
  "str_ends_with s p \<longleftrightarrow> length p \<le> length s \<and> drop (length s - length p) s = p"

definition str_strip_suffix :: "rust_str \<Rightarrow> rust_str \<Rightarrow> rust_str option" where
  "str_strip_suffix s p = (if str_ends_with s p then Some (take (length s - length p) s) else None)"

text \<open>\<open>str::split_once\<close> at an ASCII character: the parts before and behind its first occurrence.\<close>

fun str_split_once :: "u8 \<Rightarrow> rust_str \<Rightarrow> (rust_str \<times> rust_str) option" where
  "str_split_once c [] = None"
| "str_split_once c (x # s) =
     (if x = c then Some ([], s) else map_option (\<lambda>(a, b). (x # a, b)) (str_split_once c s))"

section \<open>Laws\<close>

lemma strip_front_plain: "\<forall>w \<in> set ws. w \<noteq> [] \<longrightarrow> \<not> prefix w s \<Longrightarrow> strip_front ws s = s"
proof -
  assume "\<forall>w \<in> set ws. w \<noteq> [] \<longrightarrow> \<not> prefix w s"
  then have "find (\<lambda>w. w \<noteq> [] \<and> prefix w s) ws = None" by (auto simp: find_None_iff)
  then show ?thesis by (simp add: strip_front.simps [of ws s])
qed

text \<open>A string of printable ASCII without blanks has nothing to trim.\<close>

definition solid :: "bytes \<Rightarrow> bool" where
  "solid s \<longleftrightarrow> (\<forall>b \<in> set s. 0x20 < b \<and> b < 0x80)"

lemma white_space_edges: "\<forall>w \<in> set white_space. w \<noteq> [] \<and> \<not> (0x20 < hd w \<and> hd w < 0x80) \<and> \<not> (0x20 < last w \<and> last w < 0x80)"
  by (simp add: white_space_def)

lemma str_trim_solid: "solid s \<Longrightarrow> str_trim s = s"
proof -
  assume s: "solid s"
  have "strip_front white_space s = s"
  proof (rule strip_front_plain, intro ballI impI notI)
    fix w assume w: "w \<in> set white_space" "w \<noteq> []" "prefix w s"
    then have "hd w \<in> set s" by (cases w) (auto simp: prefix_def)
    with s w(1) white_space_edges show False by (auto simp: solid_def)
  qed
  moreover have "strip_front (map rev white_space) (rev s) = rev s"
  proof (rule strip_front_plain, intro ballI impI notI)
    fix v assume v: "v \<in> set (map rev white_space)" "v \<noteq> []" "prefix v (rev s)"
    then obtain w where w: "w \<in> set white_space" "v = rev w" by auto
    with v have "suffix w s" "w \<noteq> []" by (auto simp: suffix_to_prefix)
    then have "last w \<in> set s" by (auto simp: suffix_def)
    with s w(1) white_space_edges show False by (auto simp: solid_def)
  qed
  ultimately show ?thesis by (simp add: str_trim_def str_trim_start_def str_trim_end_def)
qed

lemma str_split_once_sound: "str_split_once c s = Some (a, b) \<Longrightarrow> s = a @ c # b \<and> c \<notin> set a"
  by (induction s arbitrary: a) (auto split: if_splits)

lemma str_split_once_at: "c \<notin> set a \<Longrightarrow> str_split_once c (a @ c # b) = Some (a, b)"
  by (induction a) auto

lemma str_split_once_None: "str_split_once c s = None \<longleftrightarrow> c \<notin> set s"
  by (induction s) auto

lemma str_starts_with_append [simp]: "str_starts_with (p @ s) p"
  by (simp add: str_starts_with_def)

lemma str_ends_with_append [simp]: "str_ends_with (s @ p) p"
  by (simp add: str_ends_with_def)

lemma str_ends_with_iff: "str_ends_with s p \<longleftrightarrow> (\<exists>q. s = q @ p)"
  by (auto simp: str_ends_with_def) (metis append_take_drop_id)

end
