(* ===== verification/SigKeys.thy ===== *)
theory SigKeys
  imports Reading Text KexMethods
begin

text \<open>
  Public-key blobs and signatures, src/src/hostkey: the Ed25519, ECDSA, RSA, composite ML-DSA and
  security-key types with their blob parsers, signature checks and signing functions. The signature arithmetic belongs to the purecrypto crate and is an argument, \<open>sig_prims\<close>;
  an unsigned big integer is a \<open>nat\<close>.
\<close>

unbundle bit_operations_syntax

section \<open>Arguments\<close>

text \<open>
  A parsed elliptic-curve key is represented by the point encoding it was made from, an RSA public
  key by modulus and exponent. \<open>None\<close> and \<open>False\<close> are the errors of the crate.
\<close>

datatype rsa_private = RsaPrivate nat nat nat "(nat \<times> nat) option"

record sig_prims =
  sp_hash :: hash_prim
  ed_public :: "bytes \<Rightarrow> bytes"
  ed_sign :: "bytes \<Rightarrow> bytes \<Rightarrow> bytes"
  ed_verify :: "bytes \<Rightarrow> bytes \<Rightarrow> bytes \<Rightarrow> bool"
  ecdsa_public :: "curve_id \<Rightarrow> bytes \<Rightarrow> bytes"
  ecdsa_from_sec1 :: "curve_id \<Rightarrow> bytes \<Rightarrow> bool"
  ecdsa_sign :: "curve_id \<Rightarrow> kex_digest \<Rightarrow> bytes \<Rightarrow> bytes \<Rightarrow> (bytes \<times> bytes) option"
  ecdsa_verify :: "curve_id \<Rightarrow> kex_digest \<Rightarrow> bytes \<Rightarrow> bytes \<Rightarrow> nat \<Rightarrow> nat \<Rightarrow> bool"
  rsa_try_new :: "nat \<Rightarrow> nat \<Rightarrow> bool"
  rsa_pkcs1_sign :: "rsa_private \<Rightarrow> kex_digest \<Rightarrow> bytes \<Rightarrow> bytes option"
  rsa_pkcs1_verify :: "nat \<Rightarrow> nat \<Rightarrow> kex_digest \<Rightarrow> bytes \<Rightarrow> bytes \<Rightarrow> bool"
  mldsa_from_bytes :: "bytes \<Rightarrow> bool"
  mldsa_verify :: "bytes \<Rightarrow> bytes \<Rightarrow> bytes \<Rightarrow> bytes \<Rightarrow> bool"

text \<open>\<open>BoxedUint::bit_len\<close> and \<open>mpint_to_uint\<close>, which the RSA and the ECDSA module have each.\<close>

fun bit_len :: "nat \<Rightarrow> nat" where
  "bit_len n = (if n = 0 then 0 else Suc (bit_len (n div 2)))"

declare bit_len.simps [simp del]

function skip_lead :: "bytes \<Rightarrow> nat \<Rightarrow> nat" where
  "skip_lead m start = (if start + 1 < length m \<and> m ! start = 0 then skip_lead m (start + 1) else start)"
  by pat_completeness auto
termination
  by (relation "measure (\<lambda>(m, start). length m - start)") auto

declare skip_lead.simps [simp del]

definition mpint_to_uint :: "string \<Rightarrow> bytes \<Rightarrow> nat res" where
  "mpint_to_uint negative m =
     (case m of
        [] \<Rightarrow> Ok 0
      | b # _ \<Rightarrow>
          if high_bit b then Err (Format negative)
          else Ok (be_value (drop (skip_lead m 0) m)))"

section \<open>Ed25519 (ed25519.rs)\<close>

definition ED25519 :: rust_str where "ED25519 = lit ''ssh-ed25519''"

definition ed25519_public_blob :: "bytes \<Rightarrow> bytes" where
  "ed25519_public_blob public = into_vec (write_string public (write_string ED25519 writer_new))"

definition ed25519_sign :: "sig_prims \<Rightarrow> bytes option \<Rightarrow> bytes \<Rightarrow> bytes res" where
  "ed25519_sign P private msg =
     (case private of
        None \<Rightarrow> Err (Crypto ''ed25519: no private key'')
      | Some sk \<Rightarrow> Ok (into_vec (write_string (ed_sign P sk msg) (write_string ED25519 writer_new))))"

definition ed25519_verify :: "sig_prims \<Rightarrow> bytes \<Rightarrow> bytes \<Rightarrow> bytes \<Rightarrow> unit res" where
  "ed25519_verify P public msg sig_blob = run_rd
     (rd_bind read_string (\<lambda>name.
      rd_bind (rd_check (name = ED25519) (Format ''ed25519: signature algorithm mismatch'')) (\<lambda>_.
      rd_bind read_string (\<lambda>raw.
      rd_bind (rd_check (length raw = 64) (Format ''ed25519: signature length'')) (\<lambda>_.
      rd_bind (rd_end (Format ''ed25519: signature trailing data'')) (\<lambda>_.
        rd_check (ed_verify P public msg raw) BadSignature)))))) sig_blob"

definition ed25519_from_public_blob :: "bytes \<Rightarrow> bytes res" where
  "ed25519_from_public_blob blob = run_rd
     (rd_bind read_string (\<lambda>name.
      rd_bind (rd_check (name = ED25519) (Format ''ed25519: public key type mismatch'')) (\<lambda>_.
      rd_bind read_string (\<lambda>raw.
      rd_bind (rd_check (length raw = 32) (Format ''ed25519: public key length'')) (\<lambda>_.
      rd_bind (rd_end (Format ''ed25519: public key trailing data'')) (\<lambda>_. rd_ok raw)))))) blob"

section \<open>ECDSA (ecdsa.rs)\<close>

record ecdsa_params =
  ep_algorithm :: rust_str
  ep_curve_id_str :: rust_str
  ep_curve :: curve_id
  ep_hash :: kex_digest

definition P256_PARAMS :: ecdsa_params where
  "P256_PARAMS = \<lparr>ep_algorithm = lit ''ecdsa-sha2-nistp256'', ep_curve_id_str = lit ''nistp256'',
     ep_curve = P256, ep_hash = KSha256\<rparr>"

definition P384_PARAMS :: ecdsa_params where
  "P384_PARAMS = \<lparr>ep_algorithm = lit ''ecdsa-sha2-nistp384'', ep_curve_id_str = lit ''nistp384'',
     ep_curve = P384, ep_hash = KSha384\<rparr>"

definition P521_PARAMS :: ecdsa_params where
  "P521_PARAMS = \<lparr>ep_algorithm = lit ''ecdsa-sha2-nistp521'', ep_curve_id_str = lit ''nistp521'',
     ep_curve = P521, ep_hash = KSha512\<rparr>"

definition build_public_blob :: "ecdsa_params \<Rightarrow> bytes \<Rightarrow> bytes" where
  "build_public_blob params sec1 =
     into_vec (write_string sec1 (write_string (ep_curve_id_str params)
       (write_string (ep_algorithm params) writer_new)))"

definition parse_public_blob :: "sig_prims \<Rightarrow> ecdsa_params \<Rightarrow> bytes \<Rightarrow> bytes res" where
  "parse_public_blob P params blob = run_rd
     (rd_bind read_string (\<lambda>name.
      rd_bind (rd_check (name = ep_algorithm params) (Format ''ecdsa: public key type mismatch'')) (\<lambda>_.
      rd_bind read_string (\<lambda>curve.
      rd_bind (rd_check (curve = ep_curve_id_str params) (Format ''ecdsa: curve identifier mismatch'')) (\<lambda>_.
      rd_bind read_string (\<lambda>sec1.
      rd_bind (rd_end (Format ''ecdsa: public key trailing data'')) (\<lambda>_.
      rd_bind (rd_check (ecdsa_from_sec1 P (ep_curve params) sec1) (Format ''ecdsa: invalid SEC1 point'')) (\<lambda>_.
        rd_ok sec1)))))))) blob"

definition ecdsa_encode_signature :: "ecdsa_params \<Rightarrow> bytes \<Rightarrow> bytes \<Rightarrow> bytes" where
  "ecdsa_encode_signature params r_bytes s_bytes =
     (let inner = into_vec (write_mpint s_bytes (write_mpint r_bytes writer_new)) in
      into_vec (write_string inner (write_string (ep_algorithm params) writer_new)))"

definition ecdsa_sign_with :: "sig_prims \<Rightarrow> ecdsa_params \<Rightarrow> bytes option \<Rightarrow> bytes \<Rightarrow> bytes res" where
  "ecdsa_sign_with P params private msg =
     (case private of
        None \<Rightarrow> Err (Crypto ''ecdsa: no private key'')
      | Some sk \<Rightarrow>
          (case ecdsa_sign P (ep_curve params) (ep_hash params) sk msg of
             None \<Rightarrow> Err (Crypto ''ecdsa: signing failed'')
           | Some (r, s) \<Rightarrow> Ok (ecdsa_encode_signature params r s)))"

text \<open>\<open>mpint r, mpint s\<close> and the check of the two numbers.\<close>

definition ecdsa_read_inner :: "bytes \<Rightarrow> (nat \<times> nat) res" where
  "ecdsa_read_inner inner = run_rd
     (rd_bind read_mpint (\<lambda>r_raw. rd_bind read_mpint (\<lambda>s_raw.
      rd_bind (rd_end (Format ''ecdsa: signature blob trailing data'')) (\<lambda>_.
      rd_bind (rd_res (mpint_to_uint ''ecdsa: negative mpint in signature'' r_raw)) (\<lambda>r.
      rd_bind (rd_res (mpint_to_uint ''ecdsa: negative mpint in signature'' s_raw)) (\<lambda>s.
        rd_ok (r, s)))))) ) inner"

definition ecdsa_verify_with :: "sig_prims \<Rightarrow> ecdsa_params \<Rightarrow> bytes \<Rightarrow> bytes \<Rightarrow> bytes \<Rightarrow> unit res" where
  "ecdsa_verify_with P params public msg sig_blob = run_rd
     (rd_bind read_string (\<lambda>name.
      rd_bind (rd_check (name = ep_algorithm params) (Format ''ecdsa: signature algorithm mismatch'')) (\<lambda>_.
      rd_bind read_string (\<lambda>inner.
      rd_bind (rd_end (Format ''ecdsa: signature trailing data'')) (\<lambda>_.
      rd_bind (rd_res (ecdsa_read_inner inner)) (\<lambda>(r, s).
        rd_check (ecdsa_verify P (ep_curve params) (ep_hash params) public msg r s) BadSignature)))))) sig_blob"

definition verify_p256_inner :: "sig_prims \<Rightarrow> bytes \<Rightarrow> bytes \<Rightarrow> bytes \<Rightarrow> unit res" where
  "verify_p256_inner P public msg inner =
     bind_res (ecdsa_read_inner inner) (\<lambda>(r, s).
       if ecdsa_verify P P256 KSha256 public msg r s then Ok () else Err BadSignature)"

section \<open>RSA (rsa.rs)\<close>

datatype rsa_hash = RsaSha1 | RsaSha256 | RsaSha512

fun rsa_hash_algorithm :: "rsa_hash \<Rightarrow> rust_str" where
  "rsa_hash_algorithm RsaSha1 = lit ''ssh-rsa''"
| "rsa_hash_algorithm RsaSha256 = lit ''rsa-sha2-256''"
| "rsa_hash_algorithm RsaSha512 = lit ''rsa-sha2-512''"

fun rsa_digest :: "rsa_hash \<Rightarrow> kex_digest" where
  "rsa_digest RsaSha1 = KSha1"
| "rsa_digest RsaSha256 = KSha256"
| "rsa_digest RsaSha512 = KSha512"

definition SSH_RSA :: rust_str where "SSH_RSA = lit ''ssh-rsa''"

definition MIN_RSA_MODULUS_BITS :: nat where "MIN_RSA_MODULUS_BITS = 2048"
definition MAX_RSA_EXPONENT_BITS :: nat where "MAX_RSA_EXPONENT_BITS = 64"

definition check_rsa_modulus_mpint :: "bytes \<Rightarrow> unit res" where
  "check_rsa_modulus_mpint n_raw =
     bind_res (mpint_to_uint ''rsa: negative mpint'' n_raw) (\<lambda>n.
       if n = 0 then Err (Format ''rsa: zero modulus'')
       else if bit_len n < MIN_RSA_MODULUS_BITS then Err (Format ''rsa: modulus shorter than 2048 bits'')
       else Ok ())"

definition check_rsa_exponent_mpint :: "bytes \<Rightarrow> unit res" where
  "check_rsa_exponent_mpint e_raw =
     bind_res (mpint_to_uint ''rsa: negative mpint'' e_raw) (\<lambda>e.
       if bit_len e > MAX_RSA_EXPONENT_BITS then Err (Format ''rsa: public exponent wider than 64 bits'')
       else Ok ())"

text \<open>\<open>div_ceil(8)\<close> of the modulus length, and the public key \<open>(n, e)\<close> with it.\<close>

definition rsa_modulus_bytes :: "nat \<Rightarrow> nat" where
  "rsa_modulus_bytes n = (bit_len n + 7) div 8"

definition parse_rsa_public_blob :: "sig_prims \<Rightarrow> bytes \<Rightarrow> (nat \<times> nat \<times> nat) res" where
  "parse_rsa_public_blob P blob = run_rd
     (rd_bind read_string (\<lambda>name.
      rd_bind (rd_check (name = SSH_RSA) (Format ''rsa: public key type mismatch'')) (\<lambda>_.
      rd_bind read_mpint (\<lambda>e_raw. rd_bind read_mpint (\<lambda>n_raw.
      rd_bind (rd_end (Format ''rsa: public key trailing data'')) (\<lambda>_.
      rd_bind (rd_res (check_rsa_exponent_mpint e_raw)) (\<lambda>_.
      rd_bind (rd_res (mpint_to_uint ''rsa: negative mpint'' e_raw)) (\<lambda>e.
      rd_bind (rd_res (mpint_to_uint ''rsa: negative mpint'' n_raw)) (\<lambda>n.
      rd_bind (rd_check (n \<noteq> 0) (Format ''rsa: zero modulus'')) (\<lambda>_.
      rd_bind (rd_check (bit_len n \<ge> MIN_RSA_MODULUS_BITS) (Format ''rsa: modulus shorter than 2048 bits'')) (\<lambda>_.
      rd_bind (rd_check (rsa_try_new P n e) (Format ''rsa: modulus out of accepted range'')) (\<lambda>_.
        rd_ok (n, e, rsa_modulus_bytes n))))))))))))) blob"

text \<open>\<open>n.to_be_bytes(n.bit_len().div_ceil(8).max(1))\<close>\<close>

definition uint_bytes :: "nat \<Rightarrow> bytes" where
  "uint_bytes n = be_bytes (max (rsa_modulus_bytes n) 1) n"

definition build_rsa_public_blob :: "nat \<Rightarrow> nat \<Rightarrow> bytes" where
  "build_rsa_public_blob n e =
     into_vec (write_mpint (uint_bytes n) (write_mpint (uint_bytes e) (write_string SSH_RSA writer_new)))"

definition sign_rsa :: "sig_prims \<Rightarrow> rsa_hash \<Rightarrow> rsa_private option \<Rightarrow> bytes \<Rightarrow> bytes res" where
  "sign_rsa P hash private msg =
     (case private of
        None \<Rightarrow> Err (Crypto ''rsa: no private key'')
      | Some sk \<Rightarrow>
          (case rsa_pkcs1_sign P sk (rsa_digest hash) msg of
             None \<Rightarrow> Err (Crypto ''rsa: signing failed'')
           | Some raw \<Rightarrow> Ok (into_vec (write_string raw (write_string (rsa_hash_algorithm hash) writer_new)))))"

definition verify_rsa :: "sig_prims \<Rightarrow> rsa_hash \<Rightarrow> nat \<Rightarrow> nat \<Rightarrow> nat \<Rightarrow> bytes \<Rightarrow> bytes \<Rightarrow> unit res" where
  "verify_rsa P hash n e k msg sig_blob = run_rd
     (rd_bind read_string (\<lambda>name.
      rd_bind (rd_check (name = rsa_hash_algorithm hash) (Format ''rsa: signature algorithm mismatch'')) (\<lambda>_.
      rd_bind read_string (\<lambda>raw.
      rd_bind (rd_end (Format ''rsa: signature trailing data'')) (\<lambda>_.
      rd_bind (rd_check (length raw = k) (Format ''rsa: signature length mismatch'')) (\<lambda>_.
        rd_check (rsa_pkcs1_verify P n e (rsa_digest hash) msg raw) BadSignature)))))) sig_blob"

section \<open>Composite ML-DSA (mldsa.rs)\<close>

definition MLDSA :: rust_str where "MLDSA = lit ''ssh-mldsa44-ed25519''"

definition MLDSA_PK :: nat where "MLDSA_PK = 1312"
definition MLDSA_SIG :: nat where "MLDSA_SIG = 2420"

definition m_prime :: "sig_prims \<Rightarrow> bytes \<Rightarrow> bytes" where
  "m_prime P msg = lit ''CompositeAlgorithmSignatures2025'' @ lit ''COMPSIG-MLDSA44-Ed25519-SHA512'' @ [0]
     @ sp_hash P KSha512 msg"

definition mldsa_from_public :: "bytes \<Rightarrow> bytes res" where
  "mldsa_from_public raw =
     (if length raw \<noteq> MLDSA_PK + 32 then Err (Format ''mldsa44-ed25519: public key length'') else Ok raw)"

definition mldsa_verify_raw :: "sig_prims \<Rightarrow> bytes \<Rightarrow> bytes \<Rightarrow> bytes \<Rightarrow> bool" where
  "mldsa_verify_raw P public msg sig =
     (if length sig \<noteq> MLDSA_SIG + 64 then False
      else if \<not> mldsa_from_bytes P (take MLDSA_PK public) then False
      else let m = m_prime P msg;
               mldsa_ok = mldsa_verify P (take MLDSA_PK public) (take MLDSA_SIG sig) m
                            (lit ''COMPSIG-MLDSA44-Ed25519-SHA512'');
               ed_ok = ed_verify P (drop MLDSA_PK public) m (drop MLDSA_SIG sig)
           in mldsa_ok \<and> ed_ok)"

definition mldsa_verify_blob :: "sig_prims \<Rightarrow> bytes \<Rightarrow> bytes \<Rightarrow> bytes \<Rightarrow> unit res" where
  "mldsa_verify_blob P public msg sig_blob = run_rd
     (rd_bind read_string (\<lambda>name.
      rd_bind (rd_check (name = MLDSA) (Format ''mldsa44-ed25519: signature algorithm mismatch'')) (\<lambda>_.
      rd_bind read_string (\<lambda>sig.
      rd_bind (rd_end (Format ''mldsa44-ed25519: signature trailing data'')) (\<lambda>_.
        rd_check (mldsa_verify_raw P public msg sig) BadSignature))))) sig_blob"

definition mldsa_from_public_blob :: "bytes \<Rightarrow> bytes res" where
  "mldsa_from_public_blob blob = run_rd
     (rd_bind read_string (\<lambda>name.
      rd_bind (rd_check (name = MLDSA) (Format ''mldsa44-ed25519: public key type mismatch'')) (\<lambda>_.
      rd_bind read_string (\<lambda>raw.
      rd_bind (rd_end (Format ''mldsa44-ed25519: public key trailing data'')) (\<lambda>_.
        rd_res (mldsa_from_public raw)))))) blob"

section \<open>Security keys (sk.rs)\<close>

definition SK_ECDSA :: rust_str where "SK_ECDSA = lit ''sk-ecdsa-sha2-nistp256@openssh.com''"
definition SK_ED25519 :: rust_str where "SK_ED25519 = lit ''sk-ssh-ed25519@openssh.com''"
definition WEBAUTHN_SK_ECDSA :: rust_str where
  "WEBAUTHN_SK_ECDSA = lit ''webauthn-sk-ecdsa-sha2-nistp256@openssh.com''"

definition SK_USER_PRESENCE :: u8 where "SK_USER_PRESENCE = 0x01"
definition SK_USER_VERIFICATION :: u8 where "SK_USER_VERIFICATION = 0x04"
definition WEBAUTHN_AD :: u8 where "WEBAUTHN_AD = 0x40"
definition WEBAUTHN_ED :: u8 where "WEBAUTHN_ED = 0x80"

text \<open>\<open>result.ok()\<close>\<close>

definition ok_opt :: "'a res \<Rightarrow> 'a option" where
  "ok_opt m = (case m of Ok x \<Rightarrow> Some x | _ \<Rightarrow> None)"

definition sk_signature_flags :: "bytes \<Rightarrow> u8 option" where
  "sk_signature_flags sig_blob = ok_opt (run_rd
     (rd_bind read_string (\<lambda>name.
      rd_bind (rd_check (name = SK_ECDSA \<or> name = SK_ED25519 \<or> name = WEBAUTHN_SK_ECDSA) (Format [])) (\<lambda>_.
      rd_bind read_string (\<lambda>_. read_u8)))) sig_blob)"

definition sk_signature_details :: "bytes \<Rightarrow> (u8 \<times> u32) option" where
  "sk_signature_details sig_blob =
     Option.bind (sk_signature_flags sig_blob) (\<lambda>_.
       ok_opt (run_rd (rd_bind read_string (\<lambda>_. rd_bind read_string (\<lambda>_.
         rd_bind read_u8 (\<lambda>flags. rd_bind read_u32 (\<lambda>counter. rd_ok (flags, counter)))))) sig_blob))"

definition sk_signed_data :: "sig_prims \<Rightarrow> bytes \<Rightarrow> u8 \<Rightarrow> u32 \<Rightarrow> bytes \<Rightarrow> bytes \<Rightarrow> bytes" where
  "sk_signed_data P application flags counter exts msghash =
     into_vec (write_raw msghash (write_raw exts (write_u32 counter (write_u8 flags
       (write_raw (sp_hash P KSha256 application) writer_new)))))"

definition base64url_alphabet :: bytes where
  "base64url_alphabet = lit ''ABCDEFGHIJKLMNOPQRSTUVWXYZabcdefghijklmnopqrstuvwxyz0123456789-_''"

definition base64url_letter :: "u32 \<Rightarrow> u8" where
  "base64url_letter v = base64url_alphabet ! unat (v AND 63)"

fun base64url_nopad :: "bytes \<Rightarrow> bytes" where
  "base64url_nopad (a # b # c # rest) =
     (let n = (push_bit 16 (ucast a) OR push_bit 8 (ucast b)) OR ucast c in
      [base64url_letter (drop_bit 18 n), base64url_letter (drop_bit 12 n),
       base64url_letter (drop_bit 6 n), base64url_letter n] @ base64url_nopad rest)"
| "base64url_nopad [a, b] =
     (let n = push_bit 16 (ucast a) OR push_bit 8 (ucast b) in
      [base64url_letter (drop_bit 18 n), base64url_letter (drop_bit 12 n), base64url_letter (drop_bit 6 n)])"
| "base64url_nopad [a] =
     (let n = push_bit 16 (ucast a) in
      [base64url_letter (drop_bit 18 n), base64url_letter (drop_bit 12 n)])"
| "base64url_nopad [] = []"

definition dquote :: u8 where "dquote = 0x22"

text \<open>The double quotes of the literals are written out as a byte.\<close>

definition quoted :: "string \<Rightarrow> bytes" where
  "quoted s = [dquote] @ lit s @ [dquote]"

definition webauthn_prefix :: "bytes \<Rightarrow> bytes \<Rightarrow> bytes" where
  "webauthn_prefix msg origin =
     lit ''{'' @ quoted ''type'' @ lit '':'' @ quoted ''webauthn.get'' @ lit '','' @ quoted ''challenge''
       @ lit '':'' @ [dquote] @ base64url_nopad msg @ [dquote] @ lit '','' @ quoted ''origin'' @ lit '':''
       @ [dquote] @ origin @ [dquote]"

definition webauthn_hash :: "sig_prims \<Rightarrow> bytes \<Rightarrow> bytes \<Rightarrow> bytes \<Rightarrow> u8 \<Rightarrow> bytes \<Rightarrow> bytes res" where
  "webauthn_hash P msg origin client_data flags exts =
     (if dquote \<in> set origin \<or> flags AND WEBAUTHN_AD \<noteq> 0
         \<or> (flags AND WEBAUTHN_ED = 0) \<noteq> (exts = [])
      then Err (Format ''sk-ecdsa: inconsistent webauthn signature'')
      else if \<not> str_starts_with client_data (webauthn_prefix msg origin) then Err BadSignature
      else Ok (sp_hash P KSha256 client_data))"

definition sk_ecdsa_verify :: "sig_prims \<Rightarrow> bytes \<Rightarrow> bytes \<Rightarrow> bytes \<Rightarrow> bytes \<Rightarrow> unit res" where
  "sk_ecdsa_verify P public application msg sig_blob = run_rd
     (rd_bind read_string (\<lambda>name.
      rd_bind (rd_check (name = WEBAUTHN_SK_ECDSA \<or> name = SK_ECDSA)
                 (Format ''sk-ecdsa: signature algorithm mismatch'')) (\<lambda>_.
      rd_bind read_string (\<lambda>inner. rd_bind read_u8 (\<lambda>flags. rd_bind read_u32 (\<lambda>counter.
      rd_bind (if name = WEBAUTHN_SK_ECDSA then
                 rd_bind read_string (\<lambda>origin. rd_bind read_string (\<lambda>client_data. rd_bind read_string (\<lambda>exts.
                 rd_bind (rd_res (webauthn_hash P msg origin client_data flags exts)) (\<lambda>h. rd_ok (h, exts)))))
               else rd_ok (sp_hash P KSha256 msg, [])) (\<lambda>(msghash, exts).
      rd_bind (rd_end (Format ''sk-ecdsa: signature trailing data'')) (\<lambda>_.
        rd_res (verify_p256_inner P public (sk_signed_data P application flags counter exts msghash) inner)))))))))
      sig_blob"

definition sk_ecdsa_from_public_blob :: "sig_prims \<Rightarrow> bytes \<Rightarrow> (bytes \<times> bytes) res" where
  "sk_ecdsa_from_public_blob P blob = run_rd
     (rd_bind read_string (\<lambda>name.
      rd_bind (rd_check (name = SK_ECDSA) (Format ''sk-ecdsa: public key type mismatch'')) (\<lambda>_.
      rd_bind read_string (\<lambda>curve.
      rd_bind (rd_check (curve = lit ''nistp256'') (Format ''sk-ecdsa: curve identifier mismatch'')) (\<lambda>_.
      rd_bind read_string (\<lambda>sec1.
      rd_bind (rd_check (ecdsa_from_sec1 P P256 sec1) (Format ''ecdsa: invalid SEC1 point'')) (\<lambda>_.
      rd_bind read_string (\<lambda>app.
      rd_bind (rd_end (Format ''sk: public key trailing data'')) (\<lambda>_. rd_ok (sec1, app)))))))))) blob"

definition sk_ed25519_verify :: "sig_prims \<Rightarrow> bytes \<Rightarrow> bytes \<Rightarrow> bytes \<Rightarrow> bytes \<Rightarrow> unit res" where
  "sk_ed25519_verify P public application msg sig_blob = run_rd
     (rd_bind read_string (\<lambda>name.
      rd_bind (rd_check (name = SK_ED25519) (Format ''sk-ed25519: signature algorithm mismatch'')) (\<lambda>_.
      rd_bind read_string (\<lambda>raw. rd_bind read_u8 (\<lambda>flags. rd_bind read_u32 (\<lambda>counter.
      rd_bind (rd_end (Format ''sk-ed25519: signature trailing data'')) (\<lambda>_.
      rd_bind (rd_check (length raw = 64) (Format ''sk-ed25519: signature length'')) (\<lambda>_.
        rd_check (ed_verify P public
          (sk_signed_data P application flags counter [] (sp_hash P KSha256 msg)) raw) BadSignature)))))))) sig_blob"

definition sk_ed25519_from_public_blob :: "bytes \<Rightarrow> (bytes \<times> bytes) res" where
  "sk_ed25519_from_public_blob blob = run_rd
     (rd_bind read_string (\<lambda>name.
      rd_bind (rd_check (name = SK_ED25519) (Format ''sk-ed25519: public key type mismatch'')) (\<lambda>_.
      rd_bind read_string (\<lambda>pk.
      rd_bind (rd_check (length pk = 32) (Format ''sk-ed25519: public key length'')) (\<lambda>_.
      rd_bind read_string (\<lambda>app.
      rd_bind (rd_end (Format ''sk: public key trailing data'')) (\<lambda>_. rd_ok (pk, app))))))))  blob"

end
