(* ===== verification/Base64.thy ===== *)
theory Base64
  imports Prelude
begin

text \<open>
  The base64 codec of key and certificate files, src/src/key/base64.rs: the 256-entry table, the
  encoder's loop over groups of three bytes, and the decoder's loop over characters with its group
  buffer, its padding counter and its early exits.
\<close>

unbundle bit_operations_syntax

definition b64_alphabet :: bytes where
  "b64_alphabet = lit ''ABCDEFGHIJKLMNOPQRSTUVWXYZabcdefghijklmnopqrstuvwxyz0123456789+/''"

definition b64_INVALID :: u8 where "b64_INVALID = 0xff"
definition b64_PADDING :: u8 where "b64_PADDING = 0xfe"

definition b64_pad :: u8 where "b64_pad = 0x3D"

text \<open>\<open>build_table\<close>: every entry invalid, then the 64 letters, then the padding sign.\<close>

definition build_table :: bytes where
  "build_table =
     (foldl (\<lambda>t i. t[unat (b64_alphabet ! i) := of_nat i]) (replicate 256 b64_INVALID) [0..<64])
       [unat b64_pad := b64_PADDING]"

section \<open>Encoding\<close>

text \<open>One output letter: \<open>ALPHABET[(v & 0x3f) as usize]\<close>.\<close>

definition b64_letter :: "u32 \<Rightarrow> u8" where
  "b64_letter v = b64_alphabet ! unat (v AND 0x3f)"

text \<open>The loop takes three bytes at a time; one or two bytes may remain behind it.\<close>

fun b64_encode :: "bytes \<Rightarrow> bytes" where
  "b64_encode (a # b # c # rest) =
     (let n = (push_bit 16 (ucast a) OR push_bit 8 (ucast b)) OR ucast c in
      [b64_letter (drop_bit 18 n), b64_letter (drop_bit 12 n), b64_letter (drop_bit 6 n), b64_letter n]
        @ b64_encode rest)"
| "b64_encode [a] =
     (let n = push_bit 16 (ucast a) in
      [b64_letter (drop_bit 18 n), b64_letter (drop_bit 12 n), b64_pad, b64_pad])"
| "b64_encode [a, b] =
     (let n = push_bit 16 (ucast a) OR push_bit 8 (ucast b) in
      [b64_letter (drop_bit 18 n), b64_letter (drop_bit 12 n), b64_letter (drop_bit 6 n), b64_pad])"
| "b64_encode [] = []"

section \<open>Decoding\<close>

definition b64_space :: "u8 \<Rightarrow> bool" where
  "b64_space c \<longleftrightarrow> c \<in> {0x20, 0x0D, 0x0A, 0x09}"

record b64_state =
  b64_out :: bytes
  b64_buf :: bytes
  b64_n :: nat
  b64_padding :: nat

definition b64_first :: "bytes \<Rightarrow> u8" where
  "b64_first buf = push_bit 2 (buf ! 0) OR drop_bit 4 (buf ! 1)"

definition b64_second :: "bytes \<Rightarrow> u8" where
  "b64_second buf = push_bit 4 (buf ! 1) OR drop_bit 2 (buf ! 2)"

definition b64_third :: "bytes \<Rightarrow> u8" where
  "b64_third buf = push_bit 6 (buf ! 2) OR buf ! 3"

text \<open>The end of the loop body: a full group is written out, and ends the loop when it was padded.\<close>

definition b64_group :: "b64_state \<Rightarrow> b64_state" where
  "b64_group st =
     (let buf = b64_buf st in
      st\<lparr>b64_out := b64_out st @ [b64_first buf]
            @ (if b64_padding st < 2 then [b64_second buf] else [])
            @ (if b64_padding st < 1 then [b64_third buf] else []),
         b64_n := 0\<rparr>)"

text \<open>The character is stored at \<open>buf[n]\<close>; an index outside the buffer would panic.\<close>

definition b64_store :: "u8 \<Rightarrow> b64_state \<Rightarrow> b64_state res" where
  "b64_store v st =
     (if b64_n st < length (b64_buf st)
      then Ok (st\<lparr>b64_buf := (b64_buf st)[b64_n st := v], b64_n := b64_n st + 1\<rparr>)
      else Panic)"

definition b64_char :: "u8 \<Rightarrow> b64_state \<Rightarrow> b64_state res" where
  "b64_char c st = bind_res (index_res build_table (unat c)) (\<lambda>v.
     if v = b64_INVALID then Err (Format ''base64: invalid character'')
     else if v = b64_PADDING then
       if b64_padding st + 1 > 2 then Err (Format ''base64: too much padding'')
       else b64_store 0 (st\<lparr>b64_padding := b64_padding st + 1\<rparr>)
     else if b64_padding st \<noteq> 0 then Err (Format ''base64: data after padding'')
     else b64_store v st)"

fun b64_loop :: "bytes \<Rightarrow> b64_state \<Rightarrow> b64_state res" where
  "b64_loop [] st = Ok st"
| "b64_loop (c # cs) st =
     (if b64_space c then b64_loop cs st
      else bind_res (b64_char c st) (\<lambda>st.
        if b64_n st = 4
        then if b64_padding st \<noteq> 0 then Ok (b64_group st) else b64_loop cs (b64_group st)
        else b64_loop cs st))"

definition b64_start :: b64_state where
  "b64_start = \<lparr>b64_out = [], b64_buf = replicate 4 0, b64_n = 0, b64_padding = 0\<rparr>"

definition b64_decode :: "bytes \<Rightarrow> bytes res" where
  "b64_decode input =
     bind_res (b64_loop input b64_start) (\<lambda>st.
       if b64_n st = 0 then Ok (b64_out st)
       else if b64_n st = 2 then Ok (b64_out st @ [b64_first (b64_buf st)])
       else if b64_n st = 3 then Ok (b64_out st @ [b64_first (b64_buf st), b64_second (b64_buf st)])
       else Err (Format ''base64: truncated group''))"

section \<open>The table\<close>

lemma b64_table_letters: "\<forall>i \<in> set [0..<64]. build_table ! unat (b64_alphabet ! i) = of_nat i"
  by code_simp

lemma b64_table_pad: "build_table ! unat b64_pad = b64_PADDING"
  by code_simp

lemma length_build_table: "length build_table = 256"
  by code_simp

lemma b64_letters_plain: "\<forall>i \<in> set [0..<64]. \<not> b64_space (b64_alphabet ! i)"
  by code_simp

section \<open>Round trip\<close>

lemma sextet_less: "unat (v AND 0x3f :: u32) < 64"
proof -
  have "v AND 0x3f = take_bit 6 v" by (simp add: take_bit_eq_mask mask_eq_exp_minus_1)
  then show ?thesis by (simp add: unsigned_take_bit_eq take_bit_nat_less_exp [of 6, simplified])
qed

lemma small_value_valid: "i < 64 \<Longrightarrow> (of_nat i :: u8) \<noteq> b64_INVALID \<and> (of_nat i :: u8) \<noteq> b64_PADDING"
  by (auto simp: b64_INVALID_def b64_PADDING_def word_unat_eq_iff unat_of_nat take_bit_eq_mod)

lemma b64_space_letter [simp]: "\<not> b64_space (b64_letter v)"
  using b64_letters_plain sextet_less [of v] by (simp add: b64_letter_def)

lemma b64_space_pad [simp]: "\<not> b64_space b64_pad"
  by (simp add: b64_space_def b64_pad_def)

lemma b64_char_letter:
  assumes "b64_padding st = 0" "b64_n st < 4" "length (b64_buf st) = 4"
  shows "b64_char (b64_letter v) st
    = Ok (st\<lparr>b64_buf := (b64_buf st)[b64_n st := ucast (v AND 0x3f)], b64_n := b64_n st + 1\<rparr>)"
proof -
  have "build_table ! unat (b64_letter v) = of_nat (unat (v AND 0x3f))"
    using b64_table_letters sextet_less [of v] by (simp add: b64_letter_def)
  moreover have "index_res build_table (unat (b64_letter v)) = Ok (build_table ! unat (b64_letter v))"
    using unat_byte_less [of "b64_letter v"] by (simp add: index_res_def length_build_table)
  ultimately show ?thesis
    using assms small_value_valid [OF sextet_less [of v]] by (simp add: b64_char_def b64_store_def)
qed

lemma b64_char_pad:
  assumes "b64_padding st < 2" "b64_n st < 4" "length (b64_buf st) = 4"
  shows "b64_char b64_pad st = Ok (st\<lparr>b64_padding := b64_padding st + 1,
    b64_buf := (b64_buf st)[b64_n st := 0], b64_n := b64_n st + 1\<rparr>)"
proof -
  have "index_res build_table (unat b64_pad) = Ok b64_PADDING"
    using unat_byte_less [of b64_pad] by (simp add: index_res_def length_build_table b64_table_pad)
  then show ?thesis
    using assms by (simp add: b64_char_def b64_store_def b64_PADDING_def b64_INVALID_def)
qed

text \<open>The three bytes put together from the four sextets of their group.\<close>

lemma sextet_mask: "(0x3f :: u32) = mask 6"
  by (simp add: mask_eq_exp_minus_1)

lemma bit_u8_less: "bit (a :: u8) n \<Longrightarrow> n < 8"
  using bit_imp_le_length by fastforce

lemma two_below: "2 \<le> n \<Longrightarrow> Suc (Suc (n - 2)) = n"
  by simp

lemmas bit_tests = bit_push_bit_iff bit_or_iff bit_and_iff bit_drop_bit_eq bit_unsigned_iff
  bit_mask_iff possible_bit_word o_def

lemma group_bytes:
  fixes a b c :: u8
  defines "n \<equiv> (push_bit 16 (ucast a) OR push_bit 8 (ucast b)) OR ucast c :: u32"
  shows "push_bit 2 (ucast (drop_bit 18 n AND 0x3f)) OR drop_bit 4 (ucast (drop_bit 12 n AND 0x3f)) = a"
    and "push_bit 4 (ucast (drop_bit 12 n AND 0x3f)) OR drop_bit 2 (ucast (drop_bit 6 n AND 0x3f)) = b"
    and "push_bit 6 (ucast (drop_bit 6 n AND 0x3f)) OR ucast (n AND 0x3f) = c"
  unfolding n_def sextet_mask
  by (rule bit_word_eqI, simp only: bit_tests, auto dest: bit_u8_less simp: two_below)+

lemma list_of_four: "length xs = 4 \<Longrightarrow> \<exists>a b c d. xs = [a, b, c, d]"
  by (auto simp: numeral_eq_Suc length_Suc_conv)

text \<open>The value of a letter in the group buffer, and the effect of four letters on the decoder.\<close>

definition sextet :: "u32 \<Rightarrow> u8" where
  "sextet v = ucast (v AND 0x3f)"

lemmas group_sextets = group_bytes [folded sextet_def]

definition fresh :: "b64_state \<Rightarrow> bool" where
  "fresh st \<longleftrightarrow> b64_padding st = 0 \<and> b64_n st = 0 \<and> length (b64_buf st) = 4"

lemma b64_loop_group:
  assumes "fresh st"
  shows "b64_loop ([b64_letter p, b64_letter q, b64_letter r, b64_letter s] @ cs) st
    = b64_loop cs (st\<lparr>b64_buf := [sextet p, sextet q, sextet r, sextet s],
        b64_out := b64_out st @ [push_bit 2 (sextet p) OR drop_bit 4 (sextet q),
          push_bit 4 (sextet q) OR drop_bit 2 (sextet r), push_bit 6 (sextet r) OR sextet s], b64_n := 0\<rparr>)"
proof -
  obtain w x y z where buf: "b64_buf st = [w, x, y, z]"
    using assms list_of_four [of "b64_buf st"] by (auto simp: fresh_def)
  with assms show ?thesis
    by (simp add: fresh_def b64_char_letter sextet_def b64_group_def b64_first_def b64_second_def b64_third_def)
qed

lemma b64_loop_pad1:
  assumes "fresh st"
  shows "b64_loop [b64_letter p, b64_letter q, b64_letter r, b64_pad] st
    = Ok (st\<lparr>b64_out := b64_out st @ [push_bit 2 (sextet p) OR drop_bit 4 (sextet q),
        push_bit 4 (sextet q) OR drop_bit 2 (sextet r)],
        b64_buf := [sextet p, sextet q, sextet r, 0], b64_padding := 1\<rparr>)"
proof -
  obtain w x y z where buf: "b64_buf st = [w, x, y, z]"
    using assms list_of_four [of "b64_buf st"] by (auto simp: fresh_def)
  with assms show ?thesis
    by (simp add: fresh_def b64_char_letter b64_char_pad sextet_def b64_group_def b64_first_def b64_second_def)
qed

lemma b64_loop_pad2:
  assumes "fresh st"
  shows "b64_loop [b64_letter p, b64_letter q, b64_pad, b64_pad] st
    = Ok (st\<lparr>b64_out := b64_out st @ [push_bit 2 (sextet p) OR drop_bit 4 (sextet q)],
        b64_buf := [sextet p, sextet q, 0, 0], b64_padding := 2\<rparr>)"
proof -
  obtain w x y z where buf: "b64_buf st = [w, x, y, z]"
    using assms list_of_four [of "b64_buf st"] by (auto simp: fresh_def)
  with assms show ?thesis
    by (simp add: fresh_def b64_char_letter b64_char_pad sextet_def b64_group_def b64_first_def)
qed

lemma b64_loop_encode:
  "fresh st \<Longrightarrow> \<exists>st'. b64_loop (b64_encode x) st = Ok st' \<and> b64_n st' = 0 \<and> b64_out st' = b64_out st @ x"
proof (induction x arbitrary: st rule: b64_encode.induct)
  case (1 a b c rest)
  define n :: u32 where "n = (push_bit 16 (ucast a) OR push_bit 8 (ucast b)) OR ucast c"
  define st1 where "st1 = st\<lparr>b64_buf := [sextet (drop_bit 18 n), sextet (drop_bit 12 n), sextet (drop_bit 6 n), sextet n],
    b64_out := b64_out st @ [a, b, c], b64_n := 0\<rparr>"
  have "b64_loop (b64_encode (a # b # c # rest)) st = b64_loop (b64_encode rest) st1"
    unfolding b64_encode.simps Let_def n_def [symmetric] b64_loop_group [OF "1.prems"] st1_def
    by (simp only: n_def group_sextets)
  moreover have "fresh st1" using "1.prems" by (simp add: st1_def fresh_def)
  ultimately show ?case using "1.IH" [OF n_def, of st1] by (auto simp: st1_def)
next
  case (2 a)
  define n :: u32 where "n = push_bit 16 (ucast a)"
  have "push_bit 2 (sextet (drop_bit 18 n)) OR drop_bit 4 (sextet (drop_bit 12 n)) = a"
    using group_sextets(1) [of a 0 0] by (simp only: n_def unsigned_0 push_bit_of_0 or.right_neutral)
  with "2.prems" show ?case
    unfolding b64_encode.simps Let_def n_def [symmetric] by (simp only: b64_loop_pad2) (simp add: fresh_def)
next
  case (3 a b)
  define n :: u32 where "n = push_bit 16 (ucast a) OR push_bit 8 (ucast b)"
  have "push_bit 2 (sextet (drop_bit 18 n)) OR drop_bit 4 (sextet (drop_bit 12 n)) = a"
    "push_bit 4 (sextet (drop_bit 12 n)) OR drop_bit 2 (sextet (drop_bit 6 n)) = b"
    using group_sextets(1,2) [of a b 0] by (simp_all only: n_def unsigned_0 or.right_neutral)
  with "3.prems" show ?case
    unfolding b64_encode.simps Let_def n_def [symmetric] by (simp only: b64_loop_pad1) (simp add: fresh_def)
next
  case 4
  then show ?case by (simp add: fresh_def)
qed

section \<open>Whitespace and panics\<close>

lemma b64_loop_spaces: "b64_loop (filter (\<lambda>c. \<not> b64_space c) s) st = b64_loop s st"
  by (induction s st rule: b64_loop.induct) (auto simp: bind_res_def split: res.split)

lemma b64_char_no_panic: "b64_n st < 4 \<Longrightarrow> length (b64_buf st) = 4 \<Longrightarrow>
    case b64_char c st of Ok st' \<Rightarrow> b64_n st' \<le> 4 \<and> length (b64_buf st') = 4 | Err _ \<Rightarrow> True | Panic \<Rightarrow> False"
  using unat_byte_less [of c]
  by (auto simp: b64_char_def b64_store_def index_res_def length_build_table Let_def)

lemma b64_loop_no_panic: "b64_n st < 4 \<Longrightarrow> length (b64_buf st) = 4 \<Longrightarrow> b64_loop s st \<noteq> Panic"
proof (induction s st rule: b64_loop.induct)
  case (2 c cs st)
  with b64_char_no_panic [of st c] show ?case
    by (auto simp: bind_res_def b64_group_def Let_def split: res.split_asm res.split)
qed simp

text \<open>
  A final group that is cut short but already padded is not refused: the padding sign stands for a
  sextet of zeroes, which may complete a byte that was never encoded.
\<close>

lemma fresh_start: "fresh b64_start"
  by (simp add: fresh_def b64_start_def)

lemma b64_decode_spaces: "b64_decode (filter (\<lambda>c. \<not> b64_space c) s) = b64_decode s"
  by (simp add: b64_decode_def b64_loop_spaces)

lemma b64_decode_encode: "b64_decode (b64_encode x) = Ok x"
  using b64_loop_encode [OF fresh_start, of x] by (auto simp: b64_decode_def b64_start_def)

lemma b64_decode_no_panic: "b64_decode s \<noteq> Panic"
  using b64_loop_no_panic [of b64_start s]
  by (auto simp: b64_decode_def bind_res_def b64_start_def split: res.split)

text \<open>
  Decoding an encoded byte string, with white space of any kind put between its characters, gives the
  string back, and no input makes the decoder panic. A group that was cut short behind its first
  padding sign is accepted and yields a byte that was not encoded.\<close>

theorem base64_round_trip:
  "(filter (\<lambda>c. \<not> b64_space c) s = b64_encode x \<longrightarrow> b64_decode s = Ok x)
   \<and> b64_decode t \<noteq> Panic
   \<and> b64_decode (lit ''Zg=='') = Ok (lit ''f'') \<and> b64_decode (lit ''Zg='') = Ok (lit ''f'' @ [0])"
proof (intro conjI impI)
  show "b64_decode s = Ok x" if "filter (\<lambda>c. \<not> b64_space c) s = b64_encode x"
    using that b64_decode_spaces [of s] b64_decode_encode [of x] by simp
  show "b64_decode t \<noteq> Panic" by (rule b64_decode_no_panic)
  show "b64_decode (lit ''Zg=='') = Ok (lit ''f'')" by code_simp
  show "b64_decode (lit ''Zg='') = Ok (lit ''f'' @ [0])" by code_simp
qed

theorem base64_round_trip_witness:
  "filter (\<lambda>c. \<not> b64_space c) (lit ''Zm9v YmE ='') = b64_encode (lit ''fooba'')
   \<and> b64_decode (lit ''Zm9v YmE ='') = Ok (lit ''fooba'')"
proof -
  have eq: "filter (\<lambda>c. \<not> b64_space c) (lit ''Zm9v YmE ='') = b64_encode (lit ''fooba'')" by code_simp
  moreover have "b64_decode (lit ''Zm9v YmE ='') = Ok (lit ''fooba'')"
    using base64_round_trip [of "lit ''Zm9v YmE =''" "lit ''fooba''" "[]"] eq by blast
  ultimately show ?thesis by blast
qed

end
