(* ===== verification/Certs.thy ===== *)
theory Certs
  imports SigKeys Base64 "HOL-Library.List_Lexorder"
begin

text \<open>
  OpenSSH certificates, src/src/cert/mod.rs: the parser with its bounds, the checks (type, validity,
  principals, critical options, CA signature), the builder that signs certificates, and the dispatch
  from an algorithm name to a verifier, src/src/hostkey/mod.rs, which parses certificates for the
  certificate names. Strings are compared bytewise (\<open>List_Lexorder\<close>), as \<open>str\<close> is.
\<close>

section \<open>Names\<close>

definition MAX_CERT_BLOB :: nat where "MAX_CERT_BLOB = 64 * 1024"
definition MAX_LIST_ENTRIES :: nat where "MAX_LIST_ENTRIES = 256"
definition MAX_LIST_ELEM :: nat where "MAX_LIST_ELEM = 8 * 1024"

datatype cert_type = CertUser | CertHost

definition cert_type_from_u32 :: "u32 \<Rightarrow> cert_type res" where
  "cert_type_from_u32 v =
     (if v = 1 then Ok CertUser else if v = 2 then Ok CertHost
      else Err (Format ''cert: unknown certificate type''))"

definition MLDSA_CERT :: rust_str where "MLDSA_CERT = lit ''ssh-mldsa44-ed25519-cert''"
definition SK_ED25519_CERT :: rust_str where "SK_ED25519_CERT = lit ''sk-ssh-ed25519-cert-v01@openssh.com''"
definition SK_ECDSA_CERT :: rust_str where "SK_ECDSA_CERT = lit ''sk-ecdsa-sha2-nistp256-cert-v01@openssh.com''"
definition WEBAUTHN_SK_ECDSA_CERT :: rust_str where
  "WEBAUTHN_SK_ECDSA_CERT = lit ''webauthn-sk-ecdsa-sha2-nistp256-cert-v01@openssh.com''"

definition is_cert_name :: "rust_str \<Rightarrow> bool" where
  "is_cert_name name \<longleftrightarrow> str_ends_with name (lit ''-cert-v01@openssh.com'') \<or> name = MLDSA_CERT"

definition cert_name_to_plain :: "rust_str \<Rightarrow> rust_str option" where
  "cert_name_to_plain name =
     (if name = lit ''ssh-ed25519-cert-v01@openssh.com'' then Some (lit ''ssh-ed25519'')
      else if name = lit ''ecdsa-sha2-nistp256-cert-v01@openssh.com'' then Some (lit ''ecdsa-sha2-nistp256'')
      else if name = lit ''ecdsa-sha2-nistp384-cert-v01@openssh.com'' then Some (lit ''ecdsa-sha2-nistp384'')
      else if name = lit ''ecdsa-sha2-nistp521-cert-v01@openssh.com'' then Some (lit ''ecdsa-sha2-nistp521'')
      else if name = lit ''rsa-sha2-512-cert-v01@openssh.com'' then Some (lit ''rsa-sha2-512'')
      else if name = lit ''rsa-sha2-256-cert-v01@openssh.com'' then Some (lit ''rsa-sha2-256'')
      else if name = lit ''ssh-rsa-cert-v01@openssh.com'' then Some (lit ''ssh-rsa'')
      else if name = MLDSA_CERT then Some MLDSA
      else if name = SK_ED25519_CERT then Some SK_ED25519
      else if name = SK_ECDSA_CERT then Some SK_ECDSA
      else if name = WEBAUTHN_SK_ECDSA_CERT then Some WEBAUTHN_SK_ECDSA
      else None)"

definition blob_type_to_plain :: "rust_str \<Rightarrow> rust_str option" where
  "blob_type_to_plain name =
     (if name = lit ''ssh-ed25519-cert-v01@openssh.com'' then Some (lit ''ssh-ed25519'')
      else if name = lit ''ecdsa-sha2-nistp256-cert-v01@openssh.com'' then Some (lit ''ecdsa-sha2-nistp256'')
      else if name = lit ''ecdsa-sha2-nistp384-cert-v01@openssh.com'' then Some (lit ''ecdsa-sha2-nistp384'')
      else if name = lit ''ecdsa-sha2-nistp521-cert-v01@openssh.com'' then Some (lit ''ecdsa-sha2-nistp521'')
      else if name = lit ''ssh-rsa-cert-v01@openssh.com'' then Some (lit ''ssh-rsa'')
      else if name = MLDSA_CERT then Some MLDSA
      else if name = SK_ED25519_CERT then Some SK_ED25519
      else if name = SK_ECDSA_CERT then Some SK_ECDSA
      else None)"

lemmas cert_name_defs = MLDSA_CERT_def SK_ED25519_CERT_def SK_ECDSA_CERT_def WEBAUTHN_SK_ECDSA_CERT_def
  MLDSA_def SK_ED25519_def SK_ECDSA_def WEBAUTHN_SK_ECDSA_def

section \<open>Parsing\<close>

record certificate =
  ct_key_type :: rust_str
  ct_nonce :: bytes
  ct_embedded_pubkey_blob :: bytes
  ct_serial :: u64
  ct_cert_type :: cert_type
  ct_key_id :: rust_str
  ct_valid_principals :: "rust_str list"
  ct_valid_after :: u64
  ct_valid_before :: u64
  ct_critical_options :: "(rust_str \<times> bytes) list"
  ct_extensions :: "(rust_str \<times> bytes) list"
  ct_signature_key_blob :: bytes
  ct_signature :: bytes
  ct_signed_len :: nat
  ct_raw :: bytes

definition read_capped :: "nat \<Rightarrow> string \<Rightarrow> bytes rd" where
  "read_capped cap what = rd_bind read_string (\<lambda>s.
     if length s > cap then rd_err (Format what) else rd_ok s)"

text \<open>
  The loops run while the inner reader has bytes left; every round reads at least one length prefix,
  so a reader of \<open>n\<close> bytes is done after \<open>n\<close> rounds and the fuel of its length is never used up.
\<close>

fun parse_string_list_loop :: "nat \<Rightarrow> rust_str list \<Rightarrow> rust_str list rd" where
  "parse_string_list_loop fuel out r =
     (if reader_is_empty r then Ok (out, r)
      else if length out \<ge> MAX_LIST_ENTRIES then Err (Format ''cert: too many list entries'')
      else case fuel of
        0 \<Rightarrow> Panic
      | Suc fuel \<Rightarrow>
          rd_bind read_string (\<lambda>elem.
            if length elem > MAX_LIST_ELEM then rd_err (Format ''cert: list element too long'')
            else rd_bind (utf8_or ''cert: non-utf8 principal'' elem) (\<lambda>s.
              parse_string_list_loop fuel (out @ [s]))) r)"

definition parse_string_list :: "bytes \<Rightarrow> rust_str list res" where
  "parse_string_list blob = map_res fst (parse_string_list_loop (length blob) [] (reader_new blob))"

fun parse_pair_list_loop :: "nat \<Rightarrow> (rust_str \<times> bytes) list \<Rightarrow> (rust_str \<times> bytes) list rd" where
  "parse_pair_list_loop fuel out r =
     (if reader_is_empty r then Ok (out, r)
      else if length out \<ge> MAX_LIST_ENTRIES then Err (Format ''cert: too many option entries'')
      else case fuel of
        0 \<Rightarrow> Panic
      | Suc fuel \<Rightarrow>
          rd_bind read_string (\<lambda>name.
            if length name > MAX_LIST_ELEM then rd_err (Format ''cert: option name too long'')
            else rd_bind read_string (\<lambda>data.
              if length data > MAX_LIST_ELEM then rd_err (Format ''cert: option data too long'')
              else rd_bind (utf8_or ''cert: non-utf8 option name'' name) (\<lambda>name.
                if out \<noteq> [] \<and> name \<le> fst (last out)
                then rd_err (Format ''cert: option names must be strictly ascending (duplicate or unsorted)'')
                else parse_pair_list_loop fuel (out @ [(name, data)])))) r)"

definition parse_pair_list :: "bytes \<Rightarrow> (rust_str \<times> bytes) list res" where
  "parse_pair_list blob = map_res fst (parse_pair_list_loop (length blob) [] (reader_new blob))"

text \<open>\<open>unwrap\<close> and \<open>expect\<close>: \<open>None\<close> is a panic.\<close>

definition expect :: "'a option \<Rightarrow> 'a res" where
  "expect x = (case x of Some v \<Rightarrow> Ok v | None \<Rightarrow> Panic)"

definition want_curve :: "rust_str \<Rightarrow> bytes res" where
  "want_curve plain =
     (if plain = lit ''ecdsa-sha2-nistp256'' then Ok (lit ''nistp256'')
      else if plain = lit ''ecdsa-sha2-nistp384'' then Ok (lit ''nistp384'')
      else if plain = lit ''ecdsa-sha2-nistp521'' then Ok (lit ''nistp521'')
      else Panic)"

definition read_embedded_pubkey :: "rust_str \<Rightarrow> bytes rd" where
  "read_embedded_pubkey kt =
     (if kt = lit ''ssh-ed25519-cert-v01@openssh.com'' then
        rd_bind read_string (\<lambda>pk.
        rd_bind (rd_check (length pk = 32) (Format ''cert: ed25519 key length'')) (\<lambda>_.
          rd_ok (into_vec (write_string pk (write_string (lit ''ssh-ed25519'') writer_new)))))
      else if kt = lit ''ecdsa-sha2-nistp256-cert-v01@openssh.com''
        \<or> kt = lit ''ecdsa-sha2-nistp384-cert-v01@openssh.com''
        \<or> kt = lit ''ecdsa-sha2-nistp521-cert-v01@openssh.com'' then
        rd_bind (rd_res (expect (blob_type_to_plain kt))) (\<lambda>plain.
        rd_bind read_string (\<lambda>curve. rd_bind read_string (\<lambda>point.
        rd_bind (rd_res (want_curve plain)) (\<lambda>want.
        rd_bind (rd_check (curve = want) (Format ''cert: ecdsa curve mismatch'')) (\<lambda>_.
          rd_ok (into_vec (write_string point (write_string curve (write_string plain writer_new)))))))))
      else if kt = MLDSA_CERT then
        rd_bind read_string (\<lambda>pk.
        rd_bind (rd_res (mldsa_from_public pk)) (\<lambda>_.
          rd_ok (into_vec (write_string pk (write_string MLDSA writer_new)))))
      else if kt = SK_ED25519_CERT then
        rd_bind read_string (\<lambda>pk.
        rd_bind (rd_check (length pk = 32) (Format ''cert: ed25519 key length'')) (\<lambda>_.
        rd_bind read_string (\<lambda>app.
          rd_ok (into_vec (write_string app (write_string pk (write_string SK_ED25519 writer_new)))))))
      else if kt = SK_ECDSA_CERT then
        rd_bind read_string (\<lambda>curve.
        rd_bind (rd_check (curve = lit ''nistp256'') (Format ''cert: ecdsa curve mismatch'')) (\<lambda>_.
        rd_bind read_string (\<lambda>point. rd_bind read_string (\<lambda>app.
          rd_ok (into_vec (write_string app (write_string point (write_string curve
            (write_string SK_ECDSA writer_new)))))))))
      else if kt = lit ''ssh-rsa-cert-v01@openssh.com'' then
        rd_bind read_string (\<lambda>e. rd_bind read_string (\<lambda>n.
        rd_bind (rd_res (check_rsa_modulus_mpint n)) (\<lambda>_.
        rd_bind (rd_res (check_rsa_exponent_mpint e)) (\<lambda>_.
          rd_ok (into_vec (write_string n (write_string e (write_string (lit ''ssh-rsa'') writer_new))))))))
      else rd_err (Format ''cert: unsupported certificate key type''))"

text \<open>The fields the CA signs, in their order; the signature and the raw bytes are filled in behind.\<close>

definition read_signed_part :: "certificate rd" where
  "read_signed_part =
     rd_bind read_string (\<lambda>key_type_b.
     rd_bind (utf8_or ''cert: non-utf8 key type'' key_type_b) (\<lambda>kt.
     rd_bind (rd_check (blob_type_to_plain kt \<noteq> None) (Format ''cert: unsupported certificate key type'')) (\<lambda>_.
     rd_bind (read_capped MAX_LIST_ELEM ''cert: nonce too long'') (\<lambda>nonce.
     rd_bind (read_embedded_pubkey kt) (\<lambda>embedded.
     rd_bind read_u64 (\<lambda>serial.
     rd_bind read_u32 (\<lambda>ty. rd_bind (rd_res (cert_type_from_u32 ty)) (\<lambda>cert_type.
     rd_bind (read_capped MAX_LIST_ELEM ''cert: key id too long'') (\<lambda>kid.
     rd_bind (utf8_or ''cert: non-utf8 key id'' kid) (\<lambda>key_id.
     rd_bind (read_capped (MAX_LIST_ENTRIES * MAX_LIST_ELEM) ''cert: principals list too long'') (\<lambda>pb.
     rd_bind (rd_res (parse_string_list pb)) (\<lambda>principals.
     rd_bind read_u64 (\<lambda>after. rd_bind read_u64 (\<lambda>before.
     rd_bind (rd_check (\<not> after > before) (Format ''cert: valid_after after valid_before'')) (\<lambda>_.
     rd_bind (read_capped (MAX_LIST_ENTRIES * (2 * MAX_LIST_ELEM)) ''cert: critical options too long'') (\<lambda>cb.
     rd_bind (rd_res (parse_pair_list cb)) (\<lambda>critical.
     rd_bind (read_capped (MAX_LIST_ENTRIES * (2 * MAX_LIST_ELEM)) ''cert: extensions too long'') (\<lambda>eb.
     rd_bind (rd_res (parse_pair_list eb)) (\<lambda>exts.
     rd_bind (read_capped MAX_LIST_ELEM ''cert: reserved too long'') (\<lambda>_.
     rd_bind (read_capped MAX_LIST_ELEM ''cert: signature key too long'') (\<lambda>ca_key.
       rd_ok \<lparr>ct_key_type = kt, ct_nonce = nonce, ct_embedded_pubkey_blob = embedded, ct_serial = serial,
         ct_cert_type = cert_type, ct_key_id = key_id, ct_valid_principals = principals,
         ct_valid_after = after, ct_valid_before = before, ct_critical_options = critical, ct_extensions = exts,
         ct_signature_key_blob = ca_key, ct_signature = [], ct_signed_len = 0, ct_raw = []\<rparr>)))))))))))))))))))))"

definition certificate_parse :: "bytes \<Rightarrow> certificate res" where
  "certificate_parse blob =
     (if length blob > MAX_CERT_BLOB then Err (Format ''cert: blob exceeds maximum size'')
      else run_rd
        (rd_bind read_signed_part (\<lambda>c r.
         bind_res (sub_res (length blob) (remaining r)) (\<lambda>n.
         rd_bind (read_capped MAX_LIST_ELEM ''cert: signature too long'') (\<lambda>sig.
         rd_bind (rd_end (Format ''cert: trailing data after certificate'')) (\<lambda>_.
           rd_ok (c\<lparr>ct_signature := sig, ct_signed_len := n, ct_raw := blob\<rparr>))) r))) blob)"

declare parse_string_list_loop.simps [simp del] parse_pair_list_loop.simps [simp del]

section \<open>Verifiers (hostkey/mod.rs)\<close>

text \<open>What \<open>Box<dyn HostKeyVerify>\<close> can hold: one constructor per type that implements the trait.\<close>

datatype verifier =
    VEd25519 bytes
  | VMlDsa bytes
  | VEcdsa ecdsa_params bytes
  | VSkEcdsa bytes bytes
  | VSkEd25519 bytes bytes
  | VRsa rsa_hash nat nat nat

fun verifier_verify :: "sig_prims \<Rightarrow> verifier \<Rightarrow> bytes \<Rightarrow> bytes \<Rightarrow> unit res" where
  "verifier_verify P (VEd25519 pk) msg sig = ed25519_verify P pk msg sig"
| "verifier_verify P (VMlDsa pk) msg sig = mldsa_verify_blob P pk msg sig"
| "verifier_verify P (VEcdsa params pk) msg sig = ecdsa_verify_with P params pk msg sig"
| "verifier_verify P (VSkEcdsa pk app) msg sig = sk_ecdsa_verify P pk app msg sig"
| "verifier_verify P (VSkEd25519 pk app) msg sig = sk_ed25519_verify P pk app msg sig"
| "verifier_verify P (VRsa hash n e k) msg sig = verify_rsa P hash n e k msg sig"

text \<open>
  \<open>allow_rsa_sha1\<close> is the process-wide switch. The plain form of a certificate name is not a
  certificate name, so the recursion for certificates is one level deep.
\<close>

lemma cert_plain_not_cert: "cert_name_to_plain name = Some plain \<Longrightarrow> \<not> is_cert_name plain"
  by (auto simp: cert_name_to_plain_def cert_name_defs is_cert_name_def str_ends_with_def lit_def split: if_splits)

definition embedded_algorithm :: "certificate \<Rightarrow> rust_str res" where
  "embedded_algorithm c = expect (blob_type_to_plain (ct_key_type c))"

text \<open>The negotiated plain name must belong to the family of the embedded key.\<close>

definition family_ok :: "rust_str \<Rightarrow> rust_str \<Rightarrow> bool" where
  "family_ok embedded plain \<longleftrightarrow>
     (if embedded = lit ''ssh-rsa''
      then plain = lit ''rsa-sha2-256'' \<or> plain = lit ''rsa-sha2-512'' \<or> plain = lit ''ssh-rsa''
      else plain = embedded)"

function host_key_verify_by_name :: "sig_prims \<Rightarrow> bool \<Rightarrow> rust_str \<Rightarrow> bytes \<Rightarrow> verifier res" where
  "host_key_verify_by_name P allow_rsa_sha1 name blob =
     (if name = lit ''ssh-ed25519'' then map_res VEd25519 (ed25519_from_public_blob blob)
      else if name = lit ''ssh-mldsa44-ed25519'' then map_res VMlDsa (mldsa_from_public_blob blob)
      else if name = lit ''ecdsa-sha2-nistp256'' then map_res (VEcdsa P256_PARAMS) (parse_public_blob P P256_PARAMS blob)
      else if name = lit ''ecdsa-sha2-nistp384'' then map_res (VEcdsa P384_PARAMS) (parse_public_blob P P384_PARAMS blob)
      else if name = lit ''ecdsa-sha2-nistp521'' then map_res (VEcdsa P521_PARAMS) (parse_public_blob P P521_PARAMS blob)
      else if name = SK_ECDSA \<or> name = WEBAUTHN_SK_ECDSA then
        map_res (\<lambda>(pk, app). VSkEcdsa pk app) (sk_ecdsa_from_public_blob P blob)
      else if name = SK_ED25519 then map_res (\<lambda>(pk, app). VSkEd25519 pk app) (sk_ed25519_from_public_blob blob)
      else if name = lit ''ssh-rsa'' then
        if \<not> allow_rsa_sha1 then Err (Unsupported ''ssh-rsa (SHA-1) is disabled by default; call hostkey::set_allow_rsa_sha1(true) to opt in'')
        else map_res (\<lambda>(n, e, k). VRsa RsaSha1 n e k) (parse_rsa_public_blob P blob)
      else if name = lit ''rsa-sha2-256'' then map_res (\<lambda>(n, e, k). VRsa RsaSha256 n e k) (parse_rsa_public_blob P blob)
      else if name = lit ''rsa-sha2-512'' then map_res (\<lambda>(n, e, k). VRsa RsaSha512 n e k) (parse_rsa_public_blob P blob)
      else if is_cert_name name then
        (case cert_name_to_plain name of
           None \<Rightarrow> Err (Unsupported ''certificate algorithm'')
         | Some plain \<Rightarrow>
             bind_res (certificate_parse blob) (\<lambda>cert.
             bind_res (embedded_algorithm cert) (\<lambda>embedded.
               if \<not> family_ok embedded plain then Err (Format ''cert: negotiated name/key family mismatch'')
               else host_key_verify_by_name P allow_rsa_sha1 plain (ct_embedded_pubkey_blob cert))))
      else Err (Unsupported ''host-key algorithm''))"
  by pat_completeness auto

termination
  by (relation "measure (\<lambda>(P, a, name, blob). if is_cert_name name then 1 else 0)")
    (auto dest: cert_plain_not_cert)

declare host_key_verify_by_name.simps [simp del]

definition verify_signature :: "sig_prims \<Rightarrow> bool \<Rightarrow> rust_str \<Rightarrow> bytes \<Rightarrow> bytes \<Rightarrow> bytes \<Rightarrow> unit res" where
  "verify_signature P sha1 alg key_blob msg sig_blob =
     bind_res (host_key_verify_by_name P sha1 alg key_blob) (\<lambda>v. verifier_verify P v msg sig_blob)"

section \<open>Checks\<close>

definition ca_algorithm :: "certificate \<Rightarrow> rust_str res" where
  "ca_algorithm c = run_rd (rd_bind read_string (utf8_or ''cert: non-utf8 CA signature algo'')) (ct_signature c)"

definition verify_ca_signature :: "sig_prims \<Rightarrow> bool \<Rightarrow> rust_str list \<Rightarrow> certificate \<Rightarrow> unit res" where
  "verify_ca_signature P sha1 allowed c =
     (case ca_algorithm c of
        Ok ca_algo \<Rightarrow>
          if ca_algo \<notin> set allowed then Err CertBadCaSignature
          else (case host_key_verify_by_name P sha1 ca_algo (ct_signature_key_blob c) of
                  Ok v \<Rightarrow>
                    bind_res (slice_res (ct_raw c) 0 (ct_signed_len c)) (\<lambda>signed.
                      case verifier_verify P v signed (ct_signature c) of
                        Ok _ \<Rightarrow> Ok ()
                      | Err _ \<Rightarrow> Err CertBadCaSignature
                      | Panic \<Rightarrow> Panic)
                | Err _ \<Rightarrow> Err CertBadCaSignature
                | Panic \<Rightarrow> Panic)
      | Err _ \<Rightarrow> Err CertBadCaSignature
      | Panic \<Rightarrow> Panic)"

definition check_validity :: "u64 \<Rightarrow> certificate \<Rightarrow> unit res" where
  "check_validity now c =
     (if now < ct_valid_after c then Err CertNotYetValid
      else if now \<ge> ct_valid_before c then Err CertExpired
      else Ok ())"

definition check_type :: "cert_type \<Rightarrow> certificate \<Rightarrow> unit res" where
  "check_type want c = (if ct_cert_type c = want then Ok () else Err CertTypeMismatch)"

definition unknown_critical_options :: "certificate \<Rightarrow> rust_str list" where
  "unknown_critical_options c =
     map fst (filter (\<lambda>(name, _). name \<notin> {lit ''force-command'', lit ''source-address'', lit ''verify-required''})
       (ct_critical_options c))"

definition decode_option_string :: "bytes \<Rightarrow> rust_str option" where
  "decode_option_string data = Option.bind
     (ok_opt (run_rd (rd_bind read_string (\<lambda>s. rd_bind (rd_end (Format [])) (\<lambda>_. rd_ok s))) data)) from_utf8"

definition encode_option_string :: "rust_str \<Rightarrow> bytes" where
  "encode_option_string value = into_vec (write_string value writer_new)"

definition require_known_critical_options :: "certificate \<Rightarrow> unit res" where
  "require_known_critical_options c =
     (if unknown_critical_options c \<noteq> [] then Err CertUnknownCriticalOption
      else if \<exists>(name, data) \<in> set (ct_critical_options c).
                name \<in> {lit ''force-command'', lit ''source-address''} \<and> decode_option_string data = None
      then Err (Format ''cert: malformed critical option payload'')
      else Ok ())"

definition critical_option :: "rust_str \<Rightarrow> certificate \<Rightarrow> bytes option" where
  "critical_option name c = map_option snd (find (\<lambda>(n, _). n = name) (ct_critical_options c))"

definition critical_option_string :: "rust_str \<Rightarrow> certificate \<Rightarrow> rust_str option" where
  "critical_option_string name c = Option.bind (critical_option name c) decode_option_string"

definition has_extension :: "rust_str \<Rightarrow> certificate \<Rightarrow> bool" where
  "has_extension name c \<longleftrightarrow> (\<exists>(n, _) \<in> set (ct_extensions c). n = name)"

text \<open>
  The embedded verifier is keyed on the algorithm inside the signature blob.
\<close>

definition embedded_verifier :: "sig_prims \<Rightarrow> bool \<Rightarrow> bytes \<Rightarrow> certificate \<Rightarrow> verifier res" where
  "embedded_verifier P sha1 sig_blob c =
     bind_res (run_rd (rd_bind read_string (utf8_or ''cert: non-utf8 sig algo'')) sig_blob) (\<lambda>sig_algo.
     bind_res (embedded_algorithm c) (\<lambda>embedded.
       if (if embedded = lit ''ssh-rsa''
           then sig_algo \<in> {lit ''ssh-rsa'', lit ''rsa-sha2-256'', lit ''rsa-sha2-512''}
           else if embedded = SK_ECDSA then sig_algo \<in> {SK_ECDSA, WEBAUTHN_SK_ECDSA}
           else embedded \<in> {lit ''ssh-ed25519'', lit ''ecdsa-sha2-nistp256'', lit ''ecdsa-sha2-nistp384'',
                             lit ''ecdsa-sha2-nistp521'', MLDSA, SK_ED25519} \<and> sig_algo = embedded)
       then host_key_verify_by_name P sha1 sig_algo (ct_embedded_pubkey_blob c)
       else Err (Format ''cert: signature algorithm not compatible with key'')))"

section \<open>Building\<close>

record certificate_builder =
  cb_public_key :: bytes
  cb_nonce :: bytes
  cb_serial :: u64
  cb_cert_type :: cert_type
  cb_key_id :: rust_str
  cb_valid_principals :: "rust_str list"
  cb_valid_after :: u64
  cb_valid_before :: u64
  cb_critical_options :: "(rust_str \<times> bytes) list"
  cb_extensions :: "(rust_str \<times> bytes) list"

definition builder_new :: "bytes \<Rightarrow> cert_type \<Rightarrow> bytes \<Rightarrow> certificate_builder" where
  "builder_new public_key cert_type nonce =
     \<lparr>cb_public_key = public_key, cb_nonce = nonce, cb_serial = 0, cb_cert_type = cert_type, cb_key_id = [],
      cb_valid_principals = [], cb_valid_after = 0, cb_valid_before = - 1, cb_critical_options = [],
      cb_extensions = []\<rparr>"

text \<open>The loop over the sorted pairs, with the name before the current one.\<close>

fun write_pairs :: "rust_str option \<Rightarrow> (rust_str \<times> bytes) list \<Rightarrow> writer \<Rightarrow> writer res" where
  "write_pairs prev [] w = Ok w"
| "write_pairs prev ((name, data) # ps) w =
     (if prev = Some name then Err (Config ''cert: duplicate option'')
      else write_pairs (Some name) ps (write_string data (write_string name w)))"

definition write_pair_list :: "(rust_str \<times> bytes) list \<Rightarrow> bytes res" where
  "write_pair_list pairs = map_res into_vec (write_pairs None (sort_key fst pairs) writer_new)"

definition plain_to_blob_type :: "bytes \<Rightarrow> rust_str res" where
  "plain_to_blob_type plain =
     (if plain = lit ''ssh-ed25519'' then Ok (lit ''ssh-ed25519-cert-v01@openssh.com'')
      else if plain = lit ''ecdsa-sha2-nistp256'' then Ok (lit ''ecdsa-sha2-nistp256-cert-v01@openssh.com'')
      else if plain = lit ''ecdsa-sha2-nistp384'' then Ok (lit ''ecdsa-sha2-nistp384-cert-v01@openssh.com'')
      else if plain = lit ''ecdsa-sha2-nistp521'' then Ok (lit ''ecdsa-sha2-nistp521-cert-v01@openssh.com'')
      else if plain = lit ''ssh-rsa'' then Ok (lit ''ssh-rsa-cert-v01@openssh.com'')
      else if plain = lit ''ssh-mldsa44-ed25519'' then Ok MLDSA_CERT
      else if plain = lit ''sk-ssh-ed25519@openssh.com'' then Ok SK_ED25519_CERT
      else if plain = lit ''sk-ecdsa-sha2-nistp256@openssh.com'' then Ok SK_ECDSA_CERT
      else Err (Unsupported ''cert: key type''))"

definition to_be_signed :: "certificate_builder \<Rightarrow> bytes \<Rightarrow> rust_str \<Rightarrow> bytes \<Rightarrow> bytes res" where
  "to_be_signed b ca_public_key kt key_fields =
     bind_res (write_pair_list (cb_critical_options b)) (\<lambda>crit.
     bind_res (write_pair_list (cb_extensions b)) (\<lambda>exts.
       Ok (into_vec
         (write_string ca_public_key (write_string [] (write_string exts (write_string crit
         (write_u64 (cb_valid_before b) (write_u64 (cb_valid_after b)
         (write_string (into_vec (foldl (\<lambda>w p. write_string p w) writer_new (cb_valid_principals b)))
         (write_string (cb_key_id b)
         (write_u32 (case cb_cert_type b of CertUser \<Rightarrow> 1 | CertHost \<Rightarrow> 2)
         (write_u64 (cb_serial b)
         (write_raw key_fields
         (write_string (cb_nonce b) (write_string kt writer_new))))))))))))))))"

definition builder_sign :: "certificate_builder \<Rightarrow> bytes \<Rightarrow> (bytes \<Rightarrow> bytes res) \<Rightarrow> certificate res" where
  "builder_sign b ca_public_key sign =
     bind_res (read_string (reader_new (cb_public_key b))) (\<lambda>(plain, key).
     bind_res (plain_to_blob_type plain) (\<lambda>kt.
       if cb_valid_after b > cb_valid_before b then Err (Config ''cert: valid_after after valid_before'')
       else
         bind_res (sub_res (length (cb_public_key b)) (remaining key)) (\<lambda>from.
         bind_res (slice_res (cb_public_key b) from (length (cb_public_key b))) (\<lambda>key_fields.
         bind_res (to_be_signed b ca_public_key kt key_fields) (\<lambda>tbs.
         bind_res (sign tbs) (\<lambda>sig.
         bind_res (certificate_parse (into_vec (write_string sig (write_raw tbs writer_new)))) (\<lambda>cert.
           if ct_embedded_pubkey_blob cert \<noteq> cb_public_key b
           then Err (Format ''cert: unexpected public key encoding'')
           else Ok cert)))))))"

end
