(* ===== verification/Signers.thy ===== *)
theory Signers
  imports Certs
begin

text \<open>
  Signing keys (the trait \<open>HostKey\<close> of src/src/hostkey/mod.rs) and its implementations for keys in
  memory: Ed25519, ECDSA, RSA under its three signature algorithms, and a key presented as a
  certificate (src/src/hostkey/cert.rs), with the change of algorithm \<open>upgraded_for\<close>. The trait is open,
  so clients of it take the operations as a record and rely on the laws of the locale \<open>signing_keys\<close>,
  which the implementations here satisfy.
\<close>

section \<open>The trait\<close>

record 'k host_key_ops =
  hk_algorithm :: "'k \<Rightarrow> rust_str"
  hk_public_blob :: "'k \<Rightarrow> bytes"
  hk_sign :: "'k \<Rightarrow> bytes \<Rightarrow> bytes res"
  hk_upgraded_for :: "'k \<Rightarrow> rust_str \<Rightarrow> 'k option"

section \<open>Algorithm lists\<close>

text \<open>\<open>csv.split(',')\<close> with each part trimmed.\<close>

definition csv_names :: "rust_str \<Rightarrow> rust_str list" where
  "csv_names csv = map str_trim (split_on comma csv)"

definition preferred_rsa_sha2 :: "rust_str \<Rightarrow> rust_str option" where
  "preferred_rsa_sha2 server_sig_algs =
     (if lit ''rsa-sha2-512'' \<in> set (csv_names server_sig_algs) then Some (lit ''rsa-sha2-512'')
      else if lit ''rsa-sha2-256'' \<in> set (csv_names server_sig_algs) then Some (lit ''rsa-sha2-256'')
      else None)"

section \<open>Keys\<close>

datatype signer =
    SEd25519 "bytes option" bytes
  | SEcdsa ecdsa_params "bytes option" bytes
  | SRsa rsa_hash "rsa_private option" nat nat nat
  | SCert signer bytes rust_str
  | SUpgradedCert signer bytes rust_str

fun signer_algorithm :: "signer \<Rightarrow> rust_str" where
  "signer_algorithm (SEd25519 _ _) = ED25519"
| "signer_algorithm (SEcdsa params _ _) = ep_algorithm params"
| "signer_algorithm (SRsa hash _ _ _ _) = rsa_hash_algorithm hash"
| "signer_algorithm (SCert _ _ cert_algo) = cert_algo"
| "signer_algorithm (SUpgradedCert _ _ cert_algo) = cert_algo"

fun signer_public_blob :: "signer \<Rightarrow> bytes" where
  "signer_public_blob (SEd25519 _ public) = ed25519_public_blob public"
| "signer_public_blob (SEcdsa params _ sec1) = build_public_blob params sec1"
| "signer_public_blob (SRsa _ _ n e _) = build_rsa_public_blob n e"
| "signer_public_blob (SCert _ cert_blob _) = cert_blob"
| "signer_public_blob (SUpgradedCert _ cert_blob _) = cert_blob"

fun signer_sign :: "sig_prims \<Rightarrow> signer \<Rightarrow> bytes \<Rightarrow> bytes res" where
  "signer_sign P (SEd25519 private _) msg = ed25519_sign P private msg"
| "signer_sign P (SEcdsa params private _) msg = ecdsa_sign_with P params private msg"
| "signer_sign P (SRsa hash private _ _ _) msg = sign_rsa P hash private msg"
| "signer_sign P (SCert inner _ _) msg = signer_sign P inner msg"
| "signer_sign P (SUpgradedCert inner _ _) msg = signer_sign P inner msg"

fun rsa_hash_of_name :: "rust_str \<Rightarrow> rsa_hash" where
  "rsa_hash_of_name name =
     (if name = lit ''rsa-sha2-512'' then RsaSha512 else if name = lit ''rsa-sha2-256'' then RsaSha256 else RsaSha1)"

text \<open>The choice for a key that signs with SHA-2 now; \<open>allow_rsa_sha1\<close> is the process-wide switch.\<close>

definition rsa_variant_for :: "bool \<Rightarrow> rsa_private option \<Rightarrow> nat \<Rightarrow> nat \<Rightarrow> nat \<Rightarrow> rust_str \<Rightarrow> rust_str \<Rightarrow> signer option" where
  "rsa_variant_for allow_rsa_sha1 private n e k current sig_algs =
     (let name = (case preferred_rsa_sha2 sig_algs of
                    Some x \<Rightarrow> Some x
                  | None \<Rightarrow> if allow_rsa_sha1 \<and> SSH_RSA \<in> set (csv_names sig_algs) then Some SSH_RSA else None)
      in case name of
           None \<Rightarrow> None
         | Some name \<Rightarrow> if name = current then None else Some (SRsa (rsa_hash_of_name name) private n e k))"

definition CERT_RSA :: "(rust_str \<times> rust_str) list" where
  "CERT_RSA =
     [(lit ''rsa-sha2-512-cert-v01@openssh.com'', lit ''rsa-sha2-512''),
      (lit ''rsa-sha2-256-cert-v01@openssh.com'', lit ''rsa-sha2-256''),
      (lit ''ssh-rsa-cert-v01@openssh.com'', lit ''ssh-rsa'')]"

fun signer_upgraded_for :: "bool \<Rightarrow> signer \<Rightarrow> rust_str \<Rightarrow> signer option" where
  "signer_upgraded_for sha1 (SRsa RsaSha1 private n e k) sig_algs =
     map_option (\<lambda>name. SRsa (rsa_hash_of_name name) private n e k) (preferred_rsa_sha2 sig_algs)"
| "signer_upgraded_for sha1 (SRsa RsaSha256 private n e k) sig_algs =
     rsa_variant_for sha1 private n e k (lit ''rsa-sha2-256'') sig_algs"
| "signer_upgraded_for sha1 (SRsa RsaSha512 private n e k) sig_algs =
     rsa_variant_for sha1 private n e k (lit ''rsa-sha2-512'') sig_algs"
| "signer_upgraded_for sha1 (SCert inner cert_blob cert_algo) allowed =
     (if cert_algo \<notin> set (map fst CERT_RSA) then None
      else case find (\<lambda>(c, s). c \<in> set (csv_names allowed) \<or> s \<in> set (csv_names allowed)) CERT_RSA of
             None \<Rightarrow> None
           | Some (cert_algo, sig) \<Rightarrow>
               (case signer_upgraded_for sha1 inner sig of
                  None \<Rightarrow> None
                | Some inner \<Rightarrow>
                    if signer_algorithm inner \<noteq> sig then None else Some (SUpgradedCert inner cert_blob cert_algo)))"
| "signer_upgraded_for sha1 _ _ = None"

text \<open>\<open>CertHostKey::new\<close>\<close>

definition cert_host_key_new :: "signer \<Rightarrow> certificate \<Rightarrow> rust_str \<Rightarrow> signer res" where
  "cert_host_key_new inner cert cert_algo =
     (if signer_public_blob inner \<noteq> ct_embedded_pubkey_blob cert
      then Err (Config ''certificate embedded key does not match the host/identity key'')
      else Ok (SCert inner (ct_raw cert) cert_algo))"

definition signer_ops :: "sig_prims \<Rightarrow> bool \<Rightarrow> signer host_key_ops" where
  "signer_ops P sha1 = \<lparr>hk_algorithm = signer_algorithm, hk_public_blob = signer_public_blob, hk_sign = signer_sign P,
     hk_upgraded_for = signer_upgraded_for sha1\<rparr>"

section \<open>Laws\<close>

text \<open>The algorithm a name of a key type signs with (\<open>signature_algorithm\<close> of src/src/auth/client.rs).\<close>

definition signature_algorithm_of :: "rust_str \<Rightarrow> rust_str" where
  "signature_algorithm_of algo =
     (case cert_name_to_plain algo of
        Some plain \<Rightarrow> plain
      | None \<Rightarrow> (case str_strip_suffix algo (lit ''-cert-v01@openssh.com'') of Some s \<Rightarrow> s | None \<Rightarrow> algo))"

text \<open>
  A changed key is the same key under an algorithm of the list, and signing does not panic.
\<close>

locale signing_keys =
  fixes K :: "'k host_key_ops"
  assumes upgraded: "hk_upgraded_for K k csv = Some k' \<Longrightarrow>
      hk_public_blob K k' = hk_public_blob K k
      \<and> (hk_algorithm K k' \<in> set (csv_names csv) \<or> signature_algorithm_of (hk_algorithm K k') \<in> set (csv_names csv))"
    and sign_total: "hk_sign K k msg \<noteq> Panic"
begin

lemma upgraded_blob: "hk_upgraded_for K k csv = Some k' \<Longrightarrow> hk_public_blob K k' = hk_public_blob K k"
  using upgraded by blast

end

lemma preferred_rsa_sha2_listed:
  "preferred_rsa_sha2 csv = Some name \<Longrightarrow> name \<in> set (csv_names csv) \<and> rsa_hash_algorithm (rsa_hash_of_name name) = name"
  by (auto simp: preferred_rsa_sha2_def lit_inject split: if_splits)

lemma rsa_hash_of_ssh_rsa: "rsa_hash_algorithm (rsa_hash_of_name SSH_RSA) = SSH_RSA"
  by (simp add: SSH_RSA_def lit_inject)

declare rsa_hash_of_name.simps [simp del]

lemma signature_algorithm_of_rsa:
  "signature_algorithm_of (lit ''rsa-sha2-512-cert-v01@openssh.com'') = lit ''rsa-sha2-512''"
  "signature_algorithm_of (lit ''rsa-sha2-256-cert-v01@openssh.com'') = lit ''rsa-sha2-256''"
  "signature_algorithm_of (lit ''ssh-rsa-cert-v01@openssh.com'') = lit ''ssh-rsa''"
  by code_simp+

lemma rsa_variant_for_Some:
  assumes "rsa_variant_for sha1 private n e k current csv = Some s"
  shows "\<exists>name. s = SRsa (rsa_hash_of_name name) private n e k \<and> name \<in> set (csv_names csv) \<and> signer_algorithm s = name
     \<and> name \<noteq> current"
  using assms preferred_rsa_sha2_listed [of csv]
  by (auto simp: rsa_variant_for_def Let_def rsa_hash_of_ssh_rsa split: option.splits if_splits)

lemma cert_rsa_sig: "(c, s) \<in> set CERT_RSA \<Longrightarrow> signature_algorithm_of c = s"
  by (auto simp: CERT_RSA_def signature_algorithm_of_rsa)

lemma signer_upgraded:
  assumes "signer_upgraded_for sha1 k csv = Some k'"
  shows "signer_public_blob k' = signer_public_blob k
    \<and> (signer_algorithm k' \<in> set (csv_names csv) \<or> signature_algorithm_of (signer_algorithm k') \<in> set (csv_names csv))"
  using assms
proof (induction sha1 k csv rule: signer_upgraded_for.induct)
  case (1 sha1 pr n e k sig_algs)
  then show ?case using preferred_rsa_sha2_listed [of sig_algs] by auto
next
  case (2 sha1 pr n e k sig_algs)
  then show ?case by (auto dest: rsa_variant_for_Some)
next
  case (3 sha1 pr n e k sig_algs)
  then show ?case by (auto dest: rsa_variant_for_Some)
next
  case (4 sha1 inner cert_blob cert_algo allowed)
  let ?f = "\<lambda>(c, s). c \<in> set (csv_names allowed) \<or> s \<in> set (csv_names allowed)"
  obtain c s where f: "find ?f CERT_RSA = Some (c, s)" and k': "\<exists>i. k' = SUpgradedCert i cert_blob c"
    using 4(2) by (auto split: if_splits option.splits)
  then have "(c, s) \<in> set CERT_RSA" "c \<in> set (csv_names allowed) \<or> s \<in> set (csv_names allowed)"
    by (auto simp: find_Some_iff in_set_conv_nth)
  then show ?case using k' cert_rsa_sig [of c s] by auto
qed auto

lemma signer_sign_no_panic: "signer_sign P k msg \<noteq> Panic"
  by (induction k) (auto simp: ed25519_sign_def ecdsa_sign_with_def sign_rsa_def split: option.splits)

interpretation mem: signing_keys "signer_ops P sha1" for P sha1
  by unfold_locales (use signer_upgraded in \<open>auto simp: signer_ops_def signer_sign_no_panic\<close>)

end
