(* ===== verification/AuthMsg.thy ===== *)
theory AuthMsg
  imports Reading Compress
begin

text \<open>
  The user authentication messages of RFC 4252 and RFC 4256, src/src/auth/message.rs: encoders,
  decoders, the data a publickey signature covers, and the comparison of secrets. A \<open>SecretString\<close> is
  its string; that its memory is wiped when it is dropped is not modelled.
\<close>

unbundle bit_operations_syntax

definition SSH_MSG_SERVICE_REQUEST :: u8 where "SSH_MSG_SERVICE_REQUEST = 5"
definition SSH_MSG_SERVICE_ACCEPT :: u8 where "SSH_MSG_SERVICE_ACCEPT = 6"
definition SSH_MSG_USERAUTH_REQUEST :: u8 where "SSH_MSG_USERAUTH_REQUEST = 50"
definition SSH_MSG_USERAUTH_FAILURE :: u8 where "SSH_MSG_USERAUTH_FAILURE = 51"
definition SSH_MSG_USERAUTH_SUCCESS :: u8 where "SSH_MSG_USERAUTH_SUCCESS = 52"
definition SSH_MSG_USERAUTH_BANNER :: u8 where "SSH_MSG_USERAUTH_BANNER = 53"
definition SSH_MSG_USERAUTH_PK_OK :: u8 where "SSH_MSG_USERAUTH_PK_OK = 60"
definition SSH_MSG_USERAUTH_PASSWD_CHANGEREQ :: u8 where "SSH_MSG_USERAUTH_PASSWD_CHANGEREQ = 60"
definition SSH_MSG_USERAUTH_INFO_REQUEST :: u8 where "SSH_MSG_USERAUTH_INFO_REQUEST = 60"
definition SSH_MSG_USERAUTH_INFO_RESPONSE :: u8 where "SSH_MSG_USERAUTH_INFO_RESPONSE = 61"

lemmas auth_msg_defs = SSH_MSG_SERVICE_REQUEST_def SSH_MSG_SERVICE_ACCEPT_def SSH_MSG_USERAUTH_REQUEST_def
  SSH_MSG_USERAUTH_FAILURE_def SSH_MSG_USERAUTH_SUCCESS_def SSH_MSG_USERAUTH_BANNER_def
  SSH_MSG_USERAUTH_PK_OK_def SSH_MSG_USERAUTH_PASSWD_CHANGEREQ_def SSH_MSG_USERAUTH_INFO_REQUEST_def
  SSH_MSG_USERAUTH_INFO_RESPONSE_def

section \<open>Fields\<close>

definition MAX_USERAUTH_STRING :: nat where
  "MAX_USERAUTH_STRING = unat MAX_PACKET_LEN"

definition read_bytes_capped :: "bytes rd" where
  "read_bytes_capped = rd_bind read_u32 (\<lambda>len.
     if unat len > MAX_USERAUTH_STRING then rd_err (Format ''userauth string too large'')
     else take_bytes (unat len))"

definition auth_read_utf8 :: "rust_str rd" where
  "auth_read_utf8 = rd_bind read_bytes_capped (utf8_or ''auth: invalid utf-8'')"

definition ensure_empty :: "unit rd" where
  "ensure_empty = rd_end (Format ''auth: trailing data'')"

text \<open>The leading message type.\<close>

definition auth_type :: "u8 \<Rightarrow> string \<Rightarrow> unit rd" where
  "auth_type msg what = rd_bind read_u8 (\<lambda>m. rd_check (m = msg) (Format what))"

section \<open>Services\<close>

record service_msg =
  sm_service :: rust_str

definition service_request_encode :: "service_msg \<Rightarrow> bytes" where
  "service_request_encode m = into_vec (write_string (sm_service m) (write_u8 SSH_MSG_SERVICE_REQUEST writer_new))"

definition service_request_decode :: "bytes \<Rightarrow> service_msg res" where
  "service_request_decode = run_rd
     (rd_bind (auth_type SSH_MSG_SERVICE_REQUEST ''auth: not SERVICE_REQUEST'') (\<lambda>_.
      rd_bind auth_read_utf8 (\<lambda>service. rd_bind ensure_empty (\<lambda>_. rd_ok \<lparr>sm_service = service\<rparr>))))"

definition service_accept_encode :: "service_msg \<Rightarrow> bytes" where
  "service_accept_encode m = into_vec (write_string (sm_service m) (write_u8 SSH_MSG_SERVICE_ACCEPT writer_new))"

definition service_accept_decode :: "bytes \<Rightarrow> service_msg res" where
  "service_accept_decode = run_rd
     (rd_bind (auth_type SSH_MSG_SERVICE_ACCEPT ''auth: not SERVICE_ACCEPT'') (\<lambda>_.
      rd_bind auth_read_utf8 (\<lambda>service. rd_bind ensure_empty (\<lambda>_. rd_ok \<lparr>sm_service = service\<rparr>))))"

section \<open>Comparison of secrets\<close>

text \<open>\<open>a.get(i).copied().unwrap_or(0)\<close>\<close>

definition get_or0 :: "bytes \<Rightarrow> nat \<Rightarrow> u8" where
  "get_or0 a i = (if i < length a then a ! i else 0)"

definition ct_bytes_eq :: "bytes \<Rightarrow> bytes \<Rightarrow> bool" where
  "ct_bytes_eq a b =
     (let n = max (length a) (length b);
          diff = foldl (\<lambda>d i. d OR (get_or0 a i XOR get_or0 b i)) 0 [0..<n];
          len_diff = of_nat (length a) XOR of_nat (length b) :: u64;
          len_bit = ucast (drop_bit 63 (len_diff OR (0 - len_diff))) :: u8
      in diff OR len_bit = 0)"

section \<open>Requests\<close>

definition PUBLICKEY_HOSTBOUND :: rust_str where
  "PUBLICKEY_HOSTBOUND = lit ''publickey-hostbound-v00@openssh.com''"

datatype auth_method_payload =
    AuthNone
  | AuthPassword "rust_str option" rust_str
  | AuthPublicKey bool rust_str bytes "bytes option" "bytes option"
  | AuthKeyboardInteractive rust_str rust_str
  | AuthOther rust_str bytes

fun auth_method_name :: "auth_method_payload \<Rightarrow> rust_str" where
  "auth_method_name AuthNone = lit ''none''"
| "auth_method_name (AuthPassword _ _) = lit ''password''"
| "auth_method_name (AuthPublicKey _ _ _ _ None) = lit ''publickey''"
| "auth_method_name (AuthPublicKey _ _ _ _ (Some _)) = PUBLICKEY_HOSTBOUND"
| "auth_method_name (AuthKeyboardInteractive _ _) = lit ''keyboard-interactive''"
| "auth_method_name (AuthOther method _) = method"

fun write_tail :: "auth_method_payload \<Rightarrow> writer \<Rightarrow> writer" where
  "write_tail AuthNone w = w"
| "write_tail (AuthPassword new_password password) w =
     (let w = write_string password (write_bool (new_password \<noteq> None) w) in
      case new_password of None \<Rightarrow> w | Some np \<Rightarrow> write_string np w)"
| "write_tail (AuthPublicKey signature_present algorithm public_blob sig host_key) w =
     (let w = write_string public_blob (write_string algorithm (write_bool signature_present w));
          w = (case host_key of None \<Rightarrow> w | Some hk \<Rightarrow> write_string hk w)
      in if signature_present then write_string (case sig of Some s \<Rightarrow> s | None \<Rightarrow> []) w else w)"
| "write_tail (AuthKeyboardInteractive language_tag submethods) w =
     write_string submethods (write_string language_tag w)"
| "write_tail (AuthOther _ tail) w = write_raw tail w"

record userauth_request =
  ur_user :: rust_str
  ur_service :: rust_str
  ur_method :: auth_method_payload

definition userauth_request_encode :: "userauth_request \<Rightarrow> bytes" where
  "userauth_request_encode m =
     into_vec (write_tail (ur_method m)
       (write_string (auth_method_name (ur_method m))
       (write_string (ur_service m) (write_string (ur_user m) (write_u8 SSH_MSG_USERAUTH_REQUEST writer_new)))))"

text \<open>\<open>r.take(r.remaining())\<close>\<close>

definition take_rest :: "bytes rd" where
  "take_rest r = take_bytes (remaining r) r"

definition read_method :: "rust_str \<Rightarrow> auth_method_payload rd" where
  "read_method method_name =
     (if method_name = lit ''none'' then rd_bind ensure_empty (\<lambda>_. rd_ok AuthNone)
      else if method_name = lit ''password'' then
        rd_bind read_bool (\<lambda>change. rd_bind auth_read_utf8 (\<lambda>password.
        rd_bind (if change then rd_bind auth_read_utf8 (\<lambda>np. rd_ok (Some np)) else rd_ok None) (\<lambda>new_password.
        rd_bind ensure_empty (\<lambda>_. rd_ok (AuthPassword new_password password)))))
      else if method_name = lit ''publickey'' \<or> method_name = PUBLICKEY_HOSTBOUND then
        rd_bind read_bool (\<lambda>signature_present. rd_bind auth_read_utf8 (\<lambda>algorithm.
        rd_bind read_bytes_capped (\<lambda>public_blob.
        rd_bind (if method_name = PUBLICKEY_HOSTBOUND then rd_bind read_bytes_capped (\<lambda>hk. rd_ok (Some hk))
                 else rd_ok None) (\<lambda>host_key.
        rd_bind (if signature_present then rd_bind read_bytes_capped (\<lambda>s. rd_ok (Some s)) else rd_ok None) (\<lambda>sig.
        rd_bind ensure_empty (\<lambda>_.
          rd_ok (AuthPublicKey signature_present algorithm public_blob sig host_key)))))))
      else if method_name = lit ''keyboard-interactive'' then
        rd_bind auth_read_utf8 (\<lambda>language_tag. rd_bind auth_read_utf8 (\<lambda>submethods.
        rd_bind ensure_empty (\<lambda>_. rd_ok (AuthKeyboardInteractive language_tag submethods))))
      else rd_bind take_rest (\<lambda>tail. rd_ok (AuthOther method_name tail)))"

definition userauth_request_decode :: "bytes \<Rightarrow> userauth_request res" where
  "userauth_request_decode = run_rd
     (rd_bind (auth_type SSH_MSG_USERAUTH_REQUEST ''auth: not USERAUTH_REQUEST'') (\<lambda>_.
      rd_bind auth_read_utf8 (\<lambda>user. rd_bind auth_read_utf8 (\<lambda>service.
      rd_bind auth_read_utf8 (\<lambda>method_name. rd_bind (read_method method_name) (\<lambda>method.
        rd_ok \<lparr>ur_user = user, ur_service = service, ur_method = method\<rparr>))))))"

section \<open>Answers\<close>

record userauth_failure =
  uf_continuations :: "rust_str list"
  uf_partial_success :: bool

definition userauth_failure_encode :: "userauth_failure \<Rightarrow> bytes" where
  "userauth_failure_encode m =
     into_vec (write_bool (uf_partial_success m)
       (write_string (join_comma (uf_continuations m)) (write_u8 SSH_MSG_USERAUTH_FAILURE writer_new)))"

text \<open>The loop over the parts: empty ones are skipped, the others must be UTF-8.\<close>

fun utf8_parts :: "bytes list \<Rightarrow> rust_str list res" where
  "utf8_parts [] = Ok []"
| "utf8_parts (part # ps) =
     (if part = [] then utf8_parts ps
      else case from_utf8 part of
             None \<Rightarrow> Err (Format ''auth: invalid utf-8'')
           | Some s \<Rightarrow> map_res (\<lambda>ss. s # ss) (utf8_parts ps))"

definition userauth_failure_decode :: "bytes \<Rightarrow> userauth_failure res" where
  "userauth_failure_decode = run_rd
     (rd_bind (auth_type SSH_MSG_USERAUTH_FAILURE ''auth: not USERAUTH_FAILURE'') (\<lambda>_.
      rd_bind read_bytes_capped (\<lambda>names. rd_bind read_bool (\<lambda>partial_success.
      rd_bind ensure_empty (\<lambda>_.
      rd_bind (rd_res (utf8_parts (split_on comma names))) (\<lambda>continuations.
        rd_ok \<lparr>uf_continuations = continuations, uf_partial_success = partial_success\<rparr>))))))"

definition encode_success :: bytes where
  "encode_success = into_vec (write_u8 SSH_MSG_USERAUTH_SUCCESS writer_new)"

definition decode_success :: "bytes \<Rightarrow> unit res" where
  "decode_success payload =
     (if length payload \<noteq> 1 then Err (Format ''auth: not USERAUTH_SUCCESS'')
      else bind_res (index_res payload 0) (\<lambda>b.
        if b \<noteq> SSH_MSG_USERAUTH_SUCCESS then Err (Format ''auth: not USERAUTH_SUCCESS'') else Ok ()))"

record userauth_banner =
  ub_message :: rust_str
  ub_language :: rust_str

definition userauth_banner_encode :: "userauth_banner \<Rightarrow> bytes" where
  "userauth_banner_encode m =
     into_vec (write_string (ub_language m) (write_string (ub_message m) (write_u8 SSH_MSG_USERAUTH_BANNER writer_new)))"

definition userauth_banner_decode :: "bytes \<Rightarrow> userauth_banner res" where
  "userauth_banner_decode = run_rd
     (rd_bind (auth_type SSH_MSG_USERAUTH_BANNER ''auth: not USERAUTH_BANNER'') (\<lambda>_.
      rd_bind auth_read_utf8 (\<lambda>message. rd_bind auth_read_utf8 (\<lambda>language. rd_bind ensure_empty (\<lambda>_.
        rd_ok \<lparr>ub_message = message, ub_language = language\<rparr>)))))"

record userauth_pk_ok =
  pk_algorithm :: rust_str
  pk_public_blob :: bytes

definition userauth_pk_ok_encode :: "userauth_pk_ok \<Rightarrow> bytes" where
  "userauth_pk_ok_encode m =
     into_vec (write_string (pk_public_blob m) (write_string (pk_algorithm m) (write_u8 SSH_MSG_USERAUTH_PK_OK writer_new)))"

definition userauth_pk_ok_decode :: "bytes \<Rightarrow> userauth_pk_ok res" where
  "userauth_pk_ok_decode = run_rd
     (rd_bind (auth_type SSH_MSG_USERAUTH_PK_OK ''auth: not USERAUTH_PK_OK'') (\<lambda>_.
      rd_bind auth_read_utf8 (\<lambda>algorithm. rd_bind read_bytes_capped (\<lambda>blob. rd_bind ensure_empty (\<lambda>_.
        rd_ok \<lparr>pk_algorithm = algorithm, pk_public_blob = blob\<rparr>)))))"

record info_request =
  ir_name :: rust_str
  ir_instruction :: rust_str
  ir_language :: rust_str
  ir_prompts :: "(rust_str \<times> bool) list"

definition info_request_encode :: "info_request \<Rightarrow> bytes" where
  "info_request_encode m =
     into_vec (foldl (\<lambda>w (prompt, echo). write_bool echo (write_string prompt w))
       (write_u32 (of_nat (length (ir_prompts m)))
       (write_string (ir_language m) (write_string (ir_instruction m) (write_string (ir_name m)
       (write_u8 SSH_MSG_USERAUTH_INFO_REQUEST writer_new))))) (ir_prompts m))"

text \<open>\<open>for _ in 0..n\<close> with a push of what the body reads.\<close>

fun read_many :: "nat \<Rightarrow> 'a rd \<Rightarrow> 'a list rd" where
  "read_many 0 m = rd_ok []"
| "read_many (Suc n) m = rd_bind m (\<lambda>x. rd_bind (read_many n m) (\<lambda>xs. rd_ok (x # xs)))"

definition read_prompt :: "(rust_str \<times> bool) rd" where
  "read_prompt = rd_bind auth_read_utf8 (\<lambda>prompt. rd_bind read_bool (\<lambda>echo. rd_ok (prompt, echo)))"

definition info_request_decode :: "bytes \<Rightarrow> info_request res" where
  "info_request_decode = run_rd
     (rd_bind (auth_type SSH_MSG_USERAUTH_INFO_REQUEST ''auth: not USERAUTH_INFO_REQUEST'') (\<lambda>_.
      rd_bind auth_read_utf8 (\<lambda>name. rd_bind auth_read_utf8 (\<lambda>instruction. rd_bind auth_read_utf8 (\<lambda>language.
      rd_bind read_u32 (\<lambda>n.
      rd_bind (rd_check (\<not> unat n > 1024) (Format ''auth: too many prompts'')) (\<lambda>_.
      rd_bind (read_many (unat n) read_prompt) (\<lambda>prompts.
      rd_bind ensure_empty (\<lambda>_.
        rd_ok \<lparr>ir_name = name, ir_instruction = instruction, ir_language = language, ir_prompts = prompts\<rparr>)))))))))"

record info_response =
  is_responses :: "rust_str list"

definition info_response_encode :: "info_response \<Rightarrow> bytes" where
  "info_response_encode m =
     into_vec (foldl (\<lambda>w resp. write_string resp w)
       (write_u32 (of_nat (length (is_responses m))) (write_u8 SSH_MSG_USERAUTH_INFO_RESPONSE writer_new))
       (is_responses m))"

definition info_response_decode :: "bytes \<Rightarrow> info_response res" where
  "info_response_decode = run_rd
     (rd_bind (auth_type SSH_MSG_USERAUTH_INFO_RESPONSE ''auth: not USERAUTH_INFO_RESPONSE'') (\<lambda>_.
      rd_bind read_u32 (\<lambda>n.
      rd_bind (rd_check (\<not> unat n > 1024) (Format ''auth: too many responses'')) (\<lambda>_.
      rd_bind (read_many (unat n) auth_read_utf8) (\<lambda>responses.
      rd_bind ensure_empty (\<lambda>_. rd_ok \<lparr>is_responses = responses\<rparr>))))))"

section \<open>The signed data\<close>

definition publickey_signed_data_bound :: "bytes \<Rightarrow> rust_str \<Rightarrow> rust_str \<Rightarrow> rust_str \<Rightarrow> bytes \<Rightarrow> bytes option \<Rightarrow> bytes" where
  "publickey_signed_data_bound session_id user service algorithm public_blob host_key =
     (let w = write_string public_blob (write_string algorithm (write_bool True
                (write_string (case host_key of Some _ \<Rightarrow> PUBLICKEY_HOSTBOUND | None \<Rightarrow> lit ''publickey'')
                (write_string service (write_string user
                (write_u8 SSH_MSG_USERAUTH_REQUEST (write_string session_id writer_new)))))))
      in into_vec (case host_key of Some hk \<Rightarrow> write_string hk w | None \<Rightarrow> w))"

definition publickey_signed_data :: "bytes \<Rightarrow> rust_str \<Rightarrow> rust_str \<Rightarrow> rust_str \<Rightarrow> bytes \<Rightarrow> bytes" where
  "publickey_signed_data session_id user service algorithm public_blob =
     publickey_signed_data_bound session_id user service algorithm public_blob None"

end
