(* ===== verification/AuthClient.thy ===== *)
theory AuthClient
  imports Signers AuthMsg
begin

text \<open>
  The client side of user authentication: the state machine \<open>ClientAuth\<close> of src/src/auth/client.rs and
  the loop that drives it, \<open>run_auth\<close> of src/src/client.rs, with the gate for changed host keys. Keys,
  password prompts and keyboard-interactive responders are objects of the caller: keys are used through
  the record \<open>host_key_ops\<close>, the other two, which may change when they are called, through the functions of
  the record \<open>client_hooks\<close>.
\<close>

section \<open>Credentials\<close>

record ('p, 'r) client_hooks =
  ask_password :: "'p \<Rightarrow> bool \<Rightarrow> rust_str option \<times> 'p"
  respond :: "'r \<Rightarrow> rust_str \<Rightarrow> rust_str \<Rightarrow> (rust_str \<times> bool) list \<Rightarrow> rust_str list \<times> 'r"
  submethods :: "'r \<Rightarrow> rust_str"

datatype ('k, 'p, 'r) client_credential =
    CredNone
  | CredPassword rust_str
  | CredPasswordPrompt 'p
  | CredPublicKey 'k
  | CredKeyboardInteractive 'r

fun cred_method_name :: "('k, 'p, 'r) client_credential \<Rightarrow> rust_str" where
  "cred_method_name CredNone = lit ''none''"
| "cred_method_name (CredPassword _) = lit ''password''"
| "cred_method_name (CredPasswordPrompt _) = lit ''password''"
| "cred_method_name (CredPublicKey _) = lit ''publickey''"
| "cred_method_name (CredKeyboardInteractive _) = lit ''keyboard-interactive''"

datatype client_step =
    CSend bytes
  | CSuccess
  | CFailed "rust_str list" bool
  | CBanner rust_str rust_str
  | CIdle

datatype client_state =
    CInitial
  | CAwaitingServiceAccept
  | CAwaitingPkOk
  | CAwaitingPkResult
  | CAwaitingPasswordResult
  | CAwaitingNoneResult
  | CAwaitingKbdintResult
  | CDone

record ('k, 'p, 'r) client_auth =
  ca_user :: rust_str
  ca_service :: rust_str
  ca_session_id :: bytes
  ca_credentials :: "('k, 'p, 'r) client_credential list"
  ca_current :: "('k, 'p, 'r) client_credential option"
  server_continuations :: "rust_str list"
  last_partial_success :: bool
  password_retry :: bool
  ca_state :: client_state
  server_sig_algs :: "rust_str list option"
  pubkey_accepted :: "rust_str list option"
  ca_hostbound :: "bytes option"

definition client_auth_new :: "rust_str \<Rightarrow> bytes \<Rightarrow> ('k, 'p, 'r) client_auth" where
  "client_auth_new user session_id =
     \<lparr>ca_user = user, ca_service = lit ''ssh-connection'', ca_session_id = session_id, ca_credentials = [],
      ca_current = None, server_continuations = [], last_partial_success = False, password_retry = False,
      ca_state = CInitial, server_sig_algs = None, pubkey_accepted = None, ca_hostbound = None\<rparr>"

definition set_hostbound :: "bytes option \<Rightarrow> ('k, 'p, 'r) client_auth \<Rightarrow> ('k, 'p, 'r) client_auth" where
  "set_hostbound hk c = c\<lparr>ca_hostbound := hk\<rparr>"

definition add_credential :: "('k, 'p, 'r) client_credential \<Rightarrow> ('k, 'p, 'r) client_auth \<Rightarrow> ('k, 'p, 'r) client_auth" where
  "add_credential cred c = c\<lparr>ca_credentials := ca_credentials c @ [cred]\<rparr>"

definition set_server_sig_algs :: "rust_str \<Rightarrow> ('k, 'p, 'r) client_auth \<Rightarrow> ('k, 'p, 'r) client_auth" where
  "set_server_sig_algs csv c = c\<lparr>server_sig_algs := Some (filter (\<lambda>s. s \<noteq> []) (csv_names csv))\<rparr>"

definition set_pubkey_accepted :: "rust_str list \<Rightarrow> ('k, 'p, 'r) client_auth \<Rightarrow> ('k, 'p, 'r) client_auth" where
  "set_pubkey_accepted algs c = c\<lparr>pubkey_accepted := Some algs\<rparr>"

definition client_auth_start :: "('k, 'p, 'r) client_auth \<Rightarrow> ('k, 'p, 'r) client_auth \<times> bytes" where
  "client_auth_start c =
     (c\<lparr>ca_state := CAwaitingServiceAccept\<rparr>, service_request_encode \<lparr>sm_service = lit ''ssh-userauth''\<rparr>)"

section \<open>The next credential\<close>

text \<open>\<open>None\<close> in the filters below is the \<open>continue\<close> that skips a credential.\<close>

definition has_cert_suffix :: "rust_str \<Rightarrow> bool" where
  "has_cert_suffix a = str_ends_with a (lit ''-cert-v01@openssh.com'')"

definition local_policy :: "'k host_key_ops \<Rightarrow> rust_str list option \<Rightarrow> ('k, 'p, 'r) client_credential \<Rightarrow>
    ('k, 'p, 'r) client_credential option" where
  "local_policy K accepted cred =
     (case (cred, accepted) of
        (CredPublicKey hk, Some allowed) \<Rightarrow>
          (let algo = hk_algorithm K hk in
           if algo \<in> set allowed then Some (CredPublicKey hk)
           else map_option CredPublicKey (hk_upgraded_for K hk
                  (join_comma (filter (\<lambda>a. has_cert_suffix a = has_cert_suffix algo) allowed))))
      | _ \<Rightarrow> Some cred)"

definition legacy_rsa :: "'k host_key_ops \<Rightarrow> rust_str list option \<Rightarrow> rust_str list option \<Rightarrow> ('k, 'p, 'r) client_credential \<Rightarrow>
    ('k, 'p, 'r) client_credential" where
  "legacy_rsa K sig_algs accepted cred =
     (case cred of
        CredPublicKey hk \<Rightarrow>
          if sig_algs = None \<and> str_starts_with (hk_algorithm K hk) (lit ''rsa-sha2-'')
             \<and> (case accepted of None \<Rightarrow> False | Some a \<Rightarrow> lit ''ssh-rsa'' \<in> set a)
          then (case hk_upgraded_for K hk (lit ''ssh-rsa'') of
                  Some sha1 \<Rightarrow> CredPublicKey sha1
                | None \<Rightarrow> CredPublicKey hk)
          else cred
      | _ \<Rightarrow> cred)"

definition server_filter :: "'k host_key_ops \<Rightarrow> rust_str list option \<Rightarrow> ('k, 'p, 'r) client_credential \<Rightarrow>
    ('k, 'p, 'r) client_credential option" where
  "server_filter K sig_algs cred =
     (case (cred, sig_algs) of
        (CredPublicKey hk, Some allowed) \<Rightarrow>
          if signature_algorithm_of (hk_algorithm K hk) \<in> set allowed then Some (CredPublicKey hk)
          else map_option CredPublicKey (hk_upgraded_for K hk (join_comma allowed))
      | _ \<Rightarrow> Some cred)"

text \<open>The body of the loop: method gate, local policy, legacy RSA, server's list.\<close>

definition usable_credential :: "'k host_key_ops \<Rightarrow> ('k, 'p, 'r) client_auth \<Rightarrow> ('k, 'p, 'r) client_credential \<Rightarrow>
    ('k, 'p, 'r) client_credential option" where
  "usable_credential K c cred =
     (if server_continuations c \<noteq> [] \<and> cred_method_name cred \<notin> set (server_continuations c) then None
      else Option.bind (local_policy K (pubkey_accepted c) cred) (\<lambda>cred.
             server_filter K (server_sig_algs c) (legacy_rsa K (server_sig_algs c) (pubkey_accepted c) cred)))"

definition client_request :: "('k, 'p, 'r) client_auth \<Rightarrow> auth_method_payload \<Rightarrow> bytes" where
  "client_request c method =
     userauth_request_encode \<lparr>ur_user = ca_user c, ur_service = ca_service c, ur_method = method\<rparr>"

type_synonym ('k, 'p, 'r) client_res = "('k, 'p, 'r) client_auth \<times> client_step res"

function (sequential) advance_to_next_credential :: "'k host_key_ops \<Rightarrow> ('p, 'r) client_hooks \<Rightarrow> ('k, 'p, 'r) client_auth \<Rightarrow>
    ('k, 'p, 'r) client_res"
  and emit_current_request :: "'k host_key_ops \<Rightarrow> ('p, 'r) client_hooks \<Rightarrow> ('k, 'p, 'r) client_auth \<Rightarrow> ('k, 'p, 'r) client_res"
where
  "advance_to_next_credential K H c =
     (case ca_credentials c of
        [] \<Rightarrow>
          (c\<lparr>ca_state := CDone, server_continuations := []\<rparr>,
           Ok (CFailed (server_continuations c) (last_partial_success c)))
      | cred # rest \<Rightarrow>
          (let c = c\<lparr>ca_credentials := rest\<rparr> in
           case usable_credential K c cred of
             None \<Rightarrow> advance_to_next_credential K H c
           | Some cred \<Rightarrow> emit_current_request K H (c\<lparr>ca_current := Some cred\<rparr>)))"
| "emit_current_request K H c =
     (case ca_current c of
        None \<Rightarrow> (c, Err (Protocol ''auth: no current credential''))
      | Some (CredPasswordPrompt f) \<Rightarrow>
          (case ask_password H f (password_retry c) of
             (Some secret, f) \<Rightarrow>
               (c\<lparr>ca_current := Some (CredPasswordPrompt f), ca_state := CAwaitingPasswordResult\<rparr>,
                Ok (CSend (client_request c (AuthPassword None secret))))
           | (None, _) \<Rightarrow>
               advance_to_next_credential K H (c\<lparr>ca_current := None, password_retry := False\<rparr>))
      | Some CredNone \<Rightarrow>
          (c\<lparr>ca_state := CAwaitingNoneResult\<rparr>, Ok (CSend (client_request c AuthNone)))
      | Some (CredPassword pw) \<Rightarrow>
          (c\<lparr>ca_state := CAwaitingPasswordResult\<rparr>, Ok (CSend (client_request c (AuthPassword None pw))))
      | Some (CredPublicKey hk) \<Rightarrow>
          (c\<lparr>ca_state := CAwaitingPkOk\<rparr>,
           Ok (CSend (client_request c (AuthPublicKey False (hk_algorithm K hk) (hk_public_blob K hk) None None))))
      | Some (CredKeyboardInteractive r) \<Rightarrow>
          (c\<lparr>ca_state := CAwaitingKbdintResult\<rparr>,
           Ok (CSend (client_request c (AuthKeyboardInteractive [] (submethods H r))))))"
  by pat_completeness auto

termination
  by (relation "measure (\<lambda>x. case x of Inl (K, H, c) \<Rightarrow> 2 * length (ca_credentials c)
                                     | Inr (K, H, c) \<Rightarrow> 2 * length (ca_credentials c) + 1)") auto

declare advance_to_next_credential.simps [simp del] emit_current_request.simps [simp del]

section \<open>Replies\<close>

definition send_pk_signed :: "'k host_key_ops \<Rightarrow> ('p, 'r) client_hooks \<Rightarrow> userauth_pk_ok \<Rightarrow> ('k, 'p, 'r) client_auth \<Rightarrow>
    ('k, 'p, 'r) client_res" where
  "send_pk_signed K H pk_ok c =
     (case ca_current c of
        None \<Rightarrow> (c, Err (Protocol ''auth: pk-ok without current credential''))
      | Some (CredPublicKey hk) \<Rightarrow>
          if hk_algorithm K hk \<noteq> pk_algorithm pk_ok then (c, Err (Protocol ''auth: pk-ok algorithm mismatch''))
          else if hk_public_blob K hk \<noteq> pk_public_blob pk_ok then (c, Err (Protocol ''auth: pk-ok public-key mismatch''))
          else (case hk_sign K hk (publickey_signed_data_bound (ca_session_id c) (ca_user c) (ca_service c)
                       (hk_algorithm K hk) (hk_public_blob K hk) (ca_hostbound c)) of
                  Ok sig \<Rightarrow>
                    (c\<lparr>ca_state := CAwaitingPkResult\<rparr>,
                     Ok (CSend (client_request c
                       (AuthPublicKey True (hk_algorithm K hk) (hk_public_blob K hk) (Some sig) (ca_hostbound c)))))
                | Err (Crypto _) \<Rightarrow> advance_to_next_credential K H c
                | Err e \<Rightarrow> (c, Err e)
                | Panic \<Rightarrow> (c, Panic))
      | Some _ \<Rightarrow> (c, Err (Protocol ''auth: pk-ok for non-publickey credential'')))"

definition auth_succeeded :: "('k, 'p, 'r) client_auth \<Rightarrow> ('k, 'p, 'r) client_res" where
  "auth_succeeded c = (c\<lparr>ca_state := CDone, ca_current := None\<rparr>, Ok CSuccess)"

text \<open>A prompt whose password failed goes back to the front of the queue while the server offers the method.\<close>

definition note_failure :: "userauth_failure \<Rightarrow> ('k, 'p, 'r) client_auth \<Rightarrow> ('k, 'p, 'r) client_auth" where
  "note_failure failure c =
     (let c = c\<lparr>server_continuations := uf_continuations failure, last_partial_success := uf_partial_success failure\<rparr> in
      case ca_current c of
        Some (CredPasswordPrompt f) \<Rightarrow>
          if \<not> uf_partial_success failure \<and> lit ''password'' \<in> set (uf_continuations failure)
          then c\<lparr>ca_current := None, ca_credentials := CredPasswordPrompt f # ca_credentials c, password_retry := True\<rparr>
          else c\<lparr>ca_current := None, password_retry := False\<rparr>
      | _ \<Rightarrow> c\<lparr>ca_current := None, password_retry := False\<rparr>)"

definition on_auth_result :: "'k host_key_ops \<Rightarrow> ('p, 'r) client_hooks \<Rightarrow> bytes \<Rightarrow> ('k, 'p, 'r) client_auth \<Rightarrow>
    ('k, 'p, 'r) client_res" where
  "on_auth_result K H payload c =
     (case payload of
        [] \<Rightarrow> (c, Panic)
      | msg_type # _ \<Rightarrow>
          if msg_type = SSH_MSG_USERAUTH_SUCCESS then
            (case decode_success payload of Ok _ \<Rightarrow> auth_succeeded c | Err e \<Rightarrow> (c, Err e) | Panic \<Rightarrow> (c, Panic))
          else if msg_type = SSH_MSG_USERAUTH_FAILURE then
            (case userauth_failure_decode payload of
               Ok failure \<Rightarrow> advance_to_next_credential K H (note_failure failure c)
             | Err e \<Rightarrow> (c, Err e)
             | Panic \<Rightarrow> (c, Panic))
          else (c, Err (Protocol ''auth: unexpected packet for auth result'')))"

definition on_pk_probe_reply :: "'k host_key_ops \<Rightarrow> ('p, 'r) client_hooks \<Rightarrow> bytes \<Rightarrow> ('k, 'p, 'r) client_auth \<Rightarrow>
    ('k, 'p, 'r) client_res" where
  "on_pk_probe_reply K H payload c =
     (case payload of
        [] \<Rightarrow> (c, Panic)
      | msg_type # _ \<Rightarrow>
          if msg_type = SSH_MSG_USERAUTH_PK_OK then
            (case userauth_pk_ok_decode payload of
               Ok pk_ok \<Rightarrow> send_pk_signed K H pk_ok c
             | Err e \<Rightarrow> (c, Err e)
             | Panic \<Rightarrow> (c, Panic))
          else if msg_type = SSH_MSG_USERAUTH_FAILURE then on_auth_result K H payload c
          else if msg_type = SSH_MSG_USERAUTH_SUCCESS then auth_succeeded c
          else (c, Err (Protocol ''auth: unexpected packet after publickey probe'')))"

definition on_kbdint_reply :: "'k host_key_ops \<Rightarrow> ('p, 'r) client_hooks \<Rightarrow> bytes \<Rightarrow> ('k, 'p, 'r) client_auth \<Rightarrow>
    ('k, 'p, 'r) client_res" where
  "on_kbdint_reply K H payload c =
     (case payload of
        [] \<Rightarrow> (c, Panic)
      | msg_type # _ \<Rightarrow>
          if msg_type = SSH_MSG_USERAUTH_SUCCESS then
            (case decode_success payload of Ok _ \<Rightarrow> auth_succeeded c | Err e \<Rightarrow> (c, Err e) | Panic \<Rightarrow> (c, Panic))
          else if msg_type = SSH_MSG_USERAUTH_FAILURE then
            (case userauth_failure_decode payload of
               Ok failure \<Rightarrow>
                 advance_to_next_credential K H
                   (c\<lparr>server_continuations := uf_continuations failure, last_partial_success := uf_partial_success failure,
                      ca_current := None\<rparr>)
             | Err e \<Rightarrow> (c, Err e)
             | Panic \<Rightarrow> (c, Panic))
          else if msg_type = SSH_MSG_USERAUTH_INFO_REQUEST then
            (case info_request_decode payload of
               Ok info \<Rightarrow>
                 (case ca_current c of
                    None \<Rightarrow> (c, Err (Protocol ''auth: kbdint without current credential''))
                  | Some (CredKeyboardInteractive r) \<Rightarrow>
                      (let (responses, r) = respond H r (ir_name info) (ir_instruction info) (ir_prompts info);
                           c = c\<lparr>ca_current := Some (CredKeyboardInteractive r)\<rparr>
                       in if length responses \<noteq> length (ir_prompts info)
                          then (c, Err (Protocol ''auth: wrong number of kbdint responses''))
                          else (c, Ok (CSend (info_response_encode \<lparr>is_responses = responses\<rparr>))))
                  | Some _ \<Rightarrow> (c, Err (Protocol ''auth: kbdint reply on wrong credential'')))
             | Err e \<Rightarrow> (c, Err e)
             | Panic \<Rightarrow> (c, Panic))
          else (c, Err (Protocol ''auth: unexpected packet in kbdint'')))"

definition on_service_accept :: "'k host_key_ops \<Rightarrow> ('p, 'r) client_hooks \<Rightarrow> bytes \<Rightarrow> ('k, 'p, 'r) client_auth \<Rightarrow>
    ('k, 'p, 'r) client_res" where
  "on_service_accept K H payload c =
     (case service_accept_decode payload of
        Ok m \<Rightarrow>
          if sm_service m \<noteq> lit ''ssh-userauth'' then (c, Err (Protocol ''auth: wrong service accepted''))
          else advance_to_next_credential K H c
      | Err e \<Rightarrow> (c, Err e)
      | Panic \<Rightarrow> (c, Panic))"

definition client_auth_on_packet :: "'k host_key_ops \<Rightarrow> ('p, 'r) client_hooks \<Rightarrow> bytes \<Rightarrow> ('k, 'p, 'r) client_auth \<Rightarrow>
    ('k, 'p, 'r) client_res" where
  "client_auth_on_packet K H payload c =
     (case payload of
        [] \<Rightarrow> (c, Err (Format ''auth: empty payload''))
      | msg_type # _ \<Rightarrow>
          if msg_type = SSH_MSG_USERAUTH_BANNER then
            (case userauth_banner_decode payload of
               Ok banner \<Rightarrow> (c, Ok (CBanner (ub_message banner) (ub_language banner)))
             | Err e \<Rightarrow> (c, Err e)
             | Panic \<Rightarrow> (c, Panic))
          else (case ca_state c of
             CInitial \<Rightarrow> (c, Err (Protocol ''auth: client not started''))
           | CAwaitingServiceAccept \<Rightarrow>
               if msg_type \<noteq> SSH_MSG_SERVICE_ACCEPT then (c, Err (Protocol ''auth: expected SERVICE_ACCEPT''))
               else on_service_accept K H payload c
           | CAwaitingPkOk \<Rightarrow> on_pk_probe_reply K H payload c
           | CAwaitingPkResult \<Rightarrow> on_auth_result K H payload c
           | CAwaitingPasswordResult \<Rightarrow>
               if msg_type = SSH_MSG_USERAUTH_PASSWD_CHANGEREQ
               then (c, Err (Protocol ''server requires password change; not supported''))
               else on_auth_result K H payload c
           | CAwaitingNoneResult \<Rightarrow> on_auth_result K H payload c
           | CAwaitingKbdintResult \<Rightarrow> on_kbdint_reply K H payload c
           | CDone \<Rightarrow> (c, Ok CIdle)))"

section \<open>The driving loop (client.rs)\<close>

definition HOST_KEY_MISMATCH_DISABLED :: string where
  "HOST_KEY_MISMATCH_DISABLED = ''password/keyboard-interactive authentication and agent/X11/port forwarding are disabled because the host key changed and StrictHostKeyChecking=no accepted it (man-in-the-middle protection)''"

definition filter_credentials_after_mismatch :: "('k, 'p, 'r) client_credential list \<Rightarrow> ('k, 'p, 'r) client_credential list res" where
  "filter_credentials_after_mismatch credentials =
     (let kept = filter (\<lambda>c. case c of CredPassword _ \<Rightarrow> False | CredPasswordPrompt _ \<Rightarrow> False
                             | CredKeyboardInteractive _ \<Rightarrow> False | _ \<Rightarrow> True) credentials
      in if list_all (\<lambda>c. case c of CredNone \<Rightarrow> True | _ \<Rightarrow> False) kept then Err (Config HOST_KEY_MISMATCH_DISABLED)
         else Ok kept)"

definition auth_packet_blocked_after_mismatch :: "bytes \<Rightarrow> bool" where
  "auth_packet_blocked_after_mismatch payload =
     (case payload of
        [] \<Rightarrow> False
      | t # rest \<Rightarrow>
          if t = SSH_MSG_USERAUTH_INFO_RESPONSE then True
          else if t = SSH_MSG_USERAUTH_REQUEST then
            (case run_rd (rd_bind read_string (\<lambda>_. rd_bind read_string (\<lambda>_. read_string))) rest of
               Ok method \<Rightarrow> method = lit ''password'' \<or> method = lit ''keyboard-interactive''
             | _ \<Rightarrow> False)
          else False)"

datatype client_outcome =
    CLoggedIn
  | CLoginError error
  | CLoginPanic
  | CMoreInput

definition CLIENT_MAX_AUTH_STEPS :: nat where "CLIENT_MAX_AUTH_STEPS = 64"

text \<open>
  The loop over arriving payloads; with each comes the \<open>server-sig-algs\<close> list if the server has sent a
  new one before it. The result is the outcome, the payloads sent and the final state.
\<close>

fun run_auth :: "'k host_key_ops \<Rightarrow> ('p, 'r) client_hooks \<Rightarrow> bool \<Rightarrow> nat \<Rightarrow> (bytes \<times> rust_str option) list \<Rightarrow>
    ('k, 'p, 'r) client_auth \<Rightarrow> bytes list \<Rightarrow> client_outcome \<times> bytes list \<times> ('k, 'p, 'r) client_auth" where
  "run_auth K H mismatched 0 payloads c outs = (CLoginError (Protocol ''auth: too many steps without termination''), outs, c)"
| "run_auth K H mismatched (Suc n) [] c outs = (CMoreInput, outs, c)"
| "run_auth K H mismatched (Suc n) ((payload, new_sig_algs) # payloads) c outs =
     (let c = (case new_sig_algs of None \<Rightarrow> c | Some algs \<Rightarrow> set_server_sig_algs algs c);
          (c, step) = client_auth_on_packet K H payload c
      in case step of
           Err e \<Rightarrow> (CLoginError e, outs, c)
         | Panic \<Rightarrow> (CLoginPanic, outs, c)
         | Ok (CSend p) \<Rightarrow>
             if mismatched \<and> auth_packet_blocked_after_mismatch p
             then (CLoginError (Config HOST_KEY_MISMATCH_DISABLED), outs, c)
             else run_auth K H mismatched n payloads c (outs @ [p])
         | Ok CSuccess \<Rightarrow> (CLoggedIn, outs, c)
         | Ok (CFailed _ _) \<Rightarrow> (CLoginError AuthFailed, outs, c)
         | Ok (CBanner _ _) \<Rightarrow> run_auth K H mismatched n payloads c outs
         | Ok CIdle \<Rightarrow> run_auth K H mismatched n payloads c outs)"

text \<open>\<open>authenticate\<close>: a fresh machine with the connection's policies and the credentials in order.\<close>

definition authenticate :: "'k host_key_ops \<Rightarrow> ('p, 'r) client_hooks \<Rightarrow> bool \<Rightarrow> rust_str \<Rightarrow> bytes \<Rightarrow> rust_str list option \<Rightarrow>
    rust_str option \<Rightarrow> bytes option \<Rightarrow> ('k, 'p, 'r) client_credential list \<Rightarrow> (bytes \<times> rust_str option) list \<Rightarrow>
    client_outcome \<times> bytes list" where
  "authenticate K H mismatched user session_id accepted sig_algs hostbound credentials payloads =
     (case (if mismatched then filter_credentials_after_mismatch credentials else Ok credentials) of
        Err e \<Rightarrow> (CLoginError e, [])
      | Panic \<Rightarrow> (CLoginPanic, [])
      | Ok credentials \<Rightarrow>
          (let c = client_auth_new user session_id;
               c = (case accepted of None \<Rightarrow> c | Some a \<Rightarrow> set_pubkey_accepted a c);
               c = (case sig_algs of None \<Rightarrow> c | Some a \<Rightarrow> set_server_sig_algs a c);
               c = foldl (\<lambda>c cred. add_credential cred c) c credentials;
               c = (case hostbound of None \<Rightarrow> c | Some hk \<Rightarrow> set_hostbound (Some hk) c);
               (c, first) = client_auth_start c;
               (outcome, outs, _) = run_auth K H mismatched CLIENT_MAX_AUTH_STEPS payloads c [first]
           in (outcome, outs)))"

end
