(* ===== verification/AuthCodec.thy ===== *)
theory AuthCodec
  imports AuthMsg
begin

text \<open>
  Laws of the user authentication messages: every message type is a codec (locale \<open>message_codec\<close>:
  decoding an encoding gives the message back, no payload makes a decoder panic), secrets are
  compared exactly, and the data a publickey signature covers determines everything that went in.
\<close>

unbundle bit_operations_syntax

section \<open>Fields\<close>

definition blob_ok :: "bytes \<Rightarrow> bool" where
  "blob_ok s \<longleftrightarrow> length s \<le> MAX_USERAUTH_STRING"

definition str_ok :: "rust_str \<Rightarrow> bool" where
  "str_ok s \<longleftrightarrow> blob_ok s \<and> valid_utf8 s"

lemma MAX_USERAUTH_STRING_val: "MAX_USERAUTH_STRING = 262144"
  by (simp add: MAX_USERAUTH_STRING_def MAX_PACKET_LEN_def)

lemma blob_fits: "blob_ok s \<Longrightarrow> fits_u32 s"
  by (simp add: blob_ok_def MAX_USERAUTH_STRING_val fits_u32_def)

lemma read_bytes_capped_at:
  "blob_ok s \<Longrightarrow> fits pre (enc_string s @ post) \<Longrightarrow>
     read_bytes_capped (rd_at pre (enc_string s @ post)) = Ok (s, rd_at (pre @ enc_string s) post)"
  by (simp add: read_bytes_capped_def enc_string_def rd_bind_def read_u32_at take_bytes_at blob_ok_def
    unat_of_nat_u32 MAX_USERAUTH_STRING_val)

lemma safe_read_bytes_capped: "safe_rd read_bytes_capped"
  unfolding read_bytes_capped_def by (intro safe_rd_bind safe_read_u32) (simp add: safe_reads)

interpretation capc: wire_codec write_string read_bytes_capped enc_string blob_ok
  by unfold_locales (simp_all add: wire_simps read_bytes_capped_at safe_read_bytes_capped)

lemma auth_read_utf8_at:
  "str_ok s \<Longrightarrow> fits pre (enc_string s @ post) \<Longrightarrow>
     auth_read_utf8 (rd_at pre (enc_string s @ post)) = Ok (s, rd_at (pre @ enc_string s) post)"
  by (simp add: auth_read_utf8_def str_ok_def capc.bind_back utf8_or_def)

lemma safe_auth_read_utf8: "safe_rd auth_read_utf8"
  unfolding auth_read_utf8_def by (intro safe_rd_bind safe_read_bytes_capped safe_utf8_or)

interpretation autf8c: wire_codec write_string auth_read_utf8 enc_string str_ok
  by unfold_locales (simp_all add: wire_simps auth_read_utf8_at safe_auth_read_utf8)

lemma auth_type_back [wire_simps]: "fits pre (m # post) \<Longrightarrow>
    rd_bind (auth_type m what) f (rd_at pre (m # post)) = f () (rd_at (pre @ [m]) post)"
  by (simp add: auth_type_def rd_bind_def read_u8_at rd_check_def)

lemma safe_auth_type: "safe_rd (auth_type m what)"
  unfolding auth_type_def by (intro safe_decoders)

lemma safe_ensure_empty: "safe_rd ensure_empty"
  by (simp add: ensure_empty_def safe_rd_end)

lemma bool_lit_back [wire_simps]:
  "fits pre (0 # post) \<Longrightarrow> rd_bind read_bool f (rd_at pre (0 # post)) = f False (rd_at (pre @ [0]) post)"
  "fits pre (1 # post) \<Longrightarrow> rd_bind read_bool f (rd_at pre (1 # post)) = f True (rd_at (pre @ [1]) post)"
  using boolc_back [of pre False post f] boolc_back [of pre True post f] by simp_all

lemma ensure_empty_back [wire_simps]: "rd_bind ensure_empty f (rd_at pre []) = f () (rd_at pre [])"
  by (simp add: ensure_empty_def rd_end_at)

lemmas [wire_simps] = capc.bind_back capc.last_back autf8c.bind_back autf8c.last_back

lemma take_rest_back [wire_simps]: "fits pre post \<Longrightarrow> rd_bind take_rest f (rd_at pre post) = f post (rd_at (pre @ post) [])"
  by (simp add: take_rest_def rd_bind_def take_bytes_all)

lemma safe_take_rest: "safe_rd take_rest"
  using safe_take_bytes by (auto simp: take_rest_def safe_rd_def)

lemmas safe_auth = safe_decoders safe_read_bytes_capped safe_auth_read_utf8 safe_auth_type safe_ensure_empty safe_take_rest

text \<open>A counted sequence of fields is a field.\<close>

lemma read_many_back:
  assumes "\<And>x pre post. ok x \<Longrightarrow> fits pre (enc x @ post) \<Longrightarrow> m (rd_at pre (enc x @ post)) = Ok (x, rd_at (pre @ enc x) post)"
  shows "list_all ok xs \<Longrightarrow> fits pre (concat (map enc xs) @ post) \<Longrightarrow>
    read_many (length xs) m (rd_at pre (concat (map enc xs) @ post)) = Ok (xs, rd_at (pre @ concat (map enc xs)) post)"
proof (induction xs arbitrary: pre)
  case (Cons x xs)
  then show ?case using assms [of x pre "concat (map enc xs) @ post"] Cons.IH [of "pre @ enc x"]
    by (simp add: rd_bind_def)
qed simp

lemma safe_read_many: "safe_rd m \<Longrightarrow> safe_rd (read_many n m)"
  by (induction n) (simp_all add: safe_reads)

section \<open>The codecs\<close>

locale message_codec =
  fixes encode :: "'a \<Rightarrow> bytes" and decode :: "bytes \<Rightarrow> 'a res" and ok :: "'a \<Rightarrow> bool"
  assumes round: "ok m \<Longrightarrow> small (encode m) \<Longrightarrow> decode (encode m) = Ok m"
    and total: "decode b \<noteq> Panic"
begin

lemma encode_inject: "ok m \<Longrightarrow> ok m' \<Longrightarrow> small (encode m) \<Longrightarrow> encode m = encode m' \<Longrightarrow> m = m'"
  by (metis round res.inject(1))

end

lemmas encode_simps = into_vec_def writer_new_def reader_new_rd_at run_rd_def

interpretation srq: message_codec service_request_encode service_request_decode "\<lambda>m. str_ok (sm_service m)"
proof
  show "service_request_decode (service_request_encode m) = Ok m"
    if "str_ok (sm_service m)" "small (service_request_encode m)" for m :: service_msg
    using that by (simp add: service_request_decode_def service_request_encode_def encode_simps wire_simps)
  show "service_request_decode b \<noteq> Panic" for b
    unfolding service_request_decode_def by (intro run_rd_no_panic safe_auth)
qed

interpretation sac: message_codec service_accept_encode service_accept_decode "\<lambda>m. str_ok (sm_service m)"
proof
  show "service_accept_decode (service_accept_encode m) = Ok m"
    if "str_ok (sm_service m)" "small (service_accept_encode m)" for m :: service_msg
    using that by (simp add: service_accept_decode_def service_accept_encode_def encode_simps wire_simps)
  show "service_accept_decode b \<noteq> Panic" for b
    unfolding service_accept_decode_def by (intro run_rd_no_panic safe_auth)
qed

text \<open>A request: a present signature is announced, an unknown method does not carry a known name.\<close>

definition known_methods :: "rust_str list" where
  "known_methods = [lit ''none'', lit ''password'', lit ''publickey'', PUBLICKEY_HOSTBOUND, lit ''keyboard-interactive'']"

fun method_ok :: "auth_method_payload \<Rightarrow> bool" where
  "method_ok AuthNone = True"
| "method_ok (AuthPassword np p) = (str_ok p \<and> pred_option str_ok np)"
| "method_ok (AuthPublicKey sp alg blob sig hk) =
     (str_ok alg \<and> blob_ok blob \<and> (sp \<longleftrightarrow> sig \<noteq> None) \<and> pred_option blob_ok sig \<and> pred_option blob_ok hk)"
| "method_ok (AuthKeyboardInteractive l s) = (str_ok l \<and> str_ok s)"
| "method_ok (AuthOther n tail) = (str_ok n \<and> n \<notin> set known_methods)"

definition request_ok :: "userauth_request \<Rightarrow> bool" where
  "request_ok m \<longleftrightarrow> str_ok (ur_user m) \<and> str_ok (ur_service m) \<and> method_ok (ur_method m)"

fun enc_tail :: "auth_method_payload \<Rightarrow> bytes" where
  "enc_tail AuthNone = []"
| "enc_tail (AuthPassword np p) = [if np \<noteq> None then 1 else 0] @ enc_string p @ (case np of None \<Rightarrow> [] | Some n \<Rightarrow> enc_string n)"
| "enc_tail (AuthPublicKey sp alg blob sig hk) =
     [if sp then 1 else 0] @ enc_string alg @ enc_string blob @ (case hk of None \<Rightarrow> [] | Some h \<Rightarrow> enc_string h)
     @ (if sp then enc_string (case sig of None \<Rightarrow> [] | Some s \<Rightarrow> s) else [])"
| "enc_tail (AuthKeyboardInteractive l s) = enc_string l @ enc_string s"
| "enc_tail (AuthOther n tail) = tail"

lemma write_tail_enc: "w_buf (write_tail m w) = w_buf w @ enc_tail m"
  by (cases m) (auto simp: wire_simps Let_def split: option.split)

lemma rd_bind_assoc: "rd_bind (rd_bind m f) g = rd_bind m (\<lambda>x. rd_bind (f x) g)"
proof
  fix r
  show "rd_bind (rd_bind m f) g r = rd_bind m (\<lambda>x. rd_bind (f x) g) r" by (cases "m r") (auto simp: rd_bind_def)
qed

lemma rd_bind_rd_ok: "rd_bind (rd_ok x) f = f x"
  by (simp add: fun_eq_iff rd_bind_def)

lemma known_name_facts:
  "lit ''password'' \<noteq> lit ''none''" "lit ''publickey'' \<noteq> lit ''none''" "lit ''publickey'' \<noteq> lit ''password''"
  "PUBLICKEY_HOSTBOUND \<noteq> lit ''none''" "PUBLICKEY_HOSTBOUND \<noteq> lit ''password''" "PUBLICKEY_HOSTBOUND \<noteq> lit ''publickey''"
  "lit ''publickey'' \<noteq> PUBLICKEY_HOSTBOUND"
  "lit ''keyboard-interactive'' \<noteq> lit ''none''" "lit ''keyboard-interactive'' \<noteq> lit ''password''"
  "lit ''keyboard-interactive'' \<noteq> lit ''publickey''" "lit ''keyboard-interactive'' \<noteq> PUBLICKEY_HOSTBOUND"
  by (simp_all add: PUBLICKEY_HOSTBOUND_def)

lemma read_method_back:
  assumes "method_ok m" "fits pre (enc_tail m)"
  shows "read_method (auth_method_name m) (rd_at pre (enc_tail m)) = Ok (m, rd_at (pre @ enc_tail m) [])"
proof (cases m)
  case AuthNone
  then show ?thesis by (simp add: read_method_def wire_simps)
next
  case (AuthPassword np p)
  with assms show ?thesis
    by (cases np) (simp_all add: read_method_def known_name_facts wire_simps rd_bind_assoc rd_bind_rd_ok)
next
  case (AuthPublicKey sp alg blob sig hk)
  with assms show ?thesis
    by (cases hk; cases sig) (simp_all add: read_method_def known_name_facts wire_simps rd_bind_assoc rd_bind_rd_ok)
next
  case (AuthKeyboardInteractive l s)
  with assms show ?thesis by (simp add: read_method_def known_name_facts wire_simps)
next
  case (AuthOther n tail)
  with assms show ?thesis by (simp add: read_method_def known_methods_def wire_simps)
qed

lemma method_name_ok: "method_ok m \<Longrightarrow> str_ok (auth_method_name m)"
  by (cases m rule: auth_method_name.cases)
    (auto simp: str_ok_def blob_ok_def MAX_USERAUTH_STRING_val PUBLICKEY_HOSTBOUND_def valid_utf8_lit)

lemma safe_read_method: "safe_rd (read_method n)"
  unfolding read_method_def by (simp only: split: if_split) (intro conjI impI safe_auth; simp add: safe_auth)

interpretation uar: message_codec userauth_request_encode userauth_request_decode request_ok
proof
  show "userauth_request_decode (userauth_request_encode m) = Ok m"
    if ok: "request_ok m" and small: "small (userauth_request_encode m)" for m :: userauth_request
  proof -
    let ?pre = "[SSH_MSG_USERAUTH_REQUEST] @ enc_string (ur_user m) @ enc_string (ur_service m) @ enc_string (auth_method_name (ur_method m))"
    have enc: "userauth_request_encode m = ?pre @ enc_tail (ur_method m)"
      by (simp add: userauth_request_encode_def encode_simps wire_simps write_tail_enc)
    have "read_method (auth_method_name (ur_method m)) (rd_at ?pre (enc_tail (ur_method m)))
        = Ok (ur_method m, rd_at (?pre @ enc_tail (ur_method m)) [])"
      using ok small by (intro read_method_back) (simp_all add: request_ok_def enc)
    with ok small method_name_ok [of "ur_method m"] show ?thesis
      by (simp add: userauth_request_decode_def run_rd_def reader_new_rd_at enc wire_simps request_ok_def)
        (simp add: rd_bind_def)
  qed
  show "userauth_request_decode b \<noteq> Panic" for b
    unfolding userauth_request_decode_def by (intro run_rd_no_panic safe_auth safe_read_method)
qed

definition failure_ok :: "userauth_failure \<Rightarrow> bool" where
  "failure_ok m \<longleftrightarrow> (\<forall>n \<in> set (uf_continuations m). plain_name n \<and> valid_utf8 n)
     \<and> blob_ok (join_comma (uf_continuations m))"

lemma utf8_parts_filter:
  "(\<forall>p \<in> set ps. valid_utf8 p) \<Longrightarrow> utf8_parts ps = Ok (filter (\<lambda>p. p \<noteq> []) ps)"
  by (induction ps) auto

lemma utf8_parts_no_panic: "utf8_parts ps \<noteq> Panic"
  by (induction ps) (auto split: option.split)

lemma utf8_parts_join:
  assumes "\<forall>n \<in> set ns. plain_name n \<and> valid_utf8 n"
  shows "utf8_parts (split_on comma (join_comma ns)) = Ok ns"
proof (cases "ns = []")
  case False
  with assms have "split_on comma (join_comma ns) = ns" by (intro split_join) (auto simp: plain_name_def)
  with assms show ?thesis by (auto simp: utf8_parts_filter plain_name_def filter_id_conv)
qed simp

interpretation uaf: message_codec userauth_failure_encode userauth_failure_decode failure_ok
proof
  show "userauth_failure_decode (userauth_failure_encode m) = Ok m"
    if "failure_ok m" "small (userauth_failure_encode m)" for m :: userauth_failure
    using that by (simp add: userauth_failure_decode_def userauth_failure_encode_def encode_simps wire_simps
      failure_ok_def utf8_parts_join)
  show "userauth_failure_decode b \<noteq> Panic" for b
    unfolding userauth_failure_decode_def by (intro run_rd_no_panic safe_auth safe_rd_res utf8_parts_no_panic)
qed

interpretation uab: message_codec userauth_banner_encode userauth_banner_decode
  "\<lambda>m. str_ok (ub_message m) \<and> str_ok (ub_language m)"
proof
  show "userauth_banner_decode (userauth_banner_encode m) = Ok m"
    if "str_ok (ub_message m) \<and> str_ok (ub_language m)" "small (userauth_banner_encode m)" for m :: userauth_banner
    using that by (simp add: userauth_banner_decode_def userauth_banner_encode_def encode_simps wire_simps)
  show "userauth_banner_decode b \<noteq> Panic" for b
    unfolding userauth_banner_decode_def by (intro run_rd_no_panic safe_auth)
qed

interpretation upk: message_codec userauth_pk_ok_encode userauth_pk_ok_decode
  "\<lambda>m. str_ok (pk_algorithm m) \<and> blob_ok (pk_public_blob m)"
proof
  show "userauth_pk_ok_decode (userauth_pk_ok_encode m) = Ok m"
    if "str_ok (pk_algorithm m) \<and> blob_ok (pk_public_blob m)" "small (userauth_pk_ok_encode m)" for m :: userauth_pk_ok
    using that by (simp add: userauth_pk_ok_decode_def userauth_pk_ok_encode_def encode_simps wire_simps)
  show "userauth_pk_ok_decode b \<noteq> Panic" for b
    unfolding userauth_pk_ok_decode_def by (intro run_rd_no_panic safe_auth)
qed

definition info_request_ok :: "info_request \<Rightarrow> bool" where
  "info_request_ok m \<longleftrightarrow> str_ok (ir_name m) \<and> str_ok (ir_instruction m) \<and> str_ok (ir_language m)
     \<and> length (ir_prompts m) \<le> 1024 \<and> list_all (\<lambda>(p, e). str_ok p) (ir_prompts m)"

definition enc_prompt :: "rust_str \<times> bool \<Rightarrow> bytes" where
  "enc_prompt = (\<lambda>(p, e). enc_string p @ [if e then 1 else 0])"

lemma read_prompt_back: "(case x of (p, e) \<Rightarrow> str_ok p) \<Longrightarrow> fits pre (enc_prompt x @ post) \<Longrightarrow>
    read_prompt (rd_at pre (enc_prompt x @ post)) = Ok (x, rd_at (pre @ enc_prompt x) post)"
  by (cases x) (auto simp: read_prompt_def enc_prompt_def wire_simps)

lemma foldl_prompts: "w_buf (foldl (\<lambda>w (prompt, echo). write_bool echo (write_string prompt w)) w ps)
    = w_buf w @ concat (map enc_prompt ps)"
  by (induction ps arbitrary: w) (auto simp: wire_simps enc_prompt_def)

lemma count_back: "length xs \<le> 1024 \<Longrightarrow> unat (of_nat (length xs) :: u32) = length xs"
  by (simp add: unat_of_nat_u32)

interpretation uir: message_codec info_request_encode info_request_decode info_request_ok
proof
  show "info_request_decode (info_request_encode m) = Ok m"
    if "info_request_ok m" "small (info_request_encode m)" for m :: info_request
    using that read_many_back [of "\<lambda>(p, e). str_ok p" enc_prompt read_prompt, OF read_prompt_back, of "ir_prompts m" _ "[]"]
    by (simp add: info_request_decode_def info_request_encode_def encode_simps wire_simps info_request_ok_def
      foldl_prompts count_back rd_bind_def [of "read_many _ _"])
  have "safe_rd read_prompt" unfolding read_prompt_def by (intro safe_auth)
  then show "info_request_decode b \<noteq> Panic" for b
    unfolding info_request_decode_def by (intro run_rd_no_panic safe_auth safe_read_many)
qed

definition info_response_ok :: "info_response \<Rightarrow> bool" where
  "info_response_ok m \<longleftrightarrow> length (is_responses m) \<le> 1024 \<and> list_all str_ok (is_responses m)"

lemma foldl_responses: "w_buf (foldl (\<lambda>w resp. write_string resp w) w rs) = w_buf w @ concat (map enc_string rs)"
  by (induction rs arbitrary: w) (simp_all add: wire_simps)

interpretation uis: message_codec info_response_encode info_response_decode info_response_ok
proof
  show "info_response_decode (info_response_encode m) = Ok m"
    if "info_response_ok m" "small (info_response_encode m)" for m :: info_response
    using that read_many_back [of str_ok enc_string auth_read_utf8, OF auth_read_utf8_at, of "is_responses m" _ "[]"]
    by (simp add: info_response_decode_def info_response_encode_def encode_simps wire_simps info_response_ok_def
      foldl_responses count_back rd_bind_def [of "read_many _ _"])
  show "info_response_decode b \<noteq> Panic" for b
    unfolding info_response_decode_def by (intro run_rd_no_panic safe_auth safe_read_many)
qed

section \<open>Comparison of secrets\<close>

lemma foldl_or_zero: "foldl (\<lambda>d i. d OR f i) d xs = 0 \<longleftrightarrow> d = 0 \<and> (\<forall>i \<in> set xs. f i = (0 :: u8))"
  by (induction xs arbitrary: d) (auto simp: or_eq_0_iff)

text \<open>\<open>(x | x.wrapping_neg()) >> 63\<close> is zero exactly for zero.\<close>

lemma top_bit: "drop_bit 63 w = 0 \<longleftrightarrow> \<not> bit w 63" for w :: u64
proof
  assume "drop_bit 63 w = 0"
  then have "\<not> bit (drop_bit 63 w) 0" by simp
  then show "\<not> bit w 63" by (simp add: bit_drop_bit_eq del: bit_0)
next
  assume w: "\<not> bit w 63"
  show "drop_bit 63 w = 0"
  proof (rule bit_word_eqI)
    fix n :: nat
    have "63 + n < 64 \<longleftrightarrow> n = 0" by auto
    then show "bit (drop_bit 63 w) n = bit (0 :: u64) n"
      using w bit_imp_le_length [of w "63 + n"] by (auto simp: bit_drop_bit_eq simp del: bit_0)
  qed
qed

lemma msb_unat: "bit w 63 \<longleftrightarrow> 2 ^ 63 \<le> unat w" for w :: u64
proof -
  have "bit w 63 \<longleftrightarrow> bit (unat w) 63" by (simp add: bit_unsigned_iff)
  also have "\<dots> \<longleftrightarrow> odd (unat w div 2 ^ 63)" by (simp add: bit_iff_odd)
  also have "\<dots> \<longleftrightarrow> 2 ^ 63 \<le> unat w"
  proof -
    have "unat w div 2 ^ 63 < 2" using unat_less_p2 [of w] by (simp add: div_less_iff_less_mult)
    then have "odd (unat w div 2 ^ 63) \<longleftrightarrow> unat w div 2 ^ 63 \<noteq> 0" by (cases "unat w div 2 ^ 63") auto
    then show ?thesis by (simp add: div_eq_0_iff not_less)
  qed
  finally show ?thesis .
qed

lemma neg_unat: "x \<noteq> 0 \<Longrightarrow> unat (0 - x) + unat x = 2 ^ 64" for x :: u64
proof -
  assume "x \<noteq> 0"
  have "(0 - x) + x = 0" by simp
  then have "(unat (0 - x) + unat x) mod 2 ^ 64 = 0"
    using unat_word_ariths(1) [of "0 - x" x] by simp
  moreover have "0 < unat x" "unat (0 - x) + unat x < 2 * 2 ^ 64"
    using \<open>x \<noteq> 0\<close> unat_less_p2 [of x] unat_less_p2 [of "0 - x"] by (auto simp: unat_gt_0)
  ultimately show ?thesis by (auto simp: mod_eq_0_iff_dvd dvd_def)
qed

lemma sign_fold: "drop_bit 63 (x OR (0 - x)) = 0 \<longleftrightarrow> x = 0" for x :: u64
proof (cases "x = 0")
  case False
  then have "2 ^ 63 \<le> unat x \<or> 2 ^ 63 \<le> unat (0 - x)" using neg_unat [of x] by auto
  then have "bit x 63 \<or> bit (0 - x) 63" by (simp only: msb_unat)
  then have "bit (x OR (0 - x)) 63" by (simp only: bit_or_iff)
  with False show ?thesis by (simp only: top_bit simp_thms)
qed simp

lemma len_bit_zero: "ucast (drop_bit 63 x) = (0 :: u8) \<longleftrightarrow> drop_bit 63 x = 0" for x :: u64
proof -
  have "bit (drop_bit 63 x) n \<Longrightarrow> n < 8" for n :: nat using bit_imp_le_length [of x "63 + n"] by (auto simp: bit_drop_bit_eq)
  then have "bit (drop_bit 63 x) n \<longleftrightarrow> bit (ucast (drop_bit 63 x) :: u8) n" for n
    by (auto simp: bit_unsigned_iff simp del: bit_0)
  then show ?thesis by (metis bit_eq_iff bit_0_eq)
qed

lemma xor_zero: "a XOR b = 0 \<longleftrightarrow> a = b" for a b :: "'a::len word"
  by (metis xor.assoc xor.left_neutral xor_self_eq)

lemma ct_bytes_eq_iff:
  assumes "length a < 2 ^ 64" "length b < 2 ^ 64"
  shows "ct_bytes_eq a b \<longleftrightarrow> a = b"
proof -
  let ?x = "of_nat (length a) XOR of_nat (length b) :: u64"
  have "?x = 0 \<longleftrightarrow> (of_nat (length a) :: u64) = of_nat (length b)" by (rule xor_zero)
  also have "\<dots> \<longleftrightarrow> length a = length b" using assms by (simp add: word_unat_eq_iff unat_of_nat take_bit_eq_mod)
  finally have len: "?x = 0 \<longleftrightarrow> length a = length b" .
  have "ct_bytes_eq a b \<longleftrightarrow> (\<forall>i < max (length a) (length b). get_or0 a i XOR get_or0 b i = 0) \<and> ?x = 0"
    by (simp only: ct_bytes_eq_def Let_def or_eq_0_iff foldl_or_zero len_bit_zero sign_fold) auto
  also have "\<dots> \<longleftrightarrow> a = b"
  proof
    assume l: "(\<forall>i < max (length a) (length b). get_or0 a i XOR get_or0 b i = 0) \<and> ?x = 0"
    then have "length a = length b" using len by blast
    with l show "a = b" unfolding xor_zero by (intro nth_equalityI) (auto simp: get_or0_def)
  next
    assume "a = b"
    then show "(\<forall>i < max (length a) (length b). get_or0 a i XOR get_or0 b i = 0) \<and> ?x = 0" by simp
  qed
  finally show ?thesis .
qed

section \<open>What a signature covers\<close>

lemma signed_data_bytes:
  "publickey_signed_data_bound sid user service alg blob hk =
     enc_string sid @ [SSH_MSG_USERAUTH_REQUEST] @ enc_string user @ enc_string service
     @ enc_string (case hk of Some _ \<Rightarrow> PUBLICKEY_HOSTBOUND | None \<Rightarrow> lit ''publickey'') @ [1]
     @ enc_string alg @ enc_string blob @ (case hk of Some h \<Rightarrow> enc_string h | None \<Rightarrow> [])"
  by (simp add: publickey_signed_data_bound_def encode_simps wire_simps split: option.split)

lemma enc_string_split:
  assumes "enc_string x @ p = enc_string y @ q" "fits_u32 x" "fits_u32 y"
  shows "x = y \<and> p = q"
proof -
  have "take 4 (enc_string x @ p) = take 4 (enc_string y @ q)" using assms(1) by simp
  then have "u32_to_be (of_nat (length x)) = u32_to_be (of_nat (length y))" by (simp add: enc_string_def)
  then have "(of_nat (length x) :: u32) = of_nat (length y)" by (metis u32_from_to_be)
  then have "length x = length y" using assms(2,3) unat_of_nat_u32 by (metis fits_u32_def)
  with assms(1) show ?thesis by (simp add: enc_string_def)
qed

definition signable :: "bytes \<times> rust_str \<times> rust_str \<times> rust_str \<times> bytes \<times> bytes option \<Rightarrow> bool" where
  "signable = (\<lambda>(sid, user, service, alg, blob, hk).
     fits_u32 sid \<and> fits_u32 user \<and> fits_u32 service \<and> fits_u32 alg \<and> fits_u32 blob \<and> pred_option fits_u32 hk)"

lemma method_field_fits: "fits_u32 (case hk of Some _ \<Rightarrow> PUBLICKEY_HOSTBOUND | None \<Rightarrow> lit ''publickey'')"
  by (simp add: fits_u32_def PUBLICKEY_HOSTBOUND_def split: option.split)

lemma signed_data_inject:
  assumes ok: "signable (sid, user, service, alg, blob, hk)" "signable (sid', user', service', alg', blob', hk')"
    and eq: "publickey_signed_data_bound sid user service alg blob hk
      = publickey_signed_data_bound sid' user' service' alg' blob' hk'"
  shows "(sid, user, service, alg, blob, hk) = (sid', user', service', alg', blob', hk')"
proof -
  define me where "me = (\<lambda>hk :: bytes option. case hk of Some _ \<Rightarrow> PUBLICKEY_HOSTBOUND | None \<Rightarrow> lit ''publickey'')"
  define he where "he = (\<lambda>hk. case hk of Some h \<Rightarrow> enc_string h | None \<Rightarrow> [])"
  have fits: "fits_u32 sid" "fits_u32 user" "fits_u32 service" "fits_u32 alg" "fits_u32 blob" "pred_option fits_u32 hk"
    "fits_u32 sid'" "fits_u32 user'" "fits_u32 service'" "fits_u32 alg'" "fits_u32 blob'" "pred_option fits_u32 hk'"
    "fits_u32 (me hk)" "fits_u32 (me hk')"
    using ok by (simp_all add: signable_def me_def method_field_fits)
  have s1: "sid = sid' \<and> [SSH_MSG_USERAUTH_REQUEST] @ enc_string user @ enc_string service @ enc_string (me hk) @ [1]
        @ enc_string alg @ enc_string blob @ he hk
      = [SSH_MSG_USERAUTH_REQUEST] @ enc_string user' @ enc_string service' @ enc_string (me hk') @ [1]
        @ enc_string alg' @ enc_string blob' @ he hk'"
    by (rule enc_string_split [OF _ fits(1,7)]) (use eq in \<open>simp only: signed_data_bytes me_def he_def\<close>)
  note s2 = enc_string_split [OF s1 [THEN conjunct2, unfolded same_append_eq] fits(2,8)]
  note s3 = enc_string_split [OF s2 [THEN conjunct2] fits(3,9)]
  note s4 = enc_string_split [OF s3 [THEN conjunct2] fits(13,14)]
  note s5 = enc_string_split [OF s4 [THEN conjunct2, unfolded same_append_eq] fits(4,10)]
  note s6 = enc_string_split [OF s5 [THEN conjunct2] fits(5,11)]
  have "hk = None \<longleftrightarrow> hk' = None" using s4 by (auto simp: me_def known_name_facts split: option.splits)
  moreover have "h = h'" if "hk = Some h" "hk' = Some h'" for h h'
  proof (rule enc_string_split [THEN conjunct1])
    show "enc_string h @ [] = enc_string h' @ []" using s6 [THEN conjunct2] that by (simp add: he_def)
    show "fits_u32 h" "fits_u32 h'" using fits(6,12) that by simp_all
  qed
  ultimately have "hk = hk'" by (metis option.exhaust)
  with s1 s2 s3 s5 s6 show ?thesis by blast
qed
section \<open>Properties\<close>

text \<open>
  Claim C33. Every user authentication message that respects the length limits is decoded from its own
  encoding, no payload makes a decoder panic, and the constant-time comparison of secrets is
  equality.\<close>

theorem auth_messages_round_trip:
  "(request_ok rq \<and> small (userauth_request_encode rq) \<longrightarrow> userauth_request_decode (userauth_request_encode rq) = Ok rq)
   \<and> (failure_ok fl \<and> small (userauth_failure_encode fl) \<longrightarrow> userauth_failure_decode (userauth_failure_encode fl) = Ok fl)
   \<and> (info_request_ok ir \<and> small (info_request_encode ir) \<longrightarrow> info_request_decode (info_request_encode ir) = Ok ir)
   \<and> (info_response_ok is \<and> small (info_response_encode is) \<longrightarrow> info_response_decode (info_response_encode is) = Ok is)
   \<and> (str_ok (pk_algorithm pk) \<and> blob_ok (pk_public_blob pk) \<and> small (userauth_pk_ok_encode pk)
        \<longrightarrow> userauth_pk_ok_decode (userauth_pk_ok_encode pk) = Ok pk)
   \<and> userauth_request_decode b \<noteq> Panic \<and> userauth_failure_decode b \<noteq> Panic \<and> info_request_decode b \<noteq> Panic
   \<and> info_response_decode b \<noteq> Panic \<and> userauth_pk_ok_decode b \<noteq> Panic \<and> userauth_banner_decode b \<noteq> Panic
   \<and> service_request_decode b \<noteq> Panic \<and> service_accept_decode b \<noteq> Panic
   \<and> (length x < 2 ^ 64 \<and> length y < 2 ^ 64 \<longrightarrow> (ct_bytes_eq x y \<longleftrightarrow> x = y))"
  by (intro conjI impI; (elim conjE)?)
    (assumption | rule uar.round uaf.round uir.round uis.round upk.round uar.total uaf.total uir.total uis.total
      upk.total uab.total srq.total sac.total ct_bytes_eq_iff conjI)+

definition demo_password :: userauth_request where
  "demo_password = \<lparr>ur_user = lit ''alice'', ur_service = lit ''ssh-connection'',
     ur_method = AuthPassword None (lit ''secret'')\<rparr>"

theorem auth_messages_round_trip_witness:
  "userauth_request_decode (userauth_request_encode demo_password) = Ok demo_password
   \<and> \<not> ct_bytes_eq [1, 2] [1, 2, 0]"
proof
  have "request_ok demo_password"
    by (simp add: demo_password_def request_ok_def str_ok_def blob_ok_def MAX_USERAUTH_STRING_val valid_utf8_lit)
  moreover have "small (userauth_request_encode demo_password)"
    by (simp add: demo_password_def small_def USIZE_LIMIT_def userauth_request_encode_def encode_simps wire_simps Let_def)
  ultimately show "userauth_request_decode (userauth_request_encode demo_password) = Ok demo_password"
    using auth_messages_round_trip by blast
  have "length x < 2 ^ 64 \<Longrightarrow> length y < 2 ^ 64 \<Longrightarrow> ct_bytes_eq x y \<Longrightarrow> x = y" for x y
    using auth_messages_round_trip [where x = x and y = y] by blast
  from this [of "[1, 2]" "[1, 2, 0]"] show "\<not> ct_bytes_eq [1, 2] [1, 2, 0]" by auto
qed

text \<open>
  Claim C31. The data a public-key signature covers determines the session, the user, the service, the
  algorithm, the key and the host key it was made for: a signature made in one session, for one user,
  with one key or towards one host is a signature on other data everywhere else.\<close>

theorem signed_data_binds:
  assumes "signable (sid, user, service, alg, blob, hk)" "signable (sid', user', service', alg', blob', hk')"
  shows "publickey_signed_data_bound sid user service alg blob hk = publickey_signed_data_bound sid' user' service' alg' blob' hk'
    \<longleftrightarrow> sid = sid' \<and> user = user' \<and> service = service' \<and> alg = alg' \<and> blob = blob' \<and> hk = hk'"
  using signed_data_inject [OF assms] by blast

theorem signed_data_binds_witness:
  "publickey_signed_data_bound [1] (lit ''bob'') [] [] [2] None \<noteq> publickey_signed_data_bound [1] (lit ''bo'') (lit ''b'') [] [2] None"
proof -
  have "signable ([1], lit ''bob'', [], [], [2], None)" "signable ([1], lit ''bo'', lit ''b'', [], [2], None)"
    by (simp_all add: signable_def fits_u32_def)
  from signed_data_binds [OF this] show ?thesis by simp
qed

end
