(* ===== verification/AuthClientProps.thy ===== *)
theory AuthClientProps
  imports AuthClient AuthCodec
begin

text \<open>
  Properties of the client side of user authentication: what it discloses, to whom and under which
  algorithms, that nothing secret goes out over a changed host key, and that it never panics.
\<close>

section \<open>What is sent for a credential\<close>

text \<open>The request for a credential, the credential behind it and the state that awaits the answer.\<close>

fun request_of :: "'k host_key_ops \<Rightarrow> ('p, 'r) client_hooks \<Rightarrow> bool \<Rightarrow> ('k, 'p, 'r) client_credential \<Rightarrow>
    (auth_method_payload \<times> ('k, 'p, 'r) client_credential \<times> client_state) option" where
  "request_of K H retry (CredPasswordPrompt f) =
     (case ask_password H f retry of
        (Some s, f') \<Rightarrow> Some (AuthPassword None s, CredPasswordPrompt f', CAwaitingPasswordResult)
      | (None, _) \<Rightarrow> None)"
| "request_of K H retry CredNone = Some (AuthNone, CredNone, CAwaitingNoneResult)"
| "request_of K H retry (CredPassword pw) = Some (AuthPassword None pw, CredPassword pw, CAwaitingPasswordResult)"
| "request_of K H retry (CredPublicKey k) =
     Some (AuthPublicKey False (hk_algorithm K k) (hk_public_blob K k) None None, CredPublicKey k, CAwaitingPkOk)"
| "request_of K H retry (CredKeyboardInteractive r) =
     Some (AuthKeyboardInteractive [] (submethods H r), CredKeyboardInteractive r, CAwaitingKbdintResult)"

lemma emit_current:
  "ca_current c = Some u \<Longrightarrow> emit_current_request K H c =
     (case request_of K H (password_retry c) u of
        Some (m, cred, s) \<Rightarrow> (c\<lparr>ca_current := Some cred, ca_state := s\<rparr>, Ok (CSend (client_request c m)))
      | None \<Rightarrow> advance_to_next_credential K H (c\<lparr>ca_current := None, password_retry := False\<rparr>))"
  by (subst emit_current_request.simps) (cases u; auto split: prod.split option.split)

lemma usable_frame:
  "usable_credential K (c\<lparr>ca_credentials := cs, ca_current := cur, password_retry := r\<rparr>) = usable_credential K c"
  "usable_credential K (c\<lparr>ca_credentials := cs\<rparr>) = usable_credential K c"
  by (simp_all add: fun_eq_iff usable_credential_def)

lemma client_request_frame: "client_request (c\<lparr>ca_credentials := cs, ca_current := cur, password_retry := r\<rparr>) = client_request c"
  by (simp add: fun_eq_iff client_request_def)

definition offers :: "'k host_key_ops \<Rightarrow> ('p, 'r) client_hooks \<Rightarrow> ('k, 'p, 'r) client_auth \<Rightarrow> ('k, 'p, 'r) client_res \<Rightarrow> bool" where
  "offers K H c r \<longleftrightarrow> (\<exists>skipped cred0 rest u retry m cred s.
     ca_credentials c = skipped @ cred0 # rest \<and> usable_credential K c cred0 = Some u
     \<and> (retry \<longrightarrow> password_retry c) \<and> request_of K H retry u = Some (m, cred, s)
     \<and> r = (c\<lparr>ca_credentials := rest, ca_current := Some cred, password_retry := retry, ca_state := s\<rparr>,
            Ok (CSend (client_request c m))))"

definition gives_up :: "('k, 'p, 'r) client_auth \<Rightarrow> ('k, 'p, 'r) client_res \<Rightarrow> bool" where
  "gives_up c r \<longleftrightarrow> snd r = Ok (CFailed (server_continuations c) (last_partial_success c)) \<and> ca_state (fst r) = CDone"

lemma offers_skip:
  assumes "ca_credentials c = cred0 # rest" "b \<longrightarrow> password_retry c"
    and "offers K H (c\<lparr>ca_credentials := rest, ca_current := cur, password_retry := b\<rparr>) r"
  shows "offers K H c r"
proof -
  from assms(3) obtain skipped cred1 rest' u retry m cred s where
    o: "rest = skipped @ cred1 # rest'" "usable_credential K c cred1 = Some u" "retry \<longrightarrow> b"
      "request_of K H retry u = Some (m, cred, s)"
      "r = (c\<lparr>ca_credentials := rest', ca_current := Some cred, password_retry := retry, ca_state := s\<rparr>,
            Ok (CSend (client_request c m)))"
    unfolding offers_def usable_frame client_request_frame by (elim exE conjE) (rule that; simp; fail)
  show ?thesis
    unfolding offers_def
    by (rule exI [of _ "cred0 # skipped"], rule exI [of _ cred1], rule exI [of _ rest'], rule exI [of _ u], rule exI [of _ retry],
      rule exI [of _ m], rule exI [of _ cred], rule exI [of _ s]) (use o assms(1,2) in auto)
qed

lemma advance_offers:
  "offers K H c (advance_to_next_credential K H c) \<or> gives_up c (advance_to_next_credential K H c)"
proof (induction "length (ca_credentials c)" arbitrary: c rule: less_induct)
  case less
  show ?case
  proof (cases "ca_credentials c")
    case Nil
    then show ?thesis by (subst (2) advance_to_next_credential.simps) (simp add: gives_up_def)
  next
    case (Cons cred0 rest)
    have next': "offers K H c (advance_to_next_credential K H c1) \<or> gives_up c (advance_to_next_credential K H c1)"
      if "c1 = c\<lparr>ca_credentials := rest, ca_current := cur, password_retry := b\<rparr>" "b \<longrightarrow> password_retry c" for c1 cur b
    proof -
      have "offers K H c1 (advance_to_next_credential K H c1) \<or> gives_up c1 (advance_to_next_credential K H c1)"
        by (rule less) (simp add: that Cons)
      moreover have "gives_up c1 r = gives_up c r" for r using that by (simp add: gives_up_def)
      ultimately show ?thesis using offers_skip [OF Cons that(2)] that(1) by blast
    qed
    show ?thesis
    proof (cases "usable_credential K c cred0")
      case None
      have "c\<lparr>ca_credentials := rest\<rparr> = c\<lparr>ca_credentials := rest, ca_current := ca_current c, password_retry := password_retry c\<rparr>" by simp
      then show ?thesis
        using next' [where cur = "ca_current c" and b = "password_retry c"] None Cons
        by (subst (1 2) advance_to_next_credential.simps) (simp add: usable_frame)
    next
      case (Some u)
      let ?c = "c\<lparr>ca_credentials := rest, ca_current := Some u\<rparr>"
      have adv: "advance_to_next_credential K H c = emit_current_request K H ?c"
        using Some Cons by (subst advance_to_next_credential.simps) (simp add: usable_frame)
      show ?thesis
      proof (cases "request_of K H (password_retry c) u")
        case None
        then show ?thesis
          unfolding adv using next' [where cur = None and b = False] by (simp add: emit_current)
      next
        case (Some mcs)
        obtain m cred s where mcs: "mcs = (m, cred, s)" by (cases mcs)
        have "offers K H c (advance_to_next_credential K H c)"
          unfolding offers_def
          by (rule exI [of _ "[]"], rule exI [of _ cred0], rule exI [of _ rest], rule exI [of _ u], rule exI [of _ "password_retry c"],
            rule exI [of _ m], rule exI [of _ cred], rule exI [of _ s])
            (use Some mcs Cons \<open>usable_credential K c cred0 = Some u\<close> in \<open>simp add: adv emit_current client_request_def\<close>)
        then show ?thesis ..
      qed
    qed
  qed
qed

section \<open>The dispatch\<close>

lemmas auth_decoders_total = srq.total sac.total uar.total uaf.total uab.total upk.total uir.total uis.total

lemma decode_success_total: "decode_success b \<noteq> Panic"
  by (cases b) (simp_all add: decode_success_def index_res_def)

text \<open>What holds of the answers of the handlers and of errors, banners and idling holds of every answer.\<close>

lemma client_packet_cases [consumes 0, case_names quiet accepted probe result answers]:
  assumes quiet: "\<And>r. (\<forall>p. r \<noteq> Ok (CSend p)) \<Longrightarrow> r \<noteq> Ok CSuccess \<Longrightarrow> r \<noteq> Panic \<Longrightarrow> Q (c, r)"
    and accepted: "ca_state c = CAwaitingServiceAccept \<Longrightarrow> Q (advance_to_next_credential K H c)"
    and probe: "ca_state c = CAwaitingPkOk \<Longrightarrow> payload \<noteq> [] \<Longrightarrow> Q (on_pk_probe_reply K H payload c)"
    and result: "ca_state c \<notin> {CInitial, CAwaitingServiceAccept, CDone} \<Longrightarrow> payload \<noteq> [] \<Longrightarrow> Q (on_auth_result K H payload c)"
    and answers: "ca_state c = CAwaitingKbdintResult \<Longrightarrow> payload \<noteq> [] \<Longrightarrow> Q (on_kbdint_reply K H payload c)"
  shows "Q (client_auth_on_packet K H payload c)"
proof (cases payload)
  case (Cons t rest)
  show ?thesis
  proof (cases "t = SSH_MSG_USERAUTH_BANNER")
    case True
    then show ?thesis
      using auth_decoders_total by (auto simp: Cons client_auth_on_packet_def intro!: quiet split: res.split)
  next
    case False
    have "Q (on_service_accept K H payload c)" if "ca_state c = CAwaitingServiceAccept"
      using accepted [OF that] auth_decoders_total by (auto simp: on_service_accept_def intro!: quiet split: res.split)
    with False probe result answers show ?thesis
      by (cases "ca_state c") (auto simp: Cons client_auth_on_packet_def intro!: quiet)
  qed
qed (simp add: client_auth_on_packet_def quiet)

section \<open>What a packet can get out of the client\<close>

text \<open>
  The three things that can be sent in answer to a packet: the request for a queued credential that
  passes the filters, a signature by the current key, and answers to prompts.
\<close>

definition sends_offer :: "'k host_key_ops \<Rightarrow> ('p, 'r) client_hooks \<Rightarrow> ('k, 'p, 'r) client_auth \<Rightarrow> ('k, 'p, 'r) client_auth \<Rightarrow>
    bytes \<Rightarrow> bool" where
  "sends_offer K H c c' p \<longleftrightarrow> (\<exists>cred0 u retry m cred.
     cred0 \<in> set (ca_credentials c) \<union> set_option (ca_current c) \<and> usable_credential K c' cred0 = Some u
     \<and> request_of K H retry u = Some (m, cred, ca_state c') \<and> ca_current c' = Some cred \<and> p = client_request c m)"

definition sends_signature :: "'k host_key_ops \<Rightarrow> ('k, 'p, 'r) client_auth \<Rightarrow> bytes \<Rightarrow> bytes \<Rightarrow> bool" where
  "sends_signature K c payload p \<longleftrightarrow> (\<exists>k pk_ok sig. ca_state c = CAwaitingPkOk \<and> ca_current c = Some (CredPublicKey k)
     \<and> userauth_pk_ok_decode payload = Ok pk_ok \<and> pk_algorithm pk_ok = hk_algorithm K k \<and> pk_public_blob pk_ok = hk_public_blob K k
     \<and> hk_sign K k (publickey_signed_data_bound (ca_session_id c) (ca_user c) (ca_service c) (hk_algorithm K k)
          (hk_public_blob K k) (ca_hostbound c)) = Ok sig
     \<and> p = client_request c (AuthPublicKey True (hk_algorithm K k) (hk_public_blob K k) (Some sig) (ca_hostbound c)))"

definition sends_answers :: "('p, 'r) client_hooks \<Rightarrow> ('k, 'p, 'r) client_auth \<Rightarrow> bytes \<Rightarrow> bytes \<Rightarrow> bool" where
  "sends_answers H c payload p \<longleftrightarrow> (\<exists>r info. ca_state c = CAwaitingKbdintResult \<and> ca_current c = Some (CredKeyboardInteractive r)
     \<and> info_request_decode payload = Ok info
     \<and> length (fst (respond H r (ir_name info) (ir_instruction info) (ir_prompts info))) = length (ir_prompts info)
     \<and> p = info_response_encode \<lparr>is_responses = fst (respond H r (ir_name info) (ir_instruction info) (ir_prompts info))\<rparr>)"

definition same_identity :: "('k, 'p, 'r) client_auth \<Rightarrow> ('k, 'p, 'r) client_auth \<Rightarrow> bool" where
  "same_identity c c' \<longleftrightarrow> ca_user c' = ca_user c \<and> ca_service c' = ca_service c \<and> ca_session_id c' = ca_session_id c
     \<and> ca_hostbound c' = ca_hostbound c \<and> server_sig_algs c' = server_sig_algs c \<and> pubkey_accepted c' = pubkey_accepted c"

definition discloses :: "'k host_key_ops \<Rightarrow> ('p, 'r) client_hooks \<Rightarrow> bytes \<Rightarrow> ('k, 'p, 'r) client_auth \<Rightarrow> ('k, 'p, 'r) client_res \<Rightarrow> bool" where
  "discloses K H payload c r \<longleftrightarrow> same_identity c (fst r)
     \<and> (\<forall>p. snd r = Ok (CSend p) \<longrightarrow> sends_offer K H c (fst r) p \<or> sends_signature K c payload p \<or> sends_answers H c payload p)
     \<and> (snd r = Ok CSuccess \<longrightarrow> payload \<noteq> [] \<and> hd payload = SSH_MSG_USERAUTH_SUCCESS
          \<and> ca_state c \<notin> {CInitial, CAwaitingServiceAccept, CDone})"

lemma discloses_quiet:
  "(\<And>p. r \<noteq> Ok (CSend p)) \<Longrightarrow> r \<noteq> Ok CSuccess \<Longrightarrow> same_identity c c' \<Longrightarrow> discloses K H payload c (c', r)"
  by (simp add: discloses_def)

lemma same_identity_refl [simp]: "same_identity c c"
  by (simp add: same_identity_def)

lemma usable_cong:
  "same_identity c c' \<Longrightarrow> server_continuations c' = server_continuations c \<Longrightarrow> usable_credential K c' = usable_credential K c"
  by (simp add: fun_eq_iff usable_credential_def same_identity_def)

lemma advance_identity: "same_identity c (fst (advance_to_next_credential K H c))"
proof (induction "length (ca_credentials c)" arbitrary: c rule: less_induct)
  case less
  have "same_identity c (fst (advance_to_next_credential K H c1))"
    if "length (ca_credentials c1) < length (ca_credentials c)" "same_identity c c1" for c1
    using less [OF that(1)] that(2) by (simp add: same_identity_def)
  then show ?case
    by (subst advance_to_next_credential.simps)
      (auto simp: same_identity_def emit_current Let_def split: list.split option.split prod.split)
qed

lemma advance_discloses:
  assumes "same_identity c c1" "set (ca_credentials c1) \<subseteq> set (ca_credentials c) \<union> set_option (ca_current c)"
  shows "discloses K H payload c (advance_to_next_credential K H c1)"
proof -
  define r where "r = advance_to_next_credential K H c1"
  have same: "same_identity c (fst r)"
    using advance_identity [of c1 K H] assms(1) by (simp add: r_def same_identity_def)
  have req: "client_request c1 = client_request c" using assms(1) by (simp add: fun_eq_iff client_request_def same_identity_def)
  from advance_offers [of K H c1] have "offers K H c1 r \<or> gives_up c1 r" by (simp only: r_def)
  then show ?thesis
  proof
    assume "offers K H c1 r"
    then obtain skipped cred0 rest u retry m cred s where
      o: "ca_credentials c1 = skipped @ cred0 # rest" "usable_credential K c1 cred0 = Some u"
        "request_of K H retry u = Some (m, cred, s)"
        "r = (c1\<lparr>ca_credentials := rest, ca_current := Some cred, password_retry := retry, ca_state := s\<rparr>,
              Ok (CSend (client_request c1 m)))"
      unfolding offers_def by blast
    have "usable_credential K (fst r) = usable_credential K c1"
      by (rule usable_cong) (simp_all add: o(4) same_identity_def)
    moreover have "cred0 \<in> set (ca_credentials c) \<union> set_option (ca_current c)" using assms(2) o(1) by auto
    ultimately have "sends_offer K H c (fst r) (client_request c1 m)"
      unfolding sends_offer_def using o(2-4) req
      by (intro exI [of _ cred0] exI [of _ u] exI [of _ retry] exI [of _ m] exI [of _ cred]) simp
    then show ?thesis using same o(4) by (auto simp: discloses_def r_def [symmetric])
  next
    assume "gives_up c1 r"
    then show ?thesis using same by (auto simp: discloses_def gives_up_def r_def [symmetric])
  qed
qed

lemma note_failure_fields:
  "same_identity c (note_failure f c)" "set (ca_credentials (note_failure f c)) \<subseteq> set (ca_credentials c) \<union> set_option (ca_current c)"
  "server_continuations (note_failure f c) = uf_continuations f"
  by (auto simp: note_failure_def Let_def same_identity_def split: option.split client_credential.split)

lemma on_auth_result_discloses:
  assumes "ca_state c \<notin> {CInitial, CAwaitingServiceAccept, CDone}"
  shows "discloses K H payload c (on_auth_result K H payload c)"
proof -
  have "discloses K H payload c (auth_succeeded c)" if "payload = SSH_MSG_USERAUTH_SUCCESS # t" for t
    using that assms by (simp add: auth_succeeded_def discloses_def same_identity_def)
  moreover have "discloses K H payload c (advance_to_next_credential K H (note_failure f c))" for f
    by (rule advance_discloses) (rule note_failure_fields)+
  ultimately show ?thesis
    by (auto simp: on_auth_result_def intro!: discloses_quiet split: list.split res.split)
qed

lemma send_pk_signed_discloses:
  assumes "ca_state c = CAwaitingPkOk" "userauth_pk_ok_decode payload = Ok pk_ok"
  shows "discloses K H payload c (send_pk_signed K H pk_ok c)"
proof -
  have adv: "discloses K H payload c (advance_to_next_credential K H c)" by (rule advance_discloses) auto
  show ?thesis
  proof (cases "ca_current c")
    case (Some cred)
    show ?thesis
    proof (cases cred)
      case (CredPublicKey k)
      show ?thesis
        using Some CredPublicKey adv assms
        by (auto simp: send_pk_signed_def discloses_def same_identity_def sends_signature_def split: res.split error.split)
    qed (use Some in \<open>simp_all add: send_pk_signed_def discloses_def\<close>)
  qed (simp add: send_pk_signed_def discloses_def)
qed

lemma on_kbdint_reply_discloses:
  assumes st: "ca_state c = CAwaitingKbdintResult"
  shows "discloses K H payload c (on_kbdint_reply K H payload c)"
proof -
  have "discloses K H payload c (auth_succeeded c)" if "payload = SSH_MSG_USERAUTH_SUCCESS # t" for t
    using that st by (simp add: auth_succeeded_def discloses_def same_identity_def)
  moreover have "discloses K H payload c (advance_to_next_credential K H
      (c\<lparr>server_continuations := x, last_partial_success := y, ca_current := None\<rparr>))" for x y
    by (rule advance_discloses) (simp_all add: same_identity_def)
  moreover have "discloses K H payload c
      (case ca_current c of
         None \<Rightarrow> (c, Err (Protocol ''auth: kbdint without current credential''))
       | Some (CredKeyboardInteractive r) \<Rightarrow>
           (let (responses, r) = respond H r (ir_name info) (ir_instruction info) (ir_prompts info);
                c = c\<lparr>ca_current := Some (CredKeyboardInteractive r)\<rparr>
            in if length responses \<noteq> length (ir_prompts info)
               then (c, Err (Protocol ''auth: wrong number of kbdint responses''))
               else (c, Ok (CSend (info_response_encode \<lparr>is_responses = responses\<rparr>))))
       | Some _ \<Rightarrow> (c, Err (Protocol ''auth: kbdint reply on wrong credential'')))"
    if "info_request_decode payload = Ok info" for info
    using st that
    by (auto simp: discloses_def same_identity_def sends_answers_def Let_def case_prod_unfold split: option.split client_credential.split)
  ultimately show ?thesis
    by (auto simp: on_kbdint_reply_def simp del: Let_def intro!: discloses_quiet split: list.split res.split)
qed

lemma auth_succeeded_discloses:
  "ca_state c \<notin> {CInitial, CAwaitingServiceAccept, CDone} \<Longrightarrow>
   discloses K H (SSH_MSG_USERAUTH_SUCCESS # t) c (auth_succeeded c)"
  by (simp add: auth_succeeded_def discloses_def same_identity_def)

lemma on_pk_probe_reply_discloses:
  assumes st: "ca_state c = CAwaitingPkOk"
  shows "discloses K H payload c (on_pk_probe_reply K H payload c)"
proof -
  have "discloses K H payload c (on_auth_result K H payload c)"
    by (rule on_auth_result_discloses) (simp add: st)
  moreover have "discloses K H payload c (send_pk_signed K H pk c)" if "userauth_pk_ok_decode payload = Ok pk" for pk
    using st that by (rule send_pk_signed_discloses)
  moreover have "discloses K H payload c (auth_succeeded c)" if "payload = SSH_MSG_USERAUTH_SUCCESS # t" for t
    unfolding that by (rule auth_succeeded_discloses) (simp add: st)
  ultimately show ?thesis
    by (auto simp: on_pk_probe_reply_def intro!: discloses_quiet split: list.split res.split)
qed

lemma on_packet_discloses: "discloses K H payload c (client_auth_on_packet K H payload c)"
proof (rule client_packet_cases)
  show "discloses K H payload c (advance_to_next_credential K H c)" by (rule advance_discloses) auto
qed (auto intro: discloses_quiet on_pk_probe_reply_discloses on_auth_result_discloses on_kbdint_reply_discloses)

section \<open>A changed host key\<close>

lemma auth_read_utf8_string: "auth_read_utf8 r = Ok (s, r') \<Longrightarrow> read_string r = Ok (s, r')"
  by (auto simp: auth_read_utf8_def read_bytes_capped_def read_string_def rd_bind_eq_Ok utf8_or_def split: if_splits option.splits)

definition name_fields :: "bytes rd" where
  "name_fields = rd_bind read_string (\<lambda>_. rd_bind read_string (\<lambda>_. read_string))"

lemma local_name_fields: "local_rd name_fields"
  unfolding name_fields_def by (intro local_bind local_read_string)

text \<open>A payload that a server reads as a request for the method is recognised by the gate.\<close>

lemma read_method_name:
  "read_method n r = Ok (m, r') \<Longrightarrow> (\<exists>np pw. m = AuthPassword np pw) \<Longrightarrow> n = lit ''password''"
  "read_method n r = Ok (m, r') \<Longrightarrow> (\<exists>l s. m = AuthKeyboardInteractive l s) \<Longrightarrow> n = lit ''keyboard-interactive''"
  by (auto simp: read_method_def rd_bind_eq_Ok split: if_splits)

lemma decode_request_names:
  assumes "userauth_request_decode (t # rest) = Ok req" "small (t # rest)"
  shows "t = SSH_MSG_USERAUTH_REQUEST \<and> (\<exists>n r r'. run_rd name_fields rest = Ok n \<and> read_method n r = Ok (ur_method req, r'))"
proof -
  have at: "reader_new (t # rest) = rd_at [] (t # rest)" by (simp add: reader_new_rd_at)
  have fit: "fits [] (t # rest)" using assms(2) by simp
  obtain user service n r1 r2 r3 r4 r5 where run:
    "auth_type SSH_MSG_USERAUTH_REQUEST ''auth: not USERAUTH_REQUEST'' (rd_at [] (t # rest)) = Ok ((), r1)"
    "auth_read_utf8 r1 = Ok (user, r2)" "auth_read_utf8 r2 = Ok (service, r3)" "auth_read_utf8 r3 = Ok (n, r4)"
    "read_method n r4 = Ok (ur_method req, r5)"
    using assms(1) by (auto simp: userauth_request_decode_def run_rd_def at map_res_eq_Ok rd_bind_eq_Ok)
  have t: "t = SSH_MSG_USERAUTH_REQUEST" "r1 = rd_at [t] rest"
    using run(1) fit by (auto simp: auth_type_def rd_bind_def read_u8_at rd_check_def split: if_splits)
  have names: "name_fields (rd_at [t] rest) = Ok (n, r4)"
    using run(2-4) [THEN auth_read_utf8_string] by (simp add: name_fields_def rd_bind_def t(2))
  have fit': "fits [t] rest" using fit by simp
  obtain x u where x: "rest = x @ u" "consumes name_fields x n"
    by (rule local_rdE [OF local_name_fields fit' names])
  have "run_rd name_fields rest = Ok n"
    using consumesD [OF x(2), of "[]" u] x(1) fit by (simp add: run_rd_def reader_new_rd_at small_def)
  with t(1) run(5) show ?thesis by blast
qed

lemma gate_sees_secret_methods:
  assumes "userauth_request_decode p = Ok req" "small p"
    and "(\<exists>np pw. ur_method req = AuthPassword np pw) \<or> (\<exists>l s. ur_method req = AuthKeyboardInteractive l s)"
  shows "auth_packet_blocked_after_mismatch p"
proof (cases p)
  case (Cons t rest)
  obtain n r r' where n: "run_rd name_fields rest = Ok n" "read_method n r = Ok (ur_method req, r')"
    and t: "t = SSH_MSG_USERAUTH_REQUEST"
    using decode_request_names assms(1,2) unfolding Cons by blast
  have "n = lit ''password'' \<or> n = lit ''keyboard-interactive''" using read_method_name [OF n(2)] assms(3) by blast
  then show ?thesis using n(1) t by (auto simp: Cons auth_packet_blocked_after_mismatch_def name_fields_def auth_msg_defs)
qed (use assms(1) in \<open>simp add: userauth_request_decode_def run_rd_def auth_type_def rd_bind_def read_u8_def take_bytes_def
    slice_res_def reader_new_def USIZE_LIMIT_def\<close>)

text \<open>Facts about what is sent, by induction on the loop.\<close>

lemma run_auth_turn:
  "run_auth K H mismatched (Suc n) ((payload, algs) # payloads) c outs =
     (case client_auth_on_packet K H payload (case algs of None \<Rightarrow> c | Some a \<Rightarrow> set_server_sig_algs a c) of
        (c, Err e) \<Rightarrow> (CLoginError e, outs, c)
      | (c, Panic) \<Rightarrow> (CLoginPanic, outs, c)
      | (c, Ok (CSend p)) \<Rightarrow>
          if mismatched \<and> auth_packet_blocked_after_mismatch p
          then (CLoginError (Config HOST_KEY_MISMATCH_DISABLED), outs, c)
          else run_auth K H mismatched n payloads c (outs @ [p])
      | (c, Ok CSuccess) \<Rightarrow> (CLoggedIn, outs, c)
      | (c, Ok (CFailed _ _)) \<Rightarrow> (CLoginError AuthFailed, outs, c)
      | (c, Ok (CBanner _ _)) \<Rightarrow> run_auth K H mismatched n payloads c outs
      | (c, Ok CIdle) \<Rightarrow> run_auth K H mismatched n payloads c outs)"
  by (simp add: Let_def split: prod.split res.split client_step.split)

declare run_auth.simps(3) [simp del]

lemma run_auth_unblocked:
  "\<forall>p \<in> set outs. \<not> auth_packet_blocked_after_mismatch p \<Longrightarrow>
     \<forall>p \<in> set (fst (snd (run_auth K H True n payloads c outs))). \<not> auth_packet_blocked_after_mismatch p"
proof (induction n arbitrary: payloads c outs)
  case (Suc n)
  show ?case
  proof (cases payloads)
    case (Cons x ps)
    obtain payload algs where "x = (payload, algs)" by (cases x)
    with Suc.prems show ?thesis
      by (simp add: Cons run_auth_turn split: prod.split res.split client_step.split) (intro conjI allI impI Suc.IH; simp)
  qed (use Suc.prems in simp)
qed simp

text \<open>
  Claim C23. Over a connection whose host key changed, no secret leaves the client: whatever the
  credentials, the prompts and the server's packets are, nothing that \<open>authenticate\<close> sends is read by
  a server as a password or keyboard-interactive request or is an answer to prompts.
\<close>

theorem mismatch_no_secrets:
  assumes "authenticate K H True user session_id accepted sig_algs hostbound credentials payloads = (outcome, outs)"
    and "p \<in> set outs" "small p"
  shows "(\<forall>t. p \<noteq> SSH_MSG_USERAUTH_INFO_RESPONSE # t)
    \<and> (\<forall>req np pw l s. userauth_request_decode p = Ok req \<longrightarrow>
         ur_method req \<noteq> AuthPassword np pw \<and> ur_method req \<noteq> AuthKeyboardInteractive l s)"
proof -
  have first: "\<not> auth_packet_blocked_after_mismatch (service_request_encode \<lparr>sm_service = lit ''ssh-userauth''\<rparr>)"
    by (simp add: auth_packet_blocked_after_mismatch_def service_request_encode_def encode_simps wire_simps auth_msg_defs)
  obtain c where "outs = fst (snd (run_auth K H True CLIENT_MAX_AUTH_STEPS payloads c [service_request_encode \<lparr>sm_service = lit ''ssh-userauth''\<rparr>]))"
    if "outs \<noteq> []"
    using assms(1) by (auto simp: authenticate_def client_auth_start_def Let_def case_prod_unfold split: res.splits)
  then have "\<not> auth_packet_blocked_after_mismatch p"
    using assms(2) run_auth_unblocked [of "[service_request_encode \<lparr>sm_service = lit ''ssh-userauth''\<rparr>]"] first by fastforce
  then show ?thesis
    using gate_sees_secret_methods [OF _ assms(3)]
    by (auto simp: auth_packet_blocked_after_mismatch_def split: list.splits if_splits)
qed
section \<open>Where credentials come from\<close>

text \<open>The credentials that one given to the machine can turn into: a key under another algorithm, a prompt or
  responder after it was called.\<close>

inductive derived :: "'k host_key_ops \<Rightarrow> ('p, 'r) client_hooks \<Rightarrow> ('k, 'p, 'r) client_credential set \<Rightarrow>
    ('k, 'p, 'r) client_credential \<Rightarrow> bool" for K H creds where
  given: "cred \<in> creds \<Longrightarrow> derived K H creds cred"
| other_algorithm: "derived K H creds (CredPublicKey k) \<Longrightarrow> hk_upgraded_for K k csv = Some k' \<Longrightarrow> derived K H creds (CredPublicKey k')"
| prompted: "derived K H creds (CredPasswordPrompt f) \<Longrightarrow> ask_password H f retry = (Some pw, f') \<Longrightarrow> derived K H creds (CredPasswordPrompt f')"
| responded: "derived K H creds (CredKeyboardInteractive r) \<Longrightarrow> respond H r name instr prompts = (answers, r') \<Longrightarrow>
    derived K H creds (CredKeyboardInteractive r')"

lemma derived_key:
  assumes "signing_keys K" "derived K H creds (CredPublicKey k)"
  shows "\<exists>k0. CredPublicKey k0 \<in> creds \<and> hk_public_blob K k0 = hk_public_blob K k"
  using assms(2)
proof (induction "CredPublicKey k :: ('a, 'b, 'c) client_credential" arbitrary: k rule: derived.induct)
  case (other_algorithm k csv k')
  then show ?case using signing_keys.upgraded_blob [OF assms(1), of k csv k'] by auto
qed auto

lemma derived_password: "derived K H creds (CredPassword pw) \<Longrightarrow> CredPassword pw \<in> creds"
  by (erule derived.cases) auto

lemma derived_kind:
  "derived K H creds cred \<Longrightarrow> \<exists>cred0 \<in> creds. cred_method_name cred0 = cred_method_name cred"
  by (induction rule: derived.induct) auto

lemma local_policy_derived: "local_policy K a cred = Some u \<Longrightarrow> derived K H creds cred \<Longrightarrow> derived K H creds u"
  by (auto simp: local_policy_def Let_def split: client_credential.splits option.splits if_splits intro: other_algorithm)

lemma legacy_rsa_derived: "derived K H creds cred \<Longrightarrow> derived K H creds (legacy_rsa K s a cred)"
  by (auto simp: legacy_rsa_def split: client_credential.splits option.splits intro: other_algorithm)

lemma server_filter_derived: "server_filter K s cred = Some u \<Longrightarrow> derived K H creds cred \<Longrightarrow> derived K H creds u"
  by (auto simp: server_filter_def split: client_credential.splits option.splits if_splits intro: other_algorithm)

lemma usable_derived:
  assumes "usable_credential K c cred = Some u" "derived K H creds cred"
  shows "derived K H creds u"
proof -
  obtain v where v: "local_policy K (pubkey_accepted c) cred = Some v"
    "server_filter K (server_sig_algs c) (legacy_rsa K (server_sig_algs c) (pubkey_accepted c) v) = Some u"
    using assms(1) by (auto simp: usable_credential_def bind_eq_Some_conv split: if_splits)
  have "derived K H creds (legacy_rsa K (server_sig_algs c) (pubkey_accepted c) v)"
    by (rule legacy_rsa_derived, rule local_policy_derived [OF v(1) assms(2)])
  then show ?thesis by (rule server_filter_derived [OF v(2)])
qed

lemma request_of_derived:
  "request_of K H retry u = Some (m, cred, s) \<Longrightarrow> derived K H creds u \<Longrightarrow> derived K H creds cred"
  by (cases u) (auto split: prod.splits option.splits intro: prompted)

definition all_derived :: "'k host_key_ops \<Rightarrow> ('p, 'r) client_hooks \<Rightarrow> ('k, 'p, 'r) client_credential set \<Rightarrow> ('k, 'p, 'r) client_auth \<Rightarrow> bool" where
  "all_derived K H creds c \<longleftrightarrow> (\<forall>cred \<in> set (ca_credentials c) \<union> set_option (ca_current c). derived K H creds cred)"

lemma advance_derived:
  assumes "\<forall>cred \<in> set (ca_credentials c). derived K H creds cred"
    and "\<forall>cred \<in> set_option (ca_current c). derived K H creds cred"
  shows "all_derived K H creds (fst (advance_to_next_credential K H c))"
  using assms
proof (induction "length (ca_credentials c)" arbitrary: c rule: less_induct)
  case less
  show ?case
  proof (cases "ca_credentials c")
    case Nil
    with less.prems show ?thesis by (subst advance_to_next_credential.simps) (simp add: all_derived_def)
  next
    case (Cons cred0 rest)
    have step: "all_derived K H creds (fst (advance_to_next_credential K H c1))"
      if "ca_credentials c1 = rest" "\<forall>cred \<in> set_option (ca_current c1). derived K H creds cred" for c1
      by (rule less.hyps) (use that Cons less.prems in auto)
    show ?thesis
    proof (cases "usable_credential K c cred0")
      case None
      with Cons step [of "c\<lparr>ca_credentials := rest\<rparr>"] less.prems show ?thesis
        by (subst advance_to_next_credential.simps) (simp add: usable_frame)
    next
      case (Some u)
      then have u: "derived K H creds u" using usable_derived Cons less.prems(1) by fastforce
      have "all_derived K H creds (fst (emit_current_request K H (c\<lparr>ca_credentials := rest, ca_current := Some u\<rparr>)))"
        using step [of "c\<lparr>ca_credentials := rest, ca_current := None, password_retry := False\<rparr>"] u Cons less.prems(1)
        by (auto simp: emit_current all_derived_def request_of_derived split: option.split)
      with Some Cons show ?thesis by (subst advance_to_next_credential.simps) (simp add: usable_frame)
    qed
  qed
qed

lemma all_derivedD:
  "all_derived K H creds c \<Longrightarrow> cred \<in> set (ca_credentials c) \<Longrightarrow> derived K H creds cred"
  "all_derived K H creds c \<Longrightarrow> ca_current c = Some cred \<Longrightarrow> derived K H creds cred"
  by (auto simp: all_derived_def)

lemma note_failure_derived:
  assumes "all_derived K H creds c"
  shows "all_derived K H creds (fst (advance_to_next_credential K H (note_failure f c)))"
proof (rule advance_derived)
  have "set (ca_credentials (note_failure f c)) \<subseteq> set (ca_credentials c) \<union> set_option (ca_current c)"
    by (rule note_failure_fields)
  then show "\<forall>cred \<in> set (ca_credentials (note_failure f c)). derived K H creds cred"
    using assms by (auto simp: all_derived_def)
  show "\<forall>cred \<in> set_option (ca_current (note_failure f c)). derived K H creds cred"
    by (simp add: note_failure_def Let_def split: option.split client_credential.split)
qed

lemma on_packet_derived:
  assumes inv: "all_derived K H creds c"
  shows "all_derived K H creds (fst (client_auth_on_packet K H payload c))"
proof -
  note adv = advance_derived [of _ K H creds]
  have c: "\<forall>cred \<in> set (ca_credentials c). derived K H creds cred" "\<forall>cred \<in> set_option (ca_current c). derived K H creds cred"
    using inv by (auto simp: all_derived_def)
  have succ: "all_derived K H creds (fst (auth_succeeded c))" using c by (simp add: auth_succeeded_def all_derived_def)
  have result: "all_derived K H creds (fst (on_auth_result K H payload c))"
    using inv succ note_failure_derived [OF inv] by (simp add: on_auth_result_def split: list.split res.split)
  have signed: "all_derived K H creds (fst (send_pk_signed K H pk c))" for pk
    using inv adv [OF c] by (simp add: send_pk_signed_def all_derived_def split: option.split client_credential.split res.split error.split)
  have answered: "all_derived K H creds (fst (on_kbdint_reply K H payload c))"
    using inv succ adv [of "c\<lparr>server_continuations := x, last_partial_success := y, ca_current := None\<rparr>" for x y] c
    by (simp add: on_kbdint_reply_def Let_def split: list.split res.split option.split client_credential.split prod.split)
      (auto simp: all_derived_def intro: responded)
  show ?thesis
  proof (rule client_packet_cases)
    show "all_derived K H creds (fst (on_pk_probe_reply K H payload c))"
      using inv result signed succ by (simp add: on_pk_probe_reply_def split: list.split res.split)
  qed (use inv adv [OF c] result answered in simp_all)
qed

lemma advance_no_panic: "snd (advance_to_next_credential K H c) \<noteq> Panic"
  using advance_offers [of K H c] by (auto simp: offers_def gives_up_def)

lemma on_packet_no_panic:
  assumes "signing_keys K"
  shows "snd (client_auth_on_packet K H payload c) \<noteq> Panic"
proof -
  note total = auth_decoders_total decode_success_total advance_no_panic
  have signed: "snd (send_pk_signed K H pk c) \<noteq> Panic" for pk
    using signing_keys.sign_total [OF assms]
    by (simp add: send_pk_signed_def total split: option.split client_credential.split res.split error.split)
  have result: "snd (on_auth_result K H payload c) \<noteq> Panic" if "payload \<noteq> []"
    using that by (simp add: on_auth_result_def auth_succeeded_def total split: list.split res.split)
  show ?thesis
  proof (rule client_packet_cases)
    assume "payload \<noteq> []"
    then show "snd (on_pk_probe_reply K H payload c) \<noteq> Panic"
      using signed result by (simp add: on_pk_probe_reply_def auth_succeeded_def total split: list.split res.split)
  next
    assume "payload \<noteq> []"
    then show "snd (on_kbdint_reply K H payload c) \<noteq> Panic"
      by (simp add: on_kbdint_reply_def auth_succeeded_def total Let_def
        split: list.split res.split option.split client_credential.split prod.split)
  qed (use result in \<open>simp_all add: total\<close>)
qed
section \<open>A whole login\<close>

text \<open>
  The requests that a list of credentials justifies: without proof of possession, with a signature, and
  the answers to prompts. The last two need a message from the server that asks for them.
\<close>

definition request_for :: "rust_str \<Rightarrow> auth_method_payload \<Rightarrow> bytes" where
  "request_for user m = userauth_request_encode \<lparr>ur_user = user, ur_service = lit ''ssh-connection'', ur_method = m\<rparr>"

definition asks_first :: "'k host_key_ops \<Rightarrow> ('p, 'r) client_hooks \<Rightarrow> ('k, 'p, 'r) client_credential set \<Rightarrow> rust_str \<Rightarrow> bytes \<Rightarrow> bool" where
  "asks_first K H creds user p \<longleftrightarrow>
     (CredNone \<in> creds \<and> p = request_for user AuthNone)
     \<or> (\<exists>pw. CredPassword pw \<in> creds \<and> p = request_for user (AuthPassword None pw))
     \<or> (\<exists>f retry pw f'. derived K H creds (CredPasswordPrompt f) \<and> ask_password H f retry = (Some pw, f')
           \<and> p = request_for user (AuthPassword None pw))
     \<or> (\<exists>r. derived K H creds (CredKeyboardInteractive r) \<and> p = request_for user (AuthKeyboardInteractive [] (submethods H r)))
     \<or> (\<exists>k0 k. CredPublicKey k0 \<in> creds \<and> hk_public_blob K k = hk_public_blob K k0
           \<and> p = request_for user (AuthPublicKey False (hk_algorithm K k) (hk_public_blob K k0) None None))"

definition proves_key :: "'k host_key_ops \<Rightarrow> ('k, 'p, 'r) client_credential set \<Rightarrow> rust_str \<Rightarrow> bytes \<Rightarrow> bytes option \<Rightarrow> bytes set \<Rightarrow> bytes \<Rightarrow> bool" where
  "proves_key K creds user session_id hostbound received p \<longleftrightarrow> (\<exists>k0 k sig. CredPublicKey k0 \<in> creds \<and> hk_public_blob K k = hk_public_blob K k0
     \<and> (\<exists>q \<in> received. userauth_pk_ok_decode q = Ok \<lparr>pk_algorithm = hk_algorithm K k, pk_public_blob = hk_public_blob K k0\<rparr>)
     \<and> hk_sign K k (publickey_signed_data_bound session_id user (lit ''ssh-connection'') (hk_algorithm K k) (hk_public_blob K k0) hostbound) = Ok sig
     \<and> p = request_for user (AuthPublicKey True (hk_algorithm K k) (hk_public_blob K k0) (Some sig) hostbound))"

definition answers_prompts :: "'k host_key_ops \<Rightarrow> ('p, 'r) client_hooks \<Rightarrow> ('k, 'p, 'r) client_credential set \<Rightarrow> bytes set \<Rightarrow> bytes \<Rightarrow> bool" where
  "answers_prompts K H creds received p \<longleftrightarrow> (\<exists>r info answers r'. derived K H creds (CredKeyboardInteractive r)
     \<and> (\<exists>q \<in> received. info_request_decode q = Ok info)
     \<and> respond H r (ir_name info) (ir_instruction info) (ir_prompts info) = (answers, r')
     \<and> length answers = length (ir_prompts info) \<and> p = info_response_encode \<lparr>is_responses = answers\<rparr>)"

definition justified :: "'k host_key_ops \<Rightarrow> ('p, 'r) client_hooks \<Rightarrow> ('k, 'p, 'r) client_credential set \<Rightarrow> rust_str \<Rightarrow> bytes \<Rightarrow> bytes option \<Rightarrow>
    bytes set \<Rightarrow> bytes \<Rightarrow> bool" where
  "justified K H creds user session_id hostbound received p \<longleftrightarrow> asks_first K H creds user p
     \<or> proves_key K creds user session_id hostbound received p \<or> answers_prompts K H creds received p"

definition login_of :: "'k host_key_ops \<Rightarrow> ('p, 'r) client_hooks \<Rightarrow> ('k, 'p, 'r) client_credential set \<Rightarrow> rust_str \<Rightarrow> bytes \<Rightarrow> bytes option \<Rightarrow>
    ('k, 'p, 'r) client_auth \<Rightarrow> bool" where
  "login_of K H creds user session_id hostbound c \<longleftrightarrow> all_derived K H creds c \<and> ca_user c = user
     \<and> ca_service c = lit ''ssh-connection'' \<and> ca_session_id c = session_id \<and> ca_hostbound c = hostbound"

lemma login_of_request: "login_of K H creds user session_id hostbound c \<Longrightarrow> client_request c = request_for user"
  by (simp add: login_of_def client_request_def request_for_def fun_eq_iff)

lemma offer_justified:
  assumes K: "signing_keys K" and inv: "login_of K H creds user session_id hostbound c" and offer: "sends_offer K H c c' p"
  shows "asks_first K H creds user p"
proof -
  obtain cred0 u retry m cred where o: "cred0 \<in> set (ca_credentials c) \<union> set_option (ca_current c)"
    "usable_credential K c' cred0 = Some u" "request_of K H retry u = Some (m, cred, ca_state c')" "p = client_request c m"
    using offer unfolding sends_offer_def by blast
  have "derived K H creds cred0" using o(1) inv by (auto simp: login_of_def all_derived_def)
  then have u: "derived K H creds u" using o(2) by (rule usable_derived [rotated])
  have p: "p = request_for user m" using o(4) login_of_request [OF inv] by simp
  show ?thesis
  proof (cases u)
    case CredNone
    have "CredNone \<in> creds" using u unfolding CredNone by (rule derived.cases) auto
    then show ?thesis using o(3) p CredNone by (auto simp: asks_first_def)
  next
    case (CredPassword pw)
    then show ?thesis using o(3) p u derived_password [of K H creds pw] by (auto simp: asks_first_def)
  next
    case (CredPasswordPrompt f)
    then obtain pw f' where "ask_password H f retry = (Some pw, f')" "m = AuthPassword None pw"
      using o(3) by (auto split: prod.splits option.splits)
    then show ?thesis unfolding asks_first_def using p u CredPasswordPrompt by blast
  next
    case (CredPublicKey k)
    then show ?thesis using o(3) p derived_key [OF K, of H creds k] u by (fastforce simp: asks_first_def)
  next
    case (CredKeyboardInteractive r)
    then show ?thesis using o(3) p u by (auto simp: asks_first_def)
  qed
qed

lemma signature_justified:
  assumes K: "signing_keys K" and inv: "login_of K H creds user session_id hostbound c" and sig: "sends_signature K c payload p"
  shows "proves_key K creds user session_id hostbound {payload} p"
proof -
  obtain k pk sig where s: "ca_current c = Some (CredPublicKey k)" "userauth_pk_ok_decode payload = Ok pk"
    "pk_algorithm pk = hk_algorithm K k" "pk_public_blob pk = hk_public_blob K k"
    "hk_sign K k (publickey_signed_data_bound session_id user (lit ''ssh-connection'') (hk_algorithm K k) (hk_public_blob K k) hostbound) = Ok sig"
    "p = request_for user (AuthPublicKey True (hk_algorithm K k) (hk_public_blob K k) (Some sig) hostbound)"
    using sig inv login_of_request [OF inv] unfolding sends_signature_def login_of_def by auto
  have "derived K H creds (CredPublicKey k)" using s(1) inv by (simp add: login_of_def all_derived_def)
  then obtain k0 where "CredPublicKey k0 \<in> creds" "hk_public_blob K k0 = hk_public_blob K k" using derived_key [OF K] by blast
  moreover have "pk = \<lparr>pk_algorithm = hk_algorithm K k, pk_public_blob = hk_public_blob K k\<rparr>" using s(3,4) by simp
  ultimately show ?thesis unfolding proves_key_def using s(2,5,6) by (intro exI [of _ k0] exI [of _ sig] exI [of _ k]) simp
qed

lemma answers_justified:
  "login_of K H creds user session_id hostbound c \<Longrightarrow> sends_answers H c payload p \<Longrightarrow> answers_prompts K H creds {payload} p"
  unfolding sends_answers_def answers_prompts_def login_of_def all_derived_def by (fastforce simp: prod_eq_iff)

lemma justified_mono: "justified K H creds user session_id hostbound A p \<Longrightarrow> A \<subseteq> B \<Longrightarrow> justified K H creds user session_id hostbound B p"
  unfolding justified_def proves_key_def answers_prompts_def by blast

lemma on_packet_login:
  assumes K: "signing_keys K" and inv: "login_of K H creds user session_id hostbound c"
    and run: "client_auth_on_packet K H payload c = (c', r)"
  shows "login_of K H creds user session_id hostbound c'" "r \<noteq> Panic"
    "r = Ok (CSend p) \<Longrightarrow> justified K H creds user session_id hostbound {payload} p"
    "r = Ok CSuccess \<Longrightarrow> hd payload = SSH_MSG_USERAUTH_SUCCESS \<and> payload \<noteq> []"
proof -
  have d: "discloses K H payload c (c', r)" using on_packet_discloses [of K H payload c] by (simp add: run)
  have "all_derived K H creds c'" using on_packet_derived [of K H creds c payload] inv by (simp add: run login_of_def)
  then show "login_of K H creds user session_id hostbound c'"
    using d inv by (simp add: discloses_def same_identity_def login_of_def)
  show "r \<noteq> Panic" using on_packet_no_panic [OF K, of H payload c] by (simp add: run)
  show "justified K H creds user session_id hostbound {payload} p" if "r = Ok (CSend p)"
    using d that offer_justified [OF K inv] signature_justified [OF K inv] answers_justified [OF inv]
    by (auto simp: discloses_def justified_def)
  show "hd payload = SSH_MSG_USERAUTH_SUCCESS \<and> payload \<noteq> []" if "r = Ok CSuccess"
    using d that by (simp add: discloses_def)
qed

lemma run_auth_login:
  assumes K: "signing_keys K" and inv: "login_of K H creds user session_id hostbound c"
    and outs: "\<forall>p \<in> set outs. good p" and good: "\<And>p. justified K H creds user session_id hostbound (fst ` set payloads) p \<Longrightarrow> good p"
    and run: "run_auth K H mismatched n payloads c outs = (outcome, outs', c')"
  shows "outcome \<noteq> CLoginPanic \<and> (outcome = CLoggedIn \<longrightarrow> (\<exists>q \<in> fst ` set payloads. q \<noteq> [] \<and> hd q = SSH_MSG_USERAUTH_SUCCESS))
     \<and> (\<forall>p \<in> set outs'. good p)"
  using inv outs good run
proof (induction n arbitrary: payloads c outs)
  case (Suc n)
  show ?case
  proof (cases payloads)
    case (Cons x ps)
    obtain payload algs where x: "x = (payload, algs)" by (cases x)
    define c0 where "c0 = (case algs of None \<Rightarrow> c | Some a \<Rightarrow> set_server_sig_algs a c)"
    have c0: "login_of K H creds user session_id hostbound c0"
      using Suc.prems(1) by (simp add: c0_def login_of_def all_derived_def set_server_sig_algs_def split: option.split)
    obtain c1 r where r: "client_auth_on_packet K H payload c0 = (c1, r)" by fastforce
    note step = on_packet_login [OF K c0 r]
    have mono: "good p" if "justified K H creds user session_id hostbound A p" "A \<subseteq> insert payload (fst ` set ps)" for A p
      using justified_mono [OF that(1)] that(2) by (intro Suc.prems(3)) (simp add: Cons x)
    have rest: "good p" if "justified K H creds user session_id hostbound (fst ` set ps) p" for p
      using that by (rule mono) blast
    have ih: "outcome \<noteq> CLoginPanic \<and> (outcome = CLoggedIn \<longrightarrow> (\<exists>q \<in> fst ` set payloads. q \<noteq> [] \<and> hd q = SSH_MSG_USERAUTH_SUCCESS))
        \<and> (\<forall>p \<in> set outs'. good p)"
      if "run_auth K H mismatched n ps c1 o1 = (outcome, outs', c')" "\<forall>p \<in> set o1. good p" for o1
      using Suc.IH [OF step(1) that(2) rest that(1)] by (auto simp: Cons x)
    have turn: "run_auth K H mismatched (Suc n) payloads c outs = (outcome, outs', c')" by (rule Suc.prems(4))
    show ?thesis
    proof (cases r)
      case (Ok s)
      note turned = turn [unfolded Cons x run_auth_turn, folded c0_def, unfolded r Ok, simplified]
      show ?thesis
      proof (cases s)
        case (CSend p)
        have "good p" by (rule mono [OF step(3)]) (simp_all add: Ok CSend)
        then show ?thesis
          using turned ih [of "outs @ [p]"] Suc.prems(2) by (cases "mismatched \<and> auth_packet_blocked_after_mismatch p") (auto simp: CSend)
      next
        case CSuccess
        then show ?thesis using turned step(4) Ok Suc.prems(2) by (simp add: Cons x)
      qed (use turned ih [of outs] Suc.prems(2) in auto)
    qed (use turn step(2) Suc.prems(2) in \<open>auto simp: Cons x run_auth_turn c0_def [symmetric] r\<close>)
  qed (use Suc.prems in auto)
qed auto

lemma foldl_add_credential: "foldl (\<lambda>c cred. add_credential cred c) c creds = c\<lparr>ca_credentials := ca_credentials c @ creds\<rparr>"
  by (induction creds arbitrary: c) (simp_all add: add_credential_def)

lemma filter_mismatch_subset: "filter_credentials_after_mismatch creds = Ok kept \<Longrightarrow> set kept \<subseteq> set creds"
  by (auto simp: filter_credentials_after_mismatch_def Let_def split: if_splits)

text \<open>The machine that the loop starts with.\<close>

definition client_start :: "rust_str \<Rightarrow> bytes \<Rightarrow> rust_str list option \<Rightarrow> rust_str option \<Rightarrow> bytes option \<Rightarrow>
    ('k, 'p, 'r) client_credential list \<Rightarrow> ('k, 'p, 'r) client_auth" where
  "client_start user session_id accepted sig_algs hostbound creds =
     \<lparr>ca_user = user, ca_service = lit ''ssh-connection'', ca_session_id = session_id, ca_credentials = creds,
      ca_current = None, server_continuations = [], last_partial_success = False, password_retry = False,
      ca_state = CAwaitingServiceAccept, server_sig_algs = map_option (\<lambda>csv. filter (\<lambda>s. s \<noteq> []) (csv_names csv)) sig_algs,
      pubkey_accepted = accepted, ca_hostbound = hostbound\<rparr>"

lemma authenticate_eq:
  "authenticate K H mismatched user session_id accepted sig_algs hostbound credentials payloads =
     (case (if mismatched then filter_credentials_after_mismatch credentials else Ok credentials) of
        Err e \<Rightarrow> (CLoginError e, [])
      | Panic \<Rightarrow> (CLoginPanic, [])
      | Ok creds \<Rightarrow>
          (let (outcome, outs, _) = run_auth K H mismatched CLIENT_MAX_AUTH_STEPS payloads
                 (client_start user session_id accepted sig_algs hostbound creds)
                 [service_request_encode \<lparr>sm_service = lit ''ssh-userauth''\<rparr>]
           in (outcome, outs)))"
  by (cases accepted; cases sig_algs; cases hostbound)
    (simp_all add: authenticate_def Let_def client_auth_start_def client_start_def foldl_add_credential set_hostbound_def
      set_server_sig_algs_def set_pubkey_accepted_def client_auth_new_def split: res.split)

text \<open>
  Claim C22. What a login can disclose: everything \<open>authenticate\<close> sends, whatever the server answers, is
  the service request, a first request for one of the given credentials, a signature by one of the given
  keys over this session's identifier, user and host key that the server asked for under the key's
  name, or answers to prompts, one for each. It does not panic, and it reports success only after the
  server's SUCCESS message.
\<close>

theorem client_discloses:
  assumes K: "signing_keys K"
    and run: "authenticate K H mismatched user session_id accepted sig_algs hostbound credentials payloads = (outcome, outs)"
  shows "outcome \<noteq> CLoginPanic
    \<and> (outcome = CLoggedIn \<longrightarrow> (\<exists>q \<in> fst ` set payloads. q \<noteq> [] \<and> hd q = SSH_MSG_USERAUTH_SUCCESS))
    \<and> (\<forall>p \<in> set outs. p = service_request_encode \<lparr>sm_service = lit ''ssh-userauth''\<rparr>
         \<or> justified K H (set credentials) user session_id hostbound (fst ` set payloads) p)"
proof (cases "if mismatched then filter_credentials_after_mismatch credentials else Ok credentials")
  case (Ok creds)
  have sub: "set creds \<subseteq> set credentials" using Ok filter_mismatch_subset by (auto split: if_splits)
  let ?c = "client_start user session_id accepted sig_algs hostbound creds"
  obtain c' where r: "run_auth K H mismatched CLIENT_MAX_AUTH_STEPS payloads ?c
      [service_request_encode \<lparr>sm_service = lit ''ssh-userauth''\<rparr>] = (outcome, outs, c')"
    using run Ok by (auto simp: authenticate_eq split: prod.splits)
  have "login_of K H (set credentials) user session_id hostbound ?c"
    using sub by (auto simp: login_of_def all_derived_def client_start_def intro: derived.given)
  from run_auth_login [OF K this _ _ r, where good = "\<lambda>p. p = service_request_encode \<lparr>sm_service = lit ''ssh-userauth''\<rparr>
         \<or> justified K H (set credentials) user session_id hostbound (fst ` set payloads) p"]
  show ?thesis by simp
qed (use run in \<open>auto simp: authenticate_eq filter_credentials_after_mismatch_def Let_def split: if_splits\<close>)

end
