(* ===== verification/CertProps.thy ===== *)
theory CertProps
  imports Certs
begin

text \<open>
  Properties of certificates: the parser never panics and bounds what it accepts, the CA's signature
  covers every field, a certificate made by the builder parses back to what it was built from, and
  the checks do what they say.
\<close>

section \<open>Panic freedom\<close>

lemma parse_string_list_loop_no_panic:
  "remaining r \<le> fuel \<Longrightarrow> parse_string_list_loop fuel out r \<noteq> Panic"
proof (induction fuel arbitrary: out r)
  case 0
  then show ?case by (simp add: parse_string_list_loop.simps reader_is_empty_def)
next
  case (Suc fuel)
  show ?case
  proof (cases "read_string r")
    case (Ok er)
    obtain elem r' where "er = (elem, r')" by (cases er)
    with Ok Suc.prems read_string_moves [of r elem r'] have "remaining r' \<le> fuel" by simp
    from Suc.IH [OF this] show ?thesis
      using Ok \<open>er = (elem, r')\<close>
      by (simp add: parse_string_list_loop.simps [of "Suc fuel"] rd_bind_def utf8_or_def split: option.split)
  next
    case Panic
    with safe_read_string show ?thesis by (auto simp: safe_rd_def)
  qed (simp add: parse_string_list_loop.simps [of "Suc fuel"] rd_bind_def)
qed

lemma parse_pair_list_loop_no_panic:
  "remaining r \<le> fuel \<Longrightarrow> parse_pair_list_loop fuel out r \<noteq> Panic"
proof (induction fuel arbitrary: out r)
  case 0
  then show ?case by (simp add: parse_pair_list_loop.simps reader_is_empty_def)
next
  case (Suc fuel)
  have safe: "read_string q \<noteq> Panic" for q using safe_read_string by (auto simp: safe_rd_def)
  have step: "remaining r2 \<le> fuel" if "read_string r = Ok (n, r1)" "read_string r1 = Ok (d, r2)" for n d r1 r2
    using that Suc.prems by (auto dest!: read_string_moves)
  show ?case
    by (auto simp: parse_pair_list_loop.simps [of "Suc fuel"] rd_bind_def bind_res_def utf8_or_def safe
      Suc.IH [OF step] split: res.split option.split)
qed

lemma remaining_new: "remaining (reader_new b) = length b"
  by (simp add: reader_new_def remaining_def)

lemma parse_string_list_no_panic: "parse_string_list b \<noteq> Panic"
  using parse_string_list_loop_no_panic [of "reader_new b" "length b" "[]"]
  by (simp add: parse_string_list_def remaining_new)

lemma parse_pair_list_no_panic: "parse_pair_list b \<noteq> Panic"
  using parse_pair_list_loop_no_panic [of "reader_new b" "length b" "[]"]
  by (simp add: parse_pair_list_def remaining_new)

lemma safe_read_capped: "safe_rd (read_capped cap what)"
  unfolding read_capped_def by (intro safe_rd_bind safe_read_string) (simp add: safe_reads)

lemma mpint_to_uint_no_panic: "mpint_to_uint msg m \<noteq> Panic"
  by (simp add: mpint_to_uint_def split: list.split)

lemma rsa_checks_no_panic: "check_rsa_modulus_mpint m \<noteq> Panic" "check_rsa_exponent_mpint m \<noteq> Panic"
  using mpint_to_uint_no_panic [of _ m]
  by (auto simp: check_rsa_modulus_mpint_def check_rsa_exponent_mpint_def bind_res_eq_Panic split: if_splits)

lemma mldsa_from_public_no_panic: "mldsa_from_public b \<noteq> Panic"
  by (simp add: mldsa_from_public_def)

lemma cert_type_from_u32_no_panic: "cert_type_from_u32 v \<noteq> Panic"
  by (simp add: cert_type_from_u32_def)

lemmas safe_cert_reads = safe_decoders safe_rd_res safe_utf8_or safe_read_capped rsa_checks_no_panic
  mldsa_from_public_no_panic cert_type_from_u32_no_panic parse_string_list_no_panic parse_pair_list_no_panic

lemma ecdsa_blob_plain:
  "blob_type_to_plain (lit ''ecdsa-sha2-nistp256-cert-v01@openssh.com'') = Some (lit ''ecdsa-sha2-nistp256'')"
  "blob_type_to_plain (lit ''ecdsa-sha2-nistp384-cert-v01@openssh.com'') = Some (lit ''ecdsa-sha2-nistp384'')"
  "blob_type_to_plain (lit ''ecdsa-sha2-nistp521-cert-v01@openssh.com'') = Some (lit ''ecdsa-sha2-nistp521'')"
  by code_simp+

lemma ecdsa_curve:
  "want_curve (lit ''ecdsa-sha2-nistp256'') = Ok (lit ''nistp256'')"
  "want_curve (lit ''ecdsa-sha2-nistp384'') = Ok (lit ''nistp384'')"
  "want_curve (lit ''ecdsa-sha2-nistp521'') = Ok (lit ''nistp521'')"
  by code_simp+

text \<open>The arm for the ECDSA types, with its two lookups resolved.\<close>

definition read_ecdsa_pubkey :: "rust_str \<Rightarrow> rust_str \<Rightarrow> bytes rd" where
  "read_ecdsa_pubkey plain want =
     rd_bind read_string (\<lambda>curve. rd_bind read_string (\<lambda>point.
     rd_bind (rd_check (curve = want) (Format ''cert: ecdsa curve mismatch'')) (\<lambda>_.
       rd_ok (into_vec (write_string point (write_string curve (write_string plain writer_new)))))))"

lemma rd_bind_res_Ok: "rd_bind (rd_res (Ok x)) f = f x"
  by (simp add: fun_eq_iff rd_res_Ok)

lemma read_embedded_ecdsa:
  "read_embedded_pubkey (lit ''ecdsa-sha2-nistp256-cert-v01@openssh.com'') = read_ecdsa_pubkey (lit ''ecdsa-sha2-nistp256'') (lit ''nistp256'')"
  "read_embedded_pubkey (lit ''ecdsa-sha2-nistp384-cert-v01@openssh.com'') = read_ecdsa_pubkey (lit ''ecdsa-sha2-nistp384'') (lit ''nistp384'')"
  "read_embedded_pubkey (lit ''ecdsa-sha2-nistp521-cert-v01@openssh.com'') = read_ecdsa_pubkey (lit ''ecdsa-sha2-nistp521'') (lit ''nistp521'')"
  by (simp_all add: read_embedded_pubkey_def ecdsa_blob_plain expect_def ecdsa_curve rd_bind_res_Ok read_ecdsa_pubkey_def)

lemma read_embedded_cases:
  assumes "Q (read_ecdsa_pubkey (lit ''ecdsa-sha2-nistp256'') (lit ''nistp256''))"
    "Q (read_ecdsa_pubkey (lit ''ecdsa-sha2-nistp384'') (lit ''nistp384''))"
    "Q (read_ecdsa_pubkey (lit ''ecdsa-sha2-nistp521'') (lit ''nistp521''))"
    "\<lbrakk>kt \<noteq> lit ''ecdsa-sha2-nistp256-cert-v01@openssh.com''; kt \<noteq> lit ''ecdsa-sha2-nistp384-cert-v01@openssh.com'';
      kt \<noteq> lit ''ecdsa-sha2-nistp521-cert-v01@openssh.com''\<rbrakk> \<Longrightarrow> Q (read_embedded_pubkey kt)"
  shows "Q (read_embedded_pubkey kt)"
  using assms read_embedded_ecdsa by metis

lemma safe_read_embedded_pubkey: "safe_rd (read_embedded_pubkey kt)"
proof (rule read_embedded_cases)
  assume "kt \<noteq> lit ''ecdsa-sha2-nistp256-cert-v01@openssh.com''" "kt \<noteq> lit ''ecdsa-sha2-nistp384-cert-v01@openssh.com''"
      "kt \<noteq> lit ''ecdsa-sha2-nistp521-cert-v01@openssh.com''"
  then show "safe_rd (read_embedded_pubkey kt)"
    unfolding read_embedded_pubkey_def
    by (simp only: simp_thms if_False split: if_split) (intro conjI impI safe_cert_reads)
qed (unfold read_ecdsa_pubkey_def, (intro safe_cert_reads)+)

lemma safe_read_signed_part: "safe_rd read_signed_part"
  unfolding read_signed_part_def by (intro safe_cert_reads safe_read_embedded_pubkey)

section \<open>The signature covers every field\<close>

lemma local_utf8_or: "local_rd (utf8_or msg b)"
  by (simp add: utf8_or_def local_reads split: option.split)

lemma local_read_capped: "local_rd (read_capped cap what)"
  unfolding read_capped_def by (intro local_bind local_read_string) (simp add: local_reads)

lemmas local_cert_reads = local_reads local_utf8_or local_read_capped

lemma local_read_embedded_pubkey: "local_rd (read_embedded_pubkey kt)"
proof (rule read_embedded_cases)
  assume "kt \<noteq> lit ''ecdsa-sha2-nistp256-cert-v01@openssh.com''" "kt \<noteq> lit ''ecdsa-sha2-nistp384-cert-v01@openssh.com''"
      "kt \<noteq> lit ''ecdsa-sha2-nistp521-cert-v01@openssh.com''"
  then show "local_rd (read_embedded_pubkey kt)"
    unfolding read_embedded_pubkey_def
    by (simp only: simp_thms if_False split: if_split) (intro conjI impI local_cert_reads)
qed (unfold read_ecdsa_pubkey_def, (intro local_cert_reads)+)

lemma local_read_signed_part: "local_rd read_signed_part"
  unfolding read_signed_part_def by (intro local_cert_reads local_read_embedded_pubkey)

text \<open>The shape of a parsed certificate: the signed part, the signature, nothing behind it.\<close>

definition signed_region :: "certificate \<Rightarrow> bytes" where
  "signed_region c = take (ct_signed_len c) (ct_raw c)"

definition unsigned_fields :: "certificate \<Rightarrow> certificate" where
  "unsigned_fields c = c\<lparr>ct_signature := [], ct_signed_len := 0, ct_raw := []\<rparr>"

lemma read_signed_part_blank:
  "read_signed_part r = Ok (c, r') \<Longrightarrow> ct_signature c = [] \<and> ct_signed_len c = 0 \<and> ct_raw c = []"
  by (auto simp: read_signed_part_def rd_bind_eq_Ok)

lemma blob_small: "length b \<le> MAX_CERT_BLOB \<Longrightarrow> small b"
  by (simp add: MAX_CERT_BLOB_def small_def USIZE_LIMIT_def)

lemma small_prefix: "small (x @ y) \<Longrightarrow> small x"
  by (simp add: small_def)

lemma certificate_parse_shape:
  assumes "certificate_parse b = Ok c"
  shows "length b \<le> MAX_CERT_BLOB \<and> ct_raw c = b \<and> ct_signed_len c \<le> length b
    \<and> b = signed_region c @ enc_string (ct_signature c) \<and> length (ct_signature c) \<le> MAX_LIST_ELEM
    \<and> consumes read_signed_part (signed_region c) (unsigned_fields c)"
proof -
  have len: "length b \<le> MAX_CERT_BLOB" using assms by (simp add: certificate_parse_def split: if_splits)
  note small = blob_small [OF len]
  obtain c0 r1 r2 sig n where part: "read_signed_part (rd_at [] b) = Ok (c0, r1)"
    and n: "sub_res (length b) (remaining r1) = Ok n"
    and sig: "read_string r1 = Ok (sig, r2)" "length sig \<le> MAX_LIST_ELEM" "reader_is_empty r2"
    and c: "c = c0\<lparr>ct_signature := sig, ct_signed_len := n, ct_raw := b\<rparr>"
    using assms len
    by (auto simp: certificate_parse_def run_rd_def map_res_eq_Ok rd_bind_eq_Ok bind_res_eq_Ok read_capped_def
      rd_end_def reader_new_rd_at split: if_splits)
  obtain x t where x: "b = x @ t" "r1 = rd_at x t" "consumes read_signed_part x c0"
    using local_rdE [OF local_read_signed_part _ part] small by auto
  have "n = length x" using n x(1,2) by (simp add: sub_res_def split: if_splits)
  moreover have "t = enc_string sig"
  proof (rule read_string_inverse [of x t sig r2])
    show "fits x t" using small x(1) by simp
    show "read_string (rd_at x t) = Ok (sig, r2)" using sig(1) x(2) by simp
    fix u assume "t = enc_string sig @ u" "r2 = rd_at (x @ enc_string sig) u"
    with sig(3) show "t = enc_string sig" by simp
  qed
  moreover have "unsigned_fields c = c0"
    using read_signed_part_blank [OF part] by (simp add: c unsigned_fields_def)
  ultimately show ?thesis using len x sig(2) by (simp add: c signed_region_def)
qed

lemma certificate_parse_no_panic: "certificate_parse b \<noteq> Panic"
proof
  assume panic: "certificate_parse b = Panic"
  then have len: "length b \<le> MAX_CERT_BLOB" by (simp add: certificate_parse_def split: if_splits)
  have "\<exists>c r. read_signed_part (rd_at [] b) = Ok (c, r) \<and> sub_res (length b) (remaining r) = Panic"
    using panic len safe_read_signed_part safe_cert_reads
    by (auto simp: certificate_parse_def run_rd_def reader_new_rd_at rd_bind_def bind_res_eq_Panic safe_rd_def rd_end_def)
  then obtain c r where r: "read_signed_part (rd_at [] b) = Ok (c, r)" "sub_res (length b) (remaining r) = Panic"
    by blast
  have "fits [] b" using blob_small [OF len] by simp
  then obtain x t where "b = x @ t" "r = rd_at x t"
    using local_rdE [OF local_read_signed_part _ r(1)] by (metis append_Nil)
  with r(2) show False by (simp add: sub_res_def)
qed

text \<open>
  Claim C32. The CA's signature covers every field of a certificate: the bytes it is checked over are the whole
  blob but the signature itself, and two certificates with the same signed bytes agree in everything
  but their signatures. No blob makes the parser panic.\<close>

theorem ca_signature_covers_all:
  assumes "certificate_parse b = Ok c"
  shows "ct_raw c = b \<and> b = signed_region c @ enc_string (ct_signature c)
    \<and> (\<forall>b' c'. certificate_parse b' = Ok c' \<and> signed_region c' = signed_region c
         \<longrightarrow> unsigned_fields c' = unsigned_fields c)
    \<and> certificate_parse d \<noteq> Panic"
proof (intro conjI allI impI certificate_parse_no_panic)
  note c = certificate_parse_shape [OF assms]
  show "ct_raw c = b" "b = signed_region c @ enc_string (ct_signature c)" using c by blast+
  fix b' c' assume c': "certificate_parse b' = Ok c' \<and> signed_region c' = signed_region c"
  then have "consumes read_signed_part (signed_region c) (unsigned_fields c')"
    using certificate_parse_shape [of b' c'] by metis
  moreover have "small (signed_region c)" using c blob_small [of b] small_prefix by metis
  moreover have "consumes read_signed_part (signed_region c) (unsigned_fields c)" using c by (elim conjE)
  ultimately show "unsigned_fields c' = unsigned_fields c" by (metis consumes_unique)
qed

section \<open>Lists inside a certificate\<close>

definition enc_strings :: "bytes list \<Rightarrow> bytes" where
  "enc_strings ss = concat (map enc_string ss)"

definition enc_pairs :: "(bytes \<times> bytes) list \<Rightarrow> bytes" where
  "enc_pairs ps = concat (map (\<lambda>(n, d). enc_string n @ enc_string d) ps)"

lemma enc_strings_simps [simp]: "enc_strings [] = []" "enc_strings (s # ss) = enc_string s @ enc_strings ss"
  by (simp_all add: enc_strings_def)

lemma enc_pairs_simps [simp]: "enc_pairs [] = []" "enc_pairs ((n, d) # ps) = enc_string n @ enc_string d @ enc_pairs ps"
  by (simp_all add: enc_pairs_def)

definition elem_ok :: "bytes \<Rightarrow> bool" where
  "elem_ok s \<longleftrightarrow> length s \<le> MAX_LIST_ELEM"

lemma elem_fits: "elem_ok s \<Longrightarrow> fits_u32 s"
  by (simp add: elem_ok_def MAX_LIST_ELEM_def fits_u32_def)

lemma enc_string_nonempty [simp]: "enc_string s \<noteq> []"
  by (metis length_enc_string list.size(3) zero_neq_numeral add_eq_0_iff_both_eq_0)

definition principals_ok :: "rust_str list \<Rightarrow> bool" where
  "principals_ok ss \<longleftrightarrow> length ss \<le> MAX_LIST_ENTRIES \<and> (\<forall>s \<in> set ss. elem_ok s \<and> valid_utf8 s)"

definition options_ok :: "(rust_str \<times> bytes) list \<Rightarrow> bool" where
  "options_ok ps \<longleftrightarrow> length ps \<le> MAX_LIST_ENTRIES
     \<and> (\<forall>(n, d) \<in> set ps. elem_ok n \<and> valid_utf8 n \<and> elem_ok d) \<and> sorted_wrt (<) (map fst ps)"

lemma rd_bind_ok: "rd_bind (rd_ok x) f = f x"
  by (simp add: fun_eq_iff rd_bind_def)

lemma parse_string_list_loop_enc:
  "\<lbrakk>\<forall>s \<in> set ss. elem_ok s \<and> valid_utf8 s; length out + length ss \<le> MAX_LIST_ENTRIES; length ss \<le> fuel;
    fits pre (enc_strings ss)\<rbrakk> \<Longrightarrow>
   parse_string_list_loop fuel out (rd_at pre (enc_strings ss)) = Ok (out @ ss, rd_at (pre @ enc_strings ss) [])"
proof (induction ss arbitrary: fuel out pre)
  case Nil
  then show ?case by (simp add: parse_string_list_loop.simps)
next
  case (Cons s ss)
  then obtain f where f: "fuel = Suc f" by (cases fuel) simp_all
  have "parse_string_list_loop f (out @ [s]) (rd_at (pre @ enc_string s) (enc_strings ss))
    = Ok ((out @ [s]) @ ss, rd_at ((pre @ enc_string s) @ enc_strings ss) [])"
    by (rule Cons.IH) (use Cons.prems f in simp_all)
  moreover have "elem_ok s" "valid_utf8 s" "fits_u32 s" using Cons.prems(1) elem_fits by simp_all
  ultimately show ?case using Cons.prems(2,4)
    by (simp add: parse_string_list_loop.simps [of "Suc f"] f strc.bind_back elem_ok_def utf8_or_def rd_bind_ok)
qed

lemma parse_pair_list_loop_enc:
  "\<lbrakk>\<forall>(n, d) \<in> set ps. elem_ok n \<and> valid_utf8 n \<and> elem_ok d; length out + length ps \<le> MAX_LIST_ENTRIES;
    length ps \<le> fuel; sorted_wrt (<) (map fst (out @ ps)); fits pre (enc_pairs ps)\<rbrakk> \<Longrightarrow>
   parse_pair_list_loop fuel out (rd_at pre (enc_pairs ps)) = Ok (out @ ps, rd_at (pre @ enc_pairs ps) [])"
proof (induction ps arbitrary: fuel out pre)
  case Nil
  then show ?case by (simp add: parse_pair_list_loop.simps)
next
  case (Cons p ps)
  obtain n d where p: "p = (n, d)" by (cases p)
  obtain f where f: "fuel = Suc f" using Cons.prems(3) by (cases fuel) simp_all
  have "parse_pair_list_loop f (out @ [p]) (rd_at (pre @ enc_string n @ enc_string d) (enc_pairs ps))
    = Ok ((out @ [p]) @ ps, rd_at ((pre @ enc_string n @ enc_string d) @ enc_pairs ps) [])"
    by (rule Cons.IH) (use Cons.prems p f in simp_all)
  moreover have "elem_ok n" "elem_ok d" "valid_utf8 n" "fits_u32 n" "fits_u32 d"
    using Cons.prems(1) p elem_fits by simp_all
  moreover have "\<not> (out \<noteq> [] \<and> n \<le> fst (last out))"
    using Cons.prems(4) p by (cases out rule: rev_cases) (auto simp: sorted_wrt_append)
  ultimately show ?case using Cons.prems(2,5) p
    by (simp add: parse_pair_list_loop.simps [of "Suc f"] f strc.bind_back elem_ok_def utf8_or_def rd_bind_ok)
qed

lemma length_enc_strings: "length ss \<le> length (enc_strings ss)"
  by (induction ss) simp_all

lemma length_enc_pairs: "length ps \<le> length (enc_pairs ps)"
  by (induction ps) (auto simp: enc_pairs_def)

lemma parse_string_list_enc:
  "principals_ok ss \<Longrightarrow> small (enc_strings ss) \<Longrightarrow> parse_string_list (enc_strings ss) = Ok ss"
  using parse_string_list_loop_enc [of ss "[]" "length (enc_strings ss)" "[]"] length_enc_strings [of ss]
  by (simp add: parse_string_list_def principals_ok_def reader_new_rd_at)

lemma parse_pair_list_enc:
  "options_ok ps \<Longrightarrow> small (enc_pairs ps) \<Longrightarrow> parse_pair_list (enc_pairs ps) = Ok ps"
  using parse_pair_list_loop_enc [of ps "[]" "length (enc_pairs ps)" "[]"] length_enc_pairs [of ps]
  by (simp add: parse_pair_list_def options_ok_def reader_new_rd_at)

text \<open>What the builder writes.\<close>

lemma foldl_write_string: "w_buf (foldl (\<lambda>w p. write_string p w) w ss) = w_buf w @ enc_strings ss"
  by (induction ss arbitrary: w) (simp_all add: wire_simps)

lemma write_pairs_sorted:
  "sorted_wrt (<) (map fst ps) \<Longrightarrow> (\<forall>n. prev = Some n \<longrightarrow> n \<notin> fst ` set ps) \<Longrightarrow>
     \<exists>w'. write_pairs prev ps w = Ok w' \<and> w_buf w' = w_buf w @ enc_pairs ps"
proof (induction prev ps w rule: write_pairs.induct)
  case (2 prev name data ps w)
  then have "\<exists>w'. write_pairs (Some name) ps (write_string data (write_string name w)) = Ok w'
      \<and> w_buf w' = w_buf (write_string data (write_string name w)) @ enc_pairs ps"
    by (intro "2.IH") auto
  with "2.prems" show ?case by (auto simp: wire_simps)
qed simp

lemma write_pair_list_sorted:
  "distinct (map fst ps) \<Longrightarrow> write_pair_list ps = Ok (enc_pairs (sort_key fst ps))"
proof -
  assume "distinct (map fst ps)"
  then have "distinct (map fst (sort_key fst ps))"
    by (metis (mono_tags) distinct_map distinct_sort set_sort)
  then have "sorted_wrt (<) (map fst (sort_key fst ps))"
    by (simp add: strict_sorted_iff)
  with write_pairs_sorted [of "sort_key fst ps" None writer_new] show ?thesis
    by (auto simp: write_pair_list_def into_vec_def writer_new_def)
qed

section \<open>Issuing a certificate\<close>

lemma read_capped_back [wire_simps]:
  "length s \<le> cap \<Longrightarrow> fits_u32 s \<Longrightarrow> fits pre (enc_string s @ post) \<Longrightarrow>
     rd_bind (read_capped cap what) f (rd_at pre (enc_string s @ post)) = f s (rd_at (pre @ enc_string s) post)"
  by (simp add: read_capped_def rd_bind_def read_string_at)

lemmas read_capped_last = read_capped_back [where post = "[]", simplified]

lemma utf8_or_back [wire_simps]: "valid_utf8 s \<Longrightarrow> rd_bind (utf8_or msg s) f r = f s r"
  by (simp add: utf8_or_def rd_bind_ok)

text \<open>The key fields are what the parser expects for this type, and make up the plain blob again.\<close>

definition embeds :: "rust_str \<Rightarrow> bytes \<Rightarrow> bytes \<Rightarrow> bool" where
  "embeds kt kf blob \<longleftrightarrow> consumes (read_embedded_pubkey kt) kf blob"

lemma embeds_back [wire_simps]:
  "embeds kt kf blob \<Longrightarrow> fits pre (kf @ post) \<Longrightarrow>
     rd_bind (read_embedded_pubkey kt) f (rd_at pre (kf @ post)) = f blob (rd_at (pre @ kf) post)"
  by (simp add: embeds_def rd_bind_def consumesD)

definition builder_ok :: "certificate_builder \<Rightarrow> bytes \<Rightarrow> rust_str \<Rightarrow> bytes \<Rightarrow> bool" where
  "builder_ok b ca kt kf \<longleftrightarrow>
     blob_type_to_plain kt \<noteq> None \<and> elem_ok kt \<and> valid_utf8 kt \<and> embeds kt kf (cb_public_key b)
     \<and> elem_ok (cb_nonce b) \<and> elem_ok (cb_key_id b) \<and> valid_utf8 (cb_key_id b) \<and> elem_ok ca
     \<and> principals_ok (cb_valid_principals b) \<and> cb_valid_after b \<le> cb_valid_before b
     \<and> distinct (map fst (cb_critical_options b)) \<and> options_ok (sort_key fst (cb_critical_options b))
     \<and> distinct (map fst (cb_extensions b)) \<and> options_ok (sort_key fst (cb_extensions b))"

definition tbs_bytes :: "certificate_builder \<Rightarrow> bytes \<Rightarrow> rust_str \<Rightarrow> bytes \<Rightarrow> bytes" where
  "tbs_bytes b ca kt kf =
     enc_string kt @ enc_string (cb_nonce b) @ kf @ u64_to_be (cb_serial b)
     @ u32_to_be (case cb_cert_type b of CertUser \<Rightarrow> 1 | CertHost \<Rightarrow> 2) @ enc_string (cb_key_id b)
     @ enc_string (enc_strings (cb_valid_principals b)) @ u64_to_be (cb_valid_after b) @ u64_to_be (cb_valid_before b)
     @ enc_string (enc_pairs (sort_key fst (cb_critical_options b)))
     @ enc_string (enc_pairs (sort_key fst (cb_extensions b))) @ enc_string [] @ enc_string ca"

definition built :: "certificate_builder \<Rightarrow> bytes \<Rightarrow> rust_str \<Rightarrow> certificate" where
  "built b ca kt = \<lparr>ct_key_type = kt, ct_nonce = cb_nonce b, ct_embedded_pubkey_blob = cb_public_key b,
     ct_serial = cb_serial b, ct_cert_type = cb_cert_type b, ct_key_id = cb_key_id b,
     ct_valid_principals = cb_valid_principals b, ct_valid_after = cb_valid_after b, ct_valid_before = cb_valid_before b,
     ct_critical_options = sort_key fst (cb_critical_options b), ct_extensions = sort_key fst (cb_extensions b),
     ct_signature_key_blob = ca, ct_signature = [], ct_signed_len = 0, ct_raw = []\<rparr>"

lemma to_be_signed_bytes:
  "builder_ok b ca kt kf \<Longrightarrow> to_be_signed b ca kt kf = Ok (tbs_bytes b ca kt kf)"
  by (simp add: to_be_signed_def builder_ok_def write_pair_list_sorted tbs_bytes_def into_vec_def wire_simps
    foldl_write_string writer_new_def)

lemma cert_type_back: "cert_type_from_u32 (case ty of CertUser \<Rightarrow> 1 | CertHost \<Rightarrow> 2) = Ok ty"
  by (cases ty) (simp_all add: cert_type_from_u32_def)

lemma consumes_tbs:
  assumes ok: "builder_ok b ca kt kf" and len: "length (tbs_bytes b ca kt kf) \<le> MAX_CERT_BLOB"
  shows "consumes read_signed_part (tbs_bytes b ca kt kf) (built b ca kt)"
proof -
  let ?ps = "enc_strings (cb_valid_principals b)"
  let ?cs = "enc_pairs (sort_key fst (cb_critical_options b))"
  let ?es = "enc_pairs (sort_key fst (cb_extensions b))"
  have lens: "length ?ps \<le> MAX_CERT_BLOB" "length ?cs \<le> MAX_CERT_BLOB" "length ?es \<le> MAX_CERT_BLOB"
    using len by (simp_all add: tbs_bytes_def)
  then have caps: "length ?ps \<le> MAX_LIST_ENTRIES * MAX_LIST_ELEM" "length ?cs \<le> MAX_LIST_ENTRIES * (2 * MAX_LIST_ELEM)"
    "length ?es \<le> MAX_LIST_ENTRIES * (2 * MAX_LIST_ELEM)" "fits_u32 ?ps" "fits_u32 ?cs" "fits_u32 ?es"
    by (simp_all add: MAX_LIST_ENTRIES_def MAX_LIST_ELEM_def MAX_CERT_BLOB_def fits_u32_def)
  have lists: "parse_string_list ?ps = Ok (cb_valid_principals b)"
    "parse_pair_list ?cs = Ok (sort_key fst (cb_critical_options b))"
    "parse_pair_list ?es = Ok (sort_key fst (cb_extensions b))"
    using ok lens blob_small by (simp_all add: builder_ok_def parse_string_list_enc parse_pair_list_enc)
  have elems: "fits_u32 kt" "fits_u32 (cb_nonce b)" "fits_u32 (cb_key_id b)" "fits_u32 ca" "fits_u32 []"
    "length (cb_nonce b) \<le> MAX_LIST_ELEM" "length (cb_key_id b) \<le> MAX_LIST_ELEM" "length ca \<le> MAX_LIST_ELEM"
    using ok elem_fits by (simp_all add: builder_ok_def elem_ok_def fits_u32_def)
  have rest: "blob_type_to_plain kt \<noteq> None" "valid_utf8 kt" "embeds kt kf (cb_public_key b)" "valid_utf8 (cb_key_id b)"
    "\<not> cb_valid_after b > cb_valid_before b"
    using ok by (simp_all add: builder_ok_def not_less)
  show ?thesis
    unfolding consumes_def
  proof (intro allI impI)
    fix pre post
    assume "fits pre (tbs_bytes b ca kt kf @ post)"
    then show "read_signed_part (rd_at pre (tbs_bytes b ca kt kf @ post))
        = Ok (built b ca kt, rd_at (pre @ tbs_bytes b ca kt kf) post)"
      using rest by (simp add: read_signed_part_def tbs_bytes_def wire_simps caps lists elems cert_type_back built_def)
  qed
qed

lemma embeds_ed25519: "length pk = 32 \<Longrightarrow>
    embeds (lit ''ssh-ed25519-cert-v01@openssh.com'') (enc_string pk) (enc_string (lit ''ssh-ed25519'') @ enc_string pk)"
  by (simp add: embeds_def consumes_def read_embedded_pubkey_def wire_simps fits_u32_def into_vec_def writer_new_def
    rd_bind_def rd_check_def read_string_at)

lemma verify_ca_signature_iff:
  assumes "certificate_parse b = Ok c"
  shows "verify_ca_signature P sha1 allowed c = Ok () \<longleftrightarrow>
    (\<exists>alg. ca_algorithm c = Ok alg \<and> alg \<in> set allowed
       \<and> verify_signature P sha1 alg (ct_signature_key_blob c) (signed_region c) (ct_signature c) = Ok ())"
proof -
  have "slice_res (ct_raw c) 0 (ct_signed_len c) = Ok (signed_region c)"
  proof -
    have "ct_raw c = b" "ct_signed_len c \<le> length b" using certificate_parse_shape [OF assms] by blast+
    then show ?thesis by (simp add: slice_res_def signed_region_def)
  qed
  then show ?thesis
    by (auto simp: verify_ca_signature_def verify_signature_def bind_res_eq_Ok split: res.splits if_splits)
qed

lemma certificate_parse_built:
  assumes ok: "builder_ok b ca kt kf" and sig: "length sig \<le> MAX_LIST_ELEM"
    and len: "length (tbs_bytes b ca kt kf) + 4 + length sig \<le> MAX_CERT_BLOB"
  defines "blob \<equiv> tbs_bytes b ca kt kf @ enc_string sig"
  shows "certificate_parse blob
    = Ok ((built b ca kt)\<lparr>ct_signature := sig, ct_signed_len := length (tbs_bytes b ca kt kf), ct_raw := blob\<rparr>)"
proof -
  let ?t = "tbs_bytes b ca kt kf"
  have "length ?t \<le> MAX_CERT_BLOB" using len by simp
  then have part: "consumes read_signed_part ?t (built b ca kt)" using consumes_tbs [OF ok] by simp
  have blen: "length blob \<le> MAX_CERT_BLOB" using len by (simp add: blob_def)
  then have fit: "fits [] (?t @ enc_string sig)" using blob_small [of blob] by (simp add: blob_def)
  have "fits_u32 sig" using sig elem_fits by (simp add: elem_ok_def)
  then have "rd_bind (read_capped MAX_LIST_ELEM ''cert: signature too long'') (\<lambda>s.
         rd_bind (rd_end (Format ''cert: trailing data after certificate'')) (\<lambda>_.
           rd_ok ((built b ca kt)\<lparr>ct_signature := s, ct_signed_len := length ?t, ct_raw := blob\<rparr>))) (rd_at ?t (enc_string sig))
     = Ok ((built b ca kt)\<lparr>ct_signature := sig, ct_signed_len := length ?t, ct_raw := blob\<rparr>, rd_at blob [])"
    using sig fit by (simp add: read_capped_last rd_end_at blob_def)
  then show ?thesis
    using blen consumesD [OF part fit]
    by (simp add: certificate_parse_def run_rd_def reader_new_rd_at rd_bind_def [of read_signed_part] blob_def sub_res_def)
qed

text \<open>
  The builder issues what it was asked for: for a key of a supported type, within the parser's
  bounds and without duplicate options, signing returns a certificate that has exactly the builder's
  fields, with critical options and extensions sorted, whose signed bytes are those the CA was given,
  and which passes the CA check exactly if the CA's signature verifies under an allowed algorithm.\<close>

theorem issued_certificate:
  assumes key: "cb_public_key b = enc_string plain @ kf" "fits_u32 plain" "plain_to_blob_type plain = Ok kt"
    and ok: "builder_ok b ca kt kf" and sign: "sign (tbs_bytes b ca kt kf) = Ok sig"
    and len: "length sig \<le> MAX_LIST_ELEM" "length (tbs_bytes b ca kt kf) + 4 + length sig \<le> MAX_CERT_BLOB"
  shows "\<exists>c. builder_sign b ca sign = Ok c \<and> unsigned_fields c = built b ca kt
    \<and> ct_signature c = sig \<and> signed_region c = tbs_bytes b ca kt kf
    \<and> (verify_ca_signature P sha1 allowed c = Ok () \<longleftrightarrow>
        (\<exists>alg. ca_algorithm c = Ok alg \<and> alg \<in> set allowed
           \<and> verify_signature P sha1 alg ca (tbs_bytes b ca kt kf) sig = Ok ()))"
proof -
  let ?t = "tbs_bytes b ca kt kf" and ?blob = "tbs_bytes b ca kt kf @ enc_string sig"
  define c where "c = (built b ca kt)\<lparr>ct_signature := sig, ct_signed_len := length ?t, ct_raw := ?blob\<rparr>"
  have parsed: "certificate_parse ?blob = Ok c" using certificate_parse_built [OF ok len] by (simp add: c_def)
  have "length (cb_public_key b) \<le> length ?t + length plain + 4"
    using key(1) by (simp add: tbs_bytes_def)
  then have fit: "fits [] (enc_string plain @ kf)"
    using len(2) key(1,2) by (simp add: small_def USIZE_LIMIT_def MAX_CERT_BLOB_def fits_u32_def)
  have "builder_sign b ca sign = Ok c"
    using ok parsed sign
    by (simp add: builder_sign_def key(1,3) reader_new_rd_at read_string_at [OF key(2) fit, simplified] sub_res_def
      slice_res_def to_be_signed_bytes not_less into_vec_def wire_simps writer_new_def builder_ok_def)
      (simp add: c_def built_def key(1))
  moreover have "unsigned_fields c = built b ca kt" "ct_signature c = sig" "signed_region c = ?t"
    "ct_signature_key_blob c = ca"
    by (simp_all add: c_def unsigned_fields_def built_def signed_region_def)
  ultimately show ?thesis using verify_ca_signature_iff [OF parsed, of P sha1 allowed] by auto
qed

text \<open>A user certificate for an Ed25519 key with a forced command.\<close>

definition demo_builder :: certificate_builder where
  "demo_builder = (builder_new (enc_string (lit ''ssh-ed25519'') @ enc_string (replicate 32 7)) CertUser (replicate 16 1))
     \<lparr>cb_key_id := lit ''alice'', cb_valid_principals := [lit ''alice'', lit ''root''],
      cb_critical_options := [(lit ''verify-required'', []), (lit ''force-command'', encode_option_string (lit ''ls''))],
      cb_extensions := [(lit ''permit-pty'', [])]\<rparr>"

definition demo_ca :: bytes where
  "demo_ca = enc_string (lit ''ssh-ed25519'') @ enc_string (replicate 32 9)"

definition demo_sig :: bytes where
  "demo_sig = enc_string (lit ''ssh-ed25519'') @ enc_string (replicate 64 5)"

lemma demo_builder_ok:
  "builder_ok demo_builder demo_ca (lit ''ssh-ed25519-cert-v01@openssh.com'') (enc_string (replicate 32 7))"
  unfolding builder_ok_def
proof (intro conjI)
  show "embeds (lit ''ssh-ed25519-cert-v01@openssh.com'') (enc_string (replicate 32 7)) (cb_public_key demo_builder)"
    by (simp add: demo_builder_def builder_new_def embeds_ed25519)
qed code_simp+

lemma demo_lengths:
  defines "t \<equiv> tbs_bytes demo_builder demo_ca (lit ''ssh-ed25519-cert-v01@openssh.com'') (enc_string (replicate 32 7))"
  shows "length demo_sig \<le> MAX_LIST_ELEM" "length t + 4 + length demo_sig \<le> MAX_CERT_BLOB"
proof -
  have crit: "enc_pairs (sort_key fst (cb_critical_options demo_builder))
      = enc_pairs [(lit ''force-command'', encode_option_string (lit ''ls'')), (lit ''verify-required'', [])]"
    by code_simp
  show "length demo_sig \<le> MAX_LIST_ELEM" "length t + 4 + length demo_sig \<le> MAX_CERT_BLOB"
    by (simp_all add: t_def tbs_bytes_def crit demo_sig_def demo_ca_def MAX_LIST_ELEM_def MAX_CERT_BLOB_def encode_option_string_def
      into_vec_def wire_simps writer_new_def) (simp add: demo_builder_def builder_new_def)
qed

theorem ca_signature_covers_all_witness:
  "\<exists>b c. certificate_parse b = Ok c \<and> ct_serial c = 0 \<and> b = signed_region c @ enc_string demo_sig"
proof -
  let ?kt = "lit ''ssh-ed25519-cert-v01@openssh.com''" and ?kf = "enc_string (replicate 32 7)"
  let ?t = "tbs_bytes demo_builder demo_ca ?kt ?kf"
  let ?b = "?t @ enc_string demo_sig"
  let ?c = "(built demo_builder demo_ca ?kt)\<lparr>ct_signature := demo_sig, ct_signed_len := length ?t, ct_raw := ?b\<rparr>"
  have p: "certificate_parse ?b = Ok ?c" by (rule certificate_parse_built [OF demo_builder_ok demo_lengths])
  from ca_signature_covers_all [OF p, of "[]"] have "?b = signed_region ?c @ enc_string (ct_signature ?c)" by (elim conjE)
  moreover have "ct_signature ?c = demo_sig" by simp
  moreover have "ct_serial ?c = 0" by (simp add: built_def demo_builder_def builder_new_def)
  ultimately show ?thesis using p by metis
qed

theorem issued_certificate_witness:
  "\<exists>c. builder_sign demo_builder demo_ca (\<lambda>_. Ok demo_sig) = Ok c
     \<and> ct_valid_principals c = [lit ''alice'', lit ''root'']
     \<and> map fst (ct_critical_options c) = [lit ''force-command'', lit ''verify-required'']"
proof -
  let ?kt = "lit ''ssh-ed25519-cert-v01@openssh.com''" and ?kf = "enc_string (replicate 32 7)"
  have "\<exists>c. builder_sign demo_builder demo_ca (\<lambda>_. Ok demo_sig) = Ok c \<and> unsigned_fields c = built demo_builder demo_ca ?kt"
  proof -
    have key: "cb_public_key demo_builder = enc_string (lit ''ssh-ed25519'') @ ?kf" "fits_u32 (lit ''ssh-ed25519'')"
      by (simp_all add: demo_builder_def builder_new_def fits_u32_def)
    have kt: "plain_to_blob_type (lit ''ssh-ed25519'') = Ok ?kt" by code_simp
    from issued_certificate [OF key kt demo_builder_ok, where sign = "\<lambda>_. Ok demo_sig", OF refl demo_lengths]
    show ?thesis by blast
  qed
  then obtain c where c: "builder_sign demo_builder demo_ca (\<lambda>_. Ok demo_sig) = Ok c"
    "unsigned_fields c = built demo_builder demo_ca ?kt" by blast
  have "ct_valid_principals c = ct_valid_principals (built demo_builder demo_ca ?kt)"
    "ct_critical_options c = ct_critical_options (built demo_builder demo_ca ?kt)"
    by (simp_all add: c(2) [symmetric] unsigned_fields_def)
  moreover have "ct_valid_principals (built demo_builder demo_ca ?kt) = [lit ''alice'', lit ''root'']"
    "map fst (ct_critical_options (built demo_builder demo_ca ?kt)) = [lit ''force-command'', lit ''verify-required'']"
    by code_simp+
  ultimately show ?thesis using c(1) by auto
qed

end
