(* ===== verification/AuthServer.thy ===== *)
theory AuthServer
  imports Certs AuthMsg
begin

text \<open>
  The server side of user authentication: the state machine \<open>ServerAuth\<close> of src/src/auth/server.rs
  and the loop that drives it, \<open>do_server_auth\<close> of src/src/server.rs. The authenticator is a trait
  object of the caller: its state has any type, and its methods, which may change that state, are the
  record \<open>authenticator\<close>. Signature arithmetic is the argument \<open>sig_prims\<close> as before; the process-wide
  switch for SHA-1 signatures is an argument too.
\<close>

unbundle bit_operations_syntax

section \<open>Attempts and decisions\<close>

definition account_name :: "rust_str \<Rightarrow> rust_str" where
  "account_name user = (case str_split_once 0x3A user of None \<Rightarrow> user | Some (u, _) \<Rightarrow> u)"

type_synonym u16 = "16 word"

record host_port =
  hp_host :: rust_str
  hp_port :: "u16 option"

record auth_cert_caps =
  permit_pty :: bool
  permit_port_forwarding :: bool
  permit_agent_forwarding :: bool
  permit_x11_forwarding :: bool
  permit_user_rc :: bool
  cap_environment :: "rust_str list"
  force_command :: "rust_str option"
  permit_open :: "host_port list option"
  permit_listen :: "host_port list option"
  force_tun_device :: "u32 option"
  no_touch_required :: bool
  verify_required :: bool

record sk_signature =
  sk_flags :: u8
  sk_counter :: u32
  server_touch_required :: bool
  server_verify_required :: bool

datatype sk_requirement = UserPresence | UserVerification

definition sk_check :: "sk_signature \<Rightarrow> auth_cert_caps option \<Rightarrow> sk_requirement option" where
  "sk_check sk caps =
     (let no_touch = (case caps of Some c \<Rightarrow> no_touch_required c | None \<Rightarrow> False);
          verify = (case caps of Some c \<Rightarrow> verify_required c | None \<Rightarrow> False)
      in if (server_touch_required sk \<or> \<not> no_touch) \<and> sk_flags sk AND SK_USER_PRESENCE = 0
         then Some UserPresence
         else if (server_verify_required sk \<or> verify) \<and> sk_flags sk AND SK_USER_VERIFICATION = 0
         then Some UserVerification
         else None)"

record cert_info =
  ci_ca_key_blob :: bytes
  ci_embedded_pubkey_blob :: bytes
  ci_ca_algorithm :: rust_str
  ci_key_id :: rust_str
  ci_serial :: u64
  ci_valid_principals :: "rust_str list"
  ci_critical_options :: "(rust_str \<times> bytes) list"
  ci_extensions :: "(rust_str \<times> bytes) list"
  ci_valid_after :: u64
  ci_valid_before :: u64

definition from_certificate :: "certificate \<Rightarrow> cert_info res" where
  "from_certificate c =
     bind_res (ca_algorithm c) (\<lambda>alg.
       Ok \<lparr>ci_ca_key_blob = ct_signature_key_blob c, ci_embedded_pubkey_blob = ct_embedded_pubkey_blob c,
           ci_ca_algorithm = alg, ci_key_id = ct_key_id c, ci_serial = ct_serial c,
           ci_valid_principals = ct_valid_principals c, ci_critical_options = ct_critical_options c,
           ci_extensions = ct_extensions c, ci_valid_after = ct_valid_after c, ci_valid_before = ct_valid_before c\<rparr>)"

definition ci_has_extension :: "rust_str \<Rightarrow> cert_info \<Rightarrow> bool" where
  "ci_has_extension name ci \<longleftrightarrow> (\<exists>(n, _) \<in> set (ci_extensions ci). n = name)"

definition ci_critical_option :: "rust_str \<Rightarrow> cert_info \<Rightarrow> bytes option" where
  "ci_critical_option name ci = map_option snd (find (\<lambda>(n, _). n = name) (ci_critical_options ci))"

datatype auth_attempt =
    AttemptNone rust_str
  | AttemptPassword rust_str rust_str
  | AttemptPublicKey (at_user: rust_str) (at_algorithm: rust_str) (at_public_blob: bytes) (at_probe_only: bool)
      (at_verified: bool) (at_cert: "cert_info option") (at_security_key: "sk_signature option")
  | AttemptKeyboardInteractive rust_str

datatype auth_decision =
    Accept
  | PartialAccept "rust_str list"
  | Reject
  | InteractiveRequest rust_str rust_str "(rust_str \<times> bool) list"

record 'a authenticator =
  evaluate :: "'a \<Rightarrow> auth_attempt \<Rightarrow> auth_decision \<times> 'a"
  key_restrictions :: "'a \<Rightarrow> rust_str \<Rightarrow> bytes \<Rightarrow> auth_cert_caps option \<times> 'a"
  continuable_methods :: "'a \<Rightarrow> rust_str list \<Rightarrow> rust_str list"
  evaluate_interactive :: "'a \<Rightarrow> rust_str \<Rightarrow> rust_str list \<Rightarrow> auth_decision \<times> 'a"
  on_user_resolved :: "'a \<Rightarrow> rust_str \<Rightarrow> rust_str list \<Rightarrow> 'a"

section \<open>Restrictions\<close>

definition from_cert_info :: "cert_info \<Rightarrow> auth_cert_caps" where
  "from_cert_info ci =
     \<lparr>permit_pty = ci_has_extension (lit ''permit-pty'') ci,
      permit_port_forwarding = ci_has_extension (lit ''permit-port-forwarding'') ci,
      permit_agent_forwarding = ci_has_extension (lit ''permit-agent-forwarding'') ci,
      permit_x11_forwarding = ci_has_extension (lit ''permit-X11-forwarding'') ci,
      permit_user_rc = ci_has_extension (lit ''permit-user-rc'') ci,
      cap_environment = [],
      force_command = Option.bind (ci_critical_option (lit ''force-command'') ci) decode_option_string,
      permit_open = None, permit_listen = None, force_tun_device = None,
      no_touch_required = ci_has_extension (lit ''no-touch-required'') ci,
      verify_required = ci_critical_option (lit ''verify-required'') ci \<noteq> None\<rparr>"

definition caps_unrestricted :: auth_cert_caps where
  "caps_unrestricted =
     \<lparr>permit_pty = True, permit_port_forwarding = True, permit_agent_forwarding = True,
      permit_x11_forwarding = True, permit_user_rc = True, cap_environment = [], force_command = None,
      permit_open = None, permit_listen = None, force_tun_device = None, no_touch_required = True,
      verify_required = False\<rparr>"

text \<open>\<open>a.or(b)\<close>\<close>

definition opt_or :: "'a option \<Rightarrow> 'a option \<Rightarrow> 'a option" where
  "opt_or a b = (case a of Some x \<Rightarrow> Some x | None \<Rightarrow> b)"

definition both_lists :: "host_port list option \<Rightarrow> host_port list option \<Rightarrow> host_port list option" where
  "both_lists a b =
     (case (a, b) of
        (Some xs, Some ys) \<Rightarrow> Some (filter (\<lambda>e. e \<in> set ys) xs)
      | _ \<Rightarrow> opt_or a b)"

definition caps_intersect :: "auth_cert_caps \<Rightarrow> auth_cert_caps \<Rightarrow> auth_cert_caps option" where
  "caps_intersect a b =
     (if (case (force_command a, force_command b) of (Some x, Some y) \<Rightarrow> x \<noteq> y | _ \<Rightarrow> False) then None
      else Some
        \<lparr>permit_pty = permit_pty a \<and> permit_pty b,
         permit_port_forwarding = permit_port_forwarding a \<and> permit_port_forwarding b,
         permit_agent_forwarding = permit_agent_forwarding a \<and> permit_agent_forwarding b,
         permit_x11_forwarding = permit_x11_forwarding a \<and> permit_x11_forwarding b,
         permit_user_rc = permit_user_rc a \<and> permit_user_rc b,
         cap_environment = cap_environment a @ cap_environment b,
         force_command = opt_or (force_command a) (force_command b),
         permit_open = both_lists (permit_open a) (permit_open b),
         permit_listen = both_lists (permit_listen a) (permit_listen b),
         force_tun_device = opt_or (force_tun_device a) (force_tun_device b),
         no_touch_required = no_touch_required a \<and> no_touch_required b,
         verify_required = verify_required a \<or> verify_required b\<rparr>)"

definition merge_caps :: "auth_cert_caps option \<Rightarrow> auth_cert_caps option \<Rightarrow> auth_cert_caps option option" where
  "merge_caps a b =
     (case (a, b) of
        (Some x, Some y) \<Rightarrow> map_option Some (caps_intersect x y)
      | _ \<Rightarrow> Some (opt_or a b))"

section \<open>State\<close>

datatype server_step =
    StepSend bytes
  | StepAuthenticated bytes rust_str "auth_cert_caps option" rust_str
  | StepDisconnect string

datatype auth_state = AwaitingServiceRequest | AwaitingRequest | AwaitingInfoResponse | AuthDone

record 'a server_auth =
  sa_service :: rust_str
  sa_session_id :: bytes
  accepted_methods :: "rust_str list"
  sa_auth :: 'a
  sa_state :: auth_state
  pending_user :: "rust_str option"
  used_keys :: "bytes list"
  sa_host_key :: "bytes option"
  auth_info :: rust_str
  pending_prompt_count :: "nat option"
  first_user :: "rust_str option"
  sa_allow_none :: bool
  max_auth_tries :: "u32 option"
  failed_attempts :: u32
  sa_now :: u64
  ca_signature_algorithms :: "rust_str list"
  pending_cert_caps :: "auth_cert_caps option"
  sk_touch_required :: bool
  sk_verify_required :: bool
  max_pk_ok :: u32
  pk_ok_failures :: u32

definition DEFAULT_MAX_PK_OK :: u32 where "DEFAULT_MAX_PK_OK = 6"

definition server_auth_new :: "bytes \<Rightarrow> rust_str list \<Rightarrow> 'a \<Rightarrow> 'a server_auth" where
  "server_auth_new session_id methods auth =
     \<lparr>sa_service = lit ''ssh-connection'', sa_session_id = session_id, accepted_methods = methods, sa_auth = auth,
      sa_state = AwaitingServiceRequest, pending_user = None, used_keys = [], sa_host_key = None, auth_info = [],
      pending_prompt_count = None, first_user = None, sa_allow_none = False, max_auth_tries = None,
      failed_attempts = 0, sa_now = 0, ca_signature_algorithms = [], pending_cert_caps = None,
      sk_touch_required = False, sk_verify_required = False, max_pk_ok = DEFAULT_MAX_PK_OK, pk_ok_failures = 0\<rparr>"

definition set_now :: "u64 \<Rightarrow> 'a server_auth \<Rightarrow> 'a server_auth" where
  "set_now now st = st\<lparr>sa_now := now\<rparr>"

definition set_ca_signature_algorithms :: "rust_str list \<Rightarrow> 'a server_auth \<Rightarrow> 'a server_auth" where
  "set_ca_signature_algorithms algos st = st\<lparr>ca_signature_algorithms := algos\<rparr>"

definition set_pubkey_auth_options :: "bool \<Rightarrow> bool \<Rightarrow> 'a server_auth \<Rightarrow> 'a server_auth" where
  "set_pubkey_auth_options touch verify st = st\<lparr>sk_touch_required := touch, sk_verify_required := verify\<rparr>"

definition set_max_pk_ok :: "u32 \<Rightarrow> 'a server_auth \<Rightarrow> 'a server_auth" where
  "set_max_pk_ok n st = st\<lparr>max_pk_ok := n\<rparr>"

definition set_max_auth_tries :: "u32 option \<Rightarrow> 'a server_auth \<Rightarrow> 'a server_auth" where
  "set_max_auth_tries limit st = st\<lparr>max_auth_tries := limit\<rparr>"

definition set_accepted_methods :: "rust_str list \<Rightarrow> 'a server_auth \<Rightarrow> 'a server_auth" where
  "set_accepted_methods methods st = st\<lparr>accepted_methods := methods\<rparr>"

definition set_host_key :: "bytes \<Rightarrow> 'a server_auth \<Rightarrow> 'a server_auth" where
  "set_host_key hk st = st\<lparr>sa_host_key := Some hk\<rparr>"

definition allow_none :: "bool \<Rightarrow> 'a server_auth \<Rightarrow> 'a server_auth" where
  "allow_none allow st = st\<lparr>sa_allow_none := allow\<rparr>"

definition notify_user_resolved :: "'a authenticator \<Rightarrow> rust_str \<Rightarrow> rust_str list \<Rightarrow> 'a server_auth \<Rightarrow> 'a server_auth" where
  "notify_user_resolved A user methods st = st\<lparr>sa_auth := on_user_resolved A (sa_auth st) user methods\<rparr>"

definition peek_request :: "bytes \<Rightarrow> (rust_str \<times> rust_str) option" where
  "peek_request payload =
     Option.bind (ok_opt (userauth_request_decode payload)) (\<lambda>req.
       Some (account_name (ur_user req),
             case ur_method req of
               AuthNone \<Rightarrow> lit ''none''
             | AuthPassword _ _ \<Rightarrow> lit ''password''
             | AuthPublicKey _ _ _ _ _ \<Rightarrow> lit ''publickey''
             | AuthKeyboardInteractive _ _ \<Rightarrow> lit ''keyboard-interactive''
             | AuthOther _ _ \<Rightarrow> []))"

section \<open>Failures\<close>

type_synonym 'a auth_res = "'a server_auth \<times> server_step res"

definition failure_step :: "'a authenticator \<Rightarrow> 'a server_auth \<Rightarrow> server_step" where
  "failure_step A st =
     StepSend (userauth_failure_encode
       \<lparr>uf_continuations = continuable_methods A (sa_auth st) (accepted_methods st), uf_partial_success = False\<rparr>)"

definition emit_failure :: "'a authenticator \<Rightarrow> 'a server_auth \<Rightarrow> 'a auth_res" where
  "emit_failure A st =
     (let st = st\<lparr>failed_attempts := sat_add (failed_attempts st) 1\<rparr> in
      if (case max_auth_tries st of Some limit \<Rightarrow> failed_attempts st > limit | None \<Rightarrow> False)
      then (st\<lparr>sa_state := AuthDone\<rparr>, Ok (StepDisconnect ''Too many authentication failures''))
      else (st, Ok (failure_step A st)))"

definition emit_probe_failure :: "'a authenticator \<Rightarrow> 'a server_auth \<Rightarrow> 'a auth_res" where
  "emit_probe_failure A st =
     (let st = st\<lparr>pk_ok_failures := sat_add (pk_ok_failures st) 1\<rparr> in
      if pk_ok_failures st > max_pk_ok st then emit_failure A st
      else (st, Ok (failure_step A st)))"

definition pin_user :: "rust_str \<Rightarrow> 'a server_auth \<Rightarrow> 'a server_auth \<times> server_step option" where
  "pin_user user st =
     (case first_user st of
        Some prev \<Rightarrow>
          if prev \<noteq> user then (st, Some (StepDisconnect ''auth: username changed mid-authentication''))
          else (st, None)
      | None \<Rightarrow> (st\<lparr>first_user := Some user\<rparr>, None))"

definition reject_unadvertised :: "'a authenticator \<Rightarrow> rust_str \<Rightarrow> 'a server_auth \<Rightarrow> 'a auth_res" where
  "reject_unadvertised A user st =
     (case pin_user user st of
        (st, Some step) \<Rightarrow> (st, Ok step)
      | (st, None) \<Rightarrow> emit_failure A st)"

definition record_success :: "auth_decision \<Rightarrow> rust_str \<Rightarrow> 'a server_auth \<Rightarrow> 'a server_auth" where
  "record_success decision line st =
     (case decision of
        Accept \<Rightarrow> st\<lparr>auth_info := auth_info st @ line @ [0x0A]\<rparr>
      | PartialAccept _ \<Rightarrow> st\<lparr>auth_info := auth_info st @ line @ [0x0A]\<rparr>
      | _ \<Rightarrow> st)"

definition apply_decision :: "'a authenticator \<Rightarrow> auth_decision \<Rightarrow> rust_str \<Rightarrow> 'a server_auth \<Rightarrow> 'a auth_res" where
  "apply_decision A decision user st =
     (case decision of
        Accept \<Rightarrow>
          (st\<lparr>sa_state := AuthDone, pending_cert_caps := None, auth_info := []\<rparr>,
           Ok (StepAuthenticated encode_success user (pending_cert_caps st) (auth_info st)))
      | PartialAccept still_required \<Rightarrow>
          (st, Ok (StepSend (userauth_failure_encode
                 \<lparr>uf_continuations = still_required, uf_partial_success = True\<rparr>)))
      | Reject \<Rightarrow> emit_failure A st
      | InteractiveRequest name instruction prompts \<Rightarrow>
          (st\<lparr>sa_state := AwaitingInfoResponse, pending_user := Some user,
              pending_prompt_count := Some (length prompts)\<rparr>,
           Ok (StepSend (info_request_encode
                 \<lparr>ir_name = name, ir_instruction = instruction, ir_language = [], ir_prompts = prompts\<rparr>))))"

section \<open>Public keys\<close>

text \<open>The algorithm a certificate name pins, if it belongs to the family of the embedded key.\<close>

definition cert_plain_algorithm :: "rust_str \<Rightarrow> certificate \<Rightarrow> rust_str option res" where
  "cert_plain_algorithm algorithm cert =
     (case cert_name_to_plain algorithm of
        None \<Rightarrow> Ok None
      | Some plain \<Rightarrow>
          bind_res (embedded_algorithm cert) (\<lambda>embedded.
            Ok (if family_ok embedded plain then Some plain else None)))"

definition signature_algorithm :: "bytes \<Rightarrow> rust_str option" where
  "signature_algorithm sig_blob = Option.bind (ok_opt (run_rd read_string sig_blob)) from_utf8"

definition CA_SIGNATURE_DEFAULTS :: "rust_str list" where
  "CA_SIGNATURE_DEFAULTS = map lit
     [''ssh-ed25519'', ''ecdsa-sha2-nistp256'', ''ecdsa-sha2-nistp384'', ''ecdsa-sha2-nistp521'',
      ''sk-ssh-ed25519@openssh.com'', ''sk-ecdsa-sha2-nistp256@openssh.com'',
      ''webauthn-sk-ecdsa-sha2-nistp256@openssh.com'', ''rsa-sha2-512'', ''rsa-sha2-256'']"

definition user_cert_valid :: "sig_prims \<Rightarrow> bool \<Rightarrow> 'a server_auth \<Rightarrow> certificate \<Rightarrow> bool" where
  "user_cert_valid P sha1 st cert =
     (if \<not> is_ok (check_type CertUser cert) \<or> \<not> is_ok (check_validity (sa_now st) cert)
         \<or> \<not> is_ok (require_known_critical_options cert) then False
      else is_ok (verify_ca_signature P sha1
             (if ca_signature_algorithms st = [] then CA_SIGNATURE_DEFAULTS else ca_signature_algorithms st) cert))"

text \<open>The key type field of a blob, for the log line of an accepted key.\<close>

definition blob_key_type :: "bytes \<Rightarrow> rust_str" where
  "blob_key_type blob =
     (case Option.bind (ok_opt (run_rd read_string blob)) from_utf8 of Some t \<Rightarrow> t | None \<Rightarrow> [])"

definition publickey_line :: "bytes \<Rightarrow> rust_str" where
  "publickey_line blob = lit ''publickey '' @ blob_key_type blob @ lit '' '' @ b64_encode blob"

text \<open>
  A key offered without a signature. \<open>None\<close> for the certificate facts is a refused probe.
\<close>

definition probe_cert_info :: "sig_prims \<Rightarrow> bool \<Rightarrow> 'a server_auth \<Rightarrow> rust_str \<Rightarrow> bytes \<Rightarrow> cert_info option option res" where
  "probe_cert_info P sha1 st algorithm blob =
     (if \<not> is_cert_name algorithm then Ok (Some None)
      else case certificate_parse blob of
             Ok c \<Rightarrow>
               bind_res (cert_plain_algorithm algorithm c) (\<lambda>plain.
                 if plain \<noteq> None \<and> user_cert_valid P sha1 st c
                 then bind_res (from_certificate c) (\<lambda>ci. Ok (Some (Some ci)))
                 else Ok None)
           | Err _ \<Rightarrow> Ok None
           | Panic \<Rightarrow> Panic)"

definition handle_probe :: "sig_prims \<Rightarrow> bool \<Rightarrow> 'a authenticator \<Rightarrow> rust_str \<Rightarrow> rust_str \<Rightarrow> bytes \<Rightarrow> 'a server_auth \<Rightarrow> 'a auth_res" where
  "handle_probe P sha1 A user algorithm blob st =
     (case probe_cert_info P sha1 st algorithm blob of
        Err e \<Rightarrow> (st, Err e)
      | Panic \<Rightarrow> (st, Panic)
      | Ok None \<Rightarrow> emit_probe_failure A st
      | Ok (Some info) \<Rightarrow>
          (let (decision, a) = evaluate A (sa_auth st)
                 (AttemptPublicKey user algorithm blob True False info None);
               st = st\<lparr>sa_auth := a\<rparr>
           in case decision of
                Accept \<Rightarrow> (st, Ok (StepSend (userauth_pk_ok_encode \<lparr>pk_algorithm = algorithm, pk_public_blob = blob\<rparr>)))
              | PartialAccept _ \<Rightarrow> (st, Ok (StepSend (userauth_pk_ok_encode \<lparr>pk_algorithm = algorithm, pk_public_blob = blob\<rparr>)))
              | Reject \<Rightarrow> emit_probe_failure A st
              | InteractiveRequest _ _ _ \<Rightarrow> (st, Err (Protocol ''auth: interactive on publickey probe''))))"

text \<open>
  The verifier of a signed attempt and the facts of its certificate; \<open>Ok None\<close> is a refused attempt.
\<close>

definition select_verifier :: "sig_prims \<Rightarrow> bool \<Rightarrow> 'a server_auth \<Rightarrow> rust_str \<Rightarrow> bytes \<Rightarrow> bytes \<Rightarrow>
    (verifier \<times> cert_info option) option res" where
  "select_verifier P sha1 st algorithm blob sig =
     (if is_cert_name algorithm then
        (case certificate_parse blob of
           Err _ \<Rightarrow> Ok None
         | Panic \<Rightarrow> Panic
         | Ok cert \<Rightarrow>
             bind_res (cert_plain_algorithm algorithm cert) (\<lambda>plain_opt.
               case plain_opt of
                 None \<Rightarrow> Ok None
               | Some plain \<Rightarrow>
                   (let sig_alg = signature_algorithm sig;
                        webauthn = (plain = SK_ECDSA \<and> sig_alg = Some WEBAUTHN_SK_ECDSA)
                    in if sig_alg \<noteq> Some plain \<and> \<not> webauthn then Ok None
                       else if \<not> user_cert_valid P sha1 st cert then Ok None
                       else case host_key_verify_by_name P sha1 plain (ct_embedded_pubkey_blob cert) of
                              Err _ \<Rightarrow> Ok None
                            | Panic \<Rightarrow> Panic
                            | Ok v \<Rightarrow> bind_res (from_certificate cert) (\<lambda>ci. Ok (Some (v, Some ci))))))
      else bind_res (host_key_verify_by_name P sha1 algorithm blob) (\<lambda>v. Ok (Some (v, None))))"

text \<open>
  Behind an accepted verdict: the restrictions of the key and of the certificate are merged with those
  of earlier factors; a conflict or an unmet security-key requirement turns the verdict into a refusal.
\<close>

definition accepts :: "auth_decision \<Rightarrow> bool" where
  "accepts decision = (case decision of Accept \<Rightarrow> True | PartialAccept _ \<Rightarrow> True | _ \<Rightarrow> False)"

definition restrict_decision :: "'a authenticator \<Rightarrow> rust_str \<Rightarrow> bytes \<Rightarrow> cert_info option \<Rightarrow> sk_signature option \<Rightarrow>
    auth_decision \<Rightarrow> 'a server_auth \<Rightarrow> auth_decision \<times> 'a server_auth" where
  "restrict_decision A user blob info security_key decision st =
     (if accepts decision then
        (let (key_caps, a) = key_restrictions A (sa_auth st) user blob;
             st = st\<lparr>sa_auth := a\<rparr>;
             attempt = merge_caps (map_option from_cert_info info) key_caps;
             sk_ok = (case security_key of
                        None \<Rightarrow> True
                      | Some sk \<Rightarrow> sk_check sk (Option.bind attempt (\<lambda>c. c)) = None);
             merged = Option.bind attempt (merge_caps (pending_cert_caps st))
         in case merged of
              Some c \<Rightarrow> if sk_ok then (decision, st\<lparr>pending_cert_caps := c\<rparr>) else (Reject, st)
            | None \<Rightarrow> (Reject, st))
      else (decision, st))"

definition handle_signed :: "sig_prims \<Rightarrow> bool \<Rightarrow> 'a authenticator \<Rightarrow> rust_str \<Rightarrow> rust_str \<Rightarrow> rust_str \<Rightarrow> bytes \<Rightarrow> bytes \<Rightarrow>
    bytes \<Rightarrow> bytes option \<Rightarrow> 'a server_auth \<Rightarrow> 'a auth_res" where
  "handle_signed P sha1 A user wire_user algorithm blob key_blob sig host_key st =
     (case select_verifier P sha1 st algorithm blob sig of
        Err e \<Rightarrow> (st, Err e)
      | Panic \<Rightarrow> (st, Panic)
      | Ok None \<Rightarrow> emit_failure A st
      | Ok (Some (v, info)) \<Rightarrow>
          (let signed = publickey_signed_data_bound (sa_session_id st) wire_user (sa_service st) algorithm blob host_key in
           case verifier_verify P v signed sig of
             Panic \<Rightarrow> (st, Panic)
           | Err _ \<Rightarrow> emit_failure A st
           | Ok _ \<Rightarrow>
               (let security_key = map_option (\<lambda>(flags, counter).
                      \<lparr>sk_flags = flags, sk_counter = counter, server_touch_required = sk_touch_required st,
                       server_verify_required = sk_verify_required st\<rparr>) (sk_signature_details sig);
                    (decision, a) = evaluate A (sa_auth st)
                      (AttemptPublicKey user algorithm blob False True info security_key);
                    (decision, st) = restrict_decision A user blob info security_key decision (st\<lparr>sa_auth := a\<rparr>);
                    st = (case decision of PartialAccept _ \<Rightarrow> st\<lparr>used_keys := used_keys st @ [key_blob]\<rparr> | _ \<Rightarrow> st);
                    st = record_success decision (publickey_line blob) st
                in apply_decision A decision user st)))"

definition handle_publickey :: "sig_prims \<Rightarrow> bool \<Rightarrow> 'a authenticator \<Rightarrow> rust_str \<Rightarrow> rust_str \<Rightarrow> bool \<Rightarrow> rust_str \<Rightarrow> bytes \<Rightarrow>
    bytes option \<Rightarrow> bytes option \<Rightarrow> 'a server_auth \<Rightarrow> 'a auth_res" where
  "handle_publickey P sha1 A user wire_user signature_present algorithm blob sig_opt host_key st =
     (let key = (if is_cert_name algorithm
                 then map_res ct_embedded_pubkey_blob (certificate_parse blob) else Ok blob)
      in case key of
           Err _ \<Rightarrow> emit_failure A st
         | Panic \<Rightarrow> (st, Panic)
         | Ok key_blob \<Rightarrow>
             if key_blob \<in> set (used_keys st) then emit_failure A st
             else if \<not> signature_present then handle_probe P sha1 A user algorithm blob st
             else case sig_opt of
                    None \<Rightarrow> (st, Err (Format ''auth: missing signature''))
                  | Some sig \<Rightarrow> handle_signed P sha1 A user wire_user algorithm blob key_blob sig host_key st)"

section \<open>Packets\<close>

definition handle_request :: "sig_prims \<Rightarrow> bool \<Rightarrow> 'a authenticator \<Rightarrow> userauth_request \<Rightarrow> 'a server_auth \<Rightarrow> 'a auth_res" where
  "handle_request P sha1 A req st =
     (let wire_user = ur_user req; user = account_name (ur_user req) in
      case ur_method req of
        AuthNone \<Rightarrow>
          if \<not> sa_allow_none st then emit_failure A st
          else (let (decision, a) = evaluate A (sa_auth st) (AttemptNone user)
                in apply_decision A decision user (st\<lparr>sa_auth := a\<rparr>))
      | AuthPassword _ password \<Rightarrow>
          (let (decision, a) = evaluate A (sa_auth st) (AttemptPassword user password)
           in apply_decision A decision user (record_success decision (lit ''password'') (st\<lparr>sa_auth := a\<rparr>)))
      | AuthPublicKey signature_present algorithm blob sig host_key \<Rightarrow>
          if host_key \<noteq> None \<and> sa_host_key st \<noteq> host_key then emit_failure A st
          else handle_publickey P sha1 A user wire_user signature_present algorithm blob sig host_key st
      | AuthKeyboardInteractive _ _ \<Rightarrow>
          (let (decision, a) = evaluate A (sa_auth st) (AttemptKeyboardInteractive user)
           in apply_decision A decision user (st\<lparr>sa_auth := a\<rparr>))
      | AuthOther _ _ \<Rightarrow> emit_failure A st)"

definition on_service_request :: "bytes \<Rightarrow> 'a server_auth \<Rightarrow> 'a auth_res" where
  "on_service_request payload st =
     (case service_request_decode payload of
        Err e \<Rightarrow> (st, Err e)
      | Panic \<Rightarrow> (st, Panic)
      | Ok req \<Rightarrow>
          if sm_service req \<noteq> lit ''ssh-userauth'' then (st, Err (Protocol ''auth: unknown service requested''))
          else (st\<lparr>sa_state := AwaitingRequest\<rparr>,
                Ok (StepSend (service_accept_encode \<lparr>sm_service = lit ''ssh-userauth''\<rparr>))))"

definition on_userauth_request :: "sig_prims \<Rightarrow> bool \<Rightarrow> 'a authenticator \<Rightarrow> bytes \<Rightarrow> 'a server_auth \<Rightarrow> 'a auth_res" where
  "on_userauth_request P sha1 A payload st =
     (case userauth_request_decode payload of
        Err e \<Rightarrow> (st, Err e)
      | Panic \<Rightarrow> (st, Panic)
      | Ok req \<Rightarrow>
          (case pin_user (account_name (ur_user req)) st of
             (st, Some step) \<Rightarrow> (st, Ok step)
           | (st, None) \<Rightarrow>
               if ur_service req \<noteq> sa_service st then emit_failure A st
               else handle_request P sha1 A req st))"

definition on_info_response :: "'a authenticator \<Rightarrow> bytes \<Rightarrow> 'a server_auth \<Rightarrow> 'a auth_res" where
  "on_info_response A payload st =
     (case info_response_decode payload of
        Err e \<Rightarrow> (st, Err e)
      | Panic \<Rightarrow> (st, Panic)
      | Ok resp \<Rightarrow>
          (case pending_user st of
             None \<Rightarrow> (st, Err (Protocol ''auth: info response without pending user''))
           | Some user \<Rightarrow>
               (let prompt_count = pending_prompt_count st;
                    responses = is_responses resp;
                    st = st\<lparr>pending_user := None, pending_prompt_count := None, sa_state := AwaitingRequest\<rparr>
                in if prompt_count \<noteq> Some (length responses) then emit_failure A st
                   else (let (decision, a) = evaluate_interactive A (sa_auth st) user responses
                         in apply_decision A decision user
                              (record_success decision (lit ''keyboard-interactive/pam'') (st\<lparr>sa_auth := a\<rparr>))))))"

definition server_auth_on_packet :: "sig_prims \<Rightarrow> bool \<Rightarrow> 'a authenticator \<Rightarrow> bytes \<Rightarrow> 'a server_auth \<Rightarrow> 'a auth_res" where
  "server_auth_on_packet P sha1 A payload st =
     (case payload of
        [] \<Rightarrow> (st, Err (Format ''auth: empty payload''))
      | msg_type # _ \<Rightarrow>
          (case sa_state st of
             AwaitingServiceRequest \<Rightarrow>
               if msg_type \<noteq> SSH_MSG_SERVICE_REQUEST then (st, Err (Protocol ''auth: expected SERVICE_REQUEST''))
               else on_service_request payload st
           | AwaitingRequest \<Rightarrow>
               if msg_type \<noteq> SSH_MSG_USERAUTH_REQUEST then (st, Err (Protocol ''auth: expected USERAUTH_REQUEST''))
               else on_userauth_request P sha1 A payload st
           | AwaitingInfoResponse \<Rightarrow>
               if msg_type \<noteq> SSH_MSG_USERAUTH_INFO_RESPONSE then (st, Err (Protocol ''auth: expected INFO_RESPONSE''))
               else on_info_response A payload st
           | AuthDone \<Rightarrow> (st, Ok (StepDisconnect ''auth: already finished''))))"

section \<open>The driving loop (server.rs)\<close>

text \<open>
  What the configuration yields for a user, once the user is known. The banner, which is read from a
  file here, is part of it.
\<close>

record resolved_policy =
  rp_methods :: "rust_str list"
  rp_banner :: "rust_str option"
  rp_auth_methods :: "rust_str list"
  rp_pubkey_auth_options :: "bool \<times> bool"
  rp_max_pk_ok :: u32

datatype auth_outcome =
    LoggedIn rust_str "auth_cert_caps option" rust_str
  | Dropped string
  | LoopError error
  | LoopPanic
  | MoreInput

definition MAX_AUTH_STEPS :: nat where "MAX_AUTH_STEPS = 64"

text \<open>
  The state the loop starts from. Time, CA algorithms, options, limits and the host key of the key
  exchange come from the configuration and the connection.
\<close>

definition server_auth_start :: "bytes \<Rightarrow> rust_str list \<Rightarrow> 'a \<Rightarrow> u32 option \<Rightarrow> u64 \<Rightarrow> rust_str list \<Rightarrow> bool \<times> bool \<Rightarrow>
    u32 \<Rightarrow> bytes option \<Rightarrow> 'a server_auth" where
  "server_auth_start session_id methods auth_impl tries now ca_algos options pk_ok host_key =
     (let st = server_auth_new session_id methods auth_impl;
          st = set_max_auth_tries tries st;
          st = set_now now st;
          st = set_ca_signature_algorithms ca_algos st;
          st = set_pubkey_auth_options (fst options) (snd options) st;
          st = set_max_pk_ok pk_ok st
      in case host_key of None \<Rightarrow> st | Some hk \<Rightarrow> set_host_key hk st)"

text \<open>One round before the packet is handed on: the policy is resolved once, with the first name seen.\<close>

definition resolve_user :: "'a authenticator \<Rightarrow> (rust_str \<Rightarrow> resolved_policy) \<Rightarrow> rust_str \<Rightarrow> 'a server_auth \<Rightarrow>
    'a server_auth \<times> bytes list" where
  "resolve_user A resolve user st =
     (let rp = resolve user;
          st = set_accepted_methods (rp_methods rp) st;
          st = set_max_pk_ok (rp_max_pk_ok rp) st;
          st = set_pubkey_auth_options (fst (rp_pubkey_auth_options rp)) (snd (rp_pubkey_auth_options rp)) st;
          st = notify_user_resolved A user (rp_auth_methods rp) st
      in (st, case rp_banner rp of
                None \<Rightarrow> []
              | Some text \<Rightarrow> [userauth_banner_encode \<lparr>ub_message = text, ub_language = []\<rparr>]))"

text \<open>
  The loop runs over the payloads that arrive; \<open>MoreInput\<close> stands for the wait for the next one. The
  result is the outcome, the payloads sent and the final state.
\<close>

fun do_server_auth :: "sig_prims \<Rightarrow> bool \<Rightarrow> 'a authenticator \<Rightarrow> (rust_str \<Rightarrow> resolved_policy) \<Rightarrow> nat \<Rightarrow> rust_str option \<Rightarrow>
    bytes list \<Rightarrow> 'a server_auth \<Rightarrow> bytes list \<Rightarrow> auth_outcome \<times> bytes list \<times> 'a server_auth" where
  "do_server_auth P sha1 A resolve 0 resolved payloads st outs = (LoopError (Protocol ''auth: too many steps''), outs, st)"
| "do_server_auth P sha1 A resolve (Suc n) resolved [] st outs = (MoreInput, outs, st)"
| "do_server_auth P sha1 A resolve (Suc n) resolved (payload # payloads) st outs =
     (let peek = peek_request payload;
          (st, outs, resolved) =
            (case peek of
               None \<Rightarrow> (st, outs, resolved)
             | Some (user, _) \<Rightarrow>
                 if resolved = None
                 then (let (st, out) = resolve_user A resolve user st in (st, outs @ out, Some user))
                 else (st, outs, resolved));
          (st, step) =
            (case peek of
               Some (user, method) \<Rightarrow>
                 if method \<noteq> lit ''none'' \<and> method \<notin> set (accepted_methods st)
                 then (case reject_unadvertised A user st of
                         (st, Ok (StepAuthenticated _ _ _ _)) \<Rightarrow> (st, Panic)
                       | r \<Rightarrow> r)
                 else server_auth_on_packet P sha1 A payload st
             | None \<Rightarrow> server_auth_on_packet P sha1 A payload st)
      in case step of
           Err e \<Rightarrow> (LoopError e, outs, st)
         | Panic \<Rightarrow> (LoopPanic, outs, st)
         | Ok (StepSend p) \<Rightarrow> do_server_auth P sha1 A resolve n resolved payloads st (outs @ [p])
         | Ok (StepAuthenticated p user caps info) \<Rightarrow> (LoggedIn user caps info, outs @ [p], st)
         | Ok (StepDisconnect reason) \<Rightarrow> (Dropped reason, outs, st))"

end
