(* ===== verification/AuthServerProps.thy ===== *)
theory AuthServerProps
  imports CertProps AuthCodec AuthServer
begin

text \<open>
  Properties of the server side of user authentication: it never panics; who is logged in was
  accepted by the authenticator for the user that was pinned, on the ground of a verified signature
  where a key was used; the authenticator is asked about nothing else; the number of failures is
  bounded; restrictions only tighten.
\<close>

unbundle bit_operations_syntax

section \<open>Verifiers do not panic\<close>

lemma safe_read_mpint: "safe_rd read_mpint"
  by (simp add: read_mpint_def safe_read_string)

lemmas safe_key_reads = safe_cert_reads safe_read_mpint mpint_to_uint_no_panic

lemma ecdsa_read_inner_no_panic: "ecdsa_read_inner b \<noteq> Panic"
  unfolding ecdsa_read_inner_def by (intro run_rd_no_panic safe_key_reads)

lemma verify_p256_inner_no_panic: "verify_p256_inner P pk m b \<noteq> Panic"
  using ecdsa_read_inner_no_panic [of b] by (auto simp: verify_p256_inner_def bind_res_eq_Panic split: prod.splits if_splits)

lemma webauthn_hash_no_panic: "webauthn_hash P msg origin client_data flags exts \<noteq> Panic"
  by (simp add: webauthn_hash_def)

lemma safe_rd_prod: "(\<And>x y. p = (x, y) \<Longrightarrow> safe_rd (f x y)) \<Longrightarrow> safe_rd (case p of (x, y) \<Rightarrow> f x y)"
  by (cases p) simp

lemma verifier_verify_no_panic: "verifier_verify P v msg sig \<noteq> Panic"
proof (cases v)
  case (VEd25519 pk)
  then show ?thesis by (simp add: ed25519_verify_def) (intro run_rd_no_panic safe_cert_reads)
next
  case (VMlDsa pk)
  then show ?thesis by (simp add: mldsa_verify_blob_def) (intro run_rd_no_panic safe_cert_reads)
next
  case (VEcdsa params pk)
  then show ?thesis
    by (simp add: ecdsa_verify_with_def) (intro run_rd_no_panic safe_cert_reads safe_rd_prod ecdsa_read_inner_no_panic)
next
  case (VSkEcdsa pk app)
  have "safe_rd (if w then rd_bind read_string (\<lambda>origin. rd_bind read_string (\<lambda>client_data. rd_bind read_string (\<lambda>exts.
      rd_bind (rd_res (webauthn_hash P msg origin client_data flags exts)) (\<lambda>h. rd_ok (h, exts))))) else rd_ok x)" for w flags x
    by (simp split: if_split) (intro conjI impI safe_cert_reads webauthn_hash_no_panic)
  then show ?thesis unfolding VSkEcdsa verifier_verify.simps sk_ecdsa_verify_def
    by (intro run_rd_no_panic safe_cert_reads safe_rd_prod verify_p256_inner_no_panic)
next
  case (VSkEd25519 pk app)
  then show ?thesis by (simp add: sk_ed25519_verify_def) (intro run_rd_no_panic safe_cert_reads)
next
  case (VRsa h n e k)
  then show ?thesis by (simp add: verify_rsa_def) (intro run_rd_no_panic safe_cert_reads)
qed

lemma blob_parsers_no_panic:
  "ed25519_from_public_blob b \<noteq> Panic" "mldsa_from_public_blob b \<noteq> Panic" "parse_public_blob P params b \<noteq> Panic"
  "sk_ecdsa_from_public_blob P b \<noteq> Panic" "sk_ed25519_from_public_blob b \<noteq> Panic" "parse_rsa_public_blob P b \<noteq> Panic"
  unfolding ed25519_from_public_blob_def mldsa_from_public_blob_def parse_public_blob_def sk_ecdsa_from_public_blob_def
    sk_ed25519_from_public_blob_def parse_rsa_public_blob_def
  by (intro run_rd_no_panic safe_key_reads)+

text \<open>What a reader guarantees of its result.\<close>

definition yields :: "'a rd \<Rightarrow> ('a \<Rightarrow> bool) \<Rightarrow> bool" where
  "yields m Q \<longleftrightarrow> (\<forall>r x r'. m r = Ok (x, r') \<longrightarrow> Q x)"

lemma yields_bind: "(\<And>x. yields (f x) Q) \<Longrightarrow> yields (rd_bind m f) Q"
  by (auto simp: yields_def rd_bind_eq_Ok)

lemma yields_check: "(c \<Longrightarrow> yields (f ()) Q) \<Longrightarrow> yields (rd_bind (rd_check c e) f) Q"
  by (auto simp: yields_def rd_check_bind split: if_splits)

lemma yields_ok: "Q x \<Longrightarrow> yields (rd_ok x) Q"
  by (simp add: yields_def)

lemma read_signed_part_yields: "yields read_signed_part (\<lambda>c. blob_type_to_plain (ct_key_type c) \<noteq> None)"
  unfolding read_signed_part_def
  by (rule yields_bind, rule yields_bind, rule yields_check) (intro yields_bind yields_ok, simp)

lemma parsed_key_type: "certificate_parse b = Ok c \<Longrightarrow> blob_type_to_plain (ct_key_type c) \<noteq> None"
  using read_signed_part_yields unfolding yields_def
  by (auto simp: certificate_parse_def run_rd_def map_res_eq_Ok rd_bind_eq_Ok bind_res_eq_Ok split: if_splits) blast

lemma embedded_algorithm_no_panic: "certificate_parse b = Ok c \<Longrightarrow> embedded_algorithm c \<noteq> Panic"
  using parsed_key_type [of b c] by (auto simp: embedded_algorithm_def expect_def split: option.split)

lemma plain_verifier_no_panic: "\<not> is_cert_name name \<Longrightarrow> host_key_verify_by_name P sha1 name blob \<noteq> Panic"
  by (subst host_key_verify_by_name.simps) (simp add: map_res_eq_Panic blob_parsers_no_panic)

lemma host_key_verify_by_name_no_panic: "host_key_verify_by_name P sha1 name blob \<noteq> Panic"
proof (cases "is_cert_name name")
  case True
  have "bind_res (certificate_parse blob) (\<lambda>cert. bind_res (embedded_algorithm cert) (\<lambda>embedded.
      if \<not> family_ok embedded plain then Err e
      else host_key_verify_by_name P sha1 plain (ct_embedded_pubkey_blob cert))) \<noteq> Panic"
    if "cert_name_to_plain name = Some plain" for plain e
    using embedded_algorithm_no_panic [of blob] plain_verifier_no_panic [OF cert_plain_not_cert [OF that]]
    by (auto simp: bind_res_eq_Panic certificate_parse_no_panic)
  then show ?thesis
    by (subst host_key_verify_by_name.simps) (simp add: map_res_eq_Panic blob_parsers_no_panic split: option.split)
qed (rule plain_verifier_no_panic)

lemma ca_algorithm_no_panic: "ca_algorithm c \<noteq> Panic"
  unfolding ca_algorithm_def by (intro run_rd_no_panic safe_cert_reads)

lemma from_certificate_no_panic: "from_certificate c \<noteq> Panic"
  by (simp add: from_certificate_def bind_res_eq_Panic ca_algorithm_no_panic)

lemma cert_plain_algorithm_no_panic: "certificate_parse b = Ok c \<Longrightarrow> cert_plain_algorithm alg c \<noteq> Panic"
  using embedded_algorithm_no_panic [of b c]
  by (auto simp: cert_plain_algorithm_def bind_res_eq_Panic split: option.split)
section \<open>The server does not panic\<close>

lemma failures_no_panic:
  "snd (emit_failure A st) \<noteq> Panic" "snd (emit_probe_failure A st) \<noteq> Panic" "snd (apply_decision A d u st) \<noteq> Panic"
  by (simp_all add: emit_failure_def emit_probe_failure_def apply_decision_def Let_def split: auth_decision.split)

lemma probe_cert_info_no_panic: "probe_cert_info P sha1 st alg blob \<noteq> Panic"
  using cert_plain_algorithm_no_panic [of blob] certificate_parse_no_panic [of blob]
  by (auto simp: probe_cert_info_def bind_res_eq_Panic from_certificate_no_panic split: res.split)

lemma select_verifier_no_panic: "select_verifier P sha1 st alg blob sig \<noteq> Panic"
  using cert_plain_algorithm_no_panic [of blob] certificate_parse_no_panic [of blob]
  by (auto simp: select_verifier_def bind_res_eq_Panic from_certificate_no_panic host_key_verify_by_name_no_panic Let_def
    split: res.split option.split)

lemma handle_probe_no_panic: "snd (handle_probe P sha1 A u alg blob st) \<noteq> Panic"
  using probe_cert_info_no_panic [of P sha1 st alg blob]
  by (auto simp: handle_probe_def failures_no_panic Let_def split: res.split option.split auth_decision.split prod.split)

lemma handle_signed_no_panic: "snd (handle_signed P sha1 A u wu alg blob kb sig hk st) \<noteq> Panic"
  using select_verifier_no_panic [of P sha1 st alg blob sig] verifier_verify_no_panic
  by (auto simp: handle_signed_def failures_no_panic Let_def split: res.split option.split prod.split)

lemma handle_publickey_no_panic: "snd (handle_publickey P sha1 A u wu sp alg blob sig hk st) \<noteq> Panic"
  using certificate_parse_no_panic [of blob]
  by (auto simp: handle_publickey_def failures_no_panic handle_probe_no_panic handle_signed_no_panic map_res_eq_Panic Let_def
    split: res.split option.split)

lemma handle_request_no_panic: "snd (handle_request P sha1 A req st) \<noteq> Panic"
  by (auto simp: handle_request_def failures_no_panic handle_publickey_no_panic Let_def
    split: auth_method_payload.split prod.split)

lemma server_auth_on_packet_no_panic: "snd (server_auth_on_packet P sha1 A payload st) \<noteq> Panic"
  using uar.total [of payload] srq.total [of payload] uis.total [of payload]
  by (auto simp: server_auth_on_packet_def on_service_request_def on_userauth_request_def on_info_response_def
    failures_no_panic handle_request_no_panic Let_def
    split: list.split auth_state.split res.split option.split prod.split)

lemma reject_unadvertised_sends: "reject_unadvertised A u st \<noteq> (st', Ok (StepAuthenticated p v c i))"
  by (auto simp: reject_unadvertised_def pin_user_def emit_failure_def failure_step_def Let_def
    split: option.splits prod.splits if_splits)

lemma reject_unadvertised_no_panic: "snd (reject_unadvertised A u st) \<noteq> Panic"
  by (auto simp: reject_unadvertised_def failures_no_panic split: option.split prod.split)

text \<open>One packet in the loop, behind the resolution of the policy.\<close>

definition auth_turn :: "sig_prims \<Rightarrow> bool \<Rightarrow> 'a authenticator \<Rightarrow> bytes \<Rightarrow> 'a server_auth \<Rightarrow> 'a auth_res" where
  "auth_turn P sha1 A payload st =
     (case peek_request payload of
        Some (user, method) \<Rightarrow>
          if method \<noteq> lit ''none'' \<and> method \<notin> set (accepted_methods st)
          then reject_unadvertised A user st else server_auth_on_packet P sha1 A payload st
      | None \<Rightarrow> server_auth_on_packet P sha1 A payload st)"

lemma auth_turn_no_panic: "auth_turn P sha1 A payload st \<noteq> (st', Panic)"
  using server_auth_on_packet_no_panic [of P sha1 A payload st] reject_unadvertised_no_panic [of A _ st]
  by (auto simp: auth_turn_def split: option.split) (metis snd_conv)

text \<open>The loop in these terms: the \<open>unreachable!\<close> behind a refusal is not reached.\<close>

definition auth_resolve :: "'a authenticator \<Rightarrow> (rust_str \<Rightarrow> resolved_policy) \<Rightarrow> bytes \<Rightarrow> rust_str option \<Rightarrow> 'a server_auth \<Rightarrow>
    'a server_auth \<times> bytes list \<times> rust_str option" where
  "auth_resolve A resolve payload resolved st =
     (case peek_request payload of
        None \<Rightarrow> (st, [], resolved)
      | Some (user, _) \<Rightarrow>
          if resolved = None
          then (let (st, out) = resolve_user A resolve user st in (st, out, Some user))
          else (st, [], resolved))"

lemma do_server_auth_turn:
  "do_server_auth P sha1 A resolve (Suc n) resolved (payload # payloads) st outs =
     (let (st, out, resolved) = auth_resolve A resolve payload resolved st;
          (st, step) = auth_turn P sha1 A payload st
      in case step of
           Err e \<Rightarrow> (LoopError e, outs @ out, st)
         | Panic \<Rightarrow> (LoopPanic, outs @ out, st)
         | Ok (StepSend p) \<Rightarrow> do_server_auth P sha1 A resolve n resolved payloads st (outs @ out @ [p])
         | Ok (StepAuthenticated p user caps info) \<Rightarrow> (LoggedIn user caps info, outs @ out @ [p], st)
         | Ok (StepDisconnect reason) \<Rightarrow> (Dropped reason, outs @ out, st))"
proof -
  have unreachable: "(case reject_unadvertised A user st of (st, Ok (StepAuthenticated _ _ _ _)) \<Rightarrow> (st, Panic) | r \<Rightarrow> r)
      = reject_unadvertised A user st" for user st
    using reject_unadvertised_sends [of A user st]
    by (auto split: prod.split res.split server_step.split)
  show ?thesis
    by (simp add: auth_resolve_def auth_turn_def unreachable Let_def split: option.split prod.split)
qed

lemma do_server_auth_no_panic:
  "fst (do_server_auth P sha1 A resolve n resolved payloads st outs) \<noteq> LoopPanic"
proof (induction n arbitrary: resolved payloads st outs)
  case (Suc n)
  show ?case
  proof (cases payloads)
    case (Cons payload rest)
    show ?thesis
      unfolding Cons do_server_auth_turn
      by (auto simp: Let_def auth_turn_no_panic Suc split: prod.split res.split server_step.split)
  qed simp
qed simp

declare do_server_auth.simps(3) [simp del]
section \<open>What the authenticator may be asked\<close>

text \<open>
  An abstract account of one login: the questions put to the authenticator, with the verdict each
  came to. The server may only ask about one user; about \<open>none\<close> only where that is allowed; about a
  key only with a valid certificate, a key not used for an earlier factor and, past the probe, a
  signature that verifies on the data of this session; and it passes on answers to a prompt only in
  the number asked for, right after the question. Methods are those of the user's policy.
\<close>

fun attempt_user :: "auth_attempt \<Rightarrow> rust_str" where
  "attempt_user (AttemptNone u) = u"
| "attempt_user (AttemptPassword u _) = u"
| "attempt_user (AttemptPublicKey u _ _ _ _ _ _) = u"
| "attempt_user (AttemptKeyboardInteractive u) = u"

fun attempt_method :: "auth_attempt \<Rightarrow> rust_str" where
  "attempt_method (AttemptNone _) = lit ''none''"
| "attempt_method (AttemptPassword _ _) = lit ''password''"
| "attempt_method (AttemptPublicKey _ _ _ _ _ _ _) = lit ''publickey''"
| "attempt_method (AttemptKeyboardInteractive _) = lit ''keyboard-interactive''"

definition key_of :: "rust_str \<Rightarrow> bytes \<Rightarrow> bytes res" where
  "key_of algorithm blob =
     (if is_cert_name algorithm then map_res ct_embedded_pubkey_blob (certificate_parse blob) else Ok blob)"

definition sk_of :: "'a server_auth \<Rightarrow> bytes \<Rightarrow> sk_signature option" where
  "sk_of S sig = map_option (\<lambda>(flags, counter).
     \<lparr>sk_flags = flags, sk_counter = counter, server_touch_required = sk_touch_required S,
      server_verify_required = sk_verify_required S\<rparr>) (sk_signature_details sig)"

definition signed_for :: "sig_prims \<Rightarrow> bool \<Rightarrow> 'a server_auth \<Rightarrow> rust_str \<Rightarrow> rust_str \<Rightarrow> bytes \<Rightarrow> cert_info option \<Rightarrow>
    sk_signature option \<Rightarrow> bool" where
  "signed_for P sha1 S user algorithm blob info sk \<longleftrightarrow>
     (\<exists>wire_user sig hk v. account_name wire_user = user \<and> (hk = None \<or> hk = sa_host_key S)
        \<and> select_verifier P sha1 S algorithm blob sig = Ok (Some (v, info))
        \<and> verifier_verify P v (publickey_signed_data_bound (sa_session_id S) wire_user (sa_service S) algorithm blob hk) sig = Ok ()
        \<and> sk = sk_of S sig)"

lemma signed_forI:
  "account_name wire_user = user \<Longrightarrow> hk = None \<or> hk = sa_host_key S \<Longrightarrow>
   select_verifier P sha1 S alg blob sig = Ok (Some (v, info)) \<Longrightarrow>
   verifier_verify P v (publickey_signed_data_bound (sa_session_id S) wire_user (sa_service S) alg blob hk) sig = Ok () \<Longrightarrow>
   sk = sk_of S sig \<Longrightarrow> signed_for P sha1 S user alg blob info sk"
  unfolding signed_for_def by blast

fun sound_attempt :: "sig_prims \<Rightarrow> bool \<Rightarrow> 'a server_auth \<Rightarrow> bytes list \<Rightarrow> auth_attempt \<Rightarrow> bool" where
  "sound_attempt P sha1 S used (AttemptNone u) = sa_allow_none S"
| "sound_attempt P sha1 S used (AttemptPassword u p) = True"
| "sound_attempt P sha1 S used (AttemptKeyboardInteractive u) = True"
| "sound_attempt P sha1 S used (AttemptPublicKey u alg blob probe_only verified info sk) =
     ((\<exists>k. key_of alg blob = Ok k \<and> k \<notin> set used) \<and>
      (if probe_only then \<not> verified \<and> sk = None \<and> probe_cert_info P sha1 S alg blob = Ok (Some info)
       else verified \<and> signed_for P sha1 S u alg blob info sk))"

fun is_probe :: "auth_attempt \<Rightarrow> bool" where
  "is_probe (AttemptPublicKey _ _ _ probe_only _ _ _) = probe_only"
| "is_probe _ = False"

datatype question = Asked auth_attempt | Answers "rust_str list"

type_synonym verdicts = "(question \<times> auth_decision) list"

text \<open>The keys that earlier factors were accepted for.\<close>

fun factor_keys :: "verdicts \<Rightarrow> bytes list" where
  "factor_keys [] = []"
| "factor_keys ((Asked (AttemptPublicKey u alg blob False v i s), PartialAccept m) # qs) =
     (case key_of alg blob of Ok k \<Rightarrow> k # factor_keys qs | _ \<Rightarrow> factor_keys qs)"
| "factor_keys (_ # qs) = factor_keys qs"

inductive consulted :: "sig_prims \<Rightarrow> bool \<Rightarrow> 'a authenticator \<Rightarrow> 'a server_auth \<Rightarrow> rust_str \<Rightarrow> verdicts \<Rightarrow> 'a \<Rightarrow> bool"
  for P sha1 A S user where
  start: "consulted P sha1 A S user [] (sa_auth S)"
| asked: "consulted P sha1 A S user qs a \<Longrightarrow> attempt_user at = user \<Longrightarrow>
    attempt_method at = lit ''none'' \<or> attempt_method at \<in> set (accepted_methods S) \<Longrightarrow>
    sound_attempt P sha1 S (factor_keys qs) at \<Longrightarrow> evaluate A a at = (d, a') \<Longrightarrow>
    consulted P sha1 A S user (qs @ [(Asked at, d)]) a'"
| restricted: "consulted P sha1 A S user qs a \<Longrightarrow> at = AttemptPublicKey user alg blob False True info sk \<Longrightarrow>
    lit ''publickey'' \<in> set (accepted_methods S) \<Longrightarrow> sound_attempt P sha1 S (factor_keys qs) at \<Longrightarrow> evaluate A a at = (d, a') \<Longrightarrow>
    key_restrictions A a' user blob = (caps, a'') \<Longrightarrow> d' = d \<or> d' = Reject \<Longrightarrow>
    consulted P sha1 A S user (qs @ [(Asked at, d')]) a''"
| answered: "consulted P sha1 A S user qs a \<Longrightarrow> qs \<noteq> [] \<Longrightarrow> snd (last qs) = InteractiveRequest n i prompts \<Longrightarrow>
    length answers = length prompts \<Longrightarrow> evaluate_interactive A a user answers = (d, a') \<Longrightarrow>
    consulted P sha1 A S user (qs @ [(Answers answers, d)]) a'"

definition same_setup :: "'a server_auth \<Rightarrow> 'a server_auth \<Rightarrow> bool" where
  "same_setup S st \<longleftrightarrow> sa_service st = sa_service S \<and> sa_session_id st = sa_session_id S \<and> sa_host_key st = sa_host_key S
     \<and> accepted_methods st = accepted_methods S \<and> sa_allow_none st = sa_allow_none S
     \<and> sk_touch_required st = sk_touch_required S \<and> sk_verify_required st = sk_verify_required S \<and> sa_now st = sa_now S \<and> ca_signature_algorithms st = ca_signature_algorithms S"

definition auth_inv :: "sig_prims \<Rightarrow> bool \<Rightarrow> 'a authenticator \<Rightarrow> 'a server_auth \<Rightarrow> rust_str \<Rightarrow> verdicts \<Rightarrow> 'a server_auth \<Rightarrow> bool" where
  "auth_inv P sha1 A S user qs st \<longleftrightarrow>
     consulted P sha1 A S user qs (sa_auth st) \<and> same_setup S st \<and> used_keys st = factor_keys qs
     \<and> first_user st = Some user
     \<and> (sa_state st = AwaitingInfoResponse \<longrightarrow> pending_user st = Some user \<and> qs \<noteq> []
          \<and> (\<exists>n i prompts. snd (last qs) = InteractiveRequest n i prompts \<and> pending_prompt_count st = Some (length prompts)))"

definition vouched :: "rust_str \<Rightarrow> verdicts \<Rightarrow> server_step res \<Rightarrow> bool" where
  "vouched user qs step \<longleftrightarrow> (\<forall>p u caps info. step = Ok (StepAuthenticated p u caps info) \<longrightarrow>
     u = user \<and> qs \<noteq> [] \<and> snd (last qs) = Accept \<and> (\<forall>at. fst (last qs) = Asked at \<longrightarrow> \<not> is_probe at))"

definition accounted :: "sig_prims \<Rightarrow> bool \<Rightarrow> 'a authenticator \<Rightarrow> 'a server_auth \<Rightarrow> rust_str \<Rightarrow> 'a auth_res \<Rightarrow> bool" where
  "accounted P sha1 A S user r \<longleftrightarrow> (\<exists>qs. auth_inv P sha1 A S user qs (fst r) \<and> vouched user qs (snd r))"

lemma same_setup_checks:
  assumes "same_setup S st"
  shows "probe_cert_info P sha1 st = probe_cert_info P sha1 S" "select_verifier P sha1 st = select_verifier P sha1 S"
proof -
  have "user_cert_valid P sha1 st = user_cert_valid P sha1 S"
    using assms by (simp add: fun_eq_iff same_setup_def user_cert_valid_def)
  then show "probe_cert_info P sha1 st = probe_cert_info P sha1 S" "select_verifier P sha1 st = select_verifier P sha1 S"
    by (intro ext; simp only: probe_cert_info_def select_verifier_def)+
qed

lemma factor_keys_append: "factor_keys (qs @ rs) = factor_keys qs @ factor_keys rs"
  by (induction qs rule: factor_keys.induct) (auto split: res.split)

text \<open>Verdicts and failures ask nothing.\<close>

lemma quiet_accounted:
  "auth_inv P sha1 A S user qs st \<Longrightarrow> (\<And>p u caps info. r \<noteq> Ok (StepAuthenticated p u caps info)) \<Longrightarrow>
     accounted P sha1 A S user (st, r)"
  by (auto simp: accounted_def vouched_def)

lemma emit_failure_accounted:
  "auth_inv P sha1 A S user qs st \<Longrightarrow> accounted P sha1 A S user (emit_failure A st)"
  unfolding accounted_def
  by (rule exI [of _ qs]) (auto simp: emit_failure_def failure_step_def auth_inv_def same_setup_def vouched_def Let_def)

lemma emit_probe_failure_accounted:
  "auth_inv P sha1 A S user qs st \<Longrightarrow> accounted P sha1 A S user (emit_probe_failure A st)"
  using emit_failure_accounted [of P sha1 A S user qs "st\<lparr>pk_ok_failures := sat_add (pk_ok_failures st) 1\<rparr>"]
  by (auto simp: emit_probe_failure_def failure_step_def auth_inv_def same_setup_def vouched_def Let_def accounted_def)

lemma record_success_fields:
  "accepted_methods (record_success d line st) = accepted_methods st" "sa_auth (record_success d line st) = sa_auth st"
  "same_setup S (record_success d line st) = same_setup S st" "used_keys (record_success d line st) = used_keys st"
  "first_user (record_success d line st) = first_user st" "sa_state (record_success d line st) = sa_state st"
  "pending_user (record_success d line st) = pending_user st"
  "pending_prompt_count (record_success d line st) = pending_prompt_count st"
  "pending_cert_caps (record_success d line st) = pending_cert_caps st"
  by (simp_all add: record_success_def same_setup_def split: auth_decision.split)

lemma record_success_inv: "auth_inv P sha1 A S user qs st \<Longrightarrow> auth_inv P sha1 A S user qs (record_success d line st)"
  by (simp add: auth_inv_def record_success_fields)

lemma apply_decision_accounted:
  assumes inv: "auth_inv P sha1 A S user qs st" and d: "qs \<noteq> []" "snd (last qs) = d"
    and at: "\<And>at. fst (last qs) = Asked at \<Longrightarrow> \<not> is_probe at"
  shows "accounted P sha1 A S user (apply_decision A d user st)"
proof (cases d)
  case Reject
  then show ?thesis using emit_failure_accounted [OF inv] by (simp add: apply_decision_def)
qed (use inv d at in \<open>auto simp: apply_decision_def accounted_def auth_inv_def vouched_def same_setup_def intro!: exI [of _ qs]\<close>)

lemma consulted_inv:
  assumes "consulted P sha1 A S user qs a" "same_setup S st" "used_keys st = factor_keys qs"
    "first_user st = Some user" "sa_state st \<noteq> AwaitingInfoResponse"
  shows "auth_inv P sha1 A S user qs (st\<lparr>sa_auth := a\<rparr>)"
  using assms by (simp add: auth_inv_def same_setup_def)

text \<open>A question that is no public-key attempt.\<close>

lemma question_inv:
  assumes inv: "auth_inv P sha1 A S user qs st" and st: "sa_state st \<noteq> AwaitingInfoResponse"
    and at: "attempt_user at = user" "attempt_method at = lit ''none'' \<or> attempt_method at \<in> set (accepted_methods st)"
      "sound_attempt P sha1 S (factor_keys qs) at" and ev: "evaluate A (sa_auth st) at = (d, a)"
    and new: "factor_keys [(Asked at, d)] = []"
  shows "auth_inv P sha1 A S user (qs @ [(Asked at, d)]) (st\<lparr>sa_auth := a\<rparr>)"
proof (rule consulted_inv)
  show "consulted P sha1 A S user (qs @ [(Asked at, d)]) a"
    using inv at ev by (intro asked [where a = "sa_auth st"]) (auto simp: auth_inv_def same_setup_def)
qed (use inv st new in \<open>auto simp: auth_inv_def factor_keys_append\<close>)

lemma handle_probe_accounted:
  assumes inv: "auth_inv P sha1 A S user qs st" and st: "sa_state st \<noteq> AwaitingInfoResponse"
    and m: "lit ''publickey'' \<in> set (accepted_methods st)" and k: "key_of alg blob = Ok k" "k \<notin> set (used_keys st)"
  shows "accounted P sha1 A S user (handle_probe P sha1 A user alg blob st)"
proof (cases "probe_cert_info P sha1 st alg blob")
  case (Ok r)
  show ?thesis
  proof (cases r)
    case None
    then show ?thesis using Ok emit_probe_failure_accounted [OF inv] by (simp add: handle_probe_def)
  next
    case (Some info)
    define at where "at = AttemptPublicKey user alg blob True False info None"
    obtain d a where ev: "evaluate A (sa_auth st) at = (d, a)" by fastforce
    have sound: "sound_attempt P sha1 S (factor_keys qs) at"
      using Ok Some k inv by (auto simp: at_def auth_inv_def same_setup_checks [symmetric])
    have inv': "auth_inv P sha1 A S user (qs @ [(Asked at, d)]) (st\<lparr>sa_auth := a\<rparr>)"
      by (rule question_inv [OF inv st _ _ sound ev]) (use m in \<open>auto simp: at_def\<close>)
    show ?thesis
      using Ok Some ev emit_probe_failure_accounted [OF inv'] quiet_accounted [OF inv']
      by (simp add: handle_probe_def at_def [symmetric] Let_def split: auth_decision.split)
  qed
qed (use quiet_accounted [OF inv] in \<open>simp_all add: handle_probe_def\<close>)

lemma restrict_decision_cases:
  assumes "restrict_decision A user blob info sk d st = (d', st')"
  obtains "d' = d" "st' = st" "\<not> accepts d"
  | caps a c where "key_restrictions A (sa_auth st) user blob = (caps, a)" "d' = d"
      "st' = st\<lparr>sa_auth := a, pending_cert_caps := c\<rparr>"
      "Option.bind (merge_caps (map_option from_cert_info info) caps) (merge_caps (pending_cert_caps st)) = Some c"
      "\<And>s. sk = Some s \<Longrightarrow> sk_check s (Option.bind (merge_caps (map_option from_cert_info info) caps) (\<lambda>c. c)) = None"
  | caps a where "key_restrictions A (sa_auth st) user blob = (caps, a)" "d' = Reject" "st' = st\<lparr>sa_auth := a\<rparr>"
proof (cases "accepts d")
  case True
  obtain caps a where key: "key_restrictions A (sa_auth st) user blob = (caps, a)" by fastforce
  let ?at = "merge_caps (map_option from_cert_info info) caps"
  let ?sk = "case sk of None \<Rightarrow> True | Some s \<Rightarrow> sk_check s (Option.bind ?at (\<lambda>c. c)) = None"
  let ?m = "Option.bind ?at (merge_caps (pending_cert_caps st))"
  have r: "(case ?m of Some c \<Rightarrow> if ?sk then (d, st\<lparr>sa_auth := a, pending_cert_caps := c\<rparr>) else (Reject, st\<lparr>sa_auth := a\<rparr>)
      | None \<Rightarrow> (Reject, st\<lparr>sa_auth := a\<rparr>)) = (d', st')"
    using assms True key by (simp add: restrict_decision_def Let_def)
  show thesis
  proof (cases ?m)
    case None
    then show thesis using r that(3) [OF key] by simp
  next
    case (Some c)
    show thesis
    proof (cases ?sk)
      case True
      have "d' = d" "st' = st\<lparr>sa_auth := a, pending_cert_caps := c\<rparr>" using r Some True by simp_all
      moreover have "sk_check s (Option.bind ?at (\<lambda>c. c)) = None" if "sk = Some s" for s using True that by simp
      ultimately show thesis using that(2) [OF key _ _ Some] by blast
    next
      case False
      then show thesis using r Some that(3) [OF key] by simp
    qed
  qed
next
  case False
  then show thesis using assms that(1) by (simp add: restrict_decision_def)
qed

lemma restrict_decision_consulted:
  assumes inv: "consulted P sha1 A S user qs (sa_auth st0)" and at: "at = AttemptPublicKey user alg blob False True info sk"
    and m: "lit ''publickey'' \<in> set (accepted_methods S)" and sound: "sound_attempt P sha1 S (factor_keys qs) at"
    and ev: "evaluate A (sa_auth st0) at = (d, a)"
    and r: "restrict_decision A user blob info sk d (st0\<lparr>sa_auth := a\<rparr>) = (d', st')"
  shows "consulted P sha1 A S user (qs @ [(Asked at, d')]) (sa_auth st')"
  using r
proof (cases rule: restrict_decision_cases)
  case 1
  then show ?thesis using inv at m sound ev by (auto intro: asked)
next
  case (2 caps a c)
  then show ?thesis using inv at m sound ev by (auto intro: restricted)
next
  case (3 caps a)
  then show ?thesis using inv at m sound ev by (auto intro: restricted)
qed

lemma restrict_decision_fields:
  assumes "restrict_decision A user blob info sk d st = (d', st')"
  shows "same_setup S st' = same_setup S st" "used_keys st' = used_keys st" "first_user st' = first_user st"
    "sa_state st' = sa_state st" "accepted_methods st' = accepted_methods st"
  using assms by (cases rule: restrict_decision_cases; simp add: same_setup_def)+

lemma handle_signed_accounted:
  assumes inv: "auth_inv P sha1 A S user qs st" and st: "sa_state st \<noteq> AwaitingInfoResponse"
    and m: "lit ''publickey'' \<in> set (accepted_methods st)" and k: "key_of alg blob = Ok k" "k \<notin> set (used_keys st)"
    and wu: "account_name wu = user" and hk: "hk = None \<or> hk = sa_host_key st"
  shows "accounted P sha1 A S user (handle_signed P sha1 A user wu alg blob k sig hk st)"
proof (cases "select_verifier P sha1 st alg blob sig")
  case sel: (Ok r)
  define signed where "signed = publickey_signed_data_bound (sa_session_id st) wu (sa_service st) alg blob hk"
  show ?thesis
  proof (cases "\<exists>v info. r = Some (v, info) \<and> verifier_verify P v signed sig = Ok ()")
    case False
    then show ?thesis
      using sel emit_failure_accounted [OF inv] quiet_accounted [OF inv]
      by (auto simp: handle_signed_def signed_def Let_def split: option.split prod.split res.split)
  next
    case True
    then obtain v info where v: "r = Some (v, info)" "verifier_verify P v signed sig = Ok ()" by blast
    define sk where "sk = map_option (\<lambda>(flags, counter).
        \<lparr>sk_flags = flags, sk_counter = counter, server_touch_required = sk_touch_required st,
         server_verify_required = sk_verify_required st\<rparr>) (sk_signature_details sig)"
    define at where "at = AttemptPublicKey user alg blob False True info sk"
    obtain d a where ev: "evaluate A (sa_auth st) at = (d, a)" by fastforce
    obtain d' st' where r: "restrict_decision A user blob info sk d (st\<lparr>sa_auth := a\<rparr>) = (d', st')" by fastforce
    have sound: "sound_attempt P sha1 S (factor_keys qs) at"
    proof -
      have "signed_for P sha1 S user alg blob info sk"
      proof (rule signed_forI [OF wu])
        have same: "same_setup S st" using inv by (simp add: auth_inv_def)
        show "hk = None \<or> hk = sa_host_key S" using hk same by (simp add: same_setup_def)
        show "select_verifier P sha1 S alg blob sig = Ok (Some (v, info))" using sel v same by (simp add: same_setup_checks)
        show "verifier_verify P v (publickey_signed_data_bound (sa_session_id S) wu (sa_service S) alg blob hk) sig = Ok ()"
          using v same by (simp add: signed_def same_setup_def)
        show "sk = sk_of S sig" using same by (simp add: sk_def sk_of_def same_setup_def)
      qed
      then show ?thesis using k inv by (auto simp: at_def auth_inv_def)
    qed
    have asked: "consulted P sha1 A S user (qs @ [(Asked at, d')]) (sa_auth st')"
      by (rule restrict_decision_consulted [OF _ at_def _ sound ev r]) (use inv m in \<open>simp_all add: auth_inv_def same_setup_def\<close>)
    define st'' where "st'' = (case d' of PartialAccept _ \<Rightarrow> st'\<lparr>used_keys := used_keys st' @ [k]\<rparr> | _ \<Rightarrow> st')"
    have inv': "auth_inv P sha1 A S user (qs @ [(Asked at, d')]) (record_success d' line st'')" for line
    proof (rule record_success_inv)
      note f = restrict_decision_fields [OF r]
      have "used_keys st'' = factor_keys (qs @ [(Asked at, d')])"
        using inv f k by (cases d') (auto simp: st''_def factor_keys_append at_def auth_inv_def)
      moreover have "sa_auth st'' = sa_auth st'" "accepted_methods st'' = accepted_methods st" "first_user st'' = first_user st"
        "sa_state st'' = sa_state st" "same_setup S st'' = same_setup S st"
        using f by (auto simp: st''_def same_setup_def split: auth_decision.split)
      ultimately show "auth_inv P sha1 A S user (qs @ [(Asked at, d')]) st''"
        using asked inv st by (simp add: auth_inv_def)
    qed
    have "handle_signed P sha1 A user wu alg blob k sig hk st = apply_decision A d' user (record_success d' (publickey_line blob) st'')"
      using sel v ev r by (simp add: handle_signed_def signed_def [symmetric] sk_def [symmetric] at_def [symmetric] st''_def Let_def)
    moreover have "accounted P sha1 A S user (apply_decision A d' user (record_success d' (publickey_line blob) st''))"
      by (rule apply_decision_accounted [OF inv']) (auto simp: at_def)
    ultimately show ?thesis by simp
  qed
qed (use quiet_accounted [OF inv] in \<open>simp_all add: handle_signed_def\<close>)

lemma handle_publickey_accounted:
  assumes inv: "auth_inv P sha1 A S user qs st" and st: "sa_state st \<noteq> AwaitingInfoResponse"
    and m: "lit ''publickey'' \<in> set (accepted_methods st)" and wu: "account_name wu = user" and hk: "hk = None \<or> hk = sa_host_key st"
  shows "accounted P sha1 A S user (handle_publickey P sha1 A user wu sp alg blob sig hk st)"
proof (cases "key_of alg blob")
  case (Ok k)
  then show ?thesis
    using emit_failure_accounted [OF inv] quiet_accounted [OF inv]
      handle_probe_accounted [OF inv st m] handle_signed_accounted [OF inv st m _ _ wu hk]
    by (auto simp: handle_publickey_def key_of_def [symmetric] Let_def split: option.split)
next
  case (Err e)
  then show ?thesis
    using emit_failure_accounted [OF inv] by (simp add: handle_publickey_def key_of_def [symmetric] Let_def)
next
  case Panic
  then show ?thesis
    using quiet_accounted [OF inv] by (simp add: handle_publickey_def key_of_def [symmetric] Let_def)
qed

text \<open>The method a request stands for in the policy.\<close>

fun policy_method :: "auth_method_payload \<Rightarrow> rust_str" where
  "policy_method AuthNone = lit ''none''"
| "policy_method (AuthPassword _ _) = lit ''password''"
| "policy_method (AuthPublicKey _ _ _ _ _) = lit ''publickey''"
| "policy_method (AuthKeyboardInteractive _ _) = lit ''keyboard-interactive''"
| "policy_method (AuthOther _ _) = []"

lemma peek_request_eq:
  "peek_request payload = (case userauth_request_decode payload of
     Ok req \<Rightarrow> Some (account_name (ur_user req), policy_method (ur_method req)) | _ \<Rightarrow> None)"
  by (auto simp: peek_request_def ok_opt_def split: res.split auth_method_payload.split)

lemma plain_question_accounted:
  assumes inv: "auth_inv P sha1 A S user qs st" and st: "sa_state st \<noteq> AwaitingInfoResponse"
    and at: "attempt_user at = user" "attempt_method at = lit ''none'' \<or> attempt_method at \<in> set (accepted_methods st)"
      "sound_attempt P sha1 S (factor_keys qs) at" "\<And>d. factor_keys [(Asked at, d)] = []" "\<not> is_probe at"
    and ev: "evaluate A (sa_auth st) at = (d, a)"
  shows "accounted P sha1 A S user (apply_decision A d user (st\<lparr>sa_auth := a\<rparr>))"
    "accounted P sha1 A S user (apply_decision A d user (record_success d line (st\<lparr>sa_auth := a\<rparr>)))"
proof -
  have inv': "auth_inv P sha1 A S user (qs @ [(Asked at, d)]) (st\<lparr>sa_auth := a\<rparr>)"
    by (rule question_inv [OF inv st at(1-3) ev at(4)])
  show "accounted P sha1 A S user (apply_decision A d user (st\<lparr>sa_auth := a\<rparr>))"
    by (rule apply_decision_accounted [OF inv']) (use at(5) in auto)
  show "accounted P sha1 A S user (apply_decision A d user (record_success d line (st\<lparr>sa_auth := a\<rparr>)))"
    by (rule apply_decision_accounted [OF record_success_inv [OF inv']]) (use at(5) in auto)
qed

lemma handle_request_accounted:
  assumes inv: "auth_inv P sha1 A S user qs st" and st: "sa_state st \<noteq> AwaitingInfoResponse"
    and u: "account_name (ur_user req) = user"
    and m: "policy_method (ur_method req) = lit ''none'' \<or> policy_method (ur_method req) \<in> set (accepted_methods st)"
  shows "accounted P sha1 A S user (handle_request P sha1 A req st)"
proof (cases "ur_method req")
  case AuthNone
  have "accounted P sha1 A S user (apply_decision A d user (st\<lparr>sa_auth := a\<rparr>))"
    if "sa_allow_none st" "evaluate A (sa_auth st) (AttemptNone user) = (d, a)" for d a
    by (rule plain_question_accounted(1) [OF inv st _ _ _ _ _ that(2)])
      (use that inv in \<open>simp_all add: auth_inv_def same_setup_def\<close>)
  then show ?thesis using AuthNone u emit_failure_accounted [OF inv]
    by (auto simp: handle_request_def Let_def split: prod.split)
next
  case (AuthPassword np p)
  have "accounted P sha1 A S user (apply_decision A d user (record_success d line (st\<lparr>sa_auth := a\<rparr>)))"
    if "evaluate A (sa_auth st) (AttemptPassword user p) = (d, a)" for d a line
    by (rule plain_question_accounted(2) [OF inv st _ _ _ _ _ that]) (use m AuthPassword in simp_all)
  then show ?thesis using u AuthPassword by (simp add: handle_request_def Let_def split: prod.split)
next
  case (AuthPublicKey sp alg blob sig hk)
  have "lit ''publickey'' \<noteq> lit ''none''" by (simp add: known_name_facts)
  then show ?thesis using AuthPublicKey u m emit_failure_accounted [OF inv] handle_publickey_accounted [OF inv st _ u, of hk]
    by (auto simp: handle_request_def Let_def)
next
  case (AuthKeyboardInteractive l s)
  have "accounted P sha1 A S user (apply_decision A d user (st\<lparr>sa_auth := a\<rparr>))"
    if "evaluate A (sa_auth st) (AttemptKeyboardInteractive user) = (d, a)" for d a
    by (rule plain_question_accounted(1) [OF inv st _ _ _ _ _ that]) (use m AuthKeyboardInteractive in simp_all)
  then show ?thesis using u AuthKeyboardInteractive by (simp add: handle_request_def Let_def split: prod.split)
next
  case (AuthOther n t)
  then show ?thesis using emit_failure_accounted [OF inv] by (simp add: handle_request_def Let_def)
qed

lemma on_info_response_accounted:
  assumes inv: "auth_inv P sha1 A S user qs st" and st: "sa_state st = AwaitingInfoResponse"
  shows "accounted P sha1 A S user (on_info_response A payload st)"
proof (cases "info_response_decode payload")
  case (Ok resp)
  define st1 where "st1 = st\<lparr>pending_user := None, pending_prompt_count := None, sa_state := AwaitingRequest\<rparr>"
  obtain n i prompts where p: "pending_user st = Some user" "qs \<noteq> []" "snd (last qs) = InteractiveRequest n i prompts"
    "pending_prompt_count st = Some (length prompts)"
    using inv st by (auto simp: auth_inv_def)
  have inv1: "auth_inv P sha1 A S user qs st1" using inv by (simp add: auth_inv_def st1_def same_setup_def)
  obtain d a where ev: "evaluate_interactive A (sa_auth st1) user (is_responses resp) = (d, a)" by fastforce
  have inv': "auth_inv P sha1 A S user (qs @ [(Answers (is_responses resp), d)]) (st1\<lparr>sa_auth := a\<rparr>)"
    if "length (is_responses resp) = length prompts"
  proof (rule consulted_inv)
    show "consulted P sha1 A S user (qs @ [(Answers (is_responses resp), d)]) a"
      using inv1 p ev that by (intro answered [where a = "sa_auth st1"]) (auto simp: auth_inv_def)
  qed (use inv1 in \<open>auto simp: auth_inv_def factor_keys_append st1_def\<close>)
  have "accounted P sha1 A S user (apply_decision A d user (record_success d line (st1\<lparr>sa_auth := a\<rparr>)))"
    if "length (is_responses resp) = length prompts" for line
    by (rule apply_decision_accounted [OF record_success_inv [OF inv' [OF that]]]) auto
  then show ?thesis
    using Ok p ev emit_failure_accounted [OF inv1]
    by (auto simp: on_info_response_def st1_def Let_def)
qed (use quiet_accounted [OF inv] in \<open>simp_all add: on_info_response_def\<close>)

section \<open>The loop asks nothing else\<close>

lemma pin_user_cases:
  "first_user st = Some user \<Longrightarrow> pin_user u st = (st, if u = user then None else Some (StepDisconnect ''auth: username changed mid-authentication''))"
  "first_user st = None \<Longrightarrow> pin_user u st = (st\<lparr>first_user := Some u\<rparr>, None)"
  by (simp_all add: pin_user_def)

lemma reject_unadvertised_accounted:
  assumes "auth_inv P sha1 A S user qs st"
  shows "accounted P sha1 A S user (reject_unadvertised A u st)"
proof -
  have "first_user st = Some user" using assms by (simp add: auth_inv_def)
  then show ?thesis using emit_failure_accounted [OF assms] quiet_accounted [OF assms]
    by (simp add: reject_unadvertised_def pin_user_cases)
qed

lemma on_userauth_request_accounted:
  assumes inv: "auth_inv P sha1 A S user qs st" and st: "sa_state st \<noteq> AwaitingInfoResponse"
    and m: "\<And>u m. peek_request payload = Some (u, m) \<Longrightarrow> m = lit ''none'' \<or> m \<in> set (accepted_methods st)"
  shows "accounted P sha1 A S user (on_userauth_request P sha1 A payload st)"
proof (cases "userauth_request_decode payload")
  case (Ok req)
  have "first_user st = Some user" using inv by (simp add: auth_inv_def)
  moreover have "accounted P sha1 A S user (handle_request P sha1 A req st)" if "account_name (ur_user req) = user"
    by (rule handle_request_accounted [OF inv st that]) (use m Ok in \<open>simp add: peek_request_eq\<close>)
  ultimately show ?thesis
    using Ok emit_failure_accounted [OF inv] quiet_accounted [OF inv]
    by (auto simp: on_userauth_request_def pin_user_cases)
qed (use quiet_accounted [OF inv] in \<open>simp_all add: on_userauth_request_def\<close>)

lemma on_service_request_inv:
  assumes inv: "auth_inv P sha1 A S user qs st"
  shows "accounted P sha1 A S user (on_service_request payload st)"
proof -
  have "auth_inv P sha1 A S user qs (st\<lparr>sa_state := AwaitingRequest\<rparr>)"
    using inv by (simp add: auth_inv_def same_setup_def)
  from quiet_accounted [OF inv] quiet_accounted [OF this] show ?thesis
    by (auto simp: on_service_request_def split: res.split)
qed

lemma auth_turn_accounted:
  assumes inv: "auth_inv P sha1 A S user qs st"
  shows "accounted P sha1 A S user (auth_turn P sha1 A payload st)"
proof (cases "\<exists>u m. peek_request payload = Some (u, m) \<and> m \<noteq> lit ''none'' \<and> m \<notin> set (accepted_methods st)")
  case True
  then show ?thesis using reject_unadvertised_accounted [OF inv] by (auto simp: auth_turn_def)
next
  case False
  then have "auth_turn P sha1 A payload st = server_auth_on_packet P sha1 A payload st"
    by (auto simp: auth_turn_def split: option.split)
  moreover have "accounted P sha1 A S user (server_auth_on_packet P sha1 A payload st)"
  proof (cases "sa_state st")
    case AwaitingServiceRequest
    then show ?thesis using quiet_accounted [OF inv] on_service_request_inv [OF inv]
      by (auto simp: server_auth_on_packet_def split: list.split)
  next
    case AwaitingRequest
    then have "accounted P sha1 A S user (on_userauth_request P sha1 A payload st)"
      using on_userauth_request_accounted [OF inv] False by auto
    then show ?thesis using AwaitingRequest quiet_accounted [OF inv] by (auto simp: server_auth_on_packet_def split: list.split)
  next
    case AwaitingInfoResponse
    then show ?thesis using quiet_accounted [OF inv] on_info_response_accounted [OF inv]
      by (auto simp: server_auth_on_packet_def split: list.split)
  next
    case AuthDone
    then show ?thesis using quiet_accounted [OF inv] by (auto simp: server_auth_on_packet_def split: list.split)
  qed
  ultimately show ?thesis by simp
qed

text \<open>What the loop ends in, once a user has been named.\<close>

definition login_accounted :: "sig_prims \<Rightarrow> bool \<Rightarrow> 'a authenticator \<Rightarrow> 'a server_auth \<Rightarrow> rust_str \<Rightarrow>
    auth_outcome \<times> bytes list \<times> 'a server_auth \<Rightarrow> bool" where
  "login_accounted P sha1 A S user r \<longleftrightarrow>
     (\<exists>qs. consulted P sha1 A S user qs (sa_auth (snd (snd r)))
        \<and> (\<forall>u caps info. fst r = LoggedIn u caps info \<longrightarrow>
             u = user \<and> qs \<noteq> [] \<and> snd (last qs) = Accept \<and> (\<forall>at. fst (last qs) = Asked at \<longrightarrow> \<not> is_probe at)))"

lemma turn_login_accounted:
  assumes "accounted P sha1 A S user (st, step)"
    and next': "\<And>p. step = Ok (StepSend p) \<Longrightarrow> (\<And>qs. auth_inv P sha1 A S user qs st \<Longrightarrow> login_accounted P sha1 A S user (rest p))"
  shows "login_accounted P sha1 A S user
    (case step of
       Err e \<Rightarrow> (LoopError e, outs, st)
     | Panic \<Rightarrow> (LoopPanic, outs, st)
     | Ok (StepSend p) \<Rightarrow> rest p
     | Ok (StepAuthenticated p u caps info) \<Rightarrow> (LoggedIn u caps info, last_outs p, st)
     | Ok (StepDisconnect reason) \<Rightarrow> (Dropped reason, outs, st))"
proof -
  obtain qs where qs: "auth_inv P sha1 A S user qs st" "vouched user qs step" using assms(1) by (auto simp: accounted_def)
  have asked: "consulted P sha1 A S user qs (sa_auth st)" using qs by (simp add: auth_inv_def)
  show ?thesis
    using asked qs next'
    by (auto simp: login_accounted_def vouched_def intro!: exI [of _ qs] split: res.split server_step.split)
qed

lemma do_server_auth_pinned:
  assumes "auth_inv P sha1 A S user qs st"
  shows "login_accounted P sha1 A S user (do_server_auth P sha1 A resolve n (Some u) payloads st outs)"
  using assms
proof (induction n arbitrary: payloads st outs qs)
  case 0
  then show ?case by (auto simp: login_accounted_def auth_inv_def)
next
  case (Suc n)
  show ?case
  proof (cases payloads)
    case Nil
    then show ?thesis using Suc.prems by (auto simp: login_accounted_def auth_inv_def)
  next
    case (Cons payload rest)
    obtain st' step where t: "auth_turn P sha1 A payload st = (st', step)" by fastforce
    have r: "auth_resolve A resolve payload (Some u) st = (st, [], Some u)" by (auto simp: auth_resolve_def split: option.split)
    have "accounted P sha1 A S user (st', step)" using auth_turn_accounted [OF Suc.prems, of payload] t by simp
    then show ?thesis
      unfolding Cons do_server_auth_turn r t Let_def prod.case by (rule turn_login_accounted) (rule Suc.IH)
  qed
qed

text \<open>Before a user is named, nothing but the service request has happened.\<close>

lemma resolve_user_state:
  "fst (resolve_user A resolve u (st\<lparr>sa_state := x\<rparr>)) = (fst (resolve_user A resolve u st))\<lparr>sa_state := x\<rparr>"
  by (simp add: resolve_user_def Let_def set_accepted_methods_def set_max_pk_ok_def set_pubkey_auth_options_def
    notify_user_resolved_def)

lemma resolve_user_fields:
  "first_user (fst (resolve_user A resolve u st)) = first_user st" "used_keys (fst (resolve_user A resolve u st)) = used_keys st"
  "sa_state (fst (resolve_user A resolve u st)) = sa_state st"
  by (simp_all add: resolve_user_def Let_def set_accepted_methods_def set_max_pk_ok_def set_pubkey_auth_options_def
    notify_user_resolved_def)

lemma same_setup_state: "same_setup S (S\<lparr>sa_state := x\<rparr>)" "same_setup S (S\<lparr>sa_state := x, first_user := u\<rparr>)"
  by (simp_all add: same_setup_def)

lemma first_request_pins:
  assumes "peek_request payload = Some (u, m)" "first_user st = None"
    and "sa_state st = AwaitingRequest \<or> (m \<noteq> lit ''none'' \<and> m \<notin> set (accepted_methods st))"
  shows "auth_turn P sha1 A payload st = auth_turn P sha1 A payload (st\<lparr>first_user := Some u\<rparr>)
    \<or> (\<exists>e. auth_turn P sha1 A payload st = (st, Err e))"
proof -
  have "on_userauth_request P sha1 A payload st = on_userauth_request P sha1 A payload (st\<lparr>first_user := Some u\<rparr>)"
    using assms(1,2) by (auto simp: on_userauth_request_def pin_user_cases peek_request_eq split: res.splits)
  moreover have "reject_unadvertised A u st = reject_unadvertised A u (st\<lparr>first_user := Some u\<rparr>)"
    using assms(2) by (simp add: reject_unadvertised_def pin_user_cases)
  ultimately show ?thesis
    using assms by (auto simp: auth_turn_def server_auth_on_packet_def split: list.split)
qed

lemma auth_type_hd:
  assumes "run_rd (rd_bind (auth_type m what) f) b = Ok x"
  shows "\<exists>rest. b = m # rest"
  using assms
  by (cases b) (auto simp: run_rd_def map_res_eq_Ok rd_bind_eq_Ok auth_type_def rd_check_def read_u8_def take_bytes_def slice_res_def
    index_res_def bind_res_eq_Ok reader_new_def Let_def split: if_splits)

lemma peeked_type: "peek_request payload = Some um \<Longrightarrow> \<exists>rest. payload = SSH_MSG_USERAUTH_REQUEST # rest"
  by (auto simp: peek_request_eq userauth_request_decode_def dest: auth_type_hd split: res.splits)

lemma request_before_service:
  assumes "peek_request payload = Some (u, m)" "sa_state st = AwaitingServiceRequest" "m = lit ''none'' \<or> m \<in> set (accepted_methods st)"
  shows "\<exists>e. auth_turn P sha1 A payload st = (st, Err e)"
  using assms peeked_type [OF assms(1)] by (auto simp: auth_turn_def server_auth_on_packet_def auth_msg_defs)

lemma unnamed_turn:
  assumes "peek_request payload = None" "sa_state st = AwaitingServiceRequest \<or> sa_state st = AwaitingRequest"
  shows "(\<exists>e. auth_turn P sha1 A payload st = (st, Err e)) \<or> auth_turn P sha1 A payload st = (st, Panic)
    \<or> (\<exists>p. auth_turn P sha1 A payload st = (st\<lparr>sa_state := AwaitingRequest\<rparr>, Ok (StepSend p)))"
  using assms
  by (auto simp: auth_turn_def peek_request_eq server_auth_on_packet_def on_service_request_def on_userauth_request_def
    split: list.split res.splits)

definition nobody_or_accounted :: "sig_prims \<Rightarrow> bool \<Rightarrow> 'a authenticator \<Rightarrow> (rust_str \<Rightarrow> resolved_policy) \<Rightarrow> 'a server_auth \<Rightarrow>
    auth_outcome \<times> bytes list \<times> 'a server_auth \<Rightarrow> bool" where
  "nobody_or_accounted P sha1 A resolve S r \<longleftrightarrow>
     (sa_auth (snd (snd r)) = sa_auth S \<and> (\<forall>u caps info. fst r \<noteq> LoggedIn u caps info))
     \<or> (\<exists>user. login_accounted P sha1 A (fst (resolve_user A resolve user S)) user r)"

lemma nobody_accounted:
  "sa_auth st = sa_auth S \<Longrightarrow> (\<And>u caps info. o' \<noteq> LoggedIn u caps info) \<Longrightarrow> nobody_or_accounted P sha1 A resolve S (o', outs, st)"
  by (simp add: nobody_or_accounted_def)

lemma do_server_auth_unnamed:
  assumes "x = AwaitingServiceRequest \<or> x = AwaitingRequest" and S: "first_user S = None" "used_keys S = []"
  shows "nobody_or_accounted P sha1 A resolve S (do_server_auth P sha1 A resolve n None payloads (S\<lparr>sa_state := x\<rparr>) outs)"
  using assms(1)
proof (induction n arbitrary: payloads x outs)
  case (Suc n)
  show ?case
  proof (cases payloads)
    case (Cons payload rest)
    show ?thesis
    proof (cases "peek_request payload")
      case None
      then have r: "auth_resolve A resolve payload None (S\<lparr>sa_state := x\<rparr>) = (S\<lparr>sa_state := x\<rparr>, [], None)"
        by (simp add: auth_resolve_def)
      show ?thesis
        using unnamed_turn [OF None, of "S\<lparr>sa_state := x\<rparr>" P sha1 A] Suc.prems Suc.IH [of AwaitingRequest]
        unfolding Cons do_server_auth_turn r Let_def prod.case
        by (auto intro!: nobody_accounted)
    next
      case (Some um)
      obtain u m where um: "um = (u, m)" by fastforce
      define S1 where "S1 = fst (resolve_user A resolve u S)"
      obtain out where r: "auth_resolve A resolve payload None (S\<lparr>sa_state := x\<rparr>) = (S1\<lparr>sa_state := x\<rparr>, out, Some u)"
        using Some um by (cases "resolve_user A resolve u (S\<lparr>sa_state := x\<rparr>)")
          (auto simp: auth_resolve_def S1_def resolve_user_state [symmetric])
      let ?pinned = "S1\<lparr>sa_state := x, first_user := Some u\<rparr>"
      have inv: "auth_inv P sha1 A S1 u [] ?pinned"
        using Suc.prems S by (auto simp: auth_inv_def same_setup_state S1_def resolve_user_fields
          intro: consulted.start [of P sha1 A S1 u, simplified])
      have none: "first_user (S1\<lparr>sa_state := x\<rparr>) = None" using S by (simp add: S1_def resolve_user_fields)
      have "login_accounted P sha1 A S1 u (do_server_auth P sha1 A resolve (Suc n) None payloads (S\<lparr>sa_state := x\<rparr>) outs)"
      proof (cases "\<exists>e. auth_turn P sha1 A payload (S1\<lparr>sa_state := x\<rparr>) = (S1\<lparr>sa_state := x\<rparr>, Err e)")
        case True
        then obtain e where e: "auth_turn P sha1 A payload (S1\<lparr>sa_state := x\<rparr>) = (S1\<lparr>sa_state := x\<rparr>, Err e)" by blast
        show ?thesis
          using consulted.start [of P sha1 A S1 u]
          unfolding Cons do_server_auth_turn r e Let_def prod.case by (auto simp: login_accounted_def)
      next
        case False
        then have same: "auth_turn P sha1 A payload (S1\<lparr>sa_state := x\<rparr>) = auth_turn P sha1 A payload ?pinned"
          using first_request_pins [OF Some [unfolded um] none, of P sha1 A] Suc.prems
            request_before_service [OF Some [unfolded um], of "S1\<lparr>sa_state := x\<rparr>" P sha1 A] by auto
        obtain st' step where t: "auth_turn P sha1 A payload ?pinned = (st', step)" by fastforce
        have "accounted P sha1 A S1 u (st', step)" using auth_turn_accounted [OF inv, of payload] t by simp
        then show ?thesis
          unfolding Cons do_server_auth_turn r same t Let_def prod.case
          by (rule turn_login_accounted) (rule do_server_auth_pinned)
      qed
      then show ?thesis by (auto simp: nobody_or_accounted_def S1_def)
    qed
  qed (auto intro!: nobody_accounted)
qed (auto intro!: nobody_accounted)

section \<open>Who logs in\<close>

text \<open>
  Claim C4. Whatever a client sends, the server's authentication loop does not panic, and it lets the
  client in only as a user the authenticator has just accepted. The authenticator is asked about one
  user only, the one whose policy was resolved, by methods of that policy; a key is put to it only with
  a signature on this session's data (or as an unsigned probe, which logs nobody in) that verifies under
  the key or the key of a valid user certificate, and only if no earlier factor used the key; answers to
  prompts only in the number asked for. The \<open>none\<close> method needs a switch that the loop never sets.\<close>

theorem login_vouched:
  fixes a0 :: 'a
  assumes S: "S = server_auth_start session_id methods a0 tries now ca_algos options pk_ok host_key"
    and run: "do_server_auth P sha1 A resolve MAX_AUTH_STEPS None payloads S [] = (outcome, outs, st)"
  shows "outcome \<noteq> LoopPanic
    \<and> (sa_auth st = a0 \<and> (\<forall>u caps info. outcome \<noteq> LoggedIn u caps info)
       \<or> (\<exists>user qs. consulted P sha1 A (fst (resolve_user A resolve user S)) user qs (sa_auth st)
            \<and> (\<forall>u caps info. outcome = LoggedIn u caps info \<longrightarrow>
                 u = user \<and> qs \<noteq> [] \<and> snd (last qs) = Accept \<and> (\<forall>at. fst (last qs) = Asked at \<longrightarrow> \<not> is_probe at))))"
proof -
  have S': "sa_state S = AwaitingServiceRequest" "first_user S = None" "used_keys S = []" "sa_auth S = a0"
    by (simp_all add: S server_auth_start_def server_auth_new_def set_max_auth_tries_def set_now_def
      set_ca_signature_algorithms_def set_pubkey_auth_options_def set_max_pk_ok_def set_host_key_def Let_def split: option.split)
  have same: "S\<lparr>sa_state := AwaitingServiceRequest\<rparr> = S" using S'(1) by simp
  have "nobody_or_accounted P sha1 A resolve S (outcome, outs, st)"
    using do_server_auth_unnamed [of AwaitingServiceRequest S P sha1 A resolve MAX_AUTH_STEPS payloads "[]"] S' run
    unfolding same by simp
  moreover have "outcome \<noteq> LoopPanic"
    using do_server_auth_no_panic [of P sha1 A resolve MAX_AUTH_STEPS None payloads S "[]"] run by simp
  ultimately show ?thesis by (auto simp: nobody_or_accounted_def login_accounted_def S')
qed

text \<open>Signatures to try things out with: the signature of a message is its last 64 bytes, reversed.\<close>

definition toy_sig :: sig_prims where
  "toy_sig = \<lparr>sp_hash = (\<lambda>_ m. take 32 (m @ replicate 32 0)), ed_public = (\<lambda>sk. sk),
     ed_sign = (\<lambda>_ m. take 64 (rev m @ replicate 64 0)), ed_verify = (\<lambda>_ m s. s = take 64 (rev m @ replicate 64 0)),
     ecdsa_public = (\<lambda>_ sk. sk), ecdsa_from_sec1 = (\<lambda>_ _. True), ecdsa_sign = (\<lambda>_ _ _ _. None),
     ecdsa_verify = (\<lambda>_ _ _ _ _ _. False), rsa_try_new = (\<lambda>_ _. True), rsa_pkcs1_sign = (\<lambda>_ _ _. None),
     rsa_pkcs1_verify = (\<lambda>_ _ _ _ _. False), mldsa_from_bytes = (\<lambda>_. False), mldsa_verify = (\<lambda>_ _ _ _. False)\<rparr>"

text \<open>An authenticator that counts what it is asked and knows one password.\<close>

definition demo_auth :: "nat authenticator" where
  "demo_auth = \<lparr>evaluate = (\<lambda>n at. (if at = AttemptPassword (lit ''alice'') (lit ''secret'') then Accept else Reject, Suc n)),
     key_restrictions = (\<lambda>n _ _. (None, n)), continuable_methods = (\<lambda>_ ms. ms),
     evaluate_interactive = (\<lambda>n _ _. (Reject, n)), on_user_resolved = (\<lambda>n _ _. n)\<rparr>"

definition demo_policy :: "rust_str \<Rightarrow> resolved_policy" where
  "demo_policy _ = \<lparr>rp_methods = [lit ''password''], rp_banner = None, rp_auth_methods = [], rp_pubkey_auth_options = (False, False),
     rp_max_pk_ok = 6\<rparr>"

definition demo_server :: "nat server_auth" where
  "demo_server = server_auth_start [1, 2, 3] [lit ''publickey'', lit ''password''] 0 (Some 6) 0 [] (False, False) 6 None"

definition demo_payloads :: "bytes list" where
  "demo_payloads = [service_request_encode \<lparr>sm_service = lit ''ssh-userauth''\<rparr>, userauth_request_encode demo_password]"

lemma demo_messages:
  "service_request_decode (service_request_encode \<lparr>sm_service = lit ''ssh-userauth''\<rparr>) = Ok \<lparr>sm_service = lit ''ssh-userauth''\<rparr>"
  "userauth_request_decode (userauth_request_encode demo_password) = Ok demo_password"
  "\<exists>b. service_request_encode \<lparr>sm_service = lit ''ssh-userauth''\<rparr> = SSH_MSG_SERVICE_REQUEST # b"
  "\<exists>b. userauth_request_encode demo_password = SSH_MSG_USERAUTH_REQUEST # b"
proof -
  show "service_request_decode (service_request_encode \<lparr>sm_service = lit ''ssh-userauth''\<rparr>) = Ok \<lparr>sm_service = lit ''ssh-userauth''\<rparr>"
    by (rule srq.round) (simp_all add: str_ok_def blob_ok_def MAX_USERAUTH_STRING_val valid_utf8_lit small_def USIZE_LIMIT_def
      service_request_encode_def encode_simps wire_simps)
  show "userauth_request_decode (userauth_request_encode demo_password) = Ok demo_password"
    by (rule uar.round) (simp_all add: demo_password_def request_ok_def str_ok_def blob_ok_def MAX_USERAUTH_STRING_val valid_utf8_lit
      small_def USIZE_LIMIT_def userauth_request_encode_def encode_simps wire_simps Let_def)
qed (simp_all add: service_request_encode_def userauth_request_encode_def demo_password_def encode_simps wire_simps Let_def)

lemmas server_auth_setters = set_max_auth_tries_def set_now_def set_ca_signature_algorithms_def set_pubkey_auth_options_def
  set_max_pk_ok_def set_host_key_def set_accepted_methods_def notify_user_resolved_def

lemma demo_login_run:
  "\<exists>outs st. do_server_auth toy_sig False demo_auth demo_policy (Suc (Suc n)) None demo_payloads demo_server []
     = (LoggedIn (lit ''alice'') None (lit ''password'' @ [10]), outs, st)"
proof -
  obtain b where b: "service_request_encode \<lparr>sm_service = lit ''ssh-userauth''\<rparr> = SSH_MSG_SERVICE_REQUEST # b"
    using demo_messages by blast
  obtain b' where b': "userauth_request_encode demo_password = SSH_MSG_USERAUTH_REQUEST # b'" using demo_messages by blast
  note dec = demo_messages(1,2) [unfolded b b']
  have alice: "account_name (lit ''alice'') = lit ''alice''" by code_simp
  have peek: "peek_request (SSH_MSG_SERVICE_REQUEST # b) = None"
    using peeked_type [of "SSH_MSG_SERVICE_REQUEST # b"] by (cases "peek_request (SSH_MSG_SERVICE_REQUEST # b)") (auto simp: auth_msg_defs)
  have peek': "peek_request (SSH_MSG_USERAUTH_REQUEST # b') = Some (lit ''alice'', lit ''password'')"
    by (simp add: peek_request_eq dec) (simp add: demo_password_def alice)
  show ?thesis
    unfolding demo_payloads_def b b'
    by (simp add: do_server_auth_turn auth_resolve_def auth_turn_def peek peek' Let_def server_auth_on_packet_def on_service_request_def dec
      demo_server_def server_auth_start_def server_auth_new_def server_auth_setters resolve_user_def demo_policy_def
      on_userauth_request_def pin_user_def) (simp add: handle_request_def record_success_def apply_decision_def demo_password_def alice demo_auth_def Let_def)
qed

theorem login_vouched_witness:
  "\<exists>outs st qs. do_server_auth toy_sig False demo_auth demo_policy MAX_AUTH_STEPS None demo_payloads demo_server []
       = (LoggedIn (lit ''alice'') None (lit ''password'' @ [10]), outs, st)
     \<and> consulted toy_sig False demo_auth (fst (resolve_user demo_auth demo_policy (lit ''alice'') demo_server)) (lit ''alice'') qs (sa_auth st)
     \<and> snd (last qs) = Accept"
proof -
  obtain outs st where run: "do_server_auth toy_sig False demo_auth demo_policy MAX_AUTH_STEPS None demo_payloads demo_server []
      = (LoggedIn (lit ''alice'') None (lit ''password'' @ [10]), outs, st)"
    using demo_login_run [of 62] by (auto simp: MAX_AUTH_STEPS_def)
  from login_vouched [OF demo_server_def run] run show ?thesis by fastforce
qed

end
