(* ===== verification/AuthLimits.thy ===== *)
theory AuthLimits
  imports AuthServerProps
begin

text \<open>
  Limits of the server side of user authentication: how many failures a client can have answered
  before it is dropped, and that the restrictions of a login are the strictest of all its factors.
\<close>

unbundle bit_operations_syntax

section \<open>Failures are counted\<close>

definition is_failure :: "bytes \<Rightarrow> bool" where
  "is_failure p \<longleftrightarrow> p \<noteq> [] \<and> hd p = SSH_MSG_USERAUTH_FAILURE \<and> last p = 0"

lemma not_failures:
  "\<not> is_failure (userauth_pk_ok_encode pk)" "\<not> is_failure (service_accept_encode sm)" "\<not> is_failure (info_request_encode ir)"
  "\<not> is_failure (userauth_banner_encode bn)" "\<not> is_failure encode_success"
  "\<not> is_failure (userauth_failure_encode \<lparr>uf_continuations = ns, uf_partial_success = True\<rparr>)"
  by (simp_all add: is_failure_def userauth_pk_ok_encode_def service_accept_encode_def info_request_encode_def userauth_banner_encode_def
    encode_success_def userauth_failure_encode_def encode_simps wire_simps auth_msg_defs foldl_prompts)

definition weight :: "nat \<Rightarrow> 'a server_auth \<Rightarrow> nat" where
  "weight k st = unat (failed_attempts st) + min (unat (pk_ok_failures st)) k"

fun emitted :: "server_step res \<Rightarrow> bytes option" where
  "emitted (Ok (StepSend p)) = Some p"
| "emitted (Ok (StepAuthenticated p _ _ _)) = Some p"
| "emitted _ = None"

definition counted :: "u32 \<Rightarrow> nat \<Rightarrow> 'a server_auth \<Rightarrow> 'a auth_res \<Rightarrow> bool" where
  "counted tries k st r \<longleftrightarrow> max_auth_tries (fst r) = max_auth_tries st \<and> max_pk_ok (fst r) = max_pk_ok st
     \<and> weight k st \<le> weight k (fst r)
     \<and> (\<forall>p. emitted (snd r) = Some p \<longrightarrow>
          unat (failed_attempts (fst r)) \<le> unat tries \<and> (is_failure p \<longrightarrow> weight k st < weight k (fst r)))"

definition limited :: "u32 \<Rightarrow> nat \<Rightarrow> 'a server_auth \<Rightarrow> bool" where
  "limited tries k st \<longleftrightarrow> max_auth_tries st = Some tries \<and> unat (max_pk_ok st) \<le> k
     \<and> unat (failed_attempts st) \<le> unat tries \<and> unat tries < 2 ^ 32 - 1 \<and> k < 2 ^ 32 - 1"

text \<open>What neither counts nor limits depend on.\<close>

definition same_counts :: "'a server_auth \<Rightarrow> 'a server_auth \<Rightarrow> bool" where
  "same_counts st st' \<longleftrightarrow> max_auth_tries st' = max_auth_tries st \<and> max_pk_ok st' = max_pk_ok st
     \<and> failed_attempts st' = failed_attempts st \<and> pk_ok_failures st' = pk_ok_failures st"

lemma counted_frame: "same_counts st st' \<Longrightarrow> counted tries k st r \<longleftrightarrow> counted tries k st' r"
  by (simp add: counted_def same_counts_def weight_def)

lemma limited_frame: "same_counts st st' \<Longrightarrow> limited tries k st \<longleftrightarrow> limited tries k st'"
  by (simp add: limited_def same_counts_def)

lemma unat_sat_add_1: "unat (sat_add (x :: u32) 1) = min (unat x + 1) (2 ^ 32 - 1)"
  by (simp add: unat_sat_add)

lemma emit_failure_counted:
  assumes "limited tries k st"
  shows "counted tries k st (emit_failure A st)"
proof -
  have le: "unat (sat_add (failed_attempts st) 1) \<le> unat tries" if "\<not> tries < sat_add (failed_attempts st) 1"
    using that by (simp add: word_less_nat_alt)
  then have "unat (failed_attempts st) < unat (sat_add (failed_attempts st) 1)" if "\<not> tries < sat_add (failed_attempts st) 1"
    using that assms by (auto simp: limited_def unat_sat_add_1)
  moreover have "unat (failed_attempts st) \<le> unat (sat_add (failed_attempts st) 1)"
    using unat_less_p2 [of "failed_attempts st"] by (auto simp: unat_sat_add_1)
  ultimately show ?thesis
    using assms le by (auto simp: counted_def emit_failure_def weight_def limited_def Let_def)
qed

lemma emit_probe_failure_counted:
  assumes lim: "limited tries k st"
  shows "counted tries k st (emit_probe_failure A st)"
proof (cases "sat_add (pk_ok_failures st) 1 > max_pk_ok st")
  case True
  let ?st = "st\<lparr>pk_ok_failures := sat_add (pk_ok_failures st) 1\<rparr>"
  have mono: "unat (pk_ok_failures st) \<le> unat (sat_add (pk_ok_failures st) 1)"
    using unat_less_p2 [of "pk_ok_failures st"] by (auto simp: unat_sat_add_1)
  have "counted tries k ?st (emit_failure A ?st)" by (rule emit_failure_counted) (use lim in \<open>simp add: limited_def\<close>)
  moreover have "weight k st \<le> weight k ?st" using mono by (simp add: weight_def)
  ultimately show ?thesis using True by (auto simp: emit_probe_failure_def counted_def Let_def)
next
  case False
  then have "unat (sat_add (pk_ok_failures st) 1) \<le> unat (max_pk_ok st)" by (simp add: word_le_nat_alt not_less)
  then have "unat (pk_ok_failures st) < unat (sat_add (pk_ok_failures st) 1) \<and> unat (sat_add (pk_ok_failures st) 1) \<le> k"
    using lim by (auto simp: limited_def unat_sat_add_1)
  then show ?thesis using False lim by (auto simp: emit_probe_failure_def counted_def weight_def limited_def Let_def)
qed

lemma quiet_counted:
  "limited tries k st \<Longrightarrow> same_counts st st' \<Longrightarrow> (\<And>p. emitted r = Some p \<Longrightarrow> \<not> is_failure p) \<Longrightarrow> counted tries k st (st', r)"
  by (auto simp: counted_def same_counts_def weight_def limited_def)

lemma stopped_counted:
  "limited tries k st \<Longrightarrow> counted tries k st (st, Err e)" "limited tries k st \<Longrightarrow> counted tries k st (st, Panic)"
  "limited tries k st \<Longrightarrow> counted tries k st (st, Ok (StepDisconnect reason))"
  by (auto simp: same_counts_def intro!: quiet_counted)

lemma framed_counted:
  assumes "limited tries k st" "same_counts st st'" "\<And>st. limited tries k st \<Longrightarrow> counted tries k st (f st)"
  shows "counted tries k st (f st')"
  using assms counted_frame [OF assms(2)] limited_frame [OF assms(2)] by blast

lemma same_counts_record_success: "same_counts st (record_success d line st') = same_counts st st'"
  by (simp add: record_success_def same_counts_def split: auth_decision.split)

lemma same_counts_restrict: "restrict_decision A user blob info sk d st = (d', st') \<Longrightarrow> same_counts st st'"
  by (erule restrict_decision_cases) (simp_all add: same_counts_def)

lemma apply_decision_counted:
  assumes "limited tries k st"
  shows "counted tries k st (apply_decision A d user st)"
  using assms emit_failure_counted [OF assms]
  by (auto simp: apply_decision_def not_failures same_counts_def intro!: quiet_counted split: auth_decision.split)

lemma handle_probe_counted:
  assumes lim: "limited tries k st"
  shows "counted tries k st (handle_probe P sha1 A user alg blob st)"
proof -
  have "counted tries k st (emit_probe_failure A (st\<lparr>sa_auth := a\<rparr>))" for a
    by (rule framed_counted [OF lim _ emit_probe_failure_counted]) (simp add: same_counts_def)
  moreover have "counted tries k st (st\<lparr>sa_auth := a\<rparr>, Ok (StepSend (userauth_pk_ok_encode pk)))"
    "counted tries k st (st\<lparr>sa_auth := a\<rparr>, Err e)" for a pk e
    by (rule quiet_counted [OF lim]; simp add: same_counts_def not_failures)+
  ultimately show ?thesis
    using emit_probe_failure_counted [OF lim] stopped_counted [OF lim]
    by (auto simp: handle_probe_def Let_def split: res.split option.split prod.split auth_decision.split)
qed

lemma handle_signed_counted:
  assumes lim: "limited tries k st"
  shows "counted tries k st (handle_signed P sha1 A user wu alg blob kb sig hk st)"
proof -
  have "counted tries k st (apply_decision A d' user (record_success d' line
      (case d' of PartialAccept _ \<Rightarrow> st'\<lparr>used_keys := used_keys st' @ [kb]\<rparr> | _ \<Rightarrow> st')))"
    if "restrict_decision A user blob info sk d (st\<lparr>sa_auth := a\<rparr>) = (d', st')" for info sk d a d' st' line
  proof (rule framed_counted [OF lim _ apply_decision_counted], unfold same_counts_record_success)
    show "same_counts st (case d' of PartialAccept _ \<Rightarrow> st'\<lparr>used_keys := used_keys st' @ [kb]\<rparr> | _ \<Rightarrow> st')"
      using same_counts_restrict [OF that] by (simp add: same_counts_def split: auth_decision.split)
  qed
  then show ?thesis
    using emit_failure_counted [OF lim] stopped_counted [OF lim]
    by (auto simp: handle_signed_def Let_def split: res.split option.split prod.split)
qed

lemma handle_publickey_counted:
  assumes lim: "limited tries k st"
  shows "counted tries k st (handle_publickey P sha1 A user wu sp alg blob sig hk st)"
  using emit_failure_counted [OF lim] stopped_counted [OF lim] handle_probe_counted [OF lim] handle_signed_counted [OF lim]
  by (auto simp: handle_publickey_def Let_def split: res.split option.split)

lemma decided_counted:
  assumes lim: "limited tries k st" and same: "same_counts st st'"
  shows "counted tries k st (apply_decision A d user st')"
    "counted tries k st (apply_decision A d user (record_success d line st'))"
    "counted tries k st (emit_failure A st')"
proof -
  show "counted tries k st (apply_decision A d user st')" by (rule framed_counted [OF lim same apply_decision_counted])
  show "counted tries k st (apply_decision A d user (record_success d line st'))"
    by (rule framed_counted [OF lim _ apply_decision_counted]) (simp add: same_counts_record_success same)
  show "counted tries k st (emit_failure A st')" by (rule framed_counted [OF lim same emit_failure_counted])
qed

lemma handle_request_counted:
  assumes lim: "limited tries k st"
  shows "counted tries k st (handle_request P sha1 A req st)"
proof -
  have "same_counts st (st\<lparr>sa_auth := a\<rparr>)" for a by (simp add: same_counts_def)
  note d = decided_counted [OF lim this]
  show ?thesis
    using emit_failure_counted [OF lim] handle_publickey_counted [OF lim] d
    by (auto simp: handle_request_def Let_def split: auth_method_payload.split prod.split)
qed

lemma pin_user_counts: "pin_user u st = (st', r) \<Longrightarrow> same_counts st st'"
  by (auto simp: pin_user_def same_counts_def split: option.splits if_splits)

lemma auth_turn_counted:
  assumes lim: "limited tries k st"
  shows "counted tries k st (auth_turn P sha1 A payload st)"
proof -
  have pinned: "counted tries k st (st', Ok step)" if "pin_user u st = (st', Some step)" for u st' step
    using that stopped_counted [OF lim] by (auto simp: pin_user_def split: option.splits if_splits)
  note failed = decided_counted(3) [OF lim pin_user_counts] and stop = stopped_counted [OF lim]
  have "counted tries k st (reject_unadvertised A u st)" for u
    using failed pinned by (auto simp: reject_unadvertised_def split: option.split prod.split)
  moreover have "counted tries k st (on_userauth_request P sha1 A payload st)"
    using failed pinned stop framed_counted [OF lim pin_user_counts handle_request_counted]
    by (auto simp: on_userauth_request_def split: res.split prod.split option.split)
  moreover have "counted tries k st (st\<lparr>sa_state := AwaitingRequest\<rparr>, Ok (StepSend (service_accept_encode m)))" for m
    by (rule quiet_counted [OF lim]) (simp_all add: same_counts_def not_failures)
  then have "counted tries k st (on_service_request payload st)"
    using stop by (auto simp: on_service_request_def split: res.split)
  moreover have "counted tries k st (on_info_response A payload st)"
    using stop decided_counted [OF lim]
    by (auto simp: on_info_response_def Let_def same_counts_def split: res.split option.split prod.split)
  ultimately show ?thesis
    using stop by (auto simp: auth_turn_def server_auth_on_packet_def split: option.split list.split auth_state.split)
qed


lemma resolve_user_limits:
  assumes "limited tries k st" "\<And>u. unat (rp_max_pk_ok (resolve u)) \<le> k"
  shows "limited tries k (fst (resolve_user A resolve u st))" "weight k (fst (resolve_user A resolve u st)) = weight k st"
  using assms by (simp_all add: resolve_user_def Let_def server_auth_setters limited_def weight_def)

lemma resolve_user_out: "filter is_failure (snd (resolve_user A resolve u st)) = []"
  by (simp add: resolve_user_def Let_def not_failures split: option.split)

lemma auth_resolve_limits:
  assumes "limited tries k st" "\<And>u. unat (rp_max_pk_ok (resolve u)) \<le> k"
    and r: "auth_resolve A resolve payload resolved st = (st', out, resolved')"
  shows "limited tries k st'" "weight k st' = weight k st" "filter is_failure out = []"
  using r resolve_user_limits [OF assms(1,2)] assms(1)
  by (auto simp: auth_resolve_def Let_def case_prod_unfold resolve_user_out split: option.splits if_splits)

lemma do_server_auth_failures:
  assumes "limited tries k st" and pk: "\<And>u. unat (rp_max_pk_ok (resolve u)) \<le> k"
    and "length (filter is_failure outs) \<le> weight k st"
  shows "length (filter is_failure (fst (snd (do_server_auth P sha1 A resolve n resolved payloads st outs)))) \<le> unat tries + k"
  using assms(1,3)
proof (induction n arbitrary: resolved payloads st outs)
  case 0
  then show ?case by (auto simp: weight_def limited_def)
next
  case (Suc n)
  have now: "length (filter is_failure outs) \<le> unat tries + k"
    using Suc.prems by (auto simp: weight_def limited_def)
  show ?case
  proof (cases payloads)
    case (Cons payload rest)
    obtain st1 out resolved' where r: "auth_resolve A resolve payload resolved st = (st1, out, resolved')" by (metis prod_cases3)
    obtain st2 step where t: "auth_turn P sha1 A payload st1 = (st2, step)" by fastforce
    note r' = auth_resolve_limits [OF Suc.prems(1) pk r]
    have c: "counted tries k st1 (st2, step)" using auth_turn_counted [OF r'(1), of P sha1 A payload] t by simp
    have go: "length (filter is_failure (fst (snd (do_server_auth P sha1 A resolve n resolved' rest st2 (outs @ out @ [p]))))) \<le> unat tries + k"
      if "step = Ok (StepSend p)" for p
    proof (rule Suc.IH)
      show "limited tries k st2" using c r'(1) that by (auto simp: counted_def limited_def)
      show "length (filter is_failure (outs @ out @ [p])) \<le> weight k st2"
        using c r'(2,3) that Suc.prems(2) by (auto simp: counted_def)
    qed
    have "length (filter is_failure (outs @ out @ [p])) \<le> unat tries + k" if "emitted step = Some p" for p
    proof -
      have "length (filter is_failure (outs @ out @ [p])) \<le> weight k st2"
        using c r'(2,3) that Suc.prems(2) by (auto simp: counted_def)
      also have "weight k st2 \<le> unat tries + k" using c that by (auto simp: counted_def weight_def)
      finally show ?thesis .
    qed
    then show ?thesis
      unfolding Cons do_server_auth_turn r t Let_def prod.case
      using go now r'(3) by (auto split: res.split server_step.split)
  qed (use now in simp)
qed
text \<open>
  Claim C29. A client gets at most \<open>MaxAuthTries\<close> failures, plus the unsigned key offers that are free,
  answered before the server drops it: whatever it sends, that is how many replies without partial
  success go out. The counters saturate, so this needs both limits below their maximum.\<close>

theorem auth_failures_bounded:
  assumes S: "S = server_auth_start session_id methods a0 (Some tries) now ca_algos options pk_ok host_key"
    and lim: "unat tries < 2 ^ 32 - 1" "k < 2 ^ 32 - 1" "unat pk_ok \<le> k" "\<And>u. unat (rp_max_pk_ok (resolve u)) \<le> k"
    and run: "do_server_auth P sha1 A resolve MAX_AUTH_STEPS None payloads S [] = (outcome, outs, st)"
  shows "length (filter is_failure outs) \<le> unat tries + k"
proof -
  have "limited tries k S"
    using lim by (simp add: S limited_def server_auth_start_def server_auth_new_def server_auth_setters Let_def split: option.split)
  then have "length (filter is_failure (fst (snd (do_server_auth P sha1 A resolve MAX_AUTH_STEPS None payloads S [])))) \<le> unat tries + k"
    by (rule do_server_auth_failures) (use lim(4) in simp_all)
  with run show ?thesis by simp
qed

theorem auth_failures_bounded_witness:
  "\<exists>outs st. do_server_auth toy_sig False demo_auth demo_policy MAX_AUTH_STEPS None demo_payloads demo_server []
       = (LoggedIn (lit ''alice'') None (lit ''password'' @ [10]), outs, st)
     \<and> length (filter is_failure outs) \<le> 12"
proof -
  obtain outs st where run: "do_server_auth toy_sig False demo_auth demo_policy MAX_AUTH_STEPS None demo_payloads demo_server []
      = (LoggedIn (lit ''alice'') None (lit ''password'' @ [10]), outs, st)"
    using demo_login_run [of 62] by (auto simp: MAX_AUTH_STEPS_def)
  have "length (filter is_failure outs) \<le> unat (6 :: u32) + 6"
    by (rule auth_failures_bounded [OF demo_server_def _ _ _ _ run]) (simp_all add: demo_policy_def)
  then show ?thesis using run by simp
qed

section \<open>Restrictions\<close>




































end
