(* ===== verification/Login.thy ===== *)
theory Login
  imports AuthClientProps AuthLimits
begin

text \<open>
  Client and server together. A login with an Ed25519 key between \<open>authenticate\<close> of src/src/client.rs and
  \<open>do_server_auth\<close> of src/src/server.rs: each loop is run on exactly what the other one sends. Further
  down, the examples on which the properties of the client are tried out.
\<close>

section \<open>Messages that fit\<close>

lemma enc_string_length: "length (enc_string s) = 4 + length s"
  by (simp add: enc_string_def)

lemma request_for_bytes: "request_for user m = SSH_MSG_USERAUTH_REQUEST # enc_string user @ enc_string (lit ''ssh-connection'')
     @ enc_string (auth_method_name m) @ enc_tail m"
  by (simp add: request_for_def userauth_request_encode_def into_vec_def writer_new_def write_tail_enc wire_simps)

lemma pk_tail_length:
  assumes "blob_ok alg" "blob_ok blob" "pred_option blob_ok sig" "pred_option blob_ok hk"
  shows "length (enc_tail (AuthPublicKey sp alg blob sig hk)) \<le> 1048593"
proof -
  have "length alg \<le> 262144" "length blob \<le> 262144" using assms(1,2) by (simp_all add: blob_ok_def MAX_USERAUTH_STRING_val)
  moreover have "\<forall>s \<in> set_option sig. length s \<le> 262144" "\<forall>s \<in> set_option hk. length s \<le> 262144"
    using assms(3,4) by (auto simp: blob_ok_def MAX_USERAUTH_STRING_val pred_option_def)
  ultimately show ?thesis by (cases sig; cases hk) (simp_all add: enc_string_length)
qed

text \<open>A public-key request of a client with reasonable names arrives as it was made.\<close>

lemma pk_request_arrives:
  assumes "str_ok user" "str_ok alg" "blob_ok blob" "pred_option blob_ok sig" "pred_option blob_ok hk" "sp \<longleftrightarrow> sig \<noteq> None"
  defines "p \<equiv> request_for user (AuthPublicKey sp alg blob sig hk)"
  shows "userauth_request_decode p = Ok \<lparr>ur_user = user, ur_service = lit ''ssh-connection'', ur_method = AuthPublicKey sp alg blob sig hk\<rparr>"
    and "small p"
proof -
  have len: "length user \<le> 262144" using assms(1) by (simp add: str_ok_def blob_ok_def MAX_USERAUTH_STRING_val)
  have name: "length (auth_method_name (AuthPublicKey sp alg blob sig hk)) \<le> 35"
    by (cases hk) (simp_all add: PUBLICKEY_HOSTBOUND_def)
  have "length (enc_tail (AuthPublicKey sp alg blob sig hk)) \<le> 1048593"
    using assms(2-5) by (intro pk_tail_length) (simp_all add: str_ok_def)
  with len name show small: "small p"
    unfolding p_def by (simp add: request_for_bytes enc_string_length small_def USIZE_LIMIT_def del: enc_tail.simps auth_method_name.simps)
  show "userauth_request_decode p = Ok \<lparr>ur_user = user, ur_service = lit ''ssh-connection'', ur_method = AuthPublicKey sp alg blob sig hk\<rparr>"
    unfolding p_def request_for_def
    by (rule uar.round) (use assms(1-6) small in \<open>simp_all add: p_def request_for_def request_ok_def str_ok_def blob_ok_def
      MAX_USERAUTH_STRING_val valid_utf8_lit\<close>)
qed

text \<open>Such requests also pass the gate for changed host keys.\<close>

lemma pk_request_unblocked:
  assumes "str_ok user" "small (request_for user (AuthPublicKey sp alg blob sig hk))"
  shows "\<not> auth_packet_blocked_after_mismatch (request_for user (AuthPublicKey sp alg blob sig hk))"
proof -
  let ?m = "AuthPublicKey sp alg blob sig hk"
  define rest where "rest = enc_string user @ enc_string (lit ''ssh-connection'') @ enc_string (auth_method_name ?m) @ enc_tail ?m"
  have "auth_method_name ?m = lit ''publickey'' \<or> auth_method_name ?m = PUBLICKEY_HOSTBOUND" by (cases hk) simp_all
  then have name: "auth_method_name ?m \<noteq> lit ''password''" "auth_method_name ?m \<noteq> lit ''keyboard-interactive''" "fits_u32 (auth_method_name ?m)"
    using known_name_facts by (auto simp: fits_u32_def PUBLICKEY_HOSTBOUND_def lit_inject)
  have u: "fits_u32 user" using assms(1) by (simp add: str_ok_def blob_fits)
  have c: "fits_u32 (lit ''ssh-connection'')" by (simp add: fits_u32_def)
  have fit: "fits [] rest" using assms(2) by (simp add: request_for_bytes rest_def small_def del: auth_method_name.simps enc_tail.simps)
  have "run_rd name_fields rest = Ok (auth_method_name ?m)"
    using fit u c name(3)
    by (simp add: rest_def run_rd_def reader_new_rd_at name_fields_def rd_bind_def read_string_at del: auth_method_name.simps enc_tail.simps)
  then show ?thesis using name(1,2)
    unfolding auth_packet_blocked_after_mismatch_def request_for_bytes rest_def [symmetric]
    by (simp add: name_fields_def auth_msg_defs del: auth_method_name.simps enc_tail.simps)
qed
section \<open>The client's side\<close>

definition svc_request :: bytes where "svc_request = service_request_encode \<lparr>sm_service = lit ''ssh-userauth''\<rparr>"
definition svc_accept :: bytes where "svc_accept = service_accept_encode \<lparr>sm_service = lit ''ssh-userauth''\<rparr>"

definition banner_payloads :: "rust_str option \<Rightarrow> bytes list" where
  "banner_payloads banner = (case banner of None \<Rightarrow> [] | Some msg \<Rightarrow> [userauth_banner_encode \<lparr>ub_message = msg, ub_language = []\<rparr>])"

lemma svc_messages:
  "service_request_decode svc_request = Ok \<lparr>sm_service = lit ''ssh-userauth''\<rparr>"
  "service_accept_decode svc_accept = Ok \<lparr>sm_service = lit ''ssh-userauth''\<rparr>"
  "\<exists>b. svc_request = SSH_MSG_SERVICE_REQUEST # b" "\<exists>b. svc_accept = SSH_MSG_SERVICE_ACCEPT # b"
proof -
  show "service_request_decode svc_request = Ok \<lparr>sm_service = lit ''ssh-userauth''\<rparr>"
    unfolding svc_request_def by (rule demo_messages)
  show "service_accept_decode svc_accept = Ok \<lparr>sm_service = lit ''ssh-userauth''\<rparr>"
    unfolding svc_accept_def
    by (rule sac.round) (simp_all add: str_ok_def blob_ok_def MAX_USERAUTH_STRING_val valid_utf8_lit small_def USIZE_LIMIT_def
      service_accept_encode_def encode_simps wire_simps)
qed (simp_all add: svc_request_def svc_accept_def service_request_encode_def service_accept_encode_def encode_simps wire_simps)

lemma pk_ok_arrives:
  assumes "str_ok alg" "blob_ok blob"
  defines "p \<equiv> userauth_pk_ok_encode \<lparr>pk_algorithm = alg, pk_public_blob = blob\<rparr>"
  shows "userauth_pk_ok_decode p = Ok \<lparr>pk_algorithm = alg, pk_public_blob = blob\<rparr>" "\<exists>b. p = SSH_MSG_USERAUTH_PK_OK # b"
proof -
  have len: "length alg \<le> 262144" "length blob \<le> 262144" using assms(1,2) by (simp_all add: str_ok_def blob_ok_def MAX_USERAUTH_STRING_val)
  have bytes: "p = SSH_MSG_USERAUTH_PK_OK # enc_string alg @ enc_string blob"
    by (simp add: p_def userauth_pk_ok_encode_def encode_simps wire_simps)
  then show "\<exists>b. p = SSH_MSG_USERAUTH_PK_OK # b" by blast
  have "small p" using len by (simp add: bytes enc_string_length small_def USIZE_LIMIT_def)
  then show "userauth_pk_ok_decode p = Ok \<lparr>pk_algorithm = alg, pk_public_blob = blob\<rparr>"
    unfolding p_def using assms(1,2) by (intro upk.round) simp_all
qed

lemma banner_arrives:
  assumes "str_ok msg"
  defines "p \<equiv> userauth_banner_encode \<lparr>ub_message = msg, ub_language = []\<rparr>"
  shows "userauth_banner_decode p = Ok \<lparr>ub_message = msg, ub_language = []\<rparr>" "\<exists>b. p = SSH_MSG_USERAUTH_BANNER # b"
proof -
  have len: "length msg \<le> 262144" using assms(1) by (simp add: str_ok_def blob_ok_def MAX_USERAUTH_STRING_val)
  have bytes: "p = SSH_MSG_USERAUTH_BANNER # enc_string msg @ enc_string []"
    by (simp add: p_def userauth_banner_encode_def encode_simps wire_simps)
  then show "\<exists>b. p = SSH_MSG_USERAUTH_BANNER # b" by blast
  have "small p" using len by (simp add: bytes enc_string_length small_def USIZE_LIMIT_def)
  then show "userauth_banner_decode p = Ok \<lparr>ub_message = msg, ub_language = []\<rparr>"
    unfolding p_def using assms(1) by (intro uab.round) (simp_all add: str_ok_def blob_ok_def)
qed

lemma banner_turns:
  assumes "pred_option str_ok banner" "length (banner_payloads banner) \<le> n"
  shows "run_auth K H mm n (map (\<lambda>p. (p, None)) (banner_payloads banner) @ ps) c outs
     = run_auth K H mm (n - length (banner_payloads banner)) ps c outs"
proof (cases banner)
  case (Some msg)
  obtain b where b: "userauth_banner_encode \<lparr>ub_message = msg, ub_language = []\<rparr> = SSH_MSG_USERAUTH_BANNER # b"
    using banner_arrives(2) [of msg] assms(1) Some by auto
  have "userauth_banner_decode (SSH_MSG_USERAUTH_BANNER # b) = Ok \<lparr>ub_message = msg, ub_language = []\<rparr>"
    using banner_arrives(1) [of msg] assms(1) Some b by simp
  moreover obtain m where "n = Suc m" using assms(2) Some by (cases n) (auto simp: banner_payloads_def)
  ultimately show ?thesis using Some b by (simp add: banner_payloads_def run_auth_turn client_auth_on_packet_def)
qed (simp add: banner_payloads_def)

definition pk_probe :: "rust_str \<Rightarrow> rust_str \<Rightarrow> bytes \<Rightarrow> bytes" where
  "pk_probe user alg blob = request_for user (AuthPublicKey False alg blob None None)"

definition pk_signed :: "rust_str \<Rightarrow> rust_str \<Rightarrow> bytes \<Rightarrow> bytes \<Rightarrow> bytes option \<Rightarrow> bytes" where
  "pk_signed user alg blob sig hostbound = request_for user (AuthPublicKey True alg blob (Some sig) hostbound)"

definition pk_replies :: "rust_str option \<Rightarrow> rust_str \<Rightarrow> bytes \<Rightarrow> bytes list" where
  "pk_replies banner alg blob = [svc_accept] @ banner_payloads banner
     @ [userauth_pk_ok_encode \<lparr>pk_algorithm = alg, pk_public_blob = blob\<rparr>, encode_success]"

lemma client_pk_login:
  assumes names: "str_ok user" "str_ok (hk_algorithm K k)" "blob_ok (hk_public_blob K k)" "blob_ok sig" "pred_option blob_ok hostbound"
    and banner: "pred_option str_ok banner"
    and sign: "hk_sign K k (publickey_signed_data_bound session_id user (lit ''ssh-connection'') (hk_algorithm K k)
        (hk_public_blob K k) hostbound) = Ok sig"
  shows "authenticate K H mm user session_id None None hostbound [CredPublicKey k]
       (map (\<lambda>p. (p, None)) (pk_replies banner (hk_algorithm K k) (hk_public_blob K k)))
     = (CLoggedIn, [svc_request, pk_probe user (hk_algorithm K k) (hk_public_blob K k),
         pk_signed user (hk_algorithm K k) (hk_public_blob K k) sig hostbound])"
proof -
  let ?alg = "hk_algorithm K k" and ?blob = "hk_public_blob K k"
  let ?c0 = "client_start user session_id None None hostbound [CredPublicKey k] :: ('a, 'b, 'c) client_auth"
  let ?c1 = "?c0\<lparr>ca_credentials := [], ca_current := Some (CredPublicKey k), ca_state := CAwaitingPkOk\<rparr>"
  obtain b0 where b0: "svc_accept = SSH_MSG_SERVICE_ACCEPT # b0" using svc_messages by blast
  obtain b1 where b1: "userauth_pk_ok_encode \<lparr>pk_algorithm = ?alg, pk_public_blob = ?blob\<rparr> = SSH_MSG_USERAUTH_PK_OK # b1"
    using pk_ok_arrives(2) names by blast
  have dec: "service_accept_decode (SSH_MSG_SERVICE_ACCEPT # b0) = Ok \<lparr>sm_service = lit ''ssh-userauth''\<rparr>"
    "userauth_pk_ok_decode (SSH_MSG_USERAUTH_PK_OK # b1) = Ok \<lparr>pk_algorithm = ?alg, pk_public_blob = ?blob\<rparr>"
    using svc_messages(2) pk_ok_arrives(1) [OF names(2,3)] by (simp_all add: b0 b1)
  have ne: "SSH_MSG_SERVICE_ACCEPT \<noteq> SSH_MSG_USERAUTH_BANNER" "SSH_MSG_USERAUTH_PK_OK \<noteq> SSH_MSG_USERAUTH_BANNER"
    by (simp_all add: auth_msg_defs)
  have open_: "\<not> auth_packet_blocked_after_mismatch (pk_probe user ?alg ?blob)"
    "\<not> auth_packet_blocked_after_mismatch (pk_signed user ?alg ?blob sig hostbound)"
    unfolding pk_probe_def pk_signed_def using names by (intro pk_request_unblocked pk_request_arrives(2); simp)+
  have kept: "(if mm then filter_credentials_after_mismatch [CredPublicKey k] else Ok [CredPublicKey k]) = Ok [CredPublicKey k]"
    by (simp add: filter_credentials_after_mismatch_def)
  have "usable_credential K (c :: ('a, 'b, 'c) client_auth) (CredPublicKey k) = Some (CredPublicKey k)"
    if "pubkey_accepted c = None" "server_sig_algs c = None" "server_continuations c = []" for c
    using that by (simp add: usable_credential_def local_policy_def legacy_rsa_def server_filter_def)
  then have accept: "client_auth_on_packet K H svc_accept ?c0 = (?c1, Ok (CSend (pk_probe user ?alg ?blob)))"
    unfolding b0
    by (simp add: client_auth_on_packet_def on_service_accept_def dec client_start_def ne)
      (simp add: advance_to_next_credential.simps emit_current_request.simps client_request_def pk_probe_def request_for_def)
  have reply: "client_auth_on_packet K H (SSH_MSG_USERAUTH_PK_OK # b1) ?c1
      = (?c1\<lparr>ca_state := CAwaitingPkResult\<rparr>, Ok (CSend (pk_signed user ?alg ?blob sig hostbound)))"
    using dec(2) sign
    by (simp add: client_auth_on_packet_def on_pk_probe_reply_def send_pk_signed_def client_start_def client_request_def
      pk_signed_def request_for_def ne)
  have success: "client_auth_on_packet K H encode_success (?c1\<lparr>ca_state := CAwaitingPkResult\<rparr>)
      = auth_succeeded (?c1\<lparr>ca_state := CAwaitingPkResult\<rparr>)"
    by (simp add: encode_success_def encode_simps wire_simps client_auth_on_packet_def on_auth_result_def decode_success_def index_res_def
      auth_msg_defs)
  have fuel: "CLIENT_MAX_AUTH_STEPS = Suc (length (banner_payloads banner) + Suc (Suc (61 - length (banner_payloads banner))))"
    by (cases banner) (simp_all add: CLIENT_MAX_AUTH_STEPS_def banner_payloads_def)
  show ?thesis
    using open_ accept reply success
    by (simp add: authenticate_eq kept fuel pk_replies_def run_auth_turn banner_turns banner b1 svc_request_def [symmetric] auth_succeeded_def)
qed
section \<open>The server's side\<close>

lemma server_auth_start_fields:
  "server_auth_start session_id methods a0 tries now ca_algos options pk_ok host_key =
     \<lparr>sa_service = lit ''ssh-connection'', sa_session_id = session_id, accepted_methods = methods, sa_auth = a0,
      sa_state = AwaitingServiceRequest, pending_user = None, used_keys = [], sa_host_key = host_key, auth_info = [],
      pending_prompt_count = None, first_user = None, sa_allow_none = False, max_auth_tries = tries,
      failed_attempts = 0, sa_now = now, ca_signature_algorithms = ca_algos, pending_cert_caps = None,
      sk_touch_required = fst options, sk_verify_required = snd options, max_pk_ok = pk_ok, pk_ok_failures = 0\<rparr>"
  by (cases host_key) (simp_all add: server_auth_start_def server_auth_new_def server_auth_setters Let_def)

lemma server_pk_login:
  fixes A :: "'a authenticator"
  assumes names: "str_ok user" "str_ok alg" "blob_ok blob" "blob_ok sig" "pred_option blob_ok hostbound"
    and bound: "hostbound = None \<or> hostbound = host_key"
    and key: "\<not> is_cert_name alg" "host_key_verify_by_name P sha1 alg blob = Ok v" "sk_signature_details sig = None"
      "verifier_verify P v (publickey_signed_data_bound session_id user (lit ''ssh-connection'') alg blob hostbound) sig = Ok ()"
    and u: "u = account_name user"
    and policy: "lit ''publickey'' \<in> set (rp_methods (resolve u))"
    and probe: "evaluate A (on_user_resolved A a0 u (rp_auth_methods (resolve u))) (AttemptPublicKey u alg blob True False None None) = (d, a1)"
      "accepts d"
    and signed: "evaluate A a1 (AttemptPublicKey u alg blob False True None None) = (Accept, a2)"
    and restr: "key_restrictions A a2 u blob = (caps, a3)"
  shows "\<exists>st. do_server_auth P sha1 A resolve MAX_AUTH_STEPS None [svc_request, pk_probe user alg blob, pk_signed user alg blob sig hostbound]
      (server_auth_start session_id methods a0 tries now ca_algos options pk_ok host_key) []
    = (LoggedIn u caps (publickey_line blob @ [10]), pk_replies (rp_banner (resolve u)) alg blob, st)"
proof -
  let ?S = "server_auth_start session_id methods a0 tries now ca_algos options pk_ok host_key"
  let ?r1 = "\<lparr>ur_user = user, ur_service = lit ''ssh-connection'', ur_method = AuthPublicKey False alg blob None None\<rparr>"
  let ?r2 = "\<lparr>ur_user = user, ur_service = lit ''ssh-connection'', ur_method = AuthPublicKey True alg blob (Some sig) hostbound\<rparr>"
  obtain b0 where b0: "svc_request = SSH_MSG_SERVICE_REQUEST # b0" using svc_messages by blast
  have d0: "service_request_decode (SSH_MSG_SERVICE_REQUEST # b0) = Ok \<lparr>sm_service = lit ''ssh-userauth''\<rparr>"
    using svc_messages(1) by (simp add: b0)
  have dec: "userauth_request_decode (pk_probe user alg blob) = Ok ?r1"
    "userauth_request_decode (pk_signed user alg blob sig hostbound) = Ok ?r2"
    unfolding pk_probe_def pk_signed_def using names by (intro pk_request_arrives(1); simp)+
  obtain b1 b2 where b: "pk_probe user alg blob = SSH_MSG_USERAUTH_REQUEST # b1"
    "pk_signed user alg blob sig hostbound = SSH_MSG_USERAUTH_REQUEST # b2"
    by (simp add: pk_probe_def pk_signed_def request_for_bytes)
  have peek: "peek_request svc_request = None"
    using peeked_type [of svc_request] by (cases "peek_request svc_request") (auto simp: b0 auth_msg_defs)
  have peeks: "peek_request (pk_probe user alg blob) = Some (u, lit ''publickey'')"
    "peek_request (pk_signed user alg blob sig hostbound) = Some (u, lit ''publickey'')"
    by (simp_all add: peek_request_eq dec u)
  define s1 where "s1 = ?S\<lparr>sa_state := AwaitingRequest\<rparr>"
  define s2 where "s2 = fst (resolve_user A resolve u s1)"
  define s3 where "s3 = s2\<lparr>first_user := Some u, sa_auth := a1\<rparr>"
  have turn0: "auth_turn P sha1 A svc_request ?S = (s1, Ok (StepSend svc_accept))"
    by (simp add: auth_turn_def peek [unfolded b0] b0 server_auth_on_packet_def on_service_request_def d0 s1_def server_auth_start_fields svc_accept_def)
  have s2: "resolve_user A resolve u s1 = (s2, banner_payloads (rp_banner (resolve u)))"
    by (simp add: s2_def resolve_user_def banner_payloads_def Let_def split: option.split)
  have f2: "sa_state s2 = AwaitingRequest" "first_user s2 = None" "sa_service s2 = lit ''ssh-connection''" "used_keys s2 = []"
    "accepted_methods s2 = rp_methods (resolve u)" "sa_auth s2 = on_user_resolved A a0 u (rp_auth_methods (resolve u))"
    "sa_session_id s2 = session_id" "sa_host_key s2 = host_key" "pending_cert_caps s2 = None" "auth_info s2 = []"
    by (simp_all add: s2_def s1_def resolve_user_def server_auth_setters server_auth_start_fields Let_def)
  have turn1: "auth_turn P sha1 A (pk_probe user alg blob) s2
      = (s3, Ok (StepSend (userauth_pk_ok_encode \<lparr>pk_algorithm = alg, pk_public_blob = blob\<rparr>)))"
    using policy probe key(1) u
    by (auto simp: auth_turn_def peeks [unfolded b] f2 b(1) dec(1) [unfolded b(1)] server_auth_on_packet_def on_userauth_request_def pin_user_def
      handle_request_def handle_publickey_def handle_probe_def probe_cert_info_def accepts_def s3_def Let_def split: auth_decision.splits)
  have turn2: "\<exists>st. auth_turn P sha1 A (pk_signed user alg blob sig hostbound) s3
      = (st, Ok (StepAuthenticated encode_success u caps (publickey_line blob @ [10])))"
    using policy key bound u signed restr
    by (auto simp: auth_turn_def peeks [unfolded b] f2 b(2) dec(2) [unfolded b(2)] server_auth_on_packet_def on_userauth_request_def pin_user_def s3_def
      handle_request_def handle_publickey_def handle_signed_def select_verifier_def restrict_decision_def accepts_def merge_caps_def opt_or_def
      record_success_def apply_decision_def Let_def split: option.split)
  obtain st where turn2: "auth_turn P sha1 A (pk_signed user alg blob sig hostbound) s3
      = (st, Ok (StepAuthenticated encode_success u caps (publickey_line blob @ [10])))" using turn2 by blast
  have "do_server_auth P sha1 A resolve (Suc (Suc (Suc n))) None [svc_request, pk_probe user alg blob, pk_signed user alg blob sig hostbound] ?S []
      = (LoggedIn u caps (publickey_line blob @ [10]), pk_replies (rp_banner (resolve u)) alg blob, st)" for n
    by (simp add: do_server_auth_turn auth_resolve_def peek peeks s2 turn0 turn1 turn2 pk_replies_def)
  from this [of 61] show ?thesis by (auto simp: MAX_AUTH_STEPS_def)
qed

section \<open>Both sides\<close>

text \<open>An Ed25519 signature that is made under a key is accepted under it.\<close>

lemma ed25519_blob_parses:
  assumes "length pk = 32"
  shows "ed25519_from_public_blob (ed25519_public_blob pk) = Ok pk"
  using assms
  by (simp add: ed25519_from_public_blob_def ed25519_public_blob_def encode_simps wire_simps fits_u32_def ED25519_def small_def USIZE_LIMIT_def)

lemma ed25519_signature_accepted:
  assumes "length (ed_sign P sk msg) = 64" "ed_verify P pk msg (ed_sign P sk msg)" "ed25519_sign P (Some sk) msg = Ok sig"
  shows "ed25519_verify P pk msg sig = Ok ()" "sk_signature_details sig = None" "blob_ok sig"
proof -
  have sig: "sig = enc_string ED25519 @ enc_string (ed_sign P sk msg)"
    using assms(3) by (simp add: ed25519_sign_def encode_simps wire_simps)
  have small: "small sig" "fits_u32 ED25519" "fits_u32 (ed_sign P sk msg)"
    using assms(1) by (simp_all add: sig enc_string_length ED25519_def fits_u32_def small_def USIZE_LIMIT_def)
  then show "ed25519_verify P pk msg sig = Ok ()"
    using assms(1,2) by (simp add: ed25519_verify_def run_rd_def reader_new_rd_at sig wire_simps rd_check_def)
  show "sk_signature_details sig = None"
    using small by (simp add: sk_signature_details_def sk_signature_flags_def run_rd_def reader_new_rd_at sig wire_simps ok_opt_def
      ED25519_def SK_ECDSA_def SK_ED25519_def WEBAUTHN_SK_ECDSA_def lit_inject)
  show "blob_ok sig" using assms(1) by (simp add: sig blob_ok_def MAX_USERAUTH_STRING_val enc_string_length ED25519_def)
qed

text \<open>
  Claim C21. A login with an Ed25519 key completes. If the signature scheme accepts what it signs, the
  server's policy for the account offers publickey and its authenticator accepts the key, then the two
  loops, each run on exactly the payloads that the other sends, end with the client logged in and the
  server reporting the account with the restrictions of the key, and with the banner delivered on
  the way. This holds with and without host-key binding, and also after an accepted change of the host key.
\<close>

theorem login_completes:
  fixes A :: "'a authenticator" and H :: "('p, 'r) client_hooks"
  assumes scheme: "\<forall>m. length (ed_sign P sk m) = 64 \<and> ed_verify P (ed_public P sk) m (ed_sign P sk m)" "length (ed_public P sk) = 32"
    and names: "str_ok user" "pred_option blob_ok hostbound" "hostbound = None \<or> hostbound = host_key"
    and u: "u = account_name user" and blob: "blob = ed25519_public_blob (ed_public P sk)"
    and policy: "lit ''publickey'' \<in> set (rp_methods (resolve u))" "pred_option str_ok (rp_banner (resolve u))"
    and probe: "evaluate A (on_user_resolved A a0 u (rp_auth_methods (resolve u))) (AttemptPublicKey u ED25519 blob True False None None) = (d, a1)"
      "accepts d"
    and signed: "evaluate A a1 (AttemptPublicKey u ED25519 blob False True None None) = (Accept, a2)"
    and restr: "key_restrictions A a2 u blob = (caps, a3)"
  shows "\<exists>to_server to_client st.
      do_server_auth P sha1 A resolve MAX_AUTH_STEPS None to_server
        (server_auth_start session_id methods a0 tries now ca_algos options pk_ok host_key) []
      = (LoggedIn u caps (publickey_line blob @ [10]), to_client, st)
    \<and> authenticate (signer_ops P sha1') H mismatched user session_id None None hostbound
        [CredPublicKey (SEd25519 (Some sk) (ed_public P sk))] (map (\<lambda>p. (p, None)) to_client)
      = (CLoggedIn, to_server)"
proof -
  let ?K = "signer_ops P sha1'" and ?k = "SEd25519 (Some sk) (ed_public P sk)"
  let ?data = "publickey_signed_data_bound session_id user (lit ''ssh-connection'') ED25519 blob hostbound"
  have k: "hk_algorithm ?K ?k = ED25519" "hk_public_blob ?K ?k = blob" "hk_sign ?K ?k = ed25519_sign P (Some sk)"
    by (simp_all add: signer_ops_def blob fun_eq_iff)
  obtain sig where sig: "ed25519_sign P (Some sk) ?data = Ok sig" by (simp add: ed25519_sign_def)
  note ok = ed25519_signature_accepted [OF _ _ sig, of "ed_public P sk"]
  have alg: "str_ok ED25519" "\<not> is_cert_name ED25519"
    by (simp_all add: str_ok_def blob_ok_def MAX_USERAUTH_STRING_val ED25519_def valid_utf8_lit) code_simp
  have blob_ok: "blob_ok blob" using scheme(2)
    by (simp add: blob ed25519_public_blob_def encode_simps wire_simps blob_ok_def MAX_USERAUTH_STRING_val ED25519_def)
  have v: "host_key_verify_by_name P sha1 ED25519 blob = Ok (VEd25519 (ed_public P sk))"
    using ed25519_blob_parses [OF scheme(2)] by (simp add: host_key_verify_by_name.simps ED25519_def blob)
  have sig': "sk_signature_details sig = None" "blob_ok sig" "verifier_verify P (VEd25519 (ed_public P sk)) ?data sig = Ok ()"
    using ok scheme(1) by simp_all
  from server_pk_login [where resolve = resolve and ?a0.0 = a0, OF names(1) alg(1) blob_ok sig'(2) names(2,3) alg(2) v sig'(1,3) u policy(1)
    probe signed restr]
  obtain st where server: "do_server_auth P sha1 A resolve MAX_AUTH_STEPS None
      [svc_request, pk_probe user ED25519 blob, pk_signed user ED25519 blob sig hostbound]
      (server_auth_start session_id methods a0 tries now ca_algos options pk_ok host_key) []
    = (LoggedIn u caps (publickey_line blob @ [10]), pk_replies (rp_banner (resolve u)) ED25519 blob, st)"
    by blast
  have client: "authenticate ?K H mismatched user session_id None None hostbound [CredPublicKey ?k]
      (map (\<lambda>p. (p, None)) (pk_replies (rp_banner (resolve u)) ED25519 blob))
    = (CLoggedIn, [svc_request, pk_probe user ED25519 blob, pk_signed user ED25519 blob sig hostbound])"
    using client_pk_login [where K = ?K and k = ?k and H = H, unfolded k] names alg blob_ok sig' policy(2) sig by simp
  show ?thesis using server client by blast
qed
section \<open>Examples\<close>

text \<open>An authenticator that takes every key, a policy with a banner, a client with a password and a key.\<close>

definition key_auth :: "unit authenticator" where
  "key_auth = \<lparr>evaluate = (\<lambda>n at. (case at of AttemptPublicKey _ _ _ _ _ _ _ \<Rightarrow> Accept | _ \<Rightarrow> Reject, n)),
     key_restrictions = (\<lambda>n _ _. (None, n)), continuable_methods = (\<lambda>_ ms. ms),
     evaluate_interactive = (\<lambda>n _ _. (Reject, n)), on_user_resolved = (\<lambda>n _ _. n)\<rparr>"

definition key_policy :: "rust_str \<Rightarrow> resolved_policy" where
  "key_policy _ = \<lparr>rp_methods = [lit ''publickey''], rp_banner = Some (lit ''welcome''), rp_auth_methods = [],
     rp_pubkey_auth_options = (False, False), rp_max_pk_ok = 6\<rparr>"

definition demo_hooks :: "(unit, unit) client_hooks" where
  "demo_hooks = \<lparr>ask_password = (\<lambda>f _. (None, f)), respond = (\<lambda>r _ _ _. ([], r)), submethods = (\<lambda>_. [])\<rparr>"

definition demo_signer :: signer where
  "demo_signer = SEd25519 (Some (replicate 32 7)) (replicate 32 7)"

definition demo_blob :: bytes where "demo_blob = ed25519_public_blob (replicate 32 7)"

lemma demo_scheme:
  "\<forall>m. length (ed_sign toy_sig (replicate 32 7) m) = 64 \<and> ed_verify toy_sig (ed_public toy_sig (replicate 32 7)) m (ed_sign toy_sig (replicate 32 7) m)"
  "length (ed_public toy_sig (replicate 32 7)) = 32" "ed_public toy_sig (replicate 32 7) = replicate 32 7"
  by (auto simp: toy_sig_def min_def)

lemma demo_names: "str_ok (lit ''alice'')" "pred_option str_ok (Some (lit ''welcome''))" "str_ok ED25519" "account_name (lit ''alice'') = lit ''alice''"
  by (simp_all add: str_ok_def blob_ok_def MAX_USERAUTH_STRING_val valid_utf8_lit ED25519_def) code_simp

theorem login_completes_witness:
  "\<exists>to_server to_client st.
      do_server_auth toy_sig False key_auth key_policy MAX_AUTH_STEPS None to_server
        (server_auth_start [1, 2, 3] [] () (Some 6) 0 [] (False, False) 6 (Some [9])) []
      = (LoggedIn (lit ''alice'') None (publickey_line demo_blob @ [10]), to_client, st)
    \<and> authenticate (signer_ops toy_sig False) demo_hooks True (lit ''alice'') [1, 2, 3] None None (Some [9])
        [CredPublicKey demo_signer] (map (\<lambda>p. (p, None)) to_client)
      = (CLoggedIn, to_server)"
proof -
  have eval: "evaluate key_auth (on_user_resolved key_auth () (lit ''alice'') (rp_auth_methods (key_policy (lit ''alice''))))
      (AttemptPublicKey (lit ''alice'') ED25519 demo_blob True False None None) = (Accept, ())" "accepts Accept"
    "evaluate key_auth () (AttemptPublicKey (lit ''alice'') ED25519 demo_blob False True None None) = (Accept, ())"
    "key_restrictions key_auth () (lit ''alice'') demo_blob = (None, ())"
    by (simp_all add: key_auth_def accepts_def)
  have policy: "lit ''publickey'' \<in> set (rp_methods (key_policy (lit ''alice'')))" "pred_option str_ok (rp_banner (key_policy (lit ''alice'')))"
    using demo_names(2) by (simp_all add: key_policy_def)
  have bound: "pred_option blob_ok (Some [9])" by (simp add: blob_ok_def MAX_USERAUTH_STRING_val)
  show ?thesis
    using login_completes [where P = toy_sig and sk = "replicate 32 7" and H = demo_hooks and resolve = key_policy and ?a0.0 = "()"
        and host_key = "Some [9]" and blob = demo_blob,
        OF demo_scheme(1,2) demo_names(1) bound disjI2 [OF refl] demo_names(4) [symmetric] _ policy eval]
    by (simp add: demo_scheme(3) demo_blob_def demo_signer_def)
qed

lemma demo_client_run:
  "\<exists>sig. authenticate (signer_ops toy_sig False) demo_hooks True (lit ''alice'') [1, 2, 3] None None None
      [CredPassword (lit ''secret''), CredPublicKey demo_signer] (map (\<lambda>p. (p, None)) (pk_replies None ED25519 demo_blob))
    = (CLoggedIn, [svc_request, pk_probe (lit ''alice'') ED25519 demo_blob, pk_signed (lit ''alice'') ED25519 demo_blob sig None])
    \<and> blob_ok sig"
proof -
  let ?data = "publickey_signed_data_bound [1, 2, 3] (lit ''alice'') (lit ''ssh-connection'') ED25519 demo_blob None"
  have k: "hk_algorithm (signer_ops toy_sig False) demo_signer = ED25519" "hk_public_blob (signer_ops toy_sig False) demo_signer = demo_blob"
    "hk_sign (signer_ops toy_sig False) demo_signer = ed25519_sign toy_sig (Some (replicate 32 7))"
    by (simp_all add: signer_ops_def demo_signer_def demo_blob_def fun_eq_iff)
  obtain sig where sig: "ed25519_sign toy_sig (Some (replicate 32 7)) ?data = Ok sig" by (simp add: ed25519_sign_def)
  have ok: "blob_ok sig" using ed25519_signature_accepted(3) [OF _ _ sig] demo_scheme(1) by blast
  have blob: "blob_ok demo_blob"
    by (simp add: demo_blob_def ed25519_public_blob_def encode_simps wire_simps blob_ok_def MAX_USERAUTH_STRING_val ED25519_def)
  have same: "authenticate (signer_ops toy_sig False) demo_hooks True (lit ''alice'') [1, 2, 3] None None None
      [CredPassword (lit ''secret''), CredPublicKey demo_signer] ps
    = authenticate (signer_ops toy_sig False) demo_hooks True (lit ''alice'') [1, 2, 3] None None None [CredPublicKey demo_signer] ps" for ps
    by (simp add: authenticate_def filter_credentials_after_mismatch_def)
  have "authenticate (signer_ops toy_sig False) demo_hooks True (lit ''alice'') [1, 2, 3] None None None [CredPublicKey demo_signer]
      (map (\<lambda>p. (p, None)) (pk_replies None ED25519 demo_blob))
    = (CLoggedIn, [svc_request, pk_probe (lit ''alice'') ED25519 demo_blob, pk_signed (lit ''alice'') ED25519 demo_blob sig None])"
    using client_pk_login [where K = "signer_ops toy_sig False" and k = demo_signer and H = demo_hooks and banner = None, unfolded k] demo_names blob ok sig
    by simp
  then show ?thesis using ok same by metis
qed

lemma demo_small: "blob_ok sig \<Longrightarrow> small (pk_signed (lit ''alice'') ED25519 demo_blob sig None)"
  unfolding pk_signed_def using demo_names
  by (intro pk_request_arrives(2)) (simp_all add: demo_blob_def ed25519_public_blob_def encode_simps wire_simps blob_ok_def MAX_USERAUTH_STRING_val ED25519_def)

theorem mismatch_no_secrets_witness:
  "\<exists>outs p. authenticate (signer_ops toy_sig False) demo_hooks True (lit ''alice'') [1, 2, 3] None None None
       [CredPassword (lit ''secret''), CredPublicKey demo_signer] (map (\<lambda>p. (p, None)) (pk_replies None ED25519 demo_blob)) = (CLoggedIn, outs)
     \<and> p \<in> set outs \<and> p \<noteq> [SSH_MSG_USERAUTH_INFO_RESPONSE]"
proof -
  obtain sig where run: "authenticate (signer_ops toy_sig False) demo_hooks True (lit ''alice'') [1, 2, 3] None None None
      [CredPassword (lit ''secret''), CredPublicKey demo_signer] (map (\<lambda>p. (p, None)) (pk_replies None ED25519 demo_blob))
    = (CLoggedIn, [svc_request, pk_probe (lit ''alice'') ED25519 demo_blob, pk_signed (lit ''alice'') ED25519 demo_blob sig None])" "blob_ok sig"
    using demo_client_run by blast
  from mismatch_no_secrets [OF run(1), of "pk_signed (lit ''alice'') ED25519 demo_blob sig None"] demo_small [OF run(2)]
  have "pk_signed (lit ''alice'') ED25519 demo_blob sig None \<noteq> [SSH_MSG_USERAUTH_INFO_RESPONSE]" by simp
  with run(1) show ?thesis by fastforce
qed

theorem client_discloses_witness:
  "\<exists>outs. authenticate (signer_ops toy_sig False) demo_hooks True (lit ''alice'') [1, 2, 3] None None None
       [CredPassword (lit ''secret''), CredPublicKey demo_signer] (map (\<lambda>p. (p, None)) (pk_replies None ED25519 demo_blob)) = (CLoggedIn, outs)
     \<and> justified (signer_ops toy_sig False) demo_hooks {CredPassword (lit ''secret''), CredPublicKey demo_signer} (lit ''alice'') [1, 2, 3] None
         (set (pk_replies None ED25519 demo_blob)) (last outs)"
proof -
  obtain sig where run: "authenticate (signer_ops toy_sig False) demo_hooks True (lit ''alice'') [1, 2, 3] None None None
      [CredPassword (lit ''secret''), CredPublicKey demo_signer] (map (\<lambda>p. (p, None)) (pk_replies None ED25519 demo_blob))
    = (CLoggedIn, [svc_request, pk_probe (lit ''alice'') ED25519 demo_blob, pk_signed (lit ''alice'') ED25519 demo_blob sig None])"
    using demo_client_run by blast
  have received: "fst ` set (map (\<lambda>p. (p, None :: rust_str option)) (pk_replies None ED25519 demo_blob)) = set (pk_replies None ED25519 demo_blob)"
    by force
  have "pk_signed (lit ''alice'') ED25519 demo_blob sig None \<noteq> svc_request"
    by (simp add: pk_signed_def request_for_bytes svc_request_def service_request_encode_def encode_simps wire_simps auth_msg_defs)
  with client_discloses [OF mem.signing_keys_axioms run, unfolded received] run show ?thesis
    by (auto simp: svc_request_def)
qed
section \<open>Algorithm policy\<close>



end
