(* ===== verification/Chars.thy ===== *)
theory Chars
  imports Text
begin

text \<open>
  More of Rust's \<open>str\<close>: its characters, words, control characters and ASCII case, lossy decoding, and
  decimal numbers of 16 bits. A character is the byte sequence that encodes it.
\<close>

section \<open>Characters\<close>

text \<open>\<open>s.chars()\<close>; the last case is not reached, as a string is valid UTF-8.\<close>

function str_chars :: "rust_str \<Rightarrow> bytes list" where
  "str_chars s =
     (if s = [] then []
      else case utf8_step s of
             Some n \<Rightarrow> take n s # str_chars (drop n s)
           | None \<Rightarrow> [s])"
  by pat_completeness auto
termination
  by (relation "measure length") (auto dest: utf8_step_pos)

declare str_chars.simps [simp del]

text \<open>\<open>String::from_utf8_lossy\<close>: the length of the piece that one replacement character stands for, and the whole.\<close>

definition bad_utf8 :: "bytes \<Rightarrow> nat" where
  "bad_utf8 bs =
     (case bs of
        b0 # b1 # r \<Rightarrow>
          if in_range 0xE0 0xEF b0 then (if second_of_three b0 b1 then 2 else 1)
          else if in_range 0xF0 0xF4 b0 then
            (if second_of_four b0 b1
             then (case r of b2 # _ \<Rightarrow> if in_range 0x80 0xBF b2 then 3 else 2 | [] \<Rightarrow> 2)
             else 1)
          else 1
      | _ \<Rightarrow> 1)"

function from_utf8_lossy :: "bytes \<Rightarrow> rust_str" where
  "from_utf8_lossy bs =
     (if bs = [] then []
      else case utf8_step bs of
             Some n \<Rightarrow> take n bs @ from_utf8_lossy (drop n bs)
           | None \<Rightarrow> [0xEF, 0xBF, 0xBD] @ from_utf8_lossy (drop (bad_utf8 bs) bs))"
  by pat_completeness auto
termination
  by (relation "measure length") (auto dest: utf8_step_pos simp: bad_utf8_def split: list.split)

declare from_utf8_lossy.simps [simp del]

definition is_whitespace :: "bytes \<Rightarrow> bool" where
  "is_whitespace c \<longleftrightarrow> c \<in> set white_space"

text \<open>The general category Cc: U+0000 to U+001F and U+007F to U+009F.\<close>

definition is_control :: "bytes \<Rightarrow> bool" where
  "is_control c \<longleftrightarrow> (case c of [b] \<Rightarrow> b < 0x20 \<or> b = 0x7F | [b0, b1] \<Rightarrow> b0 = 0xC2 \<and> b1 < 0xA0 | _ \<Rightarrow> False)"

text \<open>\<open>s.split_whitespace()\<close>, with the word read so far.\<close>

fun words_from :: "bytes \<Rightarrow> bytes list \<Rightarrow> rust_str list" where
  "words_from w [] = (if w = [] then [] else [w])"
| "words_from w (c # cs) =
     (if is_whitespace c then (if w = [] then [] else [w]) @ words_from [] cs else words_from (w @ c) cs)"

definition split_whitespace :: "rust_str \<Rightarrow> rust_str list" where
  "split_whitespace s = words_from [] (str_chars s)"

definition join_space :: "rust_str list \<Rightarrow> rust_str" where
  "join_space ws = (case ws of [] \<Rightarrow> [] | w # ws \<Rightarrow> w @ concat (map (\<lambda>v. 0x20 # v) ws))"

definition ascii_lower :: "u8 \<Rightarrow> u8" where
  "ascii_lower b = (if 0x41 \<le> b \<and> b \<le> 0x5A then b + 0x20 else b)"

definition to_ascii_lowercase :: "rust_str \<Rightarrow> rust_str" where
  "to_ascii_lowercase = map ascii_lower"

definition eq_ignore_ascii_case :: "rust_str \<Rightarrow> rust_str \<Rightarrow> bool" where
  "eq_ignore_ascii_case a b \<longleftrightarrow> map ascii_lower a = map ascii_lower b"

definition str_strip_prefix :: "rust_str \<Rightarrow> rust_str \<Rightarrow> rust_str option" where
  "str_strip_prefix s p = (if str_starts_with s p then Some (drop (length p) s) else None)"

text \<open>\<open>s.rfind(c)\<close> of an ASCII character, as the parts before and behind its last occurrence.\<close>

definition str_rsplit_once :: "u8 \<Rightarrow> rust_str \<Rightarrow> (rust_str \<times> rust_str) option" where
  "str_rsplit_once c s = map_option (\<lambda>(a, b). (rev b, rev a)) (str_split_once c (rev s))"

section \<open>Numbers\<close>

type_synonym port = "16 word"

definition is_digit :: "u8 \<Rightarrow> bool" where
  "is_digit b \<longleftrightarrow> 0x30 \<le> b \<and> b \<le> 0x39"

definition dec_value :: "bytes \<Rightarrow> nat" where
  "dec_value ds = foldl (\<lambda>v d. 10 * v + (unat d - 48)) 0 ds"

text \<open>\<open>s.parse::<u16>()\<close>: a plus sign is allowed, a minus sign is not.\<close>

definition parse_u16 :: "rust_str \<Rightarrow> port option" where
  "parse_u16 s =
     (let ds = (case s of c # r \<Rightarrow> if c = 0x2B then r else s | [] \<Rightarrow> [])
      in if ds \<noteq> [] \<and> list_all is_digit ds \<and> dec_value ds < 65536 then Some (of_nat (dec_value ds)) else None)"

fun dec_digits :: "nat \<Rightarrow> bytes" where
  "dec_digits n = (if n < 10 then [of_nat (48 + n)] else dec_digits (n div 10) @ [of_nat (48 + n mod 10)])"

declare dec_digits.simps [simp del]

definition port_str :: "port \<Rightarrow> rust_str" where
  "port_str p = dec_digits (unat p)"

section \<open>Laws\<close>

lemma digit_byte: "d < 10 \<Longrightarrow> unat (of_nat (48 + d) :: u8) = 48 + d"
  by (simp add: unat_of_nat take_bit_nat_eq_self del: of_nat_add)

lemma dec_value_snoc: "dec_value (ds @ [d]) = 10 * dec_value ds + (unat d - 48)"
  by (simp add: dec_value_def)

lemma is_digit_byte: "d < 10 \<Longrightarrow> is_digit (of_nat (48 + d))"
proof -
  assume "d < 10"
  then have "unat (of_nat (48 + d) :: u8) = 48 + d" by (rule digit_byte)
  with \<open>d < 10\<close> show ?thesis by (simp add: is_digit_def word_le_nat_alt)
qed

lemma dec_digits_props: "dec_value (dec_digits n) = n \<and> list_all is_digit (dec_digits n) \<and> dec_digits n \<noteq> []"
proof (induction n rule: dec_digits.induct)
  case (1 n)
  show ?case
  proof (cases "n < 10")
    case True
    then show ?thesis using digit_byte [OF True] is_digit_byte [OF True] by (subst (1 2 3) dec_digits.simps) (simp add: dec_value_def)
  next
    case False
    have m: "n mod 10 < 10" by simp
    from False 1 digit_byte [OF m] is_digit_byte [OF m] show ?thesis
      by (subst (1 2 3) dec_digits.simps) (simp add: dec_value_snoc)
  qed
qed

lemma parse_u16_port_str: "parse_u16 (port_str p) = Some p"
proof -
  note d = dec_digits_props [of "unat p"]
  obtain c r where ds: "dec_digits (unat p) = c # r" using d by (cases "dec_digits (unat p)") auto
  have "c \<noteq> 0x2B" using d ds by (auto simp: is_digit_def)
  moreover have "unat p < 65536" using unat_less_p2 [of p] by simp
  ultimately show ?thesis using d ds by (simp add: parse_u16_def port_str_def)
qed

lemma str_chars_Nil [simp]: "str_chars [] = []"
  by (simp add: str_chars.simps)

lemma str_chars_step: "utf8_step s = Some n \<Longrightarrow> str_chars s = take n s # str_chars (drop n s)"
  by (subst str_chars.simps) (auto simp: utf8_step_def)

lemma str_chars_append:
  "valid_utf8 a \<Longrightarrow> str_chars (a @ b) = str_chars a @ str_chars b"
proof (induction a rule: valid_utf8.induct)
  case (1 a)
  show ?case
  proof (cases "a = []")
    case False
    then obtain n where n: "utf8_step a = Some n" "valid_utf8 (drop n a)"
      using "1.prems" by (subst (asm) valid_utf8.simps) (auto split: option.splits)
    have "n \<le> length a" using utf8_step_pos [OF n(1)] by simp
    with 1(1) [OF False n(1)] n show ?thesis by (simp add: str_chars_step utf8_step_append)
  qed simp
qed

lemma str_chars_ascii: "b < 0x80 \<Longrightarrow> str_chars (b # s) = [b] # str_chars s"
  using str_chars_step [of "b # s" 1] by (simp add: utf8_step_def)

lemma str_chars_nonempty: "c \<in> set (str_chars s) \<Longrightarrow> c \<noteq> []"
proof (induction s rule: str_chars.induct)
  case (1 s)
  then show ?case by (subst (asm) str_chars.simps) (auto split: option.splits if_splits dest: utf8_step_pos)
qed

lemma concat_str_chars: "concat (str_chars s) = s"
proof (induction s rule: str_chars.induct)
  case (1 s)
  then show ?case by (subst str_chars.simps) (auto split: option.splits)
qed

lemma words_from_solid: "\<forall>c \<in> set cs. \<not> is_whitespace c \<Longrightarrow> words_from w (cs @ ds) = words_from (w @ concat cs) ds"
  by (induction cs arbitrary: w) auto

text \<open>A string that a line of words can hold as one of them.\<close>

definition one_word :: "rust_str \<Rightarrow> bool" where
  "one_word s \<longleftrightarrow> s \<noteq> [] \<and> valid_utf8 s \<and> (\<forall>c \<in> set (str_chars s). \<not> is_whitespace c)"

lemma words_of_word: "one_word s \<Longrightarrow> split_whitespace s = [s]"
  using words_from_solid [of "str_chars s" "[]" "[]"] by (simp add: split_whitespace_def one_word_def concat_str_chars)

lemma words_of_line: "one_word s \<Longrightarrow> split_whitespace (s @ 0x20 # t) = s # split_whitespace t"
proof -
  assume s: "one_word s"
  have "str_chars (s @ 0x20 # t) = str_chars s @ [0x20] # str_chars t"
    using s by (simp add: one_word_def str_chars_append str_chars_ascii)
  then show ?thesis
    using s words_from_solid [of "str_chars s" "[]" "[0x20] # str_chars t"]
    by (simp add: split_whitespace_def one_word_def concat_str_chars is_whitespace_def white_space_def)
qed

end
