(* ===== verification/Glob.thy ===== *)
theory Glob
  imports Text
begin

text \<open>
  Host patterns, src/src/config/glob.rs: the matcher for \<open>*\<close> and \<open>?\<close> with its single backtracking point,
  and pattern lists with negation. What a pattern means is the relation \<open>glob_lang\<close>, over any
  characters, and the matcher is shown to decide it.
\<close>

section \<open>The meaning of a pattern\<close>

inductive glob_lang :: "('c \<Rightarrow> 'c \<Rightarrow> bool) \<Rightarrow> 'c \<Rightarrow> 'c \<Rightarrow> 'c list \<Rightarrow> 'c list \<Rightarrow> bool" for eq star any where
  empty: "glob_lang eq star any [] []"
| stars: "glob_lang eq star any p b \<Longrightarrow> glob_lang eq star any (star # p) (a @ b)"
| anys: "glob_lang eq star any p n \<Longrightarrow> glob_lang eq star any (any # p) (x # n)"
| lits: "c \<noteq> star \<Longrightarrow> c \<noteq> any \<Longrightarrow> eq c x \<Longrightarrow> glob_lang eq star any p n \<Longrightarrow> glob_lang eq star any (c # p) (x # n)"

inductive_simps glob_lang_Nil: "glob_lang eq star any [] n"
inductive_simps glob_lang_Cons: "glob_lang eq star any (c # p) n"

lemma glob_star: "star \<noteq> any \<Longrightarrow> glob_lang eq star any (star # p) n \<longleftrightarrow> (\<exists>k \<le> length n. glob_lang eq star any p (drop k n))"
proof
  assume "star \<noteq> any" "glob_lang eq star any (star # p) n"
  then obtain a b where "n = a @ b" "glob_lang eq star any p b" by (auto simp: glob_lang_Cons)
  then show "\<exists>k \<le> length n. glob_lang eq star any p (drop k n)" by (intro exI [of _ "length a"]) simp
next
  assume "\<exists>k \<le> length n. glob_lang eq star any p (drop k n)"
  then obtain k where "glob_lang eq star any p (drop k n)" by blast
  from stars [OF this, of "take k n"] show "glob_lang eq star any (star # p) n" by simp
qed

lemma glob_lit: "c \<noteq> star \<Longrightarrow> glob_lang eq star any (c # p) n \<longleftrightarrow>
    (\<exists>x m. n = x # m \<and> (c = any \<or> c \<noteq> any \<and> eq c x) \<and> glob_lang eq star any p m)"
  by (auto simp: glob_lang_Cons)

text \<open>A star takes in more of what precedes.\<close>

lemma glob_star_more: "star \<noteq> any \<Longrightarrow> glob_lang eq star any (star # p) b \<Longrightarrow> glob_lang eq star any (star # p) (a @ b)"
  by (auto simp: glob_lang_Cons) (metis append.assoc)

lemma glob_star_step:
  assumes "star \<noteq> any" "\<not> glob_lang eq star any p (x # n)"
  shows "glob_lang eq star any (star # p) (x # n) \<longleftrightarrow> glob_lang eq star any (star # p) n"
proof
  assume "glob_lang eq star any (star # p) (x # n)"
  then obtain k where k: "k \<le> Suc (length n)" "glob_lang eq star any p (drop k (x # n))" using glob_star [OF assms(1)] by auto
  with assms(2) obtain j where "k = Suc j" by (cases k) auto
  with k show "glob_lang eq star any (star # p) n" by (auto simp: glob_star [OF assms(1)])
next
  assume "glob_lang eq star any (star # p) n"
  from glob_star_more [OF assms(1) this, of "[x]"] show "glob_lang eq star any (star # p) (x # n)" by simp
qed

text \<open>A stretch without stars takes as many characters as it has.\<close>

lemma glob_segment:
  assumes "star \<noteq> any" "star \<notin> set seg" "glob_lang eq star any (seg @ p) n"
  shows "length seg \<le> length n \<and> glob_lang eq star any seg (take (length seg) n) \<and> glob_lang eq star any p (drop (length seg) n)"
  using assms(2,3)
proof (induction seg arbitrary: n)
  case (Cons c seg)
  then obtain x m where n: "n = x # m" "c = any \<or> c \<noteq> any \<and> eq c x" "glob_lang eq star any (seg @ p) m"
    using glob_lit [of c star eq any "seg @ p" n] by auto
  with Cons have "length seg \<le> length m \<and> glob_lang eq star any seg (take (length seg) m) \<and> glob_lang eq star any p (drop (length seg) m)"
    by simp
  with n Cons.prems(1) show ?case by (auto intro: anys lits)
qed (simp add: glob_lang_Nil)

lemma glob_join:
  "glob_lang eq star any p a \<Longrightarrow> glob_lang eq star any q b \<Longrightarrow> glob_lang eq star any (p @ q) (a @ b)"
proof (induction p a rule: glob_lang.induct)
  case (stars p b' a)
  from glob_lang.stars [OF stars.IH [OF stars.prems], of a] show ?case by simp
qed (auto intro: glob_lang.intros)

lemma glob_all_stars: "star \<noteq> any \<Longrightarrow> glob_lang eq star any p [] \<longleftrightarrow> (\<forall>c \<in> set p. c = star)"
  by (induction p) (auto simp: glob_lang_Nil glob_lang_Cons)

section \<open>The matcher\<close>

abbreviation STAR :: u8 where "STAR \<equiv> 0x2A"
abbreviation QMARK :: u8 where "QMARK \<equiv> 0x3F"

text \<open>\<open>while ni < n.len()\<close>; the result is whether the loop was left by \<open>return false\<close>, and the pattern index.\<close>

function glob_loop :: "bytes \<Rightarrow> bytes \<Rightarrow> nat \<Rightarrow> nat \<Rightarrow> nat option \<Rightarrow> nat \<Rightarrow> nat option" where
  "glob_loop p n pi ni star_pi star_ni =
     (if ni < length n then
        if pi < length p \<and> (p ! pi = QMARK \<or> p ! pi = n ! ni) then glob_loop p n (pi + 1) (ni + 1) star_pi star_ni
        else if pi < length p \<and> p ! pi = STAR then glob_loop p n (pi + 1) ni (Some pi) ni
        else case star_pi of
               Some sp \<Rightarrow> glob_loop p n (sp + 1) (star_ni + 1) star_pi (star_ni + 1)
             | None \<Rightarrow> None
      else Some pi)"
  by pat_completeness auto

termination
  by (relation "measures [\<lambda>(p, n, pi, ni, sp, s). length n + 1 - min s ni, \<lambda>(p, n, pi, ni, sp, s). (length n - ni) + (length p - pi)]")
    (auto simp: min_def)

declare glob_loop.simps [simp del]

text \<open>The loop over what is left of the pattern.\<close>

function glob_tail :: "bytes \<Rightarrow> nat \<Rightarrow> nat" where
  "glob_tail p pi = (if pi < length p \<and> p ! pi = STAR then glob_tail p (pi + 1) else pi)"
  by pat_completeness auto
termination
  by (relation "measure (\<lambda>(p, pi). length p - pi)") auto

declare glob_tail.simps [simp del]

definition glob_match :: "rust_str \<Rightarrow> rust_str \<Rightarrow> bool" where
  "glob_match p n = (case glob_loop p n 0 0 None 0 of None \<Rightarrow> False | Some pi \<Rightarrow> glob_tail p pi = length p)"

section \<open>Pattern lists\<close>

datatype host_pattern = PatAny | PatPositive rust_str | PatNegative rust_str

definition host_pattern_parse :: "rust_str \<Rightarrow> host_pattern" where
  "host_pattern_parse token =
     (case token of
        [] \<Rightarrow> PatPositive token
      | c # rest \<Rightarrow> if c = 0x21 then PatNegative rest else if token = [STAR] then PatAny else PatPositive token)"

definition host_pattern_parse_all :: "rust_str list \<Rightarrow> host_pattern list" where
  "host_pattern_parse_all = map host_pattern_parse"

fun host_matches_loop :: "host_pattern list \<Rightarrow> rust_str \<Rightarrow> bool \<Rightarrow> bool \<Rightarrow> bool" where
  "host_matches_loop [] host any_positive positive_hit = (any_positive \<and> positive_hit)"
| "host_matches_loop (PatAny # ps) host any_positive positive_hit = host_matches_loop ps host True True"
| "host_matches_loop (PatPositive g # ps) host any_positive positive_hit =
     host_matches_loop ps host True (if \<not> positive_hit \<and> glob_match g host then True else positive_hit)"
| "host_matches_loop (PatNegative g # ps) host any_positive positive_hit =
     (if glob_match g host then False else host_matches_loop ps host any_positive positive_hit)"

definition host_matches :: "host_pattern list \<Rightarrow> rust_str \<Rightarrow> bool" where
  "host_matches patterns host = (if patterns = [] then False else host_matches_loop patterns host False False)"

section \<open>Correctness\<close>

abbreviation glob_bytes :: "bytes \<Rightarrow> bytes \<Rightarrow> bool" where
  "glob_bytes \<equiv> glob_lang (=) STAR QMARK"

lemma glob_tail_stars: "pi \<le> length p \<Longrightarrow> glob_tail p pi = length p \<longleftrightarrow> (\<forall>c \<in> set (drop pi p). c = STAR)"
proof (induction p pi rule: glob_tail.induct)
  case (1 p pi)
  show ?case
  proof (cases "pi < length p")
    case True
    then have "drop pi p = p ! pi # drop (pi + 1) p" by (simp add: Cons_nth_drop_Suc)
    with 1 True show ?thesis by (subst glob_tail.simps) auto
  qed (use 1 in \<open>subst glob_tail.simps, auto\<close>)
qed

text \<open>
  What the loop still has to decide: without a star behind it the rest of the pattern on the rest of
  the name; with one the pattern from that star on the name from the place the star last stood at,
  where the stretch between star and cursor has matched the stretch of the name.
\<close>

definition glob_goal :: "bytes \<Rightarrow> bytes \<Rightarrow> nat \<Rightarrow> nat \<Rightarrow> nat option \<Rightarrow> nat \<Rightarrow> bool" where
  "glob_goal p n pi ni star_pi star_ni =
     (case star_pi of None \<Rightarrow> glob_bytes (drop pi p) (drop ni n) | Some sp \<Rightarrow> glob_bytes (drop sp p) (drop star_ni n))"

definition glob_seg :: "bytes \<Rightarrow> bytes \<Rightarrow> nat \<Rightarrow> nat \<Rightarrow> nat \<Rightarrow> nat \<Rightarrow> bytes \<Rightarrow> bool" where
  "glob_seg p n pi ni sp star_ni seg \<longleftrightarrow> drop sp p = STAR # seg @ drop pi p \<and> STAR \<notin> set seg \<and> star_ni \<le> ni
     \<and> length seg = ni - star_ni \<and> glob_bytes seg (take (length seg) (drop star_ni n))"

definition glob_inv :: "bytes \<Rightarrow> bytes \<Rightarrow> nat \<Rightarrow> nat \<Rightarrow> nat option \<Rightarrow> nat \<Rightarrow> bool" where
  "glob_inv p n pi ni star_pi star_ni \<longleftrightarrow> pi \<le> length p \<and> ni \<le> length n
     \<and> (\<forall>sp. star_pi = Some sp \<longrightarrow> (\<exists>seg. glob_seg p n pi ni sp star_ni seg))"

lemma star_any [simp]: "STAR \<noteq> QMARK" by simp

lemma glob_segD:
  assumes "glob_seg p n pi ni sp star_ni seg"
  shows "drop sp p = STAR # seg @ drop pi p" "STAR \<notin> set seg" "star_ni \<le> ni" "length seg = ni - star_ni"
    "glob_bytes seg (take (length seg) (drop star_ni n))" "drop star_ni n = take (length seg) (drop star_ni n) @ drop ni n"
proof -
  show seg: "drop sp p = STAR # seg @ drop pi p" "STAR \<notin> set seg" "star_ni \<le> ni" "length seg = ni - star_ni"
    "glob_bytes seg (take (length seg) (drop star_ni n))"
    using assms unfolding glob_seg_def by blast+
  have "drop (length seg) (drop star_ni n) = drop ni n" using seg(3,4) by simp
  then show "drop star_ni n = take (length seg) (drop star_ni n) @ drop ni n" by (metis append_take_drop_id)
qed

text \<open>The stretch matches where it stands, so the pattern from the star on matches if the rest does.\<close>

lemma glob_seg_here:
  assumes "glob_seg p n pi ni sp star_ni seg" "glob_bytes (drop pi p) (drop ni n)"
  shows "glob_bytes (drop sp p) (drop star_ni n)"
proof -
  note s = glob_segD [OF assms(1)]
  have "glob_bytes (seg @ drop pi p) (drop star_ni n)" using glob_join [OF s(5) assms(2)] s(6) by simp
  from stars [OF this, of "[]"] show ?thesis by (simp add: s(1))
qed

lemma glob_seg_later:
  assumes "glob_seg p n pi ni sp star_ni seg" "glob_bytes (drop sp p) (drop star_ni n)"
  shows "\<exists>k. k + length seg \<le> length n - star_ni \<and> glob_bytes (drop pi p) (drop (ni + k) n)"
proof -
  note s = glob_segD [OF assms(1)]
  obtain k where k: "k \<le> length n - star_ni" "glob_bytes (seg @ drop pi p) (drop k (drop star_ni n))" using assms(2) s(1) by (auto simp: glob_star)
  from glob_segment [OF star_any s(2) k(2)] s(3,4) k(1)
  have "k + length seg \<le> length n - star_ni" "glob_bytes (drop pi p) (drop (ni + k) n)" by (auto simp: ac_simps)
  then show ?thesis by blast
qed

lemma glob_done:
  assumes "glob_inv p n pi (length n) star_pi star_ni"
  shows "glob_goal p n pi (length n) star_pi star_ni \<longleftrightarrow> (\<forall>c \<in> set (drop pi p). c = STAR)"
proof (cases star_pi)
  case (Some sp)
  then obtain seg where s: "glob_seg p n pi (length n) sp star_ni seg" using assms by (auto simp: glob_inv_def)
  have "glob_bytes (drop sp p) (drop star_ni n) \<longleftrightarrow> glob_bytes (drop pi p) []"
    using glob_seg_here [OF s] glob_seg_later [OF s] glob_segD(4) [OF s] by fastforce
  with Some show ?thesis by (simp add: glob_goal_def glob_all_stars)
qed (simp add: glob_goal_def glob_all_stars)

lemma glob_eat:
  assumes inv: "glob_inv p n pi ni star_pi star_ni" and len: "ni < length n" "pi < length p"
    and c: "p ! pi = QMARK \<or> p ! pi = n ! ni" "p ! pi \<noteq> STAR"
  shows "glob_inv p n (pi + 1) (ni + 1) star_pi star_ni"
    "glob_goal p n (pi + 1) (ni + 1) star_pi star_ni = glob_goal p n pi ni star_pi star_ni"
proof -
  have p: "drop pi p = p ! pi # drop (pi + 1) p" and n: "drop ni n = n ! ni # drop (ni + 1) n"
    using len by (simp_all add: Cons_nth_drop_Suc)
  have one: "glob_bytes [p ! pi] [n ! ni]" using c by (auto simp: glob_lit glob_lang_Nil)
  have "\<exists>seg. glob_seg p n (pi + 1) (ni + 1) sp star_ni seg" if "star_pi = Some sp" for sp
  proof -
    from that inv obtain seg where s: "glob_seg p n pi ni sp star_ni seg" by (auto simp: glob_inv_def)
    have "take (length (seg @ [p ! pi])) (drop star_ni n) = take (length seg) (drop star_ni n) @ [n ! ni]"
      using glob_segD [OF s] len by (simp add: take_Suc_conv_app_nth)
    moreover have "glob_bytes (seg @ [p ! pi]) (take (length seg) (drop star_ni n) @ [n ! ni])" by (rule glob_join [OF glob_segD(5) [OF s] one])
    ultimately show ?thesis using glob_segD [OF s] c(2) p by (intro exI [of _ "seg @ [p ! pi]"]) (auto simp: glob_seg_def)
  qed
  with inv len show "glob_inv p n (pi + 1) (ni + 1) star_pi star_ni" by (auto simp: glob_inv_def)
  show "glob_goal p n (pi + 1) (ni + 1) star_pi star_ni = glob_goal p n pi ni star_pi star_ni"
    using p n c by (auto simp: glob_goal_def glob_lit split: option.split)
qed

lemma glob_seg_empty: "drop sp p = STAR # drop (sp + 1) p \<Longrightarrow> glob_seg p n (sp + 1) ni sp ni []"
  by (simp add: glob_seg_def glob_lang_Nil)

lemma glob_new_star:
  assumes inv: "glob_inv p n pi ni star_pi star_ni" and len: "pi < length p" and c: "p ! pi = STAR"
  shows "glob_inv p n (pi + 1) ni (Some pi) ni" "glob_goal p n (pi + 1) ni (Some pi) ni = glob_goal p n pi ni star_pi star_ni"
proof -
  have p: "drop pi p = STAR # drop (pi + 1) p" using len c by (metis Cons_nth_drop_Suc Suc_eq_plus1)
  show "glob_inv p n (pi + 1) ni (Some pi) ni" using inv len glob_seg_empty [OF p] by (auto simp: glob_inv_def)
  show "glob_goal p n (pi + 1) ni (Some pi) ni = glob_goal p n pi ni star_pi star_ni"
  proof (cases star_pi)
    case (Some sp)
    then obtain seg where s: "glob_seg p n pi ni sp star_ni seg" using inv by (auto simp: glob_inv_def)
    have "glob_bytes (drop pi p) (drop ni n)" if "glob_bytes (drop sp p) (drop star_ni n)"
    proof -
      from glob_seg_later [OF s that] obtain k where "glob_bytes (drop pi p) (drop (ni + k) n)" by blast
      then have "glob_bytes (drop pi p) (take k (drop ni n) @ drop k (drop ni n))"
        unfolding p by (intro glob_star_more [OF star_any]) (simp add: ac_simps)
      then show ?thesis by (simp only: append_take_drop_id)
    qed
    with Some glob_seg_here [OF s] show ?thesis by (auto simp: glob_goal_def)
  qed (simp add: glob_goal_def)
qed

lemma glob_backtrack:
  assumes inv: "glob_inv p n pi ni (Some sp) star_ni" and len: "ni < length n" and none: "\<not> glob_bytes (drop pi p) (drop ni n)"
  shows "glob_inv p n (sp + 1) (star_ni + 1) (Some sp) (star_ni + 1)"
    "glob_goal p n (sp + 1) (star_ni + 1) (Some sp) (star_ni + 1) = glob_goal p n pi ni (Some sp) star_ni"
proof -
  obtain seg where s: "glob_seg p n pi ni sp star_ni seg" using inv by (auto simp: glob_inv_def)
  note sD = glob_segD [OF s]
  have sp: "sp < length p" using sD(1) by (metis drop_all list.distinct(1) not_less)
  then have drop: "drop sp p = STAR # drop (sp + 1) p" using sD(1) by (metis Cons_nth_drop_Suc Suc_eq_plus1 list.inject)
  have sni: "star_ni < length n" "drop star_ni n = n ! star_ni # drop (star_ni + 1) n"
    using sD(3) len by (simp_all add: Cons_nth_drop_Suc)
  show "glob_inv p n (sp + 1) (star_ni + 1) (Some sp) (star_ni + 1)"
    using sp sni(1) glob_seg_empty [OF drop] by (auto simp: glob_inv_def)
  have "\<not> glob_bytes (seg @ drop pi p) (drop star_ni n)"
    using glob_segment [OF star_any sD(2), of "(=)" "drop pi p" "drop star_ni n"] none sD(3,4) by auto
  then show "glob_goal p n (sp + 1) (star_ni + 1) (Some sp) (star_ni + 1) = glob_goal p n pi ni (Some sp) star_ni"
    using glob_star_step [OF star_any, of "(=)" "seg @ drop pi p" "n ! star_ni" "drop (star_ni + 1) n"] sD(1) sni(2)
    by (simp add: glob_goal_def)
qed

lemma glob_loop_correct:
  assumes "STAR \<notin> set n" "glob_inv p n pi ni star_pi star_ni"
  shows "(case glob_loop p n pi ni star_pi star_ni of None \<Rightarrow> False | Some q \<Rightarrow> glob_tail p q = length p) = glob_goal p n pi ni star_pi star_ni"
  using assms
proof (induction p n pi ni star_pi star_ni rule: glob_loop.induct)
  case (1 p n pi ni star_pi star_ni)
  note inv = "1.prems"(2) and nostar = "1.prems"(1)
  have bounds: "pi \<le> length p" "ni \<le> length n" using inv by (simp_all add: glob_inv_def)
  show ?case
  proof (cases "ni < length n")
    case False
    then have "ni = length n" using bounds by simp
    with inv glob_done [of p n pi star_pi star_ni] show ?thesis by (subst glob_loop.simps) (simp add: glob_tail_stars bounds)
  next
    case True
    have nni: "n ! ni \<noteq> STAR" using nostar True nth_mem by metis
    show ?thesis
    proof (cases "pi < length p \<and> (p ! pi = QMARK \<or> p ! pi = n ! ni)")
      case eat: True
      then have "p ! pi \<noteq> STAR" using nni by auto
      note e = glob_eat [OF inv True _ _ this]
      from "1.IH"(1) [OF True eat nostar] e eat True show ?thesis by (subst glob_loop.simps) auto
    next
      case no: False
      show ?thesis
      proof (cases "pi < length p \<and> p ! pi = STAR")
        case star: True
        from "1.IH"(2) [OF True no star nostar] glob_new_star [OF inv] no star True show ?thesis by (subst glob_loop.simps) auto
      next
        case fail: False
        have "drop pi p = [] \<or> drop pi p = p ! pi # drop (pi + 1) p \<and> pi < length p" by (cases "pi < length p") (simp_all add: Cons_nth_drop_Suc)
        moreover have "drop ni n = n ! ni # drop (ni + 1) n" using True by (simp add: Cons_nth_drop_Suc)
        ultimately have none: "\<not> glob_bytes (drop pi p) (drop ni n)" using no fail by (auto simp: glob_lit glob_lang_Nil)
        show ?thesis
        proof (cases star_pi)
          case None
          with fail no none True show ?thesis by (subst glob_loop.simps) (auto simp: glob_goal_def)
        next
          case (Some sp)
          note b = glob_backtrack [OF inv [unfolded Some] True none]
          from "1.IH"(3) [OF True no fail Some nostar] b no fail True Some show ?thesis by (subst glob_loop.simps) auto
        qed
      qed
    qed
  qed
qed

lemma glob_match_iff: "STAR \<notin> set n \<Longrightarrow> glob_match p n \<longleftrightarrow> glob_bytes p n"
  using glob_loop_correct [of n p 0 0 None 0] by (simp add: glob_match_def glob_inv_def glob_goal_def)

lemma host_matches_loop_iff:
  "host_matches_loop ps host pos hit \<longleftrightarrow> (\<forall>g. PatNegative g \<in> set ps \<longrightarrow> \<not> glob_match g host)
     \<and> (pos \<and> hit \<or> hit \<and> (\<exists>g. PatPositive g \<in> set ps) \<or> PatAny \<in> set ps \<or> (\<exists>g. PatPositive g \<in> set ps \<and> glob_match g host))"
  by (induction ps host pos hit rule: host_matches_loop.induct) auto

lemma host_matches_iff:
  "host_matches ps host \<longleftrightarrow> (\<forall>g. PatNegative g \<in> set ps \<longrightarrow> \<not> glob_match g host)
     \<and> (PatAny \<in> set ps \<or> (\<exists>g. PatPositive g \<in> set ps \<and> glob_match g host))"
  by (auto simp: host_matches_def host_matches_loop_iff)

lemma host_pattern_parse_kinds:
  "host_pattern_parse t = PatNegative g \<longleftrightarrow> t = 0x21 # g"
  "host_pattern_parse t = PatAny \<longleftrightarrow> t = [STAR]"
  "host_pattern_parse t = PatPositive g \<longleftrightarrow> t = g \<and> take 1 t \<noteq> [0x21] \<and> t \<noteq> [STAR]"
  by (cases t; auto simp: host_pattern_parse_def)+

lemma parse_all_mem: "x \<in> set (host_pattern_parse_all ts) \<longleftrightarrow> (\<exists>t \<in> set ts. host_pattern_parse t = x)"
  by (auto simp: host_pattern_parse_all_def)

lemma star_matches: "glob_bytes [STAR] n"
  using stars [OF empty, of "(=)" STAR QMARK n] by simp

text \<open>
  Claim C28. The matcher with its one backtracking point decides the meaning of patterns, for every
  name without a literal star, and always ends. A list matches a host exactly if one of its positive
  patterns does and none of its negated ones. A star in the name defeats the matcher: it
  compares equal to the star of the pattern, which is then used up, so that the pattern \<open>*\<close>, which
  means any name, does not match the name \<open>*a\<close>.
\<close>

theorem glob_match_correct:
  assumes "STAR \<notin> set host"
  shows "glob_match p host = glob_lang (=) STAR QMARK p host
    \<and> (host_matches (host_pattern_parse_all ts) host \<longleftrightarrow>
         (\<exists>t \<in> set ts. take 1 t \<noteq> [0x21] \<and> glob_lang (=) STAR QMARK t host)
         \<and> \<not> (\<exists>t. 0x21 # t \<in> set ts \<and> glob_lang (=) STAR QMARK t host))
    \<and> glob_lang (=) STAR QMARK [STAR] [STAR, 0x61] \<and> \<not> glob_match [STAR] [STAR, 0x61]"
proof -
  have "host_matches (host_pattern_parse_all ts) host \<longleftrightarrow>
      (\<exists>t \<in> set ts. take 1 t \<noteq> [0x21] \<and> glob_bytes t host) \<and> \<not> (\<exists>t. 0x21 # t \<in> set ts \<and> glob_bytes t host)"
    unfolding host_matches_iff glob_match_iff [OF assms] parse_all_mem host_pattern_parse_kinds
    using star_matches [of host] by fastforce
  moreover have "\<not> glob_match [STAR] [STAR, 0x61]" by code_simp
  ultimately show ?thesis using glob_match_iff [OF assms] star_matches by blast
qed

theorem glob_match_correct_witness:
  "glob_match (lit ''*.example.?rg'') (lit ''www.example.org'') \<and> glob_lang (=) STAR QMARK (lit ''*.example.?rg'') (lit ''www.example.org'')
     \<and> \<not> host_matches (host_pattern_parse_all [lit ''*'', lit ''!www.*'']) (lit ''www.example.org'')"
proof -
  have "STAR \<notin> set (lit ''www.example.org'')" by code_simp
  from glob_match_correct [OF this, of "lit ''*.example.?rg''"]
  have "glob_match (lit ''*.example.?rg'') (lit ''www.example.org'') = glob_lang (=) STAR QMARK (lit ''*.example.?rg'') (lit ''www.example.org'')" by blast
  moreover have "glob_match (lit ''*.example.?rg'') (lit ''www.example.org'')" by code_simp
  moreover have "\<not> host_matches (host_pattern_parse_all [lit ''*'', lit ''!www.*'']) (lit ''www.example.org'')" by code_simp
  ultimately show ?thesis by blast
qed

end
