(* ===== verification/KnownHosts.thy ===== *)
theory KnownHosts
  imports Chars Glob Certs
begin

text \<open>
  The client's record of host keys, src/src/known_hosts: lines and patterns (format.rs), hashed host
  names (hash.rs) and the store with its lookup, certificate check and updates (store.rs). HMAC-SHA1
  of purecrypto is the argument \<open>mac\<close>, random salts are drawn by the argument \<open>fill\<close>. Reading and
  atomic writing of the file are I/O and left out; the bytes read and written are modelled.
\<close>

section \<open>Lines (format.rs)\<close>

datatype marker = CertAuthority | RevokedMarker

definition marker_str :: "marker \<Rightarrow> rust_str" where
  "marker_str m = (case m of CertAuthority \<Rightarrow> lit ''@cert-authority'' | RevokedMarker \<Rightarrow> lit ''@revoked'')"

datatype host_spec = Patterns "rust_str list" | Hashed rust_str

record kh_entry =
  e_marker :: "marker option"
  e_host_spec :: host_spec
  e_key_type :: rust_str
  e_key_blob :: bytes
  e_comment :: rust_str

datatype kh_line = LEntry kh_entry | LVerbatim rust_str

definition to_field :: "host_spec \<Rightarrow> rust_str" where
  "to_field spec = (case spec of Patterns v \<Rightarrow> join_comma v | Hashed s \<Rightarrow> s)"

text \<open>
  The tokens of a line; \<open>None\<close> is every way to give up on it. A decoding of base64 does not
  panic (\<open>b64_decode_no_panic\<close>).
\<close>

definition parse_fields :: "marker option \<Rightarrow> rust_str list \<Rightarrow> kh_entry option" where
  "parse_fields marker tokens =
     (case tokens of
        host_field # key_type # key_b64 # comment \<Rightarrow>
          (case b64_decode key_b64 of
             Ok key_blob \<Rightarrow>
               Some \<lparr>e_marker = marker,
                     e_host_spec = (if str_starts_with host_field (lit ''|1|'') then Hashed host_field
                                    else Patterns (split_on comma host_field)),
                     e_key_type = (if key_type = lit ''rsa-sha2-256'' \<or> key_type = lit ''rsa-sha2-512''
                                   then lit ''ssh-rsa'' else key_type),
                     e_key_blob = key_blob, e_comment = join_space comment\<rparr>
           | _ \<Rightarrow> None)
      | _ \<Rightarrow> None)"

definition parse_line :: "rust_str \<Rightarrow> kh_line" where
  "parse_line raw_line =
     (let trimmed = str_trim raw_line in
      if trimmed = [] \<or> hd trimmed = 0x23 then LVerbatim raw_line
      else let parsed = (case split_whitespace trimmed of
                           [] \<Rightarrow> None
                         | first # tokens \<Rightarrow>
                             if first = lit ''@cert-authority'' then parse_fields (Some CertAuthority) tokens
                             else if first = lit ''@revoked'' then parse_fields (Some RevokedMarker) tokens
                             else parse_fields None (first # tokens))
           in case parsed of None \<Rightarrow> LVerbatim raw_line | Some e \<Rightarrow> LEntry e)"

definition format_entry :: "kh_entry \<Rightarrow> rust_str" where
  "format_entry e =
     (case e_marker e of None \<Rightarrow> [] | Some m \<Rightarrow> marker_str m @ [0x20])
     @ to_field (e_host_spec e) @ [0x20] @ e_key_type e @ [0x20] @ b64_encode (e_key_blob e)
     @ (if e_comment e = [] then [] else 0x20 # e_comment e)"

definition format_host_pattern :: "rust_str \<Rightarrow> port \<Rightarrow> rust_str" where
  "format_host_pattern host port = (if port = 22 then host else [0x5B] @ host @ lit '']:'' @ port_str port)"

section \<open>Patterns\<close>

definition MAX_GLOB_PATTERN_LEN :: nat where "MAX_GLOB_PATTERN_LEN = 1024"
definition MAX_GLOB_STARS :: nat where "MAX_GLOB_STARS = 32"

fun glob_inner :: "bytes list \<Rightarrow> bytes list \<Rightarrow> bool" where
  "glob_inner [] t = (t = [])"
| "glob_inner (c # p) t =
     (if c = [STAR] then list_ex (\<lambda>i. glob_inner p (drop i t)) [0..<Suc (length t)]
      else if c = [QMARK] then (case t of [] \<Rightarrow> False | _ # t \<Rightarrow> glob_inner p t)
      else (case t of [] \<Rightarrow> False | x # t \<Rightarrow> if eq_ignore_ascii_case c x then glob_inner p t else False))"

definition glob_match_ascii_ci :: "rust_str \<Rightarrow> rust_str \<Rightarrow> bool" where
  "glob_match_ascii_ci pat s =
     (if length pat > MAX_GLOB_PATTERN_LEN then False
      else if length (filter (\<lambda>b. b = STAR) pat) > MAX_GLOB_STARS then False
      else glob_inner (str_chars pat) (str_chars s))"

definition pattern_match_inner :: "rust_str \<Rightarrow> rust_str \<Rightarrow> port \<Rightarrow> bool" where
  "pattern_match_inner pattern host port =
     (if str_starts_with pattern [0x5B] then
        (case str_rsplit_once 0x5D pattern of
           None \<Rightarrow> False
         | Some (front, rest) \<Rightarrow>
             (let host_part = drop 1 front in
              case str_strip_prefix rest [0x3A] of
                Some ps \<Rightarrow>
                  (case parse_u16 ps of
                     Some p \<Rightarrow> glob_match_ascii_ci host_part host \<and> p = port
                   | None \<Rightarrow> False)
              | None \<Rightarrow> glob_match_ascii_ci host_part host \<and> port = 22))
      else port = 22 \<and> glob_match_ascii_ci pattern host)"

fun patterns_match_loop :: "rust_str list \<Rightarrow> rust_str \<Rightarrow> port \<Rightarrow> bool \<Rightarrow> bool" where
  "patterns_match_loop [] host port any_pos = any_pos"
| "patterns_match_loop (p # ps) host port any_pos =
     (case str_strip_prefix p [0x21] of
        Some rest \<Rightarrow>
          if pattern_match_inner rest host port then False else patterns_match_loop ps host port any_pos
      | None \<Rightarrow> patterns_match_loop ps host port (if pattern_match_inner p host port then True else any_pos))"

definition patterns_match :: "rust_str list \<Rightarrow> rust_str \<Rightarrow> port \<Rightarrow> bool" where
  "patterns_match ps host port = patterns_match_loop ps host port False"

section \<open>Hashed names (hash.rs)\<close>

definition encode_hashed :: "(bytes \<Rightarrow> bytes \<Rightarrow> bytes) \<Rightarrow> bytes \<Rightarrow> rust_str \<Rightarrow> rust_str" where
  "encode_hashed mac salt host = lit ''|1|'' @ b64_encode salt @ [0x7C] @ b64_encode (mac salt host)"

definition parse_hashed :: "rust_str \<Rightarrow> (bytes \<times> bytes) option" where
  "parse_hashed token =
     Option.bind (str_strip_prefix token (lit ''|1|'')) (\<lambda>rest.
     Option.bind (str_split_once 0x7C rest) (\<lambda>(salt_b64, hash_b64).
     Option.bind (ok_opt (b64_decode salt_b64)) (\<lambda>salt.
     Option.bind (ok_opt (b64_decode hash_b64)) (\<lambda>hash. Some (salt, hash)))))"

unbundle bit_operations_syntax

definition constant_time_eq :: "bytes \<Rightarrow> bytes \<Rightarrow> bool" where
  "constant_time_eq a b =
     (if length a \<noteq> length b then False
      else foldl (\<lambda>diff (x, y). diff OR (x XOR y)) 0 (zip a b) = 0)"

definition check_hashed :: "(bytes \<Rightarrow> bytes \<Rightarrow> bytes) \<Rightarrow> bytes \<Rightarrow> bytes \<Rightarrow> rust_str \<Rightarrow> port \<Rightarrow> bool" where
  "check_hashed mac salt hash_tag host port =
     (if length hash_tag \<noteq> 20 then False
      else constant_time_eq (mac salt (format_host_pattern host port)) hash_tag)"

section \<open>The store (store.rs)\<close>

datatype lookup_result = KeyMatch | KeyMismatch "(rust_str \<times> bytes) list" | KeyUnknown | KeyRevoked

datatype slot = SVerbatim rust_str | SRaw bytes "kh_entry option" | SEntry kh_entry | SRemoved

type_synonym known_hosts = "slot list"

definition slot_of_line :: "bytes \<Rightarrow> slot" where
  "slot_of_line line =
     (let line = (if line \<noteq> [] \<and> last line = 0x0D then butlast line else line) in
      case from_utf8 line of
        Some s \<Rightarrow> (case parse_line s of LEntry e \<Rightarrow> SEntry e | LVerbatim v \<Rightarrow> SVerbatim v)
      | None \<Rightarrow>
          SRaw line (case parse_line (from_utf8_lossy line) of
                       LEntry e \<Rightarrow> if e_marker e = Some RevokedMarker then Some e else None
                     | LVerbatim _ \<Rightarrow> None))"

definition kh_from_bytes :: "bytes \<Rightarrow> known_hosts" where
  "kh_from_bytes data =
     (let parts = split_on 0x0A data in
      map slot_of_line (if last parts = [] then butlast parts else parts))"

fun slot_bytes :: "slot \<Rightarrow> bytes" where
  "slot_bytes (SVerbatim s) = s @ [0x0A]"
| "slot_bytes (SEntry e) = format_entry e @ [0x0A]"
| "slot_bytes (SRaw b _) = b @ [0x0A]"
| "slot_bytes SRemoved = []"

definition kh_to_bytes :: "known_hosts \<Rightarrow> bytes" where
  "kh_to_bytes kh = concat (map slot_bytes kh)"

definition host_field_matches :: "(bytes \<Rightarrow> bytes \<Rightarrow> bytes) \<Rightarrow> host_spec \<Rightarrow> rust_str \<Rightarrow> port \<Rightarrow> bool" where
  "host_field_matches mac spec host port =
     (case spec of
        Patterns pats \<Rightarrow> patterns_match pats host port
      | Hashed token \<Rightarrow>
          (case parse_hashed token of
             Some (salt, hash) \<Rightarrow> check_hashed mac salt hash host port
           | None \<Rightarrow> False))"

definition revoked_entries :: "known_hosts \<Rightarrow> kh_entry list" where
  "revoked_entries kh = List.map_filter (\<lambda>s. case s of
       SEntry e \<Rightarrow> if e_marker e = Some RevokedMarker then Some e else None
     | SRaw _ (Some e) \<Rightarrow> if e_marker e = Some RevokedMarker then Some e else None
     | _ \<Rightarrow> None) kh"

text \<open>The plain entries of a store: the slots that neither a marker nor decoding takes out.\<close>

fun plain_entry :: "slot \<Rightarrow> kh_entry option" where
  "plain_entry (SEntry e) = (if e_marker e = None then Some e else None)"
| "plain_entry _ = None"

definition plain_host_has_key :: "(bytes \<Rightarrow> bytes \<Rightarrow> bytes) \<Rightarrow> known_hosts \<Rightarrow> rust_str \<Rightarrow> rust_str \<Rightarrow> bytes \<Rightarrow> bool" where
  "plain_host_has_key mac kh host key_type key_blob =
     list_ex (\<lambda>s. case plain_entry s of
       Some e \<Rightarrow> e_key_type e = key_type \<and> e_key_blob e = key_blob \<and> host_field_matches mac (e_host_spec e) host 22
     | None \<Rightarrow> False) kh"

text \<open>The second pass, with \<open>host_matched\<close> and \<open>expected\<close>; \<open>None\<close> is the early return of a match.\<close>

fun lookup_loop :: "(bytes \<Rightarrow> bytes \<Rightarrow> bytes) \<Rightarrow> known_hosts \<Rightarrow> rust_str \<Rightarrow> port \<Rightarrow> rust_str \<Rightarrow> bytes \<Rightarrow> bool \<Rightarrow>
    (rust_str \<times> bytes) list \<Rightarrow> (bool \<times> (rust_str \<times> bytes) list) option" where
  "lookup_loop mac [] host port key_type key_blob host_matched expected = Some (host_matched, expected)"
| "lookup_loop mac (s # kh) host port key_type key_blob host_matched expected =
     (case plain_entry s of
        None \<Rightarrow> lookup_loop mac kh host port key_type key_blob host_matched expected
      | Some e \<Rightarrow>
          if \<not> host_field_matches mac (e_host_spec e) host port
          then lookup_loop mac kh host port key_type key_blob host_matched expected
          else if e_key_type e = key_type \<and> e_key_blob e = key_blob then None
          else lookup_loop mac kh host port key_type key_blob True (expected @ [(e_key_type e, e_key_blob e)]))"

definition kh_lookup :: "(bytes \<Rightarrow> bytes \<Rightarrow> bytes) \<Rightarrow> known_hosts \<Rightarrow> rust_str \<Rightarrow> port \<Rightarrow> rust_str \<Rightarrow> bytes \<Rightarrow> lookup_result" where
  "kh_lookup mac kh host port key_type key_blob =
     (if list_ex (\<lambda>e. host_field_matches mac (e_host_spec e) host port \<and> e_key_type e = key_type
                      \<and> e_key_blob e = key_blob) (revoked_entries kh) then KeyRevoked
      else case lookup_loop mac kh host port key_type key_blob False [] of
             None \<Rightarrow> KeyMatch
           | Some (host_matched, expected) \<Rightarrow>
               if host_matched then KeyMismatch expected
               else if port \<noteq> 22 \<and> plain_host_has_key mac kh host key_type key_blob then KeyMatch
               else KeyUnknown)"

section \<open>Certificates\<close>

text \<open>\<open>Certificate::check_principal\<close> (cert/mod.rs)\<close>

definition check_principal :: "rust_str \<Rightarrow> certificate \<Rightarrow> unit res" where
  "check_principal name c =
     (if ct_valid_principals c = [] then Err CertPrincipalMismatch
      else let matched = (case ct_cert_type c of
                 CertHost \<Rightarrow> list_ex (\<lambda>p. glob_match (to_ascii_lowercase p) (to_ascii_lowercase name)) (ct_valid_principals c)
               | CertUser \<Rightarrow> list_ex (\<lambda>p. p = name) (ct_valid_principals c))
           in if matched then Ok () else Err CertPrincipalMismatch)"

definition revokes_cert :: "(bytes \<Rightarrow> bytes \<Rightarrow> bytes) \<Rightarrow> known_hosts \<Rightarrow> rust_str \<Rightarrow> port \<Rightarrow> certificate \<Rightarrow> bool" where
  "revokes_cert mac kh host port cert =
     list_ex (\<lambda>e. host_field_matches mac (e_host_spec e) host port
       \<and> (e_key_blob e = ct_signature_key_blob cert \<or> e_key_blob e = ct_embedded_pubkey_blob cert)) (revoked_entries kh)"

definition ca_trusted :: "(bytes \<Rightarrow> bytes \<Rightarrow> bytes) \<Rightarrow> known_hosts \<Rightarrow> rust_str \<Rightarrow> certificate \<Rightarrow> port \<Rightarrow> bool" where
  "ca_trusted mac kh host cert port =
     list_ex (\<lambda>s. case s of
       SEntry e \<Rightarrow> e_marker e = Some CertAuthority \<and> e_key_blob e = ct_signature_key_blob cert
         \<and> host_field_matches mac (e_host_spec e) host port
     | _ \<Rightarrow> False) kh"

definition has_ca_for :: "(bytes \<Rightarrow> bytes \<Rightarrow> bytes) \<Rightarrow> known_hosts \<Rightarrow> rust_str \<Rightarrow> port \<Rightarrow> certificate \<Rightarrow> bool" where
  "has_ca_for mac kh host port cert \<longleftrightarrow>
     ca_trusted mac kh host cert port \<or> port \<noteq> 22 \<and> ca_trusted mac kh host cert 22"

definition verify_host_cert :: "sig_prims \<Rightarrow> bool \<Rightarrow> (bytes \<Rightarrow> bytes \<Rightarrow> bytes) \<Rightarrow> known_hosts \<Rightarrow> rust_str \<Rightarrow> port \<Rightarrow> certificate \<Rightarrow>
    rust_str list \<Rightarrow> u64 \<Rightarrow> unit res" where
  "verify_host_cert P sha1 mac kh host port cert allowed_ca_algos now =
     (if revokes_cert mac kh host port cert then Err HostKeyRejected
      else bind_res (check_type CertHost cert) (\<lambda>_.
           bind_res (check_validity now cert) (\<lambda>_.
           bind_res (require_known_critical_options cert) (\<lambda>_.
             if ct_critical_options cert \<noteq> [] then Err CertUnknownCriticalOption
             else if has_ca_for mac kh host port cert then
               bind_res (verify_ca_signature P sha1 allowed_ca_algos cert) (\<lambda>_. check_principal host cert)
             else Err HostKeyRejected))))"
section \<open>Updates\<close>

definition safe_field :: "rust_str \<Rightarrow> bool" where
  "safe_field s \<longleftrightarrow> s \<noteq> [] \<and> hd s \<notin> {0x40, 0x7C, 0x23}
     \<and> \<not> list_ex (\<lambda>c. is_whitespace c \<or> is_control c \<or> c = [comma]) (str_chars s)"

text \<open>Twenty fresh bytes are drawn with \<open>fill\<close> where a name is hashed.\<close>

definition hash_new :: "(bytes \<Rightarrow> bytes \<Rightarrow> bytes) \<Rightarrow> ('g \<Rightarrow> bytes \<times> 'g) \<Rightarrow> 'g \<Rightarrow> rust_str \<Rightarrow> port \<Rightarrow> rust_str \<times> 'g" where
  "hash_new mac fill g host port =
     (let (salt, g) = fill g in (encode_hashed mac salt (format_host_pattern host port), g))"

definition try_add :: "(bytes \<Rightarrow> bytes \<Rightarrow> bytes) \<Rightarrow> ('g \<Rightarrow> bytes \<times> 'g) \<Rightarrow> rust_str \<Rightarrow> port \<Rightarrow> rust_str \<Rightarrow> bytes \<Rightarrow> bool \<Rightarrow> known_hosts \<Rightarrow> 'g \<Rightarrow>
    (known_hosts \<times> 'g) \<times> unit res" where
  "try_add mac fill host port key_type key_blob hashed kh g =
     (if \<not> safe_field key_type then ((kh, g), Err (Format ''known_hosts: invalid key type''))
      else if \<not> safe_field host then ((kh, g), Err (Format ''known_hosts: invalid host name''))
      else let (spec, g) = (if hashed then (let (token, g) = hash_new mac fill g host port in (Hashed token, g))
                            else (Patterns [format_host_pattern host port], g))
           in ((kh @ [SEntry \<lparr>e_marker = None, e_host_spec = spec, e_key_type = key_type, e_key_blob = key_blob, e_comment = []\<rparr>], g), Ok ()))"

definition kh_add :: "(bytes \<Rightarrow> bytes \<Rightarrow> bytes) \<Rightarrow> ('g \<Rightarrow> bytes \<times> 'g) \<Rightarrow> rust_str \<Rightarrow> port \<Rightarrow> rust_str \<Rightarrow> bytes \<Rightarrow> bool \<Rightarrow> known_hosts \<Rightarrow> 'g \<Rightarrow>
    known_hosts \<times> 'g" where
  "kh_add mac fill host port key_type key_blob hashed kh g = fst (try_add mac fill host port key_type key_blob hashed kh g)"

definition try_add_names :: "(rust_str \<times> port) list \<Rightarrow> rust_str \<Rightarrow> bytes \<Rightarrow> known_hosts \<Rightarrow> known_hosts \<times> unit res" where
  "try_add_names names key_type key_blob kh =
     (if \<not> safe_field key_type then (kh, Err (Format ''known_hosts: invalid key type''))
      else if names = [] \<or> list_ex (\<lambda>(h, _). \<not> safe_field h) names then (kh, Err (Format ''known_hosts: invalid host name''))
      else (kh @ [SEntry \<lparr>e_marker = None,
              e_host_spec = Patterns (split_on comma (join_comma (map (\<lambda>(h, p). format_host_pattern h p) names))),
              e_key_type = key_type, e_key_blob = key_blob, e_comment = []\<rparr>], Ok ()))"

text \<open>The slots that an update empties, and how many.\<close>

definition remove_slots :: "(kh_entry \<Rightarrow> bool) \<Rightarrow> known_hosts \<Rightarrow> known_hosts \<times> nat" where
  "remove_slots drop_it kh =
     (map (\<lambda>s. case s of SEntry e \<Rightarrow> if drop_it e then SRemoved else s | _ \<Rightarrow> s) kh,
      length (filter (\<lambda>s. case s of SEntry e \<Rightarrow> drop_it e | _ \<Rightarrow> False) kh))"

definition remove_exact :: "(bytes \<Rightarrow> bytes \<Rightarrow> bytes) \<Rightarrow> rust_str \<Rightarrow> port \<Rightarrow> known_hosts \<Rightarrow> known_hosts \<times> nat" where
  "remove_exact mac host port =
     remove_slots (\<lambda>e. e_marker e = None \<and>
       (case e_host_spec e of
          Patterns pats \<Rightarrow> length pats = 1 \<and> eq_ignore_ascii_case (pats ! 0) (format_host_pattern host port)
        | Hashed _ \<Rightarrow> host_field_matches mac (e_host_spec e) host port))"

definition kh_remove :: "(bytes \<Rightarrow> bytes \<Rightarrow> bytes) \<Rightarrow> rust_str \<Rightarrow> port \<Rightarrow> known_hosts \<Rightarrow> known_hosts \<times> nat" where
  "kh_remove mac host port = remove_slots (\<lambda>e. host_field_matches mac (e_host_spec e) host port)"

definition kh_find :: "(bytes \<Rightarrow> bytes \<Rightarrow> bytes) \<Rightarrow> rust_str \<Rightarrow> port \<Rightarrow> known_hosts \<Rightarrow> kh_entry list" where
  "kh_find mac host port kh = List.map_filter (\<lambda>s. case s of
     SEntry e \<Rightarrow> if host_field_matches mac (e_host_spec e) host port then Some e else None | _ \<Rightarrow> None) kh"

definition find_key :: "bytes \<Rightarrow> known_hosts \<Rightarrow> rust_str list" where
  "find_key key_blob kh = List.map_filter (\<lambda>s. case plain_entry s of
     Some e \<Rightarrow> if e_key_blob e = key_blob
               then Some (case e_host_spec e of Hashed _ \<Rightarrow> lit ''[hashed name]'' | spec \<Rightarrow> to_field spec) else None
   | None \<Rightarrow> None) kh"

text \<open>\<open>parse_host_port_pattern\<close> of config/host_port.rs with the default port 22; \<open>None\<close> for its errors.\<close>

definition split_host_port :: "rust_str \<Rightarrow> (rust_str \<times> port) option" where
  "split_host_port s =
     (case str_strip_prefix s [0x5B] of
        Some rest \<Rightarrow>
          (case str_split_once 0x5D rest of
             None \<Rightarrow> None
           | Some (host, after) \<Rightarrow>
               if after = [] then Some (host, 22)
               else Option.bind (str_strip_prefix after [0x3A]) (\<lambda>ps. map_option (\<lambda>p. (host, p)) (parse_u16 ps)))
      | None \<Rightarrow> Some (s, 22))"

text \<open>One hashed entry for each pattern; \<open>None\<close> if a pattern is malformed. Salts are drawn up to that pattern.\<close>

fun hash_patterns :: "(bytes \<Rightarrow> bytes \<Rightarrow> bytes) \<Rightarrow> ('g \<Rightarrow> bytes \<times> 'g) \<Rightarrow> kh_entry \<Rightarrow> rust_str list \<Rightarrow> 'g \<Rightarrow> kh_entry list option \<times> 'g" where
  "hash_patterns mac fill e [] g = (Some [], g)"
| "hash_patterns mac fill e (pat # pats) g =
     (case split_host_port pat of
        None \<Rightarrow> (None, g)
      | Some (host, port) \<Rightarrow>
          (let (salt, g) = fill g;
               e' = e\<lparr>e_host_spec := Hashed (encode_hashed mac salt (format_host_pattern host port))\<rparr>;
               (rest, g) = hash_patterns mac fill e pats g
           in (map_option (\<lambda>es. e' # es) rest, g)))"

fun hash_in_place :: "(bytes \<Rightarrow> bytes \<Rightarrow> bytes) \<Rightarrow> ('g \<Rightarrow> bytes \<times> 'g) \<Rightarrow> known_hosts \<Rightarrow> 'g \<Rightarrow> known_hosts \<times> 'g" where
  "hash_in_place mac fill [] g = ([], g)"
| "hash_in_place mac fill (s # kh) g =
     (let (new_slots, g) =
            (case s of
               SEntry e \<Rightarrow>
                 (case e_host_spec e of
                    Hashed _ \<Rightarrow> ([s], g)
                  | Patterns pats \<Rightarrow>
                      (case hash_patterns mac fill e pats g of
                         (Some es, g) \<Rightarrow> (map SEntry es, g)
                       | (None, g) \<Rightarrow> ([s], g)))
             | _ \<Rightarrow> ([s], g));
          (rest, g) = hash_in_place mac fill kh g
      in (new_slots @ rest, g))"

record host_keys_plan =
  plan_new :: "nat list"
  plan_old :: "bytes list"
  plan_blocked :: "string option"

text \<open>\<open>host_keys_update\<close>: one pass over the entries with the plan and the offered keys that are known.\<close>

definition simple_entry :: "kh_entry \<Rightarrow> bool" where
  "simple_entry e \<longleftrightarrow> e_marker e = None \<and>
     (case e_host_spec e of
        Hashed _ \<Rightarrow> True
      | Patterns p \<Rightarrow> length p = 1 \<and> set (p ! 0) \<inter> {STAR, QMARK, 0x21} = {})"

fun index_of :: "'a \<Rightarrow> 'a list \<Rightarrow> nat option" where
  "index_of x [] = None"
| "index_of x (y # ys) = (if x = y then Some 0 else map_option Suc (index_of x ys))"

definition plan_entry :: "(bytes \<Rightarrow> bytes \<Rightarrow> bytes) \<Rightarrow> rust_str \<Rightarrow> port \<Rightarrow> bytes list \<Rightarrow> kh_entry \<Rightarrow> host_keys_plan \<times> bool list \<Rightarrow>
    host_keys_plan \<times> bool list" where
  "plan_entry mac host port offered e pk =
     (let (plan, known) = pk in
      if \<not> host_field_matches mac (e_host_spec e) host port then
        (if e_key_blob e \<in> set offered \<and> e_marker e = None
         then plan\<lparr>plan_blocked := Some ''host key found under another name''\<rparr> else plan, known)
      else if \<not> simple_entry e then (plan\<lparr>plan_blocked := Some ''marker, host list or wildcard entry for the host''\<rparr>, known)
      else case index_of (e_key_blob e) offered of
             Some i \<Rightarrow> (plan, known[i := True])
           | None \<Rightarrow> (plan\<lparr>plan_old := plan_old plan @ [e_key_blob e]\<rparr>, known))"

definition host_keys_update :: "(bytes \<Rightarrow> bytes \<Rightarrow> bytes) \<Rightarrow> rust_str \<Rightarrow> port \<Rightarrow> bytes list \<Rightarrow> known_hosts \<Rightarrow> host_keys_plan" where
  "host_keys_update mac host port offered kh =
     (let (plan, known) = fold (\<lambda>s pk. case s of SEntry e \<Rightarrow> plan_entry mac host port offered e pk | _ \<Rightarrow> pk) kh
            (\<lparr>plan_new = [], plan_old = [], plan_blocked = None\<rparr>, replicate (length offered) False)
      in plan\<lparr>plan_new := filter (\<lambda>i. \<not> known ! i) [0..<length offered]\<rparr>)"

definition update_host_keys :: "(bytes \<Rightarrow> bytes \<Rightarrow> bytes) \<Rightarrow> ('g \<Rightarrow> bytes \<times> 'g) \<Rightarrow> rust_str \<Rightarrow> port \<Rightarrow> bytes list \<Rightarrow> (rust_str \<times> bytes) list \<Rightarrow> bool \<Rightarrow>
    known_hosts \<Rightarrow> 'g \<Rightarrow> known_hosts \<times> 'g" where
  "update_host_keys mac fill host port gone new hashed kh g =
     fold (\<lambda>(key_type, blob) (kh, g). kh_add mac fill host port key_type blob hashed kh g) new
       (filter (\<lambda>s. case plain_entry s of
          Some e \<Rightarrow> \<not> (e_key_blob e \<in> set gone \<and> host_field_matches mac (e_host_spec e) host port) | None \<Rightarrow> True) kh, g)"

end
