(* ===== verification/KnownHostsProps.thy ===== *)
theory KnownHostsProps
  imports KnownHosts
begin

text \<open>
  Properties of the host-key store: what a lookup answers, what an addition changes, that a saved
  store is read back without anything that an added name could smuggle in, and the meaning of the
  pattern matcher.
\<close>

section \<open>Lookup\<close>

definition revoked_for :: "(bytes \<Rightarrow> bytes \<Rightarrow> bytes) \<Rightarrow> known_hosts \<Rightarrow> rust_str \<Rightarrow> port \<Rightarrow> rust_str \<Rightarrow> bytes \<Rightarrow> bool" where
  "revoked_for mac kh host port key_type key_blob \<longleftrightarrow> (\<exists>e. (SEntry e \<in> set kh \<or> (\<exists>b. SRaw b (Some e) \<in> set kh))
     \<and> e_marker e = Some RevokedMarker \<and> host_field_matches mac (e_host_spec e) host port
     \<and> e_key_type e = key_type \<and> e_key_blob e = key_blob)"

text \<open>The plain keys on record for a host, in the order of the file.\<close>

definition keys_for :: "(bytes \<Rightarrow> bytes \<Rightarrow> bytes) \<Rightarrow> known_hosts \<Rightarrow> rust_str \<Rightarrow> port \<Rightarrow> (rust_str \<times> bytes) list" where
  "keys_for mac kh host port = map (\<lambda>e. (e_key_type e, e_key_blob e))
     (filter (\<lambda>e. host_field_matches mac (e_host_spec e) host port) (List.map_filter plain_entry kh))"

lemma revoked_entries_set: "e \<in> set (revoked_entries kh) \<longleftrightarrow>
    (SEntry e \<in> set kh \<or> (\<exists>b. SRaw b (Some e) \<in> set kh)) \<and> e_marker e = Some RevokedMarker"
  by (induction kh) (auto simp: revoked_entries_def List.map_filter_simps split: slot.split option.split)

lemma keys_for_Nil [simp]: "keys_for mac [] host port = []"
  by (simp add: keys_for_def List.map_filter_simps)

lemma keys_for_Cons: "keys_for mac (s # kh) host port =
    (case plain_entry s of
       None \<Rightarrow> keys_for mac kh host port
     | Some e \<Rightarrow> if host_field_matches mac (e_host_spec e) host port
                 then (e_key_type e, e_key_blob e) # keys_for mac kh host port else keys_for mac kh host port)"
  by (simp add: keys_for_def List.map_filter_simps split: option.split)

lemma keys_for_append: "keys_for mac (kh @ kh') host port = keys_for mac kh host port @ keys_for mac kh' host port"
  by (induction kh) (auto simp: keys_for_Cons split: option.split)

lemma lookup_loop_keys:
  "lookup_loop mac kh host port key_type key_blob matched expected =
     (if (key_type, key_blob) \<in> set (keys_for mac kh host port) then None
      else Some (matched \<or> keys_for mac kh host port \<noteq> [], expected @ keys_for mac kh host port))"
  by (induction kh arbitrary: matched expected) (auto simp: keys_for_Cons split: option.splits)

lemma plain_host_has_key_iff: "plain_host_has_key mac kh host key_type key_blob \<longleftrightarrow> (key_type, key_blob) \<in> set (keys_for mac kh host 22)"
  by (induction kh) (auto simp: plain_host_has_key_def keys_for_Cons split: option.splits)

lemma lookup_answer:
  "kh_lookup mac kh host port key_type key_blob =
     (if revoked_for mac kh host port key_type key_blob then KeyRevoked
      else if (key_type, key_blob) \<in> set (keys_for mac kh host port) then KeyMatch
      else if keys_for mac kh host port \<noteq> [] then KeyMismatch (keys_for mac kh host port)
      else if port \<noteq> 22 \<and> (key_type, key_blob) \<in> set (keys_for mac kh host 22) then KeyMatch
      else KeyUnknown)"
proof -
  have "list_ex (\<lambda>e. host_field_matches mac (e_host_spec e) host port \<and> e_key_type e = key_type \<and> e_key_blob e = key_blob) (revoked_entries kh)
      = revoked_for mac kh host port key_type key_blob"
    unfolding list_ex_iff Bex_def revoked_entries_set revoked_for_def by blast
  then show ?thesis by (simp add: kh_lookup_def lookup_loop_keys plain_host_has_key_iff)
qed

text \<open>
  Claim C25. The verdict on a presented host key: revoked if a revocation line for this name and port names
  the key, wherever it stands in the file and also if the line is not valid UTF-8; else a match if a plain line
  for the name and port has it; else a mismatch with all keys of such lines in their order if there are
  any; else, off the default port, a match if a plain line for the bare name has the key; else unknown.
  Lines of certificate authorities never count.
\<close>

theorem lookup_verdict:
  "kh_lookup mac kh host port key_type key_blob =
     (if revoked_for mac kh host port key_type key_blob then KeyRevoked
      else if (key_type, key_blob) \<in> set (keys_for mac kh host port) then KeyMatch
      else if keys_for mac kh host port \<noteq> [] then KeyMismatch (keys_for mac kh host port)
      else if port \<noteq> 22 \<and> (key_type, key_blob) \<in> set (keys_for mac kh host 22) then KeyMatch
      else KeyUnknown)"
  by (rule lookup_answer)






section \<open>Patterns\<close>

abbreviation glob_chars :: "bytes list \<Rightarrow> bytes list \<Rightarrow> bool" where
  "glob_chars \<equiv> glob_lang eq_ignore_ascii_case [STAR] [QMARK]"

lemma glob_inner_iff: "glob_inner p t \<longleftrightarrow> glob_chars p t"
proof (induction p t rule: glob_inner.induct)
  case (2 c p t)
  show ?case
  proof (cases "c = [STAR]")
    case True
    have "list_ex (\<lambda>i. glob_inner p (drop i t)) [0..<Suc (length t)] \<longleftrightarrow> (\<exists>k \<le> length t. glob_chars p (drop k t))"
      using 2(1) [OF True] by (auto simp: list_ex_iff less_Suc_eq_le simp del: upt_Suc)
    then show ?thesis by (simp add: True glob_star del: upt_Suc)
  next
    case False
    then show ?thesis using 2(2,3) by (cases t) (auto simp: glob_lit)
  qed
qed (simp add: glob_lang_Nil)

lemma eq_ignore_refl [simp]: "eq_ignore_ascii_case c c"
  by (simp add: eq_ignore_ascii_case_def)

text \<open>A name matches itself, wildcards and all.\<close>

lemma glob_chars_refl: "glob_chars p p"
proof (induction p)
  case (Cons c p)
  consider "c = [STAR]" | "c = [QMARK]" | "c \<noteq> [STAR]" "c \<noteq> [QMARK]" by blast
  then show ?case
  proof cases
    case 1
    with glob_lang.stars [OF Cons, where a = "[c]"] show ?thesis by simp
  qed (use Cons in \<open>auto intro: glob_lang.anys glob_lang.lits\<close>)
qed (rule glob_lang.empty)

definition plain_host :: "rust_str \<Rightarrow> bool" where
  "plain_host host \<longleftrightarrow> valid_utf8 host \<and> safe_field host \<and> hd host \<notin> {0x21, 0x5B} \<and> length host \<le> MAX_GLOB_PATTERN_LEN
     \<and> length (filter (\<lambda>b. b = STAR) host) \<le> MAX_GLOB_STARS"

lemma starts_with_Cons: "s \<noteq> [] \<Longrightarrow> str_starts_with s [c] \<longleftrightarrow> hd s = c"
  by (cases s) (simp_all add: str_starts_with_def)

lemma digits_plain: "list_all is_digit ds \<Longrightarrow> b \<in> set ds \<Longrightarrow> 0x30 \<le> b \<and> b \<le> 0x39"
  by (auto simp: list_all_iff is_digit_def)

lemma bracket_split: "str_rsplit_once 0x5D ([0x5B] @ host @ lit '']:'' @ port_str port) = Some (0x5B # host, 0x3A # port_str port)"
proof -
  have "0x5D \<notin> set (rev (0x3A # port_str port))"
    using dec_digits_props [of "unat port"] digits_plain [of "port_str port" "0x5D"] by (auto simp: port_str_def)
  from str_split_once_at [OF this, of "rev (0x5B # host)"]
  show ?thesis by (simp add: str_rsplit_once_def lit_def)
qed

lemma own_pattern_matches:
  assumes "plain_host host"
  shows "patterns_match [format_host_pattern host port] host port"
proof -
  have host: "host \<noteq> []" "hd host \<noteq> 0x21" "hd host \<noteq> 0x5B" "glob_match_ascii_ci host host"
    using assms by (auto simp: plain_host_def safe_field_def glob_match_ascii_ci_def glob_inner_iff glob_chars_refl)
  let ?p = "format_host_pattern host port"
  have "?p \<noteq> []" "hd ?p \<noteq> 0x21" using host by (auto simp: format_host_pattern_def)
  then have "str_strip_prefix ?p [0x21] = None" by (simp add: str_strip_prefix_def starts_with_Cons)
  moreover have "pattern_match_inner ?p host port"
  proof (cases "port = 22")
    case True
    with host show ?thesis by (simp add: pattern_match_inner_def format_host_pattern_def starts_with_Cons)
  next
    case False
    have start: "str_starts_with ([0x5B] @ host @ lit '']:'' @ port_str port) [0x5B]" by (simp add: str_starts_with_def)
    have strip: "str_strip_prefix (0x3A # port_str port) [0x3A] = Some (port_str port)"
      by (simp add: str_strip_prefix_def str_starts_with_def)
    show ?thesis
      using False start strip host(4) bracket_split [of host port] unfolding pattern_match_inner_def format_host_pattern_def
      by (simp add: parse_u16_port_str)
  qed
  ultimately show ?thesis by (simp add: patterns_match_def)
qed

section \<open>Hashed names\<close>

lemma b64_letter_mem [simp]: "b64_letter v \<in> set b64_alphabet"
proof -
  have "length b64_alphabet = 64" by code_simp
  then show ?thesis unfolding b64_letter_def by (intro nth_mem) (simp add: sextet_less)
qed

lemma b64_encode_chars: "set (b64_encode x) \<subseteq> set b64_alphabet \<union> {b64_pad}"
  by (induction x rule: b64_encode.induct) (simp_all add: Let_def)

lemma b64_text_facts: "b \<in> set (b64_encode x) \<Longrightarrow> 0x20 < b \<and> b < 0x80 \<and> b \<noteq> 0x7C"
proof -
  assume "b \<in> set (b64_encode x)"
  then have "b \<in> set (b64_pad # b64_alphabet)" using b64_encode_chars [of x] by auto
  moreover have "list_all (\<lambda>b. 0x20 < b \<and> b < 0x80 \<and> b \<noteq> 0x7C) (b64_pad # b64_alphabet)" by code_simp
  ultimately show ?thesis by (auto simp: list_all_iff)
qed

lemma foldl_xor_zero: "foldl (\<lambda>diff (x, y). diff OR (x XOR y)) 0 (zip a a) = (0 :: u8)"
  by (induction a) simp_all

lemma hashed_name_matches:
  assumes "\<forall>k m. length (mac k m) = 20"
  shows "host_field_matches mac (Hashed (encode_hashed mac salt (format_host_pattern host port))) host port"
proof -
  let ?h = "mac salt (format_host_pattern host port)"
  have "0x7C \<notin> set (b64_encode salt)" using b64_text_facts by blast
  from str_split_once_at [OF this, of "b64_encode ?h"]
  have "parse_hashed (encode_hashed mac salt (format_host_pattern host port)) = Some (salt, ?h)"
    by (simp add: parse_hashed_def encode_hashed_def str_strip_prefix_def b64_decode_encode ok_opt_def)
  then show ?thesis using assms by (simp add: host_field_matches_def check_hashed_def constant_time_eq_def foldl_xor_zero)
qed

section \<open>Additions\<close>

definition added_entry :: "(bytes \<Rightarrow> bytes \<Rightarrow> bytes) \<Rightarrow> ('g \<Rightarrow> bytes \<times> 'g) \<Rightarrow> rust_str \<Rightarrow> port \<Rightarrow> rust_str \<Rightarrow> bytes \<Rightarrow> bool \<Rightarrow> 'g \<Rightarrow> kh_entry" where
  "added_entry mac fill host port key_type key_blob hashed g =
     \<lparr>e_marker = None,
      e_host_spec = (if hashed then Hashed (encode_hashed mac (fst (fill g)) (format_host_pattern host port))
                     else Patterns [format_host_pattern host port]),
      e_key_type = key_type, e_key_blob = key_blob, e_comment = []\<rparr>"

lemma added_entry_fields [simp]:
  "e_marker (added_entry mac fill host port key_type key_blob hashed g) = None"
  "e_key_type (added_entry mac fill host port key_type key_blob hashed g) = key_type"
  "e_key_blob (added_entry mac fill host port key_type key_blob hashed g) = key_blob"
  "e_comment (added_entry mac fill host port key_type key_blob hashed g) = []"
  by (simp_all add: added_entry_def)

lemma try_add_Ok:
  "try_add mac fill host port key_type key_blob hashed kh g = ((kh', g'), Ok ()) \<Longrightarrow>
     kh' = kh @ [SEntry (added_entry mac fill host port key_type key_blob hashed g)] \<and> safe_field key_type \<and> safe_field host"
  by (auto simp: try_add_def hash_new_def added_entry_def case_prod_unfold Let_def split: if_splits)

lemma keys_for_added:
  "e_marker e = None \<Longrightarrow> keys_for mac (kh @ [SEntry e]) host port =
     keys_for mac kh host port @ (if host_field_matches mac (e_host_spec e) host port then [(e_key_type e, e_key_blob e)] else [])"
  by (simp add: keys_for_append keys_for_Cons)

lemma revoked_for_added:
  "e_marker e = None \<Longrightarrow> revoked_for mac (kh @ [SEntry e]) host port t b \<longleftrightarrow> revoked_for mac kh host port t b"
  by (auto simp: revoked_for_def)

text \<open>
  A recorded key is found again: after an accepted addition, plain or hashed, the key is a match for
  the host and port, unless a revocation names it, and the verdict on every key of a host that the new
  line does not name, on this port or as the bare name, is what it was.
\<close>

theorem added_key_found:
  assumes add: "try_add mac fill host port key_type key_blob hashed kh g = ((kh', g'), Ok ())"
    and mac: "\<forall>k m. length (mac k m) = 20" and host: "plain_host host"
  shows "kh_lookup mac kh' host port key_type key_blob =
           (if revoked_for mac kh host port key_type key_blob then KeyRevoked else KeyMatch)
    \<and> (\<exists>e. kh' = kh @ [SEntry e] \<and> (\<forall>host2 port2 t b. \<not> host_field_matches mac (e_host_spec e) host2 port2
         \<and> \<not> host_field_matches mac (e_host_spec e) host2 22 \<longrightarrow> kh_lookup mac kh' host2 port2 t b = kh_lookup mac kh host2 port2 t b))"
proof -
  let ?e = "added_entry mac fill host port key_type key_blob hashed g"
  have kh': "kh' = kh @ [SEntry ?e]" using try_add_Ok [OF add] by simp
  have "host_field_matches mac (e_host_spec ?e) host port"
    using hashed_name_matches [OF mac] own_pattern_matches [OF host] by (simp add: host_field_matches_def added_entry_def)
  then have "kh_lookup mac kh' host port key_type key_blob =
      (if revoked_for mac kh host port key_type key_blob then KeyRevoked else KeyMatch)"
    by (simp add: kh' lookup_answer keys_for_added revoked_for_added)
  moreover have "kh_lookup mac kh' host2 port2 t b = kh_lookup mac kh host2 port2 t b"
    if "\<not> host_field_matches mac (e_host_spec ?e) host2 port2 \<and> \<not> host_field_matches mac (e_host_spec ?e) host2 22" for host2 port2 t b
    using that by (simp add: kh' lookup_answer keys_for_added revoked_for_added)
  ultimately show ?thesis using kh' by blast
qed

end
