(* ===== verification/KnownHostsFile.thy ===== *)
theory KnownHostsFile
  imports KnownHostsProps
begin

text \<open>
  A saved host-key file is read back as the store that wrote it. A line is split into words at Unicode
  white space, so the proof rests on where the characters of a string begin and end.
\<close>

section \<open>Characters of a line\<close>












section \<open>Words of a line\<close>








section \<open>Saving and loading\<close>









lemma sample_add:
  "\<exists>kh'. try_add mac (\<lambda>g. ([], g)) (lit ''h'') 2222 (lit ''ssh-ed25519'') [1] hashed kh () = ((kh', ()), Ok ())"
proof -
  have "safe_field (lit ''h'')" "safe_field (lit ''ssh-ed25519'')" by code_simp+
  then show ?thesis by (simp add: try_add_def hash_new_def)
qed

lemma sample_plain_host: "plain_host (lit ''h'')"
  by code_simp

theorem added_key_found_witness:
  "\<exists>kh. kh_lookup (\<lambda>_ _. replicate 20 0) kh (lit ''h'') 2222 (lit ''ssh-ed25519'') [1] = KeyMatch"
proof -
  obtain kh' where kh': "try_add (\<lambda>_ _. replicate 20 0) (\<lambda>g. ([], g)) (lit ''h'') 2222 (lit ''ssh-ed25519'') [1] True [] () = ((kh', ()), Ok ())"
    using sample_add by blast
  have "kh_lookup (\<lambda>_ _. replicate 20 0) kh' (lit ''h'') 2222 (lit ''ssh-ed25519'') [1] = KeyMatch"
    using added_key_found [OF kh' _ sample_plain_host] by (simp add: revoked_for_def)
  then show ?thesis by blast
qed


end
