(* ===== verification/RdLoop.thy ===== *)
theory RdLoop
  imports Reading
begin

text \<open>
  The loop \<open>while !r.is_empty()\<close> of the decoders, over one list of items: \<open>rd_while\<close>, that it ends, and
  that it undoes the concatenation of what one step undoes (locale \<open>item_reader\<close>).
\<close>

text \<open>
  The fuel is the number of bytes: a step that succeeds consumes some. Running out of it counts as a
  panic, so that panic freedom includes termination.
\<close>

fun rd_loop :: "nat \<Rightarrow> ('s \<Rightarrow> 's rd) \<Rightarrow> 's \<Rightarrow> 's rd" where
  "rd_loop fuel step s r =
     (if reader_is_empty r then Ok (s, r)
      else case fuel of 0 \<Rightarrow> Panic | Suc fuel \<Rightarrow> rd_bind (step s) (rd_loop fuel step) r)"

declare rd_loop.simps [simp del]

definition rd_while :: "('s \<Rightarrow> 's rd) \<Rightarrow> 's \<Rightarrow> bytes \<Rightarrow> 's res" where
  "rd_while step s body = map_res fst (rd_loop (length body) step s (reader_new body))"

section \<open>Ending\<close>

definition onward :: "'a rd \<Rightarrow> bool" where
  "onward m \<longleftrightarrow> (\<forall>r v r'. m r = Ok (v, r') \<longrightarrow> remaining r' \<le> remaining r)"

definition moving :: "'a rd \<Rightarrow> bool" where
  "moving m \<longleftrightarrow> (\<forall>r v r'. m r = Ok (v, r') \<longrightarrow> remaining r' < remaining r)"

lemma onward_bind: "onward m \<Longrightarrow> (\<And>v. onward (f v)) \<Longrightarrow> onward (rd_bind m f)"
  unfolding onward_def rd_bind_eq_Ok by (meson order_trans)

lemma moving_bind: "moving m \<Longrightarrow> (\<And>v. onward (f v)) \<Longrightarrow> moving (rd_bind m f)"
  unfolding moving_def onward_def rd_bind_eq_Ok by (meson order_le_less_trans)

lemma onward_still: "onward (rd_ok v)" "onward (rd_err e)" "onward (rd_res m)" "onward (rd_check c e)" "onward (rd_end e)"
  by (auto simp: onward_def rd_res_def rd_check_def rd_end_def map_res_eq_Ok split: if_splits)

lemma onward_take_bytes: "onward (take_bytes n)"
  by (auto simp: onward_def dest: take_bytes_moves)

lemma moving_take: "0 < n \<Longrightarrow> (\<And>b r. f b r = map_res (\<lambda>v. (v, r)) (g b)) \<Longrightarrow> moving (rd_bind (take_bytes n) f)"
  by (auto simp: moving_def rd_bind_eq_Ok map_res_eq_Ok dest!: take_bytes_moves)

lemma moving_read_string: "moving read_string"
  by (auto simp: moving_def dest!: read_string_moves)

lemma moving_read_u8: "moving read_u8"
  unfolding read_u8_def
  by (rule moving_take [where g = "\<lambda>b. index_res b 0"]) (simp_all add: bind_res_def split: res.split)

lemma moving_read_u32: "moving read_u32"
  unfolding read_u32_def
  by (rule moving_take [where g = "\<lambda>b. bind_res (index_res b 0) (\<lambda>b0. bind_res (index_res b 1) (\<lambda>b1.
      bind_res (index_res b 2) (\<lambda>b2. bind_res (index_res b 3) (\<lambda>b3. Ok (u32_from_be [b0, b1, b2, b3])))))"])
    (simp_all add: map_res_bind)

lemma moving_read_u64: "moving read_u64"
  unfolding read_u64_def
  by (rule moving_take [where g = "\<lambda>b. bind_res (index_res b 0) (\<lambda>b0. bind_res (index_res b 1) (\<lambda>b1.
      bind_res (index_res b 2) (\<lambda>b2. bind_res (index_res b 3) (\<lambda>b3. bind_res (index_res b 4) (\<lambda>b4.
      bind_res (index_res b 5) (\<lambda>b5. bind_res (index_res b 6) (\<lambda>b6. bind_res (index_res b 7) (\<lambda>b7.
        Ok (u64_from_be [b0, b1, b2, b3, b4, b5, b6, b7])))))))))"])
    (simp_all add: map_res_bind)

lemma moving_onward: "moving m \<Longrightarrow> onward m"
  by (auto simp: moving_def onward_def intro: less_imp_le)

lemmas moving_reads = moving_read_string moving_read_u8 moving_read_u32 moving_read_u64
lemmas onward_reads = moving_reads [THEN moving_onward] onward_take_bytes onward_still

lemma rd_loop_no_panic:
  assumes "\<And>s. safe_rd (step s)" "\<And>s. moving (step s)"
  shows "remaining r \<le> fuel \<Longrightarrow> rd_loop fuel step s r \<noteq> Panic"
proof (induction fuel arbitrary: s r)
  case 0
  then show ?case by (simp add: rd_loop.simps reader_is_empty_def)
next
  case (Suc fuel)
  show ?case
  proof (cases "step s r")
    case (Ok vr)
    obtain v r' where vr: "vr = (v, r')" by (cases vr)
    with Ok have "remaining r' < remaining r" using assms(2) [of s] by (simp add: moving_def)
    with Suc.prems have "remaining r' \<le> fuel" by simp
    from Suc.IH [OF this] show ?thesis using Ok vr by (simp add: rd_loop.simps [of "Suc fuel"] rd_bind_def)
  next
    case Panic
    with assms(1) [of s] show ?thesis by (auto simp: safe_rd_def)
  qed (simp add: rd_loop.simps [of "Suc fuel"] rd_bind_def)
qed

lemma rd_while_no_panic: "(\<And>s. safe_rd (step s)) \<Longrightarrow> (\<And>s. moving (step s)) \<Longrightarrow> rd_while step s body \<noteq> Panic"
  using rd_loop_no_panic [of step "reader_new body" "length body" s]
  by (simp add: rd_while_def reader_new_rd_at)

section \<open>Reading back\<close>

locale item_reader =
  fixes step :: "'s \<Rightarrow> 's rd" and enc :: "'a \<Rightarrow> bytes" and upd :: "'a \<Rightarrow> 's \<Rightarrow> 's" and ok :: "'a \<Rightarrow> bool"
  assumes step_back: "ok x \<Longrightarrow> consumes (step s) (enc x) (upd x s)"
    and enc_nonempty: "enc x \<noteq> []"
begin

lemma loop_back:
  "\<forall>x \<in> set xs. ok x \<Longrightarrow> fits pre (concat (map enc xs)) \<Longrightarrow> length xs \<le> fuel \<Longrightarrow>
     rd_loop fuel step s (rd_at pre (concat (map enc xs))) = Ok (fold upd xs s, rd_at (pre @ concat (map enc xs)) [])"
proof (induction xs arbitrary: fuel s pre)
  case Nil
  then show ?case by (simp add: rd_loop.simps)
next
  case (Cons x xs)
  obtain f where f: "fuel = Suc f" using Cons.prems(3) by (cases fuel) simp_all
  have "step s (rd_at pre (enc x @ concat (map enc xs))) = Ok (upd x s, rd_at (pre @ enc x) (concat (map enc xs)))"
    using Cons.prems by (intro consumesD step_back) simp_all
  moreover have "rd_loop f step (upd x s) (rd_at (pre @ enc x) (concat (map enc xs)))
    = Ok (fold upd xs (upd x s), rd_at ((pre @ enc x) @ concat (map enc xs)) [])"
    by (rule Cons.IH) (use Cons.prems f in simp_all)
  ultimately show ?case by (simp add: f rd_loop.simps [of "Suc f"] rd_bind_def enc_nonempty)
qed

lemma length_items: "length xs \<le> length (concat (map enc xs))"
proof (induction xs)
  case (Cons x xs)
  then show ?case using enc_nonempty [of x] by (cases "enc x") simp_all
qed simp

lemma while_back:
  "\<forall>x \<in> set xs. ok x \<Longrightarrow> small (concat (map enc xs)) \<Longrightarrow> rd_while step s (concat (map enc xs)) = Ok (fold upd xs s)"
  using loop_back [of xs "[]"] length_items by (simp add: rd_while_def reader_new_rd_at)

end

lemma fold_snoc: "fold (\<lambda>x xs. xs @ [x]) ys xs = xs @ ys"
  by (induction ys arbitrary: xs) simp_all

end
