(* ===== verification/Krl.thy ===== *)
theory Krl
  imports RdLoop Chars Certs "HOL-Library.Product_Lexorder"
begin

text \<open>
  Key revocation lists, src/src/krl/mod.rs: the reader of OpenSSH's binary format, the tests of keys and
  certificates, the builder and the writer; and src/src/known_hosts/revoked.rs, which takes such a list
  or a text file of keys. SHA-1 and SHA-256 of purecrypto are arguments.
\<close>

unbundle bit_operations_syntax

definition KRL_MAGIC :: u64 where "KRL_MAGIC = 0x5353484b524c0a00"
definition KRL_FORMAT_VERSION :: u32 where "KRL_FORMAT_VERSION = 1"

definition SECTION_CERTIFICATES :: u8 where "SECTION_CERTIFICATES = 1"
definition SECTION_EXPLICIT_KEY :: u8 where "SECTION_EXPLICIT_KEY = 2"
definition SECTION_FINGERPRINT_SHA1 :: u8 where "SECTION_FINGERPRINT_SHA1 = 3"
definition SECTION_SIGNATURE :: u8 where "SECTION_SIGNATURE = 4"
definition SECTION_FINGERPRINT_SHA256 :: u8 where "SECTION_FINGERPRINT_SHA256 = 5"
definition SECTION_EXTENSION :: u8 where "SECTION_EXTENSION = 255"

definition CERT_SERIAL_LIST :: u8 where "CERT_SERIAL_LIST = 0x20"
definition CERT_SERIAL_RANGE :: u8 where "CERT_SERIAL_RANGE = 0x21"
definition CERT_SERIAL_BITMAP :: u8 where "CERT_SERIAL_BITMAP = 0x22"
definition CERT_KEY_ID :: u8 where "CERT_KEY_ID = 0x23"
definition CERT_EXTENSION :: u8 where "CERT_EXTENSION = 0x39"

lemmas krl_sections = SECTION_CERTIFICATES_def SECTION_EXPLICIT_KEY_def SECTION_FINGERPRINT_SHA1_def
  SECTION_SIGNATURE_def SECTION_FINGERPRINT_SHA256_def SECTION_EXTENSION_def
  CERT_SERIAL_LIST_def CERT_SERIAL_RANGE_def CERT_SERIAL_BITMAP_def CERT_KEY_ID_def CERT_EXTENSION_def

definition MAX_BITMAP_BYTES :: nat where "MAX_BITMAP_BYTES = 2 ^ 20"

record ca_revocation =
  ca_key_blob :: bytes
  ca_serials :: "u64 list"
  ca_serial_ranges :: "(u64 \<times> u64) list"
  ca_serial_bitmaps :: "(u64 \<times> bytes) list"
  ca_key_ids :: "rust_str list"

record krl =
  krl_version :: u64
  krl_comment :: rust_str
  krl_cert_revocations :: "ca_revocation list"
  krl_explicit_keys :: "bytes list"
  krl_fp_sha1 :: "bytes list"
  krl_fp_sha256 :: "bytes list"

section \<open>Tests\<close>

text \<open>\<open>idx / 8\<close> is converted to \<open>usize\<close> of 64 bits, which loses nothing.\<close>

definition bit_is_set :: "bytes \<Rightarrow> u64 \<Rightarrow> bool" where
  "bit_is_set magnitude idx =
     (let byte_from_end = unat (idx div 8) in
      if byte_from_end \<ge> length magnitude then False
      else let byte = magnitude ! (length magnitude - 1 - byte_from_end);
               bit = unat (idx mod 8)
           in drop_bit bit byte AND 1 = 1)"

definition covers :: "ca_revocation \<Rightarrow> u64 \<Rightarrow> rust_str \<Rightarrow> bool" where
  "covers blk serial key_id =
     (if serial \<in> set (ca_serials blk) then True
      else if list_ex (\<lambda>(lo, hi). serial \<ge> lo \<and> serial \<le> hi) (ca_serial_ranges blk) then True
      else if list_ex (\<lambda>(offset, bits). serial \<ge> offset \<and> bit_is_set bits (serial - offset)) (ca_serial_bitmaps blk) then True
      else if key_id \<noteq> [] \<and> key_id \<in> set (ca_key_ids blk) then True
      else False)"

definition krl_is_revoked_cert :: "krl \<Rightarrow> bytes \<Rightarrow> u64 \<Rightarrow> rust_str \<Rightarrow> bool" where
  "krl_is_revoked_cert krl ca serial key_id =
     list_ex (\<lambda>blk. (ca_key_blob blk = [] \<or> ca_key_blob blk = ca) \<and> covers blk serial key_id) (krl_cert_revocations krl)"

definition krl_is_revoked_key :: "(bytes \<Rightarrow> bytes) \<Rightarrow> (bytes \<Rightarrow> bytes) \<Rightarrow> krl \<Rightarrow> bytes \<Rightarrow> bool" where
  "krl_is_revoked_key sha1 sha256 krl blob =
     (if blob \<in> set (krl_explicit_keys krl) then True
      else if krl_fp_sha1 krl \<noteq> [] \<and> sha1 blob \<in> set (krl_fp_sha1 krl) then True
      else if krl_fp_sha256 krl \<noteq> [] \<and> sha256 blob \<in> set (krl_fp_sha256 krl) then True
      else False)"

definition krl_is_empty :: "krl \<Rightarrow> bool" where
  "krl_is_empty krl \<longleftrightarrow> krl_cert_revocations krl = [] \<and> krl_explicit_keys krl = []
     \<and> krl_fp_sha1 krl = [] \<and> krl_fp_sha256 krl = []"

section \<open>Reading\<close>

definition check_extension :: "bytes \<Rightarrow> unit res" where
  "check_extension body =
     run_rd (rd_bind read_string (\<lambda>_. rd_bind read_bool (\<lambda>critical. rd_bind read_string (\<lambda>_.
       if critical then rd_err (Format ''krl: unsupported critical extension'') else rd_ok ())))) body"

definition blob_step :: "bytes list \<Rightarrow> bytes list rd" where
  "blob_step out = rd_bind read_string (\<lambda>b. rd_ok (out @ [b]))"

definition parse_blob_list :: "bytes \<Rightarrow> bytes list \<Rightarrow> bytes list res" where
  "parse_blob_list body out = rd_while blob_step out body"

definition hash_step :: "nat \<Rightarrow> bytes list \<Rightarrow> bytes list rd" where
  "hash_step n out = rd_bind read_string (\<lambda>h.
     if length h = n then rd_ok (out @ [h]) else rd_err (Format ''krl: bad fingerprint length''))"

definition parse_hash_list :: "nat \<Rightarrow> bytes \<Rightarrow> bytes list \<Rightarrow> bytes list res" where
  "parse_hash_list n body out = rd_while (hash_step n) out body"

definition serial_step :: "u64 list \<Rightarrow> u64 list rd" where
  "serial_step out = rd_bind read_u64 (\<lambda>s. rd_ok (out @ [s]))"

definition key_id_step :: "rust_str list \<Rightarrow> rust_str list rd" where
  "key_id_step out = rd_bind read_string (\<lambda>id. rd_bind (utf8_or ''krl: non-utf8 key-id'' id) (\<lambda>s. rd_ok (out @ [s])))"

definition parse_cert_section :: "u8 \<Rightarrow> bytes \<Rightarrow> ca_revocation \<Rightarrow> ca_revocation res" where
  "parse_cert_section sub_type sub blk =
     (if sub_type = CERT_SERIAL_LIST then
        bind_res (rd_while serial_step (ca_serials blk) sub) (\<lambda>ss. Ok (blk\<lparr>ca_serials := ss\<rparr>))
      else if sub_type = CERT_SERIAL_RANGE then
        run_rd (rd_bind read_u64 (\<lambda>lo. rd_bind read_u64 (\<lambda>hi.
          rd_bind (rd_end (Format ''krl: trailing serial-range data'')) (\<lambda>_.
            rd_ok (blk\<lparr>ca_serial_ranges := ca_serial_ranges blk @ [(lo, hi)]\<rparr>))))) sub
      else if sub_type = CERT_SERIAL_BITMAP then
        run_rd (rd_bind read_u64 (\<lambda>offset. rd_bind read_mpint (\<lambda>bits.
          rd_bind (rd_check (length bits \<le> MAX_BITMAP_BYTES) (Format ''krl: serial bitmap too large'')) (\<lambda>_.
          rd_bind (rd_end (Format ''krl: trailing serial-bitmap data'')) (\<lambda>_.
            rd_ok (blk\<lparr>ca_serial_bitmaps := ca_serial_bitmaps blk @ [(offset, bits)]\<rparr>)))))) sub
      else if sub_type = CERT_KEY_ID then
        bind_res (rd_while key_id_step (ca_key_ids blk) sub) (\<lambda>ids. Ok (blk\<lparr>ca_key_ids := ids\<rparr>))
      else if sub_type = CERT_EXTENSION then bind_res (check_extension sub) (\<lambda>_. Ok blk)
      else Err (Format ''krl: unsupported certificate section type''))"

definition cert_section_step :: "ca_revocation \<Rightarrow> ca_revocation rd" where
  "cert_section_step blk =
     rd_bind read_u8 (\<lambda>sub_type. rd_bind read_string (\<lambda>sub. rd_res (parse_cert_section sub_type sub blk)))"

definition empty_revocation :: "bytes \<Rightarrow> ca_revocation" where
  "empty_revocation blob = \<lparr>ca_key_blob = blob, ca_serials = [], ca_serial_ranges = [], ca_serial_bitmaps = [], ca_key_ids = []\<rparr>"

definition parse_certificates :: "bytes \<Rightarrow> krl \<Rightarrow> krl res" where
  "parse_certificates body krl =
     bind_res (run_rd (rd_bind read_string (\<lambda>ca_key_blob. rd_bind read_string (\<lambda>_.
         rd_bind (\<lambda>r. rd_loop (remaining r) cert_section_step (empty_revocation ca_key_blob) r) rd_ok))) body)
       (\<lambda>blk. Ok (krl\<lparr>krl_cert_revocations := krl_cert_revocations krl @ [blk]\<rparr>))"

definition parse_krl_section :: "u8 \<Rightarrow> bytes \<Rightarrow> krl \<Rightarrow> krl res" where
  "parse_krl_section section_type body krl =
     (if section_type = SECTION_CERTIFICATES then parse_certificates body krl
      else if section_type = SECTION_EXPLICIT_KEY then
        bind_res (parse_blob_list body (krl_explicit_keys krl)) (\<lambda>ks. Ok (krl\<lparr>krl_explicit_keys := ks\<rparr>))
      else if section_type = SECTION_FINGERPRINT_SHA1 then
        bind_res (parse_hash_list 20 body (krl_fp_sha1 krl)) (\<lambda>hs. Ok (krl\<lparr>krl_fp_sha1 := hs\<rparr>))
      else if section_type = SECTION_FINGERPRINT_SHA256 then
        bind_res (parse_hash_list 32 body (krl_fp_sha256 krl)) (\<lambda>hs. Ok (krl\<lparr>krl_fp_sha256 := hs\<rparr>))
      else if section_type = SECTION_SIGNATURE then Ok krl
      else if section_type = SECTION_EXTENSION then bind_res (check_extension body) (\<lambda>_. Ok krl)
      else Err (Format ''krl: unsupported section type''))"

definition krl_section_step :: "krl \<Rightarrow> krl rd" where
  "krl_section_step krl =
     rd_bind read_u8 (\<lambda>section_type. rd_bind read_string (\<lambda>body. rd_res (parse_krl_section section_type body krl)))"

definition krl_new :: krl where
  "krl_new = \<lparr>krl_version = 0, krl_comment = [], krl_cert_revocations = [], krl_explicit_keys = [], krl_fp_sha1 = [], krl_fp_sha256 = []\<rparr>"

definition krl_parse :: "bytes \<Rightarrow> krl res" where
  "krl_parse blob =
     run_rd (rd_bind read_u64 (\<lambda>magic. rd_bind (rd_check (magic = KRL_MAGIC) (Format ''krl: bad magic'')) (\<lambda>_.
       rd_bind read_u32 (\<lambda>fv. rd_bind (rd_check (fv = KRL_FORMAT_VERSION) (Format ''krl: unsupported format version'')) (\<lambda>_.
       rd_bind read_u64 (\<lambda>version. rd_bind read_u64 (\<lambda>_. rd_bind read_u64 (\<lambda>_.
       rd_bind read_string (\<lambda>_. rd_bind read_string (\<lambda>comment.
       rd_bind (\<lambda>r. rd_loop (remaining r) krl_section_step
         (krl_new\<lparr>krl_version := version, krl_comment := from_utf8_lossy comment\<rparr>) r) rd_ok)))))))))) blob"

section \<open>Building\<close>

definition krl_revoke_key :: "bytes \<Rightarrow> krl \<Rightarrow> krl" where
  "krl_revoke_key blob krl =
     (if blob \<in> set (krl_explicit_keys krl) then krl else krl\<lparr>krl_explicit_keys := krl_explicit_keys krl @ [blob]\<rparr>)"

definition krl_revoke_sha1 :: "bytes \<Rightarrow> krl \<Rightarrow> krl" where
  "krl_revoke_sha1 h krl = (if h \<in> set (krl_fp_sha1 krl) then krl else krl\<lparr>krl_fp_sha1 := krl_fp_sha1 krl @ [h]\<rparr>)"

definition krl_revoke_sha256 :: "bytes \<Rightarrow> krl \<Rightarrow> krl" where
  "krl_revoke_sha256 h krl = (if h \<in> set (krl_fp_sha256 krl) then krl else krl\<lparr>krl_fp_sha256 := krl_fp_sha256 krl @ [h]\<rparr>)"

definition krl_merge :: "krl \<Rightarrow> krl \<Rightarrow> krl" where
  "krl_merge other krl =
     (let krl = krl\<lparr>krl_cert_revocations := krl_cert_revocations krl @ krl_cert_revocations other\<rparr>;
          krl = fold krl_revoke_key (krl_explicit_keys other) krl;
          krl = fold krl_revoke_sha1 (krl_fp_sha1 other) krl
      in fold krl_revoke_sha256 (krl_fp_sha256 other) krl)"

text \<open>\<open>ca_entry\<close> and the change made through the reference it returns: the first block of the CA, or a new one.\<close>

fun change_ca :: "bytes \<Rightarrow> (ca_revocation \<Rightarrow> ca_revocation) \<Rightarrow> ca_revocation list \<Rightarrow> ca_revocation list" where
  "change_ca blob f [] = [f (empty_revocation blob)]"
| "change_ca blob f (c # cs) = (if ca_key_blob c = blob then f c # cs else c # change_ca blob f cs)"

definition revoke_cert_serials :: "bytes \<Rightarrow> u64 \<Rightarrow> u64 \<Rightarrow> krl \<Rightarrow> krl" where
  "revoke_cert_serials blob lo hi krl =
     krl\<lparr>krl_cert_revocations := change_ca blob (\<lambda>ca.
       if lo = hi then (if lo \<in> set (ca_serials ca) then ca else ca\<lparr>ca_serials := ca_serials ca @ [lo]\<rparr>)
       else if (lo, hi) \<in> set (ca_serial_ranges ca) then ca
       else ca\<lparr>ca_serial_ranges := ca_serial_ranges ca @ [(min lo hi, max lo hi)]\<rparr>) (krl_cert_revocations krl)\<rparr>"

definition revoke_cert_key_id :: "bytes \<Rightarrow> rust_str \<Rightarrow> krl \<Rightarrow> krl" where
  "revoke_cert_key_id blob key_id krl =
     krl\<lparr>krl_cert_revocations := change_ca blob (\<lambda>ca.
       if key_id \<in> set (ca_key_ids ca) then ca else ca\<lparr>ca_key_ids := ca_key_ids ca @ [key_id]\<rparr>) (krl_cert_revocations krl)\<rparr>"

section \<open>Writing\<close>

definition write_sub :: "u8 \<Rightarrow> writer \<Rightarrow> writer \<Rightarrow> writer" where
  "write_sub ty sub w = write_string (into_vec sub) (write_u8 ty w)"

definition write_ca :: "ca_revocation \<Rightarrow> writer \<Rightarrow> writer" where
  "write_ca ca w =
     (let body = write_string [] (write_string (ca_key_blob ca) writer_new);
          serials = sort (ca_serials ca);
          body = (if serials \<noteq> [] then write_sub CERT_SERIAL_LIST (fold write_u64 serials writer_new) body else body);
          body = fold (\<lambda>(lo, hi). write_sub CERT_SERIAL_RANGE (write_u64 hi (write_u64 lo writer_new))) (sort (ca_serial_ranges ca)) body;
          body = fold (\<lambda>(offset, bits). write_sub CERT_SERIAL_BITMAP (write_mpint bits (write_u64 offset writer_new))) (ca_serial_bitmaps ca) body;
          body = (if ca_key_ids ca \<noteq> [] then write_sub CERT_KEY_ID (fold write_string (sort (ca_key_ids ca)) writer_new) body else body)
      in write_sub SECTION_CERTIFICATES body w)"

definition write_blobs :: "u8 \<Rightarrow> bytes list \<Rightarrow> writer \<Rightarrow> writer" where
  "write_blobs ty blobs w = (if blobs = [] then w else write_sub ty (fold write_string blobs writer_new) w)"

definition krl_to_bytes :: "u64 \<Rightarrow> krl \<Rightarrow> bytes" where
  "krl_to_bytes generated_date krl =
     (let w = write_u64 KRL_MAGIC writer_new;
          w = write_u32 KRL_FORMAT_VERSION w;
          w = write_u64 (krl_version krl) w;
          w = write_u64 generated_date w;
          w = write_u64 0 w;
          w = write_string [] w;
          w = write_string (krl_comment krl) w;
          w = fold write_ca (krl_cert_revocations krl) w;
          w = write_blobs SECTION_EXPLICIT_KEY (sort (krl_explicit_keys krl)) w;
          w = write_blobs SECTION_FINGERPRINT_SHA1 (sort (krl_fp_sha1 krl)) w;
          w = write_blobs SECTION_FINGERPRINT_SHA256 (sort (krl_fp_sha256 krl)) w
      in into_vec w)"

section \<open>Revoked host keys (known\_hosts/revoked.rs)\<close>

datatype revoked_host_keys = RevokedKrl krl | RevokedKeys "bytes list"

text \<open>\<open>str::lines\<close>: no line behind the last newline, and a carriage return before a newline is not part of the line.\<close>

definition str_lines :: "rust_str \<Rightarrow> rust_str list" where
  "str_lines s =
     (let parts = split_on 0x0A s;
          strip = (\<lambda>l. if l \<noteq> [] \<and> last l = 0x0D then butlast l else l)
      in map strip (butlast parts) @ (if last parts = [] then [] else [last parts]))"

fun revoked_lines :: "rust_str list \<Rightarrow> bytes list \<Rightarrow> bytes list res" where
  "revoked_lines [] keys = Ok keys"
| "revoked_lines (raw # rest) keys =
     (let line = str_trim raw in
      if line = [] \<or> hd line = 0x23 then revoked_lines rest keys
      else case split_whitespace line of
             _ # b64 # _ \<Rightarrow>
               bind_res (b64_decode b64) (\<lambda>blob.
                 case certificate_parse blob of
                   Ok cert \<Rightarrow> revoked_lines rest (keys @ [ct_embedded_pubkey_blob cert])
                 | Err _ \<Rightarrow> revoked_lines rest (keys @ [blob])
                 | Panic \<Rightarrow> Panic)
           | _ \<Rightarrow> Err (Format ''revoked host keys: bad line''))"

definition revoked_parse :: "bytes \<Rightarrow> revoked_host_keys res" where
  "revoked_parse data =
     (case krl_parse data of
        Ok krl \<Rightarrow> Ok (RevokedKrl krl)
      | Panic \<Rightarrow> Panic
      | Err _ \<Rightarrow>
          (case from_utf8 data of
             None \<Rightarrow> Err (Format ''revoked host keys: not a KRL or key list'')
           | Some txt \<Rightarrow> map_res RevokedKeys (revoked_lines (str_lines txt) [])))"

definition is_revoked_key :: "(bytes \<Rightarrow> bytes) \<Rightarrow> (bytes \<Rightarrow> bytes) \<Rightarrow> revoked_host_keys \<Rightarrow> bytes \<Rightarrow> bool" where
  "is_revoked_key sha1 sha256 rv blob =
     (case rv of RevokedKrl krl \<Rightarrow> krl_is_revoked_key sha1 sha256 krl blob | RevokedKeys keys \<Rightarrow> blob \<in> set keys)"

definition is_revoked_cert :: "(bytes \<Rightarrow> bytes) \<Rightarrow> (bytes \<Rightarrow> bytes) \<Rightarrow> revoked_host_keys \<Rightarrow> certificate \<Rightarrow> bool" where
  "is_revoked_cert sha1 sha256 rv cert =
     (if is_revoked_key sha1 sha256 rv (ct_embedded_pubkey_blob cert) \<or> is_revoked_key sha1 sha256 rv (ct_signature_key_blob cert) then True
      else case rv of
             RevokedKrl krl \<Rightarrow> krl_is_revoked_cert krl (ct_signature_key_blob cert) (ct_serial cert) (ct_key_id cert)
           | RevokedKeys _ \<Rightarrow> False)"

end
