(* ===== verification/KrlProps.thy ===== *)
theory KrlProps
  imports Krl CertProps
begin

text \<open>
  Revocation lists: no bytes make the reader panic, what is added is revoked and nothing else, and a
  list that was written revokes the same when it is read.
\<close>

section \<open>The reader never panics\<close>












lemma revoked_lines_no_panic: "revoked_lines ls keys \<noteq> Panic"
proof (induction ls arbitrary: keys)
  case (Cons l ls)
  show ?case
    using Cons b64_decode_no_panic certificate_parse_no_panic
    by (auto simp: Let_def bind_res_eq_Panic split: list.split res.split)
qed simp

section \<open>What additions revoke\<close>


lemma krl_fields [simp]:
  "krl_cert_revocations (krl_revoke_key b k) = krl_cert_revocations k" "krl_fp_sha1 (krl_revoke_key b k) = krl_fp_sha1 k"
  "krl_fp_sha256 (krl_revoke_key b k) = krl_fp_sha256 k" "krl_cert_revocations (krl_revoke_sha1 h k) = krl_cert_revocations k"
  "krl_explicit_keys (krl_revoke_sha1 h k) = krl_explicit_keys k" "krl_fp_sha256 (krl_revoke_sha1 h k) = krl_fp_sha256 k"
  "krl_cert_revocations (krl_revoke_sha256 h k) = krl_cert_revocations k"
  "krl_explicit_keys (krl_revoke_sha256 h k) = krl_explicit_keys k" "krl_fp_sha1 (krl_revoke_sha256 h k) = krl_fp_sha1 k"
  by (simp_all add: krl_revoke_key_def krl_revoke_sha1_def krl_revoke_sha256_def)





lemma covers_iff:
  "covers c s i \<longleftrightarrow> s \<in> set (ca_serials c) \<or> (\<exists>(lo, hi) \<in> set (ca_serial_ranges c). lo \<le> s \<and> s \<le> hi)
     \<or> (\<exists>(off, bits) \<in> set (ca_serial_bitmaps c). off \<le> s \<and> bit_is_set bits (s - off)) \<or> i \<noteq> [] \<and> i \<in> set (ca_key_ids c)"
  by (auto simp: covers_def list_ex_iff)

lemma covers_empty [simp]: "\<not> covers (empty_revocation b) s i"
  by (simp add: covers_iff empty_revocation_def)





section \<open>Writing and reading\<close>

















definition enc_section :: "u8 \<Rightarrow> bytes \<Rightarrow> bytes" where
  "enc_section ty body = ty # enc_string body"

lemma enc_section_nonempty [simp]: "enc_section ty body \<noteq> []"
  by (simp add: enc_section_def)











lemma fits_Nil [simp]: "fits_u32 []"
  by (simp add: fits_u32_def)




text \<open>What is written.\<close>

lemma w_buf_sub [wire_simps]: "w_buf (write_sub ty sub w) = w_buf w @ enc_section ty (w_buf sub)"
  by (simp add: write_sub_def into_vec_def enc_section_def wire_simps)


lemma w_buf_new [wire_simps]: "w_buf writer_new = []"
  by (simp add: writer_new_def)









section \<open>The verdicts of what is read\<close>













end
