(* ===== verification/KnockWire.thy ===== *)
theory KnockWire
  imports Signers KexMethods RdLoop
begin

text \<open>
  The datagrams of port knocking, src/src/knock/wire.rs: KNOCK and ACCEPT with their strict parsers and
  builders, the data that a knock signature covers, its verification, and the open token. The hashes
  and signatures are those of \<open>sig_prims\<close>; HKDF is the argument \<open>hkdf\<close> (salt, secret, info, length).
\<close>

unbundle bit_operations_syntax

definition KNOCK_VERSION :: u8 where "KNOCK_VERSION = 0x01"
definition TYPE_KNOCK :: u8 where "TYPE_KNOCK = 0x01"
definition TYPE_ACCEPT :: u8 where "TYPE_ACCEPT = 0x02"
definition MAX_DATAGRAM :: nat where "MAX_DATAGRAM = 1232"
definition FLAG_NEED_HOSTKEY :: u8 where "FLAG_NEED_HOSTKEY = 0x01"
definition FLAG_HOSTKEY_FULL :: u8 where "FLAG_HOSTKEY_FULL = 0x01"
definition MAX_USER_LEN :: nat where "MAX_USER_LEN = 64"

definition NS_KNOCK_ID :: rust_str where "NS_KNOCK_ID = lit ''knock-id@puressh''"
definition NS_KNOCK :: rust_str where "NS_KNOCK = lit ''knock@puressh''"
definition NS_ACCEPT :: rust_str where "NS_ACCEPT = lit ''knock-accept@puressh''"

definition TOKEN_INFO :: bytes where "TOKEN_INFO = lit ''puressh knock open v1''"
definition ACCEPT_HEAD_LEN :: nat where "ACCEPT_HEAD_LEN = 3 + 32 + 32 + 2 + 2"

definition key_fp :: "sig_prims \<Rightarrow> bytes \<Rightarrow> bytes" where
  "key_fp P blob = sp_hash P KSha256 blob"

definition knock_hash :: "sig_prims \<Rightarrow> bytes \<Rightarrow> bytes" where
  "knock_hash P datagram = key_fp P datagram"

definition signed_data :: "sig_prims \<Rightarrow> rust_str \<Rightarrow> bytes \<Rightarrow> bytes" where
  "signed_data P ns message =
     into_vec (write_string (sp_hash P KSha512 message) (write_string (lit ''sha512'') (write_string []
       (write_string ns (write_raw (lit ''SSHSIG'') writer_new)))))"

definition knock_id_message :: "rust_str \<Rightarrow> bytes \<Rightarrow> bytes" where
  "knock_id_message user fp = [of_nat (length user)] @ user @ fp"

definition knock_sign :: "sig_prims \<Rightarrow> 'k host_key_ops \<Rightarrow> 'k \<Rightarrow> rust_str \<Rightarrow> bytes \<Rightarrow> bytes res" where
  "knock_sign P K k ns message = hk_sign K k (signed_data P ns message)"

definition key_alg_of :: "bytes \<Rightarrow> bytes res" where
  "key_alg_of blob = run_rd read_string blob"

definition knock_family_ok :: "bytes \<Rightarrow> rust_str \<Rightarrow> bool" where
  "knock_family_ok key_alg sig_alg =
     (if key_alg = lit ''ssh-rsa'' then sig_alg = lit ''rsa-sha2-256'' \<or> sig_alg = lit ''rsa-sha2-512''
      else if key_alg = lit ''ssh-ed25519'' \<or> key_alg = lit ''ecdsa-sha2-nistp256''
        \<or> key_alg = lit ''ecdsa-sha2-nistp384'' \<or> key_alg = lit ''ecdsa-sha2-nistp521'' then sig_alg = key_alg
      else False)"

definition knock_verify :: "sig_prims \<Rightarrow> bool \<Rightarrow> bytes \<Rightarrow> rust_str \<Rightarrow> bytes \<Rightarrow> bytes \<Rightarrow> unit res" where
  "knock_verify P sha1 key_blob ns message sig_blob =
     bind_res (key_alg_of key_blob) (\<lambda>key_alg.
     bind_res (key_alg_of sig_blob) (\<lambda>sig_alg.
       case from_utf8 sig_alg of
         None \<Rightarrow> Err BadSignature
       | Some sig_alg \<Rightarrow>
           if \<not> knock_family_ok key_alg sig_alg then Err BadSignature
           else verify_signature P sha1 sig_alg key_blob (signed_data P ns message) sig_blob))"

definition max_sig_blob_len :: "bytes \<Rightarrow> nat option" where
  "max_sig_blob_len key_blob =
     (let r = reader_new key_blob in
      case read_string r of
        Ok (name, r) \<Rightarrow>
          if name = lit ''ssh-ed25519'' then Some (4 + 11 + 4 + 64)
          else if name = lit ''ecdsa-sha2-nistp256'' then Some (4 + 19 + 4 + 2 * (4 + 1 + 32))
          else if name = lit ''ecdsa-sha2-nistp384'' then Some (4 + 19 + 4 + 2 * (4 + 1 + 48))
          else if name = lit ''ecdsa-sha2-nistp521'' then Some (4 + 19 + 4 + 2 * (4 + 1 + 66))
          else if name = lit ''ssh-rsa'' then
            (case rd_bind read_string (\<lambda>_. read_string) r of
               Ok (n, _) \<Rightarrow> Some (4 + 12 + 4 + length (dropWhile (\<lambda>b. b = 0) n))
             | _ \<Rightarrow> None)
          else None
      | _ \<Rightarrow> None)"

definition accept_len_bound :: "bytes \<Rightarrow> bool \<Rightarrow> nat option" where
  "accept_len_bound host_key_blob full =
     Option.bind (max_sig_blob_len host_key_blob) (\<lambda>sig.
       let hostkey = (if full then 2 + length host_key_blob else 0)
       in Some (ACCEPT_HEAD_LEN + hostkey + 2 + sig))"

text \<open>16-bit numbers in network order, and strings behind them.\<close>

definition u16_to_be :: "16 word \<Rightarrow> bytes" where
  "u16_to_be v = be_bytes 2 (unat v)"

definition u16_from_be :: "bytes \<Rightarrow> 16 word" where
  "u16_from_be bs = of_nat (be_value bs)"

definition open_token :: "(bytes \<Rightarrow> bytes \<Rightarrow> bytes \<Rightarrow> nat \<Rightarrow> bytes) \<Rightarrow> bytes \<Rightarrow> bytes \<Rightarrow> bytes \<Rightarrow> 16 word \<Rightarrow> bytes" where
  "open_token hkdf shared hash eph_s port = hkdf hash shared (TOKEN_INFO @ eph_s @ u16_to_be port) 32"

definition str16 :: "bytes \<Rightarrow> bytes" where
  "str16 s = u16_to_be (of_nat (length s)) @ s"

definition read_array :: "nat \<Rightarrow> bytes rd" where
  "read_array n = take_bytes n"

definition read_u16 :: "16 word rd" where
  "read_u16 = rd_bind (take_bytes 2) (\<lambda>b r.
     bind_res (index_res b 0) (\<lambda>b0. bind_res (index_res b 1) (\<lambda>b1. Ok (u16_from_be [b0, b1], r))))"

definition read_str16 :: "bytes rd" where
  "read_str16 = rd_bind read_u16 (\<lambda>n. take_bytes (unat n))"

section \<open>KNOCK\<close>

record knock =
  k_flags :: u8
  k_user :: rust_str
  k_key_fp :: bytes
  k_sig1 :: bytes
  k_nonce :: u64
  k_eph_c :: bytes
  k_host_fp :: bytes
  k_signed :: bytes
  k_sig2 :: bytes

text \<open>The fields up to and including the padding, which sig2 covers.\<close>

definition read_knock_head :: "knock rd" where
  "read_knock_head =
     rd_bind read_u8 (\<lambda>v. if v \<noteq> KNOCK_VERSION then rd_err (Format ''knock: version/type'') else
     rd_bind read_u8 (\<lambda>t. if t \<noteq> TYPE_KNOCK then rd_err (Format ''knock: version/type'') else
     rd_bind read_u8 (\<lambda>flags.
     rd_bind (rd_check (flags AND NOT FLAG_NEED_HOSTKEY = 0) (Format ''knock: unknown flags'')) (\<lambda>_.
     rd_bind read_u8 (\<lambda>user_len.
     rd_bind (rd_check (\<not> (user_len = 0 \<or> unat user_len > MAX_USER_LEN)) (Format ''knock: user length'')) (\<lambda>_.
     rd_bind (take_bytes (unat user_len)) (\<lambda>ub.
     rd_bind (utf8_or ''knock: user not UTF-8'' ub) (\<lambda>user.
     rd_bind (rd_check (0 \<notin> set user) (Format ''knock: NUL in user'')) (\<lambda>_.
     rd_bind (read_array 32) (\<lambda>fp.
     rd_bind read_str16 (\<lambda>sig1.
     rd_bind read_u64 (\<lambda>nonce.
     rd_bind (read_array 32) (\<lambda>eph_c.
     rd_bind (read_array 32) (\<lambda>host_fp.
     rd_bind (rd_check (\<not> (flags AND FLAG_NEED_HOSTKEY \<noteq> 0 \<and> host_fp \<noteq> replicate 32 0)) (Format ''knock: host_fp with NEED_HOSTKEY'')) (\<lambda>_.
     rd_bind read_str16 (\<lambda>padding.
     rd_bind (rd_check (\<not> list_ex (\<lambda>b. b \<noteq> 0) padding) (Format ''knock: non-zero padding'')) (\<lambda>_.
       rd_ok \<lparr>k_flags = flags, k_user = user, k_key_fp = fp, k_sig1 = sig1, k_nonce = nonce, k_eph_c = eph_c, k_host_fp = host_fp,
         k_signed = [], k_sig2 = []\<rparr>)))))))))))))))))"

definition knock_parse :: "bytes \<Rightarrow> knock res" where
  "knock_parse buf =
     (if length buf > MAX_DATAGRAM then Err (Format ''knock: datagram too large'')
      else run_rd
        (rd_bind read_knock_head (\<lambda>k r.
           bind_res (sub_res (length buf) (remaining r)) (\<lambda>n.
           bind_res (slice_res buf 0 n) (\<lambda>signed.
             rd_bind read_str16 (\<lambda>sig2. rd_bind (rd_end (Format ''knock: trailing bytes'')) (\<lambda>_.
               rd_ok (k\<lparr>k_signed := signed, k_sig2 := sig2\<rparr>))) r)))) buf)"

record knock_fields =
  kf_user :: rust_str
  kf_key_fp :: bytes
  kf_sig1 :: bytes
  kf_nonce :: u64
  kf_eph_c :: bytes
  kf_host_fp :: "bytes option"

definition knock_head :: "knock_fields \<Rightarrow> nat \<Rightarrow> bytes" where
  "knock_head f pad =
     [KNOCK_VERSION, TYPE_KNOCK, if kf_host_fp f = None then FLAG_NEED_HOSTKEY else 0, of_nat (length (kf_user f))]
     @ kf_user f @ kf_key_fp f @ str16 (kf_sig1 f) @ u64_to_be (kf_nonce f) @ kf_eph_c f
     @ (case kf_host_fp f of Some h \<Rightarrow> h | None \<Rightarrow> replicate 32 0) @ u16_to_be (of_nat pad) @ replicate pad 0"

text \<open>One attempt at a size of sig2, of at most \<open>n\<close> that are left; \<open>saturating_sub\<close> is the subtraction of naturals.\<close>

fun knock_build_loop :: "sig_prims \<Rightarrow> 'k host_key_ops \<Rightarrow> 'k \<Rightarrow> knock_fields \<Rightarrow> nat \<Rightarrow> nat \<Rightarrow> nat \<Rightarrow> bytes res" where
  "knock_build_loop P K k f min_len sig2_estimate 0 = Err (Crypto ''knock: could not size the datagram'')"
| "knock_build_loop P K k f min_len sig2_estimate (Suc n) =
     (let unpadded = length (knock_head f 0) + 2 + sig2_estimate;
          pad = min_len - unpadded;
          out = knock_head f pad in
      bind_res (knock_sign P K k NS_KNOCK out) (\<lambda>sig2.
        let out = out @ str16 sig2 in
        if length out > MAX_DATAGRAM then
          (if pad = 0 then Err (Unsupported ''knock: key too large for one datagram'')
           else knock_build_loop P K k f min_len (sig2_estimate + (length out - MAX_DATAGRAM)) n)
        else if length out < min_len then
          bind_res (sub_res sig2_estimate (min_len - length out)) (\<lambda>est. knock_build_loop P K k f min_len est n)
        else Ok out))"

definition knock_build :: "sig_prims \<Rightarrow> 'k host_key_ops \<Rightarrow> 'k \<Rightarrow> knock_fields \<Rightarrow> nat \<Rightarrow> bytes res" where
  "knock_build P K k f min_len =
     (if kf_user f = [] \<or> length (kf_user f) > MAX_USER_LEN then Err (Config ''knock: user name must be 1..=64 bytes'')
      else knock_build_loop P K k f (min min_len MAX_DATAGRAM) (length (kf_sig1 f)) 4)"

section \<open>ACCEPT\<close>

record knock_accept =
  a_flags :: u8
  a_knock_hash :: bytes
  a_eph_s :: bytes
  a_port :: "16 word"
  a_window :: "16 word"
  a_hostkey :: "bytes option"
  a_signed :: bytes
  a_sig_host :: bytes

definition read_accept_head :: "knock_accept rd" where
  "read_accept_head =
     rd_bind read_u8 (\<lambda>v. if v \<noteq> KNOCK_VERSION then rd_err (Format ''accept: version/type'') else
     rd_bind read_u8 (\<lambda>t. if t \<noteq> TYPE_ACCEPT then rd_err (Format ''accept: version/type'') else
     rd_bind read_u8 (\<lambda>flags.
     rd_bind (rd_check (flags AND NOT FLAG_HOSTKEY_FULL = 0) (Format ''accept: unknown flags'')) (\<lambda>_.
     rd_bind (read_array 32) (\<lambda>hash.
     rd_bind (read_array 32) (\<lambda>eph_s.
     rd_bind read_u16 (\<lambda>port.
     rd_bind read_u16 (\<lambda>window.
     rd_bind (rd_check (\<not> (port = 0 \<or> window = 0)) (Format ''accept: zero port/window'')) (\<lambda>_.
     rd_bind (if flags AND FLAG_HOSTKEY_FULL \<noteq> 0 then rd_bind read_str16 (\<lambda>h. rd_ok (Some h)) else rd_ok None) (\<lambda>hostkey.
       rd_ok \<lparr>a_flags = flags, a_knock_hash = hash, a_eph_s = eph_s, a_port = port, a_window = window, a_hostkey = hostkey,
         a_signed = [], a_sig_host = []\<rparr>))))))))))"

definition accept_parse :: "bytes \<Rightarrow> knock_accept res" where
  "accept_parse buf =
     (if length buf > MAX_DATAGRAM then Err (Format ''accept: datagram too large'')
      else run_rd
        (rd_bind read_accept_head (\<lambda>a r.
           bind_res (sub_res (length buf) (remaining r)) (\<lambda>n.
           bind_res (slice_res buf 0 n) (\<lambda>signed.
             rd_bind read_str16 (\<lambda>sig. rd_bind (rd_end (Format ''accept: trailing bytes'')) (\<lambda>_.
               rd_ok (a\<lparr>a_signed := signed, a_sig_host := sig\<rparr>))) r)))) buf)"

definition accept_head :: "bytes \<Rightarrow> bytes \<Rightarrow> bytes \<Rightarrow> 16 word \<Rightarrow> 16 word \<Rightarrow> bool \<Rightarrow> bytes" where
  "accept_head blob hash eph_s port window full =
     [KNOCK_VERSION, TYPE_ACCEPT, if full then FLAG_HOSTKEY_FULL else 0] @ hash @ eph_s @ u16_to_be port @ u16_to_be window
     @ (if full then str16 blob else [])"

definition build_accept :: "sig_prims \<Rightarrow> 'k host_key_ops \<Rightarrow> 'k \<Rightarrow> bytes \<Rightarrow> bytes \<Rightarrow> 16 word \<Rightarrow> 16 word \<Rightarrow> bool \<Rightarrow> bytes res" where
  "build_accept P K k hash eph_s port window full =
     (let out = accept_head (hk_public_blob K k) hash eph_s port window full in
      bind_res (knock_sign P K k NS_ACCEPT out) (\<lambda>sig. Ok (out @ str16 sig)))"

section \<open>Laws\<close>

lemma length_u16_to_be [simp]: "length (u16_to_be v) = 2"
  by (simp add: u16_to_be_def numeral_2_eq_2)

lemma u16_from_to_be [simp]: "u16_from_be (u16_to_be v) = v"
proof -
  have "unat v < 256 ^ 2" using unat_less_p2 [of v] by simp
  then show ?thesis by (simp add: u16_from_be_def u16_to_be_def be_value_be_bytes)
qed

lemma u16_to_from_be: "length bs = 2 \<Longrightarrow> u16_to_be (u16_from_be bs) = bs"
proof -
  assume len: "length bs = 2"
  then have "be_value bs < 2 ^ 16" using be_value_bound [of bs] by simp
  then have "unat (u16_from_be bs) = be_value bs" by (simp add: u16_from_be_def unat_of_nat)
  with len be_bytes_be_value [of bs] show ?thesis by (simp add: u16_to_be_def)
qed

lemma two_bytes: "length b = 2 \<Longrightarrow> \<exists>x y. b = [x, y]"
  by (cases b; cases "tl b") auto

lemma read_u16_takes: "read_u16 r = Ok (v, r') \<longleftrightarrow> (\<exists>b. take_bytes 2 r = Ok (b, r') \<and> v = u16_from_be b)"
proof (cases "take_bytes 2 r")
  case (Ok br)
  obtain b r1 where br: "br = (b, r1)" by (cases br)
  with Ok two_bytes take_bytes_length obtain x y where "b = [x, y]" by blast
  with Ok br show ?thesis by (auto simp: read_u16_def rd_bind_def index_res_def)
qed (simp_all add: read_u16_def rd_bind_def)

lemma read_u16_at: "fits pre (u16_to_be v @ post) \<Longrightarrow> read_u16 (rd_at pre (u16_to_be v @ post)) = Ok (v, rd_at (pre @ u16_to_be v) post)"
  using take_bytes_at [of pre "u16_to_be v" post 2] by (simp add: read_u16_takes)

lemma safe_read_u16: "safe_rd read_u16"
proof (rule safe_rdI)
  fix r
  show "read_u16 r \<noteq> Panic"
  proof (cases "take_bytes 2 r")
    case (Ok br)
    then have "read_u16 r = Ok (u16_from_be (fst br), snd br)" by (cases br) (simp add: read_u16_takes)
    then show ?thesis by simp
  next
    case Panic
    with safe_take_bytes show ?thesis by (auto simp: safe_rd_def)
  qed (simp add: read_u16_def rd_bind_def)
qed

definition fits_u16 :: "bytes \<Rightarrow> bool" where
  "fits_u16 s \<longleftrightarrow> length s < 2 ^ 16"

lemma read_str16_at:
  assumes "fits_u16 s" "fits pre (str16 s @ post)"
  shows "read_str16 (rd_at pre (str16 s @ post)) = Ok (s, rd_at (pre @ str16 s) post)"
proof -
  have "unat (of_nat (length s) :: 16 word) = length s" using assms(1) by (simp add: fits_u16_def unat_of_nat)
  with assms(2) show ?thesis by (simp add: read_str16_def str16_def rd_bind_def read_u16_at take_bytes_at)
qed

interpretation u16c: wire_codec "\<lambda>v. write_raw (u16_to_be v)" read_u16 u16_to_be "\<lambda>_. True"
  by unfold_locales (simp_all add: wire_simps read_u16_at safe_read_u16)

interpretation str16c: wire_codec "\<lambda>s. write_raw (str16 s)" read_str16 str16 fits_u16
  by unfold_locales
    (simp_all add: wire_simps read_str16_at, unfold read_str16_def, intro safe_rd_bind safe_read_u16 safe_take_bytes)

lemma local_read_u16: "local_rd read_u16"
  unfolding read_u16_def
  by (rule local_indexed [where g = "\<lambda>b. bind_res (index_res b 0) (\<lambda>b0. bind_res (index_res b 1) (\<lambda>b1. Ok (u16_from_be [b0, b1])))"])
    (simp add: map_res_bind)

lemma local_read_str16: "local_rd read_str16"
  unfolding read_str16_def by (intro local_bind local_read_u16 local_take_bytes)

lemma read_str16_inverse:
  assumes "fits pre s" "read_str16 (rd_at pre s) = Ok (v, r)"
  obtains t where "s = str16 v @ t" "r = rd_at (pre @ str16 v) t" "fits_u16 v"
proof -
  obtain b r1 where b: "take_bytes 2 (rd_at pre s) = Ok (b, r1)"
    and v: "take_bytes (unat (u16_from_be b)) r1 = Ok (v, r)"
    using assms(2) by (auto simp: read_str16_def rd_bind_eq_Ok read_u16_takes)
  have tb: "s = w @ drop n s \<and> q = rd_at (p @ w) (drop n s) \<and> length w = n" if "fits p s" "take_bytes n (rd_at p s) = Ok (w, q)" for p s n w q
  proof -
    from that(2) have n: "n \<le> length s" by (auto simp: take_bytes_def rd_at_def Let_def split: if_splits)
    then have "take_bytes n (rd_at p (take n s @ drop n s)) = Ok (take n s, rd_at (p @ take n s) (drop n s))"
      using that(1) by (intro take_bytes_at) simp_all
    with that(2) n show ?thesis by auto
  qed
  note one = tb [OF assms(1) b]
  then have "fits (pre @ b) (drop 2 s)" using assms(1) by (metis append.assoc)
  from tb [OF this, of "unat (u16_from_be b)" v r] v one have v': "drop 2 s = v @ drop (length v) (drop 2 s)"
    "r = rd_at ((pre @ b) @ v) (drop (length v) (drop 2 s))" "length v = unat (u16_from_be b)" by auto
  have "u16_to_be (of_nat (length v)) = b" using v'(3) one by (simp add: u16_to_from_be)
  then have "s = str16 v @ drop (length v) (drop 2 s)" "r = rd_at (pre @ str16 v) (drop (length v) (drop 2 s))"
    using one v' by (simp_all add: str16_def)
  moreover have "fits_u16 v" using v'(3) unat_less_p2 [of "u16_from_be b"] by (simp add: fits_u16_def)
  ultimately show thesis by (rule that)
qed

end
