(* ===== verification/Knock.thy ===== *)
theory Knock
  imports KnockWire "HOL-Library.AList" "HOL-Library.Product_Lexorder"
begin

text \<open>
  The server half of port knocking, src/src/knock/state.rs: token buckets, the cache of users' keys, the
  state of each pair of user and key, the handling of one datagram and the completion of an accepted
  knock. Time is an argument in milliseconds. A \<open>HashMap\<close> is an association list whose order stands
  for the order of iteration, which decides between equals only. The key source, code of the caller, answers
  through \<open>key_source\<close>, which may differ from call to call; curve, hashes and signatures are arguments.
\<close>

record knock_config =
  clock_skew_ms :: u64
  window_secs :: "16 word"
  max_pending :: u32
  knock_burst :: u32
  knock_refill_ms :: u64
  newsig1_burst :: u32
  newsig1_refill_ms :: u64
  verify_per_sec :: u32
  max_prefixes_per_key :: nat
  newprefix_burst :: u32
  newprefix_refill_ms :: u64
  sig1_cache_size :: nat
  key_cache_ttl_ms :: u64
  key_cache_users :: nat
  key_lookups_per_sec :: u32
  key_lookups_prefix_burst :: u32
  key_lookups_prefix_refill_ms :: u64
  key_lookup_prefixes :: nat

definition default_knock_config :: knock_config where
  "default_knock_config =
     \<lparr>clock_skew_ms = 30000, window_secs = 60, max_pending = 2, knock_burst = 5, knock_refill_ms = 10000,
      newsig1_burst = 3, newsig1_refill_ms = 60000, verify_per_sec = 1000, max_prefixes_per_key = 64,
      newprefix_burst = 10, newprefix_refill_ms = 1000, sig1_cache_size = 4, key_cache_ttl_ms = 60000,
      key_cache_users = 4096, key_lookups_per_sec = 50, key_lookups_prefix_burst = 10,
      key_lookups_prefix_refill_ms = 200, key_lookup_prefixes = 1024\<rparr>"

record key_source =
  src_keys_for :: "rust_str \<Rightarrow> bytes list"
  src_may_knock :: "rust_str \<Rightarrow> bool"

section \<open>The static table\<close>

type_synonym key_table = "(rust_str \<times> (bytes \<times> bytes) list) list"

definition key_table_insert :: "sig_prims \<Rightarrow> rust_str \<Rightarrow> bytes \<Rightarrow> key_table \<Rightarrow> key_table \<times> bool" where
  "key_table_insert P user key_blob t =
     (if user = [] \<or> length user > MAX_USER_LEN then (t, False)
      else if max_sig_blob_len key_blob = None then (t, False)
      else (AList.update user (AList.update (key_fp P key_blob) key_blob (case map_of t user of Some ks \<Rightarrow> ks | None \<Rightarrow> [])) t, True))"

definition key_table_source :: "key_table \<Rightarrow> key_source" where
  "key_table_source t =
     \<lparr>src_keys_for = (\<lambda>user. case map_of t user of Some ks \<Rightarrow> map snd ks | None \<Rightarrow> []),
      src_may_knock = (\<lambda>user. map_of t user \<noteq> None)\<rparr>"

section \<open>Buckets\<close>

record bucket =
  b_tokens :: u32
  b_burst :: u32
  b_refill_ms :: u64
  b_last_ms :: u64

definition bucket_new :: "u32 \<Rightarrow> u64 \<Rightarrow> u64 \<Rightarrow> bucket" where
  "bucket_new burst refill_ms now = \<lparr>b_tokens = burst, b_burst = burst, b_refill_ms = max refill_ms 1, b_last_ms = now\<rparr>"

definition bucket_with_tokens :: "u32 \<Rightarrow> u64 \<Rightarrow> u64 \<Rightarrow> u32 \<Rightarrow> bucket" where
  "bucket_with_tokens burst refill_ms now tokens = (bucket_new burst refill_ms now)\<lparr>b_tokens := min tokens burst\<rparr>"

definition bucket_refill :: "u64 \<Rightarrow> bucket \<Rightarrow> bucket" where
  "bucket_refill now b =
     (if now > b_last_ms b then
        let gained = (now - b_last_ms b) div b_refill_ms b;
            b = (if gained > 0
                 then b\<lparr>b_tokens := ucast (min (ucast (b_tokens b) + gained) (ucast (b_burst b) :: u64)),
                        b_last_ms := b_last_ms b + gained * b_refill_ms b\<rparr>
                 else b)
        in if b_tokens b = b_burst b then b\<lparr>b_last_ms := now\<rparr> else b
      else b)"

definition bucket_take :: "u64 \<Rightarrow> bucket \<Rightarrow> bool \<times> bucket" where
  "bucket_take now b =
     (let b = bucket_refill now b in
      if b_tokens b > 0 then (True, b\<lparr>b_tokens := b_tokens b - 1\<rparr>) else (False, b))"

section \<open>Addresses\<close>

datatype ip_addr = IpV4 bytes | IpV6 bytes

definition to_canonical :: "ip_addr \<Rightarrow> ip_addr" where
  "to_canonical ip =
     (case ip of
        IpV6 o6 \<Rightarrow> if take 12 o6 = replicate 10 0 @ [0xFF, 0xFF] then IpV4 (drop 12 o6) else ip
      | _ \<Rightarrow> ip)"

definition source_prefix :: "ip_addr \<Rightarrow> bytes" where
  "source_prefix ip = (case to_canonical ip of IpV4 o4 \<Rightarrow> [4, 0, 0, 0] @ o4 | IpV6 o6 \<Rightarrow> take 8 o6)"

section \<open>State\<close>

record prefix_slot =
  ps_prefix :: bytes
  ps_bucket :: bucket
  ps_last_used :: u64
  ps_good :: bool

record knock_entry =
  ke_sig1_cache :: "bytes list"
  ke_newsig1 :: bucket
  ke_newprefix :: bucket
  ke_last_nonce :: u64
  ke_last_knock_hash :: bytes
  ke_last_accept :: "(bytes \<times> u64) option"
  ke_knock_buckets :: "prefix_slot list"
  ke_pending :: u32

datatype drop_reason = DMalformed | DUnknownKey | DClock | DBadSig1 | DBadSig2 | DReplay | DRateLimited | DTooManyPending | DNoHostKey

record pending_accept =
  pa_user :: rust_str
  pa_key_fp :: bytes
  pa_knock_hash :: bytes
  pa_host_key :: nat
  pa_full_hostkey :: bool
  pa_eph_c :: bytes
  pa_knock_len :: nat

datatype knock_verdict = VDrop drop_reason | VResend bytes | VAccept pending_accept

record completed_accept =
  ca_datagram :: bytes
  ca_token :: bytes
  ca_host_key_blob :: bytes

record cached_keys =
  ck_loaded_ms :: u64
  ck_keys :: "(bytes \<times> bytes) list"

record 'k knock_state =
  kn_cfg :: knock_config
  kn_key_cache :: "(rust_str \<times> cached_keys) list"
  kn_entries :: "((rust_str \<times> bytes) \<times> knock_entry) list"
  kn_host_keys :: "('k \<times> bytes \<times> bytes) list"
  kn_verify :: bucket
  kn_lookups :: bucket
  kn_prefix_lookups :: "(bytes \<times> (bucket \<times> u64)) list"
  kn_nonce_floor :: u64

definition host_key_rank :: "bytes \<Rightarrow> nat" where
  "host_key_rank blob =
     (case key_alg_of blob of
        Ok n \<Rightarrow> if n = lit ''ssh-ed25519'' then 0 else if str_starts_with n (lit ''ecdsa-'') then 1 else 2
      | _ \<Rightarrow> 2)"

text \<open>\<open>Bucket::new\<close> for a rate in events per second.\<close>

definition per_second :: "u32 \<Rightarrow> u64 \<Rightarrow> bucket" where
  "per_second rate now = bucket_new (max rate 1) (max (1000 div ucast (max rate 1)) 1) now"

definition knock_state_new :: "sig_prims \<Rightarrow> 'k host_key_ops \<Rightarrow> knock_config \<Rightarrow> 'k list \<Rightarrow> u64 \<Rightarrow> 'k knock_state" where
  "knock_state_new P K cfg host_keys now =
     \<lparr>kn_cfg = cfg, kn_key_cache = [], kn_entries = [],
      kn_host_keys = sort_key (\<lambda>(_, blob, _). host_key_rank blob)
        (List.map_filter (\<lambda>k. let blob = hk_public_blob K k in
           case max_sig_blob_len blob of None \<Rightarrow> None | Some _ \<Rightarrow> Some (k, blob, key_fp P blob)) host_keys),
      kn_verify = per_second (verify_per_sec cfg) now, kn_lookups = per_second (key_lookups_per_sec cfg) now,
      kn_prefix_lookups = [], kn_nonce_floor = now\<rparr>"

text \<open>\<open>set_key_source\<close> and \<open>invalidate_keys\<close>: cached keys are forgotten. The source itself is an argument here.\<close>

definition invalidate_keys :: "rust_str option \<Rightarrow> 'k knock_state \<Rightarrow> 'k knock_state" where
  "invalidate_keys user st =
     st\<lparr>kn_key_cache := (case user of Some u \<Rightarrow> AList.delete u (kn_key_cache st) | None \<Rightarrow> [])\<rparr>"

definition set_key_source :: "'k knock_state \<Rightarrow> 'k knock_state" where
  "set_key_source st = st\<lparr>kn_key_cache := []\<rparr>"

text \<open>\<open>iter().min_by_key(f)\<close>: the first of the least elements.\<close>

fun min_by_key :: "('a \<Rightarrow> 'b :: linorder) \<Rightarrow> 'a list \<Rightarrow> 'a option" where
  "min_by_key f [] = None"
| "min_by_key f (x # xs) = (case min_by_key f xs of None \<Rightarrow> Some x | Some y \<Rightarrow> if f y < f x then Some y else Some x)"

definition take_prefix_lookup :: "ip_addr \<Rightarrow> u64 \<Rightarrow> 'k knock_state \<Rightarrow> bool \<times> 'k knock_state" where
  "take_prefix_lookup src now st =
     (let prefix = source_prefix src; cfg = kn_cfg st; table = kn_prefix_lookups st;
          (b, table) =
            (case map_of table prefix of
               Some (b, used) \<Rightarrow> (b, table)
             | None \<Rightarrow>
                 (let full = length table \<ge> max (key_lookup_prefixes cfg) 1;
                      table = (if full then (case min_by_key (\<lambda>(_, (_, used)). used) table of
                                               Some (p, _) \<Rightarrow> AList.delete p table | None \<Rightarrow> table)
                               else table);
                      tokens = (if full then 1 else key_lookups_prefix_burst cfg)
                  in (bucket_with_tokens (key_lookups_prefix_burst cfg) (key_lookups_prefix_refill_ms cfg) now tokens, table)));
          (ok, b) = bucket_take now b
      in (ok, st\<lparr>kn_prefix_lookups := AList.update prefix (b, now) table\<rparr>))"

definition take_lookups :: "u64 \<Rightarrow> 'k knock_state \<Rightarrow> bool \<times> 'k knock_state" where
  "take_lookups now st = (let (ok, b) = bucket_take now (kn_lookups st) in (ok, st\<lparr>kn_lookups := b\<rparr>))"

definition take_verify :: "u64 \<Rightarrow> 'k knock_state \<Rightarrow> bool \<times> 'k knock_state" where
  "take_verify now st = (let (ok, b) = bucket_take now (kn_verify st) in (ok, st\<lparr>kn_verify := b\<rparr>))"

definition usable_keys :: "sig_prims \<Rightarrow> bytes list \<Rightarrow> (bytes \<times> bytes) list" where
  "usable_keys P blobs = fold (\<lambda>b m. AList.update (key_fp P b) b m) (filter (\<lambda>b. max_sig_blob_len b \<noteq> None) blobs) []"

text \<open>The rest of \<open>load_user_keys\<close> once a lookup is granted: make room, ask, forget what is gone, store.\<close>

definition refresh_user_keys :: "sig_prims \<Rightarrow> key_source \<Rightarrow> rust_str \<Rightarrow> u64 \<Rightarrow> 'k knock_state \<Rightarrow> 'k knock_state" where
  "refresh_user_keys P S user now st =
     (let cache = kn_key_cache st;
          cache = (if map_of cache user = None \<and> length cache \<ge> max (key_cache_users (kn_cfg st)) 1
                   then (case min_by_key (\<lambda>(_, c). (ck_keys c \<noteq> [], ck_loaded_ms c)) cache of
                           Some (v, _) \<Rightarrow> AList.delete v cache | None \<Rightarrow> cache)
                   else cache);
          keys = usable_keys P (src_keys_for S user)
      in st\<lparr>kn_entries := filter (\<lambda>((u, fp), _). u \<noteq> user \<or> map_of keys fp \<noteq> None) (kn_entries st),
            kn_key_cache := AList.update user \<lparr>ck_loaded_ms = now, ck_keys = keys\<rparr> cache\<rparr>)"

definition load_user_keys :: "sig_prims \<Rightarrow> key_source \<Rightarrow> rust_str \<Rightarrow> ip_addr \<Rightarrow> u64 \<Rightarrow> 'k knock_state \<Rightarrow> bool \<times> 'k knock_state" where
  "load_user_keys P S user src now st =
     (let cached = map_of (kn_key_cache st) user in
      if (case cached of Some c \<Rightarrow> now \<ge> ck_loaded_ms c \<and> now - ck_loaded_ms c < key_cache_ttl_ms (kn_cfg st) | None \<Rightarrow> False)
      then (True, st)
      else if \<not> src_may_knock S user then
        (True, if cached = None then st
               else st\<lparr>kn_key_cache := AList.delete user (kn_key_cache st),
                       kn_entries := filter (\<lambda>((u, _), _). u \<noteq> user) (kn_entries st)\<rparr>)
      else
        (let (ok, st) = take_prefix_lookup src now st in
         if \<not> ok then (cached \<noteq> None, st)
         else let (ok, st) = take_lookups now st in
              if \<not> ok then (cached \<noteq> None, st)
              else (True, refresh_user_keys P S user now st)))"

section \<open>One datagram\<close>

definition knock_entry_new :: "knock_config \<Rightarrow> u64 \<Rightarrow> knock_entry" where
  "knock_entry_new cfg now =
     \<lparr>ke_sig1_cache = [], ke_newsig1 = bucket_new (newsig1_burst cfg) (newsig1_refill_ms cfg) now,
      ke_newprefix = bucket_new (newprefix_burst cfg) (newprefix_refill_ms cfg) now, ke_last_nonce = 0,
      ke_last_knock_hash = replicate 32 0, ke_last_accept = None, ke_knock_buckets = [], ke_pending = 0\<rparr>"

fun position :: "('a \<Rightarrow> bool) \<Rightarrow> 'a list \<Rightarrow> nat option" where
  "position p [] = None"
| "position p (x # xs) = (if p x then Some 0 else map_option Suc (position p xs))"

text \<open>\<open>Vec::swap_remove\<close>: the last element takes the place of the one removed.\<close>

definition swap_remove :: "nat \<Rightarrow> 'a list \<Rightarrow> 'a list" where
  "swap_remove i xs = (if i = length xs - 1 then butlast xs else (butlast xs)[i := last xs])"

definition take_knock_bucket :: "knock_config \<Rightarrow> ip_addr \<Rightarrow> u64 \<Rightarrow> knock_entry \<Rightarrow> (bool \<times> nat) \<times> knock_entry" where
  "take_knock_bucket cfg src now e =
     (let prefix = source_prefix src; slots = ke_knock_buckets e;
          (idx, slots) =
            (case position (\<lambda>s. ps_prefix s = prefix) slots of
               Some i \<Rightarrow> (i, slots)
             | None \<Rightarrow>
                 (let full = length slots \<ge> max (max_prefixes_per_key cfg) 1;
                      lru = (case min_by_key (\<lambda>(_, s). (ps_good s, ps_last_used s)) (zip [0..<length slots] slots) of
                               Some (i, _) \<Rightarrow> i | None \<Rightarrow> 0);
                      slots = (if full then swap_remove lru slots else slots);
                      tokens = (if full then 2 else knock_burst cfg)
                  in (length slots, slots @ [\<lparr>ps_prefix = prefix,
                        ps_bucket = bucket_with_tokens (knock_burst cfg) (knock_refill_ms cfg) now tokens,
                        ps_last_used = now, ps_good = False\<rparr>])));
          slot = slots ! idx;
          (ok, b) = bucket_take now (ps_bucket slot)
      in ((ok, idx), e\<lparr>ke_knock_buckets := slots[idx := slot\<lparr>ps_last_used := now, ps_bucket := b\<rparr>]\<rparr>))"

definition abs_diff :: "u64 \<Rightarrow> u64 \<Rightarrow> u64" where
  "abs_diff a b = (if a < b then b - a else a - b)"

text \<open>Step 4: sig1 is in the cache, or it is verified and put there. The answer is a reason to drop the knock, if any.\<close>

definition knock_sig1 :: "sig_prims \<Rightarrow> bool \<Rightarrow> knock \<Rightarrow> bytes \<Rightarrow> u64 \<Rightarrow> knock_entry \<Rightarrow> 'k knock_state \<Rightarrow>
    (knock_entry \<times> 'k knock_state) \<times> drop_reason option res" where
  "knock_sig1 P sha1 k key_blob now e st =
     (case position (\<lambda>s. s = k_sig1 k) (ke_sig1_cache e) of
        Some pos \<Rightarrow>
          (let c = ke_sig1_cache e in ((e\<lparr>ke_sig1_cache := c ! pos # take pos c @ drop (Suc pos) c\<rparr>, st), Ok None))
      | None \<Rightarrow>
          (let (ok, b) = bucket_take now (ke_newsig1 e); e = e\<lparr>ke_newsig1 := b\<rparr> in
           if \<not> ok then ((e, st), Ok (Some DRateLimited))
           else let (ok, st) = take_verify now st in
                if \<not> ok then ((e, st), Ok (Some DRateLimited))
                else case knock_verify P sha1 key_blob NS_KNOCK_ID (knock_id_message (k_user k) (k_key_fp k)) (k_sig1 k) of
                       Ok _ \<Rightarrow> ((e\<lparr>ke_sig1_cache := take (max (sig1_cache_size (kn_cfg st)) 1) (k_sig1 k # ke_sig1_cache e)\<rparr>, st), Ok None)
                     | Err _ \<Rightarrow> ((e, st), Ok (Some DBadSig1))
                     | Panic \<Rightarrow> ((e, st), Panic)))"

text \<open>Steps 9 to 11: the nonce is used up, then the cap and the choice of a host key whose ACCEPT is no longer than the KNOCK.\<close>

definition fits_knock :: "bytes \<Rightarrow> bool \<Rightarrow> bytes \<Rightarrow> bool" where
  "fits_knock blob need_full datagram = (case accept_len_bound blob need_full of Some n \<Rightarrow> n \<le> length datagram | None \<Rightarrow> False)"

definition consume_nonce :: "sig_prims \<Rightarrow> knock \<Rightarrow> bytes \<Rightarrow> nat \<Rightarrow> knock_entry \<Rightarrow> 'k knock_state \<Rightarrow> knock_entry \<times> knock_verdict" where
  "consume_nonce P k datagram slot e st =
     (let slots = ke_knock_buckets e;
          e = e\<lparr>ke_knock_buckets := slots[slot := (slots ! slot)\<lparr>ps_good := True\<rparr>], ke_last_nonce := k_nonce k,
                ke_last_knock_hash := knock_hash P datagram, ke_last_accept := None\<rparr> in
      if ke_pending e \<ge> max_pending (kn_cfg st) then (e, VDrop DTooManyPending)
      else let need_full = (k_flags k AND FLAG_NEED_HOSTKEY \<noteq> 0);
               chosen = (if need_full then position (\<lambda>(_, blob, _). fits_knock blob need_full datagram) (kn_host_keys st)
                         else position (\<lambda>(_, blob, fp). fp = k_host_fp k \<and> fits_knock blob need_full datagram) (kn_host_keys st))
           in case chosen of
                None \<Rightarrow> (e, VDrop DNoHostKey)
              | Some host_key \<Rightarrow>
                  (e\<lparr>ke_pending := ke_pending e + 1\<rparr>,
                   VAccept \<lparr>pa_user = k_user k, pa_key_fp = k_key_fp k, pa_knock_hash = knock_hash P datagram, pa_host_key = host_key,
                     pa_full_hostkey = need_full, pa_eph_c = k_eph_c k, pa_knock_len = length datagram\<rparr>))"

text \<open>Steps 7 and 8: the limits, and sig2 over the whole knock.\<close>

definition fresh_knock :: "sig_prims \<Rightarrow> bool \<Rightarrow> knock \<Rightarrow> bytes \<Rightarrow> bytes \<Rightarrow> ip_addr \<Rightarrow> u64 \<Rightarrow> knock_entry \<Rightarrow> 'k knock_state \<Rightarrow>
    (knock_entry \<times> 'k knock_state) \<times> knock_verdict res" where
  "fresh_knock P sha1 k key_blob datagram src now e st =
     (let ((ok, slot), e) = take_knock_bucket (kn_cfg st) src now e;
          good = ps_good (ke_knock_buckets e ! slot) in
      if \<not> ok then ((e, st), Ok (VDrop DRateLimited))
      else let (ok, e) = (if good then (True, e) else let (ok, b) = bucket_take now (ke_newprefix e) in (ok, e\<lparr>ke_newprefix := b\<rparr>)) in
           if \<not> ok then ((e, st), Ok (VDrop DRateLimited))
           else let (ok, st) = take_verify now st in
                if \<not> ok then ((e, st), Ok (VDrop DRateLimited))
                else case knock_verify P sha1 key_blob NS_KNOCK (k_signed k) (k_sig2 k) of
                       Ok _ \<Rightarrow> (let (e, v) = consume_nonce P k datagram slot e st in ((e, st), Ok v))
                     | Err _ \<Rightarrow> ((e, st), Ok (VDrop DBadSig2))
                     | Panic \<Rightarrow> ((e, st), Panic))"

text \<open>Steps 5 and 6: a repetition gets the answer of the first time, an old knock none.\<close>

definition signed_knock :: "sig_prims \<Rightarrow> bool \<Rightarrow> knock \<Rightarrow> bytes \<Rightarrow> bytes \<Rightarrow> ip_addr \<Rightarrow> u64 \<Rightarrow> knock_entry \<Rightarrow> 'k knock_state \<Rightarrow>
    (knock_entry \<times> 'k knock_state) \<times> knock_verdict res" where
  "signed_knock P sha1 k key_blob datagram src now e st =
     (if k_nonce k = ke_last_nonce e \<and> knock_hash P datagram = ke_last_knock_hash e then
        (case ke_last_accept e of
           Some (accept, expiry) \<Rightarrow>
             if now < expiry then
               (let ((ok, _), e) = take_knock_bucket (kn_cfg st) src now e
                in ((e, st), Ok (if ok then VResend accept else VDrop DRateLimited)))
             else ((e, st), Ok (VDrop DReplay))
         | None \<Rightarrow> ((e, st), Ok (VDrop DReplay)))
      else if k_nonce k \<le> ke_last_nonce e \<or> k_nonce k < kn_nonce_floor st then ((e, st), Ok (VDrop DReplay))
      else fresh_knock P sha1 k key_blob datagram src now e st)"

definition known_knock :: "sig_prims \<Rightarrow> bool \<Rightarrow> knock \<Rightarrow> bytes \<Rightarrow> bytes \<Rightarrow> ip_addr \<Rightarrow> u64 \<Rightarrow> knock_entry \<Rightarrow> 'k knock_state \<Rightarrow>
    (knock_entry \<times> 'k knock_state) \<times> knock_verdict res" where
  "known_knock P sha1 k key_blob datagram src now e st =
     (case knock_sig1 P sha1 k key_blob now e st of
        ((e, st), Ok None) \<Rightarrow> signed_knock P sha1 k key_blob datagram src now e st
      | ((e, st), Ok (Some d)) \<Rightarrow> ((e, st), Ok (VDrop d))
      | ((e, st), Err x) \<Rightarrow> ((e, st), Err x)
      | ((e, st), Panic) \<Rightarrow> ((e, st), Panic))"

definition knock_handle :: "sig_prims \<Rightarrow> bool \<Rightarrow> key_source \<Rightarrow> u64 \<Rightarrow> ip_addr \<Rightarrow> bytes \<Rightarrow> 'k knock_state \<Rightarrow>
    'k knock_state \<times> knock_verdict res" where
  "knock_handle P sha1 S now src datagram st =
     (case knock_parse datagram of
        Err _ \<Rightarrow> (st, Ok (VDrop DMalformed))
      | Panic \<Rightarrow> (st, Panic)
      | Ok k \<Rightarrow>
          if abs_diff (k_nonce k) now > clock_skew_ms (kn_cfg st) then (st, Ok (VDrop DClock))
          else let (ok, st) = load_user_keys P S (k_user k) src now st in
            if \<not> ok then (st, Ok (VDrop DRateLimited))
            else case Option.bind (map_of (kn_key_cache st) (k_user k)) (\<lambda>c. map_of (ck_keys c) (k_key_fp k)) of
                   None \<Rightarrow> (st, Ok (VDrop DUnknownKey))
                 | Some key_blob \<Rightarrow>
                     (let key = (k_user k, k_key_fp k);
                          e = (case map_of (kn_entries st) key of Some e \<Rightarrow> e | None \<Rightarrow> knock_entry_new (kn_cfg st) now);
                          ((e, st), v) = known_knock P sha1 k key_blob datagram src now e st
                      in (st\<lparr>kn_entries := AList.update key e (kn_entries st)\<rparr>, v)))"

section \<open>Completion\<close>

definition change_entry :: "rust_str \<times> bytes \<Rightarrow> (knock_entry \<Rightarrow> knock_entry) \<Rightarrow> 'k knock_state \<Rightarrow> 'k knock_state" where
  "change_entry key f st =
     (case map_of (kn_entries st) key of
        Some e \<Rightarrow> st\<lparr>kn_entries := AList.update key (f e) (kn_entries st)\<rparr>
      | None \<Rightarrow> st)"

text \<open>\<open>saturating_sub(1)\<close>\<close>

definition release_pending :: "rust_str \<Rightarrow> bytes \<Rightarrow> 'k knock_state \<Rightarrow> 'k knock_state" where
  "release_pending user fp = change_entry (user, fp) (\<lambda>e. e\<lparr>ke_pending := (if ke_pending e = 0 then 0 else ke_pending e - 1)\<rparr>)"

definition complete_inner :: "sig_prims \<Rightarrow> 'k host_key_ops \<Rightarrow> ('r, 'g) kex_prims \<Rightarrow> (bytes \<Rightarrow> bytes \<Rightarrow> bytes \<Rightarrow> nat \<Rightarrow> bytes) \<Rightarrow>
    pending_accept \<Rightarrow> 16 word \<Rightarrow> u64 \<Rightarrow> 'k knock_state \<Rightarrow> 'r \<Rightarrow> ('k knock_state \<times> 'r) \<times> completed_accept res" where
  "complete_inner P K X hkdf pending port now st rng =
     (if pa_host_key pending \<ge> length (kn_host_keys st) then ((st, rng), Err (Config ''knock: host key index''))
      else let (host_key, blob, _) = kn_host_keys st ! pa_host_key pending;
               (secret, rng) = x_generate X rng;
               eph_s = x_public X secret in
           case x_dh X secret (pa_eph_c pending) of
             None \<Rightarrow> ((st, rng), Err (Crypto ''knock: small-order client ephemeral''))
           | Some shared \<Rightarrow>
               (let window = max (window_secs (kn_cfg st)) 1 in
                case build_accept P K host_key (pa_knock_hash pending) eph_s port window (pa_full_hostkey pending) of
                  Err e \<Rightarrow> ((st, rng), Err e)
                | Panic \<Rightarrow> ((st, rng), Panic)
                | Ok datagram \<Rightarrow>
                    if length datagram > pa_knock_len pending then ((st, rng), Err (Protocol ''knock: ACCEPT larger than KNOCK''))
                    else let st = change_entry (pa_user pending, pa_key_fp pending)
                               (\<lambda>e. if ke_last_knock_hash e = pa_knock_hash pending
                                    then e\<lparr>ke_last_accept := Some (datagram, now + ucast window * 1000)\<rparr> else e) st
                         in ((st, rng), Ok \<lparr>ca_datagram = datagram,
                               ca_token = open_token hkdf shared (pa_knock_hash pending) eph_s port, ca_host_key_blob = blob\<rparr>)))"

definition knock_complete :: "sig_prims \<Rightarrow> 'k host_key_ops \<Rightarrow> ('r, 'g) kex_prims \<Rightarrow> (bytes \<Rightarrow> bytes \<Rightarrow> bytes \<Rightarrow> nat \<Rightarrow> bytes) \<Rightarrow>
    pending_accept \<Rightarrow> 16 word \<Rightarrow> u64 \<Rightarrow> 'k knock_state \<Rightarrow> 'r \<Rightarrow> ('k knock_state \<times> 'r) \<times> completed_accept res" where
  "knock_complete P K X hkdf pending port now st rng =
     (let ((st, rng), res) = complete_inner P K X hkdf pending port now st rng in
      case res of
        Err e \<Rightarrow> ((release_pending (pa_user pending) (pa_key_fp pending) st, rng), Err e)
      | r \<Rightarrow> ((st, rng), r))"

end
