(* ===== verification/KnockProps.thy ===== *)
theory KnockProps
  imports Knock CertProps
begin

text \<open>
  Port knocking: a token bucket grants no more than its rate, a signature covers the whole knock, an
  accepted knock is authentic, and no knock is accepted twice.
\<close>

section \<open>Rates\<close>

text \<open>How many of a sequence of requests, at the given times, a bucket grants.\<close>

fun granted :: "u64 list \<Rightarrow> bucket \<Rightarrow> nat" where
  "granted [] b = 0"
| "granted (now # ts) b = (let (ok, b) = bucket_take now b in (if ok then 1 else 0) + granted ts b)"

text \<open>What a bucket can still grant up to the time \<open>T\<close>.\<close>

definition credit :: "u64 \<Rightarrow> bucket \<Rightarrow> nat" where
  "credit T b = unat (b_tokens b) + unat ((T - b_last_ms b) div b_refill_ms b)"

definition bucket_ok :: "u64 \<Rightarrow> bucket \<Rightarrow> bool" where
  "bucket_ok T b \<longleftrightarrow> b_tokens b \<le> b_burst b \<and> 0 < b_refill_ms b \<and> b_last_ms b \<le> T \<and> unat T < 2 ^ 63"

lemma credit_nat: "bucket_ok T b \<Longrightarrow> credit T b = unat (b_tokens b) + (unat T - unat (b_last_ms b)) div unat (b_refill_ms b)"
  by (simp add: credit_def bucket_ok_def unat_div unat_sub)

lemma unat_ucast_32: "unat (ucast (x :: u32) :: u64) = unat x"
  using unat_less_p2 [of x] by (simp add: unsigned_ucast_eq take_bit_nat_eq_self)

lemma unat_down_32: "unat (y :: u64) < 2 ^ 32 \<Longrightarrow> unat (ucast y :: u32) = unat y"
  by (simp add: unsigned_ucast_eq take_bit_nat_eq_self)

text \<open>The refill in natural numbers: no operation of it wraps.\<close>

lemma refill_tokens:
  assumes "unat gained < 2 ^ 63"
  shows "unat (ucast (min (ucast (t :: u32) + gained) (ucast burst :: u64)) :: u32) = min (unat t + unat gained) (unat (burst :: u32))"
proof -
  have t: "unat t < 2 ^ 32" "unat burst < 2 ^ 32" using unat_less_p2 [of t] unat_less_p2 [of burst] by simp_all
  then have "unat (ucast t + gained :: u64) = unat t + unat gained"
    using assms by (simp add: unat_word_ariths unat_ucast_32)
  then have "unat (min (ucast t + gained) (ucast burst :: u64)) = min (unat t + unat gained) (unat burst)"
    by (simp add: min_def word_le_nat_alt unat_ucast_32)
  with t(2) show ?thesis by (simp add: unat_down_32)
qed

lemma refill_clock:
  assumes "l \<le> now" "0 < r" "gained = (now - l) div r"
  shows "unat (l + gained * r) = unat l + unat gained * unat r" "unat l + unat gained * unat r \<le> unat (now :: u64)"
proof -
  have "unat gained = (unat now - unat l) div unat r" using assms by (simp add: unat_div unat_sub)
  then have "unat gained * unat r \<le> unat now - unat l" by simp
  moreover have "unat l \<le> unat now" using assms(1) by (simp add: word_le_nat_alt)
  ultimately show le: "unat l + unat gained * unat r \<le> unat now" by simp
  then have "unat l + unat gained * unat r < 2 ^ 64" using unat_less_p2 [of now] by simp
  moreover from this have "unat (gained * r) = unat gained * unat r" by (simp add: unat_word_ariths)
  ultimately show "unat (l + gained * r) = unat l + unat gained * unat r" by (simp add: unat_word_ariths)
qed

lemma refill_credit:
  assumes "bucket_ok T b" "now \<le> T"
  shows "bucket_ok T (bucket_refill now b) \<and> credit T (bucket_refill now b) \<le> credit T b"
proof (cases "now > b_last_ms b")
  case True
  let ?r = "b_refill_ms b" and ?l = "b_last_ms b"
  define g where "g = (now - ?l) div ?r"
  define b1 where "b1 = (if g > 0 then b\<lparr>b_tokens := ucast (min (ucast (b_tokens b) + g) (ucast (b_burst b) :: u64)), b_last_ms := ?l + g * ?r\<rparr> else b)"
  have r: "0 < ?r" "?l \<le> now" "unat now \<le> unat T" "unat T < 2 ^ 63" "?l \<le> T"
    using assms True by (simp_all add: bucket_ok_def word_le_nat_alt word_less_nat_alt)
  note clock = refill_clock [OF r(2,1) g_def]
  have "unat g = (unat now - unat ?l) div unat ?r" using r(2) by (simp add: g_def unat_div unat_sub)
  then have "unat g \<le> unat now" using div_le_dividend [of "unat now - unat ?l" "unat ?r"] by linarith
  then have "unat g < 2 ^ 63" using r(3,4) by linarith
  note tokens = refill_tokens [OF this, of "b_tokens b" "b_burst b"]
  have l1: "unat (b_last_ms b1) = unat ?l + unat g * unat ?r" "unat (b_tokens b1) \<le> unat (b_tokens b) + unat g"
    "b_tokens b1 \<le> b_burst b1" "b_refill_ms b1 = ?r" "b_burst b1 = b_burst b"
    using clock(1) tokens assms(1) unat_gt_0 [of g]
    by (auto simp: b1_def word_le_nat_alt bucket_ok_def word_gt_0)
  then have last1: "b_last_ms b1 \<le> now" using clock(2) by (simp add: word_le_nat_alt)
  then have ok1: "bucket_ok T b1" using l1 assms r by (auto simp: bucket_ok_def)
  have "unat T - unat ?l = unat g * unat ?r + (unat T - unat (b_last_ms b1))" using l1(1) clock(2) r(3) by simp
  then have "(unat T - unat ?l) div unat ?r = unat g + (unat T - unat (b_last_ms b1)) div unat ?r"
    using r(1) by (simp add: word_less_nat_alt)
  then have c1: "credit T b1 \<le> credit T b" using l1 by (simp add: credit_nat [OF ok1] credit_nat [OF assms(1)])
  define b2 where "b2 = (if b_tokens b1 = b_burst b1 then b1\<lparr>b_last_ms := now\<rparr> else b1)"
  have ok2: "bucket_ok T b2" using ok1 assms(2) by (simp add: b2_def bucket_ok_def)
  have "unat (b_last_ms b1) \<le> unat (b_last_ms b2)" using last1 by (simp add: b2_def word_le_nat_alt)
  then have "(unat T - unat (b_last_ms b2)) div unat ?r \<le> (unat T - unat (b_last_ms b1)) div unat ?r"
    by (intro div_le_mono diff_le_mono2)
  moreover have "b_refill_ms b2 = ?r" "b_tokens b2 = b_tokens b1" using l1 by (simp_all add: b2_def)
  ultimately have "credit T b2 \<le> credit T b1" using l1 by (simp add: credit_nat [OF ok1] credit_nat [OF ok2])
  moreover have "bucket_refill now b = b2" using True by (simp add: bucket_refill_def b2_def b1_def g_def Let_def)
  ultimately show ?thesis using c1 ok2 by simp
qed (use assms in \<open>simp add: bucket_refill_def\<close>)

lemma take_credit:
  assumes "bucket_ok T b" "now \<le> T" "bucket_take now b = (ok, b')"
  shows "bucket_ok T b' \<and> (if ok then 1 else 0) + credit T b' \<le> credit T b"
proof -
  note r = refill_credit [OF assms(1,2)]
  let ?b = "bucket_refill now b"
  show ?thesis
  proof (cases "b_tokens ?b > 0")
    case True
    then have t: "unat (b_tokens ?b - 1) = unat (b_tokens ?b) - 1" "0 < unat (b_tokens ?b)"
      by (simp_all add: unat_sub word_le_nat_alt word_less_nat_alt)
    moreover have "unat (b_tokens ?b) \<le> unat (b_burst ?b)" using r by (simp add: bucket_ok_def word_le_nat_alt)
    ultimately have "b_tokens ?b - 1 \<le> b_burst ?b" unfolding word_le_nat_alt by linarith
    moreover have "ok" "b' = ?b\<lparr>b_tokens := b_tokens ?b - 1\<rparr>" using assms(3) True by (auto simp: bucket_take_def Let_def)
    ultimately show ?thesis using r t by (simp add: bucket_ok_def credit_def)
  qed (use r assms(3) in \<open>auto simp: bucket_take_def Let_def\<close>)
qed

lemma granted_credit: "bucket_ok T b \<Longrightarrow> \<forall>t \<in> set ts. t \<le> T \<Longrightarrow> granted ts b \<le> credit T b"
proof (induction ts arbitrary: b)
  case (Cons now ts)
  obtain ok b' where take: "bucket_take now b = (ok, b')" by fastforce
  from take_credit [OF Cons.prems(1) _ take] Cons.prems(2) Cons.IH [of b'] take show ?case by fastforce
qed simp

text \<open>
  Claim C38. A rate limit holds whatever the requests and however the clock jumps: of any sequence of requests a
  bucket made at some time grants at most its burst and one more for each full refill interval between
  then and the latest time asked at.
\<close>

theorem bucket_rate:
  assumes "\<forall>t \<in> set ts. t \<le> T" "start \<le> T" "unat T < 2 ^ 63"
  shows "granted ts (bucket_new burst refill start) \<le> unat burst + (unat T - unat start) div unat (max refill 1)"
proof -
  have ok: "bucket_ok T (bucket_new burst refill start)"
    using assms(2,3) by (simp add: bucket_ok_def bucket_new_def max_def word_le_nat_alt word_less_nat_alt)
  show ?thesis using granted_credit [OF ok assms(1)] unfolding credit_nat [OF ok] by (simp add: bucket_new_def)
qed

theorem bucket_rate_witness: "granted [5, 5, 6, 25] (bucket_new 2 10 5) \<le> 4"
  using bucket_rate [of "[5, 5, 6, 25]" 25 5 2 10] by simp

section \<open>What a signature covers\<close>

lemma local_if: "local_rd m \<Longrightarrow> local_rd n \<Longrightarrow> local_rd (if c then m else n)"
  by simp

lemma local_read_array: "local_rd (read_array n)"
  unfolding read_array_def by (rule local_take_bytes)

lemmas local_knock_reads = local_reads local_utf8_or local_if local_read_array local_read_u16 local_read_str16

lemma local_read_knock_head: "local_rd read_knock_head"
  unfolding read_knock_head_def by (intro local_knock_reads)

lemma local_read_accept_head: "local_rd read_accept_head"
  unfolding read_accept_head_def by (intro local_knock_reads)

lemma safe_if: "safe_rd m \<Longrightarrow> safe_rd n \<Longrightarrow> safe_rd (if c then m else n)"
  by simp

lemma safe_read_array: "safe_rd (read_array n)"
  unfolding read_array_def by (rule safe_take_bytes)

lemmas safe_knock_reads = safe_decoders safe_utf8_or safe_if safe_read_array u16c.rd_safe str16c.rd_safe

lemma safe_read_knock_head: "safe_rd read_knock_head"
  unfolding read_knock_head_def by (intro safe_knock_reads)

lemma datagram_small: "length d \<le> MAX_DATAGRAM \<Longrightarrow> small d"
  by (simp add: MAX_DATAGRAM_def small_def USIZE_LIMIT_def)

text \<open>The fields of a knock without its signed bytes and sig2.\<close>

definition knock_body :: "knock \<Rightarrow> knock" where
  "knock_body k = k\<lparr>k_signed := [], k_sig2 := []\<rparr>"

lemma read_knock_head_blank: "read_knock_head r = Ok (k, r') \<Longrightarrow> k_signed k = [] \<and> k_sig2 k = []"
  by (auto simp: read_knock_head_def rd_bind_eq_Ok split: if_splits)

lemma knock_parse_shape:
  assumes "knock_parse d = Ok k"
  shows "length d \<le> MAX_DATAGRAM \<and> d = k_signed k @ str16 (k_sig2 k) \<and> consumes read_knock_head (k_signed k) (knock_body k)"
proof -
  have len: "length d \<le> MAX_DATAGRAM" using assms by (simp add: knock_parse_def split: if_splits)
  note small = datagram_small [OF len]
  obtain k0 r1 r2 sig n signed where part: "read_knock_head (rd_at [] d) = Ok (k0, r1)"
    and n: "sub_res (length d) (remaining r1) = Ok n" "slice_res d 0 n = Ok signed"
    and sig: "read_str16 r1 = Ok (sig, r2)" "reader_is_empty r2"
    and k: "k = k0\<lparr>k_signed := signed, k_sig2 := sig\<rparr>"
    using assms len
    by (auto simp: knock_parse_def run_rd_def map_res_eq_Ok rd_bind_eq_Ok bind_res_eq_Ok rd_end_def reader_new_rd_at split: if_splits)
  obtain x t where x: "d = x @ t" "r1 = rd_at x t" "consumes read_knock_head x k0"
    using local_rdE [OF local_read_knock_head _ part] small by auto
  have "signed = x" using n x(1,2) by (auto simp: sub_res_def slice_res_def split: if_splits)
  moreover have "t = str16 sig"
  proof (rule read_str16_inverse [of x t sig r2])
    show "fits x t" using small x(1) by simp
    show "read_str16 (rd_at x t) = Ok (sig, r2)" using sig(1) x(2) by simp
    fix u assume "t = str16 sig @ u" "r2 = rd_at (x @ str16 sig) u"
    with sig(2) show "t = str16 sig" by simp
  qed
  moreover have "knock_body k = k0"
    using read_knock_head_blank [OF part] by (simp add: k knock_body_def)
  ultimately show ?thesis using len x by (simp add: k)
qed

lemma knock_covered:
  assumes "knock_parse d = Ok k" "knock_parse d' = Ok k'" "k_signed k' = k_signed k"
  shows "knock_body k' = knock_body k"
proof -
  note k = knock_parse_shape [OF assms(1)] and k' = knock_parse_shape [OF assms(2)]
  have "small (k_signed k)" using k datagram_small [of d] small_prefix by metis
  moreover have "consumes read_knock_head (k_signed k) (knock_body k')" using k' assms(3) by metis
  moreover have "consumes read_knock_head (k_signed k) (knock_body k)" using k by (elim conjE)
  ultimately show ?thesis by (metis consumes_unique)
qed

lemma knock_parse_no_panic: "knock_parse d \<noteq> Panic"
proof
  assume panic: "knock_parse d = Panic"
  then have len: "length d \<le> MAX_DATAGRAM" by (simp add: knock_parse_def split: if_splits)
  have "\<exists>k r. read_knock_head (rd_at [] d) = Ok (k, r)
      \<and> (sub_res (length d) (remaining r) = Panic \<or> (\<exists>n. sub_res (length d) (remaining r) = Ok n \<and> slice_res d 0 n = Panic))"
    using panic len safe_read_knock_head str16c.rd_safe
    by (auto simp: knock_parse_def run_rd_def reader_new_rd_at rd_bind_def bind_res_eq_Panic safe_rd_def rd_end_def split: if_splits)
  then obtain k r where r: "read_knock_head (rd_at [] d) = Ok (k, r)"
    "sub_res (length d) (remaining r) = Panic \<or> (\<exists>n. sub_res (length d) (remaining r) = Ok n \<and> slice_res d 0 n = Panic)"
    by blast
  have "fits [] d" using datagram_small [OF len] by simp
  then obtain x t where "d = x @ t" "r = rd_at x t"
    using local_rdE [OF local_read_knock_head _ r(1)] by (metis append_Nil)
  with r(2) show False by (auto simp: sub_res_def slice_res_def)
qed

section \<open>Accepted knocks\<close>

lemma take_verify_frame: "take_verify now st = (ok, st') \<Longrightarrow> kn_entries st' = kn_entries st \<and> kn_cfg st' = kn_cfg st
    \<and> kn_nonce_floor st' = kn_nonce_floor st \<and> kn_key_cache st' = kn_key_cache st \<and> kn_host_keys st' = kn_host_keys st"
  by (auto simp: take_verify_def Let_def split: prod.splits)

lemma take_knock_bucket_frame: "take_knock_bucket cfg src now e = (r, e') \<Longrightarrow> ke_last_nonce e' = ke_last_nonce e
    \<and> ke_last_knock_hash e' = ke_last_knock_hash e \<and> ke_last_accept e' = ke_last_accept e \<and> ke_pending e' = ke_pending e"
  by (auto simp: take_knock_bucket_def Let_def split: prod.splits)

lemma knock_sig1_frame: "knock_sig1 P sha1 k blob now e st = ((e', st'), v) \<Longrightarrow> ke_last_nonce e' = ke_last_nonce e
    \<and> ke_last_knock_hash e' = ke_last_knock_hash e \<and> ke_last_accept e' = ke_last_accept e \<and> ke_pending e' = ke_pending e
    \<and> kn_entries st' = kn_entries st \<and> kn_cfg st' = kn_cfg st \<and> kn_nonce_floor st' = kn_nonce_floor st
    \<and> kn_key_cache st' = kn_key_cache st \<and> kn_host_keys st' = kn_host_keys st"
  by (auto simp: knock_sig1_def Let_def split: option.splits prod.splits if_splits res.splits dest!: take_verify_frame)

text \<open>What a known key's knock does to the entry, and what acceptance means.\<close>

definition knock_passes :: "sig_prims \<Rightarrow> bool \<Rightarrow> knock \<Rightarrow> bytes \<Rightarrow> knock_entry \<Rightarrow> 'k knock_state \<Rightarrow> bool" where
  "knock_passes P sha1 k blob e st \<longleftrightarrow> ke_last_nonce e < k_nonce k \<and> kn_nonce_floor st \<le> k_nonce k
     \<and> knock_verify P sha1 blob NS_KNOCK (k_signed k) (k_sig2 k) = Ok ()"

lemma consume_nonce_frame:
  "consume_nonce P k d slot e st = (e', v) \<Longrightarrow> ke_last_nonce e' = k_nonce k
     \<and> (case v of VAccept pa \<Rightarrow> pa_user pa = k_user k \<and> pa_key_fp pa = k_key_fp k \<and> pa_knock_len pa = length d
              \<and> pa_knock_hash pa = knock_hash P d \<and> ke_pending e' = ke_pending e + 1 \<and> ke_pending e < max_pending (kn_cfg st)
          | VDrop _ \<Rightarrow> ke_pending e' = ke_pending e | VResend _ \<Rightarrow> False)"
  by (auto simp: consume_nonce_def Let_def not_le split: if_splits option.splits)

lemma fresh_knock_frame:
  assumes "fresh_knock P sha1 k blob d src now e st = ((e', st'), v)" "ke_last_nonce e < k_nonce k" "kn_nonce_floor st \<le> k_nonce k"
  shows "ke_last_nonce e \<le> ke_last_nonce e' \<and> kn_entries st' = kn_entries st \<and> kn_cfg st' = kn_cfg st
    \<and> kn_key_cache st' = kn_key_cache st \<and> (\<forall>a. v \<noteq> Ok (VResend a))
    \<and> (\<forall>pa. v = Ok (VAccept pa) \<longrightarrow> knock_passes P sha1 k blob e st \<and> ke_last_nonce e' = k_nonce k
         \<and> pa_user pa = k_user k \<and> pa_key_fp pa = k_key_fp k \<and> pa_knock_len pa = length d \<and> pa_knock_hash pa = knock_hash P d
         \<and> ke_pending e' = ke_pending e + 1 \<and> ke_pending e < max_pending (kn_cfg st))"
  using assms
  by (auto simp: fresh_knock_def Let_def knock_passes_def split: prod.splits if_splits res.splits
      dest!: take_verify_frame take_knock_bucket_frame consume_nonce_frame)

text \<open>An entry's cached answer belongs to its last knock.\<close>

lemma consume_nonce_answer: "consume_nonce P k d slot e st = (e', v) \<Longrightarrow> ke_last_accept e' = None"
  by (auto simp: consume_nonce_def Let_def split: if_splits option.splits)

lemma fresh_knock_answer:
  "fresh_knock P sha1 k blob d src now e st = ((e', st'), v) \<Longrightarrow> ke_last_accept e' = None
     \<or> ke_last_accept e' = ke_last_accept e \<and> ke_last_knock_hash e' = ke_last_knock_hash e"
  by (auto simp: fresh_knock_def Let_def split: prod.splits if_splits res.splits
      dest!: take_knock_bucket_frame consume_nonce_answer)

lemma signed_knock_frame:
  assumes "signed_knock P sha1 k blob d src now e st = ((e', st'), v)"
  shows "ke_last_nonce e \<le> ke_last_nonce e' \<and> kn_entries st' = kn_entries st \<and> kn_cfg st' = kn_cfg st
    \<and> kn_key_cache st' = kn_key_cache st
    \<and> (ke_last_accept e' = None \<or> ke_last_accept e' = ke_last_accept e \<and> ke_last_knock_hash e' = ke_last_knock_hash e)
    \<and> (\<forall>a. v = Ok (VResend a) \<longrightarrow> (\<exists>x. ke_last_accept e = Some (a, x)) \<and> ke_last_knock_hash e = knock_hash P d)
    \<and> (\<forall>pa. v = Ok (VAccept pa) \<longrightarrow> knock_passes P sha1 k blob e st \<and> ke_last_nonce e' = k_nonce k
         \<and> pa_user pa = k_user k \<and> pa_key_fp pa = k_key_fp k \<and> pa_knock_len pa = length d \<and> pa_knock_hash pa = knock_hash P d
         \<and> ke_pending e' = ke_pending e + 1 \<and> ke_pending e < max_pending (kn_cfg st))"
proof (cases "(k_nonce k = ke_last_nonce e \<and> knock_hash P d = ke_last_knock_hash e) \<or> k_nonce k \<le> ke_last_nonce e \<or> k_nonce k < kn_nonce_floor st")
  case True
  then show ?thesis
    using assms by (auto simp: signed_knock_def split: if_splits option.splits prod.splits dest!: take_knock_bucket_frame)
next
  case False
  then have run: "fresh_knock P sha1 k blob d src now e st = ((e', st'), v)" using assms by (auto simp: signed_knock_def split: if_splits)
  with False fresh_knock_frame [OF run] fresh_knock_answer [OF run] show ?thesis by (simp add: not_le not_less)
qed

lemma known_knock_frame:
  assumes "known_knock P sha1 k blob d src now e st = ((e', st'), v)"
  shows "ke_last_nonce e \<le> ke_last_nonce e' \<and> kn_entries st' = kn_entries st \<and> kn_cfg st' = kn_cfg st
    \<and> kn_key_cache st' = kn_key_cache st
    \<and> (ke_last_accept e' = None \<or> ke_last_accept e' = ke_last_accept e \<and> ke_last_knock_hash e' = ke_last_knock_hash e)
    \<and> (\<forall>a. v = Ok (VResend a) \<longrightarrow> (\<exists>x. ke_last_accept e = Some (a, x)) \<and> ke_last_knock_hash e = knock_hash P d)
    \<and> (\<forall>pa. v = Ok (VAccept pa) \<longrightarrow> knock_passes P sha1 k blob e st \<and> ke_last_nonce e' = k_nonce k
         \<and> pa_user pa = k_user k \<and> pa_key_fp pa = k_key_fp k \<and> pa_knock_len pa = length d \<and> pa_knock_hash pa = knock_hash P d
         \<and> ke_pending e' = ke_pending e + 1 \<and> ke_pending e < max_pending (kn_cfg st))"
proof -
  obtain e1 st1 w where sig1: "knock_sig1 P sha1 k blob now e st = ((e1, st1), w)" by (metis surj_pair)
  note s = knock_sig1_frame [OF sig1]
  show ?thesis
  proof (cases w)
    case (Ok reason)
    show ?thesis
    proof (cases reason)
      case None
      with assms sig1 Ok have "signed_knock P sha1 k blob d src now e1 st1 = ((e', st'), v)" by (simp add: known_knock_def)
      from signed_knock_frame [OF this] s show ?thesis by (simp add: knock_passes_def)
    next
      case (Some r)
      with assms sig1 Ok s show ?thesis by (auto simp: known_knock_def)
    qed
  qed (use assms sig1 s in \<open>auto simp: known_knock_def\<close>)
qed

section \<open>The key source\<close>

definition grants :: "sig_prims \<Rightarrow> key_source \<Rightarrow> rust_str \<Rightarrow> bytes \<Rightarrow> bool" where
  "grants P S u fp \<longleftrightarrow> src_may_knock S u \<and> (\<exists>b \<in> set (src_keys_for S u). max_sig_blob_len b \<noteq> None \<and> key_fp P b = fp)"

lemma map_of_filter_keys: "map_of (filter (\<lambda>((u, fp), _). Q u fp) xs) (u, fp) = (if Q u fp then map_of xs (u, fp) else None)"
  by (induction xs) auto

lemma fold_update_dom: "fst ` set (fold (\<lambda>b m. AList.update (f b) b m) bs m) = f ` set bs \<union> fst ` set m"
  by (induction bs arbitrary: m) (auto simp: dom_update)

lemma usable_keys_granted: "b \<in> set bs \<Longrightarrow> max_sig_blob_len b \<noteq> None \<Longrightarrow> map_of (usable_keys P bs) (key_fp P b) \<noteq> None"
  using fold_update_dom [of "key_fp P" "filter (\<lambda>b. max_sig_blob_len b \<noteq> None) bs" "[]"]
  by (auto simp: usable_keys_def map_of_eq_None_iff)

lemma lookup_frame:
  "take_prefix_lookup src now st = (ok, st') \<Longrightarrow> kn_entries st' = kn_entries st \<and> kn_cfg st' = kn_cfg st \<and> kn_nonce_floor st' = kn_nonce_floor st"
  "take_lookups now st = (ok, st') \<Longrightarrow> kn_entries st' = kn_entries st \<and> kn_cfg st' = kn_cfg st \<and> kn_nonce_floor st' = kn_nonce_floor st"
  by (auto simp: take_prefix_lookup_def take_lookups_def Let_def split: prod.splits)

lemma grants_usable: "grants P S u fp \<Longrightarrow> map_of (usable_keys P (src_keys_for S u)) fp \<noteq> None"
  using usable_keys_granted by (auto simp: grants_def)

lemma refresh_frame:
  "kn_cfg (refresh_user_keys P S user now st) = kn_cfg st" "kn_nonce_floor (refresh_user_keys P S user now st) = kn_nonce_floor st"
  "map_of (kn_entries (refresh_user_keys P S user now st)) (u, fp) =
     (if u \<noteq> user \<or> map_of (usable_keys P (src_keys_for S user)) fp \<noteq> None then map_of (kn_entries st) (u, fp) else None)"
  by (simp_all add: refresh_user_keys_def Let_def map_of_filter_keys)

text \<open>Loading keys only ever forgets entries, and none of a key that the source grants.\<close>

lemma load_user_keys_frame:
  assumes "load_user_keys P S user src now st = (ok, st')"
  shows "kn_cfg st' = kn_cfg st \<and> kn_nonce_floor st' = kn_nonce_floor st
    \<and> (map_of (kn_entries st') (u, fp) = map_of (kn_entries st) (u, fp) \<or> map_of (kn_entries st') (u, fp) = None)
    \<and> (grants P S u fp \<longrightarrow> map_of (kn_entries st') (u, fp) = map_of (kn_entries st) (u, fp))"
proof -
  have "map_of (usable_keys P (src_keys_for S user)) fp \<noteq> None" if "grants P S u fp" "u = user" using grants_usable that by blast
  moreover have "src_may_knock S u" if "grants P S u fp" using that by (simp add: grants_def)
  ultimately show ?thesis
    using assms by (auto simp: load_user_keys_def Let_def refresh_frame map_of_filter_keys split: if_splits prod.splits dest!: lookup_frame)
qed

section \<open>One datagram\<close>

definition nonce_of :: "'k knock_state \<Rightarrow> rust_str \<times> bytes \<Rightarrow> u64" where
  "nonce_of st key = (case map_of (kn_entries st) key of Some e \<Rightarrow> ke_last_nonce e | None \<Rightarrow> 0)"

text \<open>Either the datagram is dropped before its key is known, or it is a knock for a cached key.\<close>

definition reaches :: "sig_prims \<Rightarrow> bool \<Rightarrow> key_source \<Rightarrow> u64 \<Rightarrow> ip_addr \<Rightarrow> bytes \<Rightarrow> 'k knock_state \<Rightarrow>
    knock \<Rightarrow> bytes \<Rightarrow> 'k knock_state \<Rightarrow> knock_entry \<Rightarrow> knock_entry \<Rightarrow> 'k knock_state \<Rightarrow> knock_verdict res \<Rightarrow> bool" where
  "reaches P sha1 S now src d st k blob st1 e e' st2 v \<longleftrightarrow> knock_parse d = Ok k \<and> abs_diff (k_nonce k) now \<le> clock_skew_ms (kn_cfg st)
     \<and> load_user_keys P S (k_user k) src now st = (True, st1)
     \<and> Option.bind (map_of (kn_key_cache st1) (k_user k)) (\<lambda>c. map_of (ck_keys c) (k_key_fp k)) = Some blob
     \<and> e = (case map_of (kn_entries st1) (k_user k, k_key_fp k) of Some e \<Rightarrow> e | None \<Rightarrow> knock_entry_new (kn_cfg st1) now)
     \<and> known_knock P sha1 k blob d src now e st1 = ((e', st2), v)"

lemma knock_handle_cases:
  assumes "knock_handle P sha1 S now src d st = (st', v)"
  shows "(\<exists>r. v = Ok (VDrop r) \<and> (st' = st \<or> (\<exists>u ok. load_user_keys P S u src now st = (ok, st'))))
    \<or> (\<exists>k blob st1 e e' st2. reaches P sha1 S now src d st k blob st1 e e' st2 v
         \<and> st' = st2\<lparr>kn_entries := AList.update (k_user k, k_key_fp k) e' (kn_entries st2)\<rparr>)"
proof -
  consider "knock_parse d = Panic" | x where "knock_parse d = Err x" | k where "knock_parse d = Ok k" by (cases "knock_parse d") auto
  then show ?thesis
  proof cases
    case 1
    with knock_parse_no_panic show ?thesis by blast
  next
    case 2
    with assms show ?thesis by (auto simp: knock_handle_def)
  next
    case (3 k)
    obtain ok st1 where load: "load_user_keys P S (k_user k) src now st = (ok, st1)" by fastforce
    show ?thesis
      using assms load 3
      by (auto simp: knock_handle_def reaches_def Let_def not_less split: if_splits option.splits prod.splits)
  qed
qed

lemma nonce_of_update: "nonce_of (st\<lparr>kn_entries := AList.update key e xs\<rparr>) key' =
    (if key' = key then ke_last_nonce e else nonce_of (st\<lparr>kn_entries := xs\<rparr>) key')"
  by (simp add: nonce_of_def update_conv')

text \<open>The nonce on record grows, and by acceptance it becomes that of the knock, as long as the key is granted.\<close>

lemma reaches_nonce:
  assumes "reaches P sha1 S now src d st k blob st1 e e' st2 v"
  shows "(grants P S (k_user k) (k_key_fp k) \<longrightarrow> nonce_of st (k_user k, k_key_fp k) = ke_last_nonce e)
    \<and> ke_last_nonce e \<le> ke_last_nonce e' \<and> kn_entries st2 = kn_entries st1
    \<and> (\<forall>pa. v = Ok (VAccept pa) \<longrightarrow> ke_last_nonce e < k_nonce k \<and> ke_last_nonce e' = k_nonce k)"
proof -
  have load: "load_user_keys P S (k_user k) src now st = (True, st1)"
    and e: "e = (case map_of (kn_entries st1) (k_user k, k_key_fp k) of Some e \<Rightarrow> e | None \<Rightarrow> knock_entry_new (kn_cfg st1) now)"
    and run: "known_knock P sha1 k blob d src now e st1 = ((e', st2), v)" using assms by (auto simp: reaches_def)
  from load_user_keys_frame [OF load, of "k_user k" "k_key_fp k"] known_knock_frame [OF run] e show ?thesis
    by (auto simp: nonce_of_def knock_entry_new_def knock_passes_def split: option.splits)
qed

lemma knock_handle_nonce:
  assumes "knock_handle P sha1 S now src d st = (st', v)" "grants P S u fp"
  shows "nonce_of st (u, fp) \<le> nonce_of st' (u, fp)
    \<and> (\<forall>pa k. v = Ok (VAccept pa) \<and> knock_parse d = Ok k \<and> (u, fp) = (k_user k, k_key_fp k) \<longrightarrow>
         nonce_of st (u, fp) < k_nonce k \<and> nonce_of st' (u, fp) = k_nonce k)"
  using knock_handle_cases [OF assms(1)]
proof (elim disjE exE conjE)
  fix r u' ok assume "v = Ok (VDrop r)" "load_user_keys P S u' src now st = (ok, st')"
  with load_user_keys_frame [of P S u' src now st ok st' u fp] assms(2) show ?thesis by (auto simp: nonce_of_def)
next
  fix k blob st1 e e' st2
  assume way: "reaches P sha1 S now src d st k blob st1 e e' st2 v"
    and st': "st' = st2\<lparr>kn_entries := AList.update (k_user k, k_key_fp k) e' (kn_entries st2)\<rparr>"
  have load: "load_user_keys P S (k_user k) src now st = (True, st1)" "knock_parse d = Ok k" using way by (auto simp: reaches_def)
  from load_user_keys_frame [OF load(1), of u fp] assms(2) have "nonce_of st1 (u, fp) = nonce_of st (u, fp)" by (auto simp: nonce_of_def)
  with reaches_nonce [OF way] st' load(2) assms(2) show ?thesis
    by (auto simp: nonce_of_update) (auto simp: nonce_of_def)
qed auto

text \<open>
  The condition on the source cannot be dropped: once cached keys have expired, a single refusal of the user
  makes the server forget the nonces of all the user's keys.
\<close>

lemma refused_user_forgotten:
  assumes "map_of (kn_key_cache st) user = Some c" "\<not> (ck_loaded_ms c \<le> now \<and> now - ck_loaded_ms c < key_cache_ttl_ms (kn_cfg st))"
    "\<not> src_may_knock S user"
  shows "nonce_of (snd (load_user_keys P S user src now st)) (user, fp) = 0"
proof -
  have "map_of (filter (\<lambda>((u, _), _). u \<noteq> user) (kn_entries st)) (user, fp) = None"
    by (simp add: map_of_filter_keys [where Q = "\<lambda>u _. u \<noteq> user"])
  thus ?thesis using assms by (auto simp add: load_user_keys_def nonce_of_def Let_def)
qed

section \<open>Runs\<close>

text \<open>
  A run of the server: datagrams with the answers of the key source at the time, completions of accepted
  knocks, closed listeners and forgotten caches, in any order. The log has the accepted datagrams. The source goes
  on to grant the keys whose knocks have been accepted.
\<close>

definition log_keys :: "(bytes \<times> pending_accept) list \<Rightarrow> (rust_str \<times> bytes \<times> u64) list" where
  "log_keys log = List.map_filter (\<lambda>(d, _). case knock_parse d of Ok k \<Rightarrow> Some (k_user k, k_key_fp k, k_nonce k) | _ \<Rightarrow> None) log"

inductive knock_run :: "sig_prims \<Rightarrow> bool \<Rightarrow> 'k host_key_ops \<Rightarrow> ('r, 'g) kex_prims \<Rightarrow> (bytes \<Rightarrow> bytes \<Rightarrow> bytes \<Rightarrow> nat \<Rightarrow> bytes) \<Rightarrow>
    'k knock_state \<Rightarrow> (bytes \<times> pending_accept) list \<Rightarrow> 'k knock_state \<Rightarrow> bool"
  for P sha1 K X hkdf st0 where
  start: "knock_run P sha1 K X hkdf st0 [] st0"
| knock: "knock_run P sha1 K X hkdf st0 log st \<Longrightarrow> \<forall>(u, fp, _) \<in> set (log_keys log). grants P S u fp \<Longrightarrow>
    knock_handle P sha1 S now src d st = (st', v) \<Longrightarrow>
    (\<forall>pa k. v = Ok (VAccept pa) \<and> knock_parse d = Ok k \<longrightarrow> grants P S (k_user k) (k_key_fp k)) \<Longrightarrow>
    log' = log @ (case v of Ok (VAccept pa) \<Rightarrow> [(d, pa)] | _ \<Rightarrow> []) \<Longrightarrow> knock_run P sha1 K X hkdf st0 log' st'"
| complete: "knock_run P sha1 K X hkdf st0 log st \<Longrightarrow> (d, pa) \<in> set log \<Longrightarrow>
    knock_complete P K X hkdf pa port now st rng = ((st', rng'), r) \<Longrightarrow> knock_run P sha1 K X hkdf st0 log st'"
| release: "knock_run P sha1 K X hkdf st0 log st \<Longrightarrow> knock_run P sha1 K X hkdf st0 log (release_pending u fp st)"
| invalidate: "knock_run P sha1 K X hkdf st0 log st \<Longrightarrow> knock_run P sha1 K X hkdf st0 log (invalidate_keys u st)"
| source: "knock_run P sha1 K X hkdf st0 log st \<Longrightarrow> knock_run P sha1 K X hkdf st0 log (set_key_source st)"

lemma change_entry_map: "map_of (kn_entries (change_entry key f st)) key' =
    (if key' = key then map_option f (map_of (kn_entries st) key) else map_of (kn_entries st) key')"
  by (auto simp: change_entry_def update_conv' split: option.splits)

lemma change_entry_nonce: "(\<And>e. ke_last_nonce (f e) = ke_last_nonce e) \<Longrightarrow> nonce_of (change_entry key f st) key' = nonce_of st key'"
  by (auto simp: nonce_of_def change_entry_map split: option.splits)

lemma release_nonce: "nonce_of (release_pending u fp st) key = nonce_of st key"
  unfolding release_pending_def by (rule change_entry_nonce) simp

lemma complete_nonce: "knock_complete P K X hkdf pa port now st rng = ((st', rng'), r) \<Longrightarrow> nonce_of st' key = nonce_of st key"
  by (auto simp: knock_complete_def complete_inner_def Let_def release_nonce change_entry_nonce
      split: prod.splits if_splits option.splits res.splits)

lemma forget_nonce: "nonce_of (invalidate_keys u st) key = nonce_of st key" "nonce_of (set_key_source st) key = nonce_of st key"
  by (simp_all add: nonce_of_def invalidate_keys_def set_key_source_def)

definition nonces_for :: "rust_str \<Rightarrow> bytes \<Rightarrow> (bytes \<times> pending_accept) list \<Rightarrow> u64 list" where
  "nonces_for u fp log = map (\<lambda>(_, _, n). n) (filter (\<lambda>(u', fp', _). u' = u \<and> fp' = fp) (log_keys log))"

lemma nonces_for_set: "n \<in> set (nonces_for u fp log) \<longleftrightarrow> (u, fp, n) \<in> set (log_keys log)"
  by (force simp: nonces_for_def)

lemma log_keys_append: "log_keys (log @ log') = log_keys log @ log_keys log'"
  by (simp add: log_keys_def List.map_filter_def)

lemma log_keys_one: "knock_parse d = Ok k \<Longrightarrow> log_keys [(d, pa)] = [(k_user k, k_key_fp k, k_nonce k)]"
  by (simp add: log_keys_def List.map_filter_simps)

lemma log_key_of:
  assumes "knock_parse d = Ok k" "d \<in> fst ` set log"
  shows "(k_user k, k_key_fp k, k_nonce k) \<in> set (log_keys log)"
proof -
  obtain pa xs ys where "log = xs @ [(d, pa)] @ ys" using assms(2) by (auto dest!: split_list)
  then show ?thesis by (simp only: log_keys_append log_keys_one [OF assms(1)]) simp
qed

lemma log_keys_Nil [simp]: "log_keys [] = []"
  by (simp add: log_keys_def List.map_filter_simps)

lemma accepted_parses: "knock_handle P sha1 S now src d st = (st', Ok (VAccept pa)) \<Longrightarrow> \<exists>k. knock_parse d = Ok k"
  using knock_handle_cases [of P sha1 S now src d st st' "Ok (VAccept pa)"] by (auto simp: reaches_def)

definition log_inv :: "(bytes \<times> pending_accept) list \<Rightarrow> 'k knock_state \<Rightarrow> bool" where
  "log_inv log st \<longleftrightarrow> (\<forall>u fp. sorted_wrt (<) (nonces_for u fp log) \<and> (\<forall>n \<in> set (nonces_for u fp log). n \<le> nonce_of st (u, fp)))
     \<and> distinct (map fst log)"

lemma log_inv_same: "log_inv log st \<Longrightarrow> (\<And>key. nonce_of st' key = nonce_of st key) \<Longrightarrow> log_inv log st'"
  by (simp add: log_inv_def)

lemma log_inv_knock:
  assumes inv: "log_inv log st" and old: "\<forall>(u, fp, _) \<in> set (log_keys log). grants P S u fp"
    and run: "knock_handle P sha1 S now src d st = (st', v)"
    and new: "\<forall>pa k. v = Ok (VAccept pa) \<and> knock_parse d = Ok k \<longrightarrow> grants P S (k_user k) (k_key_fp k)"
  shows "log_inv (log @ (case v of Ok (VAccept pa) \<Rightarrow> [(d, pa)] | _ \<Rightarrow> [])) st'"
proof -
  have mono: "n \<le> nonce_of st' (u, fp)" if "n \<in> set (nonces_for u fp log)" for u fp n
  proof -
    have "grants P S u fp" using old that by (auto simp: nonces_for_set)
    then have "nonce_of st (u, fp) \<le> nonce_of st' (u, fp)" using knock_handle_nonce [OF run] by blast
    moreover have "n \<le> nonce_of st (u, fp)" using inv that by (simp add: log_inv_def)
    ultimately show ?thesis by (rule order_trans [rotated])
  qed
  show ?thesis
  proof (cases "\<exists>pa. v = Ok (VAccept pa)")
    case True
    then obtain pa where pa: "v = Ok (VAccept pa)" by blast
    with accepted_parses run obtain k where k: "knock_parse d = Ok k" by blast
    let ?key = "(k_user k, k_key_fp k)"
    have fresh: "nonce_of st ?key < k_nonce k" "nonce_of st' ?key = k_nonce k"
      using knock_handle_nonce [OF run, of "k_user k" "k_key_fp k"] new pa k by auto
    have "d \<notin> fst ` set log"
    proof
      assume "d \<in> fst ` set log"
      then have "k_nonce k \<in> set (nonces_for (k_user k) (k_key_fp k) log)" unfolding nonces_for_set by (rule log_key_of [OF k])
      then have "k_nonce k \<le> nonce_of st ?key" using inv by (simp add: log_inv_def)
      with fresh(1) show False by simp
    qed
    with fresh inv mono show ?thesis
      by (fastforce simp: pa k log_inv_def nonces_for_def log_keys_append log_keys_one sorted_wrt_append)
  next
    case False
    then have "log @ (case v of Ok (VAccept pa) \<Rightarrow> [(d, pa)] | _ \<Rightarrow> []) = log" by (auto split: res.split knock_verdict.split)
    with inv mono show ?thesis by (simp add: log_inv_def)
  qed
qed

lemma run_log_inv: "knock_run P sha1 K X hkdf st0 log st \<Longrightarrow> log_inv log st"
proof (induction rule: knock_run.induct)
  case start
  show ?case by (simp add: log_inv_def nonces_for_def)
next
  case (knock log st S now src d st' v log')
  then show ?case using log_inv_knock by blast
qed (blast intro: log_inv_same complete_nonce release_nonce forget_nonce)+

text \<open>
  Claim C34. No knock is accepted twice: along every run of the server, with any datagrams from anywhere, the nonces
  of the accepted knocks of each user and key grow strictly, as long as the source of keys goes on to
  grant these keys. In particular a recorded datagram that was accepted is never accepted again.
\<close>

theorem knock_accepted_once:
  assumes "knock_run P sha1 K X hkdf st0 log st"
  shows "sorted_wrt (<) (nonces_for u fp log) \<and> distinct (map fst log)"
  using run_log_inv [OF assms] by (simp add: log_inv_def)

text \<open>
  Claim C35. What an accepted knock proves: the datagram is its signed bytes and the signature, which a key on record for
  the user and of the given fingerprint verifies; the signed bytes determine every other field; the
  time in it is within the allowed skew and not before the server's start; it is newer than every knock
  on record for the key; and no more listeners are pending for the key than allowed.
\<close>

theorem knock_accept_authentic:
  assumes "knock_handle P sha1 S now src d st = (st', Ok (VAccept pa))"
  shows "\<exists>k blob e'. knock_parse d = Ok k \<and> d = k_signed k @ str16 (k_sig2 k) \<and> pa_user pa = k_user k \<and> pa_key_fp pa = k_key_fp k
    \<and> knock_verify P sha1 blob NS_KNOCK (k_signed k) (k_sig2 k) = Ok ()
    \<and> Option.bind (map_of (kn_key_cache st') (k_user k)) (\<lambda>c. map_of (ck_keys c) (k_key_fp k)) = Some blob
    \<and> abs_diff (k_nonce k) now \<le> clock_skew_ms (kn_cfg st) \<and> kn_nonce_floor st \<le> k_nonce k
    \<and> (grants P S (k_user k) (k_key_fp k) \<longrightarrow> nonce_of st (k_user k, k_key_fp k) < k_nonce k)
    \<and> map_of (kn_entries st') (k_user k, k_key_fp k) = Some e' \<and> ke_pending e' \<le> max_pending (kn_cfg st)
    \<and> (\<forall>d' k'. knock_parse d' = Ok k' \<and> k_signed k' = k_signed k \<longrightarrow> knock_body k' = knock_body k)"
proof -
  obtain k blob st1 e e' st2 where way: "reaches P sha1 S now src d st k blob st1 e e' st2 (Ok (VAccept pa))"
    and st': "st' = st2\<lparr>kn_entries := AList.update (k_user k, k_key_fp k) e' (kn_entries st2)\<rparr>"
    using knock_handle_cases [OF assms] by auto
  have parse: "knock_parse d = Ok k" and load: "load_user_keys P S (k_user k) src now st = (True, st1)"
    and run: "known_knock P sha1 k blob d src now e st1 = ((e', st2), Ok (VAccept pa))"
    and skew: "abs_diff (k_nonce k) now \<le> clock_skew_ms (kn_cfg st)"
    and blob: "Option.bind (map_of (kn_key_cache st1) (k_user k)) (\<lambda>c. map_of (ck_keys c) (k_key_fp k)) = Some blob"
    using way unfolding reaches_def by blast+
  note kn = known_knock_frame [OF run] and ld = load_user_keys_frame [OF load]
  have "ke_pending e' = ke_pending e + 1" "ke_pending e < max_pending (kn_cfg st)" using kn ld by auto
  then have "ke_pending e' \<le> max_pending (kn_cfg st)" by (simp add: inc_le)
  moreover have "knock_passes P sha1 k blob e st1" "kn_nonce_floor st1 = kn_nonce_floor st" using kn ld by auto
  moreover have "map_of (kn_entries st') (k_user k, k_key_fp k) = Some e'" "kn_key_cache st' = kn_key_cache st1"
    using kn by (simp_all add: st' update_conv')
  moreover have "nonce_of st (k_user k, k_key_fp k) < k_nonce k" if "grants P S (k_user k) (k_key_fp k)"
    using reaches_nonce [OF way] that by simp
  moreover have "d = k_signed k @ str16 (k_sig2 k)" using knock_parse_shape [OF parse] by (elim conjE)
  moreover have "pa_user pa = k_user k" "pa_key_fp pa = k_key_fp k" using kn by auto
  ultimately show ?thesis
    using parse skew blob knock_covered [OF parse] by (intro exI conjI allI impI) (auto simp only: knock_passes_def)
qed

section \<open>No amplification\<close>











end
