(* ===== verification/KnockServe.thy ===== *)
theory KnockServe
  imports KnockProps Login KexClaims
begin

text \<open>
  Both halves of port knocking: a KNOCK that the client builds is parsed by the server as it was meant, and a
  server with free capacity accepts it. The examples instantiate the properties of runs.
\<close>

section \<open>What is built is parsed\<close>

definition fields_ok :: "knock_fields \<Rightarrow> bool" where
  "fields_ok f \<longleftrightarrow> valid_utf8 (kf_user f) \<and> 0 \<notin> set (kf_user f) \<and> kf_user f \<noteq> [] \<and> length (kf_user f) \<le> MAX_USER_LEN
     \<and> length (kf_key_fp f) = 32 \<and> length (kf_eph_c f) = 32 \<and> pred_option (\<lambda>h. length h = 32) (kf_host_fp f)"

definition built_knock :: "knock_fields \<Rightarrow> nat \<Rightarrow> bytes \<Rightarrow> knock" where
  "built_knock f pad sig2 =
     \<lparr>k_flags = (if kf_host_fp f = None then FLAG_NEED_HOSTKEY else 0), k_user = kf_user f, k_key_fp = kf_key_fp f, k_sig1 = kf_sig1 f,
      k_nonce = kf_nonce f, k_eph_c = kf_eph_c f, k_host_fp = (case kf_host_fp f of Some h \<Rightarrow> h | None \<Rightarrow> replicate 32 0),
      k_signed = knock_head f pad, k_sig2 = sig2\<rparr>"

lemma read_array_back [wire_simps]:
  "length a = n \<Longrightarrow> fits pre (a @ post) \<Longrightarrow> rd_bind (read_array n) f (rd_at pre (a @ post)) = f a (rd_at (pre @ a) post)"
  by (simp add: read_array_def rd_bind_def take_bytes_at)

lemma take_back [wire_simps]:
  "length a = n \<Longrightarrow> fits pre (a @ post) \<Longrightarrow> rd_bind (take_bytes n) f (rd_at pre (a @ post)) = f a (rd_at (pre @ a) post)"
  by (simp add: rd_bind_def take_bytes_at)

lemmas knock_back = u16c.bind_back str16c.bind_back str16c.last_back

lemma consumes_knock_head:
  assumes "fields_ok f" "fits_u16 (kf_sig1 f)" "pad < 2 ^ 16"
  shows "consumes read_knock_head (knock_head f pad) ((built_knock f pad [])\<lparr>k_signed := []\<rparr>)"
proof -
  have n: "length (kf_user f) \<le> 64" "0 < length (kf_user f)" using assms(1) by (auto simp: fields_ok_def MAX_USER_LEN_def)
  then have len: "unat (of_nat (length (kf_user f)) :: u8) = length (kf_user f)"
    by (simp add: unat_of_nat take_bit_nat_eq_self)
  from this n have "(of_nat (length (kf_user f)) :: u8) \<noteq> 0" by (metis less_irrefl unat_0)
  note nz = this
  define fl where "fl = (if kf_host_fp f = None then FLAG_NEED_HOSTKEY else 0)"
  define h where "h = (case kf_host_fp f of Some h \<Rightarrow> h | None \<Rightarrow> replicate 32 (0 :: u8))"
  have head: "knock_head f pad = KNOCK_VERSION # TYPE_KNOCK # fl # of_nat (length (kf_user f)) # kf_user f @ kf_key_fp f @ str16 (kf_sig1 f)
      @ u64_to_be (kf_nonce f) @ kf_eph_c f @ h @ str16 (replicate pad 0)"
    by (simp add: knock_head_def fl_def h_def str16_def)
  have flags: "fl AND NOT FLAG_NEED_HOSTKEY = 0" "fl AND FLAG_NEED_HOSTKEY = 0 \<or> h = replicate 32 0"
    by (auto simp: FLAG_NEED_HOSTKEY_def fl_def h_def)
  have ok: "length h = 32" "length (kf_key_fp f) = 32" "length (kf_eph_c f) = 32" "valid_utf8 (kf_user f)" "0 \<notin> set (kf_user f)"
    "fits_u16 (replicate pad (0 :: u8))" "\<not> MAX_USER_LEN < length (kf_user f)" "\<not> list_ex (\<lambda>b. b \<noteq> 0) (replicate pad (0 :: u8))"
    using assms(1,3) by (auto simp: fields_ok_def h_def fits_u16_def list_ex_iff split: option.splits)
  show ?thesis
    unfolding consumes_def head
    using flags ok assms(2) nz len
    by (simp add: read_knock_head_def wire_simps knock_back built_knock_def fl_def [symmetric] h_def [symmetric])
qed

lemma knock_parse_built:
  assumes "fields_ok f" "d = knock_head f pad @ str16 sig2" "length d \<le> MAX_DATAGRAM"
  shows "knock_parse d = Ok (built_knock f pad sig2)"
proof -
  have fit: "fits_u16 (kf_sig1 f)" "pad < 2 ^ 16" "fits_u16 sig2" "small d"
    using assms(2,3) datagram_small by (auto simp: knock_head_def str16_def fits_u16_def MAX_DATAGRAM_def)
  have "read_knock_head (rd_at [] (knock_head f pad @ str16 sig2)) = Ok ((built_knock f pad [])\<lparr>k_signed := []\<rparr>, rd_at (knock_head f pad) (str16 sig2))"
    using consumesD [OF consumes_knock_head [OF assms(1) fit(1,2)], of "[]" "str16 sig2"] fit(4) assms(2) by simp
  then show ?thesis
    using assms(2,3) fit(3,4)
    by (simp add: knock_parse_def run_rd_def reader_new_rd_at rd_bind_Ok sub_res_def slice_res_def knock_back rd_end_at built_knock_def)
qed

lemma knock_build_loop_Ok:
  "knock_build_loop P K k f min_len est n = Ok d \<Longrightarrow>
     \<exists>pad sig2. d = knock_head f pad @ str16 sig2 \<and> knock_sign P K k NS_KNOCK (knock_head f pad) = Ok sig2
       \<and> length d \<le> MAX_DATAGRAM \<and> min_len \<le> length d"
proof (induction n arbitrary: est)
  case (Suc n)
  define pad where "pad = min_len - (length (knock_head f 0) + 2 + est)"
  note run = Suc.prems [unfolded knock_build_loop.simps(2) Let_def, folded pad_def]
  obtain sig2 where sig2: "knock_sign P K k NS_KNOCK (knock_head f pad) = Ok sig2" using run by (auto simp: bind_res_eq_Ok)
  let ?out = "knock_head f pad @ str16 sig2"
  show ?case
  proof (cases "MAX_DATAGRAM < length ?out \<or> length ?out < min_len")
    case True
    then have "\<exists>est'. knock_build_loop P K k f min_len est' n = Ok d"
      using run by (simp add: sig2 sub_res_def bind_res_def split: if_splits) blast+
    with Suc.IH show ?thesis by blast
  next
    case False
    then have "d = ?out" using run by (simp add: sig2)
    with False sig2 show ?thesis by auto
  qed
qed simp

lemma knock_build_Ok:
  assumes "knock_build P K k f min_len = Ok d"
  obtains pad sig2 where "d = knock_head f pad @ str16 sig2" "knock_sign P K k NS_KNOCK (knock_head f pad) = Ok sig2"
    "length d \<le> MAX_DATAGRAM" "min min_len MAX_DATAGRAM \<le> length d"
  using assms knock_build_loop_Ok [of P K k f "min min_len MAX_DATAGRAM" "length (kf_sig1 f)" 4 d]
  by (auto simp: knock_build_def split: if_splits)

section \<open>Signatures\<close>

lemma key_alg_of_enc: "fits_u32 n \<Longrightarrow> small (enc_string n @ t) \<Longrightarrow> key_alg_of (enc_string n @ t) = Ok n"
  by (simp add: key_alg_of_def run_rd_def reader_new_rd_at read_string_at)

lemma ed25519_knock_verified:
  assumes scheme: "\<forall>m. length (ed_sign P sk m) = 64 \<and> ed_verify P (ed_public P sk) m (ed_sign P sk m)" "length (ed_public P sk) = 32"
    and sig: "knock_sign P (signer_ops P sha1') (SEd25519 (Some sk) (ed_public P sk)) ns msg = Ok sig"
  shows "knock_verify P sha1 (ed25519_public_blob (ed_public P sk)) ns msg sig = Ok ()"
proof -
  let ?data = "signed_data P ns msg" and ?blob = "ed25519_public_blob (ed_public P sk)"
  have s: "ed25519_sign P (Some sk) ?data = Ok sig" using sig by (simp add: knock_sign_def signer_ops_def)
  have b: "?blob = enc_string ED25519 @ enc_string (ed_public P sk)" by (simp add: ed25519_public_blob_def encode_simps wire_simps)
  have g: "sig = enc_string ED25519 @ enc_string (ed_sign P sk ?data)" using s by (simp add: ed25519_sign_def encode_simps wire_simps)
  have algs: "key_alg_of ?blob = Ok ED25519" "key_alg_of sig = Ok ED25519"
    using scheme by (simp_all add: b g key_alg_of_enc fits_u32_def small_def USIZE_LIMIT_def enc_string_length ED25519_def)
  have "host_key_verify_by_name P sha1 ED25519 ?blob = Ok (VEd25519 (ed_public P sk))"
    using ed25519_blob_parses [OF scheme(2)] by (simp add: host_key_verify_by_name.simps ED25519_def)
  moreover have "ed25519_verify P (ed_public P sk) ?data sig = Ok ()" using ed25519_signature_accepted(1) [OF _ _ s] scheme(1) by simp
  ultimately have "verify_signature P sha1 ED25519 ?blob ?data sig = Ok ()" by (simp add: verify_signature_def)
  moreover have "valid_utf8 ED25519" by (simp add: ED25519_def valid_utf8_lit)
  moreover have "knock_family_ok ED25519 ED25519" by (simp add: knock_family_ok_def ED25519_def lit_inject)
  ultimately show ?thesis using algs by (simp add: knock_verify_def)
qed

lemma ed25519_sig_len: "length pk = 32 \<Longrightarrow> max_sig_blob_len (ed25519_public_blob pk) = Some 83"
  by (simp add: max_sig_blob_len_def ed25519_public_blob_def encode_simps wire_simps reader_new_rd_at read_string_at fits_u32_def
      small_def USIZE_LIMIT_def ED25519_def enc_string_length)

section \<open>A server with free capacity\<close>

lemma take_at_birth: "0 < b_tokens b \<Longrightarrow> b_last_ms b = now \<Longrightarrow> bucket_take now b = (True, b\<lparr>b_tokens := b_tokens b - 1\<rparr>)"
  by (simp add: bucket_take_def bucket_refill_def)

text \<open>A full bucket is full after a refill, and its next two requests at the same time are granted.\<close>

lemma refill_full:
  assumes "b_tokens b = b_burst b" "b_last_ms b \<le> now" "0 < b_refill_ms b" "unat now < 2 ^ 63"
  shows "b_tokens (bucket_refill now b) = b_burst b \<and> b_last_ms (bucket_refill now b) = now"
proof (cases "now > b_last_ms b")
  case True
  let ?g = "(now - b_last_ms b) div b_refill_ms b"
  have "unat ?g = (unat now - unat (b_last_ms b)) div unat (b_refill_ms b)" using assms(2) by (simp add: unat_div unat_sub)
  then have "unat ?g \<le> unat now" using div_le_dividend [of "unat now - unat (b_last_ms b)" "unat (b_refill_ms b)"] by linarith
  then have "unat ?g < 2 ^ 63" using assms(4) by linarith
  from refill_tokens [OF this, of "b_tokens b" "b_burst b"] assms(1)
  have "ucast (min (ucast (b_tokens b) + ?g) (ucast (b_burst b) :: u64)) = b_burst b"
    by (metis min.absorb2 le_add1 word_unat_eq_iff)
  with True assms(1) show ?thesis by (simp add: bucket_refill_def Let_def)
qed (use assms in \<open>auto simp: bucket_refill_def\<close>)

lemma per_second_full:
  "b_tokens (per_second r t) = b_burst (per_second r t)" "b_last_ms (per_second r t) = t" "0 < b_refill_ms (per_second r t)"
  "b_burst (per_second r t) = max r 1"
  by (simp_all add: per_second_def bucket_new_def max_def word_le_nat_alt word_less_nat_alt)

lemma take_full:
  assumes "t \<le> now" "unat now < 2 ^ 63"
  shows "\<exists>b. bucket_take now (per_second r t) = (True, b) \<and> b_tokens b = max r 1 - 1 \<and> b_last_ms b = now"
  using refill_full [of "per_second r t" now] assms per_second_full [of r t]
  by (auto simp: bucket_take_def Let_def max_def word_less_nat_alt word_le_nat_alt)

lemma position_some: "\<exists>x \<in> set xs. p x \<Longrightarrow> \<exists>i. position p xs = Some i"
  by (induction xs) auto

lemma in_map_filter: "x \<in> set xs \<Longrightarrow> f x = Some y \<Longrightarrow> y \<in> set (List.map_filter f xs)"
  by (induction xs) (auto simp: List.map_filter_simps split: option.split)

lemma load_fresh:
  assumes st: "st = knock_state_new P K default_knock_config hks t0"
    and "src_may_knock S user" "src_keys_for S user = [blob]" "max_sig_blob_len blob \<noteq> None" "t0 \<le> now" "unat now < 2 ^ 63"
  shows "\<exists>st1. load_user_keys P S user src now st = (True, st1) \<and> kn_entries st1 = []
    \<and> kn_key_cache st1 = [(user, \<lparr>ck_loaded_ms = now, ck_keys = [(key_fp P blob, blob)]\<rparr>)]
    \<and> kn_cfg st1 = default_knock_config \<and> kn_verify st1 = kn_verify st \<and> kn_host_keys st1 = kn_host_keys st \<and> kn_nonce_floor st1 = t0"
proof -
  have "\<exists>b. bucket_take now (bucket_with_tokens 10 200 now 10) = (True, b)"
    by (simp add: take_at_birth bucket_with_tokens_def bucket_new_def)
  moreover have "\<exists>b. bucket_take now (per_second 50 t0) = (True, b)" using take_full [OF assms(5,6)] by blast
  ultimately show ?thesis
    using assms(2-4)
    by (auto simp: load_user_keys_def st knock_state_new_def take_prefix_lookup_def take_lookups_def default_knock_config_def
        refresh_user_keys_def usable_keys_def Let_def)
qed

lemma fresh_known_knock:
  assumes cfg: "kn_cfg st = default_knock_config" and verify: "kn_verify st = per_second 1000 t0" "t0 \<le> now" "unat now < 2 ^ 63"
    and sigs: "knock_verify P sha1 blob NS_KNOCK_ID (knock_id_message (k_user k) (k_key_fp k)) (k_sig1 k) = Ok ()"
      "knock_verify P sha1 blob NS_KNOCK (k_signed k) (k_sig2 k) = Ok ()"
    and nonce: "0 < k_nonce k" "kn_nonce_floor st \<le> k_nonce k" and flags: "k_flags k = 0"
    and hk: "\<exists>x \<in> set (kn_host_keys st). snd (snd x) = k_host_fp k \<and> fits_knock (fst (snd x)) False d"
  shows "\<exists>e' st' pa. known_knock P sha1 k blob d src now (knock_entry_new default_knock_config now) st = ((e', st'), Ok (VAccept pa))"
proof -
  let ?e = "knock_entry_new default_knock_config now"
  obtain b1 where b1: "bucket_take now (per_second 1000 t0) = (True, b1)" "b_tokens b1 = 999" "b_last_ms b1 = now"
    using take_full [OF verify(2,3), of 1000] by auto
  obtain e1 where s1: "knock_sig1 P sha1 k blob now ?e st = ((e1, st\<lparr>kn_verify := b1\<rparr>), Ok None)"
    and e1: "ke_last_nonce e1 = 0" "ke_knock_buckets e1 = []" "ke_pending e1 = 0" "ke_newprefix e1 = bucket_new 10 1000 now"
    using sigs(1) b1(1)
    by (simp add: knock_sig1_def knock_entry_new_def default_knock_config_def take_at_birth bucket_new_def take_verify_def verify(1) Let_def)
  obtain e2 where s2: "take_knock_bucket (kn_cfg st) src now e1 = ((True, 0), e2)" "ps_good (ke_knock_buckets e2 ! 0) = False"
    and e2: "ke_newprefix e2 = bucket_new 10 1000 now" "ke_pending e2 = 0"
    using e1 by (simp add: take_knock_bucket_def default_knock_config_def cfg take_at_birth bucket_with_tokens_def bucket_new_def Let_def)
  have np: "bucket_take now (ke_newprefix e2) = (True, (bucket_new 10 1000 now)\<lparr>b_tokens := 9\<rparr>)"
    by (simp add: e2(1) take_at_birth bucket_new_def)
  have v2: "take_verify now (st\<lparr>kn_verify := b1\<rparr>) = (True, st\<lparr>kn_verify := b1\<lparr>b_tokens := 998\<rparr>\<rparr>)"
    using take_at_birth [of b1 now] b1 by (simp add: take_verify_def)
  obtain i where i: "position (\<lambda>(_, blob, fp). fp = k_host_fp k \<and> fits_knock blob False d) (kn_host_keys st) = Some i"
    using position_some [of "kn_host_keys st" "\<lambda>(_, blob, fp). fp = k_host_fp k \<and> fits_knock blob False d"] hk by force
  have "\<exists>e' pa. consume_nonce P k d 0 (e2\<lparr>ke_newprefix := (bucket_new 10 1000 now)\<lparr>b_tokens := 9\<rparr>\<rparr>)
      (st\<lparr>kn_verify := b1\<lparr>b_tokens := 998\<rparr>\<rparr>) = (e', VAccept pa)"
    using e2(2) by (simp add: consume_nonce_def cfg default_knock_config_def flags i Let_def)
  then have "\<exists>e' st' pa. fresh_knock P sha1 k blob d src now e1 (st\<lparr>kn_verify := b1\<rparr>) = ((e', st'), Ok (VAccept pa))"
    using s2 np v2 sigs(2) by (auto simp: fresh_knock_def Let_def)
  moreover have "k_nonce k \<noteq> 0" using nonce(1) by auto
  ultimately show ?thesis using s1 nonce e1(1) by (auto simp: known_knock_def signed_knock_def)
qed

lemma honest_knock:
  assumes scheme: "\<forall>m. length (ed_sign P sk m) = 64 \<and> ed_verify P (ed_public P sk) m (ed_sign P sk m)" "length (ed_public P sk) = 32"
    and blob: "blob = ed25519_public_blob (ed_public P sk)" and signer: "signer = SEd25519 (Some sk) (ed_public P sk)"
    and f: "fields_ok f" "kf_key_fp f = key_fp P blob" "kf_host_fp f = Some hfp"
    and sig1: "knock_sign P (signer_ops P sha1') signer NS_KNOCK_ID (knock_id_message (kf_user f) (key_fp P blob)) = Ok (kf_sig1 f)"
    and build: "knock_build P (signer_ops P sha1') signer f min_len = Ok d"
    and keys: "src_may_knock S (kf_user f)" "src_keys_for S (kf_user f) = [blob]"
    and hk: "hk \<in> set hks" "key_fp P (hk_public_blob K hk) = hfp" "fits_knock (hk_public_blob K hk) False d"
    and time: "abs_diff (kf_nonce f) now \<le> 30000" "t0 \<le> kf_nonce f" "0 < kf_nonce f" "t0 \<le> now" "unat now < 2 ^ 63"
  shows "\<exists>st' pa. knock_handle P sha1 S now src d (knock_state_new P K default_knock_config hks t0) = (st', Ok (VAccept pa))
    \<and> pa_user pa = kf_user f \<and> pa_key_fp pa = key_fp P blob \<and> pa_knock_hash pa = knock_hash P d"
proof -
  let ?st = "knock_state_new P K default_knock_config hks t0"
  obtain pad sig2 where d: "d = knock_head f pad @ str16 sig2" "length d \<le> MAX_DATAGRAM"
    and sig2: "knock_sign P (signer_ops P sha1') signer NS_KNOCK (knock_head f pad) = Ok sig2"
    by (rule knock_build_Ok [OF build])
  let ?k = "built_knock f pad sig2"
  have parse: "knock_parse d = Ok ?k" by (rule knock_parse_built [OF f(1) d])
  obtain st1 where st1: "load_user_keys P S (kf_user f) src now ?st = (True, st1)" "kn_entries st1 = []"
    "kn_key_cache st1 = [(kf_user f, \<lparr>ck_loaded_ms = now, ck_keys = [(key_fp P blob, blob)]\<rparr>)]"
    "kn_cfg st1 = default_knock_config" "kn_verify st1 = kn_verify ?st" "kn_host_keys st1 = kn_host_keys ?st" "kn_nonce_floor st1 = t0"
    using load_fresh [OF refl keys _ time(4,5)] ed25519_sig_len [OF scheme(2)] blob by blast
  have v: "knock_verify P sha1 blob NS_KNOCK_ID (knock_id_message (k_user ?k) (k_key_fp ?k)) (k_sig1 ?k) = Ok ()"
    "knock_verify P sha1 blob NS_KNOCK (k_signed ?k) (k_sig2 ?k) = Ok ()"
    using ed25519_knock_verified [OF scheme sig1 [unfolded signer]] ed25519_knock_verified [OF scheme sig2 [unfolded signer]]
    by (simp_all add: blob built_knock_def f(2))
  have "max_sig_blob_len (hk_public_blob K hk) \<noteq> None"
    using hk(3) by (cases "max_sig_blob_len (hk_public_blob K hk)") (simp_all add: fits_knock_def accept_len_bound_def)
  then have "(hk, hk_public_blob K hk, hfp) \<in> set (kn_host_keys st1)"
    using hk(1,2) by (auto simp: st1(6) knock_state_new_def Let_def intro!: in_map_filter)
  then have host: "\<exists>x \<in> set (kn_host_keys st1). snd (snd x) = k_host_fp ?k \<and> fits_knock (fst (snd x)) False d"
    using hk(2,3) by (force simp: built_knock_def f(3))
  have fields: "kn_verify st1 = per_second 1000 t0" "0 < k_nonce ?k" "kn_nonce_floor st1 \<le> k_nonce ?k" "k_flags ?k = 0"
    using time(2,3) st1(5,7) f(3) by (simp_all add: knock_state_new_def default_knock_config_def built_knock_def)
  obtain e' st' pa where run: "known_knock P sha1 ?k blob d src now (knock_entry_new default_knock_config now) st1 = ((e', st'), Ok (VAccept pa))"
    using fresh_known_knock [OF st1(4) fields(1) time(4,5) v fields(2-4) host] by blast
  have "pa_user pa = kf_user f \<and> pa_key_fp pa = key_fp P blob \<and> pa_knock_hash pa = knock_hash P d"
    using known_knock_frame [OF run] f(2) by (auto simp: built_knock_def)
  then show ?thesis
    using parse st1(1-4) time(1) run f(2)
    by (simp add: knock_handle_def) (simp add: built_knock_def knock_state_new_def default_knock_config_def)
qed


section \<open>Examples\<close>

definition demo_knock_source :: key_source where
  "demo_knock_source = \<lparr>src_keys_for = (\<lambda>_. [demo_blob]), src_may_knock = (\<lambda>_. True)\<rparr>"

definition demo_knock_fields :: "bytes \<Rightarrow> knock_fields" where
  "demo_knock_fields sig1 = \<lparr>kf_user = lit ''alice'', kf_key_fp = key_fp toy_sig demo_blob, kf_sig1 = sig1, kf_nonce = 2000,
     kf_eph_c = replicate 32 1, kf_host_fp = Some (key_fp toy_sig demo_blob)\<rparr>"

lemma demo_sign: "\<exists>sig. knock_sign toy_sig (signer_ops toy_sig False) demo_signer ns m = Ok sig \<and> length sig = 83"
  by (simp add: knock_sign_def signer_ops_def demo_signer_def ed25519_sign_def toy_sig_def encode_simps wire_simps enc_string_length
      ED25519_def min_def)

lemma demo_fp: "length (key_fp toy_sig b) = 32"
  by (simp add: key_fp_def toy_sig_def min_def)

lemma demo_fields_ok: "fields_ok (demo_knock_fields sig1)"
proof -
  have "valid_utf8 (lit ''alice'')" "0 \<notin> set (lit ''alice'')" "lit ''alice'' \<noteq> []" "length (lit ''alice'') \<le> 64" by code_simp+
  then show ?thesis by (simp add: fields_ok_def demo_knock_fields_def demo_fp MAX_USER_LEN_def)
qed

lemma demo_build:
  assumes "length sig1 = 83"
  shows "\<exists>d. knock_build toy_sig (signer_ops toy_sig False) demo_signer (demo_knock_fields sig1) 0 = Ok d \<and> length d = 285"
proof -
  have len: "length (knock_head (demo_knock_fields sig1) 0) = 200"
    using assms by (simp add: knock_head_def demo_knock_fields_def demo_fp str16_def)
  obtain sig2 where "knock_sign toy_sig (signer_ops toy_sig False) demo_signer NS_KNOCK (knock_head (demo_knock_fields sig1) 0) = Ok sig2"
    "length sig2 = 83" using demo_sign by blast
  then have "knock_build_loop toy_sig (signer_ops toy_sig False) demo_signer (demo_knock_fields sig1) 0 n (Suc m)
      = Ok (knock_head (demo_knock_fields sig1) 0 @ str16 sig2)" for n m
    using len by (simp add: str16_def MAX_DATAGRAM_def)
  moreover have "length (knock_head (demo_knock_fields sig1) 0 @ str16 sig2) = 285" using len \<open>length sig2 = 83\<close> by (simp add: str16_def)
  moreover have "\<not> (kf_user (demo_knock_fields sig1) = [] \<or> length (kf_user (demo_knock_fields sig1)) > MAX_USER_LEN)"
    using demo_fields_ok [of sig1] by (simp add: fields_ok_def)
  ultimately show ?thesis by (simp add: knock_build_def numeral_eq_Suc del: knock_build_loop.simps)
qed

definition demo_knock_server :: "signer knock_state" where
  "demo_knock_server = knock_state_new toy_sig (signer_ops toy_sig False) default_knock_config [demo_signer] 1000"

lemma demo_knock:
  "\<exists>d. length d = 285 \<and> (\<exists>st' pa. knock_handle toy_sig False demo_knock_source 3000 (IpV4 [192, 0, 2, 1]) d demo_knock_server = (st', Ok (VAccept pa))
     \<and> pa_user pa = lit ''alice'')"
proof -
  obtain sig1 where sig1: "knock_sign toy_sig (signer_ops toy_sig False) demo_signer NS_KNOCK_ID
      (knock_id_message (lit ''alice'') (key_fp toy_sig demo_blob)) = Ok sig1" "length sig1 = 83" using demo_sign by blast
  obtain d where d: "knock_build toy_sig (signer_ops toy_sig False) demo_signer (demo_knock_fields sig1) 0 = Ok d" "length d = 285"
    using demo_build [OF sig1(2)] by blast
  have blob: "demo_blob = ed25519_public_blob (ed_public toy_sig (replicate 32 7))" "hk_public_blob (signer_ops toy_sig False) demo_signer = demo_blob"
    using demo_scheme(3) by (simp_all add: demo_blob_def signer_ops_def demo_signer_def)
  have fit: "fits_knock demo_blob False d"
    using ed25519_sig_len [of "replicate 32 7"] d(2) by (simp add: fits_knock_def accept_len_bound_def demo_blob_def ACCEPT_HEAD_LEN_def)
  have signer: "demo_signer = SEd25519 (Some (replicate 32 7)) (ed_public toy_sig (replicate 32 7))"
    using demo_scheme(3) by (simp add: demo_signer_def)
  have "\<exists>st' pa. knock_handle toy_sig False demo_knock_source 3000 (IpV4 [192, 0, 2, 1]) d demo_knock_server = (st', Ok (VAccept pa))
     \<and> pa_user pa = kf_user (demo_knock_fields sig1) \<and> pa_key_fp pa = key_fp toy_sig demo_blob \<and> pa_knock_hash pa = knock_hash toy_sig d"
    unfolding demo_knock_server_def
    by (rule honest_knock [where hk = demo_signer, OF demo_scheme(1,2) blob(1) signer demo_fields_ok _ _ _ d(1)])
      (use sig1 fit blob(2) in \<open>simp_all add: demo_knock_fields_def demo_knock_source_def abs_diff_def\<close>)
  with d(2) show ?thesis by (auto simp: demo_knock_fields_def)
qed


lemma demo_grants: "grants toy_sig demo_knock_source u (key_fp toy_sig demo_blob)"
  using ed25519_sig_len [of "replicate 32 7"] by (simp add: grants_def demo_knock_source_def demo_blob_def)

text \<open>The accepted key is the one of the source.\<close>

lemma demo_accept_key:
  assumes "knock_handle toy_sig False demo_knock_source now src d demo_knock_server = (st', Ok (VAccept pa))" "knock_parse d = Ok k"
  shows "k_key_fp k = key_fp toy_sig demo_blob"
proof -
  obtain blob st1 where load: "load_user_keys toy_sig demo_knock_source (k_user k) src now demo_knock_server = (True, st1)"
    and b: "Option.bind (map_of (kn_key_cache st1) (k_user k)) (\<lambda>c. map_of (ck_keys c) (k_key_fp k)) = Some blob"
    using knock_handle_cases [OF assms(1)] assms(2) by (auto simp: reaches_def)
  have "kn_key_cache st1 = [] \<or> kn_key_cache st1 = [(k_user k, \<lparr>ck_loaded_ms = now, ck_keys = usable_keys toy_sig [demo_blob]\<rparr>)]"
    using load by (auto simp: load_user_keys_def demo_knock_server_def knock_state_new_def take_prefix_lookup_def take_lookups_def
        refresh_user_keys_def demo_knock_source_def default_knock_config_def Let_def split: prod.splits if_splits)
  moreover have "usable_keys toy_sig [demo_blob] = [(key_fp toy_sig demo_blob, demo_blob)]"
    using ed25519_sig_len [of "replicate 32 7"] by (simp add: usable_keys_def demo_blob_def)
  ultimately show ?thesis using b by (auto split: if_splits)
qed

lemma demo_knock_run:
  "\<exists>d pa st. length d = 285 \<and> knock_run toy_sig False (signer_ops toy_sig False) X hkdf demo_knock_server [(d, pa)] st"
proof -
  obtain d st pa where d: "length d = 285"
    "knock_handle toy_sig False demo_knock_source 3000 (IpV4 [192, 0, 2, 1]) d demo_knock_server = (st, Ok (VAccept pa))"
    using demo_knock by blast
  have "knock_run toy_sig False (signer_ops toy_sig False) X hkdf demo_knock_server [(d, pa)] st"
  proof (rule knock_run.knock [OF knock_run.start _ d(2)])
    show "\<forall>pa' k. Ok (VAccept pa) = Ok (VAccept pa') \<and> knock_parse d = Ok k \<longrightarrow> grants toy_sig demo_knock_source (k_user k) (k_key_fp k)"
      using demo_accept_key [OF d(2)] demo_grants by simp
  qed simp_all
  with d(1) show ?thesis by blast
qed

abbreviation demo_hkdf :: "bytes \<Rightarrow> bytes \<Rightarrow> bytes \<Rightarrow> nat \<Rightarrow> bytes" where
  "demo_hkdf \<equiv> \<lambda>_ _ _ n. replicate n 0"

theorem knock_accepted_once_witness:
  "\<exists>d pa st. knock_run toy_sig False (signer_ops toy_sig False) toy_kex demo_hkdf demo_knock_server [(d, pa)] st
     \<and> sorted_wrt (<) (nonces_for (lit ''alice'') (key_fp toy_sig demo_blob) [(d, pa)])"
proof -
  obtain d pa st where run: "knock_run toy_sig False (signer_ops toy_sig False) toy_kex demo_hkdf demo_knock_server [(d, pa)] st"
    using demo_knock_run by blast
  from knock_accepted_once [OF run] run show ?thesis by blast
qed

theorem knock_accept_authentic_witness:
  "\<exists>d k blob. knock_parse d = Ok k \<and> knock_verify toy_sig False blob NS_KNOCK (k_signed k) (k_sig2 k) = Ok () \<and> length d = 285"
proof -
  obtain d st' pa where d: "length d = 285"
    "knock_handle toy_sig False demo_knock_source 3000 (IpV4 [192, 0, 2, 1]) d demo_knock_server = (st', Ok (VAccept pa))"
    using demo_knock by blast
  from knock_accept_authentic [OF d(2)] d(1) show ?thesis by blast
qed


end
